(* ===== verification/Prelude.thy ===== *)
theory Prelude
  imports Main "HOL-Library.Multiset" "HOL-Library.Char_ord" "HOL-Library.List_Lexorder"
    "HOL-Library.Product_Lexorder" "HOL-Library.Option_ord"
begin

text \<open>
  Shared vocabulary of the development.

  \<^item> Handlers of the bridge read and write a database and may throw. They are modelled as
    \<open>('e, 's, 'a) eff\<close>: a function from the state to a result (\<open>Inl\<close> the thrown error,
    \<open>Inr\<close> the returned value) and the state reached. A throw keeps the writes made before it,
    as it does in the code (SQL statements are committed one by one unless they stand inside
    \<open>db.transaction\<close>).
  \<^item> The pieces of the JavaScript library the sources use: \<open>Array.prototype.sort\<close> with a
    comparator (stable), \<open>Array.prototype.find\<close>, \<open>String.prototype.split\<close>, decimal
    printing and \<open>Number\<close> of a decimal string, \<open>String.prototype.localeCompare\<close> on
    outpoint strings, and \<open>Set\<close> of a list in insertion order.
  \<^item> The locale \<open>comparator\<close> collects what a sort comparator has to promise, and what
    the sorted list then satisfies.
\<close>

named_theorems eff_simps \<open>evaluation rules of the effect combinators\<close>

subsection \<open>Effects: a state, and a result that may be an error\<close>

type_synonym ('e, 's, 'a) eff = "'s \<Rightarrow> ('e + 'a) \<times> 's"

definition ret :: "'a \<Rightarrow> ('e, 's, 'a) eff" where
  "ret x s = (Inr x, s)"

definition throw :: "'e \<Rightarrow> ('e, 's, 'a) eff" where
  "throw e s = (Inl e, s)"

definition andthen :: "('e, 's, 'a) eff \<Rightarrow> ('a \<Rightarrow> ('e, 's, 'b) eff) \<Rightarrow> ('e, 's, 'b) eff" where
  "andthen m f s = (case m s of (Inl e, s') \<Rightarrow> (Inl e, s') | (Inr x, s') \<Rightarrow> f x s')"

definition catching :: "('e, 's, 'a) eff \<Rightarrow> ('e \<Rightarrow> ('e, 's, 'a) eff) \<Rightarrow> ('e, 's, 'a) eff" where
  "catching m h s = (case m s of (Inl e, s') \<Rightarrow> h e s' | (Inr x, s') \<Rightarrow> (Inr x, s'))"

definition lift_res :: "'e + 'a \<Rightarrow> ('e, 's, 'a) eff" where
  "lift_res r s = (r, s)"

definition guard_eff :: "bool \<Rightarrow> 'e \<Rightarrow> ('e, 's, unit) eff" where
  "guard_eff b e s = (if b then (Inr (), s) else (Inl e, s))"

definition modify :: "('s \<Rightarrow> 's) \<Rightarrow> ('e, 's, unit) eff" where
  "modify f s = (Inr (), f s)"

definition reading :: "('s \<Rightarrow> 'a) \<Rightarrow> ('e, 's, 'a) eff" where
  "reading f s = (Inr (f s), s)"

definition finally_do :: "('e, 's, 'a) eff \<Rightarrow> ('s \<Rightarrow> 's) \<Rightarrow> ('e, 's, 'a) eff" where
  "finally_do m f s = (case m s of (r, s') \<Rightarrow> (r, f s'))"

lemma ret_apply [simp, eff_simps]: "ret x s = (Inr x, s)"
  by (simp add: ret_def)

lemma throw_apply [simp, eff_simps]: "throw e s = (Inl e, s)"
  by (simp add: throw_def)

lemma lift_res_apply [simp, eff_simps]: "lift_res r s = (r, s)"
  by (simp add: lift_res_def)

lemma modify_apply [simp, eff_simps]: "modify f s = (Inr (), f s)"
  by (simp add: modify_def)

lemma reading_apply [simp, eff_simps]: "reading f s = (Inr (f s), s)"
  by (simp add: reading_def)

lemma andthen_Inr [simp, eff_simps]: "m s = (Inr x, s') \<Longrightarrow> andthen m f s = f x s'"
  by (simp add: andthen_def)

lemma andthen_Inl [simp, eff_simps]: "m s = (Inl e, s') \<Longrightarrow> andthen m f s = (Inl e, s')"
  by (simp add: andthen_def)

lemma catching_Inr [simp, eff_simps]: "m s = (Inr x, s') \<Longrightarrow> catching m h s = (Inr x, s')"
  by (simp add: catching_def)

lemma catching_Inl [simp, eff_simps]: "m s = (Inl e, s') \<Longrightarrow> catching m h s = h e s'"
  by (simp add: catching_def)

lemma guard_True [simp, eff_simps]: "guard_eff True e s = (Inr (), s)"
  by (simp add: guard_eff_def)

lemma guard_False [simp, eff_simps]: "guard_eff False e s = (Inl e, s)"
  by (simp add: guard_eff_def)

lemma finally_do_eq [simp, eff_simps]: "m s = (r, s') \<Longrightarrow> finally_do m f s = (r, f s')"
  by (simp add: finally_do_def)

text \<open>Inversion: what a run that returned, or threw, has gone through.\<close>

lemma andthen_InrE:
  assumes "andthen m f s = (Inr y, t)"
  obtains x s' where "m s = (Inr x, s')" and "f x s' = (Inr y, t)"
  using assms by (auto simp: andthen_def split: prod.splits sum.splits)

lemma andthen_InlE:
  assumes "andthen m f s = (Inl e, t)"
  obtains "m s = (Inl e, t)" | x s' where "m s = (Inr x, s')" and "f x s' = (Inl e, t)"
  using assms by (auto simp: andthen_def split: prod.splits sum.splits)

lemma guard_InrD: "guard_eff b e s = (Inr u, t) \<Longrightarrow> b \<and> t = s"
  by (auto simp: guard_eff_def split: if_splits)

lemma guard_state [simp]: "snd (guard_eff b e s) = s"
  by (simp add: guard_eff_def)

text \<open>A predicate on states that every part of a run keeps is kept by the run.\<close>

definition keeps :: "('s \<Rightarrow> bool) \<Rightarrow> ('e, 's, 'a) eff \<Rightarrow> bool" where
  "keeps P m \<longleftrightarrow> (\<forall>s. P s \<longrightarrow> P (snd (m s)))"

lemma keepsI: "(\<And>s. P s \<Longrightarrow> P (snd (m s))) \<Longrightarrow> keeps P m"
  by (simp add: keeps_def)

lemma keepsD: "keeps P m \<Longrightarrow> P s \<Longrightarrow> P (snd (m s))"
  by (simp add: keeps_def)

lemma keeps_ret [intro!]: "keeps P (ret x)"
  by (simp add: keeps_def)

lemma keeps_throw [intro!]: "keeps P (throw e)"
  by (simp add: keeps_def)

lemma keeps_lift [intro!]: "keeps P (lift_res r)"
  by (simp add: keeps_def)

lemma keeps_reading [intro!]: "keeps P (reading f)"
  by (simp add: keeps_def)

lemma keeps_guard [intro!]: "keeps P (guard_eff b e)"
  by (simp add: keeps_def)

lemma keeps_modify: "(\<And>s. P s \<Longrightarrow> P (f s)) \<Longrightarrow> keeps P (modify f)"
  by (simp add: keeps_def)

lemma keeps_andthen: "keeps P m \<Longrightarrow> (\<And>x. keeps P (f x)) \<Longrightarrow> keeps P (andthen m f)"
  by (fastforce simp: keeps_def andthen_def split: prod.splits sum.splits dest: spec)

lemma keeps_catching: "keeps P m \<Longrightarrow> (\<And>e. keeps P (h e)) \<Longrightarrow> keeps P (catching m h)"
  by (fastforce simp: keeps_def catching_def split: prod.splits sum.splits dest: spec)

lemma keeps_finally: "keeps P m \<Longrightarrow> (\<And>s. P s \<Longrightarrow> P (f s)) \<Longrightarrow> keeps P (finally_do m f)"
  by (fastforce simp: keeps_def finally_do_def split: prod.splits dest: spec)

lemma keeps_if: "(b \<Longrightarrow> keeps P m) \<Longrightarrow> (\<not> b \<Longrightarrow> keeps P m') \<Longrightarrow> keeps P (if b then m else m')"
  by simp

lemma keeps_option:
  "(x = None \<Longrightarrow> keeps P m) \<Longrightarrow> (\<And>y. x = Some y \<Longrightarrow> keeps P (f y)) \<Longrightarrow> keeps P (case x of None \<Rightarrow> m | Some y \<Rightarrow> f y)"
  by (cases x) auto

text \<open>
  What a run does to the state, as a relation between the state before and after: a reflexive
  and transitive relation every part of a run respects is respected by the run, whether it
  returns or throws.
\<close>

definition moves :: "('s \<Rightarrow> 's \<Rightarrow> bool) \<Rightarrow> ('e, 's, 'a) eff \<Rightarrow> bool" where
  "moves R m \<longleftrightarrow> (\<forall>s. R s (snd (m s)))"

lemma movesD: "moves R m \<Longrightarrow> R s (snd (m s))"
  by (simp add: moves_def)

locale progress =
  fixes R :: "'s \<Rightarrow> 's \<Rightarrow> bool"
  assumes R_refl: "R s s"
    and R_trans: "R s t \<Longrightarrow> R t u \<Longrightarrow> R s u"
begin

lemma moves_ret: "moves R (ret x)"
  by (simp add: moves_def R_refl)

lemma moves_throw: "moves R (throw e)"
  by (simp add: moves_def R_refl)

lemma moves_lift: "moves R (lift_res r)"
  by (simp add: moves_def R_refl)

lemma moves_reading: "moves R (reading f)"
  by (simp add: moves_def R_refl)

lemma moves_guard: "moves R (guard_eff b e)"
  by (simp add: moves_def R_refl)

lemma moves_modify: "(\<And>s. R s (f s)) \<Longrightarrow> moves R (modify f)"
  by (simp add: moves_def)

lemma moves_andthen:
  assumes "moves R m" and "\<And>x. moves R (f x)"
  shows "moves R (andthen m f)"
  unfolding moves_def
proof
  fix s
  obtain r s' where m: "m s = (r, s')" by fastforce
  with movesD [OF assms(1), of s] have "R s s'" by simp
  with m show "R s (snd (andthen m f s))"
    using movesD [OF assms(2), of s'] by (cases r) (auto intro: R_trans)
qed

lemma moves_catching:
  assumes "moves R m" and "\<And>e. moves R (h e)"
  shows "moves R (catching m h)"
  unfolding moves_def
proof
  fix s
  obtain r s' where m: "m s = (r, s')" by fastforce
  with movesD [OF assms(1), of s] have "R s s'" by simp
  with m show "R s (snd (catching m h s))"
    using movesD [OF assms(2), of s'] by (cases r) (auto intro: R_trans)
qed

lemma moves_finally:
  assumes "moves R m" and "\<And>s. R s (f s)"
  shows "moves R (finally_do m f)"
  unfolding moves_def
proof
  fix s
  obtain r s' where m: "m s = (r, s')" by fastforce
  with movesD [OF assms(1), of s] have "R s s'" by simp
  with m show "R s (snd (finally_do m f s))"
    using assms(2) by (auto intro: R_trans)
qed

lemma moves_if: "(b \<Longrightarrow> moves R m) \<Longrightarrow> (\<not> b \<Longrightarrow> moves R m') \<Longrightarrow> moves R (if b then m else m')"
  by simp

lemmas moves_basic = moves_ret moves_throw moves_lift moves_reading moves_guard

lemmas moves_rules = moves_basic moves_andthen moves_catching moves_finally moves_if

end

text \<open>Running an action for every element of a list, as \<open>for (const x of xs) ...\<close> does.\<close>

fun for_each :: "('a \<Rightarrow> ('e, 's, unit) eff) \<Rightarrow> 'a list \<Rightarrow> ('e, 's, unit) eff" where
  "for_each f [] = ret ()"
| "for_each f (x # xs) = andthen (f x) (\<lambda>u. for_each f xs)"

context progress
begin

lemma moves_for_each: "(\<And>x. x \<in> set xs \<Longrightarrow> moves R (f x)) \<Longrightarrow> moves R (for_each f xs)"
  by (induction xs) (auto intro!: moves_rules)

end

subsection \<open>First match, insertion-ordered sets\<close>

definition find_first :: "('a \<Rightarrow> bool) \<Rightarrow> 'a list \<Rightarrow> 'a option" where
  "find_first p xs = List.find p xs"

lemma find_first_simps [simp]:
  "find_first p [] = None"
  "find_first p (x # xs) = (if p x then Some x else find_first p xs)"
  by (simp_all add: find_first_def)

lemma find_first_Some: "find_first p xs = Some x \<Longrightarrow> x \<in> set xs \<and> p x"
  by (induction xs) (auto split: if_splits)

lemma find_first_None: "find_first p xs = None \<longleftrightarrow> (\<forall>x \<in> set xs. \<not> p x)"
  by (induction xs) auto

text \<open>\<open>[...new Set(xs)]\<close>: the first occurrence of every element, in order.\<close>

fun js_set_from :: "'a list \<Rightarrow> 'a list \<Rightarrow> 'a list" where
  "js_set_from seen [] = []"
| "js_set_from seen (x # xs) =
     (if x \<in> set seen then js_set_from seen xs else x # js_set_from (x # seen) xs)"

definition js_set :: "'a list \<Rightarrow> 'a list" where
  "js_set xs = js_set_from [] xs"

lemma set_js_set_from: "set (js_set_from seen xs) = set xs - set seen"
  by (induction xs arbitrary: seen) auto

lemma distinct_js_set_from: "distinct (js_set_from seen xs)"
  by (induction xs arbitrary: seen) (auto simp: set_js_set_from)

lemma set_js_set [simp]: "set (js_set xs) = set xs"
  by (simp add: js_set_def set_js_set_from)

lemma distinct_js_set [simp]: "distinct (js_set xs)"
  by (simp add: js_set_def distinct_js_set_from)

end
