(* ===== verification/Js_Lib.thy ===== *)
theory Js_Lib
  imports Prelude
begin

text \<open>
  The parts of the JavaScript standard library the sources rely on.

  \<^item> \<open>js_sort\<close>: \<open>Array.prototype.sort\<close> with a comparator, a stable sort. The locale
    \<open>comparator\<close> states what a comparator has to satisfy; inside it the result is shown sorted.
  \<^item> \<open>show_nat\<close> / \<open>js_number\<close>: decimal printing and \<open>Number(s)\<close> on decimal strings,
    inverse to each other; \<open>js_split\<close>: \<open>String.prototype.split\<close> on one character.
  \<^item> \<open>outpoint_key\<close>: the template \<open>txid:vout\<close> used as key of maps and sets everywhere in
    the bridge, injective; \<open>parse_outpoint\<close>: the two-element destructuring of its split.
  \<^item> \<open>locale_compare\<close>: \<open>localeCompare\<close> on outpoint strings. On their alphabet (hex digits,
    the colon) the root collation is lexicographic with punctuation before digits before letters.
\<close>

subsection \<open>Stable sorting by a comparator\<close>

fun cmp_insert :: "('a \<Rightarrow> 'a \<Rightarrow> int) \<Rightarrow> 'a \<Rightarrow> 'a list \<Rightarrow> 'a list" where
  "cmp_insert cmp x [] = [x]"
| "cmp_insert cmp x (y # ys) = (if cmp x y \<le> 0 then x # y # ys else y # cmp_insert cmp x ys)"

fun js_sort :: "('a \<Rightarrow> 'a \<Rightarrow> int) \<Rightarrow> 'a list \<Rightarrow> 'a list" where
  "js_sort cmp [] = []"
| "js_sort cmp (x # xs) = cmp_insert cmp x (js_sort cmp xs)"

lemma mset_cmp_insert [simp]: "mset (cmp_insert cmp x ys) = add_mset x (mset ys)"
  by (induction ys) auto

lemma mset_js_sort [simp]: "mset (js_sort cmp xs) = mset xs"
  by (induction xs) auto

lemma set_cmp_insert [simp]: "set (cmp_insert cmp x ys) = insert x (set ys)"
  by (induction ys) auto

lemma set_js_sort [simp]: "set (js_sort cmp xs) = set xs"
  by (induction xs) auto

lemma length_js_sort [simp]: "length (js_sort cmp xs) = length xs"
  by (metis mset_js_sort size_mset)

lemma distinct_js_sort [simp]: "distinct (js_sort cmp xs) = distinct xs"
  by (metis mset_js_sort mset_eq_imp_distinct_iff)

lemma sum_list_js_sort: "sum_list (map f (js_sort cmp xs)) = (sum_list (map f xs) :: int)"
  by (metis mset_js_sort mset_map sum_mset_sum_list)

lemma sum_list_mset_le:
  assumes "mset xs \<subseteq># mset ys" and "\<And>y. y \<in> set ys \<Longrightarrow> (0::int) \<le> f y"
  shows "sum_list (map f xs) \<le> sum_list (map f ys)"
proof -
  obtain d where d: "mset ys = mset xs + d"
    using assms(1) by (metis mset_subset_eq_exists_conv)
  obtain zs where zs: "mset zs = d" using ex_mset by blast
  have "mset ys = mset (xs @ zs)" using d zs by simp
  then have "sum_list (map f ys) = sum_list (map f (xs @ zs))"
    by (metis mset_map sum_mset_sum_list)
  moreover have "0 \<le> sum_list (map f zs)"
  proof (rule sum_list_nonneg)
    fix n assume "n \<in> set (map f zs)"
    then obtain z where "z \<in> set zs" "n = f z" by auto
    moreover from \<open>z \<in> set zs\<close> have "z \<in> set ys"
      by (metis UnI2 \<open>mset ys = mset (xs @ zs)\<close> mset_eq_setD set_append)
    ultimately show "0 \<le> n" using assms(2) by simp
  qed
  ultimately show ?thesis by simp
qed

locale comparator =
  fixes cmp :: "'a \<Rightarrow> 'a \<Rightarrow> int"
  assumes cmp_antisym: "cmp y x = - cmp x y"
    and cmp_trans: "cmp x y \<le> 0 \<Longrightarrow> cmp y z \<le> 0 \<Longrightarrow> cmp x z \<le> 0"
begin

lemma cmp_total: "cmp x y \<le> 0 \<or> cmp y x \<le> 0"
  using cmp_antisym [of y x] by linarith

lemma sorted_cmp_insert:
  "sorted_wrt (\<lambda>a b. cmp a b \<le> 0) ys \<Longrightarrow> sorted_wrt (\<lambda>a b. cmp a b \<le> 0) (cmp_insert cmp x ys)"
proof (induction ys)
  case Nil
  then show ?case by simp
next
  case (Cons y ys)
  show ?case
  proof (cases "cmp x y \<le> 0")
    case True
    with Cons.prems show ?thesis by (auto intro: cmp_trans)
  next
    case False
    then have "cmp y x \<le> 0" using cmp_total by blast
    with Cons False show ?thesis by auto
  qed
qed

lemma sorted_js_sort: "sorted_wrt (\<lambda>a b. cmp a b \<le> 0) (js_sort cmp xs)"
  by (induction xs) (auto intro: sorted_cmp_insert)

lemma cmp_refl: "cmp x x \<le> 0"
  using cmp_total by blast

text \<open>\<open>xs.reduce((best, c) => cmp(c, best) < 0 ? c : best)\<close> over a non-empty list.\<close>

lemma fold_min_le:
  assumes "y \<in> insert b (set xs)"
  shows "cmp (foldl (\<lambda>best c. if cmp c best < 0 then c else best) b xs) y \<le> 0"
  using assms
proof (induction xs arbitrary: b y)
  case Nil
  then show ?case by (simp add: cmp_refl)
next
  case (Cons x xs)
  let ?b = "if cmp x b < 0 then x else b"
  have b: "cmp ?b b \<le> 0" and x: "cmp ?b x \<le> 0"
    using cmp_antisym [of x b] by (auto simp: cmp_refl)
  have IH: "cmp (foldl (\<lambda>best c. if cmp c best < 0 then c else best) ?b xs) z \<le> 0"
    if "z \<in> insert ?b (set xs)" for z
    using Cons.IH that by blast
  from Cons.prems consider "y = b" | "y = x" | "y \<in> set xs" by auto
  then show ?case
  proof cases
    case 1
    then show ?thesis using IH [of ?b] b by (auto intro: cmp_trans)
  next
    case 2
    then show ?thesis using IH [of ?b] x by (auto intro: cmp_trans)
  next
    case 3
    then show ?thesis using IH by simp
  qed
qed

end

lemma foldl_choice_in:
  "foldl (\<lambda>best c. if P c best then c else best) b xs \<in> insert b (set xs)"
  by (induction xs arbitrary: b) fastforce+

subsection \<open>Combining comparators\<close>

text \<open>\<open>a || b\<close> on the numbers two comparisons return.\<close>

definition js_or :: "int \<Rightarrow> int \<Rightarrow> int" where
  "js_or a b = (if a \<noteq> 0 then a else b)"

lemma comparator_diff: "comparator (\<lambda>x y. k x - k y)"
  by unfold_locales auto

lemma comparator_map: "comparator f \<Longrightarrow> comparator (\<lambda>x y. f (g x) (g y))"
  unfolding comparator_def by blast

lemma comparator_js_or:
  assumes f: "comparator f" and g: "comparator g"
  shows "comparator (\<lambda>x y. js_or (f x y) (g x y))"
proof
  show "js_or (f y x) (g y x) = - js_or (f x y) (g x y)" for x y
    using comparator.cmp_antisym [OF f, of y x] comparator.cmp_antisym [OF g, of y x]
    by (simp add: js_or_def)
next
  fix x y z
  assume xy: "js_or (f x y) (g x y) \<le> 0" and yz: "js_or (f y z) (g y z) \<le> 0"
  have fxy: "f x y \<le> 0" and fyz: "f y z \<le> 0"
    using xy yz by (auto simp: js_or_def split: if_splits)
  then have fxz: "f x z \<le> 0" by (rule comparator.cmp_trans [OF f])
  show "js_or (f x z) (g x z) \<le> 0"
  proof (cases "f x z = 0")
    case False
    with fxz show ?thesis by (simp add: js_or_def)
  next
    case True
    then have "f z x \<le> 0" using comparator.cmp_antisym [OF f, of z x] by simp
    then have "f y x \<le> 0" and "f z y \<le> 0"
      using comparator.cmp_trans [OF f] fyz fxy by blast+
    then have "f x y = 0" and "f y z = 0"
      using fxy fyz comparator.cmp_antisym [OF f, of x y] comparator.cmp_antisym [OF f, of y z]
      by linarith+
    with xy yz have "g x y \<le> 0" and "g y z \<le> 0" by (simp_all add: js_or_def)
    then have "g x z \<le> 0" by (rule comparator.cmp_trans [OF g])
    with True show ?thesis by (simp add: js_or_def)
  qed
qed

text \<open>The order of strings and of a nullable column in \<open>ORDER BY\<close> (\<open>NULL\<close> first).\<close>

definition ord_cmp :: "'a::linorder \<Rightarrow> 'a \<Rightarrow> int" where
  "ord_cmp a b = (if a < b then -1 else if b < a then 1 else 0)"

lemma comparator_ord: "comparator (ord_cmp :: 'a::linorder \<Rightarrow> 'a \<Rightarrow> int)"
  by unfold_locales (auto simp: ord_cmp_def split: if_splits)

lemma ord_cmp_le: "ord_cmp a b \<le> 0 \<longleftrightarrow> a \<le> b"
  by (auto simp: ord_cmp_def)

subsection \<open>Decimal numerals\<close>

definition digit_char :: "nat \<Rightarrow> char" where
  "digit_char d = char_of (48 + d)"

fun show_nat :: "nat \<Rightarrow> string" where
  "show_nat n = (if n < 10 then [digit_char n] else show_nat (n div 10) @ [digit_char (n mod 10)])"

declare show_nat.simps [simp del]

definition is_digit :: "char \<Rightarrow> bool" where
  "is_digit c \<longleftrightarrow> 48 \<le> (of_char c :: nat) \<and> (of_char c :: nat) \<le> 57"

definition digits_value :: "string \<Rightarrow> nat" where
  "digits_value s = foldl (\<lambda>n c. 10 * n + (of_char c - 48)) 0 s"

text \<open>\<open>Number(s)\<close>: a decimal string is its value and the empty string is 0; anything else is
  \<open>NaN\<close> here (\<open>None\<close>). Signs, fractions, exponents and blanks never occur in an outpoint.\<close>

definition js_number :: "string \<Rightarrow> nat option" where
  "js_number s = (if list_all is_digit s then Some (digits_value s) else None)"

lemma of_char_digit: "d < 10 \<Longrightarrow> (of_char (digit_char d) :: nat) = 48 + d"
  by (simp add: digit_char_def)

lemma is_digit_digit_char: "d < 10 \<Longrightarrow> is_digit (digit_char d)"
  by (simp add: is_digit_def of_char_digit)

lemma show_nat_digits: "list_all is_digit (show_nat n)"
proof (induction n rule: show_nat.induct)
  case (1 n)
  then show ?case by (subst show_nat.simps) (auto simp: is_digit_digit_char)
qed

lemma digits_value_snoc: "digits_value (s @ [c]) = 10 * digits_value s + (of_char c - 48)"
  by (simp add: digits_value_def)

lemma digits_value_show: "digits_value (show_nat n) = n"
proof (induction n rule: show_nat.induct)
  case (1 n)
  show ?case
  proof (cases "n < 10")
    case True
    then show ?thesis by (subst show_nat.simps) (simp add: digits_value_def of_char_digit)
  next
    case False
    with 1 show ?thesis by (subst show_nat.simps) (simp add: digits_value_snoc of_char_digit)
  qed
qed

lemma js_number_show [simp]: "js_number (show_nat n) = Some n"
  by (simp add: js_number_def show_nat_digits digits_value_show)

lemma show_nat_inj: "show_nat m = show_nat n \<longleftrightarrow> m = n"
  by (metis digits_value_show)

lemma colon_not_digit: "\<not> is_digit (CHR '':'')"
  by (simp add: is_digit_def)

lemma colon_notin_show: "CHR '':'' \<notin> set (show_nat n)"
  using show_nat_digits [of n] colon_not_digit by (auto simp: list_all_iff)

subsection \<open>Splitting, outpoint keys\<close>

fun js_split :: "char \<Rightarrow> string \<Rightarrow> string list" where
  "js_split c [] = [[]]"
| "js_split c (x # xs) =
     (if x = c then [] # js_split c xs
      else (case js_split c xs of [] \<Rightarrow> [[x]] | p # ps \<Rightarrow> (x # p) # ps))"

lemma js_split_nonempty: "js_split c s \<noteq> []"
  by (induction s) (auto split: list.splits)

lemma js_split_no_sep: "c \<notin> set s \<Longrightarrow> js_split c s = [s]"
  by (induction s) auto

lemma js_split_append: "c \<notin> set s \<Longrightarrow> js_split c (s @ c # t) = s # js_split c t"
  by (induction s) auto

definition outpoint_key :: "string \<Rightarrow> nat \<Rightarrow> string" where
  "outpoint_key txid vout = txid @ CHR '':'' # show_nat vout"

text \<open>The last colon ends the txid, because the decimal index holds none.\<close>

lemma append_last_sep_inj:
  assumes "c \<notin> set t" and "c \<notin> set t'" and "s @ c # t = s' @ c # t'"
  shows "s = s' \<and> t = t'"
proof -
  have *: "s = s' \<and> t = t'" if "us @ c # t = c # t'" "s = s' @ us" "c \<notin> set t'" for s s' t t' us
    using that by (cases us) auto
  from assms(3) obtain us where "s = s' @ us \<and> us @ c # t = c # t' \<or> s @ us = s' \<and> c # t = us @ c # t'"
    by (auto simp: append_eq_append_conv2)
  then show ?thesis
    using * [of us t t' s s'] * [of us t' t s' s] assms(1,2) by auto
qed

lemma outpoint_key_inj [simp]:
  "outpoint_key t v = outpoint_key t' v' \<longleftrightarrow> t = t' \<and> v = v'"
  unfolding outpoint_key_def
  using append_last_sep_inj [OF colon_notin_show colon_notin_show] show_nat_inj by blast

text \<open>\<open>const [txid, voutStr] = s.split(':')\<close>, then the guards
  \<open>!txid || voutStr === undefined\<close> and \<open>Number(voutStr)\<close>. A non-decimal index is \<open>NaN\<close> in the
  code, which equals no index; it is reported as \<open>None\<close> in the second component.\<close>

definition parse_outpoint :: "string \<Rightarrow> (string \<times> nat option) option" where
  "parse_outpoint s =
     (case js_split (CHR '':'') s of
        txid # voutStr # _ \<Rightarrow> (if txid = [] then None else Some (txid, js_number voutStr))
      | _ \<Rightarrow> None)"

lemma parse_outpoint_key:
  "CHR '':'' \<notin> set t \<Longrightarrow> t \<noteq> [] \<Longrightarrow> parse_outpoint (outpoint_key t v) = Some (t, Some v)"
  by (simp add: parse_outpoint_def outpoint_key_def js_split_append
      js_split_no_sep colon_notin_show)

subsection \<open>Comparing outpoint strings\<close>

definition collation_weight :: "char \<Rightarrow> int" where
  "collation_weight c = (if c = CHR '':'' then 0 else 1 + of_char c)"

fun locale_compare :: "string \<Rightarrow> string \<Rightarrow> int" where
  "locale_compare [] [] = 0"
| "locale_compare [] (y # ys) = -1"
| "locale_compare (x # xs) [] = 1"
| "locale_compare (x # xs) (y # ys) =
     (if collation_weight x < collation_weight y then -1
      else if collation_weight y < collation_weight x then 1
      else locale_compare xs ys)"

lemma collation_weight_inj [simp]: "collation_weight x = collation_weight y \<longleftrightarrow> x = y"
proof -
  have pos: "0 \<le> (of_char c :: int)" for c
    by (metis of_nat_0_le_iff of_nat_of_char)
  show ?thesis
    unfolding collation_weight_def using pos [of x] pos [of y]
    by (simp split: if_split)
qed

lemma locale_compare_self [simp]: "locale_compare xs xs = 0"
  by (induction xs) simp_all

lemma locale_compare_antisym: "locale_compare ys xs = - locale_compare xs ys"
  by (induction xs ys rule: locale_compare.induct) simp_all

lemma weight_cases:
  obtains "collation_weight x < collation_weight y" | "x = y" | "collation_weight y < collation_weight x"
  using collation_weight_inj [of x y] by (metis linorder_cases)

lemma locale_compare_eq_0: "locale_compare xs ys = 0 \<longleftrightarrow> xs = ys"
proof (induction xs ys rule: locale_compare.induct)
  case (4 x xs y ys)
  show ?case by (rule weight_cases [of x y]) (use 4 in auto)
qed simp_all

lemma locale_compare_trans:
  "locale_compare xs ys \<le> 0 \<Longrightarrow> locale_compare ys zs \<le> 0 \<Longrightarrow> locale_compare xs zs \<le> 0"
proof (induction xs ys arbitrary: zs rule: locale_compare.induct)
  case (2 y ys zs)
  then show ?case by (cases zs) simp_all
next
  case (4 x xs y ys zs)
  show ?case
  proof (cases zs)
    case Nil
    with 4 show ?thesis by simp
  next
    case (Cons z zs')
    have le: "collation_weight x \<le> collation_weight y" "collation_weight y \<le> collation_weight z"
      using 4(2,3) Cons by (auto split: if_splits)
    show ?thesis
    proof (cases "collation_weight x < collation_weight z")
      case True
      with Cons show ?thesis by simp
    next
      case False
      with le have "x = y" "y = z"
        using collation_weight_inj by fastforce+
      with 4 Cons show ?thesis by simp
    qed
  qed
qed simp_all

interpretation loc: comparator locale_compare
  using locale_compare_antisym locale_compare_trans by unfold_locales blast+

end
