(* ===== verification/Bridge_Types.thy ===== *)
theory Bridge_Types
  imports Js_Lib
begin

text \<open>
  The data of the bridge: the tables of \<open>src/db.ts\<close> as records, the enumerations of the swap
  and exit code, the coins and chain entries the SDK hands over, and the whole persistent state
  \<open>db\<close> with the one module-level set (\<open>inflightSends\<close>) the swap code keeps in memory, the
  log of outward calls and the count of answers awaited.

  Conventions: sats, millisats, times and locktimes are \<open>int\<close> (the code holds them in
  JavaScript numbers or bigints far below 2^53); hex strings, txids, addresses and base64
  payloads are \<open>string\<close>; a nullable column or an optional field is an \<open>option\<close>; an output
  index is a \<open>nat\<close>. A table is the list of its rows in insertion order. Columns that only feed
  the display and are written nowhere else are left out.

  Errors are values of \<open>err\<close>. \<open>Error m\<close> stands for \<open>throw new Error(...)\<close>, with
  \<open>m\<close> the constant part of the message (the interpolated numbers are not modelled).
\<close>

subsection \<open>Enumerations\<close>

datatype swap_direction = Send | Receive

text \<open>\<open>AtomicSwapState = SendState | ReceiveState\<close>: one type, as the column holds both.\<close>

datatype swap_state =
    Init | Invoice_issued | Funded | Ln_inflight | Claimed | Settled
  | Refund_wait | Refunded | Cancelled | Failed

datatype chain_tx_type = COMMITMENT | ARK | TREE | CHECKPOINT | UNSPECIFIED

datatype vtxo_source = Wallet_source | Atomic_source

datatype exit_op_state = Unrolling | Waiting | Sweepable | Swept | Op_failed

datatype tx_type = Incoming | Outgoing

datatype tx_state = Tx_pending | Tx_settled | Tx_failed | Tx_expired

datatype history_kind = Nwc_ln | Web_ln | Noffer_in | Ark_send | Onboard | Offboard

datatype budget_renewal = Never | Daily | Weekly | Monthly

datatype err =
    Error string
  | Unknown_state swap_direction swap_state
  | Illegal_transition swap_direction swap_state swap_state
  | Duplicate_swap string
  | Subdust_edge string
  | Refund_not_yet
  | Network_error "string option"
  | Nwc_error string string

subsection \<open>Coins and chain entries as the SDK and the indexer hand them over\<close>

text \<open>The fields of \<open>VirtualCoin\<close> / \<open>ExtendedVirtualCoin\<close> the bridge reads. \<open>c_state\<close>,
  \<open>c_batchExpiry\<close> and \<open>c_commitmentTxIds\<close> live under \<open>virtualStatus\<close>; an absent
  \<open>virtualStatus\<close> is all three absent. \<open>c_tapTree\<close> is the hex of the encoded tap tree.\<close>

record vcoin =
  c_txid :: string
  c_vout :: nat
  c_value :: int
  c_script :: string
  c_tapTree :: string
  c_state :: "string option"
  c_batchExpiry :: "int option"
  c_commitmentTxIds :: "string list option"
  c_spentBy :: "string option"
  c_settledBy :: "string option"
  c_arkTxId :: "string option"
  c_isSpent :: bool
  c_isUnrolled :: bool

text \<open>\<open>ChainTx\<close>: an entry of a vtxo's ancestry. \<open>spends\<close> is absent on commitments.\<close>

record chain_tx =
  ct_txid :: string
  ct_type :: chain_tx_type
  ct_spends :: "string list option"

subsection \<open>Tables\<close>

record presig =
  ps_arkTx :: string
  ps_checkpoint :: string

record swap_row =
  s_id :: string
  s_direction :: swap_direction
  s_paymentHash :: string
  s_state :: swap_state
  s_amount :: int
  s_refundLocktime :: int
  s_fundingOutpoint :: "string option"
  s_presigs :: "presig option"
  s_preimage :: "string option"
  s_invoice :: "string option"
  s_peerPubkey :: "string option"
  s_exitDelay :: "int option"
  s_createdAt :: int
  s_updatedAt :: int

text \<open>\<open>VaultVtxoSnapshot\<close> is \<open>VaultVtxo\<close> without the three columns the collector owns.\<close>

record vault_snapshot =
  v_txid :: string
  v_vout :: nat
  v_valueSat :: int
  v_source :: vtxo_source
  v_script :: string
  v_tapTree :: string
  v_status :: string
  v_expiresAt :: "int option"
  v_chain :: "chain_tx list"

record vault_vtxo = vault_snapshot +
  v_syncedAt :: int
  v_quarantinedAt :: "int option"
  v_quarantineReason :: "string option"

record proof_tx =
  p_txid :: string
  p_type :: chain_tx_type
  p_psbt :: string

record exit_op =
  o_txid :: string
  o_vout :: nat
  o_state :: exit_op_state
  o_destAddress :: "string option"
  o_sweepTxid :: "string option"
  o_error :: "string option"
  o_createdAt :: int
  o_updatedAt :: int

record exit_broadcast =
  b_stepTxid :: string
  b_txid :: string
  b_vout :: int
  b_tipHeight :: "int option"
  b_createdAt :: int

record exit_dest =
  e_address :: string
  e_challenge :: string
  e_issuedAt :: int
  e_verifiedAt :: "int option"
  e_scheme :: "string option"
  e_sendTxid :: "string option"
  e_sentAt :: "int option"

record tx_row =
  t_id :: nat
  t_connection :: nat
  t_type :: tx_type
  t_event :: string
  t_invoice :: string
  t_paymentHash :: string
  t_amountMsat :: int
  t_feesPaidMsat :: "int option"
  t_description :: "string option"
  t_swapId :: "string option"
  t_state :: tx_state
  t_preimage :: "string option"
  t_error :: "string option"
  t_createdAt :: int
  t_expiresAt :: "int option"
  t_settledAt :: "int option"

record connection =
  n_id :: nat
  n_label :: "string option"
  n_servicePubkey :: string
  n_clientPubkey :: string
  n_relays :: "string list"
  n_budgetMsat :: "int option"
  n_budgetRenewal :: budget_renewal
  n_spentMsat :: int
  n_createdAt :: int
  n_revokedAt :: "int option"

record processed_event =
  pe_id :: string
  pe_connection :: nat
  pe_method :: string
  pe_at :: int

text \<open>\<open>BoltzSwap\<close>, the fields the bridge reads; the \<open>boltz_swaps\<close> table keeps the whole object.\<close>

datatype boltz_kind = Reverse | Submarine | Chain_swap

record boltz_swap =
  bs_id :: string
  bs_kind :: boltz_kind
  bs_status :: string
  bs_createdAt :: int
  bs_preimage :: "string option"
  bs_lockup :: "string option"
  bs_invoiceAmount :: int
  bs_onchainAmount :: "int option"

record history_row =
  h_id :: nat
  h_kind :: history_kind
  h_out :: bool
  h_state :: tx_state
  h_amountMsat :: int
  h_feesMsat :: "int option"
  h_description :: "string option"
  h_ref :: "string option"
  h_txid :: "string option"
  h_txid2 :: "string option"
  h_error :: "string option"
  h_createdAt :: int
  h_settledAt :: "int option"

record offboard_row =
  f_id :: nat
  f_address :: string
  f_amountSat :: int
  f_feeSat :: int
  f_isMax :: bool
  f_state :: tx_state
  f_arkTxid :: "string option"
  f_error :: "string option"
  f_createdAt :: int
  f_settledAt :: "int option"

text \<open>The notifications handed to the operator sink (\<open>NotifyFn\<close>): their kinds; and the
  settlement hook of \<open>src/boltz.ts\<close> with the swap it is called on.\<close>

datatype notice = Send_subdust | Send_fail | Refund_notice | Recv_subdust | Recv_ln | Send_ln | Recv_noffer | Onboard_seen | Onboard_settled | Reverse_settled string

text \<open>
  What the bridge sends out that can move money, as a log of the run. An entry keeps the swap row
  as it stood on disk when the call was made, so that write-ahead properties can be stated.
\<close>

datatype ext_kind = Spend_wallet | Hand_presigs | Ask_cancel | Submit_refund | Submit_claim | Reveal_preimage

datatype ext_call = Ext_call (call_kind: ext_kind) (call_swap: string) (call_row: "swap_row option")

record db =
  swaps :: "swap_row list"
  vtxos :: "vault_vtxo list"
  proofs :: "proof_tx list"
  ops :: "exit_op list"
  broadcasts :: "exit_broadcast list"
  destRow :: "exit_dest option"
  txs :: "tx_row list"
  conns :: "connection list"
  processed :: "processed_event list"
  boltzSwaps :: "boltz_swap list"
  history :: "history_row list"
  offboards :: "offboard_row list"
  clink_hashes :: "string list"
  inflight :: "string list"
  notices :: "notice list"
  tick :: nat
  calls :: "ext_call list"

definition empty_db :: db where
  "empty_db = \<lparr>swaps = [], vtxos = [], proofs = [], ops = [], broadcasts = [], destRow = None, txs = [],
     conns = [], processed = [], boltzSwaps = [], history = [], offboards = [], clink_hashes = [], inflight = [], notices = [], tick = 0, calls = []\<rparr>"

type_synonym 'a bridge = "(err, db, 'a) eff"

definition notify :: "notice \<Rightarrow> db \<Rightarrow> db" where
  "notify n d = d\<lparr>notices := notices d @ [n]\<rparr>"

lemma notify_simps [simp]:
  "swaps (notify n d) = swaps d" "vtxos (notify n d) = vtxos d" "proofs (notify n d) = proofs d"
  "ops (notify n d) = ops d" "broadcasts (notify n d) = broadcasts d" "destRow (notify n d) = destRow d" "txs (notify n d) = txs d"
  "conns (notify n d) = conns d" "processed (notify n d) = processed d" "boltzSwaps (notify n d) = boltzSwaps d"
  "history (notify n d) = history d" "offboards (notify n d) = offboards d"
  "inflight (notify n d) = inflight d"
  "clink_hashes (notify n d) = clink_hashes d" "tick (notify n d) = tick d" "calls (notify n d) = calls d"
  "notices (notify n d) = notices d @ [n]"
  by (simp_all add: notify_def)

subsection \<open>Awaiting the world\<close>

text \<open>
  Everything outside the process answers through \<open>await\<close>: the answer is an arbitrary function of
  how many answers have been awaited before (\<open>tick\<close>), so a poll may see a different answer each
  time. \<open>clock_ms\<close> reads \<open>Date.now()\<close> the same way, without awaiting.
\<close>

definition await :: "(nat \<Rightarrow> err + 'a) \<Rightarrow> 'a bridge" where
  "await ask d = (ask (tick d), d\<lparr>tick := Suc (tick d)\<rparr>)"

definition clock_ms :: "(nat \<Rightarrow> int) \<Rightarrow> int bridge" where
  "clock_ms now = reading (\<lambda>d. now (tick d))"

definition log_call :: "ext_kind \<Rightarrow> string \<Rightarrow> unit bridge" where
  "log_call kind i = modify (\<lambda>d. d\<lparr>calls := calls d @ [Ext_call kind i (find_first (\<lambda>r. s_id r = i) (swaps d))]\<rparr>)"

subsection \<open>Rows under a primary key\<close>

text \<open>
  A table with a primary key: \<open>SELECT ... WHERE key = k\<close>, \<open>UPDATE ... WHERE key = k\<close>,
  \<open>DELETE ... WHERE key = k\<close> and \<open>INSERT ... ON CONFLICT(key) DO UPDATE\<close>.
\<close>

definition row_get :: "('r \<Rightarrow> 'k) \<Rightarrow> 'k \<Rightarrow> 'r list \<Rightarrow> 'r option" where
  "row_get key k rs = find_first (\<lambda>r. key r = k) rs"

definition row_update :: "('r \<Rightarrow> 'k) \<Rightarrow> 'k \<Rightarrow> ('r \<Rightarrow> 'r) \<Rightarrow> 'r list \<Rightarrow> 'r list" where
  "row_update key k f rs = map (\<lambda>r. if key r = k then f r else r) rs"

definition row_delete :: "('r \<Rightarrow> 'k) \<Rightarrow> 'k \<Rightarrow> 'r list \<Rightarrow> 'r list" where
  "row_delete key k rs = filter (\<lambda>r. key r \<noteq> k) rs"

definition row_upsert :: "('r \<Rightarrow> 'k) \<Rightarrow> 'r \<Rightarrow> ('r \<Rightarrow> 'r) \<Rightarrow> 'r list \<Rightarrow> 'r list" where
  "row_upsert key new f rs =
     (if row_get key (key new) rs = None then rs @ [new] else row_update key (key new) f rs)"

lemma row_get_simps [simp]:
  "row_get key k [] = None"
  "row_get key k (r # rs) = (if key r = k then Some r else row_get key k rs)"
  by (simp_all add: row_get_def)

text \<open>What a table's columns promise: updates do not touch the key. The laws of lookup after a
  write, and the uniqueness of keys, follow for every such table.\<close>

locale keyed_rows =
  fixes key :: "'r \<Rightarrow> 'k" and keeps_key :: "('r \<Rightarrow> 'r) \<Rightarrow> bool"
  assumes key_kept: "keeps_key f \<Longrightarrow> key (f r) = key r"
begin

lemma row_get_None: "row_get key k rs = None \<longleftrightarrow> k \<notin> key ` set rs"
  by (auto simp: row_get_def find_first_None)

lemma row_get_Some: "row_get key k rs = Some r \<Longrightarrow> r \<in> set rs \<and> key r = k"
  unfolding row_get_def by (blast dest: find_first_Some)

lemma row_get_in: "distinct (map key rs) \<Longrightarrow> r \<in> set rs \<Longrightarrow> row_get key (key r) rs = Some r"
  by (induction rs) (auto simp: row_get_def rev_image_eqI)

lemma row_get_update:
  "keeps_key f \<Longrightarrow> row_get key j (row_update key k f rs) =
     (if j = k then map_option f (row_get key k rs) else row_get key j rs)"
  by (induction rs) (auto simp: row_get_def row_update_def key_kept)

lemma map_key_update: "keeps_key f \<Longrightarrow> map key (row_update key k f rs) = map key rs"
  by (induction rs) (auto simp: row_update_def key_kept)

lemma row_get_delete: "row_get key j (row_delete key k rs) = (if j = k then None else row_get key j rs)"
  by (induction rs) (auto simp: row_get_def row_delete_def)

lemma distinct_delete: "distinct (map key rs) \<Longrightarrow> distinct (map key (row_delete key k rs))"
  by (simp add: row_delete_def distinct_map_filter)

lemma row_get_snoc:
  "row_get key j (rs @ [r]) = (case row_get key j rs of Some x \<Rightarrow> Some x
     | None \<Rightarrow> if key r = j then Some r else None)"
  by (induction rs) (auto simp: row_get_def)

lemma row_get_upsert:
  "keeps_key f \<Longrightarrow> row_get key j (row_upsert key new f rs) =
     (if j = key new then Some (case row_get key j rs of None \<Rightarrow> new | Some old \<Rightarrow> f old)
      else row_get key j rs)"
  by (auto simp: row_upsert_def row_get_snoc row_get_update split: option.splits)

lemma distinct_upsert:
  "keeps_key f \<Longrightarrow> distinct (map key rs) \<Longrightarrow> distinct (map key (row_upsert key new f rs))"
  by (auto simp: row_upsert_def map_key_update row_get_None)

end

lemma set_row_delete: "set (row_delete key k rs) = {r \<in> set rs. key r \<noteq> k}"
  by (auto simp: row_delete_def)

lemma length_row_update [simp]: "length (row_update key k f rs) = length rs"
  by (simp add: row_update_def)

lemma set_row_update: "set (row_update key k f rs) = (\<lambda>r. if key r = k then f r else r) ` set rs"
  by (simp add: row_update_def)

end
