(* ===== verification/Swap_State.thy ===== *)
theory Swap_State
  imports Bridge_Types
begin

text \<open>
  The swap state machine of \<open>src/atomic/state.ts\<close>: the two transition tables, the terminal
  states, the legality check every write goes through, and the boot-time classification of a row.
  A lookup of a state the direction does not know is \<open>undefined\<close> in the code and throws.
\<close>

subsection \<open>The transition tables\<close>

fun send_transitions :: "swap_state \<Rightarrow> swap_state list option" where
  "send_transitions Init = Some [Funded, Cancelled, Failed]"
| "send_transitions Funded = Some [Ln_inflight, Refund_wait, Cancelled, Failed]"
| "send_transitions Ln_inflight = Some [Claimed, Refund_wait, Cancelled, Failed]"
| "send_transitions Refund_wait = Some [Refunded, Cancelled, Failed]"
| "send_transitions Claimed = Some []"
| "send_transitions Refunded = Some []"
| "send_transitions Cancelled = Some []"
| "send_transitions Failed = Some []"
| "send_transitions _ = None"

fun receive_transitions :: "swap_state \<Rightarrow> swap_state list option" where
  "receive_transitions Init = Some [Invoice_issued, Failed]"
| "receive_transitions Invoice_issued = Some [Funded, Refund_wait, Failed]"
| "receive_transitions Funded = Some [Claimed, Refund_wait, Failed]"
| "receive_transitions Claimed = Some [Settled, Failed]"
| "receive_transitions Refund_wait = Some [Refunded, Failed]"
| "receive_transitions Settled = Some []"
| "receive_transitions Refunded = Some []"
| "receive_transitions Failed = Some []"
| "receive_transitions _ = None"

fun transitions :: "swap_direction \<Rightarrow> swap_state \<Rightarrow> swap_state list option" where
  "transitions Send = send_transitions"
| "transitions Receive = receive_transitions"

definition isTerminal :: "swap_direction \<Rightarrow> swap_state \<Rightarrow> err + bool" where
  "isTerminal dir st = (case transitions dir st of
     None \<Rightarrow> Inl (Unknown_state dir st) | Some t \<Rightarrow> Inr (t = []))"

definition canTransition :: "swap_direction \<Rightarrow> swap_state \<Rightarrow> swap_state \<Rightarrow> err + bool" where
  "canTransition dir from to' = (case transitions dir from of
     None \<Rightarrow> Inl (Unknown_state dir from) | Some nxt \<Rightarrow> Inr (to' \<in> set nxt))"

definition assertTransition :: "swap_direction \<Rightarrow> swap_state \<Rightarrow> swap_state \<Rightarrow> err + unit" where
  "assertTransition dir from to' = (case canTransition dir from to' of
     Inl e \<Rightarrow> Inl e
   | Inr b \<Rightarrow> (if b then Inr () else Inl (Illegal_transition dir from to')))"

subsection \<open>Boot resume\<close>

datatype resume_action =
  None_action | Poll | Refund | Cancel | Retry_claim | Retry_settle | Wait_settle

definition classifyResume :: "swap_direction \<Rightarrow> swap_state \<Rightarrow> int \<Rightarrow> int \<Rightarrow> err + resume_action" where
  "classifyResume dir st refundLocktime nowSecs =
     (case isTerminal dir st of
        Inl e \<Rightarrow> Inl e
      | Inr True \<Rightarrow> Inr None_action
      | Inr False \<Rightarrow>
          (let tElapsed = nowSecs \<ge> refundLocktime in
           if dir = Send then
             (case st of
                Refund_wait \<Rightarrow> Inr (if tElapsed then Refund else Cancel)
              | Funded \<Rightarrow> Inr (if tElapsed then Refund else Poll)
              | Ln_inflight \<Rightarrow> Inr (if tElapsed then Refund else Poll)
              | _ \<Rightarrow> Inr Poll)
           else
             (case st of
                Funded \<Rightarrow> Inr Retry_claim
              | Claimed \<Rightarrow> Inr Retry_settle
              | Refund_wait \<Rightarrow> Inr Wait_settle
              | _ \<Rightarrow> Inr Poll)))"

subsection \<open>One legal step, and what every table of this kind gives\<close>

definition legal_step :: "swap_direction \<Rightarrow> swap_state \<Rightarrow> swap_state \<Rightarrow> bool" where
  "legal_step dir s t \<longleftrightarrow> assertTransition dir s t = Inr ()"

lemma legal_step_iff: "legal_step dir s t \<longleftrightarrow> (\<exists>ts. transitions dir s = Some ts \<and> t \<in> set ts)"
  by (auto simp: legal_step_def assertTransition_def canTransition_def split: option.splits)

lemma assertTransition_Inr: "assertTransition dir s t = Inr u \<longleftrightarrow> legal_step dir s t"
  by (simp add: legal_step_def)

text \<open>
  A transition table with a rank that every step lowers and that stays inside the states it
  knows: every run is at most as long as the rank of its start, and a run that cannot be
  extended has ended in a terminal state.
\<close>

locale ranked_table =
  fixes tbl :: "'s \<Rightarrow> 's list option" and rank :: "'s \<Rightarrow> nat"
  assumes step_known: "tbl s = Some ts \<Longrightarrow> t \<in> set ts \<Longrightarrow> tbl t \<noteq> None"
    and step_lowers: "tbl s = Some ts \<Longrightarrow> t \<in> set ts \<Longrightarrow> rank t < rank s"
begin

lemma run_bound:
  assumes "((\<lambda>s t. \<exists>ts. tbl s = Some ts \<and> t \<in> set ts) ^^ n) s t"
  shows "rank t + n \<le> rank s"
  using assms
proof (induction n arbitrary: t)
  case 0
  then show ?case by simp
next
  case (Suc n)
  then obtain u ts where "((\<lambda>s t. \<exists>ts. tbl s = Some ts \<and> t \<in> set ts) ^^ n) s u"
    and "tbl u = Some ts" and "t \<in> set ts"
    by auto
  with Suc.IH [of u] step_lowers [of u ts t] show ?case by simp
qed

lemma run_known:
  assumes "((\<lambda>s t. \<exists>ts. tbl s = Some ts \<and> t \<in> set ts) ^^ n) s t" and "tbl s \<noteq> None"
  shows "tbl t \<noteq> None"
  using assms by (induction n arbitrary: t) (auto dest: step_known)

end

fun swap_rank :: "swap_state \<Rightarrow> nat" where
  "swap_rank Init = 4"
| "swap_rank Invoice_issued = 3"
| "swap_rank Funded = 3"
| "swap_rank Ln_inflight = 2"
| "swap_rank Refund_wait = 1"
| "swap_rank _ = 0"

fun receive_rank :: "swap_state \<Rightarrow> nat" where
  "receive_rank Init = 4"
| "receive_rank Invoice_issued = 3"
| "receive_rank Funded = 2"
| "receive_rank Claimed = 1"
| "receive_rank Refund_wait = 1"
| "receive_rank _ = 0"

interpretation send_tbl: ranked_table send_transitions swap_rank
  by unfold_locales (auto elim!: send_transitions.elims)

interpretation recv_tbl: ranked_table receive_transitions receive_rank
  by unfold_locales (auto elim!: receive_transitions.elims)

lemma legal_step_send: "legal_step Send = (\<lambda>s t. \<exists>ts. send_transitions s = Some ts \<and> t \<in> set ts)"
  by (auto simp: legal_step_iff fun_eq_iff)

lemma legal_step_receive:
  "legal_step Receive = (\<lambda>s t. \<exists>ts. receive_transitions s = Some ts \<and> t \<in> set ts)"
  by (auto simp: legal_step_iff fun_eq_iff)

lemma legal_run_bound:
  assumes "(legal_step dir ^^ n) s t"
  shows "n \<le> 4"
proof (cases dir)
  case Send
  with assms have "swap_rank t + n \<le> swap_rank s"
    using send_tbl.run_bound by (simp add: legal_step_send)
  moreover have "swap_rank s \<le> 4" by (cases s) simp_all
  ultimately show ?thesis by simp
next
  case Receive
  with assms have "receive_rank t + n \<le> receive_rank s"
    using recv_tbl.run_bound by (simp add: legal_step_receive)
  moreover have "receive_rank s \<le> 4" by (cases s) simp_all
  ultimately show ?thesis by simp
qed

lemma terminal_no_step: "isTerminal dir s = Inr True \<Longrightarrow> \<not> legal_step dir s t"
  by (auto simp: isTerminal_def legal_step_iff split: option.splits)

lemma nonterminal_may_fail: "isTerminal dir s = Inr False \<Longrightarrow> legal_step dir s Failed"
  by (cases dir; cases s) (simp_all add: isTerminal_def legal_step_iff)

lemma isTerminal_send_cases:
  "isTerminal Send s = Inr True \<longleftrightarrow> s \<in> {Claimed, Refunded, Cancelled, Failed}"
  "isTerminal Send s = Inr False \<longleftrightarrow> s \<in> {Init, Funded, Ln_inflight, Refund_wait}"
  by (cases s; simp add: isTerminal_def)+

lemma isTerminal_receive_cases:
  "isTerminal Receive s = Inr True \<longleftrightarrow> s \<in> {Settled, Refunded, Failed}"
  "isTerminal Receive s = Inr False \<longleftrightarrow> s \<in> {Init, Invoice_issued, Funded, Claimed, Refund_wait}"
  by (cases s; simp add: isTerminal_def)+

text \<open>Once the code has given up on a payment it can no longer book it as paid.\<close>

lemma refund_wait_closed:
  assumes "(legal_step Send)\<^sup>*\<^sup>* Refund_wait t"
  shows "t \<in> {Refund_wait, Refunded, Cancelled, Failed}"
  using assms by (induction rule: rtranclp_induct) (auto simp: legal_step_iff)

text \<open>Every legal history of a swap is finite. At most four transitions follow one another
  in either direction, a terminal state admits none, every other state of the direction can still
  be failed, and a send that has entered \<open>refund_wait\<close> can never be booked as \<open>claimed\<close>.\<close>

theorem swap_lifecycle:
  shows "(legal_step dir ^^ n) s t \<Longrightarrow> n \<le> 4 \<and> (isTerminal dir s = Inr True \<longrightarrow> n = 0)
    \<and> (isTerminal dir t = Inr False \<longrightarrow> legal_step dir t Failed)
    \<and> (dir = Send \<and> s = Refund_wait \<longrightarrow> t \<noteq> Claimed)"
proof -
  assume run: "(legal_step dir ^^ n) s t"
  have term0: "n = 0" if "isTerminal dir s = Inr True"
  proof (rule ccontr)
    assume "n \<noteq> 0"
    then obtain m where "n = Suc m" by (cases n) auto
    with run obtain u where "legal_step dir s u"
      by (metis relpowp_Suc_D2)
    with terminal_no_step that show False by blast
  qed
  have "t \<noteq> Claimed" if "dir = Send \<and> s = Refund_wait"
    using refund_wait_closed [of t] run that by (auto simp: rtranclp_power)
  with legal_run_bound [OF run] term0 nonterminal_may_fail show ?thesis by blast
qed

theorem swap_lifecycle_witness:
  "(legal_step Send ^^ 4) Init Refunded \<and> (4::nat) \<le> 4"
proof -
  have steps: "legal_step Send Init Funded" "legal_step Send Funded Ln_inflight"
    "legal_step Send Ln_inflight Refund_wait" "legal_step Send Refund_wait Refunded"
    by (simp_all add: legal_step_iff)
  have run: "(legal_step Send ^^ Suc (Suc (Suc (Suc 0)))) Init Refunded"
    by (rule relpowp_Suc_I [OF relpowp_Suc_I [OF relpowp_Suc_I [OF relpowp_Suc_I [OF relpowp_0_I]]]])
       (fact steps)+
  moreover have "(4::nat) = Suc (Suc (Suc (Suc 0)))" by simp
  ultimately have run4: "(legal_step Send ^^ 4) Init Refunded" by metis
  show ?thesis using swap_lifecycle [OF run4] run4 by simp
qed

subsection \<open>Resume actions\<close>

text \<open>What the boot classification promises: it is defined on exactly the states of the
  direction; a terminal row needs nothing and only a terminal row does; the refund executor is
  chosen only for a funded, unclaimed send whose locktime has passed, and then always; the
  cooperative cancel is chosen only before the locktime on a send whose payment has failed.\<close>

theorem classifyResume_sound:
  "((\<exists>a. classifyResume dir st T now = Inr a) \<longleftrightarrow> (\<exists>b. isTerminal dir st = Inr b)) \<and>
   (classifyResume dir st T now = Inr None_action \<longleftrightarrow> isTerminal dir st = Inr True) \<and>
   (classifyResume dir st T now = Inr Refund \<longleftrightarrow>
      dir = Send \<and> st \<in> {Funded, Ln_inflight, Refund_wait} \<and> T \<le> now) \<and>
   (classifyResume dir st T now = Inr Cancel \<longleftrightarrow> dir = Send \<and> st = Refund_wait \<and> now < T)"
  by (cases dir; cases st) (auto simp: classifyResume_def isTerminal_def Let_def)

end
