(* ===== verification/Swap_Script.thy ===== *)
theory Swap_Script
  imports Complex_Main Bridge_Types "HOL-Library.Word"
begin

text \<open>
  The parameters of a swap (\<open>src/atomic/params.ts\<close>) and its four-leaf shared script
  (\<open>src/atomic/script.ts\<close>). The leaves are kept as data: which keys a leaf demands, and under
  which condition or timelock; their byte encoding is the SDK's and stays outside. RIPEMD-160 is
  node's and is a parameter of the definitions that use it.

  A JavaScript number that the code tests with \<open>Number.isInteger\<close> is a rational here, so that
  the test is a real test.
\<close>

type_synonym bytes = "8 word list"

subsection \<open>Roles and parameters\<close>

definition rolesForDirection :: "swap_direction \<Rightarrow> bytes \<Rightarrow> bytes \<Rightarrow> bytes \<times> bytes" where
  "rolesForDirection dir userKey boltzKey =
     (if dir = Send then (userKey, boltzKey) else (boltzKey, userKey))"

record swap_params =
  sp_direction :: swap_direction
  sp_funder :: bytes
  sp_claimer :: bytes
  sp_server :: bytes
  sp_amount :: rat
  sp_paymentHash :: bytes
  sp_refundLocktime :: int
  sp_exitDelay :: int
  sp_fundingValue :: rat
  sp_dust :: rat
  sp_vtxoMin :: rat
  sp_feeSats :: "rat option"

definition is_integer :: "rat \<Rightarrow> bool" where
  "is_integer x \<longleftrightarrow> of_int \<lfloor>x\<rfloor> = x"

definition validateSwapParams :: "swap_params \<Rightarrow> string + unit" where
  "validateSwapParams p =
     (let fee = (case sp_feeSats p of None \<Rightarrow> 0 | Some f \<Rightarrow> f) in
      if \<not> is_integer (sp_amount p) \<or> sp_amount p \<le> 0 then Inl ''amount must be a positive integer''
      else if sp_amount p < sp_vtxoMin p then Inl ''amount < vtxoMinAmount''
      else if sp_amount p \<ge> sp_dust p then Inl ''amount >= dust''
      else if \<not> is_integer (sp_fundingValue p) \<or> sp_fundingValue p < sp_dust p
        then Inl ''fundingValue must be a regular vtxo''
      else if fee < 0 then Inl ''feeSats must be >= 0''
      else if sp_amount p + fee > sp_fundingValue p then Inl ''amount + fee exceeds fundingValue''
      else if length (sp_paymentHash p) \<noteq> 32 then Inl ''paymentHash must be 32 bytes''
      else if sp_refundLocktime p \<le> 0 then Inl ''refundLocktime (T) must be > 0''
      else if sp_exitDelay p \<le> 0 then Inl ''exitDelay (d) must be > 0''
      else if length (sp_funder p) \<noteq> 32 then Inl ''funder key must be 32-byte x-only''
      else if length (sp_claimer p) \<noteq> 32 then Inl ''claimer key must be 32-byte x-only''
      else if length (sp_server p) \<noteq> 32 then Inl ''server key must be 32-byte x-only''
      else Inr ())"

subsection \<open>The shared script\<close>

datatype timelock_unit = Seconds | Blocks

datatype tapscript =
    Condition_multisig bytes "bytes list"
  | Cltv_multisig int "bytes list"
  | Multisig "bytes list"
  | Csv_multisig timelock_unit int "bytes list"

record script_options =
  so_funder :: bytes
  so_claimer :: bytes
  so_server :: bytes
  so_paymentHash :: bytes
  so_refundLocktime :: int
  so_exitDelay :: int

record atomic_script =
  sc_claim :: tapscript
  sc_refund :: tapscript
  sc_cancel :: tapscript
  sc_uexit :: tapscript

definition hashlockConditionScript :: "(bytes \<Rightarrow> bytes) \<Rightarrow> bytes \<Rightarrow> err + bytes" where
  "hashlockConditionScript ripemd160 paymentHash =
     (if length paymentHash \<noteq> 32 then Inl (Error ''paymentHash (H = sha256(preimage)) must be 32 bytes'')
      else Inr ([0xa9, 0x14] @ ripemd160 paymentHash @ [0x87]))"

definition timelockType :: "int \<Rightarrow> timelock_unit" where
  "timelockType value = (if value \<ge> 512 then Seconds else Blocks)"

definition assertXOnly :: "bytes \<Rightarrow> err + unit" where
  "assertXOnly key = (if length key \<noteq> 32 then Inl (Error ''must be a 32-byte x-only pubkey'') else Inr ())"

definition toXOnly :: "bytes \<Rightarrow> bytes" where
  "toXOnly k = (if length k = 32 then k else drop 1 k)"

definition hrp :: "string \<Rightarrow> string" where
  "hrp network = (if network = ''bitcoin'' then ''ark'' else ''tark'')"

definition atomicVtxoScript :: "(bytes \<Rightarrow> bytes) \<Rightarrow> script_options \<Rightarrow> err + atomic_script" where
  "atomicVtxoScript ripemd160 opts =
     (case assertXOnly (so_funder opts) of Inl e \<Rightarrow> Inl e | Inr _ \<Rightarrow>
      case assertXOnly (so_claimer opts) of Inl e \<Rightarrow> Inl e | Inr _ \<Rightarrow>
      case assertXOnly (so_server opts) of Inl e \<Rightarrow> Inl e | Inr _ \<Rightarrow>
      if so_refundLocktime opts \<le> 0 then Inl (Error ''refundLocktime (T) must be > 0'')
      else if so_exitDelay opts \<le> 0 then Inl (Error ''exitDelay (d) must be > 0'')
      else (case hashlockConditionScript ripemd160 (so_paymentHash opts) of
         Inl e \<Rightarrow> Inl e
       | Inr condition \<Rightarrow> Inr \<lparr>
           sc_claim = Condition_multisig condition [so_funder opts, so_claimer opts, so_server opts],
           sc_refund = Cltv_multisig (so_refundLocktime opts) [so_funder opts, so_server opts],
           sc_cancel = Multisig [so_funder opts, so_claimer opts, so_server opts],
           sc_uexit = Csv_multisig (timelockType (so_exitDelay opts)) (so_exitDelay opts)
             [so_funder opts]\<rparr>))"

subsection \<open>Who can spend a leaf\<close>

text \<open>The keys a spend of a leaf must be signed with, the chain time it waits for, and whether it
  needs the payment preimage.\<close>

fun leaf_keys :: "tapscript \<Rightarrow> bytes list" where
  "leaf_keys (Condition_multisig _ ks) = ks"
| "leaf_keys (Cltv_multisig _ ks) = ks"
| "leaf_keys (Multisig ks) = ks"
| "leaf_keys (Csv_multisig _ _ ks) = ks"

definition script_leaves :: "atomic_script \<Rightarrow> tapscript list" where
  "script_leaves s = [sc_claim s, sc_refund s, sc_cancel s, sc_uexit s]"

definition spendable_without :: "bytes \<Rightarrow> atomic_script \<Rightarrow> tapscript list" where
  "spendable_without k s = filter (\<lambda>l. k \<notin> set (leaf_keys l)) (script_leaves s)"

definition well_sized :: "script_options \<Rightarrow> bool" where
  "well_sized opts \<longleftrightarrow> length (so_funder opts) = 32 \<and> length (so_claimer opts) = 32
     \<and> length (so_server opts) = 32 \<and> length (so_paymentHash opts) = 32
     \<and> 0 < so_refundLocktime opts \<and> 0 < so_exitDelay opts"

lemma atomicVtxoScript_Inr:
  "atomicVtxoScript rip opts = Inr s \<longleftrightarrow> well_sized opts \<and> s = \<lparr>
     sc_claim = Condition_multisig ([0xa9, 0x14] @ rip (so_paymentHash opts) @ [0x87])
       [so_funder opts, so_claimer opts, so_server opts],
     sc_refund = Cltv_multisig (so_refundLocktime opts) [so_funder opts, so_server opts],
     sc_cancel = Multisig [so_funder opts, so_claimer opts, so_server opts],
     sc_uexit = Csv_multisig (timelockType (so_exitDelay opts)) (so_exitDelay opts)
       [so_funder opts]\<rparr>"
  by (auto simp: atomicVtxoScript_def assertXOnly_def hashlockConditionScript_def well_sized_def
      split: if_splits)

text \<open>The shared script splits the power over the funding as the protocol promises. A script
  is built for exactly the well-sized options; nobody can spend it without the funder's signature;
  the only leaf that works without the server is the unilateral exit, and the only leaves that
  work without the claimer are the refund after T and the unilateral exit, so the claimer alone,
  or the claimer with the server, can take nothing the funder has not signed.\<close>

theorem shared_script_powers:
  assumes "atomicVtxoScript rip opts = Inr s"
    and "distinct [so_funder opts, so_claimer opts, so_server opts]"
  shows "well_sized opts \<and> spendable_without (so_funder opts) s = []
    \<and> spendable_without (so_server opts) s = [sc_uexit s]
    \<and> spendable_without (so_claimer opts) s = [sc_refund s, sc_uexit s]
    \<and> sc_refund s = Cltv_multisig (so_refundLocktime opts) [so_funder opts, so_server opts]
    \<and> sc_uexit s = Csv_multisig (if so_exitDelay opts \<ge> 512 then Seconds else Blocks)
        (so_exitDelay opts) [so_funder opts]"
  using assms
  by (auto simp: atomicVtxoScript_Inr spendable_without_def script_leaves_def timelockType_def)

definition sample_options :: script_options where
  "sample_options = \<lparr>so_funder = replicate 32 1, so_claimer = replicate 32 2,
     so_server = replicate 32 3, so_paymentHash = replicate 32 7,
     so_refundLocktime = 1700000000, so_exitDelay = 605184\<rparr>"

lemma sample_sizes:
  "well_sized sample_options"
  "distinct [so_funder sample_options, so_claimer sample_options, so_server sample_options]"
  by (simp_all add: well_sized_def sample_options_def numeral_eq_Suc)

theorem shared_script_powers_witness:
  "\<exists>s. atomicVtxoScript (\<lambda>_. replicate 20 0) sample_options = Inr s
     \<and> spendable_without (so_funder sample_options) s = []"
proof -
  obtain s where s: "atomicVtxoScript (\<lambda>_. replicate 20 0) sample_options = Inr s"
    using sample_sizes(1) by (simp add: atomicVtxoScript_Inr)
  then show ?thesis using shared_script_powers [OF s sample_sizes(2)] by blast
qed

text \<open>The user is the funder of a send and the claimer of a receive.\<close>

lemma rolesForDirection_swap:
  "rolesForDirection Receive u b = (snd (rolesForDirection Send u b), fst (rolesForDirection Send u b))"
  by (simp add: rolesForDirection_def)

lemma validateSwapParams_Inr:
  "validateSwapParams p = Inr () \<longleftrightarrow>
     is_integer (sp_amount p) \<and> 0 < sp_amount p \<and> sp_vtxoMin p \<le> sp_amount p
     \<and> sp_amount p < sp_dust p \<and> is_integer (sp_fundingValue p) \<and> sp_dust p \<le> sp_fundingValue p
     \<and> 0 \<le> (case sp_feeSats p of None \<Rightarrow> 0 | Some f \<Rightarrow> f)
     \<and> sp_amount p + (case sp_feeSats p of None \<Rightarrow> 0 | Some f \<Rightarrow> f) \<le> sp_fundingValue p
     \<and> length (sp_paymentHash p) = 32 \<and> 0 < sp_refundLocktime p \<and> 0 < sp_exitDelay p
     \<and> length (sp_funder p) = 32 \<and> length (sp_claimer p) = 32 \<and> length (sp_server p) = 32"
  by (simp add: validateSwapParams_def Let_def not_le not_less split: option.splits)

text \<open>Validated parameters always make a script.\<close>

lemma validated_script:
  assumes "validateSwapParams p = Inr ()"
  shows "well_sized \<lparr>so_funder = sp_funder p, so_claimer = sp_claimer p, so_server = sp_server p,
    so_paymentHash = sp_paymentHash p, so_refundLocktime = sp_refundLocktime p,
    so_exitDelay = sp_exitDelay p\<rparr>"
  using assms by (simp add: validateSwapParams_Inr well_sized_def)

end
