(* ===== verification/Claim_Split.thy ===== *)
theory Claim_Split
  imports Swap_Script
begin

text \<open>
  The claim split of \<open>src/atomic/split.ts\<close>: how the funding value V is divided between the
  claimer, an optional third-party fee output and the funder's change, and the output variants
  \<open>freshTxidAttempts\<close> of \<open>src/atomic/send.ts\<close> that return V to the funder under
  different transaction ids. An \<open>ArkAddress\<close> is its two pkScripts; how the SDK derives them is
  outside.
\<close>

record ark_address =
  pkScript :: string
  subdustPkScript :: string

record atomic_output =
  out_script :: string
  out_amount :: int

datatype change_kind = Regular | Subdust | Omitted

record claim_split =
  cs_outputs :: "atomic_output list"
  cs_opReturns :: nat
  cs_claimerAmount :: int
  cs_feeAmount :: int
  cs_changeAmount :: int
  cs_changeKind :: change_kind

record split_args =
  sa_funderAddress :: ark_address
  sa_claimerAddress :: ark_address
  sa_fundingValue :: int
  sa_amount :: int
  sa_dust :: int
  sa_feeSats :: "int option"
  sa_feeRecipient :: "ark_address option"
  sa_maxOpReturn :: "nat option"

definition MAX_OP_RETURN_OUTPUTS :: nat where
  "MAX_OP_RETURN_OUTPUTS = 2"

definition outputFor :: "ark_address \<Rightarrow> int \<Rightarrow> int \<Rightarrow> atomic_output \<times> bool" where
  "outputFor address amount dust =
     (let isOpReturn = amount < dust in
      (\<lparr>out_script = (if isOpReturn then subdustPkScript address else pkScript address),
        out_amount = amount\<rparr>, isOpReturn))"

definition computeClaimSplit :: "split_args \<Rightarrow> err + claim_split" where
  "computeClaimSplit args =
     (let V = sa_fundingValue args; a = sa_amount args; dust = sa_dust args;
          fee = (case sa_feeSats args of None \<Rightarrow> 0 | Some f \<Rightarrow> f);
          maxOpReturn = (case sa_maxOpReturn args of None \<Rightarrow> MAX_OP_RETURN_OUTPUTS | Some m \<Rightarrow> m);
          change = V - a - fee
      in if a \<le> 0 then Inl (Subdust_edge ''amount must be positive'')
      else if a \<ge> dust then Inl (Subdust_edge ''amount >= dust is not a sub-dust split'')
      else if fee < 0 then Inl (Subdust_edge ''fee must be >= 0'')
      else if change < 0 then Inl (Subdust_edge ''amount + fee exceeds funding value'')
      else
        (let claimer = outputFor (sa_claimerAddress args)
               (case sa_feeRecipient args of None \<Rightarrow> a + fee | Some _ \<Rightarrow> a) dust;
             feeOuts = (case sa_feeRecipient args of
               None \<Rightarrow> [] | Some r \<Rightarrow> (if fee > 0 then [outputFor r fee dust] else []));
             changeOuts = (if change > 0 then [outputFor (sa_funderAddress args) change dust] else []);
             outs = claimer # feeOuts @ changeOuts;
             opReturns = length (filter snd outs);
             kind = (if change > 0
               then (if change < dust then Subdust else Regular) else Omitted)
         in if opReturns > maxOpReturn then Inl (Subdust_edge ''SUBDUST_EDGE_REJECTED'')
            else Inr \<lparr>cs_outputs = map fst outs, cs_opReturns = opReturns,
              cs_claimerAmount = a, cs_feeAmount = fee, cs_changeAmount = change,
              cs_changeKind = kind\<rparr>))"

abbreviation split_fee :: "split_args \<Rightarrow> int" where
  "split_fee args \<equiv> (case sa_feeSats args of None \<Rightarrow> 0 | Some f \<Rightarrow> f)"

definition split_guards :: "split_args \<Rightarrow> bool" where
  "split_guards args \<longleftrightarrow> 0 < sa_amount args \<and> sa_amount args < sa_dust args
     \<and> 0 \<le> split_fee args \<and> sa_amount args + split_fee args \<le> sa_fundingValue args"

lemma fst_outputFor [simp]: "out_amount (fst (outputFor addr n dust)) = n"
  by (simp add: outputFor_def Let_def)

lemma snd_outputFor [simp]: "snd (outputFor addr n dust) \<longleftrightarrow> n < dust"
  by (simp add: outputFor_def Let_def)

text \<open>The claim split conserves value. Whenever a split is produced its outputs are positive
  and sum to exactly the funding value, the recorded claimer, fee and change amounts do too, the
  OP_RETURN count is the number of outputs below dust and within the server's cap, and the change
  kind says whether the change is absent, below dust or regular.\<close>

theorem claim_split_conserves:
  assumes "computeClaimSplit args = Inr sp"
  shows "sum_list (map out_amount (cs_outputs sp)) = sa_fundingValue args
    \<and> (\<forall>out \<in> set (cs_outputs sp). 0 < out_amount out)
    \<and> cs_claimerAmount sp + cs_feeAmount sp + cs_changeAmount sp = sa_fundingValue args
    \<and> cs_opReturns sp = length (filter (\<lambda>out. out_amount out < sa_dust args) (cs_outputs sp))
    \<and> cs_opReturns sp \<le> (case sa_maxOpReturn args of None \<Rightarrow> 2 | Some m \<Rightarrow> m)
    \<and> (cs_changeKind sp = Omitted \<longleftrightarrow> cs_changeAmount sp = 0)
    \<and> (cs_changeKind sp = Regular \<longleftrightarrow> sa_dust args \<le> cs_changeAmount sp)"
  using assms
  by (auto simp: computeClaimSplit_def Let_def MAX_OP_RETURN_OUTPUTS_def
      split: if_splits option.splits)

definition sample_args :: split_args where
  "sample_args = \<lparr>sa_funderAddress = \<lparr>pkScript = ''F'', subdustPkScript = ''f''\<rparr>,
     sa_claimerAddress = \<lparr>pkScript = ''C'', subdustPkScript = ''c''\<rparr>,
     sa_fundingValue = 1000, sa_amount = 100, sa_dust = 330, sa_feeSats = Some 3,
     sa_feeRecipient = None, sa_maxOpReturn = None\<rparr>"

lemma sample_split:
  "computeClaimSplit sample_args = Inr \<lparr>cs_outputs =
      [\<lparr>out_script = ''c'', out_amount = 103\<rparr>, \<lparr>out_script = ''F'', out_amount = 897\<rparr>],
    cs_opReturns = 1, cs_claimerAmount = 100, cs_feeAmount = 3, cs_changeAmount = 897,
    cs_changeKind = Regular\<rparr>"
  by (simp add: computeClaimSplit_def sample_args_def outputFor_def MAX_OP_RETURN_OUTPUTS_def)

theorem claim_split_conserves_witness: "(103::int) + 897 = sa_fundingValue sample_args"
  using claim_split_conserves [OF sample_split] by simp

text \<open>The two-party split never meets the OP_RETURN cap. Without a third-party fee recipient
  and with the server's cap of two, a split exists exactly when the arithmetic guards hold; it has
  at most two outputs, the claimer's being amount plus fee; and when the funding covers dust on top
  of both, the funder's change is one regular output.\<close>

theorem two_party_split_total:
  assumes "sa_feeRecipient args = None" and "sa_maxOpReturn args = None"
  shows "((\<exists>sp. computeClaimSplit args = Inr sp) \<longleftrightarrow> split_guards args)
    \<and> (\<forall>sp. computeClaimSplit args = Inr sp \<longrightarrow> length (cs_outputs sp) \<le> 2
        \<and> out_amount (hd (cs_outputs sp)) = sa_amount args + split_fee args
        \<and> (sa_dust args + sa_amount args + split_fee args \<le> sa_fundingValue args \<longrightarrow>
             cs_changeKind sp = Regular
             \<and> last (cs_outputs sp) = \<lparr>out_script = pkScript (sa_funderAddress args),
                 out_amount = sa_fundingValue args - sa_amount args - split_fee args\<rparr>))"
  using assms
  by (auto simp: computeClaimSplit_def Let_def MAX_OP_RETURN_OUTPUTS_def split_guards_def
      outputFor_def)

theorem two_party_split_total_witness:
  "split_guards sample_args \<and> (\<exists>sp. computeClaimSplit sample_args = Inr sp \<and> cs_changeKind sp = Regular)"
proof -
  have h: "sa_feeRecipient sample_args = None" "sa_maxOpReturn sample_args = None"
    by (simp_all add: sample_args_def)
  have "sa_dust sample_args + sa_amount sample_args + split_fee sample_args \<le> sa_fundingValue sample_args"
    by (simp add: sample_args_def)
  then show ?thesis using two_party_split_total [OF h] sample_split by auto
qed

text \<open>A validated swap always has a two-party split (the rationals of the check are the integers
  of the split).\<close>

lemma validated_split_guards:
  assumes "validateSwapParams p = Inr ()"
    and "sp_amount p = of_int (sa_amount args)" and "sp_fundingValue p = of_int (sa_fundingValue args)"
    and "sp_dust p = of_int (sa_dust args)"
    and "sp_feeSats p = map_option of_int (sa_feeSats args)"
  shows "split_guards args"
  using assms by (cases "sa_feeSats args") (auto simp: validateSwapParams_Inr split_guards_def
      simp flip: of_int_add)

subsection \<open>Output variants with fresh transaction ids\<close>

definition freshTxidAttempts :: "ark_address \<Rightarrow> int \<Rightarrow> int \<Rightarrow> atomic_output list list" where
  "freshTxidAttempts ourAddr value dust =
     (let maxK = min 20 (value - dust) in
      [\<lparr>out_script = pkScript ourAddr, out_amount = value\<rparr>] #
      map (\<lambda>k. [\<lparr>out_script = pkScript ourAddr, out_amount = value - k\<rparr>,
                 \<lparr>out_script = subdustPkScript ourAddr, out_amount = k\<rparr>]) [1..maxK])"

lemma distinct_freshTxidAttempts: "distinct (freshTxidAttempts addr value dust)"
  by (auto simp: freshTxidAttempts_def Let_def distinct_map inj_on_def)

text \<open>The re-minting ladder of a refund or cancel. Every variant pays the full value back to
  our own two scripts, no two variants are equal (equal outputs would rebuild the same poisoned
  txid), every sub-dust part is positive, the first output stays at or above dust whenever the
  value is, and there are one plus min(20, value - dust) of them.\<close>

theorem fresh_attempts_sound:
  assumes "dust \<le> value"
  shows "distinct (freshTxidAttempts addr value dust)
    \<and> length (freshTxidAttempts addr value dust) = 1 + nat (min 20 (value - dust))
    \<and> (\<forall>outs \<in> set (freshTxidAttempts addr value dust).
         sum_list (map out_amount outs) = value
         \<and> dust \<le> out_amount (hd outs) \<and> out_script (hd outs) = pkScript addr
         \<and> (\<forall>out \<in> set (tl outs). out_script out = subdustPkScript addr
              \<and> 1 \<le> out_amount out \<and> out_amount out \<le> 20))"
  using assms distinct_freshTxidAttempts [where addr = addr and dust = dust]
  by (auto simp: freshTxidAttempts_def Let_def)

theorem fresh_attempts_sound_witness:
  "length (freshTxidAttempts \<lparr>pkScript = ''F'', subdustPkScript = ''f''\<rparr> 335 330) = 6"
  using fresh_attempts_sound [of 330 335 "\<lparr>pkScript = ''F'', subdustPkScript = ''f''\<rparr>"] by simp

end
