(* ===== verification/Coin_Select.thy ===== *)
theory Coin_Select
  imports Bridge_Types
begin

text \<open>
  Which coins a spend burns: the exit-cost-aware selector of \<open>src/coin_select.ts\<close> and the
  funding eligibility and ascending accumulation of \<open>src/atomic/eligibility.ts\<close>. The exit cost
  of a coin is a parameter here; \<open>Exit_Estimate\<close> supplies the vault's oracle. The SDK's
  \<open>isSpendable\<close> and \<open>isRecoverable\<close> are parameters.
\<close>

subsection \<open>The selector\<close>

definition covers :: "int \<Rightarrow> int option \<Rightarrow> int \<Rightarrow> bool" where
  "covers target changeDust got =
     (case changeDust of None \<Rightarrow> got \<ge> target
      | Some cd \<Rightarrow> got = target \<or> got \<ge> target + cd)"

definition net :: "(vcoin \<Rightarrow> int) \<Rightarrow> vcoin \<Rightarrow> int" where
  "net exitCostOf c = max 0 (c_value c - exitCostOf c)"

definition outpoint :: "vcoin \<Rightarrow> string" where
  "outpoint c = outpoint_key (c_txid c) (c_vout c)"

definition single_cmp :: "(vcoin \<Rightarrow> int) \<Rightarrow> vcoin \<Rightarrow> vcoin \<Rightarrow> int" where
  "single_cmp exitCostOf c best =
     js_or (net exitCostOf c - net exitCostOf best)
       (js_or (c_value c - c_value best) (locale_compare (outpoint c) (outpoint best)))"

definition byChainThenSize :: "(vcoin \<Rightarrow> int) \<Rightarrow> vcoin \<Rightarrow> vcoin \<Rightarrow> int" where
  "byChainThenSize exitCostOf a b =
     js_or (exitCostOf a - exitCostOf b)
       (js_or (c_value b - c_value a) (locale_compare (outpoint a) (outpoint b)))"

fun accumulate_from :: "(int \<Rightarrow> bool) \<Rightarrow> vcoin list \<Rightarrow> int \<Rightarrow> vcoin list \<Rightarrow> vcoin list option" where
  "accumulate_from cov picked acc [] = None"
| "accumulate_from cov picked acc (c # pool) =
     (if cov (acc + c_value c) then Some (picked @ [c])
      else accumulate_from cov (picked @ [c]) (acc + c_value c) pool)"

definition accumulate :: "(int \<Rightarrow> bool) \<Rightarrow> vcoin list \<Rightarrow> vcoin list option" where
  "accumulate cov pool = accumulate_from cov [] 0 pool"

definition selectSpendInputs ::
  "vcoin list \<Rightarrow> int \<Rightarrow> int option \<Rightarrow> (vcoin \<Rightarrow> int) \<Rightarrow> vcoin list" where
  "selectSpendInputs coins target changeDust exitCostOf =
     (let cov = covers target changeDust;
          singles = filter (\<lambda>c. cov (c_value c)) coins
      in case singles of
           s # rest \<Rightarrow>
             [foldl (\<lambda>best c. if single_cmp exitCostOf c best < 0 then c else best) s rest]
         | [] \<Rightarrow>
             (let worthKeeping = js_sort (byChainThenSize exitCostOf)
                    (filter (\<lambda>c. net exitCostOf c > 0) coins)
              in case accumulate cov worthKeeping of
                   Some picked \<Rightarrow> picked
                 | None \<Rightarrow> (case accumulate cov (js_sort (byChainThenSize exitCostOf) coins) of
                     Some picked \<Rightarrow> picked | None \<Rightarrow> [])))"

interpretation single: comparator "single_cmp ec" for ec
  unfolding single_cmp_def
  by (intro comparator_js_or comparator_diff comparator_map [OF loc.comparator_axioms])

interpretation chain: comparator "byChainThenSize ec" for ec
proof -
  have "comparator (\<lambda>a b. c_value b - c_value a)"
    using comparator_diff [where k = "\<lambda>c. - c_value c"] by simp
  then show "comparator (byChainThenSize ec)"
    unfolding byChainThenSize_def
    by (intro comparator_js_or comparator_diff comparator_map [OF loc.comparator_axioms])
qed

subsection \<open>Accumulation takes the shortest covering prefix\<close>

abbreviation total :: "vcoin list \<Rightarrow> int" where
  "total cs \<equiv> sum_list (map c_value cs)"

lemma accumulate_from_Some:
  "accumulate_from cov picked acc pool = Some r \<Longrightarrow>
     \<exists>pre c rest. pool = pre @ c # rest \<and> r = picked @ pre @ [c] \<and> cov (acc + total (pre @ [c]))
       \<and> (\<forall>k. 0 < k \<and> k \<le> length pre \<longrightarrow> \<not> cov (acc + total (take k pre)))"
proof (induction pool arbitrary: picked acc)
  case Nil
  then show ?case by simp
next
  case (Cons c pool)
  show ?case
  proof (cases "cov (acc + c_value c)")
    case True
    with Cons.prems show ?thesis by (intro exI [of _ "[]"] exI [of _ c] exI [of _ pool]) auto
  next
    case False
    with Cons.prems have "accumulate_from cov (picked @ [c]) (acc + c_value c) pool = Some r" by simp
    from Cons.IH [OF this] obtain pre d rest where
      pool: "pool = pre @ d # rest" and r: "r = (picked @ [c]) @ pre @ [d]"
      and cov: "cov (acc + c_value c + total (pre @ [d]))"
      and least: "\<And>k. 0 < k \<and> k \<le> length pre \<Longrightarrow> \<not> cov (acc + c_value c + total (take k pre))"
      by blast
    have "\<not> cov (acc + total (take k (c # pre)))" if "0 < k \<and> k \<le> length (c # pre)" for k
    proof (cases k)
      case 0
      with that show ?thesis by simp
    next
      case (Suc j)
      then show ?thesis using least [of j] that False by (cases j) (auto simp: add.assoc)
    qed
    then show ?thesis
      using pool r cov
      by (intro exI [of _ "c # pre"] exI [of _ d] exI [of _ rest]) (auto simp: add.assoc)
  qed
qed

lemma accumulate_Some:
  assumes "accumulate cov pool = Some r"
  obtains pre c rest where "pool = pre @ c # rest" and "r = pre @ [c]" and "cov (total r)"
    and "\<And>k. 0 < k \<Longrightarrow> k < length r \<Longrightarrow> \<not> cov (total (take k r))"
proof -
  from accumulate_from_Some [OF assms [unfolded accumulate_def]]
  obtain pre c rest where *: "pool = pre @ c # rest" "r = [] @ pre @ [c]" "cov (0 + total (pre @ [c]))"
    "\<forall>k. 0 < k \<and> k \<le> length pre \<longrightarrow> \<not> cov (0 + total (take k pre))"
    by blast
  show thesis
  proof (rule that [of pre c rest])
    show "\<not> cov (total (take k r))" if "0 < k" "k < length r" for k
      using * that by (auto simp: less_Suc_eq_le)
  qed (use * in auto)
qed

lemma accumulate_from_None:
  "accumulate_from cov picked acc pool = None \<Longrightarrow> pool \<noteq> [] \<Longrightarrow> \<not> cov (acc + total pool)"
proof (induction pool arbitrary: picked acc)
  case Nil
  then show ?case by simp
next
  case (Cons c pool)
  from Cons.prems(1) have no: "\<not> cov (acc + c_value c)"
    and rest: "accumulate_from cov (picked @ [c]) (acc + c_value c) pool = None"
    by (auto split: if_splits)
  show ?case
  proof (cases "pool = []")
    case True
    with no show ?thesis by simp
  next
    case False
    from Cons.IH [OF rest False] show ?thesis by (simp add: add.assoc)
  qed
qed

lemma accumulate_None: "accumulate cov pool = None \<Longrightarrow> pool \<noteq> [] \<Longrightarrow> \<not> cov (total pool)"
  unfolding accumulate_def using accumulate_from_None [of cov "[]" 0 pool] by simp

lemma total_js_sort [simp]: "total (js_sort cmp cs) = total cs"
  by (rule sum_list_js_sort)

subsection \<open>What the selector guarantees\<close>

lemma accumulate_sub:
  assumes "accumulate cov pool = Some r"
  shows "mset r \<subseteq># mset pool \<and> cov (total r) \<and> r \<noteq> []"
  using assms by (elim accumulate_Some) auto

lemma select_cases:
  assumes "selectSpendInputs coins target cd ec = r"
  obtains
    (single) c where "r = [c]" and "c \<in> set coins" and "covers target cd (c_value c)"
      and "\<And>d. d \<in> set coins \<Longrightarrow> covers target cd (c_value d) \<Longrightarrow> single_cmp ec c d \<le> 0"
  | (worth) "\<And>c. c \<in> set coins \<Longrightarrow> \<not> covers target cd (c_value c)"
      and "accumulate (covers target cd)
        (js_sort (byChainThenSize ec) (filter (\<lambda>c. net ec c > 0) coins)) = Some r"
  | (all) "\<And>c. c \<in> set coins \<Longrightarrow> \<not> covers target cd (c_value c)"
      and "accumulate (covers target cd)
        (js_sort (byChainThenSize ec) (filter (\<lambda>c. net ec c > 0) coins)) = None"
      and "accumulate (covers target cd) (js_sort (byChainThenSize ec) coins) = Some r"
  | (none) "\<And>c. c \<in> set coins \<Longrightarrow> \<not> covers target cd (c_value c)"
      and "accumulate (covers target cd) (js_sort (byChainThenSize ec) coins) = None" and "r = []"
proof (cases "filter (\<lambda>c. covers target cd (c_value c)) coins")
  case Nil
  then have "\<not> covers target cd (c_value c)" if "c \<in> set coins" for c
    using that by (auto simp: filter_empty_conv)
  with Nil that(2-4) assms show thesis
    by (simp add: selectSpendInputs_def Let_def split: option.splits)
next
  case (Cons s rest)
  let ?c = "foldl (\<lambda>best c. if single_cmp ec c best < 0 then c else best) s rest"
  have eq: "set (s # rest) = {c \<in> set coins. covers target cd (c_value c)}"
    unfolding Cons [symmetric] by auto
  have "?c \<in> set (s # rest)"
    using foldl_choice_in [of "\<lambda>c best. single_cmp ec c best < 0" s rest] by simp
  moreover have "single_cmp ec ?c d \<le> 0" if "d \<in> set (s # rest)" for d
    using single.fold_min_le [of d s rest] that by simp
  moreover have "r = [?c]"
    using assms Cons by (simp add: selectSpendInputs_def Let_def)
  ultimately show thesis using that(1) [of ?c] eq by auto
qed

lemma select_sub:
  assumes "selectSpendInputs coins target cd ec = r"
  shows "mset r \<subseteq># mset coins \<and> (r \<noteq> [] \<longrightarrow> covers target cd (total r))
    \<and> (r = [] \<longrightarrow> coins \<noteq> [] \<longrightarrow> \<not> covers target cd (total coins))"
  using assms
proof (cases rule: select_cases)
  case (single c)
  then show ?thesis by simp
next
  case worth
  with accumulate_sub [OF worth(2)] show ?thesis
    by (auto intro: subset_mset.order_trans [OF _ multiset_filter_subset] simp: mset_filter)
next
  case all
  with accumulate_sub [OF all(3)] show ?thesis by auto
next
  case none
  have "js_sort (byChainThenSize ec) coins \<noteq> []" if "coins \<noteq> []"
    using that by (metis length_0_conv length_js_sort)
  with accumulate_None [OF none(2)] none(3) show ?thesis by auto
qed

lemma select_funded:
  assumes "selectSpendInputs coins target None ec \<noteq> []"
  shows "target \<le> total (selectSpendInputs coins target None ec)
    \<and> set (selectSpendInputs coins target None ec) \<subseteq> set coins"
  using select_sub [OF refl, of coins target None ec] assms
  by (auto simp: covers_def dest!: set_mset_mono)

text \<open>The selector picks coins it was given, each at most once, whose total is covered and so
  never lands in the stranded-change band; and without a change floor it gives up exactly when the
  whole pool is short.\<close>

theorem select_covers:
  assumes "\<And>c. c \<in> set coins \<Longrightarrow> 0 \<le> c_value c" and "0 < target" and "\<And>d. cd = Some d \<Longrightarrow> 0 \<le> d"
  shows "mset (selectSpendInputs coins target cd ec) \<subseteq># mset coins
    \<and> (selectSpendInputs coins target cd ec \<noteq> [] \<longrightarrow>
         target \<le> total (selectSpendInputs coins target cd ec)
         \<and> covers target cd (total (selectSpendInputs coins target cd ec)))
    \<and> (cd = None \<longrightarrow> (selectSpendInputs coins target cd ec = [] \<longleftrightarrow> total coins < target))"
proof -
  define r where "r = selectSpendInputs coins target cd ec"
  then have eq: "selectSpendInputs coins target cd ec = r" by simp
  have props: "mset r \<subseteq># mset coins \<and> (r \<noteq> [] \<longrightarrow> covers target cd (total r))
    \<and> (cd = None \<longrightarrow> r = [] \<longrightarrow> total coins < target)"
    using select_sub [OF eq] assms(2) by (cases "coins = []") (auto simp: covers_def)
  have "total r \<le> total coins"
    using props assms(1) by (intro sum_list_mset_le) auto
  with props have "cd = None \<Longrightarrow> total coins < target \<Longrightarrow> r = []"
    by (fastforce simp: covers_def)
  with props show ?thesis unfolding eq
    using assms(3) by (fastforce simp: covers_def split: option.splits)
qed

definition sample_coin :: "string \<Rightarrow> int \<Rightarrow> vcoin" where
  "sample_coin t v = \<lparr>c_txid = t, c_vout = 0, c_value = v, c_script = [], c_tapTree = [],
     c_state = None, c_batchExpiry = Some 1800000000, c_commitmentTxIds = None, c_spentBy = None,
     c_settledBy = None, c_arkTxId = None, c_isSpent = False, c_isUnrolled = False\<rparr>"

definition sample_pool :: "vcoin list" where
  "sample_pool = [sample_coin ''aa'' 500, sample_coin ''bb'' 900, sample_coin ''cc'' 700]"

lemma sample_pool_simps:
  "total sample_pool = 2100" "\<And>c. c \<in> set sample_pool \<Longrightarrow> 0 \<le> c_value c"
  by (auto simp: sample_pool_def sample_coin_def)

theorem select_covers_witness:
  "selectSpendInputs sample_pool 5000 None (\<lambda>c. 0) = []"
  using select_covers [of sample_pool 5000 None "\<lambda>c. 0"] sample_pool_simps by simp

text \<open>The exit value a spend from a single coin destroys (the objective stated at the head of
  \<open>coin_select.ts\<close>): with \<open>spent = A + h\<close>, the amount plus one hop.\<close>

definition destroyed :: "int \<Rightarrow> (vcoin \<Rightarrow> int) \<Rightarrow> vcoin \<Rightarrow> int" where
  "destroyed spent ec c = (let n = c_value c - ec c in
     if n \<ge> spent then spent else if 0 < n then n else 0)"

lemma destroyed_mono: "0 \<le> spent \<Longrightarrow> net ec c \<le> net ec d \<Longrightarrow> destroyed spent ec c \<le> destroyed spent ec d"
  by (auto simp: destroyed_def net_def Let_def max_def split: if_splits)

lemma single_cmp_net: "single_cmp ec c d \<le> 0 \<Longrightarrow> net ec c \<le> net ec d"
  by (auto simp: single_cmp_def js_or_def split: if_splits)

text \<open>When one coin can cover the spend, exactly one coin is spent, and no other covering coin
  would have destroyed less exit value, whatever the amount and the cost of a hop.\<close>

theorem select_single_optimal:
  assumes "c \<in> set coins" and "covers target cd (c_value c)" and "0 \<le> spent"
  shows "\<exists>b. selectSpendInputs coins target cd ec = [b] \<and> b \<in> set coins
    \<and> covers target cd (c_value b)
    \<and> (\<forall>d \<in> set coins. covers target cd (c_value d) \<longrightarrow> destroyed spent ec b \<le> destroyed spent ec d)"
proof -
  obtain r where "selectSpendInputs coins target cd ec = r" by simp
  then show ?thesis
  proof (cases rule: select_cases)
    case (single b)
    then show ?thesis
      using \<open>selectSpendInputs coins target cd ec = r\<close> assms(3)
      by (auto intro!: exI [of _ b] destroyed_mono single_cmp_net)
  qed (use assms(1,2) in auto)
qed

theorem select_single_optimal_witness:
  "\<exists>b. selectSpendInputs sample_pool 600 None (\<lambda>c. if c_txid c = ''bb'' then 850 else 0) = [b]"
proof -
  have "sample_coin ''bb'' 900 \<in> set sample_pool" "covers 600 None (c_value (sample_coin ''bb'' 900))"
    by (simp_all add: sample_pool_def sample_coin_def covers_def)
  from select_single_optimal [OF this, of 610] show ?thesis by fastforce
qed

text \<open>A merge leaves written-off coins out whenever it can. If no coin covers alone but the coins
  that are still worth something cover together (without a change floor), only such coins are
  merged, they are the cheapest chains of them, in order, and no shorter prefix would have covered.\<close>

theorem select_merge_spares:
  assumes "\<And>c. c \<in> set coins \<Longrightarrow> c_value c < target"
    and "target \<le> total (filter (\<lambda>c. 0 < net ec c) coins)" and "0 < target"
  shows "\<exists>rest. js_sort (byChainThenSize ec) (filter (\<lambda>c. 0 < net ec c) coins)
         = selectSpendInputs coins target None ec @ rest
    \<and> (\<forall>c \<in> set (selectSpendInputs coins target None ec). 0 < net ec c
         \<and> (\<forall>d \<in> set rest. ec c \<le> ec d))
    \<and> (\<forall>k. 0 < k \<and> k < length (selectSpendInputs coins target None ec) \<longrightarrow>
         total (take k (selectSpendInputs coins target None ec)) < target)"
proof -
  define kept where "kept = js_sort (byChainThenSize ec) (filter (\<lambda>c. 0 < net ec c) coins)"
  have sorted: "sorted_wrt (\<lambda>a b. byChainThenSize ec a b \<le> 0) kept"
    unfolding kept_def by (rule chain.sorted_js_sort)
  have tot: "total kept = total (filter (\<lambda>c. 0 < net ec c) coins)"
    by (simp add: kept_def)
  have "kept \<noteq> []" using assms(2,3) tot by auto
  obtain r where eq: "selectSpendInputs coins target None ec = r" by simp
  then show ?thesis
  proof (cases rule: select_cases)
    case (single c)
    with assms(1) [of c] show ?thesis by (simp add: covers_def)
  next
    case worth
    obtain pre c rest where split: "kept = pre @ c # rest" and r: "r = pre @ [c]"
      and short: "\<And>k. 0 < k \<Longrightarrow> k < length r \<Longrightarrow> \<not> covers target None (total (take k r))"
      using accumulate_Some [OF worth(2) [folded kept_def]] by metis
    have "set kept = {c \<in> set coins. 0 < net ec c}" by (auto simp: kept_def)
    moreover have "ec a \<le> ec d" if "a \<in> set r" "d \<in> set rest" for a d
    proof -
      have "byChainThenSize ec a d \<le> 0"
        using sorted that unfolding split r by (auto simp: sorted_wrt_append)
      then show ?thesis by (auto simp: byChainThenSize_def js_or_def split: if_splits)
    qed
    ultimately show ?thesis
      using split r short unfolding eq kept_def [symmetric]
      by (intro exI [of _ rest]) (auto simp: covers_def not_le)
  next
    case all
    with accumulate_None [OF all(2)] \<open>kept \<noteq> []\<close> assms(2) tot show ?thesis
      by (simp add: covers_def kept_def)
  next
    case none
    have "accumulate (covers target None) kept = None"
      using none(3) eq \<open>kept \<noteq> []\<close>
      by (cases "accumulate (covers target None) kept")
         (auto simp: selectSpendInputs_def Let_def kept_def filter_False none(1) dest: accumulate_sub
           split: option.splits)
    from accumulate_None [OF this \<open>kept \<noteq> []\<close>] assms(2) tot show ?thesis
      by (simp add: covers_def)
  qed
qed

theorem select_merge_spares_witness:
  "''cc'' \<notin> c_txid ` set (selectSpendInputs sample_pool 1100 None (\<lambda>c. if c_txid c = ''cc'' then 701 else 3))"
proof -
  have "\<And>c. c \<in> set sample_pool \<Longrightarrow> c_value c < 1100"
    and "1100 \<le> total (filter (\<lambda>c. 0 < net (\<lambda>c. if c_txid c = ''cc'' then 701 else 3) c) sample_pool)"
    by (auto simp: sample_pool_def sample_coin_def net_def)
  note pos = select_merge_spares [OF this]
  define r where "r = selectSpendInputs sample_pool 1100 None (\<lambda>c. if c_txid c = ''cc'' then 701 else 3)"
  have sub: "set r \<subseteq> set sample_pool"
    using select_funded [of sample_pool 1100 "\<lambda>c. if c_txid c = ''cc'' then 701 else 3"]
    unfolding r_def by (cases "r = []") (simp_all add: r_def)
  have ok: "c \<in> set sample_pool \<Longrightarrow> 0 < net (\<lambda>c. if c_txid c = ''cc'' then 701 else 3) c
     \<Longrightarrow> c_txid c \<noteq> ''cc''" for c
    by (auto simp: net_def sample_pool_def sample_coin_def)
  have "c_txid c \<noteq> ''cc''" if "c \<in> set r" for c
    using pos [folded r_def] that sub by (intro ok) auto
  then show ?thesis unfolding r_def [symmetric] by (metis imageE)
qed

subsection \<open>Funding inputs (\<open>eligibility.ts\<close>)\<close>

datatype eligibility = Eligible | Not_eligible string

record eligibility_args =
  ea_dust :: int
  ea_refundLocktime :: int
  ea_marginSecs :: int

definition batchExpirySecs :: "vcoin \<Rightarrow> int option" where
  "batchExpirySecs v = (case c_batchExpiry v of None \<Rightarrow> None
     | Some raw \<Rightarrow> Some (if raw > 1000000000000 then raw div 1000 else raw))"

definition isEligibleFundingInput ::
  "(vcoin \<Rightarrow> bool) \<Rightarrow> (vcoin \<Rightarrow> bool) \<Rightarrow> vcoin \<Rightarrow> eligibility_args \<Rightarrow> eligibility" where
  "isEligibleFundingInput isSpendable isRecoverable v args =
     (if \<not> isSpendable v then Not_eligible ''not spendable (spent/pending)''
      else if isRecoverable v then Not_eligible ''recoverable (swept)''
      else if c_value v < ea_dust args then Not_eligible ''sub-dust value''
      else case batchExpirySecs v of
          None \<Rightarrow> Not_eligible ''no batchExpiry''
        | Some expiry \<Rightarrow>
            if expiry \<le> ea_refundLocktime args + ea_marginSecs args then Not_eligible ''batch expires''
            else Eligible)"

definition selectFundingInputs ::
  "(vcoin \<Rightarrow> bool) \<Rightarrow> (vcoin \<Rightarrow> bool) \<Rightarrow> vcoin list \<Rightarrow> eligibility_args \<Rightarrow> int \<Rightarrow> vcoin list" where
  "selectFundingInputs isSpendable isRecoverable coins args amount =
     (let V = ea_dust args + amount;
          eligible = js_sort (\<lambda>a b. c_value a - c_value b)
            (filter (\<lambda>v. isEligibleFundingInput isSpendable isRecoverable v args = Eligible) coins)
      in case accumulate (\<lambda>got. got \<ge> V) eligible of Some picked \<Rightarrow> picked | None \<Rightarrow> [])"

interpretation ascending: comparator "\<lambda>a b. c_value a - c_value b"
  by (rule comparator_diff)

lemma isEligible_iff:
  "isEligibleFundingInput sp rc v args = Eligible \<longleftrightarrow>
     sp v \<and> \<not> rc v \<and> ea_dust args \<le> c_value v
     \<and> (\<exists>e. batchExpirySecs v = Some e \<and> ea_refundLocktime args + ea_marginSecs args < e)"
  by (auto simp: isEligibleFundingInput_def split: option.splits)

text \<open>The funding of a swap: only spendable, settled coins of at least dust whose batch outlives
  the refund deadline by the margin are spent, each at most once; they cover dust plus the amount,
  smallest coins first and no more of them than needed; and nothing is selected exactly when all
  eligible coins together fall short.\<close>

theorem funding_inputs_sound:
  assumes "0 < ea_dust args" and "0 \<le> amount"
  shows "mset (selectFundingInputs sp rc coins args amount)
      \<subseteq># filter_mset (\<lambda>v. isEligibleFundingInput sp rc v args = Eligible) (mset coins)
    \<and> (\<forall>v \<in> set (selectFundingInputs sp rc coins args amount).
         sp v \<and> \<not> rc v \<and> ea_dust args \<le> c_value v
         \<and> (\<exists>e. batchExpirySecs v = Some e \<and> ea_refundLocktime args + ea_marginSecs args < e)
         \<and> (\<forall>w \<in># mset (filter (\<lambda>v. isEligibleFundingInput sp rc v args = Eligible) coins)
                    - mset (selectFundingInputs sp rc coins args amount). c_value v \<le> c_value w))
    \<and> (\<forall>k. 0 < k \<and> k < length (selectFundingInputs sp rc coins args amount) \<longrightarrow>
         total (take k (selectFundingInputs sp rc coins args amount)) < ea_dust args + amount)
    \<and> (selectFundingInputs sp rc coins args amount = [] \<longleftrightarrow>
         total (filter (\<lambda>v. isEligibleFundingInput sp rc v args = Eligible) coins) < ea_dust args + amount)
    \<and> (selectFundingInputs sp rc coins args amount \<noteq> [] \<longrightarrow>
         ea_dust args + amount \<le> total (selectFundingInputs sp rc coins args amount))"
proof -
  define V where "V = ea_dust args + amount"
  define ok where "ok = (\<lambda>v. isEligibleFundingInput sp rc v args = Eligible)"
  define es where "es = js_sort (\<lambda>a b. c_value a - c_value b) (filter ok coins)"
  define r where "r = selectFundingInputs sp rc coins args amount"
  have r_def': "r = (case accumulate (\<lambda>got. got \<ge> V) es of Some picked \<Rightarrow> picked | None \<Rightarrow> [])"
    by (simp add: r_def selectFundingInputs_def V_def es_def ok_def Let_def)
  have V: "0 < V" using assms by (simp add: V_def)
  have es: "mset es = mset (filter ok coins)" "total es = total (filter ok coins)"
    by (simp_all add: es_def)
  have ok: "ok v \<Longrightarrow> sp v \<and> \<not> rc v \<and> ea_dust args \<le> c_value v
     \<and> (\<exists>e. batchExpirySecs v = Some e \<and> ea_refundLocktime args + ea_marginSecs args < e)" for v
    by (simp add: ok_def isEligible_iff)
  have sorted: "sorted_wrt (\<lambda>a b. c_value a - c_value b \<le> 0) es"
    unfolding es_def by (rule ascending.sorted_js_sort)
  show ?thesis unfolding r_def [symmetric] V_def [symmetric] ok_def [symmetric]
  proof (cases "accumulate (\<lambda>got. got \<ge> V) es")
    case None
    have "total es < V"
      using accumulate_None [OF None] V by (cases "es = []") auto
    with None es show "mset r \<subseteq># filter_mset ok (mset coins)
      \<and> (\<forall>v \<in> set r. sp v \<and> \<not> rc v \<and> ea_dust args \<le> c_value v
         \<and> (\<exists>e. batchExpirySecs v = Some e \<and> ea_refundLocktime args + ea_marginSecs args < e)
         \<and> (\<forall>w \<in># mset (filter ok coins) - mset r. c_value v \<le> c_value w))
      \<and> (\<forall>k. 0 < k \<and> k < length r \<longrightarrow> total (take k r) < V)
      \<and> (r = [] \<longleftrightarrow> total (filter ok coins) < V) \<and> (r \<noteq> [] \<longrightarrow> V \<le> total r)"
      by (simp add: r_def')
  next
    case (Some picked)
    then have r: "r = picked" by (simp add: r_def')
    from Some obtain pre c rest where split: "es = pre @ c # rest" and p: "picked = pre @ [c]"
      and cov: "V \<le> total picked"
      and least: "\<And>k. 0 < k \<Longrightarrow> k < length picked \<Longrightarrow> \<not> V \<le> total (take k picked)"
      by (rule accumulate_Some) blast
    have es_r: "es = r @ rest" by (simp add: r p split)
    then have "mset (filter ok coins) = mset r + mset rest" using es(1) by simp
    then have rest: "mset (filter ok coins) - mset r = mset rest" by simp
    have sub: "mset r \<subseteq># filter_mset ok (mset coins)"
      using \<open>mset (filter ok coins) = mset r + mset rest\<close> by (metis mset_filter mset_subset_eq_add_left)
    have all_ok: "ok v" if "v \<in> set r" for v
    proof -
      have "v \<in> set es" using that es_r by simp
      then show ?thesis by (simp add: es_def)
    qed
    have le: "c_value v \<le> c_value w" if "v \<in> set r" "w \<in> set rest" for v w
      using sorted that unfolding es_r by (auto simp: sorted_wrt_append)
    have nonneg: "0 \<le> total rest"
    proof (rule sum_list_nonneg)
      fix n assume "n \<in> set (map c_value rest)"
      then obtain w where w: "w \<in> set rest" "n = c_value w" by auto
      have "w \<in> set es" using w es_r by simp
      then have "ok w" by (simp add: es_def)
      with ok [of w] assms w show "0 \<le> n" by simp
    qed
    have "V \<le> total (filter ok coins)"
      using cov nonneg es(2) by (simp add: es_r r)
    with sub all_ok ok le least cov rest show "mset r \<subseteq># filter_mset ok (mset coins)
      \<and> (\<forall>v \<in> set r. sp v \<and> \<not> rc v \<and> ea_dust args \<le> c_value v
         \<and> (\<exists>e. batchExpirySecs v = Some e \<and> ea_refundLocktime args + ea_marginSecs args < e)
         \<and> (\<forall>w \<in># mset (filter ok coins) - mset r. c_value v \<le> c_value w))
      \<and> (\<forall>k. 0 < k \<and> k < length r \<longrightarrow> total (take k r) < V)
      \<and> (r = [] \<longleftrightarrow> total (filter ok coins) < V) \<and> (r \<noteq> [] \<longrightarrow> V \<le> total r)"
      by (simp add: r p not_le)
  qed
qed

definition sample_eligibility :: eligibility_args where
  "sample_eligibility = \<lparr>ea_dust = 330, ea_refundLocktime = 1700000000, ea_marginSecs = 86400\<rparr>"

theorem funding_inputs_sound_witness:
  "selectFundingInputs (\<lambda>c. True) (\<lambda>c. False) sample_pool sample_eligibility 100 \<noteq> []
   \<and> 430 \<le> total (selectFundingInputs (\<lambda>c. True) (\<lambda>c. False) sample_pool sample_eligibility 100)"
  using funding_inputs_sound [of sample_eligibility 100 "\<lambda>c. True" "\<lambda>c. False" sample_pool]
  by (simp add: sample_eligibility_def sample_pool_def sample_coin_def isEligible_iff batchExpirySecs_def)

end
