(* ===== verification/Swap_Repo.thy ===== *)
theory Swap_Repo
  imports Swap_State
begin

text \<open>
  The store of in-flight swaps, \<open>src/atomic/repository.ts\<close>: \<open>SqliteAtomicSwapRepository\<close>
  over the table \<open>swaps\<close> of the database. \<open>now\<close> is the reading of \<open>Date.now()\<close> (in
  milliseconds) an operation stamps its write with. Every operation is shown to move each row
  along the state machine only (\<open>swap_progress\<close>), which is the contract the send and receive
  flows are built on.
\<close>

record new_swap =
  w_id :: string
  w_direction :: swap_direction
  w_paymentHash :: string
  w_state :: swap_state
  w_amount :: int
  w_refundLocktime :: int
  w_invoice :: "string option"
  w_preimage :: "string option"
  w_peerPubkey :: "string option"
  w_exitDelay :: "int option"

subsection \<open>Operations\<close>

definition repo_get :: "db \<Rightarrow> string \<Rightarrow> swap_row option" where
  "repo_get d i = row_get s_id i (swaps d)"

definition repo_getByPaymentHash :: "db \<Rightarrow> string \<Rightarrow> swap_row option" where
  "repo_getByPaymentHash d h = row_get s_paymentHash h (swaps d)"

definition row_of_new :: "int \<Rightarrow> new_swap \<Rightarrow> swap_row" where
  "row_of_new now w = \<lparr>s_id = w_id w, s_direction = w_direction w, s_paymentHash = w_paymentHash w,
     s_state = w_state w, s_amount = w_amount w, s_refundLocktime = w_refundLocktime w,
     s_fundingOutpoint = None, s_presigs = None, s_preimage = w_preimage w, s_invoice = w_invoice w,
     s_peerPubkey = w_peerPubkey w, s_exitDelay = w_exitDelay w, s_createdAt = now, s_updatedAt = now\<rparr>"

text \<open>Both the primary key and the unique payment hash report \<open>UNIQUE constraint failed\<close>.\<close>

definition repo_create :: "int \<Rightarrow> new_swap \<Rightarrow> swap_row bridge" where
  "repo_create now w d =
     (if repo_get d (w_id w) \<noteq> None \<or> repo_getByPaymentHash d (w_paymentHash w) \<noteq> None
      then (Inl (Duplicate_swap (w_paymentHash w)), d)
      else (let d' = d\<lparr>swaps := swaps d @ [row_of_new now w]\<rparr>
            in (Inr (the (repo_get d' (w_id w))), d')))"

fun resumable :: "swap_row list \<Rightarrow> err + swap_row list" where
  "resumable [] = Inr []"
| "resumable (s # rows) = (case isTerminal (s_direction s) (s_state s) of
     Inl e \<Rightarrow> Inl e
   | Inr t \<Rightarrow> (case resumable rows of Inl e \<Rightarrow> Inl e | Inr out \<Rightarrow> Inr (if t then out else s # out)))"

definition repo_listResumable :: "db \<Rightarrow> err + swap_row list" where
  "repo_listResumable d = resumable (swaps d)"

definition newest_first :: "swap_row \<Rightarrow> swap_row \<Rightarrow> int" where
  "newest_first a b = js_or (s_createdAt b - s_createdAt a) (ord_cmp (s_id a) (s_id b))"

definition repo_list :: "db \<Rightarrow> nat \<Rightarrow> swap_row list" where
  "repo_list d limit = take limit (js_sort newest_first (swaps d))"

definition repo_mustGet :: "string \<Rightarrow> swap_row bridge" where
  "repo_mustGet i d = (case repo_get d i of
     None \<Rightarrow> (Inl (Error ''atomic swap not found''), d) | Some r \<Rightarrow> (Inr r, d))"

definition update_swap :: "string \<Rightarrow> (swap_row \<Rightarrow> swap_row) \<Rightarrow> db \<Rightarrow> db" where
  "update_swap i f d = d\<lparr>swaps := row_update s_id i f (swaps d)\<rparr>"

definition repo_transition :: "int \<Rightarrow> string \<Rightarrow> swap_state \<Rightarrow> swap_row bridge" where
  "repo_transition now i to' =
     andthen (repo_mustGet i) (\<lambda>cur.
     andthen (lift_res (assertTransition (s_direction cur) (s_state cur) to')) (\<lambda>u.
     andthen (modify (update_swap i (\<lambda>r. r\<lparr>s_state := to', s_updatedAt := now\<rparr>))) (\<lambda>u.
     reading (\<lambda>d. the (repo_get d i)))))"

definition repo_touch :: "int \<Rightarrow> string \<Rightarrow> (swap_row \<Rightarrow> swap_row) \<Rightarrow> unit bridge" where
  "repo_touch now i set_column =
     andthen (repo_mustGet i) (\<lambda>r.
     modify (update_swap i (\<lambda>r. (set_column r)\<lparr>s_updatedAt := now\<rparr>)))"

definition repo_setFundingOutpoint :: "int \<Rightarrow> string \<Rightarrow> string \<Rightarrow> unit bridge" where
  "repo_setFundingOutpoint now i outpoint = repo_touch now i (\<lambda>r. r\<lparr>s_fundingOutpoint := Some outpoint\<rparr>)"

definition repo_setPresigs :: "int \<Rightarrow> string \<Rightarrow> presig \<Rightarrow> unit bridge" where
  "repo_setPresigs now i presigs = repo_touch now i (\<lambda>r. r\<lparr>s_presigs := Some presigs\<rparr>)"

definition repo_setPreimage :: "int \<Rightarrow> string \<Rightarrow> string \<Rightarrow> unit bridge" where
  "repo_setPreimage now i preimageHex = repo_touch now i (\<lambda>r. r\<lparr>s_preimage := Some preimageHex\<rparr>)"

subsection \<open>The two unique keys\<close>

interpretation swap_ids: keyed_rows s_id "\<lambda>f. \<forall>r. s_id (f r) = s_id r"
  by unfold_locales simp

interpretation swap_hashes: keyed_rows s_paymentHash "\<lambda>f. \<forall>r. s_paymentHash (f r) = s_paymentHash r"
  by unfold_locales simp

definition swaps_wf :: "db \<Rightarrow> bool" where
  "swaps_wf d \<longleftrightarrow> distinct (map s_id (swaps d)) \<and> distinct (map s_paymentHash (swaps d))
     \<and> (\<forall>r \<in> set (swaps d). transitions (s_direction r) (s_state r) \<noteq> None)"

text \<open>The columns no operation may change once a row exists.\<close>

definition same_contract :: "swap_row \<Rightarrow> swap_row \<Rightarrow> bool" where
  "same_contract r r' \<longleftrightarrow> s_id r' = s_id r \<and> s_direction r' = s_direction r
     \<and> s_paymentHash r' = s_paymentHash r \<and> s_amount r' = s_amount r
     \<and> s_refundLocktime r' = s_refundLocktime r \<and> s_invoice r' = s_invoice r
     \<and> s_peerPubkey r' = s_peerPubkey r \<and> s_exitDelay r' = s_exitDelay r
     \<and> s_createdAt r' = s_createdAt r"

definition row_moves :: "swap_row \<Rightarrow> swap_row \<Rightarrow> bool" where
  "row_moves r r' \<longleftrightarrow> same_contract r r' \<and> (legal_step (s_direction r))\<^sup>*\<^sup>* (s_state r) (s_state r')"

definition swap_progress :: "db \<Rightarrow> db \<Rightarrow> bool" where
  "swap_progress d d' \<longleftrightarrow> (swaps_wf d \<longrightarrow>
     swaps_wf d' \<and> (\<forall>r \<in> set (swaps d). \<exists>r' \<in> set (swaps d'). row_moves r r'))"

lemma same_contract_refl [simp]: "same_contract r r"
  by (simp add: same_contract_def)

lemma row_moves_refl [simp]: "row_moves r r"
  by (simp add: row_moves_def)

lemma row_moves_trans: "row_moves r s \<Longrightarrow> row_moves s t \<Longrightarrow> row_moves r t"
  unfolding row_moves_def same_contract_def by (auto intro: rtranclp_trans)

interpretation swp: progress swap_progress
proof
  show "swap_progress s s" for s unfolding swap_progress_def by (meson row_moves_refl)
  show "swap_progress s t \<Longrightarrow> swap_progress t u \<Longrightarrow> swap_progress s u" for s t u
    unfolding swap_progress_def by (meson row_moves_trans)
qed

lemma swap_progress_same [simp]: "swaps d' = swaps d \<Longrightarrow> swap_progress d d'"
  unfolding swap_progress_def swaps_wf_def by (metis row_moves_refl)

lemma terminal_frozen:
  assumes "row_moves r r'" and "isTerminal (s_direction r) (s_state r) = Inr True"
  shows "s_state r' = s_state r"
  using assms unfolding row_moves_def
  by (metis converse_rtranclpE terminal_no_step)

lemma legal_step_known: "legal_step dir s t \<Longrightarrow> transitions dir t \<noteq> None"
  by (cases dir) (auto simp: legal_step_iff dest: send_tbl.step_known recv_tbl.step_known)

lemma repo_get_row: "repo_get d i = Some r \<Longrightarrow> r \<in> set (swaps d) \<and> s_id r = i"
  unfolding repo_get_def by (rule swap_ids.row_get_Some)

lemma repo_get_self: "swaps_wf d \<Longrightarrow> r \<in> set (swaps d) \<Longrightarrow> repo_get d (s_id r) = Some r"
  by (simp add: repo_get_def swaps_wf_def swap_ids.row_get_in)

lemma swap_progress_update:
  assumes "\<And>r. repo_get d i = Some r \<Longrightarrow> same_contract r (f r)
    \<and> (s_state (f r) = s_state r \<or> legal_step (s_direction r) (s_state r) (s_state (f r)))"
  shows "swap_progress d (update_swap i f d)"
  unfolding swap_progress_def
proof (intro impI)
  assume wf: "swaps_wf d"
  define g where "g = (\<lambda>r. if s_id r = i then f r else r)"
  have sw: "swaps (update_swap i f d) = map g (swaps d)"
    by (simp add: update_swap_def row_update_def g_def)
  have known: "transitions (s_direction r) (s_state r) \<noteq> None" if "r \<in> set (swaps d)" for r
    using wf that unfolding swaps_wf_def by blast
  have g: "row_moves r (g r) \<and> transitions (s_direction (g r)) (s_state (g r)) \<noteq> None"
    if r: "r \<in> set (swaps d)" for r
  proof (cases "s_id r = i")
    case True
    then have "repo_get d i = Some r" using repo_get_self [OF wf r] by simp
    note * = assms [OF this]
    then have "(legal_step (s_direction r))\<^sup>*\<^sup>* (s_state r) (s_state (f r))"
      by (metis r_into_rtranclp rtranclp.rtrancl_refl)
    moreover have "s_direction (f r) = s_direction r" using * by (simp add: same_contract_def)
    moreover have "transitions (s_direction r) (s_state (f r)) \<noteq> None"
      using * known [OF r] legal_step_known by metis
    ultimately show ?thesis using * True by (simp add: g_def row_moves_def)
  next
    case False
    then show ?thesis using known [OF r] by (simp add: g_def)
  qed
  have keys: "s_id (g r) = s_id r" "s_paymentHash (g r) = s_paymentHash r"
    if "r \<in> set (swaps d)" for r
    using g [OF that] by (simp_all add: row_moves_def same_contract_def)
  have "map s_id (map g (swaps d)) = map s_id (swaps d)"
    and "map s_paymentHash (map g (swaps d)) = map s_paymentHash (swaps d)"
    using keys by simp_all
  moreover have "\<forall>r \<in> set (map g (swaps d)). transitions (s_direction r) (s_state r) \<noteq> None"
    using g by simp
  ultimately have "swaps_wf (update_swap i f d)"
    using wf unfolding swaps_wf_def sw by metis
  moreover have "\<forall>r \<in> set (swaps d). \<exists>r' \<in> set (swaps (update_swap i f d)). row_moves r r'"
    unfolding sw using g by auto
  ultimately show "swaps_wf (update_swap i f d)
    \<and> (\<forall>r \<in> set (swaps d). \<exists>r' \<in> set (swaps (update_swap i f d)). row_moves r r')" by blast
qed

subsection \<open>Every operation on every branch\<close>

lemma repo_get_update_swap:
  assumes "\<And>r. s_id (f r) = s_id r"
  shows "repo_get (update_swap i f d) j = (if j = i then map_option f (repo_get d i) else repo_get d j)"
  by (simp add: repo_get_def update_swap_def swap_ids.row_get_update assms)

lemma repo_transition_eq:
  "repo_transition now i to' d = (case repo_get d i of
     None \<Rightarrow> (Inl (Error ''atomic swap not found''), d)
   | Some cur \<Rightarrow> (case assertTransition (s_direction cur) (s_state cur) to' of
       Inl e \<Rightarrow> (Inl e, d)
     | Inr u \<Rightarrow> (Inr (cur\<lparr>s_state := to', s_updatedAt := now\<rparr>),
         update_swap i (\<lambda>r. r\<lparr>s_state := to', s_updatedAt := now\<rparr>) d)))"
  by (simp add: repo_transition_def repo_mustGet_def andthen_def repo_get_update_swap
      split: option.split sum.split)

lemma repo_touch_eq:
  "repo_touch now i f d = (case repo_get d i of
     None \<Rightarrow> (Inl (Error ''atomic swap not found''), d)
   | Some cur \<Rightarrow> (Inr (), update_swap i (\<lambda>r. (f r)\<lparr>s_updatedAt := now\<rparr>) d))"
  by (simp add: repo_touch_def repo_mustGet_def andthen_def split: option.split)

lemma moves_transition: "moves swap_progress (repo_transition now i to')"
  unfolding moves_def
proof
  fix d
  show "swap_progress d (snd (repo_transition now i to' d))"
  proof (cases "repo_get d i")
    case None
    then show ?thesis by (simp add: repo_transition_eq)
  next
    case (Some cur)
    show ?thesis
    proof (cases "assertTransition (s_direction cur) (s_state cur) to'")
      case (Inl e)
      with Some show ?thesis by (simp add: repo_transition_eq)
    next
      case (Inr u)
      then have "legal_step (s_direction cur) (s_state cur) to'" by (simp add: assertTransition_Inr)
      then have "swap_progress d (update_swap i (\<lambda>r. r\<lparr>s_state := to', s_updatedAt := now\<rparr>) d)"
        using Some by (intro swap_progress_update) (simp add: same_contract_def)
      with Some Inr show ?thesis by (simp add: repo_transition_eq)
    qed
  qed
qed

lemma moves_touch:
  assumes "\<And>r. same_contract r (f r) \<and> s_state (f r) = s_state r"
  shows "moves swap_progress (repo_touch now i f)"
  unfolding moves_def
proof
  fix d
  have "swap_progress d (update_swap i (\<lambda>r. (f r)\<lparr>s_updatedAt := now\<rparr>) d)"
    using assms by (intro swap_progress_update) (simp add: same_contract_def)
  then show "swap_progress d (snd (repo_touch now i f d))"
    by (simp add: repo_touch_eq split: option.split)
qed

lemma moves_setters:
  "moves swap_progress (repo_setFundingOutpoint now i outpoint)"
  "moves swap_progress (repo_setPresigs now i presigs)"
  "moves swap_progress (repo_setPreimage now i preimageHex)"
  unfolding repo_setFundingOutpoint_def repo_setPresigs_def repo_setPreimage_def
  by (rule moves_touch, simp add: same_contract_def)+

lemma moves_create:
  assumes "transitions (w_direction w) (w_state w) \<noteq> None"
  shows "moves swap_progress (repo_create now w)"
  unfolding moves_def
proof
  fix d
  show "swap_progress d (snd (repo_create now w d))"
  proof (cases "repo_get d (w_id w) \<noteq> None \<or> repo_getByPaymentHash d (w_paymentHash w) \<noteq> None")
    case True
    then show ?thesis by (simp add: repo_create_def)
  next
    case False
    then have "w_id w \<notin> s_id ` set (swaps d)" "w_paymentHash w \<notin> s_paymentHash ` set (swaps d)"
      by (simp_all add: repo_get_def repo_getByPaymentHash_def swap_ids.row_get_None
          swap_hashes.row_get_None)
    then have "swap_progress d (d\<lparr>swaps := swaps d @ [row_of_new now w]\<rparr>)"
      using assms unfolding swap_progress_def swaps_wf_def
      by (auto simp: row_of_new_def intro: row_moves_refl)
    with False show ?thesis by (simp add: repo_create_def Let_def)
  qed
qed

lemma moves_create_sets: "moves swap_progress (modify (\<lambda>d. d\<lparr>inflight := f d\<rparr>))"
  by (rule swp.moves_modify) simp

lemma resumable_iff:
  "resumable rows = Inr out \<Longrightarrow>
     out = filter (\<lambda>s. isTerminal (s_direction s) (s_state s) = Inr False) rows
     \<and> (\<forall>s \<in> set rows. isTerminal (s_direction s) (s_state s) \<in> range Inr)"
  by (induction rows arbitrary: out) (auto split: sum.splits if_splits)

lemma resumable_total:
  "\<forall>s \<in> set rows. transitions (s_direction s) (s_state s) \<noteq> None \<Longrightarrow> \<exists>out. resumable rows = Inr out"
  by (induction rows) (auto simp: isTerminal_def split: option.splits)

subsection \<open>Histories of the store\<close>

text \<open>A call of the public interface, and the database after any sequence of them.\<close>

inductive repo_step :: "db \<Rightarrow> db \<Rightarrow> bool" where
  create: "transitions (w_direction w) (w_state w) \<noteq> None \<Longrightarrow> repo_step d (snd (repo_create now w d))"
| transition: "repo_step d (snd (repo_transition now i to' d))"
| setFundingOutpoint: "repo_step d (snd (repo_setFundingOutpoint now i outpoint d))"
| setPresigs: "repo_step d (snd (repo_setPresigs now i presigs d))"
| setPreimage: "repo_step d (snd (repo_setPreimage now i preimageHex d))"

lemma repo_step_progress: "repo_step d d' \<Longrightarrow> swap_progress d d'"
  by (induction rule: repo_step.induct)
     (auto intro: movesD moves_create moves_transition moves_setters)

lemma repo_run_progress: "repo_step\<^sup>*\<^sup>* d d' \<Longrightarrow> swap_progress d d'"
  by (induction rule: rtranclp_induct) (auto intro: swp.R_refl swp.R_trans dest: repo_step_progress)

text \<open>C9: whatever sequence of calls the store has seen since it was empty, no two swaps share an
  id or a payment hash, every row is in a state of its direction (so the resume listing never
  throws and holds exactly the rows that are not terminal), and from then on a row keeps its
  contract (amount, hash, deadline, peer, script delay) and only moves along the state machine; a
  terminal row keeps its state for good.\<close>

theorem store_history:
  assumes "repo_step\<^sup>*\<^sup>* empty_db d" and "repo_step\<^sup>*\<^sup>* d d'"
  shows "swaps_wf d
    \<and> repo_listResumable d =
        Inr (filter (\<lambda>s. isTerminal (s_direction s) (s_state s) = Inr False) (swaps d))
    \<and> (\<forall>r \<in> set (swaps d). \<exists>r'. repo_get d' (s_id r) = Some r' \<and> same_contract r r'
         \<and> (legal_step (s_direction r))\<^sup>*\<^sup>* (s_state r) (s_state r')
         \<and> (isTerminal (s_direction r) (s_state r) = Inr True \<longrightarrow> s_state r' = s_state r))"
proof -
  have "swaps_wf empty_db" by (simp add: swaps_wf_def empty_db_def)
  with repo_run_progress [OF assms(1)] have wf: "swaps_wf d" by (simp add: swap_progress_def)
  with repo_run_progress [OF assms(2)] have wf': "swaps_wf d'"
    and rows: "\<And>r. r \<in> set (swaps d) \<Longrightarrow> \<exists>r' \<in> set (swaps d'). row_moves r r'"
    by (auto simp: swap_progress_def)
  have "\<exists>out. resumable (swaps d) = Inr out"
    using wf by (intro resumable_total) (simp add: swaps_wf_def)
  then have list: "repo_listResumable d =
      Inr (filter (\<lambda>s. isTerminal (s_direction s) (s_state s) = Inr False) (swaps d))"
    using resumable_iff by (fastforce simp: repo_listResumable_def)
  have "\<exists>r'. repo_get d' (s_id r) = Some r' \<and> same_contract r r'
      \<and> (legal_step (s_direction r))\<^sup>*\<^sup>* (s_state r) (s_state r')
      \<and> (isTerminal (s_direction r) (s_state r) = Inr True \<longrightarrow> s_state r' = s_state r)"
    if "r \<in> set (swaps d)" for r
  proof -
    from rows [OF that] obtain r' where r': "r' \<in> set (swaps d')" "row_moves r r'" by blast
    moreover have "s_id r' = s_id r" using r'(2) by (simp add: row_moves_def same_contract_def)
    ultimately show ?thesis
      using repo_get_self [OF wf' r'(1)] terminal_frozen [OF r'(2)] unfolding row_moves_def by metis
  qed
  with wf list show ?thesis by blast
qed

definition sample_new :: "string \<Rightarrow> string \<Rightarrow> new_swap" where
  "sample_new i h = \<lparr>w_id = i, w_direction = Send, w_paymentHash = h, w_state = Init, w_amount = 21,
     w_refundLocktime = 1700000000, w_invoice = None, w_preimage = None,
     w_peerPubkey = Some ''02'', w_exitDelay = Some 512\<rparr>"

theorem store_history_witness:
  "repo_listResumable (snd (repo_create 5 (sample_new ''s1'' ''h1'') empty_db)) =
     Inr [row_of_new 5 (sample_new ''s1'' ''h1'')]"
proof -
  have "repo_step empty_db (snd (repo_create 5 (sample_new ''s1'' ''h1'') empty_db))"
    by (rule repo_step.create) (simp add: sample_new_def)
  then have "repo_step\<^sup>*\<^sup>* empty_db (snd (repo_create 5 (sample_new ''s1'' ''h1'') empty_db))" by blast
  from store_history [OF this rtranclp.rtrancl_refl] show ?thesis
    by (simp add: repo_create_def repo_get_def row_get_def repo_getByPaymentHash_def empty_db_def
        row_of_new_def sample_new_def isTerminal_def)
qed

text \<open>Creating a swap is refused with the duplicate error exactly when its id or its payment
  hash is taken, and then nothing is written; otherwise the new row is what both lookups return,
  and every other row is untouched.\<close>

theorem create_dedup:
  "repo_create now w d = (r, d') \<Longrightarrow>
     (if repo_get d (w_id w) \<noteq> None \<or> repo_getByPaymentHash d (w_paymentHash w) \<noteq> None
      then r = Inl (Duplicate_swap (w_paymentHash w)) \<and> d' = d
      else r = Inr (row_of_new now w)
        \<and> repo_get d' (w_id w) = Some (row_of_new now w)
        \<and> repo_getByPaymentHash d' (w_paymentHash w) = Some (row_of_new now w)
        \<and> (\<forall>j. j \<noteq> w_id w \<longrightarrow> repo_get d' j = repo_get d j))"
  by (auto simp: repo_create_def repo_get_def repo_getByPaymentHash_def Let_def
      swap_ids.row_get_snoc swap_hashes.row_get_snoc row_of_new_def split: if_splits option.splits)

theorem create_dedup_witness:
  "fst (repo_create 9 (sample_new ''s2'' ''h1'') (snd (repo_create 5 (sample_new ''s1'' ''h1'') empty_db)))
     = Inl (Duplicate_swap ''h1'')"
proof -
  obtain r d' where run: "repo_create 9 (sample_new ''s2'' ''h1'')
      (snd (repo_create 5 (sample_new ''s1'' ''h1'') empty_db)) = (r, d')" by fastforce
  from create_dedup [OF run] run show ?thesis
    by (simp add: repo_create_def repo_get_def row_get_def repo_getByPaymentHash_def empty_db_def
        row_of_new_def sample_new_def)
qed

end
