(* ===== verification/Chain_Order.thy ===== *)
theory Chain_Order
  imports Bridge_Types
begin

text \<open>
  The ancestry of a vtxo as a graph, \<open>src/exit/chain_order.ts\<close>: the edge parser, the check
  for broken ancestry, and the layered layout of the exit page. A JavaScript \<open>Map\<close> is a partial
  function, or a list of pairs where its size or its values are read. The topological loop of
  \<open>chainGraph\<close> is a partial function: that it returns is a theorem.
\<close>

record chain_edge =
  e_parent :: string
  e_child :: string

record chain_graph =
  g_levels :: "chain_tx list list"
  g_edges :: "chain_edge list"
  g_lane :: "(string \<times> int) list"
  g_width :: int

subsection \<open>Edges\<close>

definition js_blank :: "char \<Rightarrow> bool" where
  "js_blank c \<longleftrightarrow> (of_char c :: nat) \<in> {9, 10, 11, 12, 13, 32, 160}"

definition parentTxids :: "chain_tx \<Rightarrow> string list" where
  "parentTxids tx = js_set
     (filter (\<lambda>txid. txid \<noteq> ct_txid tx)
       (map (\<lambda>s. hd (js_split (CHR '':'') s))
         (filter (\<lambda>s. \<exists>c \<in> set s. \<not> js_blank c)
           (case ct_spends tx of None \<Rightarrow> [] | Some ss \<Rightarrow> ss))))"

definition danglingEntries :: "chain_tx list \<Rightarrow> chain_tx list" where
  "danglingEntries chain =
     (let present = set (map ct_txid chain) in
      filter (\<lambda>tx. parentTxids tx \<noteq> [] \<and> \<not> (\<exists>p \<in> set (parentTxids tx). p \<in> present)) chain)"

subsection \<open>The layout\<close>

fun dedup_nodes :: "string list \<Rightarrow> chain_tx list \<Rightarrow> chain_tx list" where
  "dedup_nodes seen [] = []"
| "dedup_nodes seen (tx # chain) =
     (if ct_txid tx \<in> set seen then dedup_nodes seen chain
      else tx # dedup_nodes (ct_txid tx # seen) chain)"

abbreviation txids :: "chain_tx list \<Rightarrow> string list" where
  "txids chain \<equiv> map ct_txid chain"

text \<open>\<open>parents.get(txid)\<close>: the parents that are themselves nodes.\<close>

definition parents_in :: "chain_tx list \<Rightarrow> chain_tx \<Rightarrow> string list" where
  "parents_in nodes tx = filter (\<lambda>t. t \<in> set (txids nodes)) (parentTxids tx)"

text \<open>One pass of the inner loop; the set \<open>emitted\<close> is the txids of \<open>topo\<close>.\<close>

fun wave :: "(chain_tx \<Rightarrow> string list) \<Rightarrow> chain_tx list \<Rightarrow> chain_tx list \<Rightarrow> chain_tx list" where
  "wave ps [] topo = topo"
| "wave ps (tx # nodes) topo =
     (if ct_txid tx \<in> set (txids topo) then wave ps nodes topo
      else if set (ps tx) \<subseteq> set (txids topo) then wave ps nodes (topo @ [tx])
      else wave ps nodes topo)"

definition emit_rest :: "chain_tx list \<Rightarrow> chain_tx list \<Rightarrow> chain_tx list" where
  "emit_rest nodes topo = topo @ filter (\<lambda>tx. ct_txid tx \<notin> set (txids topo)) nodes"

partial_function (option) topo_loop ::
  "(chain_tx \<Rightarrow> string list) \<Rightarrow> chain_tx list \<Rightarrow> chain_tx list \<Rightarrow> chain_tx list option" where
  "topo_loop ps nodes topo =
     (if \<not> length topo < length nodes then Some topo
      else (let topo' = wave ps nodes topo in
        if length topo' = length topo then topo_loop ps nodes (emit_rest nodes topo')
        else topo_loop ps nodes topo'))"

definition depth_step :: "(chain_tx \<Rightarrow> string list) \<Rightarrow> (string \<rightharpoonup> nat) \<Rightarrow> chain_tx \<Rightarrow> (string \<rightharpoonup> nat)" where
  "depth_step ps depth tx = depth(ct_txid tx \<mapsto>
     (if ps tx = [] then 0
      else 1 + foldr max (map (\<lambda>p. case depth p of None \<Rightarrow> 0 | Some n \<Rightarrow> n) (ps tx)) 0))"

definition depths :: "(chain_tx \<Rightarrow> string list) \<Rightarrow> chain_tx list \<Rightarrow> (string \<rightharpoonup> nat)" where
  "depths ps topo = foldl (depth_step ps) Map.empty topo"

definition levels_of :: "(string \<rightharpoonup> nat) \<Rightarrow> chain_tx list \<Rightarrow> chain_tx list list" where
  "levels_of depth topo =
     (let d = (\<lambda>tx. the (depth (ct_txid tx)));
          byDepth = map (\<lambda>n. filter (\<lambda>tx. d tx = n) topo) [0 ..< Suc (foldr max (map d topo) 0)]
      in filter (\<lambda>l. l \<noteq> []) byDepth)"

text \<open>\<open>while (taken.has(col)) col++\<close>.\<close>

function free_col :: "int list \<Rightarrow> int \<Rightarrow> int" where
  "free_col taken col = (if col \<in> set taken then free_col taken (col + 1) else col)"
  by auto

termination
proof (relation "measure (\<lambda>(taken, col). card {c \<in> set taken. c \<ge> col})")
  show "((taken, col + 1), (taken, col)) \<in> measure (\<lambda>(taken, col). card {c \<in> set taken. c \<ge> col})"
    if "col \<in> set taken" for taken and col :: int
  proof -
    have "{c \<in> set taken. c \<ge> col + 1} \<subseteq> {c \<in> set taken. c \<ge> col}" by auto
    moreover have "col \<in> {c \<in> set taken. c \<ge> col} - {c \<in> set taken. c \<ge> col + 1}" using that by simp
    ultimately have "{c \<in> set taken. c \<ge> col + 1} \<subset> {c \<in> set taken. c \<ge> col}" by blast
    then have "card {c \<in> set taken. c \<ge> col + 1} < card {c \<in> set taken. c \<ge> col}"
      by (rule psubset_card_mono [rotated]) simp
    then show ?thesis by simp
  qed
qed simp

declare free_col.simps [simp del]

text \<open>A wanted lane is a mean, kept as its sum and its divisor.\<close>

definition want_lane ::
  "(chain_tx \<Rightarrow> string list) \<Rightarrow> (string \<times> int) list \<Rightarrow> nat \<Rightarrow> nat \<Rightarrow> chain_tx \<Rightarrow> int \<times> int" where
  "want_lane ps lane dep i tx =
     (if dep = 0 then (int i, 1)
      else (let known = filter (\<lambda>p. map_of lane p \<noteq> None) (ps tx) in
        if known = [] then (int i, 1)
        else (sum_list (map (\<lambda>p. the (map_of lane p)) known), int (length known))))"

definition want_cmp :: "(chain_tx \<times> (int \<times> int) \<times> nat) \<Rightarrow> (chain_tx \<times> (int \<times> int) \<times> nat) \<Rightarrow> int" where
  "want_cmp a b = (case (a, b) of ((_, (n, d), i), (_, (m, e), j)) \<Rightarrow>
     (let diff = n * e - m * d in if diff \<noteq> 0 then diff else int i - int j))"

fun place :: "(chain_tx \<times> (int \<times> int) \<times> nat) list \<Rightarrow> int list \<Rightarrow> (string \<times> int) list \<Rightarrow> (string \<times> int) list" where
  "place [] taken lane = lane"
| "place ((tx, (n, d), i) # rest) taken lane =
     (let col = free_col taken (max 0 (n div d)) in
      place rest (col # taken) (lane @ [(ct_txid tx, col)]))"

fun lanes_from ::
  "(chain_tx \<Rightarrow> string list) \<Rightarrow> nat \<Rightarrow> chain_tx list list \<Rightarrow> (string \<times> int) list \<Rightarrow> (string \<times> int) list" where
  "lanes_from ps dep [] lane = lane"
| "lanes_from ps dep (level # levels) lane =
     (let items = map (\<lambda>(i, tx). (tx, want_lane ps lane dep i tx, i)) (List.enumerate 0 level) in
      lanes_from ps (Suc dep) levels (place (js_sort want_cmp items) [] lane))"

definition assignLanes :: "chain_tx list list \<Rightarrow> (chain_tx \<Rightarrow> string list) \<Rightarrow> (string \<times> int) list" where
  "assignLanes levels ps = lanes_from ps 0 levels []"

definition chainGraph :: "chain_tx list \<Rightarrow> chain_graph option" where
  "chainGraph chain =
     (let nodes = dedup_nodes [] chain;
          ps = parents_in nodes
      in case topo_loop ps nodes [] of
           None \<Rightarrow> None
         | Some topo \<Rightarrow>
             (let levels = levels_of (depths ps topo) topo;
                  edges = concat (map (\<lambda>tx. map (\<lambda>p. \<lparr>e_parent = p, e_child = ct_txid tx\<rparr>) (ps tx)) nodes);
                  lane = assignLanes levels ps;
                  width = (if lane = [] then 0 else Max (set (map snd lane)) + 1)
              in Some \<lparr>g_levels = levels, g_edges = edges, g_lane = lane, g_width = width\<rparr>))"

subsection \<open>Nodes and the topological order\<close>

lemma set_dedup_nodes: "set (txids (dedup_nodes seen chain)) = set (txids chain) - set seen"
  by (induction seen chain rule: dedup_nodes.induct) auto

lemma distinct_dedup_nodes: "distinct (txids (dedup_nodes seen chain))"
  by (induction seen chain rule: dedup_nodes.induct) (use set_dedup_nodes in auto)

lemma dedup_nodes_sub: "set (dedup_nodes seen chain) \<subseteq> set chain"
  by (induction seen chain rule: dedup_nodes.induct) auto

definition partial_order_of :: "chain_tx list \<Rightarrow> chain_tx list \<Rightarrow> bool" where
  "partial_order_of nodes topo \<longleftrightarrow> distinct (txids topo) \<and> set topo \<subseteq> set nodes"

lemma wave_partial:
  "partial_order_of all topo \<Longrightarrow> set nodes \<subseteq> set all \<Longrightarrow> partial_order_of all (wave ps nodes topo)"
  by (induction ps nodes topo rule: wave.induct) (auto simp: partial_order_of_def)

lemma wave_extends: "\<exists>new. wave ps nodes topo = topo @ new"
proof (induction ps nodes topo rule: wave.induct)
  case (1 ps topo)
  then show ?case by simp
next
  case (2 ps tx nodes topo)
  then show ?case by (cases "ct_txid tx \<in> set (txids topo)"; cases "set (ps tx) \<subseteq> set (txids topo)") auto
qed

lemma same_node:
  "distinct (txids nodes) \<Longrightarrow> x \<in> set nodes \<Longrightarrow> y \<in> set nodes \<Longrightarrow> ct_txid x = ct_txid y \<Longrightarrow> x = y"
  by (metis distinct_map inj_onD)

lemma emit_rest_full:
  assumes "partial_order_of nodes topo" and "distinct (txids nodes)"
  shows "partial_order_of nodes (emit_rest nodes topo) \<and> set (emit_rest nodes topo) = set nodes"
proof -
  have "distinct (txids (filter (\<lambda>tx. ct_txid tx \<notin> set (txids topo)) nodes))"
    using assms(2) by (rule distinct_map_filter)
  moreover have "tx \<in> set topo" if "tx \<in> set nodes" "ct_txid tx \<in> set (txids topo)" for tx
  proof -
    from that(2) obtain y where y: "y \<in> set topo" "ct_txid y = ct_txid tx" by auto
    moreover have "y \<in> set nodes" using y assms(1) by (auto simp: partial_order_of_def)
    ultimately show ?thesis using same_node [OF assms(2)] that(1) by metis
  qed
  moreover have "distinct (txids topo)" "set topo \<subseteq> set nodes"
    using assms(1) by (simp_all add: partial_order_of_def)
  moreover define rest where "rest = filter (\<lambda>tx. ct_txid tx \<notin> set (txids topo)) nodes"
  moreover have "set (txids topo) \<inter> set (txids rest) = {}"
    by (auto simp: rest_def) (metis image_eqI)
  moreover have "set rest \<subseteq> set nodes" "set nodes \<subseteq> set topo \<union> set rest"
    using calculation(2) by (auto simp: rest_def)
  ultimately show ?thesis
    unfolding partial_order_of_def emit_rest_def rest_def [symmetric]
    by (metis Un_least distinct_append map_append set_append subset_antisym)
qed

lemma full_length:
  assumes "partial_order_of nodes topo" and "distinct (txids nodes)"
  shows "set topo = set nodes \<longleftrightarrow> \<not> length topo < length nodes"
proof -
  have d: "distinct topo" "distinct nodes"
    using assms unfolding partial_order_of_def by (metis distinct_map)+
  then have "length topo = card (set topo)" "length nodes = card (set nodes)"
    by (simp_all add: distinct_card)
  moreover have "set topo \<subseteq> set nodes" using assms(1) by (simp add: partial_order_of_def)
  ultimately show ?thesis
    by (metis card_seteq less_irrefl List.finite_set not_less)
qed

lemma topo_loop_returns:
  assumes "partial_order_of nodes topo" and "distinct (txids nodes)"
  shows "\<exists>out. topo_loop ps nodes topo = Some out \<and> partial_order_of nodes out \<and> set out = set nodes"
  using assms
proof (induction "length nodes - length topo" arbitrary: topo rule: less_induct)
  case less
  show ?case
  proof (cases "length topo < length nodes")
    case False
    then show ?thesis
      using full_length [OF less.prems] less.prems by (subst topo_loop.simps) simp
  next
    case short: True
    define topo' where "topo' = wave ps nodes topo"
    have topo': "partial_order_of nodes topo'"
      unfolding topo'_def by (rule wave_partial [OF less.prems(1)]) simp
    obtain new where new: "topo' = topo @ new" using wave_extends topo'_def by metis
    show ?thesis
    proof (cases "length topo' = length topo")
      case True
      note rest = emit_rest_full [OF topo' less.prems(2)]
      then have "\<not> length (emit_rest nodes topo') < length nodes"
        using full_length [of nodes "emit_rest nodes topo'"] less.prems(2) by simp
      then have "topo_loop ps nodes (emit_rest nodes topo') = Some (emit_rest nodes topo')"
        by (subst topo_loop.simps) simp
      then show ?thesis
        using short True rest by (subst topo_loop.simps) (simp add: topo'_def [symmetric] Let_def)
    next
      case False
      then have "length nodes - length topo' < length nodes - length topo"
        using new short by (cases new) auto
      from less.hyps [OF this topo' less.prems(2)] show ?thesis
        using short False by (subst topo_loop.simps) (simp add: topo'_def [symmetric] Let_def)
    qed
  qed
qed

text \<open>The order is topological when the ancestry has no cycle.\<close>

definition parents_first :: "(chain_tx \<Rightarrow> string list) \<Rightarrow> chain_tx list \<Rightarrow> bool" where
  "parents_first ps topo \<longleftrightarrow>
     (\<forall>pre tx post. topo = pre @ tx # post \<longrightarrow> set (ps tx) \<subseteq> set (txids pre))"

lemma parents_first_snoc:
  "parents_first ps (topo @ [tx]) \<longleftrightarrow> parents_first ps topo \<and> set (ps tx) \<subseteq> set (txids topo)"
proof
  assume pf: "parents_first ps (topo @ [tx])"
  have "set (ps t) \<subseteq> set (txids pre)" if "topo = pre @ t # post" for pre t post
    using pf that unfolding parents_first_def by fastforce
  moreover have "set (ps tx) \<subseteq> set (txids topo)" using pf unfolding parents_first_def by blast
  ultimately show "parents_first ps topo \<and> set (ps tx) \<subseteq> set (txids topo)"
    unfolding parents_first_def by blast
next
  assume r: "parents_first ps topo \<and> set (ps tx) \<subseteq> set (txids topo)"
  show "parents_first ps (topo @ [tx])"
    unfolding parents_first_def
  proof (intro allI impI)
    fix pre t post assume eq: "topo @ [tx] = pre @ t # post"
    show "set (ps t) \<subseteq> set (txids pre)"
    proof (cases post rule: rev_cases)
      case Nil
      with eq r show ?thesis by simp
    next
      case (snoc post' x)
      with eq have "topo = pre @ t # post'" by simp
      with r show ?thesis unfolding parents_first_def by blast
    qed
  qed
qed

lemma wave_parents_first: "parents_first ps topo \<Longrightarrow> parents_first ps (wave ps nodes topo)"
  by (induction ps nodes topo rule: wave.induct) (auto simp: parents_first_snoc)

lemma wave_stuck:
  "wave ps nodes topo = topo \<Longrightarrow> tx \<in> set nodes \<Longrightarrow> ct_txid tx \<notin> set (txids topo) \<Longrightarrow>
     \<not> set (ps tx) \<subseteq> set (txids topo)"
proof (induction ps nodes topo rule: wave.induct)
  case (1 ps topo)
  then show ?case by simp
next
  case (2 ps t nodes topo)
  obtain new where "wave ps nodes (topo @ [t]) = (topo @ [t]) @ new" using wave_extends by metis
  then have "wave ps nodes (topo @ [t]) \<noteq> topo" by simp
  with 2 show ?case by (auto split: if_splits)
qed

definition acyclic_chain :: "chain_tx list \<Rightarrow> bool" where
  "acyclic_chain chain \<longleftrightarrow> (\<exists>rank :: string \<Rightarrow> nat.
     \<forall>tx \<in> set chain. \<forall>p \<in> set (parentTxids tx). p \<in> set (txids chain) \<longrightarrow> rank p < rank (ct_txid tx))"

lemma topo_loop_order:
  fixes rank :: "string \<Rightarrow> nat"
  assumes rank: "\<And>tx p. tx \<in> set nodes \<Longrightarrow> p \<in> set (ps tx) \<Longrightarrow>
       p \<in> set (txids nodes) \<and> rank p < rank (ct_txid tx)"
    and "distinct (txids nodes)"
  shows "partial_order_of nodes topo \<Longrightarrow> parents_first ps topo \<Longrightarrow> topo_loop ps nodes topo = Some out \<Longrightarrow>
     parents_first ps out"
proof (induction "length nodes - length topo" arbitrary: topo rule: less_induct)
  case less
  show ?case
  proof (cases "length topo < length nodes")
    case False
    with less.prems show ?thesis by (simp add: topo_loop.simps)
  next
    case short: True
    define topo' where "topo' = wave ps nodes topo"
    have topo': "partial_order_of nodes topo'" "parents_first ps topo'"
      unfolding topo'_def using less.prems by (auto intro: wave_partial wave_parents_first)
    obtain new where new: "topo' = topo @ new" using wave_extends topo'_def by metis
    have progress: "length topo' \<noteq> length topo"
    proof
      assume same: "length topo' = length topo"
      then have stuck: "wave ps nodes topo = topo" using new topo'_def by simp
      define left where "left = {tx \<in> set nodes. ct_txid tx \<notin> set (txids topo)}"
      have "set topo \<noteq> set nodes" using full_length [OF less.prems(1) assms(2)] short by blast
      then obtain x where "x \<in> set nodes" "x \<notin> set topo"
        using less.prems(1) by (auto simp: partial_order_of_def)
      moreover have "ct_txid x \<notin> set (txids topo)"
      proof
        assume "ct_txid x \<in> set (txids topo)"
        then obtain y where y: "y \<in> set topo" "ct_txid y = ct_txid x" by auto
        then have "y \<in> set nodes" using less.prems(1) by (auto simp: partial_order_of_def)
        with y \<open>x \<in> set nodes\<close> \<open>x \<notin> set topo\<close> show False using same_node [OF assms(2)] by metis
      qed
      ultimately have "left \<noteq> {}" by (auto simp: left_def)
      then obtain tx where tx: "tx \<in> left" and min: "\<And>y. y \<in> left \<Longrightarrow> rank (ct_txid tx) \<le> rank (ct_txid y)"
        using ex_has_least_nat [of "\<lambda>t. t \<in> left" _ "\<lambda>t. rank (ct_txid t)"] by blast
      have "set (ps tx) \<subseteq> set (txids topo)"
      proof
        fix p assume p: "p \<in> set (ps tx)"
        show "p \<in> set (txids topo)"
        proof (rule ccontr)
          assume "p \<notin> set (txids topo)"
          moreover have "p \<in> set (txids nodes)" "rank p < rank (ct_txid tx)"
            using rank p tx by (auto simp: left_def)
          ultimately obtain y where "y \<in> left" "ct_txid y = p" by (auto simp: left_def)
          with min [of y] \<open>rank p < rank (ct_txid tx)\<close> show False by simp
        qed
      qed
      with wave_stuck [OF stuck, of tx] tx show False by (simp add: left_def)
    qed
    then have "length nodes - length topo' < length nodes - length topo"
      using new short by (cases new) auto
    moreover have "topo_loop ps nodes topo' = Some out"
      using less.prems(3) short progress
      by (subst (asm) topo_loop.simps) (simp add: topo'_def [symmetric] Let_def)
    ultimately show ?thesis using less.hyps topo' by blast
  qed
qed

subsection \<open>Depths and levels\<close>

lemma depths_snoc: "depths ps (topo @ [tx]) = depth_step ps (depths ps topo) tx"
  by (simp add: depths_def)

lemma depth_step_other: "t \<noteq> ct_txid tx \<Longrightarrow> depth_step ps d tx t = d t"
  by (simp add: depth_step_def)

lemma depth_step_self: "\<exists>n. depth_step ps d tx (ct_txid tx) = Some n"
  by (simp add: depth_step_def)

lemma le_foldr_max: "x \<in> set xs \<Longrightarrow> (x::nat) \<le> foldr max xs 0"
  by (induction xs) auto

lemma depth_step_parent:
  assumes "p \<in> set (ps tx)" and "d p = Some a"
  shows "\<exists>b. depth_step ps d tx (ct_txid tx) = Some b \<and> a < b"
proof -
  let ?f = "\<lambda>p. case d p of None \<Rightarrow> 0 | Some n \<Rightarrow> n"
  have "?f p \<in> set (map ?f (ps tx))" using assms(1) by (metis image_eqI set_map)
  then have "?f p \<le> foldr max (map ?f (ps tx)) 0" by (rule le_foldr_max)
  moreover have "ps tx \<noteq> []" using assms(1) by auto
  ultimately show ?thesis using assms(2) by (simp add: depth_step_def)
qed

lemma depths_some: "tx \<in> set topo \<Longrightarrow> \<exists>n. depths ps topo (ct_txid tx) = Some n"
proof (induction topo rule: rev_induct)
  case Nil
  then show ?case by simp
next
  case (snoc t topo)
  show ?case
  proof (cases "ct_txid tx = ct_txid t")
    case True
    then show ?thesis using depth_step_self [of ps "depths ps topo" t] by (simp add: depths_snoc)
  next
    case False
    with snoc show ?thesis by (auto simp: depths_snoc depth_step_other)
  qed
qed

lemma depths_increase:
  "parents_first ps topo \<Longrightarrow> distinct (txids topo) \<Longrightarrow> tx \<in> set topo \<Longrightarrow> p \<in> set (ps tx) \<Longrightarrow>
     \<exists>a b. depths ps topo p = Some a \<and> depths ps topo (ct_txid tx) = Some b \<and> a < b"
proof (induction topo rule: rev_induct)
  case Nil
  then show ?case by simp
next
  case (snoc t topo)
  from snoc.prems(1) have pf: "parents_first ps topo" "set (ps t) \<subseteq> set (txids topo)"
    by (simp_all add: parents_first_snoc)
  from snoc.prems(2) have d: "distinct (txids topo)" "ct_txid t \<notin> set (txids topo)" by simp_all
  show ?case
  proof (cases "tx = t")
    case True
    then have p: "p \<in> set (txids topo)" using pf(2) snoc.prems(4) by blast
    then obtain y where "y \<in> set topo" "ct_txid y = p" by auto
    then obtain a where a: "depths ps topo p = Some a" using depths_some by metis
    moreover have "p \<noteq> ct_txid t" using p d(2) by blast
    ultimately show ?thesis
      using depth_step_parent [of p ps t "depths ps topo" a] True snoc.prems(4)
      by (simp add: depths_snoc depth_step_other)
  next
    case False
    then have tx: "tx \<in> set topo" using snoc.prems(3) by simp
    from snoc.IH [OF pf(1) d(1) tx snoc.prems(4)] obtain a b where
      ab: "depths ps topo p = Some a" "depths ps topo (ct_txid tx) = Some b" "a < b" by blast
    have "ct_txid tx \<noteq> ct_txid t" using tx d(2) by (metis image_eqI set_map)
    moreover have "p \<noteq> ct_txid t"
    proof
      assume "p = ct_txid t"
      from tx obtain pre post where split: "topo = pre @ tx # post" by (meson split_list)
      then have "set (ps tx) \<subseteq> set (txids pre)" using pf(1) unfolding parents_first_def by blast
      then have "p \<in> set (txids topo)" using snoc.prems(4) split by auto
      with \<open>p = ct_txid t\<close> d(2) show False by simp
    qed
    ultimately show ?thesis using ab by (simp add: depths_snoc depth_step_other)
  qed
qed

lemma mset_levels_upto:
  "mset (concat (map (\<lambda>n. filter (\<lambda>x. f x = n) xs) [0 ..< N])) = mset (filter (\<lambda>x. f x < N) xs)"
proof (induction N)
  case 0
  then show ?case by simp
next
  case (Suc N)
  have "mset (filter (\<lambda>x. f x < Suc N) xs) = mset (filter (\<lambda>x. f x < N) xs) + mset (filter (\<lambda>x. f x = N) xs)"
    by (induction xs) auto
  with Suc show ?case by simp
qed

lemma concat_nonempty: "concat (filter (\<lambda>l. l \<noteq> []) ls) = concat ls"
  by (induction ls) auto

lemma levels_of_facts:
  fixes depth :: "string \<rightharpoonup> nat"
  defines "f \<equiv> \<lambda>tx. the (depth (ct_txid tx))"
  shows "mset (concat (levels_of depth topo)) = mset topo"
    and "sorted_wrt (\<lambda>l m. \<forall>x \<in> set l. \<forall>y \<in> set m. f x < f y) (levels_of depth topo)"
    and "\<And>l x y. l \<in> set (levels_of depth topo) \<Longrightarrow> x \<in> set l \<Longrightarrow> y \<in> set l \<Longrightarrow> f x = f y"
proof -
  let ?N = "Suc (foldr max (map f topo) 0)"
  have lv: "levels_of depth topo
      = filter (\<lambda>l. l \<noteq> []) (map (\<lambda>n. filter (\<lambda>tx. f tx = n) topo) [0 ..< ?N])"
    by (simp only: levels_of_def f_def Let_def)
  have "f x < ?N" if "x \<in> set topo" for x
    using le_foldr_max [of "f x" "map f topo"] that by simp
  then have "filter (\<lambda>x. f x < ?N) topo = topo" by simp
  then show "mset (concat (levels_of depth topo)) = mset topo"
    unfolding lv concat_nonempty mset_levels_upto by metis
  show "sorted_wrt (\<lambda>l m. \<forall>x \<in> set l. \<forall>y \<in> set m. f x < f y) (levels_of depth topo)"
    unfolding lv sorted_wrt_map
    by (intro sorted_wrt_filter)
       (simp add: sorted_wrt_map sorted_wrt_mono_rel [OF _ sorted_wrt_upt] del: upt_Suc)
  show "f x = f y" if "l \<in> set (levels_of depth topo)" "x \<in> set l" "y \<in> set l" for l x y
    using that unfolding lv by (auto simp del: upt_Suc)
qed

lemma lower_level:
  assumes sorted: "sorted_wrt (\<lambda>l m. \<forall>x \<in> set l. \<forall>y \<in> set m. (f x :: nat) < f y) levels"
    and same: "\<And>l x y. l \<in> set levels \<Longrightarrow> x \<in> set l \<Longrightarrow> y \<in> set l \<Longrightarrow> f x = f y"
    and "i < length levels" "j < length levels" "x \<in> set (levels ! i)" "y \<in> set (levels ! j)" "f x < f y"
  shows "i < j"
proof (rule ccontr)
  assume "\<not> i < j"
  then consider "j < i" | "i = j" by linarith
  then show False
  proof cases
    case 1
    from sorted_wrt_nth_less [OF sorted 1 assms(3)] assms(5,6) have "f y < f x" by blast
    with assms(7) show False by simp
  next
    case 2
    with same [of "levels ! i" x y] assms show False by simp
  qed
qed

subsection \<open>Lanes\<close>

lemma free_col_fresh: "free_col taken col \<notin> set taken \<and> col \<le> free_col taken col"
proof (induction taken col rule: free_col.induct)
  case (1 taken col)
  then show ?case by (subst (1 2) free_col.simps) auto
qed

lemma place_columns:
  "\<exists>cols. place items taken lane = lane @ zip (map (\<lambda>it. ct_txid (fst it)) items) cols
     \<and> length cols = length items \<and> distinct cols \<and> set cols \<inter> set taken = {} \<and> (\<forall>c \<in> set cols. 0 \<le> c)"
proof (induction items taken lane rule: place.induct)
  case (1 taken lane)
  then show ?case by simp
next
  case (2 tx n d i rest taken lane)
  let ?c = "free_col taken (max 0 (n div d))"
  from 2 obtain cols where cols: "place rest (?c # taken) (lane @ [(ct_txid tx, ?c)])
      = (lane @ [(ct_txid tx, ?c)]) @ zip (map (\<lambda>it. ct_txid (fst it)) rest) cols"
    "length cols = length rest" "distinct cols" "set cols \<inter> set (?c # taken) = {}" "\<forall>c \<in> set cols. 0 \<le> c"
    by (auto simp: Let_def)
  moreover have "?c \<notin> set taken" "0 \<le> ?c"
    using free_col_fresh [of taken "max 0 (n div d)"] by auto
  ultimately show ?case
    by (intro exI [of _ "?c # cols"]) (simp add: Let_def)
qed

text \<open>What an assignment gives for the levels it covers.\<close>

definition lanes_ok :: "chain_tx list list \<Rightarrow> (string \<times> int) list \<Rightarrow> bool" where
  "lanes_ok levels lane \<longleftrightarrow> mset (map fst lane) = mset (txids (concat levels)) \<and> (\<forall>kv \<in> set lane. 0 \<le> snd kv)
     \<and> (\<forall>l \<in> set levels. \<exists>kvs. set kvs \<subseteq> set lane \<and> mset (map fst kvs) = mset (txids l)
          \<and> distinct (map snd kvs))"

lemma lanes_ok_snoc:
  assumes ok: "lanes_ok bef lane" and "mset (map fst kvs) = mset (txids level)"
    and "distinct (map snd kvs)" and "\<forall>kv \<in> set kvs. 0 \<le> snd kv"
  shows "lanes_ok (bef @ [level]) (lane @ kvs)"
proof -
  have "\<exists>ks. set ks \<subseteq> set (lane @ kvs) \<and> mset (map fst ks) = mset (txids l) \<and> distinct (map snd ks)"
    if "l \<in> set (bef @ [level])" for l
  proof (cases "l \<in> set bef")
    case True
    with ok obtain ks where "set ks \<subseteq> set lane" "mset (map fst ks) = mset (txids l)" "distinct (map snd ks)"
      unfolding lanes_ok_def by blast
    then show ?thesis by (intro exI [of _ ks]) auto
  next
    case False
    with that have "l = level" by simp
    with assms(2,3) show ?thesis by (intro exI [of _ kvs]) auto
  qed
  moreover have "\<forall>kv \<in> set (lane @ kvs). 0 \<le> snd kv"
    using ok assms(4) by (auto simp: lanes_ok_def)
  moreover have "mset (map fst (lane @ kvs)) = mset (txids (concat (bef @ [level])))"
    using ok assms(2) by (simp add: lanes_ok_def)
  ultimately show ?thesis unfolding lanes_ok_def by blast
qed

lemma lanes_from_ok:
  "lanes_ok bef lane \<Longrightarrow> lanes_ok (bef @ levels) (lanes_from ps dep levels lane)"
proof (induction levels arbitrary: bef lane dep)
  case Nil
  then show ?case by simp
next
  case (Cons level levels)
  define items where "items = js_sort want_cmp
    (map (\<lambda>(i, tx). (tx, want_lane ps lane dep i tx, i)) (List.enumerate 0 level))"
  obtain cols where cols: "place items [] lane = lane @ zip (map (\<lambda>it. ct_txid (fst it)) items) cols"
    "length cols = length items" "distinct cols" "\<forall>c \<in> set cols. 0 \<le> c"
    using place_columns [of items "[]" lane] by auto
  define kvs where "kvs = zip (map (\<lambda>it. ct_txid (fst it)) items) cols"
  have "mset (map (\<lambda>it. ct_txid (fst it)) items) = image_mset (\<lambda>it. ct_txid (fst it)) (mset items)"
    by simp
  also have "\<dots> = mset (map (ct_txid \<circ> snd) (List.enumerate 0 level))"
    by (simp add: items_def case_prod_beta o_def multiset.map_comp)
  also have "map (ct_txid \<circ> snd) (List.enumerate 0 level) = txids level"
    by (metis list.map_comp map_snd_enumerate)
  finally have "mset (map (\<lambda>it. ct_txid (fst it)) items) = mset (txids level)" .
  then have kvs: "mset (map fst kvs) = mset (txids level)" "distinct (map snd kvs)"
    "\<forall>kv \<in> set kvs. 0 \<le> snd kv"
    using cols(2-4) by (auto simp: kvs_def map_fst_zip map_snd_zip dest: set_zip_rightD)
  have "lanes_ok (bef @ [level]) (lane @ kvs)"
    by (rule lanes_ok_snoc [OF Cons.prems kvs])
  from Cons.IH [OF this] show ?case
    by (simp add: items_def [symmetric] cols(1) kvs_def [symmetric])
qed

lemma assignLanes_ok: "lanes_ok levels (assignLanes levels ps)"
  using lanes_from_ok [of "[]" "[]" levels ps 0] by (simp add: assignLanes_def lanes_ok_def)

lemma map_of_in: "distinct (map fst kvs) \<Longrightarrow> (k, v) \<in> set kvs \<Longrightarrow> map_of kvs k = Some v"
  by (rule map_of_is_SomeI)

lemma lanes_distinct:
  assumes ok: "lanes_ok levels lane" and d: "distinct (txids (concat levels))"
    and l: "l \<in> set levels" and t: "t \<in> set (txids l)" "u \<in> set (txids l)" "t \<noteq> u"
  shows "\<exists>a b. map_of lane t = Some a \<and> map_of lane u = Some b \<and> a \<noteq> b"
proof -
  from ok l obtain kvs where kvs: "set kvs \<subseteq> set lane" "mset (map fst kvs) = mset (txids l)"
    "distinct (map snd kvs)" unfolding lanes_ok_def by blast
  have keys: "distinct (map fst lane)"
    using ok d unfolding lanes_ok_def by (metis mset_eq_imp_distinct_iff)
  have "set (map fst kvs) = set (txids l)" using kvs(2) by (rule mset_eq_setD)
  with t obtain a b where ab: "(t, a) \<in> set kvs" "(u, b) \<in> set kvs" by fastforce
  with kvs(3) t(3) have "a \<noteq> b"
    by (metis (no_types) Pair_inject distinct_map inj_onD snd_conv)
  moreover have "map_of lane t = Some a" "map_of lane u = Some b"
    using ab kvs(1) keys by (auto intro: map_of_in)
  ultimately show ?thesis by blast
qed

subsection \<open>The layout is always produced and is a layering\<close>

lemma chainGraph_cases:
  assumes "chainGraph chain = Some g"
  obtains topo where "topo_loop (parents_in (dedup_nodes [] chain)) (dedup_nodes [] chain) [] = Some topo"
    and "partial_order_of (dedup_nodes [] chain) topo" and "set topo = set (dedup_nodes [] chain)"
    and "g_levels g = levels_of (depths (parents_in (dedup_nodes [] chain)) topo) topo"
    and "g_lane g = assignLanes (g_levels g) (parents_in (dedup_nodes [] chain))"
    and "g_width g = (if g_lane g = [] then 0 else Max (set (map snd (g_lane g))) + 1)"
    and "g_edges g = concat (map (\<lambda>tx. map (\<lambda>p. \<lparr>e_parent = p, e_child = ct_txid tx\<rparr>)
           (parents_in (dedup_nodes [] chain) tx)) (dedup_nodes [] chain))"
proof -
  let ?nodes = "dedup_nodes [] chain"
  have "partial_order_of ?nodes []" by (simp add: partial_order_of_def)
  from topo_loop_returns [OF this distinct_dedup_nodes]
  obtain topo where "topo_loop (parents_in ?nodes) ?nodes [] = Some topo"
    "partial_order_of ?nodes topo" "set topo = set ?nodes" by blast
  with assms that show thesis by (auto simp: chainGraph_def Let_def)
qed

lemma chainGraph_exists: "\<exists>g. chainGraph chain = Some g"
proof -
  let ?nodes = "dedup_nodes [] chain"
  have "partial_order_of ?nodes []" by (simp add: partial_order_of_def)
  from topo_loop_returns [OF this distinct_dedup_nodes]
  obtain topo where "topo_loop (parents_in ?nodes) ?nodes [] = Some topo" by blast
  then show ?thesis by (simp add: chainGraph_def Let_def)
qed

lemma chainGraph_nodes:
  assumes "chainGraph chain = Some g"
  shows "distinct (txids (concat (g_levels g)))"
    and "set (txids (concat (g_levels g))) = set (txids chain)"
    and "set (concat (g_levels g)) = set (dedup_nodes [] chain)"
proof -
  from assms obtain topo where 1: "partial_order_of (dedup_nodes [] chain) topo"
    "set topo = set (dedup_nodes [] chain)"
    "g_levels g = levels_of (depths (parents_in (dedup_nodes [] chain)) topo) topo"
    by (rule chainGraph_cases)
  have ms: "mset (concat (g_levels g)) = mset topo" unfolding 1(3) by (rule levels_of_facts)
  then show st: "set (concat (g_levels g)) = set (dedup_nodes [] chain)" using 1(2) by (metis mset_eq_setD)
  show "distinct (txids (concat (g_levels g)))"
    using ms 1(1) unfolding partial_order_of_def by (metis mset_eq_imp_distinct_iff mset_map)
  show "set (txids (concat (g_levels g))) = set (txids chain)"
    using st set_dedup_nodes [of "[]" chain] by (metis Diff_empty list.set(1) set_map)
qed

lemma edge_pairs:
  "{(e_parent e, e_child e) | e. e \<in> set (concat (map (\<lambda>tx. map (\<lambda>p. \<lparr>e_parent = p, e_child = ct_txid tx\<rparr>) (F tx)) ns))}
     = {(p, ct_txid tx) | p tx. tx \<in> set ns \<and> p \<in> set (F tx)}" (is "?L = ?R")
proof
  show "?L \<subseteq> ?R" by auto
  show "?R \<subseteq> ?L"
  proof
    fix x assume "x \<in> ?R"
    then obtain p tx where "x = (p, ct_txid tx)" "tx \<in> set ns" "p \<in> set (F tx)" by blast
    then show "x \<in> ?L"
      by (intro CollectI exI [of _ "\<lparr>e_parent = p, e_child = ct_txid tx\<rparr>"]) auto
  qed
qed

lemma chainGraph_edges:
  assumes "chainGraph chain = Some g"
  shows "{(e_parent e, e_child e) | e. e \<in> set (g_edges g)}
    = {(p, ct_txid tx) | p tx. tx \<in> set (concat (g_levels g)) \<and> p \<in> set (parentTxids tx) \<and> p \<in> set (txids chain)}"
proof -
  have keys: "set (txids (dedup_nodes [] chain)) = set (txids chain)" by (simp only: set_dedup_nodes) simp
  from assms have "g_edges g = concat (map (\<lambda>tx. map (\<lambda>p. \<lparr>e_parent = p, e_child = ct_txid tx\<rparr>)
           (parents_in (dedup_nodes [] chain) tx)) (dedup_nodes [] chain))"
    by (rule chainGraph_cases)
  then show ?thesis
    unfolding chainGraph_nodes(3) [OF assms] by (simp only: edge_pairs parents_in_def set_filter keys) blast
qed

lemma chainGraph_lanes:
  assumes g: "chainGraph chain = Some g" and l: "l \<in> set (g_levels g)" and t: "t \<in> set (txids l)"
  shows "\<exists>a. map_of (g_lane g) t = Some a \<and> 0 \<le> a \<and> a < g_width g
    \<and> (\<forall>u \<in> set (txids l). u \<noteq> t \<longrightarrow> map_of (g_lane g) u \<noteq> Some a)"
proof -
  from g have w: "g_lane g = assignLanes (g_levels g) (parents_in (dedup_nodes [] chain))"
    "g_width g = (if g_lane g = [] then 0 else Max (set (map snd (g_lane g))) + 1)"
    by (rule chainGraph_cases, blast)+
  have ok: "lanes_ok (g_levels g) (g_lane g)" unfolding w(1) by (rule assignLanes_ok)
  have "t \<in> set (txids (concat (g_levels g)))" using l t by auto
  then have "t \<in> set (map fst (g_lane g))" using ok unfolding lanes_ok_def by (metis mset_eq_setD)
  then obtain a where a: "map_of (g_lane g) t = Some a" by (metis map_of_eq_None_iff not_None_eq set_map)
  then have in_lane: "(t, a) \<in> set (g_lane g)" by (rule map_of_SomeD)
  then have "a \<in> set (map snd (g_lane g))" by force
  then have "a \<le> Max (set (map snd (g_lane g)))" by simp
  moreover have "0 \<le> a" using ok in_lane unfolding lanes_ok_def by force
  moreover have "g_lane g \<noteq> []" using in_lane by auto
  moreover have "map_of (g_lane g) u \<noteq> Some a" if u: "u \<in> set (txids l)" "u \<noteq> t" for u
    using lanes_distinct [OF ok chainGraph_nodes(1) [OF g] l t u(1)] u(2) a by auto
  ultimately show ?thesis
    using a by (auto simp: w(2))
qed

text \<open>The layout of an exit page is produced for every chain the indexer may return, cyclic
  ones included: every transaction of the chain stands on exactly one level, whatever repetitions
  the chain has; the edges are exactly the spends between its entries; and the transactions of a
  level have different, non-negative lanes below the width.\<close>

theorem chainGraph_total:
  "\<exists>g. chainGraph chain = Some g
    \<and> distinct (txids (concat (g_levels g))) \<and> set (txids (concat (g_levels g))) = set (txids chain)
    \<and> set (concat (g_levels g)) \<subseteq> set chain
    \<and> {(e_parent e, e_child e) | e. e \<in> set (g_edges g)}
        = {(p, ct_txid tx) | p tx. tx \<in> set (concat (g_levels g)) \<and> p \<in> set (parentTxids tx) \<and> p \<in> set (txids chain)}
    \<and> (\<forall>l \<in> set (g_levels g). \<forall>t \<in> set (txids l). \<exists>a. map_of (g_lane g) t = Some a \<and> 0 \<le> a \<and> a < g_width g
         \<and> (\<forall>u \<in> set (txids l). u \<noteq> t \<longrightarrow> map_of (g_lane g) u \<noteq> Some a))"
proof -
  obtain g where g: "chainGraph chain = Some g" using chainGraph_exists by blast
  have "set (concat (g_levels g)) \<subseteq> set chain"
    unfolding chainGraph_nodes(3) [OF g] by (rule dedup_nodes_sub)
  with g show ?thesis
    by (intro exI [of _ g] conjI ballI chainGraph_nodes [OF g] chainGraph_edges [OF g] chainGraph_lanes [OF g])
qed

text \<open>On an ancestry without a cycle every spend edge points strictly downward: the parent
  stands on an earlier level than the child.\<close>

theorem chainGraph_downward:
  assumes "acyclic_chain chain" and "chainGraph chain = Some g" and "e \<in> set (g_edges g)"
  shows "\<exists>i j. i < j \<and> j < length (g_levels g) \<and> e_parent e \<in> set (txids (g_levels g ! i))
    \<and> e_child e \<in> set (txids (g_levels g ! j))"
  using assms(2)
proof (cases rule: chainGraph_cases)
  case (1 topo)
  let ?nodes = "dedup_nodes [] chain"
  let ?ps = "parents_in ?nodes"
  from assms(1) obtain rank :: "string \<Rightarrow> nat" where rank:
    "\<And>tx p. tx \<in> set chain \<Longrightarrow> p \<in> set (parentTxids tx) \<Longrightarrow> p \<in> set (txids chain) \<Longrightarrow> rank p < rank (ct_txid tx)"
    unfolding acyclic_chain_def by blast
  have keys: "set (txids ?nodes) = set (txids chain)" by (simp only: set_dedup_nodes) simp
  have "p \<in> set (txids ?nodes) \<and> rank p < rank (ct_txid tx)"
    if "tx \<in> set ?nodes" "p \<in> set (?ps tx)" for tx p
    using rank [of tx p] that keys dedup_nodes_sub [of "[]" chain] unfolding parents_in_def by auto
  from topo_loop_order [where rank = rank, OF this distinct_dedup_nodes _ _ 1(1)]
  have pf: "parents_first ?ps topo"
    by (simp add: partial_order_of_def parents_first_def)
  have d: "distinct (txids topo)" using 1(2) by (simp add: partial_order_of_def)
  from assms(3) obtain tx p where tx: "tx \<in> set topo" "p \<in> set (?ps tx)" "e_parent e = p" "e_child e = ct_txid tx"
    unfolding 1(7) by (auto simp: 1(3))
  let ?D = "depths ?ps topo"
  obtain a b where ab: "?D p = Some a" "?D (ct_txid tx) = Some b" "a < b"
    using depths_increase [OF pf d tx(1,2)] by blast
  have "p \<in> set (txids topo)" using tx(2) 1(3) by (auto simp: parents_in_def)
  then obtain y where y: "y \<in> set topo" "ct_txid y = p" by auto
  have all: "set (concat (g_levels g)) = set topo"
    unfolding 1(4) using levels_of_facts(1) by (rule mset_eq_setD)
  then obtain i j where ij: "i < length (g_levels g)" "y \<in> set (g_levels g ! i)"
    "j < length (g_levels g)" "tx \<in> set (g_levels g ! j)"
    using y(1) tx(1) by (metis (no_types, lifting) UN_E in_set_conv_nth set_concat)
  have "i < j"
    using lower_level [OF levels_of_facts(2,3) [where depth = ?D and topo = topo, folded 1(4)] ij(1,3,2,4)] ab y by simp
  with ij y tx show ?thesis by (metis image_eqI set_map)
qed

definition sample_chain :: "chain_tx list" where
  "sample_chain = [\<lparr>ct_txid = ''c'', ct_type = ARK, ct_spends = Some [''b:0'', ''a'']\<rparr>,
     \<lparr>ct_txid = ''b'', ct_type = CHECKPOINT, ct_spends = Some [''a:1'']\<rparr>,
     \<lparr>ct_txid = ''a'', ct_type = COMMITMENT, ct_spends = None\<rparr>]"

lemma sample_parents:
  "map parentTxids sample_chain = [[''b'', ''a''], [''a''], []]"
  by (simp add: sample_chain_def parentTxids_def js_set_def js_blank_def)

theorem chainGraph_total_witness:
  "\<exists>g. chainGraph (sample_chain @ sample_chain) = Some g \<and> distinct (txids (concat (g_levels g)))
     \<and> set (txids (concat (g_levels g))) = {''a'', ''b'', ''c''}"
proof -
  have "set (txids (sample_chain @ sample_chain)) = {''a'', ''b'', ''c''}" by (auto simp: sample_chain_def)
  with chainGraph_total [of "sample_chain @ sample_chain"] show ?thesis by metis
qed

theorem chainGraph_downward_witness:
  "\<exists>g i j. chainGraph sample_chain = Some g \<and> i < j
    \<and> ''b'' \<in> set (txids (g_levels g ! i)) \<and> ''c'' \<in> set (txids (g_levels g ! j))"
proof -
  have "acyclic_chain sample_chain"
    unfolding acyclic_chain_def using sample_parents
    by (intro exI [of _ "\<lambda>t. if t = ''c'' then 2 else if t = ''b'' then 1 else 0"])
       (simp add: sample_chain_def)
  moreover obtain g where g: "chainGraph sample_chain = Some g" using chainGraph_exists by blast
  moreover have "\<exists>e \<in> set (g_edges g). e_parent e = ''b'' \<and> e_child e = ''c''"
  proof -
    have "''c'' \<in> set (txids (concat (g_levels g)))" using chainGraph_nodes(2) [OF g] by (simp add: sample_chain_def)
    then obtain tx where tx: "tx \<in> set (concat (g_levels g))" "ct_txid tx = ''c''"
      by (metis (no_types) imageE set_map)
    then have "tx \<in> set sample_chain" using chainGraph_nodes(3) [OF g] dedup_nodes_sub by blast
    then have "''b'' \<in> set (parentTxids tx)" using tx(2) sample_parents by (auto simp: sample_chain_def)
    moreover have "''b'' \<in> set (txids sample_chain)" by (simp add: sample_chain_def)
    ultimately have "(''b'', ''c'') \<in> {(e_parent e, e_child e) | e. e \<in> set (g_edges g)}"
      unfolding chainGraph_edges [OF g] using tx by force
    then show ?thesis by auto
  qed
  ultimately show ?thesis using chainGraph_downward [of sample_chain g] by metis
qed

end
