(* ===== verification/Exit_Vault.thy ===== *)
theory Exit_Vault
  imports Chain_Order
begin

text \<open>
  The local escape hatch: \<open>src/exit/vault.ts\<close> (the mirrored vtxos and their pre-signed
  transactions), \<open>ops.ts\<close> (the operator's exit intents), \<open>broadcasts.ts\<close> and the offline
  indexer \<open>vault_indexer.ts\<close>. \<open>now\<close> is the clock in seconds. A transaction of the database
  (\<open>db.transaction\<close>) is one function of the state.
\<close>

subsection \<open>Reading the vault\<close>

definition proofTxidsOf :: "chain_tx list \<Rightarrow> string list" where
  "proofTxidsOf chain = map ct_txid (filter (\<lambda>c. ct_type c \<notin> {COMMITMENT, UNSPECIFIED}) chain)"

definition vtxo_key :: "'a vault_snapshot_scheme \<Rightarrow> string \<times> nat" where
  "vtxo_key v = (v_txid v, v_vout v)"

definition op_key :: "exit_op \<Rightarrow> string \<times> nat" where
  "op_key p = (o_txid p, o_vout p)"

text \<open>\<open>ORDER BY expires_at ASC, txid, vout\<close>.\<close>

definition vtxo_order :: "vault_vtxo \<Rightarrow> vault_vtxo \<Rightarrow> int" where
  "vtxo_order a b = js_or (ord_cmp (v_expiresAt a) (v_expiresAt b))
     (js_or (ord_cmp (v_txid a) (v_txid b)) (ord_cmp (v_vout a) (v_vout b)))"

definition listVaultVtxos :: "db \<Rightarrow> vault_vtxo list" where
  "listVaultVtxos d = js_sort vtxo_order (vtxos d)"

definition getVaultVtxo :: "db \<Rightarrow> string \<Rightarrow> nat \<Rightarrow> vault_vtxo option" where
  "getVaultVtxo d txid vout = row_get vtxo_key (txid, vout) (vtxos d)"

definition proof_of :: "db \<Rightarrow> string \<Rightarrow> string option" where
  "proof_of d txid = map_option p_psbt (row_get p_txid txid (proofs d))"

definition getProofPsbts :: "db \<Rightarrow> string list \<Rightarrow> (string \<rightharpoonup> string)" where
  "getProofPsbts d ids = foldl (\<lambda>out txid. case proof_of d txid of
     None \<Rightarrow> out | Some psbt \<Rightarrow> out(txid \<mapsto> psbt)) Map.empty ids"

definition missingProofTxids :: "db \<Rightarrow> chain_tx list \<Rightarrow> string list" where
  "missingProofTxids d chain =
     (let wanted = proofTxidsOf chain; stored = getProofPsbts d wanted
      in filter (\<lambda>txid. stored txid = None) wanted)"

definition isVtxoExitReady :: "db \<Rightarrow> string \<Rightarrow> nat \<Rightarrow> bool" where
  "isVtxoExitReady d txid vout = (case getVaultVtxo d txid vout of
     None \<Rightarrow> False
   | Some v \<Rightarrow> missingProofTxids d (v_chain v) = [] \<and> danglingEntries (v_chain v) = [])"

subsection \<open>Writing the vault\<close>

definition insert_proof :: "proof_tx list \<Rightarrow> proof_tx \<Rightarrow> proof_tx list" where
  "insert_proof ps p = (if row_get p_txid (p_txid p) ps = None then ps @ [p] else ps)"

definition later_expiry :: "int option \<Rightarrow> int option \<Rightarrow> int option" where
  "later_expiry old new = (case (old, new) of
     (_, None) \<Rightarrow> old | (None, _) \<Rightarrow> new | (Some a, Some b) \<Rightarrow> Some (max a b))"

definition row_of_snapshot :: "int \<Rightarrow> vault_snapshot \<Rightarrow> vault_vtxo" where
  "row_of_snapshot now v = vault_snapshot.extend v
     \<lparr>v_syncedAt = now, v_quarantinedAt = None, v_quarantineReason = None\<rparr>"

definition replace_snapshot :: "int \<Rightarrow> vault_snapshot \<Rightarrow> vault_vtxo \<Rightarrow> vault_vtxo" where
  "replace_snapshot now v old = old\<lparr>v_valueSat := v_valueSat v, v_script := v_script v,
     v_tapTree := v_tapTree v, v_status := v_status v,
     v_expiresAt := later_expiry (v_expiresAt old) (v_expiresAt v),
     v_chain := v_chain v, v_syncedAt := now\<rparr>"

definition storeVtxoWithProofs :: "int \<Rightarrow> vault_snapshot \<Rightarrow> proof_tx list \<Rightarrow> db \<Rightarrow> db" where
  "storeVtxoWithProofs now v ps d =
     d\<lparr>proofs := foldl insert_proof (proofs d) ps,
       vtxos := row_upsert vtxo_key (row_of_snapshot now v) (replace_snapshot now v) (vtxos d)\<rparr>"

definition removeVtxo :: "string \<Rightarrow> nat \<Rightarrow> db \<Rightarrow> bool \<times> db" where
  "removeVtxo txid vout d = (getVaultVtxo d txid vout \<noteq> None,
     d\<lparr>vtxos := row_delete vtxo_key (txid, vout) (vtxos d)\<rparr>)"

definition flag_row :: "int \<Rightarrow> string \<Rightarrow> vault_vtxo \<Rightarrow> vault_vtxo" where
  "flag_row now reason v = v\<lparr>v_quarantinedAt := (case v_quarantinedAt v of None \<Rightarrow> Some now | Some t \<Rightarrow> Some t),
     v_quarantineReason := Some reason\<rparr>"

definition quarantineVtxo :: "int \<Rightarrow> string \<Rightarrow> nat \<Rightarrow> string \<Rightarrow> db \<Rightarrow> bool \<times> db" where
  "quarantineVtxo now txid vout reason d =
     (let wasFlagged = (case getVaultVtxo d txid vout of None \<Rightarrow> None | Some v \<Rightarrow> v_quarantinedAt v)
      in (wasFlagged = None,
          d\<lparr>vtxos := row_update vtxo_key (txid, vout) (flag_row now reason) (vtxos d)\<rparr>))"

definition clearQuarantine :: "string \<Rightarrow> nat \<Rightarrow> db \<Rightarrow> bool \<times> db" where
  "clearQuarantine txid vout d =
     ((case getVaultVtxo d txid vout of None \<Rightarrow> False | Some v \<Rightarrow> v_quarantinedAt v \<noteq> None),
      d\<lparr>vtxos := row_update vtxo_key (txid, vout)
        (\<lambda>v. if v_quarantinedAt v \<noteq> None then v\<lparr>v_quarantinedAt := None, v_quarantineReason := None\<rparr> else v)
        (vtxos d)\<rparr>)"

definition referenced_txids :: "vault_vtxo list \<Rightarrow> string list" where
  "referenced_txids vs = concat (map (\<lambda>v. proofTxidsOf (v_chain v)) vs)"

definition gcOrphanProofs :: "db \<Rightarrow> nat \<times> db" where
  "gcOrphanProofs d =
     (let referenced = set (referenced_txids (vtxos d));
          kept = filter (\<lambda>p. p_txid p \<in> referenced) (proofs d)
      in (length (proofs d) - length kept, d\<lparr>proofs := kept\<rparr>))"

subsection \<open>Exit intents and broadcasts\<close>

definition createOrRestartExitOp :: "int \<Rightarrow> string \<Rightarrow> nat \<Rightarrow> db \<Rightarrow> exit_op \<times> db" where
  "createOrRestartExitOp now txid vout d =
     (let new = \<lparr>o_txid = txid, o_vout = vout, o_state = Unrolling, o_destAddress = None,
            o_sweepTxid = None, o_error = None, o_createdAt = now, o_updatedAt = now\<rparr>;
          d' = d\<lparr>ops := row_upsert op_key new
            (\<lambda>p. p\<lparr>o_state := Unrolling, o_error := None, o_updatedAt := now\<rparr>) (ops d)\<rparr>
      in (the (row_get op_key (txid, vout) (ops d')), d'))"

record op_extra =
  x_error :: "string option"
  x_sweepTxid :: "string option"
  x_destAddress :: "string option"

definition no_extra :: op_extra where
  "no_extra = \<lparr>x_error = None, x_sweepTxid = None, x_destAddress = None\<rparr>"

definition coalesce :: "'a option \<Rightarrow> 'a option \<Rightarrow> 'a option" where
  "coalesce a b = (case a of None \<Rightarrow> b | Some x \<Rightarrow> Some x)"

definition setExitOpState :: "int \<Rightarrow> string \<Rightarrow> nat \<Rightarrow> exit_op_state \<Rightarrow> op_extra \<Rightarrow> db \<Rightarrow> db" where
  "setExitOpState now txid vout st extra d =
     d\<lparr>ops := row_update op_key (txid, vout)
       (\<lambda>p. p\<lparr>o_state := st, o_error := x_error extra,
          o_sweepTxid := coalesce (x_sweepTxid extra) (o_sweepTxid p),
          o_destAddress := coalesce (x_destAddress extra) (o_destAddress p), o_updatedAt := now\<rparr>) (ops d)\<rparr>"

definition getExitOp :: "db \<Rightarrow> string \<Rightarrow> nat \<Rightarrow> exit_op option" where
  "getExitOp d txid vout = row_get op_key (txid, vout) (ops d)"

definition op_order :: "exit_op \<Rightarrow> exit_op \<Rightarrow> int" where
  "op_order a b = js_or (ord_cmp (o_txid a) (o_txid b)) (ord_cmp (o_vout a) (o_vout b))"

definition listOpsBySweepTxid :: "db \<Rightarrow> string \<Rightarrow> exit_op list" where
  "listOpsBySweepTxid d sweepTxid = js_sort op_order (filter (\<lambda>p. o_sweepTxid p = Some sweepTxid) (ops d))"

definition listExitOps :: "db \<Rightarrow> exit_op_state list \<Rightarrow> exit_op list" where
  "listExitOps d states =
     js_sort (\<lambda>a b. js_or (o_createdAt a - o_createdAt b) (op_order a b))
       (if states = [] then ops d else filter (\<lambda>p. o_state p \<in> set states) (ops d))"

definition recordBroadcast :: "int \<Rightarrow> string \<Rightarrow> string \<Rightarrow> int \<Rightarrow> int option \<Rightarrow> db \<Rightarrow> db" where
  "recordBroadcast now stepTxid txid vout tipHeight d =
     d\<lparr>broadcasts := row_upsert b_stepTxid
       \<lparr>b_stepTxid = stepTxid, b_txid = txid, b_vout = vout, b_tipHeight = tipHeight, b_createdAt = now\<rparr>
       (\<lambda>b. b\<lparr>b_tipHeight := tipHeight\<rparr>) (broadcasts d)\<rparr>"

definition getBroadcast :: "db \<Rightarrow> string \<Rightarrow> exit_broadcast option" where
  "getBroadcast d stepTxid = row_get b_stepTxid stepTxid (broadcasts d)"

subsection \<open>What the dashboard and the alarms count\<close>

definition exitOwnedOutpoints :: "db \<Rightarrow> (string \<times> nat \<rightharpoonup> exit_op_state)" where
  "exitOwnedOutpoints d = (\<lambda>k. map_option o_state
     (row_get op_key k (filter (\<lambda>p. o_state p \<noteq> Op_failed) (ops d))))"

definition matured_flag :: "int \<Rightarrow> int \<Rightarrow> vault_vtxo \<Rightarrow> bool" where
  "matured_flag graceSec nowSec v = (case v_quarantinedAt v of None \<Rightarrow> False | Some t \<Rightarrow> nowSec - t \<ge> graceSec)"

definition window_closed :: "int \<Rightarrow> vault_vtxo \<Rightarrow> bool" where
  "window_closed nowSec v = (case v_expiresAt v of None \<Rightarrow> False | Some e \<Rightarrow> e \<le> nowSec)"

definition listMaturedBetrayals :: "db \<Rightarrow> int \<Rightarrow> int \<Rightarrow> (string \<times> string option) list" where
  "listMaturedBetrayals d graceSec nowSec =
     map (\<lambda>v. (outpoint_key (v_txid v) (v_vout v), v_quarantineReason v))
       (filter (\<lambda>v. exitOwnedOutpoints d (vtxo_key v) = None \<and> matured_flag graceSec nowSec v
          \<and> \<not> window_closed nowSec v) (listVaultVtxos d))"

record vault_stats =
  st_vtxoCount :: int
  st_readyCount :: int
  st_exitingCount :: int
  st_exitingSat :: int
  st_quarantinedCount :: int
  st_expiredCount :: int
  st_inGraceCount :: int
  st_proofTxCount :: int
  st_proofBytes :: int
  st_lastSyncedAt :: "int option"
  st_soonestExpiresAt :: "int option"

definition vaultStats :: "db \<Rightarrow> int \<Rightarrow> int \<Rightarrow> vault_stats" where
  "vaultStats d nowSec graceSec =
     (let opState = exitOwnedOutpoints d;
          everything = listVaultVtxos d;
          all = filter (\<lambda>v. opState (vtxo_key v) = None) everything;
          exiting = filter (\<lambda>v. opState (vtxo_key v) \<noteq> None \<and> opState (vtxo_key v) \<noteq> Some Swept) everything;
          live = filter (\<lambda>v. v_quarantinedAt v = None) all;
          flagged = filter (\<lambda>v. v_quarantinedAt v \<noteq> None) all;
          matured = (if graceSec > 0 then filter (matured_flag graceSec nowSec) flagged else flagged);
          expiredCount = int (length (filter (window_closed nowSec) matured))
      in \<lparr>st_vtxoCount = int (length live),
          st_readyCount = int (length (filter (\<lambda>v. missingProofTxids d (v_chain v) = []) live)),
          st_exitingCount = int (length exiting),
          st_exitingSat = foldl (\<lambda>s v. s + v_valueSat v) 0 exiting,
          st_quarantinedCount = int (length matured) - expiredCount,
          st_expiredCount = expiredCount,
          st_inGraceCount = int (length flagged) - int (length matured),
          st_proofTxCount = int (length (proofs d)),
          st_proofBytes = sum_list (map (\<lambda>p. int (length (p_psbt p))) (proofs d)),
          st_lastSyncedAt = foldl (\<lambda>acc v. case acc of None \<Rightarrow> Some (v_syncedAt v)
             | Some t \<Rightarrow> if v_syncedAt v > t then Some (v_syncedAt v) else acc) None live,
          st_soonestExpiresAt = foldl (\<lambda>acc v. case v_expiresAt v of None \<Rightarrow> acc
             | Some e \<Rightarrow> (case acc of None \<Rightarrow> Some e | Some t \<Rightarrow> if e < t then Some e else acc)) None all\<rparr>)"

subsection \<open>The offline indexer (\<open>vault_indexer.ts\<close>)\<close>

fun serve_txs :: "(string \<rightharpoonup> string) \<Rightarrow> string list \<Rightarrow> err + string list" where
  "serve_txs stored [] = Inr []"
| "serve_txs stored (txid # rest) = (case stored txid of
     None \<Rightarrow> Inl (Error ''exit vault has no proof for tx'')
   | Some psbt \<Rightarrow> (if psbt = [] then Inl (Error ''exit vault has no proof for tx'')
       else (case serve_txs stored rest of Inl e \<Rightarrow> Inl e | Inr served \<Rightarrow> Inr (psbt # served))))"

definition vault_getVirtualTxs :: "db \<Rightarrow> string list \<Rightarrow> err + string list" where
  "vault_getVirtualTxs d ids = serve_txs (getProofPsbts d ids) ids"

definition vault_getVtxoChain :: "db \<Rightarrow> string \<Rightarrow> nat \<Rightarrow> err + chain_tx list" where
  "vault_getVtxoChain d txid vout = (case getVaultVtxo d txid vout of
     None \<Rightarrow> Inl (Error ''exit vault has no chain'') | Some v \<Rightarrow> Inr (v_chain v))"

subsection \<open>Keys and lookups\<close>

interpretation vault_rows: keyed_rows "vtxo_key :: vault_vtxo \<Rightarrow> string \<times> nat"
  "\<lambda>f. \<forall>r. vtxo_key (f r) = vtxo_key r"
  by unfold_locales simp

interpretation proof_rows: keyed_rows p_txid "\<lambda>f. \<forall>r. p_txid (f r) = p_txid r"
  by unfold_locales simp

interpretation op_rows: keyed_rows op_key "\<lambda>f. \<forall>r. op_key (f r) = op_key r"
  by unfold_locales simp

interpretation broadcast_rows: keyed_rows b_stepTxid "\<lambda>f. \<forall>r. b_stepTxid (f r) = b_stepTxid r"
  by unfold_locales simp

definition vault_wf :: "db \<Rightarrow> bool" where
  "vault_wf d \<longleftrightarrow> distinct (map vtxo_key (vtxos d)) \<and> distinct (map p_txid (proofs d))
     \<and> distinct (map op_key (ops d))"

lemma getProofPsbts_eq:
  "getProofPsbts d ids = (\<lambda>t. if t \<in> set ids then proof_of d t else None)"
proof -
  have "foldl (\<lambda>out txid. case proof_of d txid of None \<Rightarrow> out | Some psbt \<Rightarrow> out(txid \<mapsto> psbt)) m ids
      = (\<lambda>t. if t \<in> set ids \<and> proof_of d t \<noteq> None then proof_of d t else m t)" for m
    by (induction ids arbitrary: m) (auto simp: fun_eq_iff split: option.splits)
  then show ?thesis by (auto simp: getProofPsbts_def fun_eq_iff)
qed

lemma missingProofTxids_eq:
  "missingProofTxids d chain = filter (\<lambda>t. proof_of d t = None) (proofTxidsOf chain)"
  by (auto simp: missingProofTxids_def getProofPsbts_eq Let_def intro: filter_cong)

lemma key_replace [simp]: "vtxo_key (replace_snapshot now v old) = vtxo_key old"
  by (simp add: replace_snapshot_def vtxo_key_def)

lemma key_row_of_snapshot [simp]: "vtxo_key (row_of_snapshot now v) = vtxo_key v"
  by (simp add: row_of_snapshot_def vtxo_key_def vault_snapshot.defs)

lemma key_flag [simp]: "vtxo_key (flag_row now reason v) = vtxo_key v"
  by (simp add: flag_row_def vtxo_key_def)

lemma getVaultVtxo_row: "getVaultVtxo d t n = Some v \<Longrightarrow> v \<in> set (vtxos d) \<and> v_txid v = t \<and> v_vout v = n"
  unfolding getVaultVtxo_def using vault_rows.row_get_Some [of "(t, n)" "vtxos d" v]
  by (auto simp: vtxo_key_def)

lemma getVaultVtxo_self:
  "distinct (map vtxo_key (vtxos d)) \<Longrightarrow> v \<in> set (vtxos d) \<Longrightarrow> getVaultVtxo d (v_txid v) (v_vout v) = Some v"
  unfolding getVaultVtxo_def using vault_rows.row_get_in [of "vtxos d" v] by (simp add: vtxo_key_def)

subsection \<open>What each write does to a row and to a proof\<close>

lemma row_get_insert_proof:
  "row_get p_txid t (insert_proof ps p) = (case row_get p_txid t ps of Some q \<Rightarrow> Some q
     | None \<Rightarrow> if p_txid p = t then Some p else None)"
  by (auto simp: insert_proof_def proof_rows.row_get_snoc split: option.splits)

lemma row_get_insert_proofs:
  "row_get p_txid t (foldl insert_proof ps new) = (case row_get p_txid t ps of Some q \<Rightarrow> Some q
     | None \<Rightarrow> row_get p_txid t new)"
proof (induction new arbitrary: ps)
  case Nil
  then show ?case by (simp split: option.split)
next
  case (Cons p new)
  then show ?case by (simp add: row_get_insert_proof split: option.split)
qed

lemma distinct_insert_proofs:
  "distinct (map p_txid ps) \<Longrightarrow> distinct (map p_txid (foldl insert_proof ps new))"
proof (induction new arbitrary: ps)
  case Nil
  then show ?case by simp
next
  case (Cons p new)
  then have "distinct (map p_txid (insert_proof ps p))"
    by (auto simp: insert_proof_def proof_rows.row_get_None)
  with Cons show ?case by simp
qed

lemma proof_of_store:
  "proof_of (storeVtxoWithProofs now v ps d) t = (case proof_of d t of Some b \<Rightarrow> Some b
     | None \<Rightarrow> map_option p_psbt (row_get p_txid t ps))"
  by (simp add: proof_of_def storeVtxoWithProofs_def row_get_insert_proofs split: option.splits)

lemma get_store:
  "getVaultVtxo (storeVtxoWithProofs now v ps d) t n =
     (if (t, n) = vtxo_key v then Some (case getVaultVtxo d t n of
        None \<Rightarrow> row_of_snapshot now v | Some old \<Rightarrow> replace_snapshot now v old)
      else getVaultVtxo d t n)"
  by (simp add: getVaultVtxo_def storeVtxoWithProofs_def vault_rows.row_get_upsert)

lemma get_remove:
  "getVaultVtxo (snd (removeVtxo t n d)) t' n' = (if (t', n') = (t, n) then None else getVaultVtxo d t' n')"
  by (simp add: getVaultVtxo_def removeVtxo_def vault_rows.row_get_delete)

lemma get_quarantine:
  "getVaultVtxo (snd (quarantineVtxo now t n reason d)) t' n' =
     (if (t', n') = (t, n) then map_option (flag_row now reason) (getVaultVtxo d t n) else getVaultVtxo d t' n')"
  by (simp add: getVaultVtxo_def quarantineVtxo_def Let_def vault_rows.row_get_update)

lemma get_clear:
  "getVaultVtxo (snd (clearQuarantine t n d)) t' n' =
     (if (t', n') = (t, n) then map_option (\<lambda>v. if v_quarantinedAt v \<noteq> None
        then v\<lparr>v_quarantinedAt := None, v_quarantineReason := None\<rparr> else v) (getVaultVtxo d t n)
      else getVaultVtxo d t' n')"
  by (simp add: getVaultVtxo_def clearQuarantine_def vault_rows.row_get_update vtxo_key_def)

lemma proof_of_same [simp]:
  "proof_of (snd (removeVtxo t n d)) x = proof_of d x"
  "proof_of (snd (quarantineVtxo now t n reason d)) x = proof_of d x"
  "proof_of (snd (clearQuarantine t n d)) x = proof_of d x"
  by (simp_all add: proof_of_def removeVtxo_def quarantineVtxo_def clearQuarantine_def Let_def)

lemma proof_of_gc:
  "proof_of (snd (gcOrphanProofs d)) t =
     (if t \<in> set (referenced_txids (vtxos d)) then proof_of d t else None)"
proof -
  have "row_get p_txid t (filter (\<lambda>p. p_txid p \<in> R) ps)
      = (if t \<in> R then row_get p_txid t ps else None)" for ps :: "proof_tx list" and R
    by (induction ps) auto
  then show ?thesis by (simp add: proof_of_def gcOrphanProofs_def Let_def)
qed

lemma get_gc [simp]: "getVaultVtxo (snd (gcOrphanProofs d)) t n = getVaultVtxo d t n"
  by (simp add: getVaultVtxo_def gcOrphanProofs_def Let_def)

lemma vtxos_gc [simp]: "vtxos (snd (gcOrphanProofs d)) = vtxos d"
  by (simp add: gcOrphanProofs_def Let_def)

lemma wf_store: "vault_wf d \<Longrightarrow> vault_wf (storeVtxoWithProofs now v ps d)"
  by (simp add: vault_wf_def storeVtxoWithProofs_def distinct_insert_proofs vault_rows.distinct_upsert)

lemma wf_remove: "vault_wf d \<Longrightarrow> vault_wf (snd (removeVtxo t n d))"
  by (simp add: vault_wf_def removeVtxo_def vault_rows.distinct_delete)

lemma wf_quarantine: "vault_wf d \<Longrightarrow> vault_wf (snd (quarantineVtxo now t n reason d))"
  by (simp add: vault_wf_def quarantineVtxo_def Let_def vault_rows.map_key_update)

lemma wf_clear: "vault_wf d \<Longrightarrow> vault_wf (snd (clearQuarantine t n d))"
  by (simp add: vault_wf_def clearQuarantine_def vault_rows.map_key_update vtxo_key_def)

lemma wf_gc: "vault_wf d \<Longrightarrow> vault_wf (snd (gcOrphanProofs d))"
  by (simp add: vault_wf_def gcOrphanProofs_def Let_def distinct_map_filter)

lemmas vault_wf_rules = wf_store wf_remove wf_quarantine wf_clear wf_gc

subsection \<open>What the vault guarantees\<close>

lemma later_expiry_bounds:
  "a \<le> later_expiry a b" "b \<le> later_expiry a b" "later_expiry a b = a \<or> later_expiry a b = b"
  unfolding later_expiry_def max_def
  by (auto split: option.split simp: less_eq_option_def)

text \<open>Storing a snapshot never loses exit material: a proof that was stored keeps its bytes, the
  batch expiry of an outpoint only grows and is never forgotten, its quarantine flag and its owner
  are left alone, no other row changes; and when every proof its chain needs is stored or supplied
  and the chain names no entry with all its ancestors missing, the vtxo is exit-ready.\<close>

theorem store_monotone:
  "(case getVaultVtxo (storeVtxoWithProofs now v ps d) (v_txid v) (v_vout v) of
      None \<Rightarrow> False
    | Some new \<Rightarrow> v_chain new = v_chain v \<and>
       (case getVaultVtxo d (v_txid v) (v_vout v) of
          None \<Rightarrow> v_expiresAt new = v_expiresAt v \<and> v_quarantinedAt new = None \<and> v_source new = v_source v
        | Some old \<Rightarrow> v_expiresAt old \<le> v_expiresAt new \<and> v_expiresAt v \<le> v_expiresAt new
            \<and> v_expiresAt new \<in> {v_expiresAt old, v_expiresAt v}
            \<and> v_quarantinedAt new = v_quarantinedAt old \<and> v_source new = v_source old))
   \<and> (\<forall>t b. proof_of d t = Some b \<longrightarrow> proof_of (storeVtxoWithProofs now v ps d) t = Some b)
   \<and> (\<forall>t n. (t, n) \<noteq> (v_txid v, v_vout v) \<longrightarrow>
        getVaultVtxo (storeVtxoWithProofs now v ps d) t n = getVaultVtxo d t n)
   \<and> (isVtxoExitReady (storeVtxoWithProofs now v ps d) (v_txid v) (v_vout v) \<longleftrightarrow>
        (\<forall>t \<in> set (proofTxidsOf (v_chain v)). proof_of d t \<noteq> None \<or> t \<in> p_txid ` set ps)
        \<and> danglingEntries (v_chain v) = [])"
proof -
  let ?d = "storeVtxoWithProofs now v ps d"
  have new: "getVaultVtxo ?d (v_txid v) (v_vout v) = Some (case getVaultVtxo d (v_txid v) (v_vout v) of
        None \<Rightarrow> row_of_snapshot now v | Some old \<Rightarrow> replace_snapshot now v old)"
    by (simp add: get_store vtxo_key_def)
  have chain: "v_chain (case getVaultVtxo d (v_txid v) (v_vout v) of
        None \<Rightarrow> row_of_snapshot now v | Some old \<Rightarrow> replace_snapshot now v old) = v_chain v"
    by (simp add: row_of_snapshot_def replace_snapshot_def vault_snapshot.defs split: option.split)
  have "proof_of ?d t = None \<longleftrightarrow> proof_of d t = None \<and> t \<notin> p_txid ` set ps" for t
    by (auto simp: proof_of_store proof_rows.row_get_None split: option.splits)
  then have ready: "isVtxoExitReady ?d (v_txid v) (v_vout v) \<longleftrightarrow>
        (\<forall>t \<in> set (proofTxidsOf (v_chain v)). proof_of d t \<noteq> None \<or> t \<in> p_txid ` set ps)
        \<and> danglingEntries (v_chain v) = []"
    by (auto simp: isVtxoExitReady_def new chain missingProofTxids_eq filter_empty_conv)
  have "\<forall>t b. proof_of d t = Some b \<longrightarrow> proof_of ?d t = Some b" by (simp add: proof_of_store)
  moreover have "\<forall>t n. (t, n) \<noteq> (v_txid v, v_vout v) \<longrightarrow> getVaultVtxo ?d t n = getVaultVtxo d t n"
    by (simp add: get_store vtxo_key_def)
  ultimately show ?thesis
    using ready unfolding new
    by (simp add: row_of_snapshot_def replace_snapshot_def vault_snapshot.defs later_expiry_bounds chain
        split: option.split)
qed

lemma referenced_row: "v \<in> set (vtxos d) \<Longrightarrow> t \<in> set (proofTxidsOf (v_chain v)) \<Longrightarrow>
    t \<in> set (referenced_txids (vtxos d))"
  by (auto simp: referenced_txids_def)

text \<open>The proof collector drops exactly the proofs no stored chain needs: every transaction that
  some row (live, quarantined or swap-owned) needs keeps its bytes, every proof left is needed, no
  row changes and no vtxo loses its exit readiness; it returns the number it dropped.\<close>

theorem gc_keeps_exit_material:
  "vtxos (snd (gcOrphanProofs d)) = vtxos d
   \<and> (\<forall>v \<in> set (vtxos d). \<forall>t \<in> set (proofTxidsOf (v_chain v)). proof_of (snd (gcOrphanProofs d)) t = proof_of d t)
   \<and> (\<forall>t n. isVtxoExitReady (snd (gcOrphanProofs d)) t n = isVtxoExitReady d t n)
   \<and> (\<forall>p \<in> set (proofs (snd (gcOrphanProofs d))). p \<in> set (proofs d)
        \<and> (\<exists>v \<in> set (vtxos d). p_txid p \<in> set (proofTxidsOf (v_chain v))))
   \<and> fst (gcOrphanProofs d) + length (proofs (snd (gcOrphanProofs d))) = length (proofs d)"
proof -
  have same: "proof_of (snd (gcOrphanProofs d)) t = proof_of d t"
    if "v \<in> set (vtxos d)" "t \<in> set (proofTxidsOf (v_chain v))" for v t
    using referenced_row [OF that] by (simp add: proof_of_gc)
  have "isVtxoExitReady (snd (gcOrphanProofs d)) t n = isVtxoExitReady d t n" for t n
  proof (cases "getVaultVtxo d t n")
    case None
    then show ?thesis by (simp add: isVtxoExitReady_def)
  next
    case (Some v)
    with getVaultVtxo_row have "v \<in> set (vtxos d)" by blast
    with Some same show ?thesis
      by (auto simp: isVtxoExitReady_def missingProofTxids_eq filter_empty_conv)
  qed
  with same show ?thesis
    by (auto simp: gcOrphanProofs_def Let_def referenced_txids_def)
qed

lemma serve_txs_Inr:
  "serve_txs stored ids = Inr out \<longleftrightarrow>
     map stored ids = map Some out \<and> (\<forall>t \<in> set ids. stored t \<noteq> Some [])"
proof (induction ids arbitrary: out)
  case Nil
  then show ?case by auto
next
  case (Cons t ids)
  show ?case
  proof (cases "stored t = None \<or> stored t = Some []")
    case True
    then show ?thesis by (cases out) auto
  next
    case False
    then obtain b where "stored t = Some b" "b \<noteq> []" by auto
    with Cons show ?thesis by (cases out) (auto split: sum.splits)
  qed
qed

text \<open>A vtxo the vault calls exit-ready can really be unrolled offline: with no empty proof
  stored, the offline indexer answers every request for transactions of its chain, in order and
  with the stored bytes; and it never answers a request with a transaction missing.\<close>

theorem ready_is_served:
  assumes "isVtxoExitReady d txid vout" and "\<forall>p \<in> set (proofs d). p_psbt p \<noteq> []"
  shows "\<exists>chain. vault_getVtxoChain d txid vout = Inr chain
    \<and> (\<forall>ids. set ids \<subseteq> set (proofTxidsOf chain) \<longrightarrow>
         (\<exists>out. vault_getVirtualTxs d ids = Inr out \<and> map Some out = map (proof_of d) ids))
    \<and> (\<forall>ids. (\<exists>t \<in> set ids. proof_of d t = None) \<longrightarrow> (\<exists>e. vault_getVirtualTxs d ids = Inl e))"
proof -
  from assms(1) obtain v where v: "getVaultVtxo d txid vout = Some v"
    "\<forall>t \<in> set (proofTxidsOf (v_chain v)). proof_of d t \<noteq> None"
    by (auto simp: isVtxoExitReady_def missingProofTxids_eq filter_empty_conv split: option.splits)
  have full: "proof_of d t \<noteq> Some []" for t
    using assms(2) proof_rows.row_get_Some [of t "proofs d"] by (auto simp: proof_of_def)
  have served: "\<exists>out. vault_getVirtualTxs d ids = Inr out \<and> map Some out = map (proof_of d) ids"
    if "set ids \<subseteq> set (proofTxidsOf (v_chain v))" for ids
  proof -
    have "map Some (map (\<lambda>t. the (proof_of d t)) ids) = map (proof_of d) ids"
      using that v(2) by auto
    then show ?thesis
      using full by (intro exI [of _ "map (\<lambda>t. the (proof_of d t)) ids"])
        (simp add: vault_getVirtualTxs_def serve_txs_Inr getProofPsbts_eq)
  qed
  have "\<exists>e. vault_getVirtualTxs d ids = Inl e" if "\<exists>t \<in> set ids. proof_of d t = None" for ids
  proof (rule ccontr)
    assume "\<nexists>e. vault_getVirtualTxs d ids = Inl e"
    then obtain out where "vault_getVirtualTxs d ids = Inr out" by (cases "vault_getVirtualTxs d ids") auto
    then have "map (getProofPsbts d ids) ids = map Some out"
      by (simp add: vault_getVirtualTxs_def serve_txs_Inr)
    then have "getProofPsbts d ids ` set ids = Some ` set out" by (metis list.set_map)
    moreover from that obtain t where t: "t \<in> set ids" "proof_of d t = None" by blast
    ultimately have "getProofPsbts d ids t \<in> Some ` set out" by blast
    with t show False by (auto simp: getProofPsbts_eq)
  qed
  with served v(1) show ?thesis by (simp add: vault_getVtxoChain_def)
qed

definition sample_snapshot :: vault_snapshot where
  "sample_snapshot = \<lparr>v_txid = ''c'', v_vout = 0, v_valueSat = 1000, v_source = Wallet_source,
     v_script = ''51'', v_tapTree = ''00'', v_status = ''settled'', v_expiresAt = Some 2000000000,
     v_chain = sample_chain\<rparr>"

definition sample_vault :: db where
  "sample_vault = storeVtxoWithProofs 100 sample_snapshot
     [\<lparr>p_txid = ''c'', p_type = ARK, p_psbt = ''cHNidA''\<rparr>,
      \<lparr>p_txid = ''b'', p_type = CHECKPOINT, p_psbt = ''cHNidB''\<rparr>] empty_db"

lemma sample_dangling: "danglingEntries sample_chain = []"
  using sample_parents by (simp add: danglingEntries_def sample_chain_def Let_def)

lemma sample_get: "getVaultVtxo sample_vault ''c'' 0 = Some (row_of_snapshot 100 sample_snapshot)"
  by (simp add: sample_vault_def get_store) (simp add: sample_snapshot_def vtxo_key_def getVaultVtxo_def empty_db_def)

lemma sample_row_chain [simp]: "v_chain (row_of_snapshot now v) = v_chain v"
  by (simp add: row_of_snapshot_def vault_snapshot.defs)

lemma sample_proofs:
  "v_chain sample_snapshot = sample_chain"
  "filter (\<lambda>t. proof_of sample_vault t = None) (proofTxidsOf sample_chain) = []"
  by (simp_all add: sample_snapshot_def sample_vault_def proofTxidsOf_def sample_chain_def
      storeVtxoWithProofs_def empty_db_def insert_proof_def proof_of_def)

lemma sample_vault_ready: "isVtxoExitReady sample_vault ''c'' 0"
  using sample_dangling
  by (simp add: isVtxoExitReady_def sample_get missingProofTxids_eq sample_proofs)

theorem ready_is_served_witness:
  "\<exists>out. vault_getVirtualTxs sample_vault [''b'', ''c''] = Inr out"
proof -
  have "\<forall>p \<in> set (proofs sample_vault). p_psbt p \<noteq> []"
    by (simp add: sample_vault_def storeVtxoWithProofs_def empty_db_def insert_proof_def)
  from ready_is_served [OF sample_vault_ready this] obtain chain where
    c: "vault_getVtxoChain sample_vault ''c'' 0 = Inr chain"
    and s: "\<forall>ids. set ids \<subseteq> set (proofTxidsOf chain) \<longrightarrow>
         (\<exists>out. vault_getVirtualTxs sample_vault ids = Inr out \<and> map Some out = map (proof_of sample_vault) ids)"
    by blast
  from c have "chain = sample_chain"
    by (simp add: vault_getVtxoChain_def sample_get sample_proofs)
  then have "set [''b'', ''c''] \<subseteq> set (proofTxidsOf chain)" by (simp add: proofTxidsOf_def sample_chain_def)
  with s show ?thesis by blast
qed

lemma length_filter_split: "length (filter P xs) + length (filter (\<lambda>x. \<not> P x) xs) = length xs"
  by (rule sum_length_filter_compl)

lemma filter_js_sort_length: "length (filter P (js_sort cmp xs)) = length (filter P xs)"
  by (metis mset_filter mset_js_sort size_mset)

text \<open>Every row of the vault is counted in exactly one bucket of the dashboard (live, quarantined,
  expired, in grace, or owned by an exit the operator has started), the buckets are never negative,
  the ready rows are among the live ones and the rows in transit among the owned ones; and with a
  grace period the alarm lists exactly as many rows as the quarantine badge shows.\<close>

theorem vaultStats_partition:
  "st_vtxoCount (vaultStats d nowSec graceSec) + st_quarantinedCount (vaultStats d nowSec graceSec)
      + st_expiredCount (vaultStats d nowSec graceSec) + st_inGraceCount (vaultStats d nowSec graceSec)
      + int (length (filter (\<lambda>v. exitOwnedOutpoints d (vtxo_key v) \<noteq> None) (vtxos d)))
      = int (length (vtxos d))
   \<and> 0 \<le> st_readyCount (vaultStats d nowSec graceSec)
   \<and> st_readyCount (vaultStats d nowSec graceSec) \<le> st_vtxoCount (vaultStats d nowSec graceSec)
   \<and> 0 \<le> st_quarantinedCount (vaultStats d nowSec graceSec) \<and> 0 \<le> st_expiredCount (vaultStats d nowSec graceSec)
   \<and> 0 \<le> st_inGraceCount (vaultStats d nowSec graceSec)
   \<and> st_exitingCount (vaultStats d nowSec graceSec)
       \<le> int (length (filter (\<lambda>v. exitOwnedOutpoints d (vtxo_key v) \<noteq> None) (vtxos d)))
   \<and> (0 < graceSec \<longrightarrow>
        int (length (listMaturedBetrayals d graceSec nowSec)) = st_quarantinedCount (vaultStats d nowSec graceSec))"
proof -
  define own where "own = (\<lambda>v :: vault_vtxo. exitOwnedOutpoints d (vtxo_key v) \<noteq> None)"
  define E where "E = listVaultVtxos d"
  define A where "A = filter (\<lambda>v. \<not> own v) E"
  define L where "L = filter (\<lambda>v. v_quarantinedAt v = None) A"
  define F where "F = filter (\<lambda>v. v_quarantinedAt v \<noteq> None) A"
  define M where "M = (if graceSec > 0 then filter (matured_flag graceSec nowSec) F else F)"
  define X where "X = filter (window_closed nowSec) M"
  note defs = own_def E_def A_def L_def F_def M_def X_def
  have st: "st_vtxoCount (vaultStats d nowSec graceSec) = int (length L)"
    "st_quarantinedCount (vaultStats d nowSec graceSec) = int (length M) - int (length X)"
    "st_expiredCount (vaultStats d nowSec graceSec) = int (length X)"
    "st_inGraceCount (vaultStats d nowSec graceSec) = int (length F) - int (length M)"
    "st_readyCount (vaultStats d nowSec graceSec)
       = int (length (filter (\<lambda>v. missingProofTxids d (v_chain v) = []) L))"
    "st_exitingCount (vaultStats d nowSec graceSec) = int (length (filter (\<lambda>v. exitOwnedOutpoints d (vtxo_key v) \<noteq> None
         \<and> exitOwnedOutpoints d (vtxo_key v) \<noteq> Some Swept) E))"
    by (simp_all add: vaultStats_def Let_def defs)
  have own_E: "length (filter own E) = length (filter own (vtxos d))"
    by (simp add: E_def listVaultVtxos_def filter_js_sort_length)
  have "length (filter own E) + length A = length (vtxos d)"
    using length_filter_split [of own E] by (simp add: A_def E_def listVaultVtxos_def)
  moreover have "length L + length F = length A"
    using length_filter_split [of "\<lambda>v. v_quarantinedAt v = None" A] by (simp add: L_def F_def)
  ultimately have total: "length L + length F + length (filter own (vtxos d)) = length (vtxos d)"
    using own_E by simp
  have le: "length X \<le> length M" "length M \<le> length F" by (simp_all add: X_def M_def)
  have exiting: "length (filter (\<lambda>v. exitOwnedOutpoints d (vtxo_key v) \<noteq> None
         \<and> exitOwnedOutpoints d (vtxo_key v) \<noteq> Some Swept) E) \<le> length (filter own E)"
    unfolding own_def by (induction E) auto
  have betrayals: "int (length (listMaturedBetrayals d graceSec nowSec)) = int (length M) - int (length X)"
    if "0 < graceSec"
  proof -
    have "filter (\<lambda>v. exitOwnedOutpoints d (vtxo_key v) = None \<and> matured_flag graceSec nowSec v
          \<and> \<not> window_closed nowSec v) E = filter (\<lambda>v. \<not> window_closed nowSec v) M"
      using that by (auto simp: M_def F_def A_def own_def matured_flag_def intro!: filter_cong
          split: option.splits)
    then show ?thesis
      using length_filter_split [of "window_closed nowSec" M]
      by (simp add: listMaturedBetrayals_def E_def X_def)
  qed
  show ?thesis
    unfolding st own_def [symmetric] using total le exiting own_E betrayals by simp
qed

theorem store_monotone_witness:
  "isVtxoExitReady (storeVtxoWithProofs 200 sample_snapshot [] sample_vault) ''c'' 0"
proof -
  have "\<forall>t \<in> set (proofTxidsOf (v_chain sample_snapshot)). proof_of sample_vault t \<noteq> None"
    using sample_proofs by (simp add: filter_empty_conv)
  with store_monotone [where now = 200 and v = sample_snapshot and ps = "[]" and d = sample_vault] sample_dangling
  have "isVtxoExitReady (storeVtxoWithProofs 200 sample_snapshot [] sample_vault)
     (v_txid sample_snapshot) (v_vout sample_snapshot)"
    by (simp add: sample_proofs)
  then show ?thesis by (simp add: sample_snapshot_def)
qed

theorem gc_keeps_exit_material_witness:
  "isVtxoExitReady (snd (gcOrphanProofs sample_vault)) ''c'' 0"
  using gc_keeps_exit_material [of sample_vault] sample_vault_ready by simp

theorem vaultStats_partition_witness:
  "st_vtxoCount (vaultStats sample_vault 50 10) + st_quarantinedCount (vaultStats sample_vault 50 10)
     + st_expiredCount (vaultStats sample_vault 50 10) + st_inGraceCount (vaultStats sample_vault 50 10) = 1
   \<and> int (length (listMaturedBetrayals sample_vault 10 50)) = st_quarantinedCount (vaultStats sample_vault 50 10)"
proof -
  have "length (vtxos sample_vault) = 1" "ops sample_vault = []"
    by (simp_all add: sample_vault_def storeVtxoWithProofs_def row_upsert_def empty_db_def)
  with vaultStats_partition [of sample_vault 50 10] show ?thesis
    by (simp add: exitOwnedOutpoints_def)
qed

end
