(* ===== verification/Evidence.thy ===== *)
theory Evidence
  imports Exit_Vault Swap_Script
begin

text \<open>
  When a mirrored vtxo may be forgotten, \<open>src/exit/evidence.ts\<close>: the signature check on the
  spending transaction, value conservation of a settlement, and the classification of a row the
  server no longer lists. The PSBT parser, the sighash and the Schnorr verification of the SDK and
  its crypto libraries are the fields of \<open>tx_lib\<close>; the ASP's indexer is a record of functions
  whose answers may be errors.
\<close>

subsection \<open>Transactions as the SDK decodes them\<close>

record tap_sig =
  ts_pubKey :: bytes
  ts_leafHash :: bytes
  ts_sig :: bytes

record psbt_input =
  in_txid :: "string option"
  in_index :: "nat option"
  in_witnessUtxo :: "(bytes \<times> int) option"
  in_tapScriptSig :: "tap_sig list"
  in_tapLeafScript :: "bytes list"
  in_finalScriptWitness :: "bytes list option"

record psbt =
  tx_id :: string
  tx_inputs :: "psbt_input list"

text \<open>\<open>None\<close> stands for a call that throws. A leaf version that is \<open>undefined\<close> in the code is
  \<open>None\<close> as an argument.\<close>

record tx_lib =
  fromPSBT :: "string \<Rightarrow> psbt option"
  tapLeafHash :: "bytes \<Rightarrow> 8 word option \<Rightarrow> bytes"
  preimageWitnessV1 :: "psbt \<Rightarrow> nat \<Rightarrow> bytes list \<Rightarrow> 8 word \<Rightarrow> int list \<Rightarrow> bytes \<Rightarrow> 8 word option \<Rightarrow> bytes option"
  schnorr_verify :: "bytes \<Rightarrow> bytes \<Rightarrow> bytes \<Rightarrow> bool option"

record spend_candidate =
  cd_script :: bytes
  cd_ver :: "8 word option"
  cd_sig :: bytes

definition spends_outpoint :: "string \<Rightarrow> nat \<Rightarrow> psbt_input \<Rightarrow> bool" where
  "spends_outpoint txid vout inp \<longleftrightarrow> in_txid inp = Some txid \<and> in_index inp = Some vout"

text \<open>The loop keeps the last input that matches.\<close>

definition spending_input :: "psbt \<Rightarrow> string \<Rightarrow> nat \<Rightarrow> nat option" where
  "spending_input tx txid vout =
     foldl (\<lambda>idx i. if spends_outpoint txid vout (tx_inputs tx ! i) then Some i else idx)
       None [0 ..< length (tx_inputs tx)]"

definition labelled_candidates :: "tx_lib \<Rightarrow> bytes \<Rightarrow> psbt_input \<Rightarrow> spend_candidate list" where
  "labelled_candidates lib ours inp = concat (map (\<lambda>e.
     if ts_pubKey e \<noteq> ours then []
     else concat (map (\<lambda>ls.
       let script = butlast ls; ver = (if ls = [] then None else Some (last ls)) in
       if tapLeafHash lib script ver = ts_leafHash e
       then [\<lparr>cd_script = script, cd_ver = ver, cd_sig = ts_sig e\<rparr>] else []) (in_tapLeafScript inp)))
     (in_tapScriptSig inp))"

definition witness_candidates :: "psbt_input \<Rightarrow> spend_candidate list" where
  "witness_candidates inp = (case in_finalScriptWitness inp of
     None \<Rightarrow> []
   | Some stack \<Rightarrow>
       (if length stack < 2 then []
        else (let script = stack ! (length stack - 2);
                  ver = (case stack ! (length stack - 1) of [] \<Rightarrow> 0 | b # _ \<Rightarrow> Bit_Operations.and b 254)
              in map (\<lambda>item. \<lparr>cd_script = script, cd_ver = Some ver, cd_sig = item\<rparr>)
                   (filter (\<lambda>item. length item = 64 \<or> length item = 65) (take (length stack - 2) stack)))))"

definition candidate_ok :: "tx_lib \<Rightarrow> psbt \<Rightarrow> nat \<Rightarrow> (bytes \<times> int) list \<Rightarrow> bytes \<Rightarrow> spend_candidate \<Rightarrow> bool" where
  "candidate_ok lib tx i prevouts ours c =
     (let hashType = (if length (cd_sig c) = 65 then cd_sig c ! 64 else 0) in
      case preimageWitnessV1 lib tx i (map fst prevouts) hashType (map snd prevouts) (cd_script c) (cd_ver c) of
        None \<Rightarrow> False
      | Some preimage \<Rightarrow> schnorr_verify lib (take 64 (cd_sig c)) preimage ours = Some True)"

definition verifyOurSpend :: "tx_lib \<Rightarrow> string \<Rightarrow> string \<Rightarrow> nat \<Rightarrow> bytes \<Rightarrow> bool" where
  "verifyOurSpend lib psbtB64 txid vout ours = (case fromPSBT lib psbtB64 of
     None \<Rightarrow> False
   | Some tx \<Rightarrow> (case spending_input tx txid vout of
       None \<Rightarrow> False
     | Some i \<Rightarrow>
         (if \<exists>inp \<in> set (tx_inputs tx). in_witnessUtxo inp = None then False
          else (let prevouts = map (\<lambda>inp. the (in_witnessUtxo inp)) (tx_inputs tx);
                    inp = tx_inputs tx ! i;
                    labelled = labelled_candidates lib ours inp;
                    candidates = (if labelled = [] then witness_candidates inp else labelled)
                in list_ex (candidate_ok lib tx i prevouts ours) candidates))))"

subsection \<open>Settlement absorption\<close>

record absorption_candidate =
  a_outpoint :: string
  a_valueSat :: int
  a_settledBy :: "string option"

definition settled_group :: "absorption_candidate list \<Rightarrow> string \<Rightarrow> absorption_candidate list" where
  "settled_group disappeared commitment = filter (\<lambda>c. a_settledBy c = Some commitment) disappeared"

definition commitments_of :: "absorption_candidate list \<Rightarrow> string list" where
  "commitments_of disappeared = js_set (concat (map (\<lambda>c. case a_settledBy c of
     None \<Rightarrow> [] | Some s \<Rightarrow> if s = [] then [] else [s]) disappeared))"

definition from_round :: "string \<Rightarrow> vcoin \<Rightarrow> bool" where
  "from_round commitment v = (case c_commitmentTxIds v of
     None \<Rightarrow> False | Some ids \<Rightarrow> ids \<noteq> [] \<and> (\<forall>i \<in> set ids. i = commitment))"

definition createdSat :: "vcoin list \<Rightarrow> string \<Rightarrow> int" where
  "createdSat live commitment = foldl (\<lambda>s v. s + (if from_round commitment v then c_value v else 0)) 0 live"

definition consumedSat :: "absorption_candidate list \<Rightarrow> int" where
  "consumedSat rows = foldl (\<lambda>s r. s + a_valueSat r) 0 rows"

definition resolveAbsorbedByConservation :: "absorption_candidate list \<Rightarrow> vcoin list \<Rightarrow> string list" where
  "resolveAbsorbedByConservation disappeared live =
     js_set (concat (map (\<lambda>commitment.
       let rows = settled_group disappeared commitment in
       if consumedSat rows > 0 \<and> consumedSat rows = createdSat live commitment
       then map a_outpoint rows else []) (commitments_of disappeared)))"

subsection \<open>Why a row is missing\<close>

datatype disappearance = Spent_verified string | Expired | Unproven string

record page_info =
  pg_current :: int
  pg_next :: int

record txs_response =
  rs_txs :: "string list"
  rs_page :: "page_info option"

record asp_indexer =
  ix_getVtxoChain :: "string \<Rightarrow> nat \<Rightarrow> err + chain_tx list"
  ix_getVirtualTxs :: "string list \<Rightarrow> int \<Rightarrow> int \<Rightarrow> err + txs_response"
  ix_getVtxos :: "(string \<times> nat) list \<Rightarrow> err + vcoin list"

definition served_spend :: "tx_lib \<Rightarrow> string \<Rightarrow> string list \<Rightarrow> string option" where
  "served_spend lib spentBy served = foldl (\<lambda>found b64. case fromPSBT lib b64 of
     None \<Rightarrow> found | Some tx \<Rightarrow> if tx_id tx = spentBy then Some b64 else found) None served"

definition classifyDisappearance ::
  "tx_lib \<Rightarrow> asp_indexer \<Rightarrow> vault_vtxo \<Rightarrow> bytes \<Rightarrow> int \<Rightarrow> err + disappearance" where
  "classifyDisappearance lib ix v ours nowSec =
     (if (case v_expiresAt v of None \<Rightarrow> False | Some e \<Rightarrow> nowSec > e) then Inr Expired
      else case ix_getVtxos ix [(v_txid v, v_vout v)] of
        Inl e \<Rightarrow> Inl e
      | Inr listed \<Rightarrow>
         (case find_first (\<lambda>c. c_txid c = v_txid v \<and> c_vout c = v_vout v) listed of
            None \<Rightarrow> Inr (Unproven ''indexer no longer acknowledges the outpoint'')
          | Some row \<Rightarrow>
             (case c_spentBy row of
                None \<Rightarrow> Inr (Unproven (if c_isUnrolled row then ''broadcast onchain via unilateral exit''
                  else ''dropped from the live set''))
              | Some spentBy \<Rightarrow>
                 (if spentBy = [] then Inr (Unproven (if c_isUnrolled row then ''broadcast onchain via unilateral exit''
                    else ''dropped from the live set''))
                  else case ix_getVirtualTxs ix [spentBy] 0 100 of
                    Inl e \<Rightarrow> Inl e
                  | Inr served \<Rightarrow>
                     (case served_spend lib spentBy (rs_txs served) of
                        None \<Rightarrow> Inr (Unproven ''spentBy is not served'')
                      | Some b64 \<Rightarrow>
                         (if b64 = [] then Inr (Unproven ''spentBy is not served'')
                          else if \<not> verifyOurSpend lib b64 (v_txid v) (v_vout v) ours
                          then Inr (Unproven ''no signature of ours over this outpoint'')
                          else Inr (Spent_verified spentBy)))))))"

subsection \<open>What a verified spend proves\<close>

lemma spending_input_Some:
  assumes "spending_input tx txid vout = Some i"
  shows "i < length (tx_inputs tx) \<and> spends_outpoint txid vout (tx_inputs tx ! i)"
proof -
  have "foldl (\<lambda>idx i. if P i then Some i else idx) init is = Some i \<Longrightarrow> init = Some i \<or> (i \<in> set is \<and> P i)"
    for P init "is"
    by (induction "is" arbitrary: init) (auto split: if_splits)
  from this [OF assms [unfolded spending_input_def]] show ?thesis by auto
qed

text \<open>A spend is accepted as ours only when the transaction the payload decodes to really consumes
  the outpoint and carries a signature that verifies under our key over the sighash of that input,
  computed from the previous outputs of all its inputs, each of which the payload embeds; a payload
  that does not decode, that spends something else or that leaves out a previous output proves
  nothing.\<close>

theorem verifyOurSpend_sound:
  assumes "verifyOurSpend lib psbtB64 txid vout ours"
  shows "\<exists>tx i sig hashType script ver preimage. fromPSBT lib psbtB64 = Some tx
    \<and> i < length (tx_inputs tx) \<and> spends_outpoint txid vout (tx_inputs tx ! i)
    \<and> (\<forall>inp \<in> set (tx_inputs tx). in_witnessUtxo inp \<noteq> None)
    \<and> preimageWitnessV1 lib tx i (map (fst \<circ> the \<circ> in_witnessUtxo) (tx_inputs tx)) hashType
         (map (snd \<circ> the \<circ> in_witnessUtxo) (tx_inputs tx)) script ver = Some preimage
    \<and> schnorr_verify lib (take 64 sig) preimage ours = Some True
    \<and> ((\<exists>e \<in> set (in_tapScriptSig (tx_inputs tx ! i)). ts_pubKey e = ours \<and> ts_sig e = sig
           \<and> tapLeafHash lib script ver = ts_leafHash e)
       \<or> (\<exists>stack. in_finalScriptWitness (tx_inputs tx ! i) = Some stack \<and> sig \<in> set stack))"
proof -
  from assms obtain tx i where tx: "fromPSBT lib psbtB64 = Some tx" "spending_input tx txid vout = Some i"
    and all: "\<forall>inp \<in> set (tx_inputs tx). in_witnessUtxo inp \<noteq> None"
    by (auto simp: verifyOurSpend_def split: option.splits if_splits)
  define prevouts where "prevouts = map (\<lambda>inp. the (in_witnessUtxo inp)) (tx_inputs tx)"
  define inp where "inp = tx_inputs tx ! i"
  have no: "(\<exists>inp \<in> set (tx_inputs tx). in_witnessUtxo inp = None) = False" using all by blast
  from assms have "list_ex (candidate_ok lib tx i prevouts ours)
      (if labelled_candidates lib ours inp = [] then witness_candidates inp else labelled_candidates lib ours inp)"
    unfolding verifyOurSpend_def
    by (simp only: tx option.case if_False no Let_def prevouts_def inp_def)
  then obtain c where c: "candidate_ok lib tx i prevouts ours c"
    "c \<in> set (labelled_candidates lib ours inp) \<or> c \<in> set (witness_candidates inp)"
    by (auto simp: list_ex_iff split: if_splits)
  from c(1) obtain hashType preimage where sig:
    "preimageWitnessV1 lib tx i (map fst prevouts) hashType (map snd prevouts) (cd_script c) (cd_ver c) = Some preimage"
    "schnorr_verify lib (take 64 (cd_sig c)) preimage ours = Some True"
    by (auto simp: candidate_ok_def Let_def split: option.splits)
  have src: "(\<exists>e \<in> set (in_tapScriptSig inp). ts_pubKey e = ours \<and> ts_sig e = cd_sig c
           \<and> tapLeafHash lib (cd_script c) (cd_ver c) = ts_leafHash e)
       \<or> (\<exists>stack. in_finalScriptWitness inp = Some stack \<and> cd_sig c \<in> set stack)"
    using c(2)
  proof
    assume "c \<in> set (labelled_candidates lib ours inp)"
    then show ?thesis by (auto simp: labelled_candidates_def Let_def split: if_splits)
  next
    assume "c \<in> set (witness_candidates inp)"
    then show ?thesis
      by (auto simp: witness_candidates_def Let_def split: option.splits if_splits dest: in_set_takeD)
  qed
  show ?thesis
    using tx(1) spending_input_Some [OF tx(2)] all sig src
    unfolding prevouts_def inp_def
    by (intro exI [of _ tx] exI [of _ i] exI [of _ "cd_sig c"] exI [of _ hashType]
        exI [of _ "cd_script c"] exI [of _ "cd_ver c"] exI [of _ preimage]) (simp add: o_def)
qed

definition sample_tx :: psbt where
  "sample_tx = \<lparr>tx_id = ''ff'', tx_inputs = [\<lparr>in_txid = Some ''c'', in_index = Some 0,
     in_witnessUtxo = Some ([1], 1000), in_tapScriptSig = [\<lparr>ts_pubKey = [2], ts_leafHash = [7], ts_sig = [9]\<rparr>],
     in_tapLeafScript = [[7, 192]], in_finalScriptWitness = None\<rparr>]\<rparr>"

definition sample_lib :: tx_lib where
  "sample_lib = \<lparr>fromPSBT = (\<lambda>b. if b = ''spend'' then Some sample_tx else None),
     tapLeafHash = (\<lambda>s v. s), preimageWitnessV1 = (\<lambda>tx i ss h as s v. Some s),
     schnorr_verify = (\<lambda>sig m k. Some (sig = [9]))\<rparr>"

lemma sample_verify: "verifyOurSpend sample_lib ''spend'' ''c'' 0 [2]"
  by (simp add: verifyOurSpend_def sample_lib_def sample_tx_def spending_input_def spends_outpoint_def
      labelled_candidates_def candidate_ok_def Let_def)

theorem verifyOurSpend_sound_witness:
  "\<exists>tx i. fromPSBT sample_lib ''spend'' = Some tx \<and> spends_outpoint ''c'' 0 (tx_inputs tx ! i)"
  using verifyOurSpend_sound [OF sample_verify] by blast

lemma served_spend_Some:
  "served_spend lib spentBy served = Some b64 \<Longrightarrow>
     b64 \<in> set served \<and> (\<exists>tx. fromPSBT lib b64 = Some tx \<and> tx_id tx = spentBy)"
proof -
  have "foldl (\<lambda>found b64. case fromPSBT lib b64 of None \<Rightarrow> found
      | Some tx \<Rightarrow> if tx_id tx = spentBy then Some b64 else found) init served = Some b64 \<Longrightarrow>
     init = Some b64 \<or> (b64 \<in> set served \<and> (\<exists>tx. fromPSBT lib b64 = Some tx \<and> tx_id tx = spentBy))" for init
  proof (induction served arbitrary: init)
    case Nil
    then show ?case by simp
  next
    case (Cons b served)
    from Cons.IH [of "case fromPSBT lib b of None \<Rightarrow> init | Some tx \<Rightarrow> if tx_id tx = spentBy then Some b else init"]
      Cons.prems
    show ?case by (auto split: option.splits if_splits)
  qed
  then show "served_spend lib spentBy served = Some b64 \<Longrightarrow> ?thesis" by (auto simp: served_spend_def)
qed

lemma classify_spent:
  assumes "classifyDisappearance lib ix v ours nowSec = Inr (Spent_verified s)"
  shows "s \<noteq> [] \<and> (case v_expiresAt v of None \<Rightarrow> True | Some e \<Rightarrow> nowSec \<le> e)
    \<and> (\<exists>listed c. ix_getVtxos ix [(v_txid v, v_vout v)] = Inr listed \<and> c \<in> set listed
         \<and> c_txid c = v_txid v \<and> c_vout c = v_vout v \<and> c_spentBy c = Some s)
    \<and> (\<exists>b64 tx served. ix_getVirtualTxs ix [s] 0 100 = Inr served \<and> b64 \<in> set (rs_txs served)
         \<and> fromPSBT lib b64 = Some tx \<and> tx_id tx = s \<and> verifyOurSpend lib b64 (v_txid v) (v_vout v) ours)"
proof -
  have fresh: "\<not> (case v_expiresAt v of None \<Rightarrow> False | Some e \<Rightarrow> nowSec > e)"
    using assms by (auto simp: classifyDisappearance_def split: if_splits)
  with assms obtain listed where listed: "ix_getVtxos ix [(v_txid v, v_vout v)] = Inr listed"
    by (auto simp: classifyDisappearance_def split: sum.splits if_splits)
  with assms fresh obtain c where c: "find_first (\<lambda>c. c_txid c = v_txid v \<and> c_vout c = v_vout v) listed = Some c"
    by (auto simp: classifyDisappearance_def split: option.splits)
  with assms fresh listed obtain spentBy where sb: "c_spentBy c = Some spentBy" "spentBy \<noteq> []"
    by (auto simp: classifyDisappearance_def split: option.splits if_splits)
  with assms fresh listed c obtain served where served: "ix_getVirtualTxs ix [spentBy] 0 100 = Inr served"
    by (auto simp: classifyDisappearance_def split: sum.splits if_splits)
  with assms fresh listed c sb obtain b64 where b64: "served_spend lib spentBy (rs_txs served) = Some b64"
    by (auto simp: classifyDisappearance_def split: option.splits if_splits)
  with assms fresh listed c sb served have fin: "verifyOurSpend lib b64 (v_txid v) (v_vout v) ours" "spentBy = s"
    by (auto simp: classifyDisappearance_def split: if_splits)
  from find_first_Some [OF c] have "c \<in> set listed" "c_txid c = v_txid v" "c_vout c = v_vout v" by simp_all
  moreover from served_spend_Some [OF b64] obtain tx where "b64 \<in> set (rs_txs served)"
    "fromPSBT lib b64 = Some tx" "tx_id tx = spentBy" by blast
  ultimately show ?thesis
    using fresh listed sb served fin by (auto split: option.splits)
qed

text \<open>The verdicts on a missing row: \<open>expired\<close> exactly when the local clock has passed the
  stored expiry, whatever the server says or whether it answers at all; \<open>spent-verified\<close> only
  before that, when the server names a spending transaction and serves a payload that decodes to
  that very transaction and carries our signature over this outpoint; an unreachable server before
  the expiry is no verdict.\<close>

theorem classify_evidence:
  "(classifyDisappearance lib ix v ours nowSec = Inr Expired \<longleftrightarrow> (\<exists>e. v_expiresAt v = Some e \<and> e < nowSec))
   \<and> (\<forall>s. classifyDisappearance lib ix v ours nowSec = Inr (Spent_verified s) \<longrightarrow>
        (\<exists>listed c. ix_getVtxos ix [(v_txid v, v_vout v)] = Inr listed \<and> c \<in> set listed
           \<and> c_txid c = v_txid v \<and> c_vout c = v_vout v \<and> c_spentBy c = Some s)
        \<and> (\<exists>b64 tx served. ix_getVirtualTxs ix [s] 0 100 = Inr served \<and> b64 \<in> set (rs_txs served)
             \<and> fromPSBT lib b64 = Some tx \<and> tx_id tx = s \<and> verifyOurSpend lib b64 (v_txid v) (v_vout v) ours))
   \<and> ((\<forall>e. v_expiresAt v = Some e \<longrightarrow> nowSec \<le> e) \<and> ix_getVtxos ix [(v_txid v, v_vout v)] = Inl x \<longrightarrow>
        classifyDisappearance lib ix v ours nowSec = Inl x)"
proof -
  have "classifyDisappearance lib ix v ours nowSec \<noteq> Inr Expired"
    if "\<not> (case v_expiresAt v of None \<Rightarrow> False | Some e \<Rightarrow> nowSec > e)"
    using that by (simp add: classifyDisappearance_def split: sum.split option.split)
  then have exp: "classifyDisappearance lib ix v ours nowSec = Inr Expired \<longleftrightarrow> (\<exists>e. v_expiresAt v = Some e \<and> e < nowSec)"
    by (auto simp: classifyDisappearance_def split: option.splits)
  moreover have "(\<forall>e. v_expiresAt v = Some e \<longrightarrow> nowSec \<le> e) \<and> ix_getVtxos ix [(v_txid v, v_vout v)] = Inl x \<longrightarrow>
        classifyDisappearance lib ix v ours nowSec = Inl x"
    by (auto simp: classifyDisappearance_def split: option.splits)
  ultimately show ?thesis using classify_spent by blast
qed

definition sample_ix :: asp_indexer where
  "sample_ix = \<lparr>ix_getVtxoChain = (\<lambda>t n. Inr sample_chain),
     ix_getVirtualTxs = (\<lambda>ts i n. Inr \<lparr>rs_txs = (if ts = [''ff''] then [''spend''] else []), rs_page = None\<rparr>),
     ix_getVtxos = (\<lambda>os. Inr (map (\<lambda>(t, n). \<lparr>c_txid = t, c_vout = n, c_value = 1000, c_script = [], c_tapTree = [],
        c_state = None, c_batchExpiry = None, c_commitmentTxIds = None, c_spentBy = Some ''ff'',
        c_settledBy = Some ''ee'', c_arkTxId = None, c_isSpent = True, c_isUnrolled = False\<rparr>) os))\<rparr>"

lemma sample_classify:
  "classifyDisappearance sample_lib sample_ix (row_of_snapshot now sample_snapshot) [2] 100 = Inr (Spent_verified ''ff'')"
proof -
  have "v_txid (row_of_snapshot now sample_snapshot) = ''c''" "v_vout (row_of_snapshot now sample_snapshot) = 0"
    "v_expiresAt (row_of_snapshot now sample_snapshot) = Some 2000000000"
    by (simp_all add: row_of_snapshot_def sample_snapshot_def vault_snapshot.defs)
  moreover have "served_spend sample_lib ''ff'' [''spend''] = Some ''spend''"
    by (simp add: served_spend_def sample_lib_def sample_tx_def)
  ultimately show ?thesis
    using sample_verify by (simp add: classifyDisappearance_def sample_ix_def)
qed

theorem classify_evidence_witness:
  "\<exists>b64. verifyOurSpend sample_lib b64 (v_txid (row_of_snapshot 0 sample_snapshot))
     (v_vout (row_of_snapshot 0 sample_snapshot)) [2]"
  using classify_evidence [of sample_lib sample_ix "row_of_snapshot 0 sample_snapshot" "[2]" 100] sample_classify
  by blast

subsection \<open>Conservation\<close>

lemma foldl_sum: "foldl (\<lambda>s x. s + f x) (a::int) xs = a + sum_list (map f xs)"
  by (induction xs arbitrary: a) auto

lemma consumedSat_eq: "consumedSat rows = sum_list (map a_valueSat rows)"
  by (simp add: consumedSat_def foldl_sum)

lemma createdSat_eq:
  "createdSat live c = sum_list (map (\<lambda>v. if from_round c v then c_value v else 0) live)"
  by (simp add: createdSat_def foldl_sum)

lemma from_round_unique: "from_round c v \<Longrightarrow> from_round c' v \<Longrightarrow> c = c'"
  by (auto simp: from_round_def split: option.splits) (metis last_in_set)

definition accepted :: "absorption_candidate list \<Rightarrow> vcoin list \<Rightarrow> string list" where
  "accepted cs live = filter (\<lambda>c. consumedSat (settled_group cs c) > 0
     \<and> consumedSat (settled_group cs c) = createdSat live c) (commitments_of cs)"

lemma in_commitments: "c \<in> set (commitments_of cs) \<longleftrightarrow> c \<noteq> [] \<and> (\<exists>x \<in> set cs. a_settledBy x = Some c)"
  unfolding commitments_of_def set_js_set by (induction cs) (auto split: option.splits)

lemma absorbed_iff:
  "o' \<in> set (resolveAbsorbedByConservation cs live) \<longleftrightarrow>
     (\<exists>x \<in> set cs. a_outpoint x = o' \<and> (\<exists>c \<in> set (accepted cs live). a_settledBy x = Some c))"
  by (auto simp: resolveAbsorbedByConservation_def accepted_def Let_def settled_group_def split: if_splits)

lemma sum_by_commitment:
  "distinct Cs \<Longrightarrow> sum_list (map a_valueSat (filter (\<lambda>x. \<exists>c \<in> set Cs. a_settledBy x = Some c) cs))
     = sum_list (map (\<lambda>c. sum_list (map a_valueSat (settled_group cs c))) Cs)"
proof (induction Cs)
  case Nil
  then show ?case by simp
next
  case (Cons c Cs)
  have "sum_list (map a_valueSat (filter (\<lambda>x. \<exists>k \<in> set (c # Cs). a_settledBy x = Some k) cs))
      = sum_list (map a_valueSat (settled_group cs c))
        + sum_list (map a_valueSat (filter (\<lambda>x. \<exists>k \<in> set Cs. a_settledBy x = Some k) cs))"
    using Cons.prems by (induction cs) (auto simp: settled_group_def)
  with Cons show ?case by simp
qed

lemma created_le:
  assumes "distinct Cs" and "\<forall>v \<in> set live. 0 \<le> c_value v"
  shows "sum_list (map (createdSat live) Cs) \<le> sum_list (map c_value live)"
  using assms(2)
proof (induction live)
  case Nil
  then show ?case by (simp add: createdSat_eq [abs_def])
next
  case (Cons v live)
  have "sum_list (map (\<lambda>c. if from_round c v then c_value v else 0) Cs) \<le> c_value v"
    using assms(1)
  proof (induction Cs)
    case Nil
    then show ?case using Cons.prems by simp
  next
    case (Cons a Cs)
    show ?case
    proof (cases "from_round a v")
      case True
      have "\<not> from_round c v" if "c \<in> set Cs" for c
        using from_round_unique [OF True, of c] that Cons.prems by auto
      then have "sum_list (map (\<lambda>c. if from_round c v then c_value v else 0) Cs) = 0"
        by (induction Cs) auto
      with True show ?thesis by simp
    next
      case False
      with Cons show ?thesis by simp
    qed
  qed
  then show ?case using Cons by (simp add: createdSat_eq [abs_def] sum_list_addf)
qed

text \<open>What value conservation gives whatever the server says: a missing row counts as absorbed
  exactly when the rows it is grouped with are worth, by the bridge's own records, what the same
  commitment left in the live set; so the value forgotten on this evidence in one pass never exceeds
  the value the live set holds.\<close>

theorem absorption_conserves:
  assumes "distinct (map a_outpoint cs)" and "\<forall>v \<in> set live. 0 \<le> c_value v"
  shows "(\<forall>x \<in> set cs. a_outpoint x \<in> set (resolveAbsorbedByConservation cs live) \<longleftrightarrow>
       (\<exists>c. c \<noteq> [] \<and> a_settledBy x = Some c \<and> 0 < createdSat live c
          \<and> sum_list (map a_valueSat (filter (\<lambda>y. a_settledBy y = Some c) cs)) = createdSat live c))
    \<and> sum_list (map a_valueSat (filter (\<lambda>x. a_outpoint x \<in> set (resolveAbsorbedByConservation cs live)) cs))
        \<le> sum_list (map c_value live)"
proof -
  let ?A = "accepted cs live"
  have mem: "a_outpoint x \<in> set (resolveAbsorbedByConservation cs live) \<longleftrightarrow>
      (\<exists>c \<in> set ?A. a_settledBy x = Some c)" if "x \<in> set cs" for x
    using assms(1) that unfolding absorbed_iff by (metis distinct_map inj_onD)
  have first: "a_outpoint x \<in> set (resolveAbsorbedByConservation cs live) \<longleftrightarrow>
       (\<exists>c. c \<noteq> [] \<and> a_settledBy x = Some c \<and> 0 < createdSat live c
          \<and> sum_list (map a_valueSat (filter (\<lambda>y. a_settledBy y = Some c) cs)) = createdSat live c)"
    if "x \<in> set cs" for x
    using that unfolding mem [OF that]
    by (auto simp: accepted_def in_commitments consumedSat_eq settled_group_def)
  have d: "distinct ?A" by (simp add: accepted_def commitments_of_def)
  have "filter (\<lambda>x. a_outpoint x \<in> set (resolveAbsorbedByConservation cs live)) cs
      = filter (\<lambda>x. \<exists>c \<in> set ?A. a_settledBy x = Some c) cs"
    using mem by (intro filter_cong) auto
  then have "sum_list (map a_valueSat (filter (\<lambda>x. a_outpoint x \<in> set (resolveAbsorbedByConservation cs live)) cs))
      = sum_list (map (\<lambda>c. sum_list (map a_valueSat (settled_group cs c))) ?A)"
    by (simp only: sum_by_commitment [OF d])
  also have "\<dots> = sum_list (map (createdSat live) ?A)"
    by (intro arg_cong [where f = sum_list] map_cong) (auto simp: accepted_def consumedSat_eq)
  also have "\<dots> \<le> sum_list (map c_value live)" by (rule created_le [OF d assms(2)])
  finally show ?thesis using first by blast
qed

definition sample_live :: vcoin where
  "sample_live = \<lparr>c_txid = ''dd'', c_vout = 0, c_value = 1000, c_script = [], c_tapTree = [],
     c_state = None, c_batchExpiry = None, c_commitmentTxIds = Some [''c0''], c_spentBy = None,
     c_settledBy = None, c_arkTxId = None, c_isSpent = False, c_isUnrolled = False\<rparr>"

theorem absorption_conserves_witness:
  "''aa:0'' \<in> set (resolveAbsorbedByConservation
     [\<lparr>a_outpoint = ''aa:0'', a_valueSat = 400, a_settledBy = Some ''c0''\<rparr>,
      \<lparr>a_outpoint = ''bb:0'', a_valueSat = 600, a_settledBy = Some ''c0''\<rparr>] [sample_live])"
  using absorption_conserves [of "[\<lparr>a_outpoint = ''aa:0'', a_valueSat = 400, a_settledBy = Some ''c0''\<rparr>,
      \<lparr>a_outpoint = ''bb:0'', a_valueSat = 600, a_settledBy = Some ''c0''\<rparr>]" "[sample_live]"]
  by (simp add: createdSat_def from_round_def sample_live_def)

text \<open>Conservation is not proof against a lying grouping hint. Any single missing row whose value
  equals that of a coin of the live set is absorbed when the server answers its \<open>settledBy\<close> with
  that coin's commitment, however old the commitment is and although nothing signed by our key
  exists.\<close>

theorem absorption_hint_forgeable:
  assumes "c_commitmentTxIds v = Some [c]" and "c \<noteq> []" and "0 < c_value v" and "a_valueSat x = c_value v"
    and "a_settledBy x = Some c" and "\<forall>w \<in> set others. \<not> from_round c w"
  shows "a_outpoint x \<in> set (resolveAbsorbedByConservation [x] (v # others))"
proof -
  have "sum_list (map (\<lambda>w. if from_round c w then c_value w else 0) others) = 0"
    using assms(6) by (induction others) auto
  then have "createdSat (v # others) c = c_value v"
    using assms(1) by (simp add: createdSat_eq from_round_def)
  moreover have "settled_group [x] c = [x]" using assms(5) by (simp add: settled_group_def)
  ultimately have "c \<in> set (accepted [x] (v # others))"
    using assms by (simp add: accepted_def in_commitments consumedSat_eq)
  with assms(5) show ?thesis by (auto simp: absorbed_iff)
qed

theorem absorption_hint_forgeable_witness:
  "''aa:0'' \<in> set (resolveAbsorbedByConservation
     [\<lparr>a_outpoint = ''aa:0'', a_valueSat = 1000, a_settledBy = Some ''c0''\<rparr>] [sample_live])"
  using absorption_hint_forgeable [of sample_live "''c0''"
      "\<lparr>a_outpoint = ''aa:0'', a_valueSat = 1000, a_settledBy = Some ''c0''\<rparr>" "[]"]
  by (simp add: sample_live_def)

end
