(* ===== verification/Proof_Sync.thy ===== *)
theory Proof_Sync
  imports Evidence
begin

text \<open>
  Mirroring the wallet's coins into the vault and collecting what is no longer needed,
  \<open>src/exit/proof_sync.ts\<close>: one pass of \<open>syncProofs\<close> (fetch and store per vtxo, then the
  evidence-gated collection) and the one-shot \<open>captureVtxo\<close> of the swap code. \<open>clock\<close> is the
  reading \<open>storeVtxoWithProofs\<close> and \<open>quarantineVtxo\<close> take of \<open>Date.now()\<close>, \<open>nowSec\<close> the
  argument of the pass. The indexer answers a given request the same way throughout one pass.
\<close>

definition MAX_PAGES :: nat where "MAX_PAGES = 50"

definition PAGE_SIZE :: int where "PAGE_SIZE = 100"

subsection \<open>Fetching\<close>

definition fetchChain :: "asp_indexer \<Rightarrow> string \<Rightarrow> nat \<Rightarrow> err + chain_tx list" where
  "fetchChain ix txid vout = ix_getVtxoChain ix txid vout"

fun label_psbts :: "tx_lib \<Rightarrow> string list \<Rightarrow> (string \<rightharpoonup> string) \<Rightarrow> err + (string \<rightharpoonup> string)" where
  "label_psbts lib [] out = Inr out"
| "label_psbts lib (b64 # rest) out = (case fromPSBT lib b64 of
     None \<Rightarrow> Inl (Error ''undecodable psbt'')
   | Some tx \<Rightarrow> label_psbts lib rest (out(tx_id tx \<mapsto> b64)))"

fun fetch_pages ::
  "nat \<Rightarrow> tx_lib \<Rightarrow> asp_indexer \<Rightarrow> string list \<Rightarrow> int \<Rightarrow> (string \<rightharpoonup> string) \<Rightarrow> err + (string \<rightharpoonup> string)" where
  "fetch_pages 0 lib ix ids pageIndex out = Inr out"
| "fetch_pages (Suc i) lib ix ids pageIndex out = (case ix_getVirtualTxs ix ids pageIndex PAGE_SIZE of
     Inl e \<Rightarrow> Inl e
   | Inr res \<Rightarrow> (case label_psbts lib (rs_txs res) out of
       Inl e \<Rightarrow> Inl e
     | Inr out' \<Rightarrow> (case rs_page res of
         None \<Rightarrow> Inr out'
       | Some pg \<Rightarrow> (if pg_next pg \<le> pg_current pg then Inr out'
           else fetch_pages i lib ix ids (pg_next pg) out'))))"

definition fetchProofPsbts :: "tx_lib \<Rightarrow> asp_indexer \<Rightarrow> string list \<Rightarrow> err + (string \<rightharpoonup> string)" where
  "fetchProofPsbts lib ix ids =
     (if ids = [] then Inr Map.empty else fetch_pages MAX_PAGES lib ix ids 0 Map.empty)"

definition expirySec :: "vcoin \<Rightarrow> int option" where
  "expirySec v = (case c_batchExpiry v of None \<Rightarrow> None
     | Some n \<Rightarrow> Some (if n > 1000000000000 then n div 1000 else n))"

definition toSnapshot :: "vcoin \<Rightarrow> chain_tx list \<Rightarrow> vault_snapshot" where
  "toSnapshot v chain = \<lparr>v_txid = c_txid v, v_vout = c_vout v, v_valueSat = c_value v,
     v_source = Wallet_source, v_script = c_script v, v_tapTree = c_tapTree v,
     v_status = (case c_state v of None \<Rightarrow> ''unknown'' | Some st \<Rightarrow> st),
     v_expiresAt = expirySec v, v_chain = chain\<rparr>"

definition type_in :: "chain_tx list \<Rightarrow> string \<Rightarrow> chain_tx_type" where
  "type_in chain txid = the (map_of (rev (map (\<lambda>c. (ct_txid c, ct_type c)) chain)) txid)"

definition served :: "(string \<rightharpoonup> string) \<Rightarrow> string \<Rightarrow> bool" where
  "served fetched txid \<longleftrightarrow> (case fetched txid of None \<Rightarrow> False | Some b64 \<Rightarrow> b64 \<noteq> [])"

definition gather_proofs :: "chain_tx list \<Rightarrow> (string \<rightharpoonup> string) \<Rightarrow> string list \<Rightarrow> proof_tx list \<times> string list" where
  "gather_proofs chain fetched missing =
     (map (\<lambda>t. \<lparr>p_txid = t, p_type = type_in chain t, p_psbt = the (fetched t)\<rparr>) (filter (served fetched) missing),
      filter (\<lambda>t. \<not> served fetched t) missing)"

subsection \<open>Capturing one vtxo\<close>

record capture_result =
  k_complete :: bool
  k_unserved :: "string list"
  k_dangling :: "string list"

text \<open>\<open>snap\<close> is the snapshot without its chain; the field is filled from the indexer.\<close>

definition captureVtxo :: "tx_lib \<Rightarrow> asp_indexer \<Rightarrow> int \<Rightarrow> vault_snapshot \<Rightarrow> capture_result bridge" where
  "captureVtxo lib ix clock snap =
     andthen (lift_res (fetchChain ix (v_txid snap) (v_vout snap))) (\<lambda>chain.
     andthen (guard_eff (chain \<noteq> []) (Error ''indexer returned an empty chain'')) (\<lambda>u.
     andthen (reading (\<lambda>d. missingProofTxids d chain)) (\<lambda>missing.
     andthen (lift_res (fetchProofPsbts lib ix missing)) (\<lambda>fetched.
     (let (ps, unserved) = gather_proofs chain fetched missing;
          dangling = map ct_txid (danglingEntries chain)
      in andthen (modify (storeVtxoWithProofs clock (snap\<lparr>v_chain := chain\<rparr>) ps)) (\<lambda>u.
         ret \<lparr>k_complete = (unserved = [] \<and> dangling = []), k_unserved = unserved, k_dangling = dangling\<rparr>))))))"

subsection \<open>One pass\<close>

record sync_result =
  r_total :: nat
  r_synced :: "string list"
  r_skipped :: nat
  r_failed :: "(string \<times> err) list"
  r_removedVtxos :: nat
  r_removedProofTxs :: nat
  r_absorbed :: "string list"
  r_quarantined :: "string list"
  r_expired :: "string list"
  r_released :: "string list"

definition empty_result :: "nat \<Rightarrow> sync_result" where
  "empty_result n = \<lparr>r_total = n, r_synced = [], r_skipped = 0, r_failed = [], r_removedVtxos = 0,
     r_removedProofTxs = 0, r_absorbed = [], r_quarantined = [], r_expired = [], r_released = []\<rparr>"

definition coin_key :: "vcoin \<Rightarrow> string \<times> nat" where
  "coin_key v = (c_txid v, c_vout v)"

definition okey :: "string \<times> nat \<Rightarrow> string" where
  "okey k = outpoint_key (fst k) (snd k)"

type_synonym pass = "db \<times> sync_result"

definition fail_row :: "string \<Rightarrow> err \<Rightarrow> pass \<Rightarrow> pass" where
  "fail_row key e s = (fst s, (snd s)\<lparr>r_failed := r_failed (snd s) @ [(key, e)]\<rparr>)"

text \<open>The body of the loop over the live vtxos (its \<open>try\<close> block).\<close>

definition sync_vtxo :: "tx_lib \<Rightarrow> asp_indexer \<Rightarrow> int \<Rightarrow> vcoin \<Rightarrow> pass \<Rightarrow> pass" where
  "sync_vtxo lib ix clock v s =
     (let d = fst s; r = snd s; key = okey (coin_key v);
          existing = getVaultVtxo d (c_txid v) (c_vout v);
          whole = (case existing of None \<Rightarrow> False | Some old \<Rightarrow> danglingEntries (v_chain old) = []);
          old_chain = (case existing of None \<Rightarrow> [] | Some old \<Rightarrow> v_chain old)
      in if whole \<and> missingProofTxids d old_chain = []
         then (let snap = toSnapshot v old_chain; old = the existing;
                   d' = (if v_status snap \<noteq> v_status old \<or> v_expiresAt snap \<noteq> v_expiresAt old
                         then storeVtxoWithProofs clock snap [] d else d)
               in (d', r\<lparr>r_skipped := Suc (r_skipped r)\<rparr>))
         else (case (if old_chain \<noteq> [] \<and> whole then Inr old_chain else fetchChain ix (c_txid v) (c_vout v)) of
             Inl e \<Rightarrow> fail_row key e s
           | Inr chain \<Rightarrow>
              (if chain = [] then fail_row key (Error ''indexer returned an empty chain'') s
               else (let missing = missingProofTxids d chain in
                 case fetchProofPsbts lib ix missing of
                   Inl e \<Rightarrow> fail_row key e s
                 | Inr fetched \<Rightarrow>
                    (let (ps, unserved) = gather_proofs chain fetched missing;
                         d' = storeVtxoWithProofs clock (toSnapshot v chain) ps d
                     in if unserved \<noteq> [] then fail_row key (Error ''indexer did not serve proof tx(s)'') (d', r)
                        else (d', r\<lparr>r_synced := r_synced r @ [key]\<rparr>))))))"

text \<open>Pass 1 of the collection: exonerate, honour our own exits, collect the rest.\<close>

definition gc_row :: "(string \<times> nat) set \<Rightarrow> vault_vtxo \<Rightarrow> pass \<times> vault_vtxo list \<Rightarrow> pass \<times> vault_vtxo list" where
  "gc_row live row st =
     (let s = fst st; need = snd st; d = fst s; r = snd s; key = vtxo_key row in
      if key \<in> live then
        (if v_quarantinedAt row \<noteq> None
         then (let (changed, d') = clearQuarantine (fst key) (snd key) d
               in ((d', if changed then r\<lparr>r_released := r_released r @ [okey key]\<rparr> else r), need))
         else st)
      else (case getExitOp d (fst key) (snd key) of
          Some p \<Rightarrow>
            (if o_state p \<noteq> Op_failed then
               (if o_state p = Swept
                then (let (changed, d') = removeVtxo (fst key) (snd key) d
                      in ((d', if changed then r\<lparr>r_removedVtxos := Suc (r_removedVtxos r)\<rparr> else r), need))
                else st)
             else if v_source row = Atomic_source then st else (s, need @ [row]))
        | None \<Rightarrow> if v_source row = Atomic_source then st else (s, need @ [row])))"

definition absorption_candidates :: "vcoin list \<Rightarrow> vault_vtxo list \<Rightarrow> absorption_candidate list" where
  "absorption_candidates listed need =
     (let settledByOf = map_of (rev (map (\<lambda>c. (coin_key c, c_settledBy c)) listed)) in
      map (\<lambda>row. \<lparr>a_outpoint = okey (vtxo_key row), a_valueSat = v_valueSat row,
         a_settledBy = (case settledByOf (vtxo_key row) of None \<Rightarrow> None | Some s \<Rightarrow> s)\<rparr>) need)"

definition absorbed_set :: "asp_indexer \<Rightarrow> vault_vtxo list \<Rightarrow> vcoin list \<Rightarrow> string list" where
  "absorbed_set ix need live =
     (if need = [] then []
      else case ix_getVtxos ix (map vtxo_key need) of
        Inl e \<Rightarrow> []
      | Inr listed \<Rightarrow> resolveAbsorbedByConservation (absorption_candidates listed need) live)"

definition drop_row :: "string \<times> nat \<Rightarrow> (sync_result \<Rightarrow> sync_result) \<Rightarrow> pass \<Rightarrow> pass" where
  "drop_row key note s =
     (let (changed, d') = removeVtxo (fst key) (snd key) (fst s)
      in (d', if changed then note (snd s) else snd s))"

definition evidence_row ::
  "tx_lib \<Rightarrow> asp_indexer \<Rightarrow> int \<Rightarrow> int \<Rightarrow> bytes \<Rightarrow> string list \<Rightarrow> vault_vtxo \<Rightarrow> pass \<Rightarrow> pass" where
  "evidence_row lib ix clock nowSec ours absorbed row s =
     (let key = vtxo_key row in
      if okey key \<in> set absorbed
      then drop_row key (\<lambda>r. r\<lparr>r_removedVtxos := Suc (r_removedVtxos r), r_absorbed := r_absorbed r @ [okey key]\<rparr>) s
      else (case classifyDisappearance lib ix row ours nowSec of
          Inl e \<Rightarrow> fail_row (okey key) e s
        | Inr (Spent_verified spentBy) \<Rightarrow> drop_row key (\<lambda>r. r\<lparr>r_removedVtxos := Suc (r_removedVtxos r)\<rparr>) s
        | Inr Expired \<Rightarrow>
            (let (new, d') = quarantineVtxo clock (fst key) (snd key) ''batch expired before a refresh'' (fst s)
             in (d', if new then (snd s)\<lparr>r_expired := r_expired (snd s) @ [okey key]\<rparr> else snd s))
        | Inr (Unproven reason) \<Rightarrow>
            (let (new, d') = quarantineVtxo clock (fst key) (snd key) reason (fst s)
             in (d', if new then (snd s)\<lparr>r_quarantined := r_quarantined (snd s) @ [okey key]\<rparr> else snd s))))"

definition collect_proofs :: "pass \<Rightarrow> pass" where
  "collect_proofs s = (let (removed, d') = gcOrphanProofs (fst s) in (d', (snd s)\<lparr>r_removedProofTxs := removed\<rparr>))"

definition syncProofs ::
  "tx_lib \<Rightarrow> asp_indexer \<Rightarrow> int \<Rightarrow> int \<Rightarrow> bytes \<Rightarrow> vcoin list \<Rightarrow> db \<Rightarrow> pass" where
  "syncProofs lib ix clock nowSec ours coins d =
     (let s1 = fold (sync_vtxo lib ix clock) coins (d, empty_result (length coins));
          live = set (map coin_key coins);
          (s2, need) = fold (gc_row live) (listVaultVtxos (fst s1)) (s1, []);
          absorbed = absorbed_set ix need coins;
          s3 = fold (evidence_row lib ix clock nowSec ours absorbed) need s2
      in collect_proofs s3)"

subsection \<open>Growth: what storing may do\<close>

definition grows :: "(string \<times> nat) set \<Rightarrow> db \<Rightarrow> db \<Rightarrow> bool" where
  "grows K d d' \<longleftrightarrow> (vault_wf d \<longrightarrow> vault_wf d') \<and> ops d' = ops d \<and> swaps d' = swaps d
     \<and> (\<forall>t b. proof_of d t = Some b \<longrightarrow> proof_of d' t = Some b)
     \<and> (\<forall>t n. (t, n) \<notin> K \<longrightarrow> getVaultVtxo d' t n = getVaultVtxo d t n)
     \<and> (\<forall>t n v. getVaultVtxo d t n = Some v \<longrightarrow> (\<exists>v'. getVaultVtxo d' t n = Some v' \<and> v_source v' = v_source v))"

interpretation grw: progress "grows K" for K
proof
  show "grows K s s" for s by (simp add: grows_def)
  fix s t u assume st: "grows K s t" and tu: "grows K t u"
  have "\<exists>v'. getVaultVtxo u x n = Some v' \<and> v_source v' = v_source v" if "getVaultVtxo s x n = Some v" for x n v
  proof -
    from st that obtain w where "getVaultVtxo t x n = Some w" "v_source w = v_source v"
      unfolding grows_def by blast
    with tu show ?thesis unfolding grows_def by metis
  qed
  moreover have "proof_of s x = Some b \<Longrightarrow> proof_of u x = Some b" for x b
    using st tu unfolding grows_def by blast
  ultimately show "grows K s u" using st tu by (simp add: grows_def)
qed

lemma grows_mono: "grows K d d' \<Longrightarrow> K \<subseteq> K' \<Longrightarrow> grows K' d d'"
  unfolding grows_def by blast

lemma grows_store: "grows {vtxo_key v} d (storeVtxoWithProofs clock v ps d)"
  unfolding grows_def
proof (intro conjI allI impI)
  show "vault_wf d \<Longrightarrow> vault_wf (storeVtxoWithProofs clock v ps d)" by (rule wf_store)
  show "proof_of (storeVtxoWithProofs clock v ps d) t = Some b" if "proof_of d t = Some b" for t b
    using that by (simp add: proof_of_store)
  show "\<exists>v'. getVaultVtxo (storeVtxoWithProofs clock v ps d) t n = Some v' \<and> v_source v' = v_source old"
    if "getVaultVtxo d t n = Some old" for t n old
    using that by (simp add: get_store replace_snapshot_def)
qed (simp_all add: storeVtxoWithProofs_def getVaultVtxo_def vault_rows.row_get_upsert)

lemma key_toSnapshot [simp]: "vtxo_key (toSnapshot v chain) = coin_key v"
  by (simp add: toSnapshot_def vtxo_key_def coin_key_def)

lemma fst_fail_row [simp]: "fst (fail_row key e s) = fst s"
  by (simp add: fail_row_def)

lemma sync_vtxo_grows: "grows {coin_key v} (fst s) (fst (sync_vtxo lib ix clock v s))"
proof -
  have "grows {coin_key v} d (storeVtxoWithProofs clock (toSnapshot v chain) ps d)" for d chain ps
    using grows_store [of "toSnapshot v chain"] by simp
  then show ?thesis
    by (simp add: sync_vtxo_def Let_def grw.R_refl case_prod_beta split: sum.split)
qed

lemma fold_sync_grows:
  "grows (set (map coin_key coins)) (fst s) (fst (fold (sync_vtxo lib ix clock) coins s))"
proof (induction coins arbitrary: s)
  case Nil
  then show ?case by (simp add: grw.R_refl)
next
  case (Cons v coins)
  have "grows (set (map coin_key (v # coins))) (fst s) (fst (sync_vtxo lib ix clock v s))"
    by (rule grows_mono [OF sync_vtxo_grows]) simp
  moreover have "grows (set (map coin_key (v # coins))) (fst (sync_vtxo lib ix clock v s))
      (fst (fold (sync_vtxo lib ix clock) coins (sync_vtxo lib ix clock v s)))"
    by (rule grows_mono [OF Cons.IH]) auto
  ultimately show ?case by (auto intro: grw.R_trans)
qed

lemma captureVtxo_grows: "moves (grows {vtxo_key snap}) (captureVtxo lib ix clock snap)"
proof -
  have key: "vtxo_key (snap\<lparr>v_chain := chain\<rparr>) = vtxo_key snap" for chain
    by (simp add: vtxo_key_def)
  have "moves (grows {vtxo_key snap}) (modify (storeVtxoWithProofs clock (snap\<lparr>v_chain := chain\<rparr>) ps))" for chain ps
    using grows_store [of "snap\<lparr>v_chain := chain\<rparr>" _ clock ps] by (intro grw.moves_modify) (simp add: key)
  then show ?thesis
    unfolding captureVtxo_def by (auto intro!: grw.moves_rules split: prod.split)
qed

subsection \<open>Labels: a proof is filed under the id its payload decodes to\<close>

definition labelled_proof :: "tx_lib \<Rightarrow> proof_tx \<Rightarrow> bool" where
  "labelled_proof lib p \<longleftrightarrow> p_psbt p \<noteq> [] \<and> (\<exists>tx. fromPSBT lib (p_psbt p) = Some tx \<and> tx_id tx = p_txid p)"

definition labels :: "tx_lib \<Rightarrow> db \<Rightarrow> db \<Rightarrow> bool" where
  "labels lib d d' \<longleftrightarrow> (\<forall>p \<in> set (proofs d'). p \<in> set (proofs d) \<or> labelled_proof lib p)"

interpretation lbl: progress "labels lib" for lib
  by unfold_locales (auto simp: labels_def)

lemma label_psbts_ok:
  assumes "\<forall>t b. out t = Some b \<longrightarrow> (\<exists>tx. fromPSBT lib b = Some tx \<and> tx_id tx = t)"
    and "label_psbts lib b64s out = Inr out'"
  shows "\<forall>t b. out' t = Some b \<longrightarrow> (\<exists>tx. fromPSBT lib b = Some tx \<and> tx_id tx = t)"
  using assms
proof (induction b64s arbitrary: out)
  case Nil
  then show ?case by simp
next
  case (Cons b64 b64s)
  then obtain tx where tx: "fromPSBT lib b64 = Some tx" "label_psbts lib b64s (out(tx_id tx \<mapsto> b64)) = Inr out'"
    by (auto split: option.splits)
  have "\<forall>t b. (out(tx_id tx \<mapsto> b64)) t = Some b \<longrightarrow> (\<exists>tx. fromPSBT lib b = Some tx \<and> tx_id tx = t)"
    using Cons.prems(1) tx(1) by simp
  from Cons.IH [OF this tx(2)] show ?case .
qed

lemma fetch_pages_ok:
  assumes "\<forall>t b. out t = Some b \<longrightarrow> (\<exists>tx. fromPSBT lib b = Some tx \<and> tx_id tx = t)"
    and "fetch_pages n lib ix ids i out = Inr out'"
  shows "\<forall>t b. out' t = Some b \<longrightarrow> (\<exists>tx. fromPSBT lib b = Some tx \<and> tx_id tx = t)"
  using assms
proof (induction n arbitrary: i out)
  case 0
  then show ?case by simp
next
  case (Suc n)
  then obtain res out1 where res: "ix_getVirtualTxs ix ids i PAGE_SIZE = Inr res"
    "label_psbts lib (rs_txs res) out = Inr out1"
    by (auto split: sum.splits)
  note ok = label_psbts_ok [OF Suc.prems(1) res(2)]
  show ?case
  proof (cases "\<exists>pg. rs_page res = Some pg \<and> \<not> pg_next pg \<le> pg_current pg")
    case True
    with Suc.prems(2) res Suc.IH [OF ok] show ?thesis by auto
  next
    case False
    with Suc.prems(2) res ok show ?thesis by (auto split: option.splits if_splits)
  qed
qed

lemma fetchProofPsbts_ok:
  "fetchProofPsbts lib ix ids = Inr fetched \<Longrightarrow> fetched t = Some b \<Longrightarrow>
     \<exists>tx. fromPSBT lib b = Some tx \<and> tx_id tx = t"
  using fetch_pages_ok [of Map.empty lib MAX_PAGES ix ids 0 fetched]
  by (auto simp: fetchProofPsbts_def split: if_splits)

lemma gather_labelled:
  assumes "fetchProofPsbts lib ix ids = Inr fetched" and "p \<in> set (fst (gather_proofs chain fetched missing))"
  shows "labelled_proof lib p"
proof -
  from assms(2) obtain t where t: "served fetched t" "p = \<lparr>p_txid = t, p_type = type_in chain t, p_psbt = the (fetched t)\<rparr>"
    by (auto simp: gather_proofs_def)
  then obtain b where "fetched t = Some b" "b \<noteq> []" by (auto simp: served_def split: option.splits)
  with t fetchProofPsbts_ok [OF assms(1)] show ?thesis by (simp add: labelled_proof_def)
qed

lemma set_insert_proofs: "set (foldl insert_proof ps new) \<subseteq> set ps \<union> set new"
proof (induction new arbitrary: ps)
  case Nil
  then show ?case by simp
next
  case (Cons p new)
  have "set (insert_proof ps p) \<subseteq> insert p (set ps)" by (auto simp: insert_proof_def)
  with Cons.IH [of "insert_proof ps p"] show ?case by auto
qed

lemma labels_store:
  "(\<And>p. p \<in> set ps \<Longrightarrow> labelled_proof lib p) \<Longrightarrow> labels lib d (storeVtxoWithProofs clock v ps d)"
  using set_insert_proofs [of "proofs d" ps] by (auto simp: labels_def storeVtxoWithProofs_def)

lemma sync_vtxo_labels: "labels lib (fst s) (fst (sync_vtxo lib ix clock v s))"
proof -
  have "labels lib d (storeVtxoWithProofs clock w [] d)" for d w by (rule labels_store) simp
  moreover have "labels lib d (storeVtxoWithProofs clock w (fst (gather_proofs chain fetched missing)) d)"
    if "fetchProofPsbts lib ix ids = Inr fetched" for d w chain fetched missing ids
    by (rule labels_store) (rule gather_labelled [OF that])
  ultimately show ?thesis
    by (simp add: sync_vtxo_def Let_def lbl.R_refl case_prod_beta split: sum.split)
qed

lemma fold_moves:
  assumes "progress R" and "\<And>x s. x \<in> set xs \<Longrightarrow> R (fst s) (fst (f x s))"
  shows "R (fst s) (fst (fold f xs s))"
  using assms(2)
proof (induction xs arbitrary: s)
  case Nil
  then show ?case using progress.R_refl [OF assms(1)] by simp
next
  case (Cons x xs)
  have "R (fst s) (fst (f x s))" by (rule Cons.prems) simp
  moreover have "R (fst (f x s)) (fst (fold f xs (f x s)))" using Cons by simp
  ultimately show ?case using progress.R_trans [OF assms(1)] by simp
qed

subsection \<open>Shrinking: what the collection may do\<close>

definition same_core :: "vault_vtxo \<Rightarrow> vault_vtxo \<Rightarrow> bool" where
  "same_core v v' \<longleftrightarrow> vtxo_key v' = vtxo_key v \<and> v_valueSat v' = v_valueSat v \<and> v_source v' = v_source v
     \<and> v_script v' = v_script v \<and> v_tapTree v' = v_tapTree v \<and> v_expiresAt v' = v_expiresAt v
     \<and> v_chain v' = v_chain v"

definition shrinks :: "(string \<times> nat) set \<Rightarrow> db \<Rightarrow> db \<Rightarrow> bool" where
  "shrinks E d d' \<longleftrightarrow> (vault_wf d \<longrightarrow> vault_wf d') \<and> ops d' = ops d \<and> proofs d' = proofs d
     \<and> (\<forall>t n. getVaultVtxo d t n = None \<longrightarrow> getVaultVtxo d' t n = None)
     \<and> (\<forall>t n v. getVaultVtxo d t n = Some v \<longrightarrow>
          (getVaultVtxo d' t n = None \<and> (t, n) \<in> E) \<or> (\<exists>v'. getVaultVtxo d' t n = Some v' \<and> same_core v v'))"

lemma same_core_trans: "same_core u v \<Longrightarrow> same_core v w \<Longrightarrow> same_core u w"
  by (simp add: same_core_def)

interpretation shr: progress "shrinks E" for E
proof
  show "shrinks E s s" for s by (simp add: shrinks_def same_core_def)
  show "shrinks E s t \<Longrightarrow> shrinks E t u \<Longrightarrow> shrinks E s u" for s t u
    unfolding shrinks_def
  proof (intro conjI allI impI; elim conjE)
    fix x n v
    assume "getVaultVtxo s x n = Some v"
      and st: "\<forall>t' n v. getVaultVtxo s t' n = Some v \<longrightarrow> (getVaultVtxo t t' n = None \<and> (t', n) \<in> E)
          \<or> (\<exists>v'. getVaultVtxo t t' n = Some v' \<and> same_core v v')"
      and tu: "\<forall>t' n v. getVaultVtxo t t' n = Some v \<longrightarrow> (getVaultVtxo u t' n = None \<and> (t', n) \<in> E)
          \<or> (\<exists>v'. getVaultVtxo u t' n = Some v' \<and> same_core v v')"
      and none: "\<forall>t' n. getVaultVtxo t t' n = None \<longrightarrow> getVaultVtxo u t' n = None"
    then show "(getVaultVtxo u x n = None \<and> (x, n) \<in> E) \<or> (\<exists>v'. getVaultVtxo u x n = Some v' \<and> same_core v v')"
      by (meson same_core_trans)
  qed simp_all
qed

lemma shrinks_mono: "shrinks E d d' \<Longrightarrow> E \<subseteq> E' \<Longrightarrow> shrinks E' d d'"
  unfolding shrinks_def by blast

lemma shrinks_kept:
  "shrinks E d d' \<Longrightarrow> getVaultVtxo d t n = Some v \<Longrightarrow> (t, n) \<notin> E \<Longrightarrow>
     \<exists>v'. getVaultVtxo d' t n = Some v' \<and> same_core v v'"
  unfolding shrinks_def by blast

lemma shrinks_remove: "shrinks {(t, n)} d (snd (removeVtxo t n d))"
  unfolding shrinks_def get_remove
  by (auto simp: same_core_def wf_remove) (simp_all add: removeVtxo_def)

lemma shrinks_quarantine: "shrinks {} d (snd (quarantineVtxo now t n reason d))"
  unfolding shrinks_def get_quarantine
  by (auto simp: same_core_def wf_quarantine flag_row_def) (simp_all add: quarantineVtxo_def Let_def vtxo_key_def)

lemma shrinks_clear: "shrinks {} d (snd (clearQuarantine t n d))"
  unfolding shrinks_def get_clear
  by (auto simp: same_core_def wf_clear) (simp_all add: clearQuarantine_def vtxo_key_def)

subsection \<open>The two phases of the collection\<close>

definition swept_op :: "db \<Rightarrow> string \<times> nat \<Rightarrow> bool" where
  "swept_op d k \<longleftrightarrow> (\<exists>p. getExitOp d (fst k) (snd k) = Some p \<and> o_state p = Swept)"

definition needs_evidence :: "(string \<times> nat) set \<Rightarrow> db \<Rightarrow> vault_vtxo \<Rightarrow> bool" where
  "needs_evidence live d row \<longleftrightarrow> vtxo_key row \<notin> live \<and> v_source row = Wallet_source
     \<and> (case getExitOp d (v_txid row) (v_vout row) of None \<Rightarrow> True | Some p \<Rightarrow> o_state p = Op_failed)"

lemma not_atomic: "src \<noteq> Atomic_source \<longleftrightarrow> src = Wallet_source"
  by (cases src) auto

lemma gc_row_facts:
  "shrinks {k. k = vtxo_key row \<and> k \<notin> live \<and> swept_op (fst (fst st)) k} (fst (fst st)) (fst (fst (gc_row live row st)))"
  "snd (gc_row live row st) = snd st @ (if needs_evidence live (fst (fst st)) row then [row] else [])"
proof -
  obtain d r need where st: "st = ((d, r), need)" by (metis prod.collapse)
  let ?E = "{k. k = vtxo_key row \<and> k \<notin> live \<and> swept_op d k}"
  have clear: "shrinks ?E d (snd (clearQuarantine t n d))" for t n
    by (rule shrinks_mono [OF shrinks_clear]) simp
  have remove: "shrinks ?E d (snd (removeVtxo (v_txid row) (v_vout row) d))"
    if "vtxo_key row \<notin> live" "swept_op d (vtxo_key row)"
    by (rule shrinks_mono [OF shrinks_remove]) (use that in \<open>auto simp: vtxo_key_def\<close>)
  have key: "fst (vtxo_key row) = v_txid row" "snd (vtxo_key row) = v_vout row"
    by (simp_all add: vtxo_key_def)
  have 1: "shrinks ?E d (fst (fst (gc_row live row st)))
    \<and> snd (gc_row live row st) = need @ (if needs_evidence live d row then [row] else [])"
  proof (cases "vtxo_key row \<in> live")
    case True
    then show ?thesis
      using clear [of "v_txid row" "v_vout row"]
      by (simp add: st gc_row_def Let_def key needs_evidence_def shr.R_refl case_prod_beta)
  next
    case False
    show ?thesis
    proof (cases "getExitOp d (v_txid row) (v_vout row)")
      case None
      with False show ?thesis
        by (simp add: st gc_row_def Let_def key needs_evidence_def shr.R_refl not_atomic [symmetric])
    next
      case (Some p)
      show ?thesis
      proof (cases "o_state p = Swept")
        case True
        with Some have "swept_op d (vtxo_key row)" by (simp add: swept_op_def key)
        with False Some True remove show ?thesis
          by (simp add: st gc_row_def Let_def key needs_evidence_def case_prod_beta)
      next
        case False
        with \<open>vtxo_key row \<notin> live\<close> Some show ?thesis
          by (simp add: st gc_row_def Let_def key needs_evidence_def shr.R_refl not_atomic [symmetric])
      qed
    qed
  qed
  from 1 show "shrinks {k. k = vtxo_key row \<and> k \<notin> live \<and> swept_op (fst (fst st)) k} (fst (fst st)) (fst (fst (gc_row live row st)))"
    by (simp add: st)
  from 1 show "snd (gc_row live row st) = snd st @ (if needs_evidence live (fst (fst st)) row then [row] else [])"
    by (simp add: st)
qed

lemma same_ops: "ops d' = ops d \<Longrightarrow> getExitOp d' t n = getExitOp d t n"
  by (simp add: getExitOp_def)

lemma fold_gc_facts:
  "shrinks {k. k \<notin> live \<and> swept_op (fst (fst st)) k} (fst (fst st)) (fst (fst (fold (gc_row live) rows st)))
   \<and> snd (fold (gc_row live) rows st) = snd st @ filter (needs_evidence live (fst (fst st))) rows"
proof (induction rows arbitrary: st)
  case Nil
  show ?case by (simp add: shr.R_refl)
next
  case (Cons row rows)
  let ?st = "gc_row live row st"
  have step: "shrinks {k. k \<notin> live \<and> swept_op (fst (fst st)) k} (fst (fst st)) (fst (fst ?st))"
    by (rule shrinks_mono [OF gc_row_facts(1)]) auto
  then have ops: "ops (fst (fst ?st)) = ops (fst (fst st))" by (simp add: shrinks_def)
  then have eq: "swept_op (fst (fst ?st)) = swept_op (fst (fst st))"
    "needs_evidence live (fst (fst ?st)) = needs_evidence live (fst (fst st))"
    by (simp_all add: swept_op_def [abs_def] needs_evidence_def [abs_def] same_ops [OF ops])
  note IH = Cons.IH [of ?st, unfolded eq]
  have "shrinks {k. k \<notin> live \<and> swept_op (fst (fst st)) k} (fst (fst st))
      (fst (fst (fold (gc_row live) rows ?st)))"
    by (rule shr.R_trans [OF step IH [THEN conjunct1]])
  then show ?case using IH by (simp add: gc_row_facts(2))
qed

lemma shrinks_drop: "shrinks {key} (fst s) (fst (drop_row key note s))"
  using shrinks_remove [of "fst key" "snd key" "fst s"] by (simp add: drop_row_def case_prod_beta)

definition evidence_for :: "tx_lib \<Rightarrow> asp_indexer \<Rightarrow> int \<Rightarrow> bytes \<Rightarrow> string list \<Rightarrow> vault_vtxo \<Rightarrow> bool" where
  "evidence_for lib ix nowSec ours absorbed row \<longleftrightarrow> okey (vtxo_key row) \<in> set absorbed
     \<or> (\<exists>s. classifyDisappearance lib ix row ours nowSec = Inr (Spent_verified s))"

lemma evidence_row_shrinks:
  "shrinks {k. k = vtxo_key row \<and> evidence_for lib ix nowSec ours absorbed row} (fst s)
     (fst (evidence_row lib ix clock nowSec ours absorbed row s))"
proof (cases "evidence_for lib ix nowSec ours absorbed row")
  case True
  then show ?thesis
    using shrinks_drop [of "vtxo_key row" s]
    by (auto simp: evidence_row_def evidence_for_def Let_def shr.R_refl)
next
  case False
  then have "okey (vtxo_key row) \<notin> set absorbed"
    "\<And>s. classifyDisappearance lib ix row ours nowSec \<noteq> Inr (Spent_verified s)"
    by (simp_all add: evidence_for_def)
  then show ?thesis
    using shrinks_quarantine [THEN shrinks_mono, of "{k. k = vtxo_key row \<and> evidence_for lib ix nowSec ours absorbed row}"]
    by (auto simp: evidence_row_def Let_def shr.R_refl case_prod_beta split: sum.split disappearance.split)
qed

lemma fold_evidence_shrinks:
  "shrinks {k. \<exists>row \<in> set need. k = vtxo_key row \<and> evidence_for lib ix nowSec ours absorbed row} (fst s)
     (fst (fold (evidence_row lib ix clock nowSec ours absorbed) need s))"
  by (rule fold_moves [OF shr.progress_axioms]) (rule shrinks_mono [OF evidence_row_shrinks], blast)

subsection \<open>The pass\<close>

lemma mono_collect:
  "getVaultVtxo (fst (collect_proofs s)) t n = getVaultVtxo (fst s) t n"
  by (simp add: collect_proofs_def case_prod_beta)

lemma syncProofs_phases:
  assumes run: "syncProofs lib ix clock nowSec ours coins d = (d', res)"
  obtains s1 s2 need s3 where
    "s1 = fold (sync_vtxo lib ix clock) coins (d, empty_result (length coins))"
    and "(s2, need) = fold (gc_row (set (map coin_key coins))) (listVaultVtxos (fst s1)) (s1, [])"
    and "s3 = fold (evidence_row lib ix clock nowSec ours (absorbed_set ix need coins)) need s2"
    and "(d', res) = collect_proofs s3"
    and "grows (set (map coin_key coins)) d (fst s1)"
    and "shrinks {k. k \<notin> set (map coin_key coins) \<and> swept_op d k} (fst s1) (fst s2)"
    and "need = filter (needs_evidence (set (map coin_key coins)) d) (listVaultVtxos (fst s1))"
    and "shrinks {k. \<exists>row \<in> set need. k = vtxo_key row
           \<and> evidence_for lib ix nowSec ours (absorbed_set ix need coins) row} (fst s2) (fst s3)"
proof -
  define live where "live = set (map coin_key coins)"
  define s1 where "s1 = fold (sync_vtxo lib ix clock) coins (d, empty_result (length coins))"
  obtain s2 need where p1: "fold (gc_row live) (listVaultVtxos (fst s1)) (s1, []) = (s2, need)" by fastforce
  define s3 where "s3 = fold (evidence_row lib ix clock nowSec ours (absorbed_set ix need coins)) need s2"
  have g: "grows live d (fst s1)"
    using fold_sync_grows [of coins "(d, empty_result (length coins))"] by (simp add: s1_def live_def)
  then have ops: "ops (fst s1) = ops d" by (simp add: grows_def)
  have eq: "swept_op (fst s1) = swept_op d" "needs_evidence live (fst s1) = needs_evidence live d"
    by (simp_all add: swept_op_def [abs_def] needs_evidence_def [abs_def] same_ops [OF ops])
  have "shrinks {k. k \<notin> live \<and> swept_op d k} (fst s1) (fst s2)"
    and "need = filter (needs_evidence live d) (listVaultVtxos (fst s1))"
    using fold_gc_facts [where live = live and st = "(s1, [])" and rows = "listVaultVtxos (fst s1)"]
    by (simp_all add: p1 eq)
  moreover have "(d', res) = collect_proofs s3"
    using run by (simp add: syncProofs_def s1_def [symmetric] live_def [symmetric] p1 s3_def Let_def del: set_map)
  moreover have "shrinks {k. \<exists>row \<in> set need. k = vtxo_key row
           \<and> evidence_for lib ix nowSec ours (absorbed_set ix need coins) row} (fst s2) (fst s3)"
    unfolding s3_def by (rule fold_evidence_shrinks)
  ultimately show thesis
    using that [of s1 s2 need s3] g s1_def s3_def p1 unfolding live_def by simp
qed

lemma set_listVault [simp]: "set (listVaultVtxos d) = set (vtxos d)"
  by (simp add: listVaultVtxos_def)

text \<open>C5: a pass forgets a mirrored vtxo only with evidence. A row that was in the vault before the pass
  and is gone after it is not in the wallet's live set, and either the operator's own completed
  exit of it explains it, or it is a wallet row no exit is in flight for and its disappearance is
  proved: the server's answer about it satisfies value conservation together with other missing
  wallet rows, or a spend carrying our own signature was verified. A failed or missing answer
  deletes nothing.\<close>

theorem sync_deletes_with_evidence:
  assumes "vault_wf d" and "syncProofs lib ix clock nowSec ours coins d = (d', res)"
    and "getVaultVtxo d txid vout = Some v" and "getVaultVtxo d' txid vout = None"
  shows "(txid, vout) \<notin> coin_key ` set coins
    \<and> ((\<exists>p. getExitOp d txid vout = Some p \<and> o_state p = Swept)
     \<or> (v_source v = Wallet_source \<and> (\<forall>p. getExitOp d txid vout = Some p \<longrightarrow> o_state p = Op_failed)
        \<and> ((\<exists>s. classifyDisappearance lib ix v ours nowSec = Inr (Spent_verified s))
         \<or> (\<exists>need listed. v \<in> set need
              \<and> (\<forall>w \<in> set need. w \<in> set (vtxos d) \<and> vtxo_key w \<notin> coin_key ` set coins \<and> v_source w = Wallet_source)
              \<and> ix_getVtxos ix (map vtxo_key need) = Inr listed
              \<and> okey (txid, vout) \<in> set (resolveAbsorbedByConservation (absorption_candidates listed need) coins)))))"
  using assms(2)
proof (cases rule: syncProofs_phases)
  case (1 s1 s2 need s3)
  let ?live = "set (map coin_key coins)"
  have gone: "getVaultVtxo (fst s3) txid vout = None"
    using assms(4) 1(4) mono_collect [of s3 txid vout] by (metis fst_conv)
  have same: "getVaultVtxo (fst s1) t n = getVaultVtxo d t n" if "(t, n) \<notin> ?live" for t n
    using 1(5) that unfolding grows_def by blast
  from 1(5) assms(3) obtain v1 where v1: "getVaultVtxo (fst s1) txid vout = Some v1"
    unfolding grows_def by blast
  have wf1: "vault_wf (fst s1)" using 1(5) assms(1) by (simp add: grows_def)
  show ?thesis
  proof (cases "getVaultVtxo (fst s2) txid vout")
    case None
    with 1(6) v1 have "(txid, vout) \<notin> ?live \<and> swept_op d (txid, vout)"
      unfolding shrinks_def by fastforce
    then show ?thesis by (simp add: swept_op_def)
  next
    case (Some v2)
    with 1(8) gone obtain row where row: "row \<in> set need" "vtxo_key row = (txid, vout)"
      "evidence_for lib ix nowSec ours (absorbed_set ix need coins) row"
      unfolding shrinks_def by fastforce
    from row(1) have ne: "needs_evidence ?live d row" and in1: "row \<in> set (vtxos (fst s1))"
      unfolding 1(7) by simp_all
    have nl: "(txid, vout) \<notin> ?live" using ne row(2) by (simp add: needs_evidence_def)
    have "getVaultVtxo (fst s1) txid vout = Some row"
      using getVaultVtxo_self [of "fst s1" row] wf1 in1 row(2) by (simp add: vault_wf_def vtxo_key_def)
    then have v: "row = v" using same [OF nl] assms(3) by simp
    have members: "w \<in> set (vtxos d) \<and> vtxo_key w \<notin> ?live \<and> v_source w = Wallet_source" if "w \<in> set need" for w
    proof -
      from that have w: "needs_evidence ?live d w" "w \<in> set (vtxos (fst s1))" unfolding 1(7) by simp_all
      then have "getVaultVtxo (fst s1) (v_txid w) (v_vout w) = Some w"
        using wf1 by (intro getVaultVtxo_self) (simp_all add: vault_wf_def)
      moreover have "(v_txid w, v_vout w) \<notin> ?live" using w(1) by (simp add: needs_evidence_def vtxo_key_def)
      ultimately have "getVaultVtxo d (v_txid w) (v_vout w) = Some w" using same by simp
      then have "w \<in> set (vtxos d)" using getVaultVtxo_row by blast
      with w(1) show ?thesis by (simp add: needs_evidence_def)
    qed
    have op: "\<forall>p. getExitOp d txid vout = Some p \<longrightarrow> o_state p = Op_failed" and src: "v_source v = Wallet_source"
      using ne row(2) v by (auto simp: needs_evidence_def vtxo_key_def)
    from row(3) v consider (spent) s where "classifyDisappearance lib ix v ours nowSec = Inr (Spent_verified s)"
      | (absorbed) "okey (txid, vout) \<in> set (absorbed_set ix need coins)"
      using row(2) by (auto simp: evidence_for_def)
    then show ?thesis
    proof cases
      case spent
      with nl op src show ?thesis by auto
    next
      case absorbed
      then obtain listed where "ix_getVtxos ix (map vtxo_key need) = Inr listed"
        "okey (txid, vout) \<in> set (resolveAbsorbedByConservation (absorption_candidates listed need) coins)"
        unfolding absorbed_set_def by (cases "ix_getVtxos ix (map vtxo_key need)") (auto split: if_splits)
      with nl op src members row(1) v show ?thesis by (auto intro!: exI [of _ need])
    qed
  qed
qed

lemma sample_vtxos: "vtxos sample_vault = [row_of_snapshot 100 sample_snapshot]"
  by (simp add: sample_vault_def storeVtxoWithProofs_def row_upsert_def empty_db_def)

lemma sample_row_fields [simp]:
  "v_source (row_of_snapshot now sample_snapshot) = Wallet_source"
  "v_valueSat (row_of_snapshot now sample_snapshot) = 1000"
  "v_expiresAt (row_of_snapshot now sample_snapshot) = Some 2000000000"
  "v_txid (row_of_snapshot now sample_snapshot) = ''c''" "v_vout (row_of_snapshot now sample_snapshot) = 0"
  "v_quarantinedAt (row_of_snapshot now sample_snapshot) = None"
  by (simp_all add: row_of_snapshot_def sample_snapshot_def vtxo_key_def vault_snapshot.defs)

lemma sample_key [simp]: "vtxo_key sample_snapshot = (''c'', 0)"
  by (simp add: sample_snapshot_def vtxo_key_def)

lemma sample_sync:
  "getVaultVtxo (fst (syncProofs sample_lib sample_ix 100 100 [2] [] sample_vault)) ''c'' 0 = None"
proof -
  have op: "getExitOp sample_vault ''c'' 0 = None"
    by (simp add: getExitOp_def sample_vault_def storeVtxoWithProofs_def empty_db_def)
  have list: "listVaultVtxos sample_vault = [row_of_snapshot 100 sample_snapshot]"
    by (simp add: listVaultVtxos_def sample_vtxos)
  have gc: "gc_row {} (row_of_snapshot 100 sample_snapshot) ((sample_vault, r), [])
      = ((sample_vault, r), [row_of_snapshot 100 sample_snapshot])" for r
    by (simp add: gc_row_def Let_def op)
  have none: "resolveAbsorbedByConservation cs [] = []" for cs
  proof -
    have "x \<notin> set (resolveAbsorbedByConservation cs [])" for x
      by (simp add: absorbed_iff accepted_def createdSat_def)
    then show ?thesis by (cases "resolveAbsorbedByConservation cs []") auto
  qed
  have ab: "absorbed_set sample_ix [row_of_snapshot 100 sample_snapshot] [] = []"
    by (simp add: absorbed_set_def sample_ix_def none)
  show ?thesis
    by (simp add: syncProofs_def Let_def list gc ab evidence_row_def sample_classify drop_row_def
        removeVtxo_def mono_collect getVaultVtxo_def vault_rows.row_get_delete collect_proofs_def
        gcOrphanProofs_def)
qed

theorem sync_deletes_with_evidence_witness:
  "\<exists>s. classifyDisappearance sample_lib sample_ix (row_of_snapshot 100 sample_snapshot) [2] 100 = Inr (Spent_verified s)"
proof -
  obtain d' res where run: "syncProofs sample_lib sample_ix 100 100 [2] [] sample_vault = (d', res)" by fastforce
  have wf: "vault_wf sample_vault"
    unfolding sample_vault_def by (rule wf_store) (simp add: vault_wf_def empty_db_def)
  have "getVaultVtxo d' ''c'' 0 = None" using sample_sync run by simp
  from sync_deletes_with_evidence [OF wf run sample_get this] show ?thesis
    using sample_classify by blast
qed

lemma collect_keeps:
  assumes "v \<in> set (vtxos d)" and "t \<in> set (proofTxidsOf (v_chain v))"
  shows "proof_of (fst (collect_proofs (d, r))) t = proof_of d t"
  using referenced_row [OF assms] by (simp add: collect_proofs_def case_prod_beta proof_of_gc)

lemma syncProofs_proofs:
  assumes "vault_wf d" and "syncProofs lib ix clock nowSec ours coins d = (d', res)"
  obtains s1 s3 :: pass where
    "s1 = fold (sync_vtxo lib ix clock) coins (d, empty_result (length coins))"
    and "grows (set (map coin_key coins)) d (fst s1)" and "labels lib d (fst s1)"
    and "vtxos d' = vtxos (fst s3)" and "proofs (fst s3) = proofs (fst s1)"
    and "\<And>v t. v \<in> set (vtxos d') \<Longrightarrow> t \<in> set (proofTxidsOf (v_chain v)) \<Longrightarrow> proof_of d' t = proof_of (fst s1) t"
    and "set (proofs d') \<subseteq> set (proofs (fst s1))"
    and "vault_wf (fst s3)"
  using assms(2)
proof (cases rule: syncProofs_phases)
  case (1 s1 s2 need s3)
  have "proofs (fst s3) = proofs (fst s1)" using 1(6,8) by (simp add: shrinks_def)
  then have pr: "proof_of (fst s3) t = proof_of (fst s1) t" for t by (simp add: proof_of_def)
  have d': "d' = snd (gcOrphanProofs (fst s3))"
    using 1(4) by (simp add: collect_proofs_def case_prod_beta)
  have "labels lib d (fst s1)"
    using fold_moves [OF lbl.progress_axioms, of coins lib "sync_vtxo lib ix clock" "(d, empty_result (length coins))"]
      sync_vtxo_labels by (simp add: 1(1))
  moreover have "proof_of d' t = proof_of (fst s1) t"
    if "v \<in> set (vtxos d')" "t \<in> set (proofTxidsOf (v_chain v))" for v t
    using referenced_row [of v "fst s3" t] that pr by (simp add: d' proof_of_gc)
  moreover have "set (proofs d') \<subseteq> set (proofs (fst s1))"
    using \<open>proofs (fst s3) = proofs (fst s1)\<close> by (auto simp: d' gcOrphanProofs_def Let_def)
  moreover have "vault_wf (fst s3)" using 1(5,6,8) assms(1) by (simp add: grows_def shrinks_def)
  ultimately show thesis using that [of s1 s3] 1(1,5) d' \<open>proofs (fst s3) = proofs (fst s1)\<close> by simp
qed

text \<open>A pass never damages exit material: every transaction a remaining row needs that was stored
  before the pass is stored after it with the same bytes, and every proof the pass adds is filed
  under the id its own payload decodes to, never under the id it was asked for.\<close>

theorem sync_keeps_material:
  assumes "vault_wf d" and "syncProofs lib ix clock nowSec ours coins d = (d', res)"
  shows "(\<forall>v \<in> set (vtxos d'). \<forall>t \<in> set (proofTxidsOf (v_chain v)). \<forall>b.
       proof_of d t = Some b \<longrightarrow> proof_of d' t = Some b)
    \<and> (\<forall>p \<in> set (proofs d'). p \<in> set (proofs d) \<or>
         (p_psbt p \<noteq> [] \<and> (\<exists>tx. fromPSBT lib (p_psbt p) = Some tx \<and> tx_id tx = p_txid p)))
    \<and> vault_wf d'"
  using assms(2)
proof (cases rule: syncProofs_proofs [OF assms(1), consumes 1])
  case (1 s1 s3)
  have "vault_wf d'"
    using assms(2)
  proof (cases rule: syncProofs_phases)
    case (1 s1 s2 need s3)
    then have "d' = snd (gcOrphanProofs (fst s3))" "vault_wf (fst s3)"
      using assms(1) by (simp_all add: collect_proofs_def case_prod_beta grows_def shrinks_def)
    then show ?thesis by (simp add: wf_gc)
  qed
  moreover have "proof_of d' t = Some b"
    if "v \<in> set (vtxos d')" "t \<in> set (proofTxidsOf (v_chain v))" "proof_of d t = Some b" for v t b
    using 1(6) [OF that(1,2)] 1(2) that(3) by (simp add: grows_def)
  moreover have "p \<in> set (proofs d) \<or> (p_psbt p \<noteq> [] \<and> (\<exists>tx. fromPSBT lib (p_psbt p) = Some tx \<and> tx_id tx = p_txid p))"
    if "p \<in> set (proofs d')" for p
    using 1(3,7) that unfolding labels_def labelled_proof_def by blast
  ultimately show ?thesis by blast
qed

theorem sync_keeps_material_witness:
  "\<exists>d' res. syncProofs sample_lib sample_ix 100 100 [2] [] sample_vault = (d', res) \<and> vault_wf d'"
proof -
  obtain d' res where run: "syncProofs sample_lib sample_ix 100 100 [2] [] sample_vault = (d', res)" by fastforce
  have wf: "vault_wf sample_vault"
    unfolding sample_vault_def by (rule wf_store) (simp add: vault_wf_def empty_db_def)
  from sync_keeps_material [OF wf run] run show ?thesis by blast
qed

subsection \<open>What a synced vtxo has\<close>

definition mirrored :: "db \<Rightarrow> string \<times> nat \<Rightarrow> bool" where
  "mirrored d k \<longleftrightarrow> (\<exists>row. getVaultVtxo d (fst k) (snd k) = Some row
     \<and> (\<forall>t \<in> set (proofTxidsOf (v_chain row)). proof_of d t \<noteq> None))"

lemma mirrored_grows: "grows K d d' \<Longrightarrow> k \<notin> K \<Longrightarrow> mirrored d k \<Longrightarrow> mirrored d' k"
  unfolding grows_def mirrored_def by (metis not_None_eq prod.collapse)

lemma row_get_gathered:
  assumes "t \<in> set missing" and "served fetched t"
  shows "row_get p_txid t (fst (gather_proofs chain fetched missing)) \<noteq> None"
proof -
  have "t \<in> p_txid ` set (fst (gather_proofs chain fetched missing))"
    using assms by (force simp: gather_proofs_def)
  then show ?thesis by (simp add: proof_rows.row_get_None)
qed

lemma store_mirrored:
  assumes "snd (gather_proofs chain fetched (missingProofTxids d chain)) = []"
  shows "mirrored (storeVtxoWithProofs clock (toSnapshot v chain)
           (fst (gather_proofs chain fetched (missingProofTxids d chain))) d) (coin_key v)"
proof -
  let ?ps = "fst (gather_proofs chain fetched (missingProofTxids d chain))"
  have all: "served fetched t" if "t \<in> set (missingProofTxids d chain)" for t
    using assms that by (simp add: gather_proofs_def filter_empty_conv)
  have "proof_of (storeVtxoWithProofs clock (toSnapshot v chain) ?ps d) t \<noteq> None"
    if "t \<in> set (proofTxidsOf chain)" for t
  proof (cases "proof_of d t")
    case None
    then have "t \<in> set (missingProofTxids d chain)" using that by (simp add: missingProofTxids_eq)
    with row_get_gathered [OF this all] None show ?thesis by (simp add: proof_of_store)
  qed (simp add: proof_of_store)
  moreover have "\<exists>row. getVaultVtxo (storeVtxoWithProofs clock (toSnapshot v chain) ?ps d) (c_txid v) (c_vout v)
      = Some row \<and> v_chain row = chain"
  proof -
    have "v_chain (toSnapshot v chain) = chain" by (simp add: toSnapshot_def)
    then show ?thesis
      by (simp add: get_store coin_key_def row_of_snapshot_def replace_snapshot_def
          vault_snapshot.defs split: option.split)
  qed
  ultimately show ?thesis by (auto simp: mirrored_def coin_key_def)
qed

lemma sync_vtxo_synced:
  "(r_synced (snd (sync_vtxo lib ix clock v s)) = r_synced (snd s))
   \<or> (r_synced (snd (sync_vtxo lib ix clock v s)) = r_synced (snd s) @ [okey (coin_key v)]
        \<and> mirrored (fst (sync_vtxo lib ix clock v s)) (coin_key v))"
  using store_mirrored
  by (simp add: sync_vtxo_def Let_def case_prod_beta fail_row_def split: sum.split)

lemma okey_inj: "okey k = okey k' \<longleftrightarrow> k = k'"
  by (cases k; cases k') (simp add: okey_def)

lemma fold_synced:
  assumes "distinct (map coin_key coins)"
  shows "\<forall>k. okey k \<in> set (r_synced (snd (fold (sync_vtxo lib ix clock) coins (d, empty_result n)))) \<longrightarrow>
     k \<in> coin_key ` set coins \<and> mirrored (fst (fold (sync_vtxo lib ix clock) coins (d, empty_result n))) k"
  using assms
proof (induction coins rule: rev_induct)
  case Nil
  then show ?case by (simp add: empty_result_def)
next
  case (snoc v coins)
  let ?s = "fold (sync_vtxo lib ix clock) coins (d, empty_result n)"
  let ?s' = "sync_vtxo lib ix clock v ?s"
  have new: "coin_key v \<notin> coin_key ` set coins" using snoc.prems by simp
  have "distinct (map coin_key coins)" using snoc.prems by simp
  from snoc.IH [OF this]
  have IH: "okey k \<in> set (r_synced (snd ?s)) \<Longrightarrow> k \<in> coin_key ` set coins \<and> mirrored (fst ?s) k" for k
    by blast
  have kept: "okey k \<in> set (r_synced (snd ?s)) \<Longrightarrow> mirrored (fst ?s') k" for k
    using IH [of k] new by (intro mirrored_grows [OF sync_vtxo_grows]) (metis singletonD, blast)
  show ?case
    using sync_vtxo_synced [of lib ix clock v ?s] IH kept by (auto simp: okey_inj)
qed

lemma gc_row_synced: "r_synced (snd (fst (gc_row live row st))) = r_synced (snd (fst st))"
  by (simp add: gc_row_def Let_def case_prod_beta split: option.split)

lemma evidence_row_synced: "r_synced (snd (evidence_row lib ix clock nowSec ours absorbed row s)) = r_synced (snd s)"
  by (simp add: evidence_row_def Let_def case_prod_beta drop_row_def fail_row_def
      split: sum.split disappearance.split)

lemma fold_gc_synced: "r_synced (snd (fst (fold (gc_row live) rows st))) = r_synced (snd (fst st))"
  by (induction rows arbitrary: st) (simp_all add: gc_row_synced)

lemma fold_evidence_synced:
  "r_synced (snd (fold (evidence_row lib ix clock nowSec ours absorbed) need s)) = r_synced (snd s)"
  by (induction need arbitrary: s) (simp_all add: evidence_row_synced)

text \<open>What a pass reports as synced is exitable material at its end: the outpoint is one of the
  live ones, its row is in the vault with every transaction of its chain stored, and it is
  exit-ready unless the chain the indexer served is itself broken.\<close>

theorem synced_is_mirrored:
  assumes "vault_wf d" and "distinct (map coin_key coins)"
    and "syncProofs lib ix clock nowSec ours coins d = (d', res)"
    and "okey (txid, vout) \<in> set (r_synced res)"
  shows "(txid, vout) \<in> coin_key ` set coins
    \<and> (\<exists>row. getVaultVtxo d' txid vout = Some row \<and> missingProofTxids d' (v_chain row) = []
         \<and> (isVtxoExitReady d' txid vout \<longleftrightarrow> danglingEntries (v_chain row) = []))"
  using assms(3)
proof (cases rule: syncProofs_phases)
  case (1 s1 s2 need s3)
  let ?live = "set (map coin_key coins)"
  have "r_synced res = r_synced (snd s3)"
    using 1(4) by (simp add: collect_proofs_def case_prod_beta)
  also have "\<dots> = r_synced (snd s2)" by (simp add: 1(3) fold_evidence_synced)
  also have "\<dots> = r_synced (snd s1)"
    using fold_gc_synced [of ?live "listVaultVtxos (fst s1)" "(s1, [])"] 1(2) by (metis fst_conv)
  finally have synced: "okey (txid, vout) \<in> set (r_synced (snd s1))" using assms(4) by simp
  then have k: "(txid, vout) \<in> coin_key ` set coins" and m: "mirrored (fst s1) (txid, vout)"
    using fold_synced [OF assms(2), of lib ix clock d "length coins"] unfolding 1(1) by blast+
  then obtain row where row: "getVaultVtxo (fst s1) txid vout = Some row"
    "\<forall>t \<in> set (proofTxidsOf (v_chain row)). proof_of (fst s1) t \<noteq> None" by (auto simp: mirrored_def)
  have live: "(txid, vout) \<in> ?live" using k by simp
  then have "(txid, vout) \<notin> {k. k \<notin> ?live \<and> swept_op d k}" by blast
  from shrinks_kept [OF 1(6) row(1) this]
  obtain v2 where v2: "getVaultVtxo (fst s2) txid vout = Some v2" "same_core row v2" by blast
  have "(txid, vout) \<notin> vtxo_key ` set need"
    using live unfolding 1(7) by (auto simp: needs_evidence_def)
  then have "(txid, vout) \<notin> {k. \<exists>row \<in> set need. k = vtxo_key row
      \<and> evidence_for lib ix nowSec ours (absorbed_set ix need coins) row}" by blast
  from shrinks_kept [OF 1(8) v2(1) this]
  obtain v3 where v3: "getVaultVtxo (fst s3) txid vout = Some v3" "same_core v2 v3" by blast
  have d': "d' = snd (gcOrphanProofs (fst s3))"
    using 1(4) by (simp add: collect_proofs_def case_prod_beta)
  have chain: "v_chain v3 = v_chain row" using v2(2) v3(2) by (simp add: same_core_def)
  have pr: "proof_of (fst s3) t = proof_of (fst s1) t" for t
    using 1(6,8) by (simp add: shrinks_def proof_of_def)
  have "proof_of d' t \<noteq> None" if "t \<in> set (proofTxidsOf (v_chain v3))" for t
    using that row(2) chain pr referenced_row [of v3 "fst s3" t] getVaultVtxo_row [OF v3(1)]
    by (simp add: d' proof_of_gc)
  then have "missingProofTxids d' (v_chain v3) = []"
    by (simp add: missingProofTxids_eq filter_empty_conv)
  moreover have "getVaultVtxo d' txid vout = Some v3" using v3(1) by (simp add: d')
  ultimately show ?thesis using k by (auto simp: isVtxoExitReady_def)
qed

definition sample_wallet_coin :: vcoin where
  "sample_wallet_coin = sample_live\<lparr>c_txid := ''a1'', c_commitmentTxIds := None\<rparr>"

definition sample_ix2 :: asp_indexer where
  "sample_ix2 = sample_ix\<lparr>ix_getVtxoChain := (\<lambda>t n. Inr [\<lparr>ct_txid = ''a'', ct_type = COMMITMENT, ct_spends = None\<rparr>])\<rparr>"

lemma sample_sync2:
  "r_synced (snd (syncProofs sample_lib sample_ix2 100 100 [2] [sample_wallet_coin] empty_db)) = [okey (''a1'', 0)]"
proof -
  have key: "coin_key sample_wallet_coin = (''a1'', 0)" "c_txid sample_wallet_coin = ''a1''" "c_vout sample_wallet_coin = 0"
    by (simp_all add: coin_key_def sample_wallet_coin_def sample_live_def)
  have g: "getVaultVtxo empty_db t n = None" for t n by (simp add: getVaultVtxo_def empty_db_def)
  have missing: "missingProofTxids empty_db [\<lparr>ct_txid = ''a'', ct_type = COMMITMENT, ct_spends = None\<rparr>] = []"
    by (simp add: missingProofTxids_eq proofTxidsOf_def)
  have "r_synced (snd (sync_vtxo sample_lib sample_ix2 100 sample_wallet_coin (empty_db, empty_result 1)))
      = [okey (''a1'', 0)]"
    by (simp add: sync_vtxo_def Let_def g key fetchChain_def sample_ix2_def missing fetchProofPsbts_def
        gather_proofs_def empty_result_def)
  then show ?thesis
    by (simp add: syncProofs_def Let_def case_prod_beta collect_proofs_def fold_evidence_synced fold_gc_synced)
qed

theorem synced_is_mirrored_witness:
  "\<exists>row. getVaultVtxo (fst (syncProofs sample_lib sample_ix2 100 100 [2] [sample_wallet_coin] empty_db)) ''a1'' 0 = Some row"
proof -
  obtain d' res where run: "syncProofs sample_lib sample_ix2 100 100 [2] [sample_wallet_coin] empty_db = (d', res)"
    by fastforce
  have "vault_wf empty_db" by (simp add: vault_wf_def empty_db_def)
  moreover have "distinct (map coin_key [sample_wallet_coin])" by simp
  moreover have "okey (''a1'', 0) \<in> set (r_synced res)" using sample_sync2 run by simp
  ultimately show ?thesis using synced_is_mirrored [OF _ _ run] run by auto
qed

end
