(* ===== verification/Exit_Estimate.thy ===== *)
theory Exit_Estimate
  imports Exit_Vault Coin_Select Complex_Main
begin

text \<open>
  The price of an exit, \<open>src/exit/estimate.ts\<close>, and the memoised oracle the spend paths select
  coins with, \<open>src/exit/cost_oracle.ts\<close>. Sizes measured by the SDK (a finalized proof, the CPFP
  child, the sweep input of a tap tree) are the fields of \<open>size_lib\<close>; a fee rate is a rational.
\<close>

record size_lib =
  finalizedVsize :: "chain_tx_type \<Rightarrow> string \<Rightarrow> int option"
  cpfpChildVb :: int
  sweepVbOf :: "string \<Rightarrow> int"

record tx_estimate =
  et_txid :: string
  et_type :: chain_tx_type
  et_vsize :: int

record exit_estimate =
  ee_valueSat :: int
  ee_txs :: "tx_estimate list"
  ee_packages :: int
  ee_parentVb :: int
  ee_childVb :: int
  ee_unrollVb :: int
  ee_sweepVb :: int
  ee_totalVb :: int
  ee_feeRateSatVb :: int
  ee_unrollFeeSat :: int
  ee_sweepFeeSat :: int
  ee_totalFeeSat :: int
  ee_feePctOfValue :: "int option"
  ee_uneconomical :: bool
  ee_proofComplete :: bool
  ee_ancestryComplete :: bool

definition storedTxVsize :: "size_lib \<Rightarrow> db \<Rightarrow> string \<Rightarrow> chain_tx_type \<Rightarrow> int option" where
  "storedTxVsize sz d txid ty = (case getProofPsbts d [txid] txid of
     None \<Rightarrow> None | Some psbt \<Rightarrow> if psbt = [] then None else finalizedVsize sz ty psbt)"

definition typeOf :: "chain_tx list \<Rightarrow> string \<Rightarrow> chain_tx_type" where
  "typeOf chain txid = the (map_of (rev (map (\<lambda>c. (ct_txid c, ct_type c)) chain)) txid)"

text \<open>The measuring loop: \<open>None\<close> is the throw of a proof that cannot be finalized; otherwise the
  sizes and whether every proof was there.\<close>

fun measure_txs ::
  "size_lib \<Rightarrow> chain_tx list \<Rightarrow> (string \<rightharpoonup> string) \<Rightarrow> string list \<Rightarrow> (tx_estimate list \<times> bool) option" where
  "measure_txs sz chain psbts [] = Some ([], True)"
| "measure_txs sz chain psbts (i # ids) =
     (if psbts i = None \<or> psbts i = Some []
      then map_option (\<lambda>(es, ok). (es, False)) (measure_txs sz chain psbts ids)
      else (case finalizedVsize sz (typeOf chain i) (the (psbts i)) of
          None \<Rightarrow> None
        | Some vs \<Rightarrow> map_option (\<lambda>(es, ok). (\<lparr>et_txid = i, et_type = typeOf chain i, et_vsize = vs\<rparr> # es, ok))
            (measure_txs sz chain psbts ids)))"

definition fee_pct :: "int \<Rightarrow> int \<Rightarrow> int option" where
  "fee_pct fee amount = (if amount > 0
     then Some \<lfloor>of_int fee / of_int amount * 100 + (1/2 :: rat)\<rfloor> else None)"

definition estimateExit :: "size_lib \<Rightarrow> db \<Rightarrow> string \<Rightarrow> nat \<Rightarrow> rat \<Rightarrow> err + exit_estimate option" where
  "estimateExit sz d txid vout feeRateSatVb = (case getVaultVtxo d txid vout of
     None \<Rightarrow> Inr None
   | Some v \<Rightarrow>
      (let wanted = js_set (proofTxidsOf (v_chain v)); psbts = getProofPsbts d wanted in
       case measure_txs sz (v_chain v) psbts wanted of
         None \<Rightarrow> Inl (Error ''proof cannot be finalized'')
       | Some (es, proofComplete) \<Rightarrow>
          (let rate = max 1 \<lceil>feeRateSatVb\<rceil>;
               childVb = cpfpChildVb sz;
               parentVb = sum_list (map et_vsize es);
               unrollVb = parentVb + childVb * int (length es);
               sweepVb = sweepVbOf sz (v_tapTree v);
               totalVb = unrollVb + sweepVb;
               unrollFeeSat = unrollVb * rate;
               sweepFeeSat = sweepVb * rate;
               totalFeeSat = unrollFeeSat + sweepFeeSat
           in Inr (Some \<lparr>ee_valueSat = v_valueSat v, ee_txs = es, ee_packages = int (length es),
                ee_parentVb = parentVb, ee_childVb = childVb, ee_unrollVb = unrollVb, ee_sweepVb = sweepVb,
                ee_totalVb = totalVb, ee_feeRateSatVb = rate, ee_unrollFeeSat = unrollFeeSat,
                ee_sweepFeeSat = sweepFeeSat, ee_totalFeeSat = totalFeeSat,
                ee_feePctOfValue = fee_pct totalFeeSat (v_valueSat v),
                ee_uneconomical = (totalFeeSat \<ge> v_valueSat v), ee_proofComplete = proofComplete,
                ee_ancestryComplete = (danglingEntries (v_chain v) = [])\<rparr>))))"

definition EXIT_REF_RATE_SAT_VB :: rat where "EXIT_REF_RATE_SAT_VB = 5"

text \<open>One call of the oracle: the cost and the memo after it.\<close>

definition oracle_call :: "size_lib \<Rightarrow> db \<Rightarrow> (string \<rightharpoonup> int) \<Rightarrow> vcoin \<Rightarrow> int \<times> (string \<rightharpoonup> int)" where
  "oracle_call sz d memo c =
     (let key = outpoint_key (c_txid c) (c_vout c) in
      case memo key of
        Some hit \<Rightarrow> (hit, memo)
      | None \<Rightarrow>
         (let cost = (case estimateExit sz d (c_txid c) (c_vout c) EXIT_REF_RATE_SAT_VB of
              Inl e \<Rightarrow> 0
            | Inr None \<Rightarrow> 0
            | Inr (Some e) \<Rightarrow> ee_totalFeeSat e)
          in (cost, memo(key \<mapsto> cost))))"

definition exitCostOracle :: "size_lib \<Rightarrow> db \<Rightarrow> vcoin \<Rightarrow> int" where
  "exitCostOracle sz d c = fst (oracle_call sz d Map.empty c)"

fun oracle_run :: "size_lib \<Rightarrow> db \<Rightarrow> (string \<rightharpoonup> int) \<Rightarrow> vcoin list \<Rightarrow> int list" where
  "oracle_run sz d memo [] = []"
| "oracle_run sz d memo (c # cs) =
     (let (cost, memo') = oracle_call sz d memo c in cost # oracle_run sz d memo' cs)"

subsection \<open>The memo is transparent\<close>

definition memo_ok :: "size_lib \<Rightarrow> db \<Rightarrow> (string \<rightharpoonup> int) \<Rightarrow> bool" where
  "memo_ok sz d memo \<longleftrightarrow> (\<forall>(c :: vcoin) n. memo (outpoint_key (c_txid c) (c_vout c)) = Some n \<longrightarrow> n = exitCostOracle sz d c)"

lemma exitCost_key:
  "c_txid c = c_txid c' \<Longrightarrow> c_vout c = c_vout c' \<Longrightarrow> exitCostOracle sz d c = exitCostOracle sz d c'"
  by (simp add: exitCostOracle_def oracle_call_def)

lemma oracle_call_ok:
  assumes "memo_ok sz d memo"
  shows "fst (oracle_call sz d memo c) = exitCostOracle sz d c \<and> memo_ok sz d (snd (oracle_call sz d memo c))"
proof (cases "memo (outpoint_key (c_txid c) (c_vout c))")
  case None
  then have "oracle_call sz d memo c = (exitCostOracle sz d c, memo(outpoint_key (c_txid c) (c_vout c) \<mapsto> exitCostOracle sz d c))"
    by (simp add: oracle_call_def exitCostOracle_def Let_def)
  moreover have "memo_ok sz d (memo(outpoint_key (c_txid c) (c_vout c) \<mapsto> exitCostOracle sz d c))"
    unfolding memo_ok_def
  proof (intro allI impI)
    fix c' :: vcoin and n
    assume hit: "(memo(outpoint_key (c_txid c) (c_vout c) \<mapsto> exitCostOracle sz d c))
        (outpoint_key (c_txid c') (c_vout c')) = Some n"
    show "n = exitCostOracle sz d c'"
    proof (cases "c_txid c' = c_txid c \<and> c_vout c' = c_vout c")
      case True
      with hit exitCost_key [of c c' sz d] show ?thesis by simp
    next
      case False
      with hit assms show ?thesis by (auto simp: memo_ok_def)
    qed
  qed
  ultimately show ?thesis by simp
next
  case (Some n)
  with assms show ?thesis by (simp add: oracle_call_def memo_ok_def)
qed

lemma oracle_run_pure: "memo_ok sz d memo \<Longrightarrow> oracle_run sz d memo cs = map (exitCostOracle sz d) cs"
proof (induction cs arbitrary: memo)
  case (Cons c cs)
  obtain cost memo' where call: "oracle_call sz d memo c = (cost, memo')" by fastforce
  with oracle_call_ok [OF Cons.prems, of c] have "cost = exitCostOracle sz d c" "memo_ok sz d memo'" by simp_all
  with call Cons.IH show ?case by simp
qed simp

subsection \<open>What an estimate says\<close>

lemma measure_txs_Some:
  "measure_txs sz chain psbts ids = Some (es, ok) \<Longrightarrow>
     map et_txid es = filter (\<lambda>i. psbts i \<noteq> None \<and> psbts i \<noteq> Some []) ids
     \<and> (ok \<longleftrightarrow> (\<forall>i \<in> set ids. psbts i \<noteq> None \<and> psbts i \<noteq> Some []))
     \<and> (\<forall>e \<in> set es. finalizedVsize sz (et_type e) (the (psbts (et_txid e))) = Some (et_vsize e))"
proof (induction ids arbitrary: es ok)
  case (Cons i ids)
  show ?case
  proof (cases "psbts i = None \<or> psbts i = Some []")
    case True
    with Cons.prems obtain ok' where "measure_txs sz chain psbts ids = Some (es, ok')" "ok = False"
      by (auto simp: map_option_case split: option.splits)
    with Cons.IH [of es ok'] True show ?thesis by auto
  next
    case False
    with Cons.prems obtain vs es' where
      m: "finalizedVsize sz (typeOf chain i) (the (psbts i)) = Some vs"
        "measure_txs sz chain psbts ids = Some (es', ok)"
        "es = \<lparr>et_txid = i, et_type = typeOf chain i, et_vsize = vs\<rparr> # es'"
      by (auto simp: map_option_case split: option.splits)
    from Cons.IH [OF m(2)] m(1,3) False show ?thesis by auto
  qed
qed simp

lemma estimateExit_cases:
  assumes "estimateExit sz d txid vout rate = Inr (Some e)"
  obtains v es ok where "getVaultVtxo d txid vout = Some v"
    and "measure_txs sz (v_chain v) (getProofPsbts d (js_set (proofTxidsOf (v_chain v))))
           (js_set (proofTxidsOf (v_chain v))) = Some (es, ok)"
    and "ee_txs e = es" and "ee_proofComplete e = ok" and "ee_valueSat e = v_valueSat v"
    and "ee_totalFeeSat e = (sum_list (map et_vsize es) + cpfpChildVb sz * int (length es)
           + sweepVbOf sz (v_tapTree v)) * max 1 \<lceil>rate\<rceil>"
    and "ee_uneconomical e \<longleftrightarrow> v_valueSat v \<le> ee_totalFeeSat e"
    and "ee_ancestryComplete e \<longleftrightarrow> danglingEntries (v_chain v) = []"
  using assms by (auto simp: estimateExit_def Let_def algebra_simps split: option.splits)

text \<open>The estimate and the exit gate agree. With no empty proof stored, an exit is priced from a
  complete chain exactly when the vault calls the vtxo exit-ready; every stored transaction of the
  chain is measured once however often the ancestry repeats it; the fee is the measured size of the
  packages, their children and the sweep at a rate of at least one, and the warning is raised
  exactly when it eats the value; it never falls when the rate rises.\<close>

theorem estimate_matches_gate:
  assumes "estimateExit sz d txid vout rate = Inr (Some e)" and "\<forall>p \<in> set (proofs d). p_psbt p \<noteq> []"
  shows "(ee_proofComplete e \<and> ee_ancestryComplete e \<longleftrightarrow> isVtxoExitReady d txid vout)
    \<and> distinct (map et_txid (ee_txs e))
    \<and> (\<exists>v. getVaultVtxo d txid vout = Some v
         \<and> set (map et_txid (ee_txs e)) = {t \<in> set (proofTxidsOf (v_chain v)). proof_of d t \<noteq> None}
         \<and> ee_totalFeeSat e = (sum_list (map et_vsize (ee_txs e)) + cpfpChildVb sz * int (length (ee_txs e))
              + sweepVbOf sz (v_tapTree v)) * max 1 \<lceil>rate\<rceil>)
    \<and> (ee_uneconomical e \<longleftrightarrow> ee_valueSat e \<le> ee_totalFeeSat e)
    \<and> (\<forall>rate' e'. rate \<le> rate' \<and> 0 \<le> ee_totalFeeSat e \<and> estimateExit sz d txid vout rate' = Inr (Some e')
         \<longrightarrow> ee_totalFeeSat e \<le> ee_totalFeeSat e')"
  using assms(1)
proof (cases rule: estimateExit_cases)
  case (1 v es ok)
  have nonempty: "proof_of d t \<noteq> Some []" for t
    using assms(2) proof_rows.row_get_Some [of t "proofs d"] by (auto simp: proof_of_def)
  have ms: "map et_txid es = filter (\<lambda>i. proof_of d i \<noteq> None) (js_set (proofTxidsOf (v_chain v)))"
    and ok: "ok \<longleftrightarrow> (\<forall>i \<in> set (proofTxidsOf (v_chain v)). proof_of d i \<noteq> None)"
    using measure_txs_Some [OF 1(2)] nonempty
    by (auto simp: getProofPsbts_eq intro!: filter_cong)
  have "distinct (map et_txid es)" unfolding ms by simp
  moreover have "set (map et_txid es) = {t \<in> set (proofTxidsOf (v_chain v)). proof_of d t \<noteq> None}"
    unfolding ms by auto
  moreover have "isVtxoExitReady d txid vout \<longleftrightarrow> ok \<and> danglingEntries (v_chain v) = []"
    using 1(1) by (simp add: isVtxoExitReady_def missingProofTxids_eq filter_empty_conv ok)
  moreover have "ee_totalFeeSat e \<le> ee_totalFeeSat e'"
    if "rate \<le> rate'" "0 \<le> ee_totalFeeSat e" "estimateExit sz d txid vout rate' = Inr (Some e')" for rate' e'
    using that(3)
  proof (cases rule: estimateExit_cases)
    case (1 v' es' ok')
    let ?vb = "sum_list (map et_vsize es) + cpfpChildVb sz * int (length es) + sweepVbOf sz (v_tapTree v)"
    have same: "v' = v" "es' = es" using 1(1,2) \<open>getVaultVtxo d txid vout = Some v\<close>
      \<open>measure_txs sz (v_chain v) _ _ = Some (es, ok)\<close> by auto
    have e: "ee_totalFeeSat e = ?vb * max 1 \<lceil>rate\<rceil>" by (fact \<open>ee_totalFeeSat e = _\<close>)
    then have "0 \<le> ?vb" using that(2) by (auto simp: zero_le_mult_iff)
    moreover have "max 1 \<lceil>rate\<rceil> \<le> max 1 \<lceil>rate'\<rceil>" using that(1) by (simp add: ceiling_mono max.coboundedI2)
    ultimately show ?thesis using e 1(6) same by (simp add: mult_left_mono)
  qed
  ultimately show ?thesis using 1 by auto
qed

definition sample_sizes_lib :: size_lib where
  "sample_sizes_lib = \<lparr>finalizedVsize = (\<lambda>ty b. Some 150), cpfpChildVb = 160, sweepVbOf = (\<lambda>t. 110)\<rparr>"

lemma sample_wanted: "js_set (proofTxidsOf sample_chain) = [''c'', ''b'']"
  by (simp add: sample_chain_def proofTxidsOf_def js_set_def)

theorem estimate_matches_gate_witness:
  "\<exists>e. estimateExit sample_sizes_lib sample_vault ''c'' 0 5 = Inr (Some e) \<and> ee_proofComplete e"
proof -
  have "proof_of sample_vault ''c'' = Some ''cHNidA''" "proof_of sample_vault ''b'' = Some ''cHNidB''"
    by (simp_all add: sample_vault_def storeVtxoWithProofs_def empty_db_def insert_proof_def proof_of_def)
  then have "\<exists>e. estimateExit sample_sizes_lib sample_vault ''c'' 0 5 = Inr (Some e)"
    by (simp add: estimateExit_def sample_get sample_proofs(1) Let_def sample_wanted getProofPsbts_eq
        sample_sizes_lib_def)
  then obtain e where e: "estimateExit sample_sizes_lib sample_vault ''c'' 0 5 = Inr (Some e)" by blast
  have "\<forall>p \<in> set (proofs sample_vault). p_psbt p \<noteq> []"
    by (simp add: sample_vault_def storeVtxoWithProofs_def empty_db_def insert_proof_def)
  from estimate_matches_gate [OF e this] sample_vault_ready e show ?thesis by blast
qed

text \<open>The price of a coin is a function of the vault alone: one selection pass asks the memoised
  oracle in any order and any number of times and gets for every coin the price a fresh oracle
  would give; a coin the vault cannot price costs nothing.\<close>

theorem oracle_transparent:
  "oracle_run sz d Map.empty cs = map (exitCostOracle sz d) cs
   \<and> (getVaultVtxo d (c_txid c) (c_vout c) = None \<longrightarrow> exitCostOracle sz d c = 0)"
proof -
  have "memo_ok sz d Map.empty" by (simp add: memo_ok_def)
  from oracle_run_pure [OF this] show ?thesis
    by (simp add: exitCostOracle_def oracle_call_def estimateExit_def)
qed

theorem oracle_transparent_witness:
  "exitCostOracle sample_sizes_lib empty_db (sample_coin ''aa'' 500) = 0"
  using oracle_transparent [of sample_sizes_lib empty_db "[]" "sample_coin ''aa'' 500"]
  by (simp add: getVaultVtxo_def empty_db_def)

end
