(* ===== verification/Eff_Logic.thy ===== *)
theory Eff_Logic
  imports Bridge_Types
begin

text \<open>
  Reasoning about handlers. \<open>triple P m Q E\<close>: a run of \<open>m\<close> from a state satisfying \<open>P\<close> either
  returns with \<open>Q\<close> or throws with \<open>E\<close>. The rules follow the combinators of the effects; what the
  calls to the world leave alone is stated once, as the relation \<open>same_books\<close>.
\<close>

definition triple ::
  "('s \<Rightarrow> bool) \<Rightarrow> ('e, 's, 'a) eff \<Rightarrow> ('a \<Rightarrow> 's \<Rightarrow> bool) \<Rightarrow> ('e \<Rightarrow> 's \<Rightarrow> bool) \<Rightarrow> bool" where
  "triple P m Q E \<longleftrightarrow> (\<forall>s. P s \<longrightarrow> (case m s of (Inr x, t) \<Rightarrow> Q x t | (Inl e, t) \<Rightarrow> E e t))"

lemma tripleI:
  "(\<And>s x t. P s \<Longrightarrow> m s = (Inr x, t) \<Longrightarrow> Q x t) \<Longrightarrow> (\<And>s e t. P s \<Longrightarrow> m s = (Inl e, t) \<Longrightarrow> E e t) \<Longrightarrow> triple P m Q E"
  unfolding triple_def by (auto split: prod.split sum.split)

lemma triple_Inr: "triple P m Q E \<Longrightarrow> P s \<Longrightarrow> m s = (Inr x, t) \<Longrightarrow> Q x t"
  by (auto simp: triple_def split: prod.splits sum.splits)

lemma triple_Inl: "triple P m Q E \<Longrightarrow> P s \<Longrightarrow> m s = (Inl e, t) \<Longrightarrow> E e t"
  by (auto simp: triple_def split: prod.splits sum.splits)

lemma triple_conseq:
  "triple P' m Q' E' \<Longrightarrow> (\<And>s. P s \<Longrightarrow> P' s) \<Longrightarrow> (\<And>x s. Q' x s \<Longrightarrow> Q x s) \<Longrightarrow> (\<And>e s. E' e s \<Longrightarrow> E e s)
   \<Longrightarrow> triple P m Q E"
  by (rule tripleI) (blast dest: triple_Inr triple_Inl)+

lemma triple_ret: "(\<And>s. P s \<Longrightarrow> Q x s) \<Longrightarrow> triple P (ret x) Q E"
  by (simp add: triple_def)

lemma triple_throw: "(\<And>s. P s \<Longrightarrow> E e s) \<Longrightarrow> triple P (throw e) Q E"
  by (simp add: triple_def)

lemma triple_lift:
  "(\<And>x s. P s \<Longrightarrow> r = Inr x \<Longrightarrow> Q x s) \<Longrightarrow> (\<And>e s. P s \<Longrightarrow> r = Inl e \<Longrightarrow> E e s) \<Longrightarrow> triple P (lift_res r) Q E"
  by (cases r) (simp_all add: triple_def)

lemma triple_reading: "(\<And>s. P s \<Longrightarrow> Q (f s) s) \<Longrightarrow> triple P (reading f) Q E"
  by (simp add: triple_def)

lemma triple_modify: "(\<And>s. P s \<Longrightarrow> Q () (f s)) \<Longrightarrow> triple P (modify f) Q E"
  by (simp add: triple_def)

lemma triple_guard:
  "(\<And>s. P s \<Longrightarrow> b \<Longrightarrow> Q () s) \<Longrightarrow> (\<And>s. P s \<Longrightarrow> \<not> b \<Longrightarrow> E e s) \<Longrightarrow> triple P (guard_eff b e) Q E"
  by (cases b) (simp_all add: triple_def)

lemma triple_andthen:
  assumes "triple P m R E" and "\<And>x. triple (R x) (f x) Q E"
  shows "triple P (andthen m f) Q E"
proof (rule tripleI)
  fix s x t assume "P s" "andthen m f s = (Inr x, t)"
  then show "Q x t" using assms by (blast elim: andthen_InrE dest: triple_Inr)
next
  fix s e t assume "P s" "andthen m f s = (Inl e, t)"
  then show "E e t" using assms by (blast elim: andthen_InlE dest: triple_Inr triple_Inl)
qed

lemma triple_catching:
  assumes "triple P m Q F" and "\<And>e. triple (F e) (h e) Q E"
  shows "triple P (catching m h) Q E"
proof (rule tripleI)
  fix s x t assume "P s" "catching m h s = (Inr x, t)"
  then show "Q x t" using assms
    by (auto simp: catching_def split: prod.splits sum.splits dest: triple_Inr triple_Inl)
next
  fix s e t assume "P s" "catching m h s = (Inl e, t)"
  then show "E e t" using assms
    by (auto simp: catching_def split: prod.splits sum.splits dest: triple_Inr triple_Inl)
qed

lemma triple_finally:
  assumes "triple P m (\<lambda>x s. Q x (f s)) (\<lambda>e s. E e (f s))"
  shows "triple P (finally_do m f) Q E"
  using assms by (auto simp: triple_def finally_do_def split: prod.splits sum.splits)

lemma triple_if:
  "(b \<Longrightarrow> triple P m Q E) \<Longrightarrow> (\<not> b \<Longrightarrow> triple P m' Q E) \<Longrightarrow> triple P (if b then m else m') Q E"
  by simp

lemma triple_pre: "triple P' m Q E \<Longrightarrow> (\<And>s. P s \<Longrightarrow> P' s) \<Longrightarrow> triple P m Q E"
  by (rule triple_conseq)

lemma triple_both:
  "triple P m Q E \<Longrightarrow> triple P' m Q' E' \<Longrightarrow> (\<And>s. P s \<Longrightarrow> P' s)
   \<Longrightarrow> triple P m (\<lambda>x s. Q x s \<and> Q' x s) (\<lambda>e s. E e s \<and> E' e s)"
  by (rule tripleI) (blast dest: triple_Inr triple_Inl)+

lemma triple_pure: "(b \<Longrightarrow> triple P m Q E) \<Longrightarrow> triple (\<lambda>s. P s \<and> b) m Q E"
  by (auto simp: triple_def)

lemma triple_await:
  "(\<And>s x. P s \<Longrightarrow> ask (tick s) = Inr x \<Longrightarrow> Q x (s\<lparr>tick := Suc (tick s)\<rparr>))
   \<Longrightarrow> (\<And>s e. P s \<Longrightarrow> ask (tick s) = Inl e \<Longrightarrow> E e (s\<lparr>tick := Suc (tick s)\<rparr>)) \<Longrightarrow> triple P (await ask) Q E"
  by (rule tripleI) (simp_all add: await_def)

text \<open>A run that respects a relation keeps every predicate the relation keeps.\<close>

lemma triple_moves:
  assumes "moves R m" and "\<And>s t. P s \<Longrightarrow> R s t \<Longrightarrow> Q t"
  shows "triple P m (\<lambda>x. Q) (\<lambda>e. Q)"
proof (rule tripleI)
  show "Q t" if "P s" "m s = (Inr x, t)" for s x t using assms movesD [OF assms(1), of s] that by auto
  show "Q t" if "P s" "m s = (Inl e, t)" for s e t using assms movesD [OF assms(1), of s] that by auto
qed

subsection \<open>What the world cannot touch\<close>

definition same_books :: "db \<Rightarrow> db \<Rightarrow> bool" where
  "same_books d d' \<longleftrightarrow> swaps d' = swaps d \<and> calls d' = calls d \<and> inflight d' = inflight d
     \<and> txs d' = txs d \<and> conns d' = conns d \<and> clink_hashes d' = clink_hashes d \<and> ops d' = ops d
     \<and> tick d \<le> tick d'"

interpretation bks: progress same_books
  by unfold_locales (auto simp: same_books_def)

lemma bks_await: "moves same_books (await ask)"
  by (simp add: moves_def same_books_def await_def)

lemma bks_clock: "moves same_books (clock_ms now)"
  by (simp add: clock_ms_def moves_def same_books_def)

lemma bks_notify: "moves same_books (modify (notify n))"
  by (rule bks.moves_modify) (simp add: same_books_def)

lemma bks_vault:
  assumes "\<And>d. swaps (f d) = swaps d \<and> calls (f d) = calls d \<and> inflight (f d) = inflight d
    \<and> txs (f d) = txs d \<and> conns (f d) = conns d \<and> clink_hashes (f d) = clink_hashes d \<and> ops (f d) = ops d \<and> tick (f d) = tick d"
  shows "moves same_books (modify f)"
  by (rule bks.moves_modify) (simp add: assms same_books_def)

lemmas bks_rules = bks.moves_rules bks_await bks_clock bks_notify

subsection \<open>Runs that only read\<close>

definition only_ticks :: "db \<Rightarrow> db \<Rightarrow> bool" where
  "only_ticks d s \<longleftrightarrow> (\<exists>n. s = d\<lparr>tick := n\<rparr> \<and> tick d \<le> n)"

interpretation tck: progress only_ticks
proof
  show "only_ticks s s" for s unfolding only_ticks_def by (rule exI [of _ "tick s"]) simp
  show "only_ticks s t \<Longrightarrow> only_ticks t u \<Longrightarrow> only_ticks s u" for s t u
    by (auto simp: only_ticks_def)
qed

lemma tck_await: "moves only_ticks (await ask)"
  unfolding moves_def only_ticks_def await_def by auto

lemma tck_clock: "moves only_ticks (clock_ms now)"
  by (simp add: clock_ms_def moves_def tck.R_refl)

lemma tck_option:
  "(x = None \<Longrightarrow> moves only_ticks m) \<Longrightarrow> (\<And>y. x = Some y \<Longrightarrow> moves only_ticks (f y))
   \<Longrightarrow> moves only_ticks (case x of None \<Rightarrow> m | Some y \<Rightarrow> f y)"
  by (cases x) auto

lemma only_ticksD:
  assumes "only_ticks d s"
  shows "vtxos s = vtxos d" "ops s = ops d" "proofs s = proofs d" "destRow s = destRow d" "broadcasts s = broadcasts d"
    "swaps s = swaps d" "calls s = calls d" "notices s = notices d" "tick d \<le> tick s" "txs s = txs d" "conns s = conns d"
    "history s = history d" "offboards s = offboards d" "boltzSwaps s = boltzSwaps d" "processed s = processed d"
  using assms by (auto simp: only_ticks_def)

lemmas tck_rules = tck.moves_rules tck_await tck_clock tck_option

end
