(* ===== verification/Ark_World.thy ===== *)
theory Ark_World
  imports Eff_Logic Swap_Repo Claim_Split Proof_Sync Exit_Estimate
begin

text \<open>
  The surroundings of the swap handlers. \<open>sdk\<close> collects the pure functions of the packages they
  call (codecs, script encoders, coin predicates); \<open>world\<close> what the ASP, its indexer, the wallet,
  boltz and esplora answer, each answer a function of the request and of how many answers were
  awaited before. Nothing is assumed of either: an answer may be an error, late, or a lie.

  The helpers the handlers share are here too: the spent poll of \<open>src/atomic/ark_util.ts\<close>, the
  store operations stamped with the clock, and \<open>releaseVaultRow\<close> of \<open>src/atomic/send.ts\<close>.
\<close>

record ark_info =
  i_signerPubkey :: string
  i_checkpointTapscript :: string
  i_dust :: int
  i_network :: string
  i_unilateralExitDelay :: int

record invoice_data =
  iv_paymentHash :: "string option"
  iv_amountSats :: "int option"

record sdk =
  k_hexDecode :: "string \<Rightarrow> err + bytes"
  k_hexEncode :: "bytes \<Rightarrow> string"
  k_sha256 :: "bytes \<Rightarrow> bytes"
  k_ripemd160 :: "bytes \<Rightarrow> bytes"
  k_pkScript :: "atomic_script \<Rightarrow> bytes"
  k_encode :: "atomic_script \<Rightarrow> bytes"
  k_scriptAddress :: "atomic_script \<Rightarrow> string \<Rightarrow> bytes \<Rightarrow> string"
  k_defaultAddress :: "bytes \<Rightarrow> bytes \<Rightarrow> timelock_unit \<Rightarrow> int \<Rightarrow> string \<Rightarrow> ark_address"
  k_decodeAddress :: "string \<Rightarrow> err + ark_address"
  k_unroll :: "string \<Rightarrow> err + string"
  k_decodeInvoice :: "string \<Rightarrow> err + invoice_data"
  k_isSpendable :: "vcoin \<Rightarrow> bool"
  k_isRecoverable :: "vcoin \<Rightarrow> bool"
  k_lib :: tx_lib
  k_sizes :: size_lib

text \<open>\<open>SharedVtxo\<close>.\<close>

record shared_vtxo =
  sh_txid :: string
  sh_vout :: nat
  sh_value :: int
  sh_script :: atomic_script

record init_response =
  zi_swapId :: string
  zi_boltzPubkey :: string
  zi_refundLocktime :: int
  zi_exitDelay :: string
  zi_boltzScriptDelay :: "string option"
  zi_feeSats :: "rat option"

record fund_response =
  zf_status :: string
  zf_preimage :: "string option"

record cancel_response =
  zc_status :: string
  zc_cancelTxid :: "string option"

record send_status =
  zs_state :: string
  zs_preimage :: "string option"

record receive_init =
  ri_swapId :: string
  ri_invoice :: string

record receive_status =
  rv_state :: string
  rv_fundingOutpoint :: "string option"
  rv_presigs :: "presig option"
  rv_boltzPubkey :: "string option"
  rv_refundLocktime :: "int option"
  rv_boltzScriptDelay :: "string option"

text \<open>\<open>w_refundSpend\<close> reports the error together with its numeric \<open>code\<close>; \<open>w_status\<close> and
  \<open>w_blocks\<close> are \<open>None\<close> when the request fails in any way.\<close>

record world =
  w_sdk :: sdk
  w_now :: "nat \<Rightarrow> int"
  w_info :: "nat \<Rightarrow> err + ark_info"
  w_userKey :: "nat \<Rightarrow> err + bytes"
  w_walletAddress :: "nat \<Rightarrow> err + string"
  w_walletVtxos :: "nat \<Rightarrow> err + vcoin list"
  w_sendBitcoin :: "nat \<Rightarrow> string \<Rightarrow> int \<Rightarrow> vcoin list \<Rightarrow> err + string"
  w_ix :: "nat \<Rightarrow> asp_indexer"
  w_byScript :: "nat \<Rightarrow> string \<Rightarrow> bool \<Rightarrow> err + vcoin list"
  w_presignClaim :: "nat \<Rightarrow> shared_vtxo \<Rightarrow> atomic_output list \<Rightarrow> string \<Rightarrow> err + presig"
  w_presignCancel :: "nat \<Rightarrow> shared_vtxo \<Rightarrow> atomic_output list \<Rightarrow> string \<Rightarrow> err + presig"
  w_refundSpend :: "nat \<Rightarrow> shared_vtxo \<Rightarrow> atomic_output list \<Rightarrow> string \<Rightarrow> (err \<times> int option) + string"
  w_finishClaim :: "nat \<Rightarrow> shared_vtxo \<Rightarrow> atomic_output list \<Rightarrow> string \<Rightarrow> presig \<Rightarrow> bytes \<Rightarrow> err + string"
  w_init :: "nat \<Rightarrow> string \<Rightarrow> string \<Rightarrow> err + init_response"
  w_fund :: "nat \<Rightarrow> string \<Rightarrow> string \<Rightarrow> presig \<Rightarrow> err + fund_response"
  w_cancel :: "nat \<Rightarrow> string \<Rightarrow> string \<Rightarrow> atomic_output list \<Rightarrow> presig \<Rightarrow> err + cancel_response"
  w_status :: "nat \<Rightarrow> string \<Rightarrow> send_status option"
  w_receiveInit :: "nat \<Rightarrow> int \<Rightarrow> string \<Rightarrow> string \<Rightarrow> string option \<Rightarrow> err + receive_init"
  w_receiveStatus :: "nat \<Rightarrow> string \<Rightarrow> err + receive_status"
  w_receiveSettle :: "nat \<Rightarrow> string \<Rightarrow> string \<Rightarrow> err + unit"
  w_random :: "nat \<Rightarrow> bytes"
  w_esploraUrl :: bool
  w_blocks :: "nat \<Rightarrow> int option list option"

subsection \<open>Small helpers\<close>

text \<open>A string the code tests for truth: absent and empty are false.\<close>

definition truthy :: "string option \<Rightarrow> bool" where
  "truthy s \<longleftrightarrow> s \<noteq> None \<and> s \<noteq> Some []"

text \<open>\<open>BigInt(s)\<close> of a decimal string.\<close>

definition big_int :: "string \<Rightarrow> err + int" where
  "big_int s = (case js_number s of None \<Rightarrow> Inl (Error ''Cannot convert to a BigInt'') | Some n \<Rightarrow> Inr (int n))"

definition map_Inr :: "('a \<Rightarrow> 'b) \<Rightarrow> 'e + 'a \<Rightarrow> 'e + 'b" where
  "map_Inr f r = (case r of Inl e \<Rightarrow> Inl e | Inr x \<Rightarrow> Inr (f x))"

definition xonly_hex :: "world \<Rightarrow> string \<Rightarrow> err + bytes" where
  "xonly_hex w s = map_Inr toXOnly (k_hexDecode (w_sdk w) s)"

definition transition :: "world \<Rightarrow> string \<Rightarrow> swap_state \<Rightarrow> unit bridge" where
  "transition w i st = andthen (clock_ms (w_now w)) (\<lambda>now. andthen (repo_transition now i st) (\<lambda>r. ret ()))"

definition setFundingOutpoint :: "world \<Rightarrow> string \<Rightarrow> string \<Rightarrow> unit bridge" where
  "setFundingOutpoint w i op = andthen (clock_ms (w_now w)) (\<lambda>now. repo_setFundingOutpoint now i op)"

definition setPresigs :: "world \<Rightarrow> string \<Rightarrow> presig \<Rightarrow> unit bridge" where
  "setPresigs w i p = andthen (clock_ms (w_now w)) (\<lambda>now. repo_setPresigs now i p)"

definition setPreimage :: "world \<Rightarrow> string \<Rightarrow> string \<Rightarrow> unit bridge" where
  "setPreimage w i p = andthen (clock_ms (w_now w)) (\<lambda>now. repo_setPreimage now i p)"

text \<open>\<open>confirmSpent\<close>: six polls, an error of the indexer is no answer.\<close>

definition shows_spent :: "world \<Rightarrow> nat \<Rightarrow> string \<Rightarrow> nat \<Rightarrow> bool" where
  "shows_spent w t txid vout = (case ix_getVtxos (w_ix w t) [(txid, vout)] of
     Inl e \<Rightarrow> False
   | Inr listed \<Rightarrow> (case find_first (\<lambda>v. c_txid v = txid \<and> c_vout v = vout) listed of
       None \<Rightarrow> False | Some v \<Rightarrow> truthy (c_spentBy v)))"

fun confirm_poll :: "nat \<Rightarrow> world \<Rightarrow> string \<Rightarrow> nat \<Rightarrow> bool bridge" where
  "confirm_poll 0 w txid vout = ret False"
| "confirm_poll (Suc n) w txid vout =
     andthen (await (\<lambda>t. Inr (shows_spent w t txid vout))) (\<lambda>hit.
     if hit then ret True else confirm_poll n w txid vout)"

definition confirmSpent :: "world \<Rightarrow> string \<Rightarrow> nat \<Rightarrow> bool bridge" where
  "confirmSpent w txid vout = confirm_poll 6 w txid vout"

text \<open>\<open>releaseVaultRow\<close>: with an index that is not a number no row matches.\<close>

definition releaseVaultRow :: "string \<Rightarrow> nat option \<Rightarrow> unit bridge" where
  "releaseVaultRow txid vout = modify (\<lambda>d.
     snd (gcOrphanProofs (case vout of None \<Rightarrow> d | Some n \<Rightarrow> snd (removeVtxo txid n d))))"

subsection \<open>What the helpers do to the books\<close>

lemma progress_of_books: "same_books d d' \<Longrightarrow> swap_progress d d'"
  by (simp add: same_books_def)

lemma moves_weaken: "moves R m \<Longrightarrow> (\<And>s t. R s t \<Longrightarrow> R' s t) \<Longrightarrow> moves R' m"
  by (simp add: moves_def)

lemma bks_confirm_poll: "moves same_books (confirm_poll n w txid vout)"
proof (induction n)
  case 0
  show ?case unfolding confirm_poll.simps by (rule bks_rules)
next
  case (Suc n)
  then show ?case unfolding confirm_poll.simps by (intro bks_rules)
qed

lemma bks_confirm: "moves same_books (confirmSpent w txid vout)"
  by (simp add: confirmSpent_def bks_confirm_poll)

lemma bks_release: "moves same_books (releaseVaultRow txid vout)"
  unfolding releaseVaultRow_def
  by (rule bks_vault) (auto simp: gcOrphanProofs_def removeVtxo_def Let_def split: option.split)

lemma bks_capture: "moves same_books (captureVtxo lib ix clock snap)"
proof -
  have "moves same_books (modify (storeVtxoWithProofs clock v ps))" for v ps
    by (rule bks_vault) (simp add: storeVtxoWithProofs_def)
  then show ?thesis
    unfolding captureVtxo_def by (auto intro!: bks_rules split: prod.split)
qed

lemma moves_stamped:
  "moves swap_progress (transition w i st)" "moves swap_progress (setFundingOutpoint w i op)"
  "moves swap_progress (setPresigs w i p)" "moves swap_progress (setPreimage w i pre)"
  unfolding transition_def setFundingOutpoint_def setPresigs_def setPreimage_def clock_ms_def
  by (auto intro!: swp.moves_rules moves_transition moves_setters)

lemma moves_log: "moves swap_progress (log_call kind i)"
  by (auto simp: log_call_def intro!: swp.moves_modify)

lemma moves_books: "moves same_books m \<Longrightarrow> moves swap_progress m"
  by (rule moves_weaken [OF _ progress_of_books])

lemma moves_inflight: "moves swap_progress (modify (inflight_update f))"
  by (rule swp.moves_modify) simp

lemmas swp_rules = swp.moves_rules moves_stamped moves_log moves_inflight
  moves_books [OF bks_await] moves_books [OF bks_clock] moves_books [OF bks_notify]
  moves_books [OF bks_confirm] moves_books [OF bks_release] moves_books [OF bks_capture]

lemma confirm_poll_True:
  "confirm_poll n w txid vout d = (r, d') \<Longrightarrow> r = Inr True \<Longrightarrow>
     \<exists>t. tick d \<le> t \<and> t < tick d' \<and> shows_spent w t txid vout"
proof (induction n arbitrary: d)
  case (Suc n)
  show ?case
  proof (cases "shows_spent w (tick d) txid vout")
    case True
    with Suc.prems have "d' = d\<lparr>tick := Suc (tick d)\<rparr>" by (simp add: await_def andthen_def)
    with True show ?thesis by auto
  next
    case False
    with Suc.prems have "confirm_poll n w txid vout (d\<lparr>tick := Suc (tick d)\<rparr>) = (r, d')"
      by (simp add: await_def andthen_def)
    from Suc.IH [OF this Suc.prems(2)] show ?thesis
      by (auto intro: Suc_leD)
  qed
qed simp

lemma confirm_poll_Inr: "\<exists>b d'. confirm_poll n w txid vout d = (Inr b, d')"
  by (induction n arbitrary: d) (auto simp: await_def andthen_def)

end
