(* ===== verification/Atomic_Send.thy ===== *)
theory Atomic_Send
  imports Ark_World
begin

text \<open>
  The sub-dust send, \<open>src/atomic/send.ts\<close>: the live flow \<open>atomicSubdustSend\<close>, the refund and
  cancel executors, the classification of unfunded rows and the resume pass. Each handler is one
  definition per stage of the code, composed in its order; \<open>log_call\<close> marks the calls that can move
  money. A failure of a handler inside another is its \<open>catch\<close> branch.
\<close>

definition FUNDING_MARGIN_SECS :: int where "FUNDING_MARGIN_SECS = 600"

definition UNFUNDED_GRACE_MS :: int where "UNFUNDED_GRACE_MS = 600000"

definition LN_INFLIGHT_STUCK_MS :: int where "LN_INFLIGHT_STUCK_MS = 600000"

subsection \<open>The script of a stored swap\<close>

text \<open>\<open>new AtomicVtxoScript({funder: userXOnly, claimer: toXOnly(hex.decode(swap.peerPubkey)), ...})\<close>
  from the row alone.\<close>

definition rebuild_script :: "world \<Rightarrow> bytes \<Rightarrow> bytes \<Rightarrow> swap_row \<Rightarrow> err + atomic_script" where
  "rebuild_script w server user swap =
     (case xonly_hex w (the (s_peerPubkey swap)) of Inl e \<Rightarrow> Inl e | Inr peer \<Rightarrow>
      case k_hexDecode (w_sdk w) (s_paymentHash swap) of Inl e \<Rightarrow> Inl e | Inr h \<Rightarrow>
      atomicVtxoScript (k_ripemd160 (w_sdk w)) \<lparr>so_funder = user, so_claimer = peer, so_server = server,
        so_paymentHash = h, so_refundLocktime = s_refundLocktime swap,
        so_exitDelay = the (s_exitDelay swap)\<rparr>)"

definition script_hex :: "world \<Rightarrow> atomic_script \<Rightarrow> string" where
  "script_hex w script = k_hexEncode (w_sdk w) (k_pkScript (w_sdk w) script)"

subsection \<open>Did funding happen? (\<open>classifyUnfundedInit\<close>, \<open>failIfUnfunded\<close>)\<close>

datatype funding_verdict = Recovered | Unfunded | Unknown

definition unspent :: "vcoin \<Rightarrow> bool" where
  "unspent v \<longleftrightarrow> \<not> truthy (c_spentBy v) \<and> \<not> c_isSpent v"

definition classifyUnfundedInit :: "world \<Rightarrow> swap_row \<Rightarrow> funding_verdict bridge" where
  "classifyUnfundedInit w swap =
     (if truthy (s_fundingOutpoint swap) \<or> s_state swap \<noteq> Init \<or> \<not> truthy (s_peerPubkey swap)
        \<or> s_exitDelay swap = None
      then ret Unknown
      else
        andthen (await (w_info w)) (\<lambda>info.
        andthen (lift_res (xonly_hex w (i_signerPubkey info))) (\<lambda>server.
        andthen (await (w_userKey w)) (\<lambda>user.
        andthen (lift_res (rebuild_script w server (toXOnly user) swap)) (\<lambda>script.
        andthen (await (\<lambda>t. w_byScript w t (script_hex w script) False)) (\<lambda>coins.
        if coins = [] then ret Unfunded
        else (case find_first unspent coins of
            None \<Rightarrow> ret Unknown
          | Some v \<Rightarrow>
              andthen (setFundingOutpoint w (s_id swap) (outpoint_key (c_txid v) (c_vout v))) (\<lambda>u.
              andthen (transition w (s_id swap) Funded) (\<lambda>u.
              ret Recovered))))))))) "

definition failIfUnfunded :: "world \<Rightarrow> string \<Rightarrow> bool bridge" where
  "failIfUnfunded w i =
     andthen (reading (\<lambda>d. repo_get d i)) (\<lambda>row. case row of
       None \<Rightarrow> ret False
     | Some swap \<Rightarrow>
        (if s_state swap \<noteq> Init \<or> truthy (s_fundingOutpoint swap) then ret False
         else andthen (catching (andthen (classifyUnfundedInit w swap) (\<lambda>v. ret (Some v))) (\<lambda>e. ret None)) (\<lambda>verdict.
           if verdict \<noteq> Some Unfunded then ret False
           else andthen (transition w i Failed) (\<lambda>u. ret True))))"

subsection \<open>Registration of a spend\<close>

text \<open>The poll \<open>registered\<close> of the refund and the cancel: eight reads of the spendable coins at the
  shared script; only the outpoint's absence counts.\<close>

definition still_listed :: "string \<Rightarrow> nat \<Rightarrow> vcoin list \<Rightarrow> bool" where
  "still_listed txid vout coins = list_ex (\<lambda>x. c_txid x = txid \<and> c_vout x = vout) coins"

fun registered :: "nat \<Rightarrow> world \<Rightarrow> string \<Rightarrow> string \<Rightarrow> nat \<Rightarrow> bool bridge" where
  "registered 0 w pk txid vout = ret False"
| "registered (Suc n) w pk txid vout =
     andthen (await (\<lambda>t. w_byScript w t pk True)) (\<lambda>check.
     if \<not> still_listed txid vout check then ret True else registered n w pk txid vout)"

subsection \<open>Refund after T (\<open>refundAtomicSend\<close>)\<close>

record spend_result =
  xr_txid :: string
  xr_amount :: int

text \<open>\<open>ts[Math.max(0, ts.length - 6)]\<close> of the ten newest timestamps in ascending order.\<close>

definition mtp_of :: "int option list \<Rightarrow> int option" where
  "mtp_of blocks =
     (let ts = js_sort (\<lambda>a b. a - b) (take 10 (concat (map (\<lambda>b. case b of None \<Rightarrow> [] | Some t \<Rightarrow> [t]) blocks))) in
      if length ts < 5 then None else Some (ts ! (length ts - 6)))"

definition estimateMtp :: "world \<Rightarrow> int option bridge" where
  "estimateMtp w = await (\<lambda>t. Inr (case w_blocks w t of None \<Rightarrow> None | Some blocks \<Rightarrow> mtp_of blocks))"

fun contains :: "string \<Rightarrow> string \<Rightarrow> bool" where
  "contains pat [] = (pat = [])"
| "contains pat (c # s) = (take (length pat) (c # s) = pat \<or> contains pat s)"

definition isBlocktimeLocked :: "err \<times> int option \<Rightarrow> bool" where
  "isBlocktimeLocked e = ((case fst e of Error m \<Rightarrow> contains ''FORFEIT_CLOSURE_LOCKED'' m | _ \<Rightarrow> False)
     \<or> snd e = Some 11)"

definition refundable_states :: "swap_state list" where
  "refundable_states = [Funded, Ln_inflight, Refund_wait]"

text \<open>The guards both executors open with.\<close>

definition check_row :: "string \<Rightarrow> string \<Rightarrow> swap_row bridge" where
  "check_row i what =
     andthen (reading (\<lambda>d. repo_get d i)) (\<lambda>row. case row of
       None \<Rightarrow> throw (Error ''unknown swap'')
     | Some swap \<Rightarrow>
        andthen (guard_eff (s_direction swap = Send) (Error (''only send swaps are '' @ what))) (\<lambda>u.
        andthen (guard_eff (s_state swap \<in> set refundable_states) (Error ''nothing to unwind'')) (\<lambda>u.
        andthen (guard_eff (truthy (s_fundingOutpoint swap)) (Error ''swap has no funding outpoint'')) (\<lambda>u.
        andthen (guard_eff (truthy (s_peerPubkey swap) \<and> s_exitDelay swap \<noteq> None)
           (Error ''swap row predates the script-rebuild metadata'')) (\<lambda>u.
        ret swap)))))"

text \<open>The shared vtxo of a row as the indexer lists it, with what the spend needs.\<close>

record unwind =
  uw_shared :: shared_vtxo
  uw_unroll :: string
  uw_dust :: int
  uw_ourAddr :: ark_address
  uw_pk :: string

definition load_unwind :: "world \<Rightarrow> swap_row \<Rightarrow> unwind bridge" where
  "load_unwind w swap =
     andthen (await (w_info w)) (\<lambda>info.
     andthen (lift_res (xonly_hex w (i_signerPubkey info))) (\<lambda>server.
     andthen (lift_res (k_unroll (w_sdk w) (i_checkpointTapscript info))) (\<lambda>unroll.
     andthen (await (w_userKey w)) (\<lambda>user.
     andthen (lift_res (rebuild_script w server (toXOnly user) swap)) (\<lambda>script.
     (case parse_outpoint (the (s_fundingOutpoint swap)) of
        None \<Rightarrow> throw (Error ''bad funding outpoint'')
      | Some (txid, vout) \<Rightarrow>
         andthen (await (\<lambda>t. w_byScript w t (script_hex w script) True)) (\<lambda>coins.
         (case find_first (\<lambda>x. c_txid x = txid \<and> Some (c_vout x) = vout) coins of
            None \<Rightarrow> throw (Error ''shared vtxo not found or already spent'')
          | Some coin \<Rightarrow>
             andthen (await (w_walletAddress w)) (\<lambda>addr.
             andthen (lift_res (k_decodeAddress (w_sdk w) addr)) (\<lambda>ourAddr.
             ret \<lparr>uw_shared = \<lparr>sh_txid = txid, sh_vout = c_vout coin, sh_value = c_value coin, sh_script = script\<rparr>,
               uw_unroll = unroll, uw_dust = i_dust info, uw_ourAddr = ourAddr,
               uw_pk = script_hex w script\<rparr>))))))))))"

fun refund_attempts :: "world \<Rightarrow> string \<Rightarrow> unwind \<Rightarrow> atomic_output list list \<Rightarrow> string bridge" where
  "refund_attempts w i x [] = ret []"
| "refund_attempts w i x (outputs # rest) =
     andthen (log_call Submit_refund i) (\<lambda>u.
     andthen (await (\<lambda>t. case w_refundSpend w t (uw_shared x) outputs (uw_unroll x) of
         Inr txid \<Rightarrow> Inr txid
       | Inl e \<Rightarrow> Inl (if isBlocktimeLocked e then Refund_not_yet else fst e))) (\<lambda>attemptTxid.
     andthen (registered 8 w (uw_pk x) (sh_txid (uw_shared x)) (sh_vout (uw_shared x))) (\<lambda>ok.
     if ok then ret attemptTxid else refund_attempts w i x rest)))"

definition refundAtomicSend :: "world \<Rightarrow> string \<Rightarrow> spend_result bridge" where
  "refundAtomicSend w i =
     andthen (check_row i ''refundable'') (\<lambda>swap.
     andthen (clock_ms (w_now w)) (\<lambda>now.
     andthen (guard_eff (s_refundLocktime swap \<le> now div 1000) (Error ''refund locktime not reached'')) (\<lambda>u.
     andthen (if w_esploraUrl w then estimateMtp w else ret None) (\<lambda>mtp.
     andthen (guard_eff (case mtp of None \<Rightarrow> True | Some m \<Rightarrow> s_refundLocktime swap \<le> m) Refund_not_yet) (\<lambda>u.
     andthen (load_unwind w swap) (\<lambda>x.
     (let value = sh_value (uw_shared x) in
     andthen (refund_attempts w i x (freshTxidAttempts (uw_ourAddr x) value (uw_dust x))) (\<lambda>refundTxid.
     andthen (guard_eff (refundTxid \<noteq> []) (Error ''refund never registered'')) (\<lambda>u.
     andthen (if s_state swap \<noteq> Refund_wait then transition w i Refund_wait else ret ()) (\<lambda>u.
     andthen (transition w i Refunded) (\<lambda>u.
     andthen (modify (notify Refund_notice)) (\<lambda>u.
     andthen (releaseVaultRow (sh_txid (uw_shared x)) (Some (sh_vout (uw_shared x)))) (\<lambda>u.
     ret \<lparr>xr_txid = refundTxid, xr_amount = value\<rparr>)))))))))))))"

subsection \<open>Cooperative cancel (\<open>cancelAtomicSend\<close>)\<close>

fun cancel_attempts :: "world \<Rightarrow> string \<Rightarrow> unwind \<Rightarrow> atomic_output list list \<Rightarrow> string bridge" where
  "cancel_attempts w i x [] = ret []"
| "cancel_attempts w i x (outputs # rest) =
     andthen (await (\<lambda>t. w_presignCancel w t (uw_shared x) outputs (uw_unroll x))) (\<lambda>presigs.
     andthen (log_call Ask_cancel i) (\<lambda>u.
     andthen (await (\<lambda>t. w_cancel w t i (outpoint_key (sh_txid (uw_shared x)) (sh_vout (uw_shared x))) outputs presigs)) (\<lambda>res.
     andthen (guard_eff (zc_status res = ''cancelled'' \<and> truthy (zc_cancelTxid res))
       (Error ''boltz refused the cooperative cancel'')) (\<lambda>u.
     andthen (registered 8 w (uw_pk x) (sh_txid (uw_shared x)) (sh_vout (uw_shared x))) (\<lambda>ok.
     if ok then ret (the (zc_cancelTxid res)) else cancel_attempts w i x rest)))))"

definition cancelAtomicSend :: "world \<Rightarrow> string \<Rightarrow> spend_result bridge" where
  "cancelAtomicSend w i =
     andthen (check_row i ''cancellable'') (\<lambda>swap.
     andthen (load_unwind w swap) (\<lambda>x.
     (let value = sh_value (uw_shared x) in
     andthen (cancel_attempts w i x (freshTxidAttempts (uw_ourAddr x) value (uw_dust x))) (\<lambda>cancelTxid.
     andthen (guard_eff (cancelTxid \<noteq> []) (Error ''cancel never registered'')) (\<lambda>u.
     andthen (transition w i Cancelled) (\<lambda>u.
     andthen (modify (notify Refund_notice)) (\<lambda>u.
     andthen (releaseVaultRow (sh_txid (uw_shared x)) (Some (sh_vout (uw_shared x)))) (\<lambda>u.
     ret \<lparr>xr_txid = cancelTxid, xr_amount = value\<rparr>))))))))"

subsection \<open>The live flow (\<open>atomicSubdustSend\<close>)\<close>

text \<open>What stands before the row: the plan of a send.\<close>

record send_plan =
  pl_init :: init_response
  pl_hash :: string
  pl_amount :: int
  pl_fee :: int
  pl_dust :: int
  pl_info :: ark_info
  pl_server :: bytes
  pl_unroll :: string
  pl_boltz :: bytes
  pl_exitDelay :: int
  pl_script :: atomic_script
  pl_funding :: "vcoin list"

abbreviation pl_id :: "send_plan \<Rightarrow> string" where
  "pl_id p \<equiv> zi_swapId (pl_init p)"

definition advertised_fee :: "init_response \<Rightarrow> rat" where
  "advertised_fee init = (case zi_feeSats init of None \<Rightarrow> 0 | Some f \<Rightarrow> f)"

definition send_script :: "world \<Rightarrow> bytes \<Rightarrow> bytes \<Rightarrow> bytes \<Rightarrow> bytes \<Rightarrow> int \<Rightarrow> int \<Rightarrow> err + atomic_script" where
  "send_script w user boltz server H T d = atomicVtxoScript (k_ripemd160 (w_sdk w))
     \<lparr>so_funder = user, so_claimer = boltz, so_server = server, so_paymentHash = H,
      so_refundLocktime = T, so_exitDelay = d\<rparr>"

definition send_funding :: "world \<Rightarrow> db \<Rightarrow> vcoin list \<Rightarrow> int \<Rightarrow> int \<Rightarrow> int \<Rightarrow> int \<Rightarrow> vcoin list" where
  "send_funding w d ownVtxos dust T a fee =
     selectSpendInputs
       (filter (\<lambda>v. isEligibleFundingInput (k_isSpendable (w_sdk w)) (k_isRecoverable (w_sdk w)) v
          \<lparr>ea_dust = dust, ea_refundLocktime = T, ea_marginSecs = FUNDING_MARGIN_SECS\<rparr> = Eligible) ownVtxos)
       (dust + a + fee) None (exitCostOracle (k_sizes (w_sdk w)) d)"

definition send_prepare :: "world \<Rightarrow> string \<Rightarrow> int \<Rightarrow> send_plan bridge" where
  "send_prepare w invoice a =
     andthen (lift_res (k_decodeInvoice (w_sdk w) invoice)) (\<lambda>decoded.
     andthen (guard_eff (iv_paymentHash decoded \<noteq> None) (Error ''invoice has no payment hash'')) (\<lambda>u.
     (let paymentHash = the (iv_paymentHash decoded) in
     andthen (lift_res (k_hexDecode (w_sdk w) paymentHash)) (\<lambda>H.
     andthen (await (w_info w)) (\<lambda>info.
     andthen (lift_res (xonly_hex w (i_signerPubkey info))) (\<lambda>server.
     andthen (lift_res (k_unroll (w_sdk w) (i_checkpointTapscript info))) (\<lambda>unroll.
     (let dust = i_dust info in
     andthen (guard_eff (a < dust) (Error ''amount is not sub-dust'')) (\<lambda>u.
     andthen (await (w_userKey w)) (\<lambda>key.
     (let user = toXOnly key in
     andthen (await (\<lambda>t. w_init w t invoice (k_hexEncode (w_sdk w) user))) (\<lambda>init.
     andthen (lift_res (xonly_hex w (zi_boltzPubkey init))) (\<lambda>boltz.
     andthen (lift_res (big_int (zi_exitDelay init))) (\<lambda>d.
     (let fee = advertised_fee init in
     andthen (guard_eff (is_integer fee \<and> 0 \<le> fee \<and> fee \<le> of_int dust)
       (Error ''boltz advertised an unreasonable feeSats'')) (\<lambda>u.
     andthen (lift_res (send_script w user boltz server H (zi_refundLocktime init) d)) (\<lambda>script.
     andthen (await (w_walletVtxos w)) (\<lambda>ownVtxos.
     andthen (reading (\<lambda>db. send_funding w db ownVtxos dust (zi_refundLocktime init) a \<lfloor>fee\<rfloor>)) (\<lambda>funding.
     andthen (guard_eff (funding \<noteq> []) (Error ''atomic send needs eligible vtxos'')) (\<lambda>u.
     ret \<lparr>pl_init = init, pl_hash = paymentHash, pl_amount = a, pl_fee = \<lfloor>fee\<rfloor>, pl_dust = dust,
       pl_info = info, pl_server = server, pl_unroll = unroll, pl_boltz = boltz, pl_exitDelay = d,
       pl_script = script, pl_funding = funding\<rparr>))))))))))))))))))))"

abbreviation pl_value :: "send_plan \<Rightarrow> int" where
  "pl_value p \<equiv> sum_list (map c_value (pl_funding p))"

definition send_create :: "world \<Rightarrow> string \<Rightarrow> send_plan \<Rightarrow> unit bridge" where
  "send_create w invoice p =
     andthen (clock_ms (w_now w)) (\<lambda>now.
     andthen (repo_create now \<lparr>w_id = pl_id p, w_direction = Send, w_paymentHash = pl_hash p,
       w_state = Init, w_amount = pl_amount p, w_refundLocktime = zi_refundLocktime (pl_init p),
       w_invoice = Some invoice, w_preimage = None, w_peerPubkey = Some (k_hexEncode (w_sdk w) (pl_boltz p)),
       w_exitDelay = Some (pl_exitDelay p)\<rparr>) (\<lambda>r. ret ()))"

definition send_fund :: "world \<Rightarrow> send_plan \<Rightarrow> string bridge" where
  "send_fund w p =
     catching
       (andthen (log_call Spend_wallet (pl_id p)) (\<lambda>u.
        await (\<lambda>t. w_sendBitcoin w t
          (k_scriptAddress (w_sdk w) (pl_script p) (hrp (i_network (pl_info p))) (pl_server p))
          (pl_value p) (pl_funding p))))
       (\<lambda>e. andthen (failIfUnfunded w (pl_id p)) (\<lambda>b. throw e))"

fun locateFunding :: "nat \<Rightarrow> world \<Rightarrow> atomic_script \<Rightarrow> int \<Rightarrow> string \<Rightarrow> (shared_vtxo \<times> vcoin) bridge" where
  "locateFunding 0 w script value fundingTxid = throw (Error ''shared vtxo never appeared after funding'')"
| "locateFunding (Suc n) w script value fundingTxid =
     andthen (await (\<lambda>t. w_byScript w t (script_hex w script) True)) (\<lambda>coins.
     (case (case find_first (\<lambda>x. c_txid x = fundingTxid) coins of
              Some v \<Rightarrow> Some v | None \<Rightarrow> find_first (\<lambda>x. c_value x = value) coins) of
        Some v \<Rightarrow> ret (\<lparr>sh_txid = c_txid v, sh_vout = c_vout v, sh_value = c_value v, sh_script = script\<rparr>, v)
      | None \<Rightarrow> locateFunding n w script value fundingTxid))"

definition send_capture :: "world \<Rightarrow> send_plan \<Rightarrow> shared_vtxo \<Rightarrow> vcoin \<Rightarrow> unit bridge" where
  "send_capture w p shared coin =
     catching
       (andthen (await (\<lambda>t. Inr (w_ix w t))) (\<lambda>ix.
        andthen (clock_ms (w_now w)) (\<lambda>now.
        andthen (captureVtxo (k_lib (w_sdk w)) ix now
          \<lparr>v_txid = sh_txid shared, v_vout = sh_vout shared, v_valueSat = sh_value shared,
           v_source = Atomic_source, v_script = script_hex w (pl_script p),
           v_tapTree = k_hexEncode (w_sdk w) (k_encode (w_sdk w) (pl_script p)),
           v_status = (case c_state coin of None \<Rightarrow> ''unknown'' | Some st \<Rightarrow> st),
           v_expiresAt = expirySec coin, v_chain = []\<rparr>) (\<lambda>r. ret ()))))
       (\<lambda>e. ret ())"

definition send_presign :: "world \<Rightarrow> send_plan \<Rightarrow> shared_vtxo \<Rightarrow> presig bridge" where
  "send_presign w p shared =
     andthen (await (w_walletAddress w)) (\<lambda>addr.
     andthen (lift_res (k_decodeAddress (w_sdk w) addr)) (\<lambda>funderAddr.
     andthen (lift_res (case zi_boltzScriptDelay (pl_init p) of
        None \<Rightarrow> Inr (pl_exitDelay p) | Some s \<Rightarrow> big_int s)) (\<lambda>boltzD.
     (let boltzAddr = k_defaultAddress (w_sdk w) (pl_boltz p) (pl_server p) (timelockType boltzD) boltzD
            (hrp (i_network (pl_info p)))
      in
     andthen (lift_res (computeClaimSplit \<lparr>sa_funderAddress = funderAddr, sa_claimerAddress = boltzAddr,
        sa_fundingValue = pl_value p, sa_amount = pl_amount p, sa_dust = pl_dust p,
        sa_feeSats = Some (pl_fee p), sa_feeRecipient = None, sa_maxOpReturn = None\<rparr>)) (\<lambda>split.
     await (\<lambda>t. w_presignClaim w t shared (cs_outputs split) (pl_unroll p)))))))"

text \<open>Handing the presigs over, and the branch where boltz did not claim.\<close>

definition send_handover :: "world \<Rightarrow> send_plan \<Rightarrow> shared_vtxo \<Rightarrow> presig \<Rightarrow> string bridge" where
  "send_handover w p shared presig =
     andthen (transition w (pl_id p) Ln_inflight) (\<lambda>u.
     andthen (log_call Hand_presigs (pl_id p)) (\<lambda>u.
     andthen (await (\<lambda>t. w_fund w t (pl_id p) (outpoint_key (sh_txid shared) (sh_vout shared)) presig)) (\<lambda>fund.
     if zf_status fund \<noteq> ''claimed'' \<or> zf_preimage fund = None then
       andthen (transition w (pl_id p) (if zf_status fund = ''failed'' then Refund_wait else Failed)) (\<lambda>u.
       andthen (modify (notify Send_fail)) (\<lambda>u.
       andthen (if zf_status fund = ''failed''
          then catching (andthen (cancelAtomicSend w (pl_id p)) (\<lambda>c. ret True)) (\<lambda>e. ret False)
          else ret False) (\<lambda>unwound.
       throw (Error (if unwound then ''funding already returned'' else ''funds refundable after T'')))))
     else ret (the (zf_preimage fund)))))"

definition send_settle :: "world \<Rightarrow> send_plan \<Rightarrow> shared_vtxo \<Rightarrow> string \<Rightarrow> unit bridge" where
  "send_settle w p shared preimage =
     andthen (confirmSpent w (sh_txid shared) (sh_vout shared)) (\<lambda>spent.
     andthen (if spent
        then andthen (transition w (pl_id p) Claimed) (\<lambda>u.
             releaseVaultRow (sh_txid shared) (Some (sh_vout shared)))
        else setPreimage w (pl_id p) preimage) (\<lambda>u.
     modify (notify Send_subdust)))"

record send_result =
  sr_amount :: int
  sr_preimage :: string
  sr_txid :: string
  sr_swapId :: string

definition send_live :: "world \<Rightarrow> string \<Rightarrow> send_plan \<Rightarrow> send_result bridge" where
  "send_live w invoice p =
     andthen (send_create w invoice p) (\<lambda>u.
     andthen (send_fund w p) (\<lambda>txid.
     andthen (locateFunding 20 w (pl_script p) (pl_value p) txid) (\<lambda>sc.
     (let shared = fst sc; coin = snd sc in
     andthen (setFundingOutpoint w (pl_id p) (outpoint_key (sh_txid shared) (sh_vout shared))) (\<lambda>u.
     andthen (send_capture w p shared coin) (\<lambda>u.
     andthen (send_presign w p shared) (\<lambda>presig.
     andthen (setPresigs w (pl_id p) presig) (\<lambda>u.
     andthen (transition w (pl_id p) Funded) (\<lambda>u.
     andthen (send_handover w p shared presig) (\<lambda>preimage.
     andthen (send_settle w p shared preimage) (\<lambda>u.
     ret \<lparr>sr_amount = pl_amount p + pl_fee p, sr_preimage = preimage, sr_txid = txid,
       sr_swapId = pl_id p\<rparr>)))))))))))"

definition set_add :: "string \<Rightarrow> string list \<Rightarrow> string list" where
  "set_add i xs = (if i \<in> set xs then xs else xs @ [i])"

definition atomicSubdustSend :: "world \<Rightarrow> string \<Rightarrow> int \<Rightarrow> send_result bridge" where
  "atomicSubdustSend w invoice a =
     andthen (send_prepare w invoice a) (\<lambda>p.
     andthen (modify (inflight_update (set_add (pl_id p)))) (\<lambda>u.
     finally_do (send_live w invoice p) (inflight_update (removeAll (pl_id p)))))"

subsection \<open>The resume pass (\<open>resumeAtomicSends\<close>)\<close>

record resume_result =
  re_refunded :: "string list"
  re_cancelled :: "string list"
  re_unfunded :: "string list"
  re_claimed :: "string list"
  re_refundWait :: "string list"
  re_waiting :: nat
  re_failed :: "(string \<times> err) list"

definition empty_resume :: resume_result where
  "empty_resume = \<lparr>re_refunded = [], re_cancelled = [], re_unfunded = [], re_claimed = [],
     re_refundWait = [], re_waiting = 0, re_failed = []\<rparr>"

type_synonym outcome = "resume_result \<Rightarrow> resume_result"

definition wait_one :: outcome where
  "wait_one r = r\<lparr>re_waiting := Suc (re_waiting r)\<rparr>"

definition tryCancel :: "world \<Rightarrow> string \<Rightarrow> outcome bridge" where
  "tryCancel w i = catching
     (andthen (cancelAtomicSend w i) (\<lambda>c. ret (\<lambda>r. r\<lparr>re_cancelled := re_cancelled r @ [i]\<rparr>)))
     (\<lambda>e. ret wait_one)"

definition markClaimed :: "world \<Rightarrow> string \<Rightarrow> string option \<Rightarrow> string option \<Rightarrow> bool bridge" where
  "markClaimed w i preimage fundingOutpoint =
     (let op = (if truthy fundingOutpoint then parse_outpoint (the fundingOutpoint) else None) in
     andthen (case op of
         None \<Rightarrow> ret True
       | Some (txid, None) \<Rightarrow> ret False
       | Some (txid, Some vout) \<Rightarrow> confirmSpent w txid vout) (\<lambda>confirmed.
     if \<not> confirmed then
       andthen (if truthy preimage then setPreimage w i (the preimage) else ret ()) (\<lambda>u. ret False)
     else
       andthen (reading (\<lambda>d. repo_get d i)) (\<lambda>row. case row of
         None \<Rightarrow> throw (Error ''TypeError'')
       | Some cur \<Rightarrow>
          andthen (if s_state cur = Funded then transition w i Ln_inflight else ret ()) (\<lambda>u.
          andthen (transition w i Claimed) (\<lambda>u.
          andthen (modify (notify Send_subdust)) (\<lambda>u.
          andthen (if truthy preimage then setPreimage w i (the preimage) else ret ()) (\<lambda>u.
          andthen (case op of None \<Rightarrow> ret () | Some (txid, vout) \<Rightarrow> releaseVaultRow txid vout) (\<lambda>u.
          ret True))))))))"

definition sendStatusSafe :: "world \<Rightarrow> string \<Rightarrow> send_status option bridge" where
  "sendStatusSafe w i = await (\<lambda>t. Inr (w_status w t i))"

definition status_is :: "send_status option \<Rightarrow> string \<Rightarrow> bool" where
  "status_is st name = (case st of None \<Rightarrow> False | Some s \<Rightarrow> zs_state s = name)"

definition status_preimage :: "send_status option \<Rightarrow> string option" where
  "status_preimage st = (case st of None \<Rightarrow> None | Some s \<Rightarrow> zs_preimage s)"

definition resume_refund :: "world \<Rightarrow> swap_row \<Rightarrow> outcome bridge" where
  "resume_refund w swap =
     andthen (sendStatusSafe w (s_id swap)) (\<lambda>st.
     andthen (if status_is st ''claimed'' \<and> s_state swap \<noteq> Refund_wait
        then markClaimed w (s_id swap) (status_preimage st) (s_fundingOutpoint swap) else ret False) (\<lambda>claimed.
     if claimed then ret (\<lambda>r. r\<lparr>re_claimed := re_claimed r @ [s_id swap]\<rparr>)
     else andthen (refundAtomicSend w (s_id swap)) (\<lambda>x.
       ret (\<lambda>r. r\<lparr>re_refunded := re_refunded r @ [s_id swap]\<rparr>))))"

definition resume_poll :: "world \<Rightarrow> swap_row \<Rightarrow> outcome bridge" where
  "resume_poll w swap =
     andthen (sendStatusSafe w (s_id swap)) (\<lambda>st.
     if status_is st ''claimed'' then
       andthen (markClaimed w (s_id swap) (status_preimage st) (s_fundingOutpoint swap)) (\<lambda>ok.
       ret (if ok then (\<lambda>r. r\<lparr>re_claimed := re_claimed r @ [s_id swap]\<rparr>) else wait_one))
     else if status_is st ''failed'' \<or> status_is st ''refund_wait'' then
       andthen (if s_state swap \<noteq> Refund_wait
          then andthen (transition w (s_id swap) Refund_wait) (\<lambda>u. modify (notify Send_fail)) else ret ()) (\<lambda>u.
       andthen (tryCancel w (s_id swap)) (\<lambda>out.
       ret (\<lambda>r. out (r\<lparr>re_refundWait := re_refundWait r @ [s_id swap]\<rparr>))))
     else
       andthen (clock_ms (w_now w)) (\<lambda>now.
       if now - s_updatedAt swap > LN_INFLIGHT_STUCK_MS then tryCancel w (s_id swap) else ret wait_one))"

definition resume_act :: "world \<Rightarrow> int \<Rightarrow> swap_row \<Rightarrow> outcome bridge" where
  "resume_act w nowSecs swap =
     andthen (lift_res (classifyResume (s_direction swap) (s_state swap) (s_refundLocktime swap) nowSecs)) (\<lambda>action.
     catching
       (case action of
          Refund \<Rightarrow> resume_refund w swap
        | Poll \<Rightarrow> resume_poll w swap
        | Cancel \<Rightarrow> tryCancel w (s_id swap)
        | _ \<Rightarrow> ret wait_one)
       (\<lambda>e. ret (if e = Refund_not_yet then wait_one
          else (\<lambda>r. r\<lparr>re_failed := re_failed r @ [(s_id swap, e)]\<rparr>))))"

definition resume_swap :: "world \<Rightarrow> int \<Rightarrow> swap_row \<Rightarrow> outcome bridge" where
  "resume_swap w nowSecs swap =
     (if s_direction swap \<noteq> Send then ret id
      else andthen (reading (\<lambda>d. s_id swap \<in> set (inflight d))) (\<lambda>live.
        if live then ret wait_one else resume_act w nowSecs swap))"

definition resume_init :: "world \<Rightarrow> int \<Rightarrow> swap_row \<Rightarrow> outcome bridge" where
  "resume_init w nowMs swap =
     andthen (reading (\<lambda>d. s_id swap \<in> set (inflight d))) (\<lambda>live.
     if live \<or> s_direction swap \<noteq> Send \<or> truthy (s_fundingOutpoint swap) \<or> s_state swap \<noteq> Init
     then ret id
     else catching
       (andthen (classifyUnfundedInit w swap) (\<lambda>verdict.
        if verdict = Unfunded \<and> nowMs - s_createdAt swap > UNFUNDED_GRACE_MS
        then andthen (transition w (s_id swap) Failed) (\<lambda>u.
          ret (\<lambda>r. r\<lparr>re_unfunded := re_unfunded r @ [s_id swap]\<rparr>))
        else ret id))
       (\<lambda>e. ret (\<lambda>r. r\<lparr>re_failed := re_failed r @ [(s_id swap, e)]\<rparr>)))"

fun resume_each :: "(swap_row \<Rightarrow> outcome bridge) \<Rightarrow> swap_row list \<Rightarrow> resume_result \<Rightarrow> resume_result bridge" where
  "resume_each step [] r = ret r"
| "resume_each step (swap # rest) r = andthen (step swap) (\<lambda>out. resume_each step rest (out r))"

definition resumable_now :: "swap_row list bridge" where
  "resumable_now = (\<lambda>d. (repo_listResumable d, d))"

definition resumeAtomicSends :: "world \<Rightarrow> resume_result bridge" where
  "resumeAtomicSends w =
     andthen (clock_ms (w_now w)) (\<lambda>nowMs.
     andthen resumable_now (\<lambda>rows.
     andthen (resume_each (resume_init w nowMs) rows empty_resume) (\<lambda>r.
     andthen resumable_now (\<lambda>rows.
     resume_each (resume_swap w (nowMs div 1000)) rows r))))"

end
