(* ===== verification/Send_Safety.thy ===== *)
theory Send_Safety
  imports Atomic_Send
begin

text \<open>
  What the send handlers guarantee whatever the world answers: rows move along the state machine
  only, no call that can move money is made before the row on disk could recover it, a live send's
  row belongs to that send, and each verdict the handlers write down rests on an answer of the
  indexer.
\<close>

subsection \<open>Every handler moves rows along the machine\<close>

lemma moves_option:
  "(x = None \<Longrightarrow> moves R m) \<Longrightarrow> (\<And>y. x = Some y \<Longrightarrow> moves R (f y))
   \<Longrightarrow> moves R (case x of None \<Rightarrow> m | Some y \<Rightarrow> f y)"
  by (cases x) auto

lemma moves_prod: "(\<And>x y. p = (x, y) \<Longrightarrow> moves R (f x y)) \<Longrightarrow> moves R (case p of (x, y) \<Rightarrow> f x y)"
  by (cases p) auto

lemma moves_triple: "(\<And>d. triple (\<lambda>s. s = d) m (\<lambda>x. R d) (\<lambda>e. R d)) \<Longrightarrow> moves R m"
  unfolding moves_def
proof
  fix s assume "\<And>d. triple (\<lambda>s. s = d) m (\<lambda>x. R d) (\<lambda>e. R d)"
  then have "triple (\<lambda>s'. s' = s) m (\<lambda>x. R s) (\<lambda>e. R s)" .
  then show "R s (snd (m s))"
    by (cases "m s"; cases "fst (m s)") (auto simp: triple_def)
qed

lemma triple_snd: "triple P m (\<lambda>x. Q) (\<lambda>e. Q) \<Longrightarrow> P s \<Longrightarrow> Q (snd (m s))"
  by (cases "m s"; cases "fst (m s)") (auto simp: triple_def)

lemma bks_registered: "moves same_books (registered n w pk txid vout)"
proof (induction n)
  case 0
  show ?case unfolding registered.simps by (rule bks_rules)
next
  case (Suc n)
  then show ?case unfolding registered.simps by (intro bks_rules)
qed

lemma bks_check_row: "moves same_books (check_row i what)"
  unfolding check_row_def by (intro bks_rules moves_option)

lemma bks_load_unwind: "moves same_books (load_unwind w swap)"
  unfolding load_unwind_def by (intro bks_rules moves_option moves_prod)

lemma bks_estimateMtp: "moves same_books (estimateMtp w)"
  unfolding estimateMtp_def by (intro bks_rules)

lemma bks_locate: "moves same_books (locateFunding n w script value txid)"
proof (induction n)
  case 0
  show ?case unfolding locateFunding.simps by (rule bks_rules)
next
  case (Suc n)
  then show ?case unfolding locateFunding.simps by (intro bks_rules moves_option)
qed

lemma bks_capture_send: "moves same_books (send_capture w p shared coin)"
  unfolding send_capture_def by (intro bks_rules bks_capture)

lemma bks_presign: "moves same_books (send_presign w p shared)"
  unfolding send_presign_def Let_def by (intro bks_rules)

lemma bks_prepare: "moves same_books (send_prepare w invoice a)"
  unfolding send_prepare_def Let_def by (intro bks_rules)

lemma bks_status: "moves same_books (sendStatusSafe w i)"
  unfolding sendStatusSafe_def by (intro bks_rules)

lemma bks_resumable: "moves same_books resumable_now"
  by (simp add: resumable_now_def moves_def bks.R_refl)

lemmas quiet = bks_rules bks_registered bks_check_row bks_load_unwind bks_estimateMtp bks_locate
  bks_capture_send bks_presign bks_prepare bks_status bks_resumable bks_confirm bks_release bks_capture

lemmas swp_quiet = swp_rules moves_option moves_prod quiet [THEN moves_books]

text \<open>The two executors, for any preorder on databases that their writes and their log respect.\<close>

locale unwind_order = progress R for R :: "db \<Rightarrow> db \<Rightarrow> bool" +
  fixes w :: world and i :: string
  assumes U_books: "same_books d d' \<Longrightarrow> R d d'"
    and U_transition: "moves R (transition w i st)"
    and U_log: "moves R (log_call kind i)"
begin

lemma U_quiet: "moves same_books m \<Longrightarrow> moves R m"
  by (rule moves_weaken [OF _ U_books])

lemmas U_rules = moves_rules moves_option moves_prod U_transition U_log quiet [THEN U_quiet]

lemma U_refund_attempts: "moves R (refund_attempts w i x outs)"
proof (induction outs)
  case Nil
  show ?case unfolding refund_attempts.simps by (intro U_rules)
next
  case (Cons o1 outs)
  then show ?case unfolding refund_attempts.simps by (intro U_rules)
qed

lemma U_cancel_attempts: "moves R (cancel_attempts w i x outs)"
proof (induction outs)
  case Nil
  show ?case unfolding cancel_attempts.simps by (intro U_rules)
next
  case (Cons o1 outs)
  then show ?case unfolding cancel_attempts.simps by (intro U_rules)
qed

lemma U_unwind: "moves R (refundAtomicSend w i) \<and> moves R (cancelAtomicSend w i)"
  unfolding refundAtomicSend_def cancelAtomicSend_def Let_def
  by (intro conjI U_rules U_refund_attempts U_cancel_attempts)

end

text \<open>The handlers' parts, for any preorder on databases the store operations, the log of calls and
  the quiet parts respect.\<close>

locale send_order = progress R for R :: "db \<Rightarrow> db \<Rightarrow> bool" +
  fixes w :: world and mine :: "string \<Rightarrow> bool"
  assumes R_books: "same_books d d' \<Longrightarrow> R d d'"
    and R_transition: "mine i \<Longrightarrow> moves R (transition w i st)"
    and R_outpoint: "mine i \<Longrightarrow> moves R (setFundingOutpoint w i op)"
    and R_preimage: "mine i \<Longrightarrow> moves R (setPreimage w i pre)"
    and R_unwind: "mine i \<Longrightarrow> moves R (refundAtomicSend w i) \<and> moves R (cancelAtomicSend w i)"
    and R_live: "\<not> mine i \<Longrightarrow> i \<notin> set (inflight d) \<Longrightarrow> R d d'"
begin

lemma R_quiet: "moves same_books m \<Longrightarrow> moves R m"
  by (rule moves_weaken [OF _ R_books])

lemmas R_rules = moves_rules moves_option moves_prod R_transition R_outpoint R_preimage
  quiet [THEN R_quiet]

lemma R_classify: "mine (s_id swap) \<Longrightarrow> moves R (classifyUnfundedInit w swap)"
  unfolding classifyUnfundedInit_def by (intro R_rules)

lemma R_tryCancel: "mine i \<Longrightarrow> moves R (tryCancel w i)"
  unfolding tryCancel_def using R_unwind by (intro R_rules) auto

lemma R_markClaimed: "mine i \<Longrightarrow> moves R (markClaimed w i preimage op)"
  unfolding markClaimed_def Let_def by (intro R_rules)

lemma R_resume_refund: "mine (s_id swap) \<Longrightarrow> moves R (resume_refund w swap)"
  unfolding resume_refund_def using R_unwind by (intro R_rules R_markClaimed) auto

lemma R_resume_poll: "mine (s_id swap) \<Longrightarrow> moves R (resume_poll w swap)"
  unfolding resume_poll_def by (intro R_rules R_markClaimed R_tryCancel)

lemma R_resume_act: "mine (s_id swap) \<Longrightarrow> moves R (resume_act w nowSecs swap)"
  unfolding resume_act_def
  by (intro R_rules) (auto split: resume_action.split intro!: R_rules R_resume_refund R_resume_poll R_tryCancel)

lemma R_unless_live:
  assumes "mine i \<Longrightarrow> moves R m"
  shows "moves R (andthen (reading (\<lambda>d. i \<in> set (inflight d))) (\<lambda>live. if live \<or> b then ret x else m))"
  unfolding moves_def
proof
  fix s
  show "R s (snd (andthen (reading (\<lambda>d. i \<in> set (inflight d))) (\<lambda>live. if live \<or> b then ret x else m) s))"
    using assms R_live [of i s] by (cases "mine i") (auto simp: R_refl dest: movesD)
qed

lemma R_resume_swap: "moves R (resume_swap w nowSecs swap)"
  unfolding resume_swap_def
  by (rule moves_if, rule moves_ret) (rule R_unless_live [where b = False, simplified], rule R_resume_act)

lemma R_resume_init: "moves R (resume_init w nowMs swap)"
  unfolding resume_init_def by (rule R_unless_live) (intro R_rules R_classify)

lemma R_resume_each: "(\<And>swap. moves R (step swap)) \<Longrightarrow> moves R (resume_each step rows r)"
proof (induction rows arbitrary: r)
  case Nil
  show ?case unfolding resume_each.simps by (rule R_rules)
next
  case (Cons swap rows)
  show ?case unfolding resume_each.simps by (rule moves_andthen [OF Cons.prems Cons.IH [OF Cons.prems]])
qed

lemma R_resume: "moves R (resumeAtomicSends w)"
  unfolding resumeAtomicSends_def by (intro R_rules R_resume_each R_resume_swap R_resume_init)

end

interpretation swpu: unwind_order swap_progress w i for w i
  by unfold_locales (auto intro: progress_of_books swp_rules)

interpretation swps: send_order swap_progress w "\<lambda>i. True" for w
  by unfold_locales (use swpu.U_unwind in \<open>auto intro: progress_of_books swp_rules\<close>)

lemma moves_failIfUnfunded: "moves swap_progress (failIfUnfunded w i)"
  unfolding failIfUnfunded_def by (intro swp_quiet swps.R_classify) simp_all

lemma moves_send_live: "moves swap_progress (send_live w invoice p)"
proof -
  have "moves swap_progress (send_create w invoice p)"
    unfolding send_create_def by (intro swp_quiet moves_create) simp
  moreover have "moves swap_progress (send_fund w p)"
    unfolding send_fund_def by (intro swp_quiet moves_failIfUnfunded)
  moreover have "moves swap_progress (send_handover w p shared presig)" for shared presig
    unfolding send_handover_def using swpu.U_unwind by (intro swp_quiet) blast+
  moreover have "moves swap_progress (send_settle w p shared preimage)" for shared preimage
    unfolding send_settle_def by (intro swp_quiet)
  ultimately show ?thesis unfolding send_live_def Let_def by (intro swp_quiet)
qed

lemma moves_send: "moves swap_progress (atomicSubdustSend w invoice a)"
  unfolding atomicSubdustSend_def by (intro swp_quiet moves_send_live) simp

text \<open>Whatever the ASP, the indexer, the wallet and boltz answer, and whether it returns or
  throws, every handler of the send side moves each stored swap along legal transitions only: no
  row disappears, no contract column changes, the keys stay unique and a terminal row stays as it
  is.\<close>

theorem send_moves_legally:
  "swap_progress d (snd (atomicSubdustSend w invoice a d))
   \<and> swap_progress d (snd (resumeAtomicSends w d))
   \<and> swap_progress d (snd (refundAtomicSend w i d))
   \<and> swap_progress d (snd (cancelAtomicSend w i d))
   \<and> swap_progress d (snd (failIfUnfunded w i d))"
  using swpu.U_unwind [of w i] moves_send [of w invoice a] swps.R_resume [of w] moves_failIfUnfunded [of w i]
  by (simp add: movesD)

subsection \<open>A live send owns its row\<close>

definition leaves :: "string set \<Rightarrow> db \<Rightarrow> db \<Rightarrow> bool" where
  "leaves I d d' \<longleftrightarrow> (set (inflight d) = I \<longrightarrow> inflight d' = inflight d
     \<and> (\<forall>i \<in> I. repo_get d' i = repo_get d i)
     \<and> filter (\<lambda>c. call_swap c \<in> I) (calls d') = filter (\<lambda>c. call_swap c \<in> I) (calls d))"

interpretation lvp: progress "leaves I" for I
  by unfold_locales (auto simp: leaves_def)

lemma leaves_books: "same_books d d' \<Longrightarrow> leaves I d d'"
  by (simp add: leaves_def same_books_def repo_get_def)

lemma leaves_update:
  assumes "i \<notin> I" and "\<And>r. s_id (f r) = s_id r"
  shows "leaves I d (update_swap i f d)"
  using assms by (auto simp: leaves_def repo_get_update_swap) (simp_all add: update_swap_def)

lemma leaves_writes:
  assumes "i \<notin> I"
  shows "moves (leaves I) (transition w i st)" "moves (leaves I) (setFundingOutpoint w i op)"
    "moves (leaves I) (setPreimage w i pre)" "moves (leaves I) (log_call kind i)"
proof -
  have t: "moves (leaves I) (repo_transition now i st)" for now
    unfolding moves_def using assms
    by (simp add: repo_transition_eq lvp.R_refl leaves_update split: option.split sum.split)
  have s: "moves (leaves I) (repo_touch now i f)" if "\<And>r. s_id (f r) = s_id r" for now f
    unfolding moves_def using assms that
    by (simp add: repo_touch_eq lvp.R_refl leaves_update split: option.split)
  have c: "moves (leaves I) (clock_ms (w_now w))"
    by (rule moves_weaken [OF bks_clock leaves_books])
  show "moves (leaves I) (transition w i st)"
    unfolding transition_def by (intro lvp.moves_rules t c)
  show "moves (leaves I) (setFundingOutpoint w i op)" "moves (leaves I) (setPreimage w i pre)"
    unfolding setFundingOutpoint_def repo_setFundingOutpoint_def setPreimage_def repo_setPreimage_def
    by (intro lvp.moves_rules s c; simp)+
  show "moves (leaves I) (log_call kind i)"
    unfolding log_call_def using assms by (intro lvp.moves_modify) (simp add: leaves_def repo_get_def)
qed

interpretation lvo: send_order "leaves I" w "\<lambda>i. i \<notin> I" for I w
proof
  fix i assume "i \<notin> I"
  then have ord: "unwind_order (leaves I) w i"
    by unfold_locales (auto intro: leaves_books leaves_writes)
  show "moves (leaves I) (refundAtomicSend w i) \<and> moves (leaves I) (cancelAtomicSend w i)"
    by (rule unwind_order.U_unwind [OF ord])
next
  show "\<not> i \<notin> I \<Longrightarrow> i \<notin> set (inflight d) \<Longrightarrow> leaves I d d'" for i d d'
    unfolding leaves_def by blast
qed (simp_all add: leaves_books leaves_writes)

text \<open>The resume pass never touches a swap a live send is driving. For every id registered in
  flight, the row after the pass is the row before it, no refund, cancel or other money-moving call
  is made for it, and the registration itself stays.\<close>

theorem resume_respects_live:
  assumes "i \<in> set (inflight d)"
  shows "repo_get (snd (resumeAtomicSends w d)) i = repo_get d i
    \<and> inflight (snd (resumeAtomicSends w d)) = inflight d
    \<and> filter (\<lambda>c. call_swap c = i) (calls (snd (resumeAtomicSends w d))) = filter (\<lambda>c. call_swap c = i) (calls d)"
proof -
  let ?I = "set (inflight d)"
  have l: "leaves ?I d (snd (resumeAtomicSends w d))"
    using movesD [OF lvo.R_resume [of ?I w], of d] .
  have split: "filter (\<lambda>c. call_swap c = i) cs = filter (\<lambda>c. call_swap c = i) (filter (\<lambda>c. call_swap c \<in> ?I) cs)" for cs
    using assms by (auto simp: filter_filter intro!: filter_cong)
  show ?thesis using l assms unfolding leaves_def by (metis split)
qed

subsection \<open>Unwinding: what a refund or a cancel has seen before it says so\<close>

definition unwindable :: "swap_row \<Rightarrow> bool" where
  "unwindable r \<longleftrightarrow> s_direction r = Send \<and> s_state r \<in> set refundable_states
     \<and> truthy (s_fundingOutpoint r) \<and> truthy (s_peerPubkey r) \<and> s_exitDelay r \<noteq> None"

text \<open>All that happened since \<open>d\<close> is reads, and calls of one kind for one swap, each made while the
  row stood as in \<open>d\<close>.\<close>

definition sent :: "ext_kind \<Rightarrow> string \<Rightarrow> db \<Rightarrow> db \<Rightarrow> bool" where
  "sent kind i d s \<longleftrightarrow> swaps s = swaps d \<and> inflight s = inflight d \<and> tick d \<le> tick s
     \<and> (\<exists>cs. calls s = calls d @ cs \<and> set cs \<subseteq> {Ext_call kind i (repo_get d i)})"

definition dropped :: "world \<Rightarrow> unwind \<Rightarrow> db \<Rightarrow> db \<Rightarrow> bool" where
  "dropped w x d s \<longleftrightarrow> (\<exists>t coins. tick d \<le> t \<and> t < tick s \<and> w_byScript w t (uw_pk x) True = Inr coins
     \<and> \<not> still_listed (sh_txid (uw_shared x)) (sh_vout (uw_shared x)) coins)"

definition loaded :: "world \<Rightarrow> swap_row \<Rightarrow> unwind \<Rightarrow> bool" where
  "loaded w swap x \<longleftrightarrow>
     parse_outpoint (the (s_fundingOutpoint swap)) = Some (sh_txid (uw_shared x), Some (sh_vout (uw_shared x)))
     \<and> (\<exists>t coins. w_byScript w t (uw_pk x) True = Inr coins
          \<and> (\<exists>c \<in> set coins. c_txid c = sh_txid (uw_shared x) \<and> c_vout c = sh_vout (uw_shared x)
               \<and> c_value c = sh_value (uw_shared x)))"

lemma sent_refl: "sent kind i d d"
  by (simp add: sent_def)

lemma sent_books: "sent kind i d s \<Longrightarrow> same_books s s' \<Longrightarrow> sent kind i d s'"
  by (auto simp: sent_def same_books_def)

lemma sent_log: "sent kind i d s \<Longrightarrow> sent kind i d (snd (log_call kind i s))"
proof -
  assume "sent kind i d s"
  then obtain cs where cs: "swaps s = swaps d" "inflight s = inflight d" "tick d \<le> tick s"
    "calls s = calls d @ cs" "set cs \<subseteq> {Ext_call kind i (repo_get d i)}" by (auto simp: sent_def)
  have "calls (snd (log_call kind i s)) = calls d @ (cs @ [Ext_call kind i (repo_get d i)])"
    by (simp add: log_call_def cs repo_get_def row_get_def)
  moreover have "set (cs @ [Ext_call kind i (repo_get d i)]) \<subseteq> {Ext_call kind i (repo_get d i)}"
    using cs(5) by simp
  ultimately show ?thesis using cs unfolding sent_def by (simp add: log_call_def)
qed

lemma triple_log_sent:
  "(\<And>s. P s \<Longrightarrow> sent kind i d s) \<Longrightarrow> triple P (log_call kind i) (\<lambda>u. sent kind i d) E"
  using sent_log by (auto simp: triple_def log_call_def)

lemma triple_quiet_sent:
  "moves same_books m \<Longrightarrow> (\<And>s. P s \<Longrightarrow> sent kind i d s)
   \<Longrightarrow> triple P m (\<lambda>x. sent kind i d) (\<lambda>e. sent kind i d)"
  using triple_moves [where R = same_books and m = m] sent_books by metis

lemma registered_True:
  "registered n w pk txid vout s = (Inr True, s') \<Longrightarrow>
     \<exists>t coins. tick s \<le> t \<and> t < tick s' \<and> w_byScript w t pk True = Inr coins \<and> \<not> still_listed txid vout coins"
proof (induction n arbitrary: s)
  case (Suc n)
  then obtain check where c: "w_byScript w (tick s) pk True = Inr check"
    by (auto simp: await_def elim!: andthen_InrE)
  show ?case
  proof (cases "still_listed txid vout check")
    case True
    with Suc.prems c have "registered n w pk txid vout (s\<lparr>tick := Suc (tick s)\<rparr>) = (Inr True, s')"
      by (simp add: await_def andthen_def)
    from Suc.IH [OF this] show ?thesis by (auto intro: Suc_leD)
  next
    case False
    with Suc.prems c show ?thesis by (auto simp: await_def andthen_def)
  qed
qed simp

lemma triple_registered:
  assumes "\<And>s. P s \<Longrightarrow> sent kind i d s"
  shows "triple P (registered 8 w (uw_pk x) (sh_txid (uw_shared x)) (sh_vout (uw_shared x)))
    (\<lambda>ok s. sent kind i d s \<and> (ok \<longrightarrow> dropped w x d s)) (\<lambda>e. sent kind i d)"
proof (rule tripleI)
  fix s ok t assume "P s" and run: "registered 8 w (uw_pk x) (sh_txid (uw_shared x)) (sh_vout (uw_shared x)) s = (Inr ok, t)"
  then have s: "sent kind i d s" using assms by simp
  with movesD [OF bks_registered, of s] run have "sent kind i d t" by (metis sent_books snd_conv)
  moreover have "dropped w x d t" if ok
  proof -
    from registered_True [OF run [unfolded that [THEN eqTrueI]]] obtain u coins where
      "tick s \<le> u" "u < tick t" "w_byScript w u (uw_pk x) True = Inr coins"
      "\<not> still_listed (sh_txid (uw_shared x)) (sh_vout (uw_shared x)) coins" by blast
    moreover have "tick d \<le> tick s" using s by (simp add: sent_def)
    ultimately show ?thesis unfolding dropped_def by (meson le_trans)
  qed
  ultimately show "sent kind i d t \<and> (ok \<longrightarrow> dropped w x d t)" by simp
next
  fix s e t assume "P s" and run: "registered 8 w (uw_pk x) (sh_txid (uw_shared x)) (sh_vout (uw_shared x)) s = (Inl e, t)"
  then show "sent kind i d t" using assms movesD [OF bks_registered, of s] by (metis sent_books snd_conv)
qed

lemma triple_check:
  "triple (\<lambda>s. s = d) (check_row i what)
     (\<lambda>swap s. s = d \<and> repo_get d i = Some swap \<and> unwindable swap) (\<lambda>e s. s = d)"
  unfolding check_row_def
  by (auto simp: triple_def andthen_def guard_eff_def unwindable_def split: option.splits)

lemma triple_load:
  assumes "\<And>s. P s \<Longrightarrow> sent kind i d s"
  shows "triple P (load_unwind w swap) (\<lambda>x s. sent kind i d s \<and> loaded w swap x) (\<lambda>e. sent kind i d)"
proof (rule tripleI)
  fix s x t assume "P s" and run: "load_unwind w swap s = (Inr x, t)"
  have "loaded w swap x"
    using run unfolding load_unwind_def
    by (auto elim!: andthen_InrE simp: await_def loaded_def split: option.splits prod.splits
        dest!: find_first_Some) blast+
  then show "sent kind i d t \<and> loaded w swap x"
    using assms \<open>P s\<close> movesD [OF bks_load_unwind, of s] run by (metis sent_books snd_conv)
next
  fix s e t assume "P s" and run: "load_unwind w swap s = (Inl e, t)"
  then show "sent kind i d t" using assms movesD [OF bks_load_unwind, of s] by (metis sent_books snd_conv)
qed

lemma triple_refund_attempts:
  "triple (sent Submit_refund i d) (refund_attempts w i x outs)
     (\<lambda>txid s. sent Submit_refund i d s \<and> (txid \<noteq> [] \<longrightarrow> dropped w x d s
        \<and> (\<exists>t. \<exists>out \<in> set outs. w_refundSpend w t (uw_shared x) out (uw_unroll x) = Inr txid)))
     (\<lambda>e. sent Submit_refund i d)"
proof (induction outs)
  case Nil
  show ?case unfolding refund_attempts.simps by (rule triple_ret) simp
next
  case (Cons out outs)
  let ?E = "\<lambda>(e :: err) s. sent Submit_refund i d s"
  let ?acc = "\<lambda>txid. \<exists>t. w_refundSpend w t (uw_shared x) out (uw_unroll x) = Inr txid"
  have ask: "triple (sent Submit_refund i d)
      (await (\<lambda>t. case w_refundSpend w t (uw_shared x) out (uw_unroll x) of
         Inr txid \<Rightarrow> Inr txid | Inl e \<Rightarrow> Inl (if isBlocktimeLocked e then Refund_not_yet else fst e)))
      (\<lambda>txid s. sent Submit_refund i d s \<and> ?acc txid) ?E"
    by (rule triple_await) (auto split: sum.splits elim!: sent_books simp: same_books_def)
  have reg: "triple (\<lambda>s. sent Submit_refund i d s \<and> ?acc txid)
      (registered 8 w (uw_pk x) (sh_txid (uw_shared x)) (sh_vout (uw_shared x)))
      (\<lambda>ok s. (sent Submit_refund i d s \<and> (ok \<longrightarrow> dropped w x d s)) \<and> ?acc txid) ?E" for txid
    by (rule triple_pure) (rule triple_conseq [OF triple_registered [where P = "sent Submit_refund i d"]], auto)
  show ?case unfolding refund_attempts.simps
    apply (rule triple_andthen [OF triple_log_sent [where P = "sent Submit_refund i d"]], simp)
    apply (rule triple_andthen [OF ask])
    apply (rule triple_andthen [OF reg])
    apply (rule triple_if)
     apply (rule triple_ret)
     apply fastforce
    apply (rule triple_conseq [OF Cons.IH])
      apply auto
    done
qed

lemma triple_cancel_attempts:
  "triple (sent Ask_cancel i d) (cancel_attempts w i x outs)
     (\<lambda>txid s. sent Ask_cancel i d s \<and> (txid \<noteq> [] \<longrightarrow> dropped w x d s
        \<and> (\<exists>t op presigs res. \<exists>out \<in> set outs. w_cancel w t i op out presigs = Inr res
             \<and> zc_status res = ''cancelled'' \<and> zc_cancelTxid res = Some txid)))
     (\<lambda>e. sent Ask_cancel i d)"
proof (induction outs)
  case Nil
  show ?case unfolding cancel_attempts.simps by (rule triple_ret) simp
next
  case (Cons out outs)
  let ?E = "\<lambda>(e :: err) s. sent Ask_cancel i d s"
  let ?op = "outpoint_key (sh_txid (uw_shared x)) (sh_vout (uw_shared x))"
  let ?acc = "\<lambda>res. \<exists>t presigs. w_cancel w t i ?op out presigs = Inr res"
  let ?yes = "\<lambda>res. zc_status res = ''cancelled'' \<and> truthy (zc_cancelTxid res)"
  have pre: "triple (sent Ask_cancel i d) (await (\<lambda>t. w_presignCancel w t (uw_shared x) out (uw_unroll x)))
      (\<lambda>ps. sent Ask_cancel i d) ?E"
    by (rule triple_quiet_sent [OF bks_await])
  have ask: "triple (sent Ask_cancel i d) (await (\<lambda>t. w_cancel w t i ?op out presigs))
      (\<lambda>res s. sent Ask_cancel i d s \<and> ?acc res) ?E" for presigs
    by (rule triple_await) (auto elim!: sent_books simp: same_books_def)
  have grd: "triple (\<lambda>s. sent Ask_cancel i d s \<and> ?acc res)
      (guard_eff (?yes res) (Error ''boltz refused the cooperative cancel''))
      (\<lambda>u s. sent Ask_cancel i d s \<and> (?acc res \<and> ?yes res)) ?E" for res
    by (rule triple_guard) auto
  have reg: "triple (\<lambda>s. sent Ask_cancel i d s \<and> (?acc res \<and> ?yes res))
      (registered 8 w (uw_pk x) (sh_txid (uw_shared x)) (sh_vout (uw_shared x)))
      (\<lambda>ok s. (sent Ask_cancel i d s \<and> (ok \<longrightarrow> dropped w x d s)) \<and> (?acc res \<and> ?yes res)) ?E" for res
    by (rule triple_pure) (rule triple_conseq [OF triple_registered [where P = "sent Ask_cancel i d"]], auto)
  show ?case unfolding cancel_attempts.simps
    apply (rule triple_andthen [OF pre])
    apply (rule triple_andthen [OF triple_log_sent [where P = "sent Ask_cancel i d"]], simp)
    apply (rule triple_andthen [OF ask])
    apply (rule triple_andthen [OF grd])
    apply (rule triple_andthen [OF reg])
    apply (rule triple_if)
     apply (rule triple_ret)
     apply (fastforce simp: truthy_def)
    apply (rule triple_conseq [OF Cons.IH])
      apply simp
     apply (simp, blast)
    apply simp
    done
qed

text \<open>A transition that is legal cannot fail.\<close>

lemma transition_run:
  "repo_get s i = Some r \<Longrightarrow> legal_step (s_direction r) (s_state r) st \<Longrightarrow>
   transition w i st s = (Inr (), update_swap i (\<lambda>r. r\<lparr>s_state := st, s_updatedAt := w_now w (tick s)\<rparr>) s)"
  by (simp add: transition_def clock_ms_def andthen_def repo_transition_eq legal_step_def)

lemma repo_get_after [simp]:
  "repo_get (update_swap i (\<lambda>r. r\<lparr>s_state := st, s_updatedAt := now\<rparr>) s) i =
     map_option (\<lambda>r. r\<lparr>s_state := st, s_updatedAt := now\<rparr>) (repo_get s i)"
  by (simp add: repo_get_update_swap)

lemma update_swap_books [simp]:
  "calls (update_swap i f s) = calls s" "inflight (update_swap i f s) = inflight s"
  "tick (update_swap i f s) = tick s" "vtxos (update_swap i f s) = vtxos s" "notices (update_swap i f s) = notices s"
  by (simp_all add: update_swap_def)

lemma repo_get_notify [simp]: "repo_get (notify n s) i = repo_get s i"
  by (simp add: repo_get_def)

lemma releaseVaultRow_run:
  "\<exists>s'. releaseVaultRow t v s = (Inr (), s') \<and> swaps s' = swaps s \<and> calls s' = calls s
     \<and> inflight s' = inflight s \<and> tick s' = tick s \<and> (\<forall>n. v = Some n \<longrightarrow> getVaultVtxo s' t n = None)"
  unfolding releaseVaultRow_def
  by (cases v) (auto simp: get_remove, auto simp: gcOrphanProofs_def removeVtxo_def Let_def)

lemma unwindable_steps:
  assumes "unwindable r"
  shows "s_state r \<noteq> Refund_wait \<Longrightarrow> legal_step (s_direction r) (s_state r) Refund_wait"
    and "legal_step Send Refund_wait Refunded" and "legal_step (s_direction r) (s_state r) Cancelled"
  using assms by (auto simp: unwindable_def refundable_states_def legal_step_iff)

text \<open>What an executor that returned has done and seen, between the states \<open>d\<close> and \<open>s\<close>.\<close>

definition unwound :: "world \<Rightarrow> ext_kind \<Rightarrow> string \<Rightarrow> swap_state \<Rightarrow> swap_row \<Rightarrow> unwind \<Rightarrow> db \<Rightarrow> db \<Rightarrow> bool" where
  "unwound w kind i st swap x d s \<longleftrightarrow> repo_get d i = Some swap \<and> unwindable swap \<and> loaded w swap x \<and> dropped w x d s
     \<and> (\<exists>r. repo_get s i = Some r \<and> s_state r = st \<and> same_contract swap r \<and> s_fundingOutpoint r = s_fundingOutpoint swap)
     \<and> (\<exists>cs. calls s = calls d @ cs \<and> set cs \<subseteq> {Ext_call kind i (Some swap)}) \<and> inflight s = inflight d
     \<and> getVaultVtxo s (sh_txid (uw_shared x)) (sh_vout (uw_shared x)) = None"

lemma dropped_tick: "dropped w x d s \<Longrightarrow> tick s' = tick s \<Longrightarrow> dropped w x d s'"
  by (simp add: dropped_def)

lemma unwoundI:
  assumes "sent kind i d s" "dropped w x d s" "repo_get d i = Some swap" "unwindable swap" "loaded w swap x"
    and "map_option (\<lambda>r. (s_state r, same_contract swap r, s_fundingOutpoint r)) (repo_get s' i)
           = Some (st, True, s_fundingOutpoint swap)"
    and "calls s' = calls s" "inflight s' = inflight s" "tick s' = tick s"
    and "getVaultVtxo s' (sh_txid (uw_shared x)) (sh_vout (uw_shared x)) = None"
  shows "unwound w kind i st swap x d s'"
  using assms dropped_tick [OF assms(2), of s'] unfolding unwound_def sent_def by auto

lemma release_get: "swaps s' = swaps s \<Longrightarrow> repo_get s' i = repo_get s i"
  by (simp add: repo_get_def)

lemma sent_row: "sent kind i d s \<Longrightarrow> repo_get d i = Some swap \<Longrightarrow> repo_get s i = Some swap"
  by (simp add: sent_def repo_get_def)

text \<open>The bookkeeping after a registered spend: it cannot fail.\<close>

definition close_row :: "world \<Rightarrow> string \<Rightarrow> swap_state \<Rightarrow> unwind \<Rightarrow> spend_result \<Rightarrow> spend_result bridge" where
  "close_row w i st x res =
     andthen (transition w i st) (\<lambda>u.
     andthen (modify (notify Refund_notice)) (\<lambda>u.
     andthen (releaseVaultRow (sh_txid (uw_shared x)) (Some (sh_vout (uw_shared x)))) (\<lambda>u. ret res)))"

lemma close_row_run:
  assumes "repo_get s i = Some r" "legal_step (s_direction r) (s_state r) st"
  shows "\<exists>s'. close_row w i st x res s = (Inr res, s')
    \<and> repo_get s' i = Some (r\<lparr>s_state := st, s_updatedAt := w_now w (tick s)\<rparr>)
    \<and> calls s' = calls s \<and> inflight s' = inflight s \<and> tick s' = tick s
    \<and> getVaultVtxo s' (sh_txid (uw_shared x)) (sh_vout (uw_shared x)) = None"
proof -
  let ?s1 = "notify Refund_notice (update_swap i (\<lambda>r. r\<lparr>s_state := st, s_updatedAt := w_now w (tick s)\<rparr>) s)"
  obtain s' where s': "releaseVaultRow (sh_txid (uw_shared x)) (Some (sh_vout (uw_shared x))) ?s1 = (Inr (), s')"
    "swaps s' = swaps ?s1" "calls s' = calls ?s1" "inflight s' = inflight ?s1" "tick s' = tick ?s1"
    "getVaultVtxo s' (sh_txid (uw_shared x)) (sh_vout (uw_shared x)) = None"
    using releaseVaultRow_run by blast
  have "close_row w i st x res s = (Inr res, s')"
    by (simp add: close_row_def transition_run [OF assms] s'(1))
  then show ?thesis using s' release_get [OF s'(2), of i] assms(1) by auto
qed

lemma triple_cancel_tail:
  assumes "repo_get d i = Some swap" "unwindable swap" "loaded w swap x"
  shows "triple (\<lambda>s. sent Ask_cancel i d s \<and> dropped w x d s) (close_row w i Cancelled x res)
    (\<lambda>r s. r = res \<and> unwound w Ask_cancel i Cancelled swap x d s) (\<lambda>e. sent Ask_cancel i d)"
  unfolding triple_def
proof (intro allI impI)
  fix s assume P: "sent Ask_cancel i d s \<and> dropped w x d s"
  note row = sent_row [OF conjunct1 [OF P] assms(1)]
  from close_row_run [OF row unwindable_steps(3) [OF assms(2)], of w x res] obtain s' where
    run: "close_row w i Cancelled x res s = (Inr res, s')"
    and s': "repo_get s' i = Some (swap\<lparr>s_state := Cancelled, s_updatedAt := w_now w (tick s)\<rparr>)"
      "calls s' = calls s" "inflight s' = inflight s" "tick s' = tick s"
      "getVaultVtxo s' (sh_txid (uw_shared x)) (sh_vout (uw_shared x)) = None" by blast
  have "unwound w Ask_cancel i Cancelled swap x d s'"
    by (rule unwoundI [of _ _ _ s]) (use P assms s' in \<open>simp_all add: same_contract_def\<close>)
  with run show "case close_row w i Cancelled x res s of (Inl e, t) \<Rightarrow> sent Ask_cancel i d t
      | (Inr r, t) \<Rightarrow> r = res \<and> unwound w Ask_cancel i Cancelled swap x d t" by simp
qed

lemma triple_refund_tail:
  assumes "repo_get d i = Some swap" "unwindable swap" "loaded w swap x"
  shows "triple (\<lambda>s. sent Submit_refund i d s \<and> dropped w x d s)
    (andthen (if s_state swap \<noteq> Refund_wait then transition w i Refund_wait else ret ()) (\<lambda>u.
     close_row w i Refunded x res))
    (\<lambda>r s. r = res \<and> unwound w Submit_refund i Refunded swap x d s) (\<lambda>e. sent Submit_refund i d)"
  unfolding triple_def
proof (intro allI impI)
  fix s assume P: "sent Submit_refund i d s \<and> dropped w x d s"
  note row = sent_row [OF conjunct1 [OF P] assms(1)]
  let ?m = "if s_state swap \<noteq> Refund_wait then transition w i Refund_wait else ret ()"
  have dir: "s_direction swap = Send" using assms(2) by (simp add: unwindable_def)
  have "\<exists>s1 r1. ?m s = (Inr (), s1) \<and> repo_get s1 i = Some r1 \<and> s_state r1 = Refund_wait \<and> same_contract swap r1
      \<and> s_fundingOutpoint r1 = s_fundingOutpoint swap \<and> s_direction r1 = Send
      \<and> calls s1 = calls s \<and> inflight s1 = inflight s \<and> tick s1 = tick s"
    using row dir unwindable_steps(1) [OF assms(2)]
    by (cases "s_state swap = Refund_wait") (simp_all add: transition_run same_contract_def)
  then obtain s1 r1 where s1: "?m s = (Inr (), s1)" "repo_get s1 i = Some r1" "s_state r1 = Refund_wait"
      "same_contract swap r1" "s_fundingOutpoint r1 = s_fundingOutpoint swap" "s_direction r1 = Send"
      "calls s1 = calls s" "inflight s1 = inflight s" "tick s1 = tick s" by blast
  have "legal_step (s_direction r1) (s_state r1) Refunded" using s1 by (simp add: legal_step_iff)
  from close_row_run [OF s1(2) this, of w x res] obtain s' where
    run: "close_row w i Refunded x res s1 = (Inr res, s')"
    and s': "repo_get s' i = Some (r1\<lparr>s_state := Refunded, s_updatedAt := w_now w (tick s1)\<rparr>)"
      "calls s' = calls s1" "inflight s' = inflight s1" "tick s' = tick s1"
      "getVaultVtxo s' (sh_txid (uw_shared x)) (sh_vout (uw_shared x)) = None" by blast
  have "unwound w Submit_refund i Refunded swap x d s'"
    by (rule unwoundI [of _ _ _ s]) (use P assms s1 s' in \<open>simp_all add: same_contract_def\<close>)
  with run s1(1) show "case andthen ?m (\<lambda>u. close_row w i Refunded x res) s of
      (Inl e, t) \<Rightarrow> sent Submit_refund i d t
      | (Inr r, t) \<Rightarrow> r = res \<and> unwound w Submit_refund i Refunded swap x d t" by simp
qed

lemma triple_quiet_sent':
  assumes "moves same_books m"
  shows "triple (sent kind i d) m (\<lambda>x. sent kind i d) (\<lambda>e. sent kind i d)"
  by (rule triple_quiet_sent [OF assms])

definition refund_post :: "world \<Rightarrow> string \<Rightarrow> db \<Rightarrow> spend_result \<Rightarrow> db \<Rightarrow> bool" where
  "refund_post w i d res s \<longleftrightarrow> (\<exists>swap x. unwound w Submit_refund i Refunded swap x d s
     \<and> s_refundLocktime swap \<le> w_now w (tick d) div 1000 \<and> xr_amount res = sh_value (uw_shared x)
     \<and> (\<exists>t. \<exists>out \<in> set (freshTxidAttempts (uw_ourAddr x) (sh_value (uw_shared x)) (uw_dust x)).
          w_refundSpend w t (uw_shared x) out (uw_unroll x) = Inr (xr_txid res)))"

definition quit :: "ext_kind \<Rightarrow> string \<Rightarrow> db \<Rightarrow> db \<Rightarrow> bool" where
  "quit kind i d s \<longleftrightarrow> sent kind i d s
     \<and> (calls s \<noteq> calls d \<longrightarrow> (\<exists>swap. repo_get d i = Some swap \<and> unwindable swap))"

lemma triple_refund:
  "triple (\<lambda>s. s = d) (refundAtomicSend w i) (refund_post w i d) (\<lambda>e. quit Submit_refund i d)"
proof -
  let ?E = "\<lambda>(e :: err) s. sent Submit_refund i d s"
  let ?row = "\<lambda>swap. repo_get d i = Some swap \<and> unwindable swap"
  let ?due = "\<lambda>swap. s_refundLocktime swap \<le> w_now w (tick d) div 1000"
  have clock: "triple (\<lambda>s. s = d) (clock_ms (w_now w)) (\<lambda>now s. s = d \<and> now = w_now w (tick d)) ?E"
    unfolding clock_ms_def by (rule triple_reading) simp
  have due: "triple (\<lambda>s. s = d \<and> now = w_now w (tick d)) (guard_eff (s_refundLocktime swap \<le> now div 1000) e)
      (\<lambda>u s. sent Submit_refund i d s \<and> ?due swap) ?E" for now swap e
    by (rule triple_guard) (auto simp: sent_refl)
  have mtp: "triple (sent Submit_refund i d) (if w_esploraUrl w then estimateMtp w else ret None)
      (\<lambda>m. sent Submit_refund i d) ?E"
    by (rule triple_quiet_sent') (intro quiet)
  have gate: "triple (sent Submit_refund i d) (guard_eff b e) (\<lambda>u. sent Submit_refund i d) ?E" for b e
    by (rule triple_quiet_sent') (intro quiet)
  have spend: "triple (\<lambda>s. sent Submit_refund i d s \<and> loaded w swap x)
     (let value = sh_value (uw_shared x) in
      andthen (refund_attempts w i x (freshTxidAttempts (uw_ourAddr x) value (uw_dust x))) (\<lambda>refundTxid.
      andthen (guard_eff (refundTxid \<noteq> []) (Error ''refund never registered'')) (\<lambda>u.
      andthen (if s_state swap \<noteq> Refund_wait then transition w i Refund_wait else ret ()) (\<lambda>u.
      close_row w i Refunded x \<lparr>xr_txid = refundTxid, xr_amount = value\<rparr>))))
     (refund_post w i d) ?E" if "?row swap" "?due swap" for swap x
    unfolding Let_def
    apply (rule triple_pure)
    apply (rule triple_andthen [OF triple_refund_attempts])
    subgoal premises ld for txid
      apply (rule triple_andthen [where R = "\<lambda>u s. (sent Submit_refund i d s \<and> dropped w x d s)
          \<and> (\<exists>t. \<exists>out \<in> set (freshTxidAttempts (uw_ourAddr x) (sh_value (uw_shared x)) (uw_dust x)).
               w_refundSpend w t (uw_shared x) out (uw_unroll x) = Inr txid)"])
       apply (rule triple_guard; simp)
      apply (rule triple_pure)
      apply (rule triple_conseq [OF triple_refund_tail [OF conjunct1 [OF that(1)] conjunct2 [OF that(1)] ld]])
        apply simp
       apply (use that(2) in \<open>auto simp: refund_post_def\<close>)
      done
    done
  have rest: "triple (\<lambda>s. s = d) 
     (andthen (clock_ms (w_now w)) (\<lambda>now.
     andthen (guard_eff (s_refundLocktime swap \<le> now div 1000) (Error ''refund locktime not reached'')) (\<lambda>u.
     andthen (if w_esploraUrl w then estimateMtp w else ret None) (\<lambda>mtp.
     andthen (guard_eff (case mtp of None \<Rightarrow> True | Some m \<Rightarrow> s_refundLocktime swap \<le> m) Refund_not_yet) (\<lambda>u.
     andthen (load_unwind w swap) (\<lambda>x.
     (let value = sh_value (uw_shared x) in
      andthen (refund_attempts w i x (freshTxidAttempts (uw_ourAddr x) value (uw_dust x))) (\<lambda>refundTxid.
      andthen (guard_eff (refundTxid \<noteq> []) (Error ''refund never registered'')) (\<lambda>u.
      andthen (if s_state swap \<noteq> Refund_wait then transition w i Refund_wait else ret ()) (\<lambda>u.
      close_row w i Refunded x \<lparr>xr_txid = refundTxid, xr_amount = value\<rparr>)))))))))) (refund_post w i d) ?E"
    if row: "?row swap" for swap
    apply (rule triple_andthen [OF clock])
    apply (rule triple_andthen [OF due])
    apply (rule triple_pure)
    apply (rule triple_andthen [OF mtp])
    apply (rule triple_andthen [OF gate])
    apply (rule triple_andthen [OF triple_load [where P = "sent Submit_refund i d"]], simp)
    apply (rule spend [OF row])
    apply assumption
    done
  show ?thesis
    unfolding refundAtomicSend_def
    apply (rule triple_andthen [where R = "\<lambda>swap s. s = d \<and> ?row swap"])
     apply (rule triple_conseq [OF triple_check], simp, simp, simp add: quit_def sent_refl)
    apply (rule triple_pure)
    apply (rule triple_conseq [OF rest [unfolded close_row_def]], assumption, assumption, assumption)
    apply (auto simp: quit_def)
    done
qed

definition cancel_post :: "world \<Rightarrow> string \<Rightarrow> db \<Rightarrow> spend_result \<Rightarrow> db \<Rightarrow> bool" where
  "cancel_post w i d res s \<longleftrightarrow> (\<exists>swap x. unwound w Ask_cancel i Cancelled swap x d s
     \<and> xr_amount res = sh_value (uw_shared x)
     \<and> (\<exists>t op presigs ans. \<exists>out \<in> set (freshTxidAttempts (uw_ourAddr x) (sh_value (uw_shared x)) (uw_dust x)).
          w_cancel w t i op out presigs = Inr ans \<and> zc_status ans = ''cancelled''
          \<and> zc_cancelTxid ans = Some (xr_txid res)))"

lemma triple_cancel:
  "triple (\<lambda>s. s = d) (cancelAtomicSend w i) (cancel_post w i d) (\<lambda>e. quit Ask_cancel i d)"
proof -
  let ?E = "\<lambda>(e :: err) s. sent Ask_cancel i d s"
  let ?row = "\<lambda>swap. repo_get d i = Some swap \<and> unwindable swap"
  have spend: "triple (\<lambda>s. sent Ask_cancel i d s \<and> loaded w swap x)
     (let value = sh_value (uw_shared x) in
      andthen (cancel_attempts w i x (freshTxidAttempts (uw_ourAddr x) value (uw_dust x))) (\<lambda>cancelTxid.
      andthen (guard_eff (cancelTxid \<noteq> []) (Error ''cancel never registered'')) (\<lambda>u.
      close_row w i Cancelled x \<lparr>xr_txid = cancelTxid, xr_amount = value\<rparr>)))
     (cancel_post w i d) ?E" if "?row swap" for swap x
    unfolding Let_def
    apply (rule triple_pure)
    apply (rule triple_andthen [OF triple_cancel_attempts])
    subgoal premises ld for txid
      apply (rule triple_andthen [where R = "\<lambda>u s. (sent Ask_cancel i d s \<and> dropped w x d s)
          \<and> (\<exists>t op presigs ans. \<exists>out \<in> set (freshTxidAttempts (uw_ourAddr x) (sh_value (uw_shared x)) (uw_dust x)).
               w_cancel w t i op out presigs = Inr ans \<and> zc_status ans = ''cancelled'' \<and> zc_cancelTxid ans = Some txid)"])
       apply (rule triple_guard; simp)
      apply (rule triple_pure)
      apply (rule triple_conseq [OF triple_cancel_tail [OF conjunct1 [OF that] conjunct2 [OF that] ld]])
        apply simp
       apply (simp add: cancel_post_def, blast)
      apply simp
      done
    done
  have rest: "triple (\<lambda>s. sent Ask_cancel i d s \<and> ?row swap)
     (andthen (load_unwind w swap) (\<lambda>x.
     (let value = sh_value (uw_shared x) in
      andthen (cancel_attempts w i x (freshTxidAttempts (uw_ourAddr x) value (uw_dust x))) (\<lambda>cancelTxid.
      andthen (guard_eff (cancelTxid \<noteq> []) (Error ''cancel never registered'')) (\<lambda>u.
      close_row w i Cancelled x \<lparr>xr_txid = cancelTxid, xr_amount = value\<rparr>))))) (cancel_post w i d) ?E" for swap
    apply (rule triple_pure)
    apply (rule triple_andthen [OF triple_load [where P = "sent Ask_cancel i d"]], simp)
    apply (erule spend)
    done
  show ?thesis
    unfolding cancelAtomicSend_def
    apply (rule triple_andthen [where R = "\<lambda>swap s. s = d \<and> ?row swap"])
     apply (rule triple_conseq [OF triple_check], simp, simp, simp add: quit_def sent_refl)
    apply (rule triple_pure)
    apply (rule triple_conseq [OF rest [unfolded close_row_def]])
      apply (auto simp: quit_def sent_refl)
    done
qed

lemma unwoundD:
  assumes "unwound w kind i st swap x d d'"
  shows "\<exists>r. repo_get d i = Some swap \<and> s_direction swap = Send \<and> s_state swap \<in> {Funded, Ln_inflight, Refund_wait}
      \<and> parse_outpoint (the (s_fundingOutpoint swap)) = Some (sh_txid (uw_shared x), Some (sh_vout (uw_shared x)))
      \<and> (\<exists>t coins. tick d \<le> t \<and> t < tick d' \<and> w_byScript w t (uw_pk x) True = Inr coins
           \<and> \<not> still_listed (sh_txid (uw_shared x)) (sh_vout (uw_shared x)) coins)
      \<and> repo_get d' i = Some r \<and> s_state r = st \<and> same_contract swap r
      \<and> getVaultVtxo d' (sh_txid (uw_shared x)) (sh_vout (uw_shared x)) = None"
  using assms unfolding unwound_def dropped_def loaded_def unwindable_def refundable_states_def by auto



subsection \<open>No call that moves money before its row is on disk\<close>

definition rebuildable :: "swap_row \<Rightarrow> bool" where
  "rebuildable r \<longleftrightarrow> s_peerPubkey r \<noteq> None \<and> s_exitDelay r \<noteq> None"

text \<open>What the row on disk has to hold when a call of each kind is made.\<close>

definition recorded :: "ext_call \<Rightarrow> bool" where
  "recorded c \<longleftrightarrow> (\<exists>r. call_row c = Some r \<and> s_id r = call_swap c \<and> (case call_kind c of
       Spend_wallet \<Rightarrow> s_direction r = Send \<and> s_state r = Init \<and> rebuildable r
     | Hand_presigs \<Rightarrow> s_direction r = Send \<and> s_state r = Ln_inflight \<and> rebuildable r
         \<and> truthy (s_fundingOutpoint r) \<and> s_presigs r \<noteq> None
     | Ask_cancel \<Rightarrow> unwindable r
     | Submit_refund \<Rightarrow> unwindable r
     | Submit_claim \<Rightarrow> s_direction r = Receive \<and> s_state r = Funded \<and> s_preimage r \<noteq> None
     | Reveal_preimage \<Rightarrow> s_direction r = Receive \<and> s_preimage r \<noteq> None
         \<and> s_state r \<notin> {Invoice_issued, Funded} \<and> isTerminal Receive (s_state r) = Inr False))"

definition ledger_ok :: "db \<Rightarrow> bool" where
  "ledger_ok d \<longleftrightarrow> (\<forall>c \<in> set (calls d). recorded c)"

definition keeps_ledger :: "db \<Rightarrow> db \<Rightarrow> bool" where
  "keeps_ledger d d' \<longleftrightarrow> inflight d' = inflight d \<and> (ledger_ok d \<longrightarrow> ledger_ok d')"

interpretation lgr: progress keeps_ledger
  by unfold_locales (auto simp: keeps_ledger_def)

lemma ledger_calls: "calls d' = calls d \<Longrightarrow> inflight d' = inflight d \<Longrightarrow> keeps_ledger d d'"
  by (simp add: keeps_ledger_def ledger_ok_def)

lemma ledger_books: "same_books d d' \<Longrightarrow> keeps_ledger d d'"
  by (rule ledger_calls) (simp_all add: same_books_def)

lemma ledger_writes:
  "moves keeps_ledger (transition w i st)" "moves keeps_ledger (setFundingOutpoint w i op)"
  "moves keeps_ledger (setPresigs w i p)" "moves keeps_ledger (setPreimage w i pre)"
proof -
  have t: "moves keeps_ledger (repo_transition now i st)" for now
    unfolding moves_def
    by (simp add: repo_transition_eq lgr.R_refl ledger_calls split: option.split sum.split)
  have s: "moves keeps_ledger (repo_touch now i f)" for now f
    unfolding moves_def by (simp add: repo_touch_eq lgr.R_refl ledger_calls split: option.split)
  have c: "moves keeps_ledger (clock_ms (w_now w))"
    by (rule moves_weaken [OF bks_clock ledger_books])
  show "moves keeps_ledger (transition w i st)" "moves keeps_ledger (setFundingOutpoint w i op)"
    "moves keeps_ledger (setPresigs w i p)" "moves keeps_ledger (setPreimage w i pre)"
    unfolding transition_def setFundingOutpoint_def setPreimage_def setPresigs_def
      repo_setFundingOutpoint_def repo_setPresigs_def repo_setPreimage_def
    by (intro lgr.moves_rules t s c)+
qed

lemma sent_ledger:
  assumes "ledger_ok d" "calls s = calls d @ cs" "set cs \<subseteq> {Ext_call kind i (Some swap)}"
    and "repo_get d i = Some swap" "unwindable swap" "kind = Submit_refund \<or> kind = Ask_cancel"
  shows "ledger_ok s"
proof -
  have "s_id swap = i" using assms(4) by (simp add: repo_get_row)
  then have "recorded (Ext_call kind i (Some swap))" using assms(5,6) by (auto simp: recorded_def)
  then show ?thesis using assms(1-3) unfolding ledger_ok_def by auto
qed

lemma quit_ledger:
  assumes "ledger_ok d" "quit kind i d s" "kind = Submit_refund \<or> kind = Ask_cancel"
  shows "ledger_ok s"
proof (cases "calls s = calls d")
  case True
  with assms(1) show ?thesis by (simp add: ledger_ok_def)
next
  case False
  with assms(2) obtain swap cs where "repo_get d i = Some swap" "unwindable swap"
    "calls s = calls d @ cs" "set cs \<subseteq> {Ext_call kind i (Some swap)}"
    unfolding quit_def sent_def by auto
  with assms(1,3) sent_ledger show ?thesis by blast
qed

lemma unwound_ledger:
  "ledger_ok d \<Longrightarrow> unwound w kind i st swap x d s \<Longrightarrow> kind = Submit_refund \<or> kind = Ask_cancel \<Longrightarrow> ledger_ok s"
  unfolding unwound_def by (blast intro: sent_ledger)

lemma quit_inflight: "quit kind i d s \<Longrightarrow> inflight s = inflight d"
  by (simp add: quit_def sent_def)

lemma unwound_inflight: "unwound w kind i st swap x d s \<Longrightarrow> inflight s = inflight d"
  by (simp add: unwound_def)

lemma ledger_unwind: "moves keeps_ledger (refundAtomicSend w i) \<and> moves keeps_ledger (cancelAtomicSend w i)"
proof (intro conjI moves_triple)
  show "triple (\<lambda>s. s = d) (refundAtomicSend w i) (\<lambda>x. keeps_ledger d) (\<lambda>e. keeps_ledger d)" for d
    by (rule triple_conseq [OF triple_refund])
      (auto simp: refund_post_def keeps_ledger_def quit_inflight unwound_inflight intro: unwound_ledger quit_ledger)
  show "triple (\<lambda>s. s = d) (cancelAtomicSend w i) (\<lambda>x. keeps_ledger d) (\<lambda>e. keeps_ledger d)" for d
    by (rule triple_conseq [OF triple_cancel])
      (auto simp: cancel_post_def keeps_ledger_def quit_inflight unwound_inflight intro: unwound_ledger quit_ledger)
qed

interpretation lgo: send_order keeps_ledger w "\<lambda>i. True" for w
  by unfold_locales (simp_all add: ledger_books ledger_writes ledger_unwind)

lemma ledger_failIfUnfunded: "moves keeps_ledger (failIfUnfunded w i)"
  unfolding failIfUnfunded_def by (intro lgo.R_rules lgo.R_classify TrueI)

subsection \<open>The live flow, stage by stage\<close>

definition track :: "string \<Rightarrow> string list \<Rightarrow> nat \<Rightarrow> (swap_row \<Rightarrow> bool) \<Rightarrow> db \<Rightarrow> bool" where
  "track i I t0 P s \<longleftrightarrow> ledger_ok s \<and> inflight s = I \<and> t0 \<le> tick s \<and> (\<exists>r. repo_get s i = Some r \<and> P r)"

definition calm :: "string list \<Rightarrow> db \<Rightarrow> bool" where
  "calm I s \<longleftrightarrow> ledger_ok s \<and> inflight s = I"

lemma track_calm: "track i I t0 P s \<Longrightarrow> calm I s"
  by (simp add: track_def calm_def)

lemma track_books: "track i I t0 P s \<Longrightarrow> same_books s s' \<Longrightarrow> track i I t0 P s'"
  by (auto simp: track_def same_books_def ledger_ok_def repo_get_def)

lemma track_quiet:
  assumes "moves same_books m"
  shows "triple (track i I t0 P) m (\<lambda>x. track i I t0 P) (\<lambda>e. calm I)"
  by (rule triple_conseq [OF triple_moves [OF assms, where P = "track i I t0 P" and Q = "track i I t0 P"]])
    (auto intro: track_books track_calm)

lemma track_transition:
  assumes "\<And>r. P r \<Longrightarrow> legal_step (s_direction r) (s_state r) st"
    and "\<And>r now. P r \<Longrightarrow> Q (r\<lparr>s_state := st, s_updatedAt := now\<rparr>)"
  shows "triple (track i I t0 P) (transition w i st) (\<lambda>u. track i I t0 Q) (\<lambda>e. calm I)"
  unfolding triple_def
proof (intro allI impI)
  fix s assume s: "track i I t0 P s"
  then obtain r where r: "repo_get s i = Some r" "P r" by (auto simp: track_def)
  from transition_run [OF r(1) assms(1) [OF r(2)]] s r assms(2) [OF r(2)]
  show "case transition w i st s of (Inl e, t) \<Rightarrow> calm I t | (Inr x, t) \<Rightarrow> track i I t0 Q t"
    by (simp add: track_def ledger_ok_def)
qed

lemma touch_run:
  "repo_get s i = Some r \<Longrightarrow> repo_touch now i f s = (Inr (), update_swap i (\<lambda>r. (f r)\<lparr>s_updatedAt := now\<rparr>) s)"
  by (simp add: repo_touch_eq)

lemma track_touch:
  assumes "\<And>r. s_id (f r) = s_id r" and "\<And>r now. P r \<Longrightarrow> Q ((f r)\<lparr>s_updatedAt := now\<rparr>)"
  shows "triple (track i I t0 P) (andthen (clock_ms (w_now w)) (\<lambda>now. repo_touch now i f))
    (\<lambda>u. track i I t0 Q) (\<lambda>e. calm I)"
  unfolding triple_def
proof (intro allI impI)
  fix s assume s: "track i I t0 P s"
  then obtain r where r: "repo_get s i = Some r" "P r" by (auto simp: track_def)
  have "repo_get (update_swap i (\<lambda>r. (f r)\<lparr>s_updatedAt := w_now w (tick s)\<rparr>) s) i
      = Some ((f r)\<lparr>s_updatedAt := w_now w (tick s)\<rparr>)"
    by (simp add: repo_get_update_swap assms(1) r(1))
  then show "case andthen (clock_ms (w_now w)) (\<lambda>now. repo_touch now i f) s of
      (Inl e, t) \<Rightarrow> calm I t | (Inr x, t) \<Rightarrow> track i I t0 Q t"
    using s r assms(2) [OF r(2)] by (simp add: clock_ms_def touch_run track_def ledger_ok_def)
qed

lemma track_setters:
  assumes "\<And>r now. P r \<Longrightarrow> Q (r\<lparr>s_fundingOutpoint := Some op, s_updatedAt := now\<rparr>)"
  shows "triple (track i I t0 P) (setFundingOutpoint w i op) (\<lambda>u. track i I t0 Q) (\<lambda>e. calm I)"
  unfolding setFundingOutpoint_def repo_setFundingOutpoint_def by (rule track_touch) (simp_all add: assms)

lemma track_presigs:
  assumes "\<And>r now. P r \<Longrightarrow> Q (r\<lparr>s_presigs := Some ps, s_updatedAt := now\<rparr>)"
  shows "triple (track i I t0 P) (setPresigs w i ps) (\<lambda>u. track i I t0 Q) (\<lambda>e. calm I)"
  unfolding setPresigs_def repo_setPresigs_def by (rule track_touch) (simp_all add: assms)

lemma track_preimage:
  assumes "\<And>r now. P r \<Longrightarrow> Q (r\<lparr>s_preimage := Some pre, s_updatedAt := now\<rparr>)"
  shows "triple (track i I t0 P) (setPreimage w i pre) (\<lambda>u. track i I t0 Q) (\<lambda>e. calm I)"
  unfolding setPreimage_def repo_setPreimage_def by (rule track_touch) (simp_all add: assms)

lemma track_log:
  assumes "\<And>r. P r \<Longrightarrow> s_id r = i \<Longrightarrow> recorded (Ext_call kind i (Some r))"
  shows "triple (track i I t0 P) (log_call kind i) (\<lambda>u. track i I t0 P) E"
proof -
  have "track i I t0 P (s\<lparr>calls := calls s @ [Ext_call kind i (find_first (\<lambda>r. s_id r = i) (swaps s))]\<rparr>)"
    if s: "track i I t0 P s" for s
  proof -
    from s obtain r where r: "repo_get s i = Some r" "P r" by (auto simp: track_def)
    then have "recorded (Ext_call kind i (find_first (\<lambda>r. s_id r = i) (swaps s)))"
      using assms repo_get_row [OF r(1)] by (simp add: repo_get_def row_get_def)
    with s show ?thesis by (auto simp: track_def ledger_ok_def repo_get_def)
  qed
  then show ?thesis unfolding log_call_def by (rule triple_modify)
qed

lemma calm_moves: "moves keeps_ledger m \<Longrightarrow> triple (calm I) m (\<lambda>x. calm I) (\<lambda>e. calm I)"
  by (rule triple_moves [where R = keeps_ledger]) (auto simp: calm_def keeps_ledger_def)

text \<open>The row of a send at each stage.\<close>

definition contract :: "send_plan \<Rightarrow> swap_row \<Rightarrow> bool" where
  "contract p r \<longleftrightarrow> s_direction r = Send \<and> rebuildable r \<and> s_amount r = pl_amount p
     \<and> s_paymentHash r = pl_hash p \<and> s_refundLocktime r = zi_refundLocktime (pl_init p)"

definition at_stage :: "send_plan \<Rightarrow> swap_state \<Rightarrow> string option \<Rightarrow> bool \<Rightarrow> swap_row \<Rightarrow> bool" where
  "at_stage p st op hasPresigs r \<longleftrightarrow> contract p r \<and> s_state r = st \<and> s_fundingOutpoint r = op
     \<and> (hasPresigs \<longrightarrow> s_presigs r \<noteq> None)"

abbreviation shared_op :: "shared_vtxo \<Rightarrow> string" where
  "shared_op shared \<equiv> outpoint_key (sh_txid shared) (sh_vout shared)"

lemma truthy_outpoint [simp]: "truthy (Some (outpoint_key t n))"
  by (simp add: truthy_def outpoint_key_def)

lemma contract_fields [simp]:
  "contract p (r\<lparr>s_state := st\<rparr>) = contract p r" "contract p (r\<lparr>s_updatedAt := now\<rparr>) = contract p r"
  "contract p (r\<lparr>s_fundingOutpoint := op\<rparr>) = contract p r" "contract p (r\<lparr>s_presigs := ps\<rparr>) = contract p r"
  "contract p (r\<lparr>s_preimage := pre\<rparr>) = contract p r"
  by (simp_all add: contract_def rebuildable_def)

lemma stage_create:
  "triple (\<lambda>s. calm I s \<and> t0 \<le> tick s) (send_create w invoice p)
     (\<lambda>u. track (pl_id p) I t0 (at_stage p Init None False)) (\<lambda>e. calm I)"
  unfolding triple_def
proof (intro allI impI)
  fix s assume s: "calm I s \<and> t0 \<le> tick s"
  show "case send_create w invoice p s of (Inl e, t) \<Rightarrow> calm I t
      | (Inr u, t) \<Rightarrow> track (pl_id p) I t0 (at_stage p Init None False) t"
  proof (cases "repo_get s (pl_id p) \<noteq> None \<or> repo_getByPaymentHash s (pl_hash p) \<noteq> None")
    case True
    with s show ?thesis by (simp add: send_create_def clock_ms_def repo_create_def andthen_def)
  next
    case False
    then have "row_get s_id (pl_id p) (swaps s) = None" by (simp add: repo_get_def)
    with False s show ?thesis
      by (simp add: send_create_def clock_ms_def repo_create_def andthen_def Let_def track_def calm_def
          ledger_ok_def repo_get_def swap_ids.row_get_snoc row_of_new_def at_stage_def contract_def rebuildable_def)
  qed
qed

lemma stage_fund:
  "triple (track (pl_id p) I t0 (at_stage p Init None False)) (send_fund w p)
     (\<lambda>txid. track (pl_id p) I t0 (at_stage p Init None False)) (\<lambda>e. calm I)"
  unfolding send_fund_def
proof (rule triple_catching)
  show "triple (track (pl_id p) I t0 (at_stage p Init None False))
     (andthen (log_call Spend_wallet (pl_id p)) (\<lambda>u. await (\<lambda>t. w_sendBitcoin w t
          (k_scriptAddress (w_sdk w) (pl_script p) (hrp (i_network (pl_info p))) (pl_server p))
          (pl_value p) (pl_funding p))))
     (\<lambda>txid. track (pl_id p) I t0 (at_stage p Init None False)) (\<lambda>e. calm I)"
    by (rule triple_andthen [OF track_log track_quiet [OF bks_await]])
      (simp add: recorded_def at_stage_def contract_def)
  show "triple (calm I) (andthen (failIfUnfunded w (pl_id p)) (\<lambda>b. throw e))
      (\<lambda>txid. track (pl_id p) I t0 (at_stage p Init None False)) (\<lambda>e. calm I)" for e
    by (rule triple_andthen [OF calm_moves [OF ledger_failIfUnfunded]]) (rule triple_throw)
qed

lemma stage_handover:
  "triple (track (pl_id p) I t0 (at_stage p Funded (Some (shared_op shared)) True)) (send_handover w p shared ps)
     (\<lambda>pre. track (pl_id p) I t0 (at_stage p Ln_inflight (Some (shared_op shared)) True)) (\<lambda>e. calm I)"
  unfolding send_handover_def
  apply (rule triple_andthen [OF track_transition [where Q = "at_stage p Ln_inflight (Some (shared_op shared)) True"]])
    apply (auto simp: at_stage_def contract_def legal_step_iff) [1]
   apply (simp add: at_stage_def)
  apply (rule triple_andthen [OF track_log])
   apply (simp add: recorded_def at_stage_def contract_def)
  apply (rule triple_andthen [OF track_quiet [OF bks_await]])
  apply (rule triple_if)
   apply (rule triple_pre [OF _ track_calm])
    apply (rule triple_andthen [OF calm_moves [OF ledger_writes(1)]])
    apply (rule triple_andthen [OF calm_moves [OF lgo.R_quiet [OF bks_notify]]])
    apply (rule triple_andthen [OF calm_moves])
     apply (rule lgr.moves_if)
      apply (intro lgr.moves_rules conjunct2 [OF ledger_unwind])
     apply (rule lgr.moves_ret)
    apply (rule triple_throw, assumption)
   apply assumption
  apply (rule triple_ret, assumption)
  done

lemma triple_confirm:
  "triple (track i I t0 P) (confirmSpent w txid vout)
     (\<lambda>spent s. track i I t0 P s \<and> (spent \<longrightarrow> (\<exists>t. t0 \<le> t \<and> t < tick s \<and> shows_spent w t txid vout)))
     (\<lambda>e. calm I)"
proof (rule tripleI)
  fix s spent t assume s: "track i I t0 P s" and run: "confirmSpent w txid vout s = (Inr spent, t)"
  have "track i I t0 P t" using s movesD [OF bks_confirm, of s] run by (metis snd_conv track_books)
  moreover have "\<exists>u. t0 \<le> u \<and> u < tick t \<and> shows_spent w u txid vout" if spent
  proof -
    from confirm_poll_True [OF run [unfolded confirmSpent_def]] that obtain u where
      "tick s \<le> u" "u < tick t" "shows_spent w u txid vout" by auto
    then show ?thesis using s unfolding track_def by (meson le_trans)
  qed
  ultimately show "track i I t0 P t \<and> (spent \<longrightarrow> (\<exists>u. t0 \<le> u \<and> u < tick t \<and> shows_spent w u txid vout))"
    by blast
next
  fix s e t assume s: "track i I t0 P s" and run: "confirmSpent w txid vout s = (Inl e, t)"
  then show "calm I t" using movesD [OF bks_confirm, of s] by (metis snd_conv track_books track_calm)
qed

text \<open>The row a returned send leaves behind.\<close>

definition sent_row_ok :: "world \<Rightarrow> send_plan \<Rightarrow> shared_vtxo \<Rightarrow> string \<Rightarrow> nat \<Rightarrow> nat \<Rightarrow> swap_row \<Rightarrow> bool" where
  "sent_row_ok w p shared preimage t0 t1 r \<longleftrightarrow>
     at_stage p Claimed (Some (shared_op shared)) True r
       \<and> (\<exists>t. t0 \<le> t \<and> t < t1 \<and> shows_spent w t (sh_txid shared) (sh_vout shared))
     \<or> at_stage p Ln_inflight (Some (shared_op shared)) True r \<and> s_preimage r = Some preimage"

definition settled_track :: "world \<Rightarrow> send_plan \<Rightarrow> string list \<Rightarrow> nat \<Rightarrow> shared_vtxo \<Rightarrow> string \<Rightarrow> db \<Rightarrow> bool" where
  "settled_track w p I t0 shared preimage s \<longleftrightarrow>
     track (pl_id p) I t0 (sent_row_ok w p shared preimage t0 (tick s)) s"

lemma stage_settle:
  "triple (track (pl_id p) I t0 (at_stage p Ln_inflight (Some (shared_op shared)) True)) (send_settle w p shared preimage)
     (\<lambda>u. settled_track w p I t0 shared preimage) (\<lambda>e. calm I)"
proof -
  let ?in = "at_stage p Ln_inflight (Some (shared_op shared)) True"
  let ?cl = "at_stage p Claimed (Some (shared_op shared)) True"
  let ?seen = "\<lambda>s. \<exists>t. t0 \<le> t \<and> t < tick s \<and> shows_spent w t (sh_txid shared) (sh_vout shared)"
  have claim: "triple (\<lambda>s. track (pl_id p) I t0 ?in s \<and> ?seen s)
      (andthen (transition w (pl_id p) Claimed) (\<lambda>u. releaseVaultRow (sh_txid shared) (Some (sh_vout shared))))
      (\<lambda>u. settled_track w p I t0 shared preimage) (\<lambda>e. calm I)"
  proof (rule tripleI)
    fix s u t assume s: "track (pl_id p) I t0 ?in s \<and> ?seen s"
      and run: "andthen (transition w (pl_id p) Claimed) (\<lambda>u. releaseVaultRow (sh_txid shared) (Some (sh_vout shared))) s = (Inr u, t)"
    have "triple (track (pl_id p) I t0 ?in)
      (andthen (transition w (pl_id p) Claimed) (\<lambda>u. releaseVaultRow (sh_txid shared) (Some (sh_vout shared))))
      (\<lambda>u. track (pl_id p) I t0 ?cl) (\<lambda>e. calm I)"
      by (rule triple_andthen [OF track_transition track_quiet [OF bks_release]])
        (auto simp: at_stage_def contract_def legal_step_iff rebuildable_def)
    from triple_Inr [OF this _ run] s have "track (pl_id p) I t0 ?cl t" by blast
    moreover have "tick s \<le> tick t"
      using run by (auto elim!: andthen_InrE simp: transition_def clock_ms_def repo_transition_eq releaseVaultRow_def
          gcOrphanProofs_def removeVtxo_def Let_def split: option.splits sum.splits)
    ultimately show "settled_track w p I t0 shared preimage t"
      using s unfolding settled_track_def sent_row_ok_def track_def by (meson less_le_trans)
  next
    fix s e t assume "track (pl_id p) I t0 ?in s \<and> ?seen s"
      and "andthen (transition w (pl_id p) Claimed) (\<lambda>u. releaseVaultRow (sh_txid shared) (Some (sh_vout shared))) s = (Inl e, t)"
    then show "calm I t"
      using triple_Inl [OF calm_moves [OF lgr.moves_andthen [OF ledger_writes(1) lgo.R_quiet [OF bks_release]]]]
      by (meson track_calm)
  qed
  have keep: "triple (track (pl_id p) I t0 ?in) (setPreimage w (pl_id p) preimage)
      (\<lambda>u. settled_track w p I t0 shared preimage) (\<lambda>e. calm I)"
    by (rule triple_conseq [OF track_preimage [where Q = "\<lambda>r. ?in r \<and> s_preimage r = Some preimage"]])
      (auto simp: at_stage_def settled_track_def sent_row_ok_def track_def)
  have note_it: "triple (settled_track w p I t0 shared preimage) (modify (notify Send_subdust))
      (\<lambda>u. settled_track w p I t0 shared preimage) (\<lambda>e. calm I)"
    by (rule triple_modify) (simp add: settled_track_def track_def ledger_ok_def)
  show ?thesis
    unfolding send_settle_def
    apply (rule triple_andthen [OF triple_confirm])
    apply (rule triple_andthen [OF triple_if note_it])
     apply (rule triple_pre [OF claim], blast)
    apply (rule triple_pre [OF keep], blast)
    done
qed

subsection \<open>The whole send\<close>

lemma stage_live:
  "triple (\<lambda>s. calm I s \<and> t0 \<le> tick s) (send_live w invoice p)
     (\<lambda>res s. \<exists>shared. settled_track w p I t0 shared (sr_preimage res) s
        \<and> sr_amount res = pl_amount p + pl_fee p \<and> sr_swapId res = pl_id p) (\<lambda>e. calm I)"
  unfolding send_live_def
  apply (rule triple_andthen [OF stage_create])
  apply (rule triple_andthen [OF stage_fund])
  apply (rule triple_andthen [OF track_quiet [OF bks_locate]])
  subgoal for u txid sc
    unfolding Let_def
    apply (rule triple_andthen [OF track_setters
        [where Q = "at_stage p Init (Some (shared_op (fst sc))) False"]])
     apply (simp add: at_stage_def)
    apply (rule triple_andthen [OF track_quiet [OF bks_capture_send]])
    apply (rule triple_andthen [OF track_quiet [OF bks_presign]])
    apply (rule triple_andthen [OF track_presigs
        [where Q = "at_stage p Init (Some (shared_op (fst sc))) True"]])
     apply (simp add: at_stage_def)
    apply (rule triple_andthen [OF track_transition
        [where Q = "at_stage p Funded (Some (shared_op (fst sc))) True"]])
      apply (auto simp: at_stage_def contract_def legal_step_iff) [1]
     apply (simp add: at_stage_def)
    apply (rule triple_andthen [OF stage_handover])
    apply (rule triple_andthen [OF stage_settle])
    apply (rule triple_ret)
    apply auto
    done
  done

definition plan_ok :: "world \<Rightarrow> int \<Rightarrow> send_plan \<Rightarrow> bool" where
  "plan_ok w a p \<longleftrightarrow> pl_amount p = a \<and> a < pl_dust p \<and> 0 \<le> pl_fee p \<and> pl_fee p \<le> pl_dust p
     \<and> pl_dust p + a + pl_fee p \<le> pl_value p
     \<and> (\<forall>v \<in> set (pl_funding p). isEligibleFundingInput (k_isSpendable (w_sdk w)) (k_isRecoverable (w_sdk w)) v
          \<lparr>ea_dust = pl_dust p, ea_refundLocktime = zi_refundLocktime (pl_init p),
           ea_marginSecs = FUNDING_MARGIN_SECS\<rparr> = Eligible)"

lemma send_funding_ok:
  assumes "send_funding w d own dust T a fee \<noteq> []"
  shows "dust + a + fee \<le> total (send_funding w d own dust T a fee)"
    and "v \<in> set (send_funding w d own dust T a fee) \<Longrightarrow>
      isEligibleFundingInput (k_isSpendable (w_sdk w)) (k_isRecoverable (w_sdk w)) v
        \<lparr>ea_dust = dust, ea_refundLocktime = T, ea_marginSecs = FUNDING_MARGIN_SECS\<rparr> = Eligible"
  using select_funded [OF assms [unfolded send_funding_def]] unfolding send_funding_def by auto

lemma yields_any: "triple P m (\<lambda>x s. True) (\<lambda>e s. True)"
  by (simp add: triple_def split: prod.split sum.split)

lemma yields_guard: "triple P (guard_eff b e) (\<lambda>u s. b) (\<lambda>e s. True)"
  by (rule triple_guard) auto

lemma yields_pure: "(b \<Longrightarrow> triple (\<lambda>s. True) m Q E) \<Longrightarrow> triple (\<lambda>s. b) m Q E"
  by (auto simp: triple_def)

lemma yields_reading: "triple P (reading f) (\<lambda>x s. \<exists>s0. x = f s0) (\<lambda>e s. True)"
  by (rule triple_reading) blast

lemmas yields_skip = triple_andthen [OF yields_any]

lemma prepare_ok: "triple (\<lambda>s. True) (send_prepare w invoice a) (\<lambda>p s. plan_ok w a p) (\<lambda>e s. True)"
  unfolding send_prepare_def Let_def
  apply (rule yields_skip, rule yields_skip, rule yields_skip, rule yields_skip, rule yields_skip, rule yields_skip)
  apply (rule triple_andthen [OF yields_guard], rule yields_pure)
  apply (rule yields_skip, rule yields_skip, rule yields_skip, rule yields_skip)
  apply (rule triple_andthen [OF yields_guard], rule yields_pure)
  apply (rule yields_skip, rule yields_skip)
  apply (rule triple_andthen [OF yields_reading], rule yields_pure)
  apply (rule triple_andthen [OF yields_guard], rule yields_pure)
  apply (rule triple_ret)
  apply (elim exE conjE)
  apply (auto simp: plan_ok_def send_funding_ok floor_le_iff le_floor_iff)
  done

lemma mem_set_add: "i \<in> set (set_add j xs) \<longleftrightarrow> i = j \<or> i \<in> set xs"
  by (simp add: set_add_def) blast

lemma triple_inflight:
  "triple (\<lambda>s. calm I s \<and> t0 \<le> tick s) (modify (inflight_update (set_add i)))
     (\<lambda>u s. calm (set_add i I) s \<and> t0 \<le> tick s) E"
  by (rule triple_modify) (simp add: calm_def ledger_ok_def)

text \<open>A whole send: what it returns, and that it holds the id only while it runs.\<close>

definition send_post :: "world \<Rightarrow> int \<Rightarrow> string list \<Rightarrow> nat \<Rightarrow> send_result \<Rightarrow> db \<Rightarrow> bool" where
  "send_post w a I t0 res s \<longleftrightarrow> ledger_ok s \<and> set (inflight s) = set I - {sr_swapId res}
     \<and> (\<exists>p shared r. plan_ok w a p \<and> sr_amount res = pl_amount p + pl_fee p \<and> sr_swapId res = pl_id p
          \<and> repo_get s (pl_id p) = Some r \<and> sent_row_ok w p shared (sr_preimage res) t0 (tick s) r)"

lemma settled_release:
  "settled_track w p I t0 shared pre s \<Longrightarrow>
     (\<exists>r. repo_get (inflight_update f s) (pl_id p) = Some r \<and> sent_row_ok w p shared pre t0 (tick s) r)
     \<and> ledger_ok (inflight_update f s) \<and> inflight (inflight_update f s) = f I"
  by (auto simp: settled_track_def track_def repo_get_def ledger_ok_def)

lemma triple_send:
  "triple (\<lambda>s. calm I s \<and> t0 \<le> tick s) (atomicSubdustSend w invoice a) (send_post w a I t0)
     (\<lambda>e s. ledger_ok s \<and> set (inflight s) \<subseteq> set I)"
proof -
  let ?E = "\<lambda>(e :: err) s. ledger_ok s \<and> set (inflight s) \<subseteq> set I"
  have prep: "triple (\<lambda>s. calm I s \<and> t0 \<le> tick s) (send_prepare w invoice a)
      (\<lambda>p s. (calm I s \<and> t0 \<le> tick s) \<and> plan_ok w a p) ?E"
  proof (rule tripleI)
    fix s p t assume s: "calm I s \<and> t0 \<le> tick s" and run: "send_prepare w invoice a s = (Inr p, t)"
    from movesD [OF bks_prepare, of s] run have "same_books s t" by (metis snd_conv)
    with s triple_Inr [OF prepare_ok TrueI run] show "(calm I t \<and> t0 \<le> tick t) \<and> plan_ok w a p"
      by (auto simp: same_books_def calm_def ledger_ok_def)
  next
    fix s e t assume s: "calm I s \<and> t0 \<le> tick s" and run: "send_prepare w invoice a s = (Inl e, t)"
    from movesD [OF bks_prepare, of s] run have "same_books s t" by (metis snd_conv)
    with s show "ledger_ok t \<and> set (inflight t) \<subseteq> set I"
      by (auto simp: same_books_def calm_def ledger_ok_def)
  qed
  have live: "triple (\<lambda>s. calm (set_add (pl_id p) I) s \<and> t0 \<le> tick s)
      (finally_do (send_live w invoice p) (inflight_update (removeAll (pl_id p)))) (send_post w a I t0) ?E"
    if p: "plan_ok w a p" for p
  proof (rule triple_finally, rule triple_conseq [OF stage_live])
    fix res :: send_result and s assume "\<exists>shared. settled_track w p (set_add (pl_id p) I) t0 shared (sr_preimage res) s
        \<and> sr_amount res = pl_amount p + pl_fee p \<and> sr_swapId res = pl_id p"
    then obtain shared where x: "settled_track w p (set_add (pl_id p) I) t0 shared (sr_preimage res) s"
      and eqs: "sr_amount res = pl_amount p + pl_fee p" "sr_swapId res = pl_id p" by blast
    note rel = settled_release [OF x, of "removeAll (pl_id p)"]
    moreover have "set (removeAll (pl_id p) (set_add (pl_id p) I)) = set I - {sr_swapId res}"
      using eqs by (auto simp: mem_set_add)
    ultimately show "send_post w a I t0 res (inflight_update (removeAll (pl_id p)) s)"
      unfolding send_post_def using p eqs by auto
  next
    fix e s assume "calm (set_add (pl_id p) I) s"
    then show "ledger_ok (inflight_update (removeAll (pl_id p)) s)
        \<and> set (inflight (inflight_update (removeAll (pl_id p)) s)) \<subseteq> set I"
      by (auto simp: calm_def ledger_ok_def mem_set_add)
  qed
  show ?thesis
    unfolding atomicSubdustSend_def
    apply (rule triple_andthen [OF prep])
    apply (rule triple_pure)
    apply (rule triple_andthen [OF triple_inflight])
    apply (erule live)
    done
qed

text \<open>C1: no call that can move money is made before its row is on disk. Every spend of the wallet
  finds an init row with the peer key and exit delay a refund rebuilds the script from; presigs are
  handed over only from an ln_inflight row that holds them and the funding outpoint; refunds and
  cancels are asked for only from refundable rows. A crash at any of those calls leaves a row the
  resume pass can act on. Every handler keeps this, returning or throwing.\<close>

theorem write_ahead:
  assumes "ledger_ok d"
  shows "ledger_ok (snd (atomicSubdustSend w invoice a d)) \<and> ledger_ok (snd (resumeAtomicSends w d))
    \<and> ledger_ok (snd (refundAtomicSend w i d)) \<and> ledger_ok (snd (cancelAtomicSend w i d))"
proof -
  have "triple (\<lambda>s. calm (inflight d) s \<and> tick d \<le> tick s) (atomicSubdustSend w invoice a)
      (\<lambda>r. ledger_ok) (\<lambda>e. ledger_ok)"
    by (rule triple_conseq [OF triple_send]) (auto simp: send_post_def)
  from triple_snd [OF this, of d] have "ledger_ok (snd (atomicSubdustSend w invoice a d))"
    using assms by (simp add: calm_def)
  moreover have "ledger_ok (snd (resumeAtomicSends w d))"
    using movesD [OF lgo.R_resume, of d w] assms by (simp add: keeps_ledger_def)
  moreover have "ledger_ok (snd (refundAtomicSend w i d))" "ledger_ok (snd (cancelAtomicSend w i d))"
    using ledger_unwind [of w i] assms unfolding moves_def keeps_ledger_def by blast+
  ultimately show ?thesis by blast
qed

theorem write_ahead_witness:
  "ledger_ok empty_db \<and> (\<forall>w i. ledger_ok (snd (refundAtomicSend w i empty_db)))"
proof -
  have "ledger_ok empty_db" by (simp add: ledger_ok_def empty_db_def)
  with write_ahead [OF this] show ?thesis by blast
qed


end
