(* ===== verification/Send_Verdicts.thy ===== *)
theory Send_Verdicts
  imports Send_Safety
begin

text \<open>
  The verdicts the send side writes down about a swap it finds on disk: whether funding ever
  happened, whether boltz really claimed, what the chain clock reads; and two paths that do not
  behave as their comments say.
\<close>

subsection \<open>Never funded, or recovered\<close>

definition never_funded :: "world \<Rightarrow> swap_row \<Rightarrow> nat \<Rightarrow> nat \<Rightarrow> bool" where
  "never_funded w swap t0 t1 \<longleftrightarrow> (\<exists>t server user script. t0 \<le> t \<and> t < t1
     \<and> rebuild_script w server user swap = Inr script \<and> w_byScript w t (script_hex w script) False = Inr [])"

definition coin_seen :: "world \<Rightarrow> swap_row \<Rightarrow> string \<Rightarrow> nat \<Rightarrow> bool" where
  "coin_seen w swap txid vout \<longleftrightarrow> (\<exists>t server user script coins. rebuild_script w server user swap = Inr script
     \<and> w_byScript w t (script_hex w script) False = Inr coins
     \<and> (\<exists>c \<in> set coins. c_txid c = txid \<and> c_vout c = vout \<and> unspent c))"

definition verdict_ok :: "world \<Rightarrow> swap_row \<Rightarrow> db \<Rightarrow> funding_verdict \<Rightarrow> db \<Rightarrow> bool" where
  "verdict_ok w swap d v s \<longleftrightarrow> (case v of
       Unknown \<Rightarrow> swaps s = swaps d
     | Unfunded \<Rightarrow> swaps s = swaps d \<and> s_state swap = Init \<and> \<not> truthy (s_fundingOutpoint swap)
         \<and> never_funded w swap (tick d) (tick s)
     | Recovered \<Rightarrow> s_state swap = Init \<and> (\<exists>txid vout r. coin_seen w swap txid vout
         \<and> repo_get s (s_id swap) = Some r \<and> s_state r = Funded
         \<and> s_fundingOutpoint r = Some (outpoint_key txid vout)))"

lemma coin_seenI:
  "rebuild_script w server user swap = Inr script \<Longrightarrow> w_byScript w t (script_hex w script) False = Inr coins
   \<Longrightarrow> v \<in> set coins \<Longrightarrow> unspent v \<Longrightarrow> coin_seen w swap (c_txid v) (c_vout v)"
  unfolding coin_seen_def by blast

lemma transition_Inr_state:
  assumes "transition w i st s = (Inr u, t)"
  shows "\<exists>r. repo_get s i = Some r \<and> repo_get t i = Some (r\<lparr>s_state := st, s_updatedAt := w_now w (tick s)\<rparr>)"
  using assms
  by (auto simp: transition_def clock_ms_def andthen_def repo_transition_eq split: option.splits sum.splits)

lemma setFundingOutpoint_Inr:
  assumes "setFundingOutpoint w i op s = (Inr u, t)"
  shows "\<exists>r. repo_get s i = Some r \<and> repo_get t i = Some (r\<lparr>s_fundingOutpoint := Some op, s_updatedAt := w_now w (tick s)\<rparr>)"
  using assms
  by (auto simp: setFundingOutpoint_def repo_setFundingOutpoint_def clock_ms_def andthen_def repo_touch_eq
      repo_get_update_swap split: option.splits)

lemma triple_recover:
  "triple (\<lambda>s. True) (andthen (setFundingOutpoint w i op) (\<lambda>u. andthen (transition w i Funded) (\<lambda>u. ret Recovered)))
     (\<lambda>v s. v = Recovered \<and> (\<exists>r. repo_get s i = Some r \<and> s_state r = Funded \<and> s_fundingOutpoint r = Some op))
     (\<lambda>e s. True)"
proof (rule tripleI)
  fix s v t
  assume "andthen (setFundingOutpoint w i op) (\<lambda>u. andthen (transition w i Funded) (\<lambda>u. ret Recovered)) s = (Inr v, t)"
  then obtain u s1 u2 where "setFundingOutpoint w i op s = (Inr u, s1)" "transition w i Funded s1 = (Inr u2, t)" "v = Recovered"
    by (auto elim!: andthen_InrE)
  with setFundingOutpoint_Inr transition_Inr_state
  show "v = Recovered \<and> (\<exists>r. repo_get t i = Some r \<and> s_state r = Funded \<and> s_fundingOutpoint r = Some op)"
    by fastforce
qed simp

definition since :: "db \<Rightarrow> db \<Rightarrow> bool" where
  "since d s \<longleftrightarrow> same_books d s"

lemma triple_since:
  "moves same_books m \<Longrightarrow> triple (since d) m (\<lambda>x. since d) (\<lambda>e s. True)"
  by (rule triple_conseq [OF triple_moves [where R = same_books and P = "since d" and Q = "since d"]])
    (auto simp: since_def intro: bks.R_trans)

lemma triple_classify:
  "triple (\<lambda>s. s = d) (classifyUnfundedInit w swap) (verdict_ok w swap d) (\<lambda>e s. True)"
proof -
  let ?E = "\<lambda>(e :: err) (s :: db). True"
  have ask: "triple (since d) (await (\<lambda>t. w_byScript w t pk False))
      (\<lambda>coins s. since d s \<and> (\<exists>t. tick d \<le> t \<and> t < tick s \<and> w_byScript w t pk False = Inr coins)) ?E" for pk
    by (rule triple_await) (auto simp: since_def same_books_def)
  have decide: "triple (\<lambda>s. since d s \<and> (\<exists>t. tick d \<le> t \<and> t < tick s \<and> w_byScript w t (script_hex w script) False = Inr coins))
      (if coins = [] then ret Unfunded
        else (case find_first unspent coins of
            None \<Rightarrow> ret Unknown
          | Some v \<Rightarrow>
              andthen (setFundingOutpoint w (s_id swap) (outpoint_key (c_txid v) (c_vout v))) (\<lambda>u.
              andthen (transition w (s_id swap) Funded) (\<lambda>u.
              ret Recovered)))) (verdict_ok w swap d) ?E"
    if script: "rebuild_script w server user swap = Inr script" and init: "s_state swap = Init" "\<not> truthy (s_fundingOutpoint swap)"
    for script server user coins
  proof (cases "coins = []")
    case True
    show ?thesis
      by (simp add: True, rule triple_ret) (use script init in \<open>auto simp: verdict_ok_def never_funded_def since_def same_books_def\<close>)
  next
    case nonempty: False
    show ?thesis
    proof (cases "find_first unspent coins")
      case None
      with nonempty show ?thesis by (simp, intro triple_ret) (auto simp: verdict_ok_def since_def same_books_def)
    next
      case (Some v)
      then have v: "v \<in> set coins" "unspent v" by (auto dest: find_first_Some)
      have "triple (\<lambda>s. True \<and> (\<exists>t. w_byScript w t (script_hex w script) False = Inr coins))
         (andthen (setFundingOutpoint w (s_id swap) (outpoint_key (c_txid v) (c_vout v))) (\<lambda>u.
          andthen (transition w (s_id swap) Funded) (\<lambda>u. ret Recovered))) (verdict_ok w swap d) ?E"
        by (rule triple_pure, rule triple_conseq [OF triple_recover])
          (use v script init in \<open>auto simp: verdict_ok_def intro: coin_seenI\<close>)
      then have "triple (\<lambda>s. since d s \<and> (\<exists>t. tick d \<le> t \<and> t < tick s \<and> w_byScript w t (script_hex w script) False = Inr coins))
         (andthen (setFundingOutpoint w (s_id swap) (outpoint_key (c_txid v) (c_vout v))) (\<lambda>u.
          andthen (transition w (s_id swap) Funded) (\<lambda>u. ret Recovered))) (verdict_ok w swap d) ?E"
        by (rule triple_pre) auto
      with nonempty Some show ?thesis by simp
    qed
  qed
  have script: "triple (since d) (lift_res (rebuild_script w server user swap))
      (\<lambda>script s. since d s \<and> rebuild_script w server user swap = Inr script) ?E" for server user
    by (rule triple_lift) auto
  show ?thesis
  proof (cases "truthy (s_fundingOutpoint swap) \<or> s_state swap \<noteq> Init \<or> \<not> truthy (s_peerPubkey swap) \<or> s_exitDelay swap = None")
    case True
    then show ?thesis unfolding classifyUnfundedInit_def by (simp add: triple_def verdict_ok_def)
  next
    case False
    then have init: "s_state swap = Init" "\<not> truthy (s_fundingOutpoint swap)" by auto
    have "triple (since d) (classifyUnfundedInit w swap) (verdict_ok w swap d) ?E"
      unfolding classifyUnfundedInit_def if_not_P [OF False]
      apply (rule triple_andthen [OF triple_since [OF bks_await]])
      apply (rule triple_andthen [OF triple_since [OF bks.moves_lift]])
      apply (rule triple_andthen [OF triple_since [OF bks_await]])
      apply (rule triple_andthen [OF script])
      apply (rule triple_pure)
      apply (rule triple_andthen [OF ask])
      apply (erule decide [OF _ init])
      done
    then show ?thesis by (rule triple_pre) (simp add: since_def bks.R_refl)
  qed
qed

text \<open>A send is declared dead only when its script never held a coin. When \<open>failIfUnfunded\<close>
  reports that it failed a row, the row was an init row without a funding outpoint, and an indexer
  answer read during the call listed no coin at all, spent or not, at the script rebuilt from that
  row; the resume pass fails such a row on the same evidence and only past the grace period. The
  other verdict that writes, a recovery, rests on an unspent coin listed at that script and leaves
  the row funded with its outpoint.\<close>

theorem unfunded_sound:
  "(\<forall>d'. failIfUnfunded w i d = (Inr True, d') \<longrightarrow>
      (\<exists>swap r. repo_get d i = Some swap \<and> s_state swap = Init \<and> \<not> truthy (s_fundingOutpoint swap)
        \<and> never_funded w swap (tick d) (tick d') \<and> repo_get d' i = Some r \<and> s_state r = Failed))
   \<and> (\<forall>out d'. resume_init w nowMs row d = (Inr out, d') \<and> re_unfunded (out empty_resume) \<noteq> [] \<longrightarrow>
      s_state row = Init \<and> s_id row \<notin> set (inflight d) \<and> UNFUNDED_GRACE_MS < nowMs - s_createdAt row
        \<and> never_funded w row (tick d) (tick d'))
   \<and> (\<forall>d'. classifyUnfundedInit w row d = (Inr Recovered, d') \<longrightarrow>
      (\<exists>txid vout r. coin_seen w row txid vout \<and> repo_get d' (s_id row) = Some r \<and> s_state r = Funded
        \<and> s_fundingOutpoint r = Some (outpoint_key txid vout)))"
proof (intro conjI allI impI)
  fix d' assume run: "failIfUnfunded w i d = (Inr True, d')"
  then obtain swap where swap: "repo_get d i = Some swap"
    by (cases "repo_get d i") (auto simp: failIfUnfunded_def andthen_def)
  from run obtain s1 u where cl: "classifyUnfundedInit w swap d = (Inr Unfunded, s1)"
    and tr: "transition w i Failed s1 = (Inr u, d')"
    by (auto simp: failIfUnfunded_def swap andthen_def catching_def
        split: if_splits prod.splits sum.splits)
  from triple_Inr [OF triple_classify refl cl] have "verdict_ok w swap d Unfunded s1" .
  moreover from transition_Inr_state [OF tr] obtain r where r: "repo_get s1 i = Some r"
    "repo_get d' i = Some (r\<lparr>s_state := Failed, s_updatedAt := w_now w (tick s1)\<rparr>)" by blast
  moreover have "tick d' = tick s1"
    using tr by (auto simp: transition_def clock_ms_def andthen_def repo_transition_eq split: option.splits sum.splits)
  ultimately show "\<exists>swap r. repo_get d i = Some swap \<and> s_state swap = Init \<and> \<not> truthy (s_fundingOutpoint swap)
        \<and> never_funded w swap (tick d) (tick d') \<and> repo_get d' i = Some r \<and> s_state r = Failed"
    using swap by (auto simp: verdict_ok_def)
next
  fix d' assume run: "classifyUnfundedInit w row d = (Inr Recovered, d')"
  from triple_Inr [OF triple_classify refl run]
  show "\<exists>txid vout r. coin_seen w row txid vout \<and> repo_get d' (s_id row) = Some r \<and> s_state r = Funded
        \<and> s_fundingOutpoint r = Some (outpoint_key txid vout)"
    by (auto simp: verdict_ok_def)
next
  fix out :: outcome and d' assume a: "resume_init w nowMs row d = (Inr out, d') \<and> re_unfunded (out empty_resume) \<noteq> []"
  then have "s_id row \<notin> set (inflight d)" "s_state row = Init"
    by (auto simp: resume_init_def empty_resume_def split: if_splits)
  moreover from a obtain s1 u where cl: "classifyUnfundedInit w row d = (Inr Unfunded, s1)"
    and grace: "UNFUNDED_GRACE_MS < nowMs - s_createdAt row" and tr: "transition w (s_id row) Failed s1 = (Inr u, d')"
    by (auto simp: resume_init_def andthen_def catching_def empty_resume_def
        split: if_splits prod.splits sum.splits)
  moreover have "tick d' = tick s1"
    using tr by (auto simp: transition_def clock_ms_def andthen_def repo_transition_eq split: option.splits sum.splits)
  moreover from triple_Inr [OF triple_classify refl cl] have "never_funded w row (tick d) (tick s1)"
    by (simp add: verdict_ok_def)
  ultimately show "s_state row = Init" "s_id row \<notin> set (inflight d)"
      "UNFUNDED_GRACE_MS < nowMs - s_createdAt row" "never_funded w row (tick d) (tick d')"
    by simp_all
qed

subsection \<open>Claimed only on evidence\<close>

lemma confirm_Inr: "\<exists>b d'. confirmSpent w txid vout d = (Inr b, d') \<and> same_books d d'"
  using confirm_poll_Inr [of 6 w txid vout d] movesD [OF bks_confirm, of d]
  unfolding confirmSpent_def by (metis snd_conv)

text \<open>Reconciling a claim needs the chain, not boltz. For a row whose recorded outpoint is an
  outpoint, \<open>markClaimed\<close> answers yes only if an indexer answer read during the call showed that
  outpoint spent, and then the row is claimed; when no answer shows it, the answer is no, the row
  keeps its state and its outpoint so that the refund stays possible, and the preimage boltz
  offered is saved on it.\<close>

theorem claim_needs_spend:
  assumes "CHR '':'' \<notin> set txid" and "txid \<noteq> []"
    and "markClaimed w i preimage (Some (outpoint_key txid vout)) d = (Inr b, d')"
  shows "(b \<longrightarrow> (\<exists>t. tick d \<le> t \<and> t < tick d' \<and> shows_spent w t txid vout)
           \<and> (\<exists>r. repo_get d' i = Some r \<and> s_state r = Claimed))
    \<and> (\<not> b \<longrightarrow> (case repo_get d i of None \<Rightarrow> repo_get d' i = None
         | Some r \<Rightarrow> \<exists>r'. repo_get d' i = Some r' \<and> s_state r' = s_state r
             \<and> s_fundingOutpoint r' = s_fundingOutpoint r
             \<and> (truthy preimage \<longrightarrow> s_preimage r' = preimage)))"
proof -
  have op: "(if truthy (Some (outpoint_key txid vout)) then parse_outpoint (the (Some (outpoint_key txid vout))) else None)
      = Some (txid, Some vout)"
    using parse_outpoint_key [OF assms(1,2)] by simp
  note mc = assms(3) [unfolded markClaimed_def op Let_def option.case prod.case]
  obtain c s1 where conf: "confirmSpent w txid vout d = (Inr c, s1)" "same_books d s1"
    using confirm_Inr [of w txid vout d] by blast
  have row1: "repo_get s1 i = repo_get d i" using conf(2) by (simp add: same_books_def repo_get_def)
  show ?thesis
  proof (cases c)
    case False
    then have run: "andthen (if truthy preimage then setPreimage w i (the preimage) else ret ()) (\<lambda>u. ret False) s1 = (Inr b, d')"
      using mc conf(1) by simp
    then have "\<not> b" by (auto elim!: andthen_InrE)
    moreover have "case repo_get d i of None \<Rightarrow> repo_get d' i = None
         | Some r \<Rightarrow> \<exists>r'. repo_get d' i = Some r' \<and> s_state r' = s_state r
             \<and> s_fundingOutpoint r' = s_fundingOutpoint r \<and> (truthy preimage \<longrightarrow> s_preimage r' = preimage)"
    proof (cases "truthy preimage")
      case True
      then obtain pre where "preimage = Some pre" by (auto simp: truthy_def)
      with True run row1 show ?thesis
        by (auto simp: setPreimage_def repo_setPreimage_def clock_ms_def andthen_def repo_touch_eq
            repo_get_update_swap split: option.splits)
    next
      case False
      with run row1 show ?thesis by (auto split: option.split)
    qed
    ultimately show ?thesis by simp
  next
    case True
    from confirm_poll_True [OF conf(1) [unfolded confirmSpent_def]] True obtain t where
      t: "tick d \<le> t" "t < tick s1" "shows_spent w t txid vout" by auto
    obtain cur where cur: "repo_get s1 i = Some cur"
      using mc conf(1) True by (cases "repo_get s1 i") auto
    let ?rest = "\<lambda>u. andthen (modify (notify Send_subdust)) (\<lambda>u.
        andthen (if truthy preimage then setPreimage w i (the preimage) else ret ()) (\<lambda>u.
        andthen (releaseVaultRow txid (Some vout)) (\<lambda>u. ret True)))"
    have run: "andthen (if s_state cur = Funded then transition w i Ln_inflight else ret ()) (\<lambda>u.
        andthen (transition w i Claimed) ?rest) s1 = (Inr b, d')"
      using mc conf(1) True cur by simp
    then obtain u s2 u' s3 where s2: "(if s_state cur = Funded then transition w i Ln_inflight else ret ()) s1 = (Inr u, s2)"
      and s3: "transition w i Claimed s2 = (Inr u', s3)" and fin: "?rest u' s3 = (Inr b, d')"
      by (auto elim!: andthen_InrE)
    from transition_Inr_state [OF s3] obtain r where r3: "repo_get s3 i = Some r" "s_state r = Claimed" by auto
    have tick: "tick s2 = tick s1" "tick s3 = tick s2"
      using s2 s3 by (auto simp: transition_def clock_ms_def andthen_def repo_transition_eq
          split: option.splits sum.splits if_splits)
    obtain s4 where s4: "(if truthy preimage then setPreimage w i (the preimage) else ret ()) (notify Send_subdust s3) = (Inr (), s4)"
        "\<exists>r. repo_get s4 i = Some r \<and> s_state r = Claimed" "tick s4 = tick s3"
      using r3 by (cases "truthy preimage")
        (auto simp: setPreimage_def repo_setPreimage_def clock_ms_def repo_touch_eq repo_get_update_swap)
    obtain s5 where s5: "releaseVaultRow txid (Some vout) s4 = (Inr (), s5)" "swaps s5 = swaps s4" "tick s5 = tick s4"
      using releaseVaultRow_run [of txid "Some vout" s4] by blast
    from fin have fin': "b" "d' = s5" by (simp_all add: s4(1) s5(1))
    have "repo_get s5 i = repo_get s4 i" by (simp add: repo_get_def s5(2))
    then have "\<exists>r. repo_get d' i = Some r \<and> s_state r = Claimed" using s4(2) fin'(2) by simp
    moreover have "tick d' = tick s1" using s4(3) s5(3) tick fin'(2) by simp
    ultimately show ?thesis using t fin'(1) by auto
  qed
qed

subsection \<open>The chain clock\<close>

interpretation up: comparator "\<lambda>a b. a - b :: int"
  using comparator_diff [where k = "\<lambda>x :: int. x"] .

lemma js_sort_int: "js_sort (\<lambda>a b. a - b) xs = sort (xs :: int list)"
proof (rule properties_for_sort [symmetric])
  show "mset (js_sort (\<lambda>a b. a - b) xs) = mset xs" by simp
  show "sorted (js_sort (\<lambda>a b. a - b) xs)" using up.sorted_js_sort [of xs] by simp
qed

text \<open>The chain-clock gate. For ten numeric timestamps, the newest ten headers, the estimate is
  the median of the last eleven whenever the missing eleventh is not newer than any of them; and
  with fewer than five numeric timestamps there is no estimate and the gate stays open.\<close>

theorem mtp_is_median:
  "(length ts = 10 \<and> (\<forall>t \<in> set ts. oldest \<le> t) \<longrightarrow>
      mtp_of (map Some ts @ older) = Some (sort (ts @ [oldest]) ! 5))
   \<and> (length (filter (\<lambda>b. b \<noteq> None) blocks) < 5 \<longrightarrow> mtp_of blocks = None)"
proof (intro conjI impI)
  assume a: "length ts = 10 \<and> (\<forall>t \<in> set ts. oldest \<le> t)"
  have "concat (map (\<lambda>b. case b of None \<Rightarrow> [] | Some t \<Rightarrow> [t]) (map Some ts @ older))
      = ts @ concat (map (\<lambda>b. case b of None \<Rightarrow> [] | Some t \<Rightarrow> [t]) older)"
    by (simp add: comp_def)
  then have "mtp_of (map Some ts @ older) = Some (sort ts ! 4)"
    using a by (simp add: mtp_of_def js_sort_int)
  moreover have "sort (ts @ [oldest]) = oldest # sort ts"
    by (rule properties_for_sort) (use a in auto)
  ultimately show "mtp_of (map Some ts @ older) = Some (sort (ts @ [oldest]) ! 5)" by simp
next
  assume a: "length (filter (\<lambda>b. b \<noteq> None) blocks) < 5"
  have "length (concat (map (\<lambda>b. case b of None \<Rightarrow> [] | Some t \<Rightarrow> [t]) blocks))
      = length (filter (\<lambda>b. b \<noteq> None) blocks)"
    by (induction blocks) (auto split: option.split)
  with a show "mtp_of blocks = None" by (simp add: mtp_of_def)
qed

theorem mtp_is_median_witness:
  "mtp_of (map Some [10, 9, 8, 7, 6, 5, 4, 3, 2, 1]) = Some 5 \<and> mtp_of [Some 3] = None"
  using mtp_is_median [of "[10, 9, 8, 7, 6, 5, 4, 3, 2, 1]" 0 "[]" "[Some 3]"] by simp

subsection \<open>Two paths that do not do what their comments say\<close>

text \<open>A second send for the same invoice takes the lock away from the first. boltz answers an
  unfunded invoice with the same swap id, so the second call registers nothing new, is refused by
  the store as a duplicate, and its \<open>finally\<close> removes the id although the first call is still
  running; the store is untouched, but the resume pass may now act on the first call's row.\<close>

theorem duplicate_send_unlocks:
  assumes "send_prepare w invoice a d = (Inr p, d1)" and "repo_get d (pl_id p) = Some live"
    and "pl_id p \<in> set (inflight d)"
  shows "\<exists>d'. atomicSubdustSend w invoice a d = (Inl (Duplicate_swap (pl_hash p)), d')
    \<and> swaps d' = swaps d \<and> set (inflight d') = set (inflight d) - {pl_id p}"
proof -
  from movesD [OF bks_prepare, of d] assms(1) have b: "swaps d1 = swaps d" "inflight d1 = inflight d"
    by (metis same_books_def snd_conv)+
  let ?d2 = "inflight_update (set_add (pl_id p)) d1"
  have "repo_get ?d2 (pl_id p) \<noteq> None" using assms(2) b by (simp add: repo_get_def)
  then have "send_live w invoice p ?d2 = (Inl (Duplicate_swap (pl_hash p)), ?d2)"
    by (simp add: send_live_def send_create_def clock_ms_def repo_create_def andthen_def)
  then have "atomicSubdustSend w invoice a d
      = (Inl (Duplicate_swap (pl_hash p)), inflight_update (removeAll (pl_id p)) ?d2)"
    by (simp add: atomicSubdustSend_def assms(1))
  with b show ?thesis by (auto simp: mem_set_add)
qed

lemma check_row_closed:
  "repo_get s i = Some r \<Longrightarrow> s_direction r = Send \<Longrightarrow> s_state r \<notin> set refundable_states
   \<Longrightarrow> check_row i what s = (Inl (Error ''nothing to unwind''), s)"
  by (simp add: check_row_def andthen_def guard_eff_def)

text \<open>C17: an answer of boltz that is neither a claim with a preimage nor \<open>failed\<close> strands the funding.
  The send throws with the message that the funds are refundable after T, but it has moved the row
  to the terminal state failed with its funding outpoint still recorded: refund and cancel refuse
  it, and the resume pass no longer lists it.\<close>

theorem unexpected_answer_strands:
  assumes "repo_get d (pl_id p) = Some r" and "s_direction r = Send" and "s_state r = Funded"
    and "w_fund w (tick d) (pl_id p) (outpoint_key (sh_txid shared) (sh_vout shared)) ps = Inr ans"
    and "zf_status ans \<noteq> ''failed''" and "zf_status ans \<noteq> ''claimed'' \<or> zf_preimage ans = None"
  shows "\<exists>d' r'. send_handover w p shared ps d = (Inl (Error ''funds refundable after T''), d')
    \<and> repo_get d' (pl_id p) = Some r' \<and> s_fundingOutpoint r' = s_fundingOutpoint r
    \<and> isTerminal (s_direction r') (s_state r') = Inr True
    \<and> refundAtomicSend w (pl_id p) d' = (Inl (Error ''nothing to unwind''), d')
    \<and> cancelAtomicSend w (pl_id p) d' = (Inl (Error ''nothing to unwind''), d')"
proof -
  let ?s1 = "update_swap (pl_id p) (\<lambda>r. r\<lparr>s_state := Ln_inflight, s_updatedAt := w_now w (tick d)\<rparr>) d"
  have t1: "transition w (pl_id p) Ln_inflight d = (Inr (), ?s1)"
    by (rule transition_run [OF assms(1)]) (simp add: assms(2,3) legal_step_iff)
  define s2 where "s2 = (snd (log_call Hand_presigs (pl_id p) ?s1))\<lparr>tick := Suc (tick d)\<rparr>"
  have row2: "repo_get s2 (pl_id p) = Some (r\<lparr>s_state := Ln_inflight, s_updatedAt := w_now w (tick d)\<rparr>)"
    using repo_get_after [where i = "pl_id p" and st = Ln_inflight and now = "w_now w (tick d)" and s = d] assms(1)
    by (simp add: s2_def log_call_def repo_get_def)
  let ?s3 = "update_swap (pl_id p) (\<lambda>r. r\<lparr>s_state := Failed, s_updatedAt := w_now w (tick s2)\<rparr>) s2"
  have t3: "transition w (pl_id p) Failed s2 = (Inr (), ?s3)"
    by (rule transition_run [OF row2]) (simp add: assms(2) legal_step_iff)
  have ho: "send_handover w p shared ps d = (Inl (Error ''funds refundable after T''), notify Send_fail ?s3)"
    using assms(4-6) t1 t3
    by (simp add: send_handover_def andthen_def log_call_def await_def s2_def)
  let ?r = "r\<lparr>s_state := Failed, s_updatedAt := w_now w (tick s2)\<rparr>"
  define e where "e = notify Send_fail ?s3"
  have row: "repo_get e (pl_id p) = Some ?r" using row2 by (simp add: e_def)
  have no: "check_row (pl_id p) what e = (Inl (Error ''nothing to unwind''), e)" for what
    by (rule check_row_closed [OF row]) (simp_all add: assms(2) refundable_states_def)
  show ?thesis
    by (rule exI [where x = e], rule exI [where x = ?r])
      (use ho [folded e_def] row no assms(2) in \<open>simp add: isTerminal_def refundAtomicSend_def cancelAtomicSend_def\<close>)
qed

subsection \<open>A small world, for the witnesses\<close>

text \<open>Every answer succeeds; the indexer lists the shared coin until the fifth answer, and shows it
  spent from then on. The clock stands at one million seconds.\<close>

definition sample_key :: bytes where "sample_key = replicate 32 2"

definition sample_sdk :: sdk where
  "sample_sdk = \<lparr>k_hexDecode = (\<lambda>s. Inr sample_key), k_hexEncode = (\<lambda>b. ''ab''), k_sha256 = (\<lambda>b. sample_key),
     k_ripemd160 = (\<lambda>b. []), k_pkScript = (\<lambda>s. []), k_encode = (\<lambda>s. []), k_scriptAddress = (\<lambda>s h k. ''ark''),
     k_defaultAddress = (\<lambda>a b u n h. \<lparr>pkScript = ''C'', subdustPkScript = ''c''\<rparr>),
     k_decodeAddress = (\<lambda>s. Inr \<lparr>pkScript = ''F'', subdustPkScript = ''f''\<rparr>), k_unroll = (\<lambda>s. Inr []),
     k_decodeInvoice = (\<lambda>s. Inr \<lparr>iv_paymentHash = Some ''h1'', iv_amountSats = Some 100\<rparr>),
     k_isSpendable = (\<lambda>c. True), k_isRecoverable = (\<lambda>c. False), k_lib = sample_lib, k_sizes = sample_sizes_lib\<rparr>"

definition spent_coin :: vcoin where
  "spent_coin = (sample_coin ''aa'' 1000)\<lparr>c_spentBy := Some ''bb''\<rparr>"

definition sample_world :: world where
  "sample_world = \<lparr>w_sdk = sample_sdk, w_now = (\<lambda>t. 1000000000),
     w_info = (\<lambda>t. Inr \<lparr>i_signerPubkey = [], i_checkpointTapscript = [], i_dust = 330, i_network = ''bitcoin'', i_unilateralExitDelay = 512\<rparr>),
     w_userKey = (\<lambda>t. Inr sample_key), w_walletAddress = (\<lambda>t. Inr ''ark''),
     w_walletVtxos = (\<lambda>t. Inr [sample_coin ''dd'' 1000]), w_sendBitcoin = (\<lambda>t a n cs. Inr ''aa''),
     w_ix = (\<lambda>t. \<lparr>ix_getVtxoChain = (\<lambda>x n. Inr []), ix_getVirtualTxs = (\<lambda>x i n. Inr \<lparr>rs_txs = [], rs_page = None\<rparr>),
       ix_getVtxos = (\<lambda>ops. Inr [spent_coin])\<rparr>),
     w_byScript = (\<lambda>t pk so. Inr (if so \<and> t < 5 then [sample_coin ''aa'' 1000] else [])),
     w_presignClaim = (\<lambda>t s os u. Inr \<lparr>ps_arkTx = [], ps_checkpoint = []\<rparr>),
     w_presignCancel = (\<lambda>t s os u. Inr \<lparr>ps_arkTx = [], ps_checkpoint = []\<rparr>),
     w_refundSpend = (\<lambda>t s os u. Inr ''rf''), w_finishClaim = (\<lambda>t s os u p b. Inr ''cl''),
     w_init = (\<lambda>t inv k. Inr \<lparr>zi_swapId = ''s1'', zi_boltzPubkey = [], zi_refundLocktime = 900000, zi_exitDelay = ''600'',
        zi_boltzScriptDelay = None, zi_feeSats = Some 3\<rparr>),
     w_fund = (\<lambda>t i op p. Inr \<lparr>zf_status = ''claimed'', zf_preimage = Some ''pp''\<rparr>),
     w_cancel = (\<lambda>t i op os p. Inr \<lparr>zc_status = ''cancelled'', zc_cancelTxid = Some ''cx''\<rparr>),
     w_status = (\<lambda>t i. None), w_receiveInit = (\<lambda>t a h k dh. Inr \<lparr>ri_swapId = ''r1'', ri_invoice = ''inv''\<rparr>),
     w_receiveStatus = (\<lambda>t i. Inr \<lparr>rv_state = ''funded'', rv_fundingOutpoint = Some (outpoint_key ''aa'' 0),
        rv_presigs = Some \<lparr>ps_arkTx = [], ps_checkpoint = []\<rparr>, rv_boltzPubkey = Some [],
        rv_refundLocktime = Some 900000, rv_boltzScriptDelay = None\<rparr>),
     w_receiveSettle = (\<lambda>t i p. Inr ()), w_random = (\<lambda>t. sample_key), w_esploraUrl = False, w_blocks = (\<lambda>t. None)\<rparr>"

lemma sample_world_simps [simp]:
  "w_sdk sample_world = sample_sdk"
  "w_now sample_world = (\<lambda>t. 1000000000)"
  "w_info sample_world = (\<lambda>t. Inr \<lparr>i_signerPubkey = [], i_checkpointTapscript = [], i_dust = 330, i_network = ''bitcoin'', i_unilateralExitDelay = 512\<rparr>)"
  "w_userKey sample_world = (\<lambda>t. Inr sample_key)"
  "w_walletAddress sample_world = (\<lambda>t. Inr ''ark'')"
  "w_walletVtxos sample_world = (\<lambda>t. Inr [sample_coin ''dd'' 1000])"
  "w_sendBitcoin sample_world = (\<lambda>t a n cs. Inr ''aa'')"
  "w_ix sample_world = (\<lambda>t. \<lparr>ix_getVtxoChain = (\<lambda>x n. Inr []), ix_getVirtualTxs = (\<lambda>x i n. Inr \<lparr>rs_txs = [], rs_page = None\<rparr>), ix_getVtxos = (\<lambda>ops. Inr [spent_coin])\<rparr>)"
  "w_byScript sample_world = (\<lambda>t pk so. Inr (if so \<and> t < 5 then [sample_coin ''aa'' 1000] else []))"
  "w_presignClaim sample_world = (\<lambda>t s os u. Inr \<lparr>ps_arkTx = [], ps_checkpoint = []\<rparr>)"
  "w_presignCancel sample_world = (\<lambda>t s os u. Inr \<lparr>ps_arkTx = [], ps_checkpoint = []\<rparr>)"
  "w_refundSpend sample_world = (\<lambda>t s os u. Inr ''rf'')"
  "w_finishClaim sample_world = (\<lambda>t s os u p b. Inr ''cl'')"
  "w_init sample_world = (\<lambda>t inv k. Inr \<lparr>zi_swapId = ''s1'', zi_boltzPubkey = [], zi_refundLocktime = 900000, zi_exitDelay = ''600'', zi_boltzScriptDelay = None, zi_feeSats = Some 3\<rparr>)"
  "w_fund sample_world = (\<lambda>t i op p. Inr \<lparr>zf_status = ''claimed'', zf_preimage = Some ''pp''\<rparr>)"
  "w_cancel sample_world = (\<lambda>t i op os p. Inr \<lparr>zc_status = ''cancelled'', zc_cancelTxid = Some ''cx''\<rparr>)"
  "w_status sample_world = (\<lambda>t i. None)"
  "w_receiveInit sample_world = (\<lambda>t a h k dh. Inr \<lparr>ri_swapId = ''r1'', ri_invoice = ''inv''\<rparr>)"
  "w_receiveStatus sample_world = (\<lambda>t i. Inr \<lparr>rv_state = ''funded'', rv_fundingOutpoint = Some (outpoint_key ''aa'' 0), rv_presigs = Some \<lparr>ps_arkTx = [], ps_checkpoint = []\<rparr>, rv_boltzPubkey = Some [], rv_refundLocktime = Some 900000, rv_boltzScriptDelay = None\<rparr>)"
  "w_receiveSettle sample_world = (\<lambda>t i p. Inr ())"
  "w_random sample_world = (\<lambda>t. sample_key)"
  "w_esploraUrl sample_world = False"
  "w_blocks sample_world = (\<lambda>t. None)"
  by (simp_all add: sample_world_def)

lemma sample_sdk_simps [simp]:
  "k_hexDecode sample_sdk = (\<lambda>s. Inr sample_key)"
  "k_hexEncode sample_sdk = (\<lambda>b. ''ab'')"
  "k_sha256 sample_sdk = (\<lambda>b. sample_key)"
  "k_ripemd160 sample_sdk = (\<lambda>b. [])"
  "k_pkScript sample_sdk = (\<lambda>s. [])"
  "k_encode sample_sdk = (\<lambda>s. [])"
  "k_scriptAddress sample_sdk = (\<lambda>s h k. ''ark'')"
  "k_defaultAddress sample_sdk = (\<lambda>a b u n h. \<lparr>pkScript = ''C'', subdustPkScript = ''c''\<rparr>)"
  "k_decodeAddress sample_sdk = (\<lambda>s. Inr \<lparr>pkScript = ''F'', subdustPkScript = ''f''\<rparr>)"
  "k_unroll sample_sdk = (\<lambda>s. Inr [])"
  "k_decodeInvoice sample_sdk = (\<lambda>s. Inr \<lparr>iv_paymentHash = Some ''h1'', iv_amountSats = Some 100\<rparr>)"
  "k_isSpendable sample_sdk = (\<lambda>c. True)"
  "k_isRecoverable sample_sdk = (\<lambda>c. False)"
  "k_lib sample_sdk = sample_lib"
  "k_sizes sample_sdk = sample_sizes_lib"
  by (simp_all add: sample_sdk_def)

definition sample_row :: "swap_state \<Rightarrow> string option \<Rightarrow> swap_row" where
  "sample_row st op = \<lparr>s_id = ''s1'', s_direction = Send, s_paymentHash = ''h1'', s_state = st, s_amount = 100,
     s_refundLocktime = 900000, s_fundingOutpoint = op, s_presigs = None, s_preimage = None, s_invoice = None,
     s_peerPubkey = Some ''ab'', s_exitDelay = Some 600, s_createdAt = 0, s_updatedAt = 0\<rparr>"

lemma sample_row_simps [simp]:
  "s_id (sample_row st op) = ''s1''" "s_direction (sample_row st op) = Send" "s_state (sample_row st op) = st"
  "s_refundLocktime (sample_row st op) = 900000" "s_fundingOutpoint (sample_row st op) = op"
  "s_peerPubkey (sample_row st op) = Some ''ab''" "s_exitDelay (sample_row st op) = Some 600"
  "s_createdAt (sample_row st op) = 0" "s_updatedAt (sample_row st op) = 0" "s_paymentHash (sample_row st op) = ''h1''"
  by (simp_all add: sample_row_def)

definition sample_store :: "swap_state \<Rightarrow> string option \<Rightarrow> db" where
  "sample_store st op = empty_db\<lparr>swaps := [sample_row st op]\<rparr>"

lemma outpoint_key_nonempty [simp]: "outpoint_key t n \<noteq> []"
  by (simp add: outpoint_key_def)

lemma len_sample_key [simp]: "length sample_key = 32"
  by (simp add: sample_key_def)

lemma parse_sample [simp]: "parse_outpoint (outpoint_key ''aa'' n) = Some (''aa'', Some n)"
  by (rule parse_outpoint_key) simp_all

lemma sample_ledger [simp]: "ledger_ok (sample_store st op)" "ledger_ok empty_db"
  by (simp_all add: ledger_ok_def sample_store_def empty_db_def)

lemma sample_get_row: "repo_get (sample_store st op) ''s1'' = Some (sample_row st op)"
  by (simp add: repo_get_def sample_store_def sample_row_def empty_db_def)

definition sample_shared_script :: atomic_script where
  "sample_shared_script = (case rebuild_script sample_world sample_key sample_key (sample_row Init None) of
     Inr sc \<Rightarrow> sc | Inl e \<Rightarrow> undefined)"

lemma sample_script:
  "rebuild_script sample_world sample_key sample_key (sample_row st op) = Inr sample_shared_script"
  by (simp add: rebuild_script_def xonly_hex_def map_Inr_def sample_row_def sample_shared_script_def
      atomicVtxoScript_def assertXOnly_def toXOnly_def hashlockConditionScript_def)

definition sample_unwind :: unwind where
  "sample_unwind = \<lparr>uw_shared = \<lparr>sh_txid = ''aa'', sh_vout = 0, sh_value = 1000, sh_script = sample_shared_script\<rparr>,
     uw_unroll = [], uw_dust = 330, uw_ourAddr = \<lparr>pkScript = ''F'', subdustPkScript = ''f''\<rparr>, uw_pk = ''ab''\<rparr>"

lemma sample_unwind_simps [simp]:
  "sh_txid (uw_shared sample_unwind) = ''aa''" "sh_vout (uw_shared sample_unwind) = 0"
  "sh_value (uw_shared sample_unwind) = 1000" "uw_pk sample_unwind = ''ab''" "uw_dust sample_unwind = 330"
  by (simp_all add: sample_unwind_def)

lemma sample_coin_simps [simp]:
  "c_txid (sample_coin t v) = t" "c_vout (sample_coin t v) = 0" "c_value (sample_coin t v) = v"
  by (simp_all add: sample_coin_def)

lemma sample_xonly [simp]: "xonly_hex sample_world s = Inr sample_key" "toXOnly sample_key = sample_key"
  by (simp_all add: xonly_hex_def map_Inr_def toXOnly_def)

abbreviation sample_op :: "string option" where
  "sample_op \<equiv> Some (outpoint_key ''aa'' 0)"

lemma sample_load:
  assumes "tick d = 0"
  shows "load_unwind sample_world (sample_row st sample_op) d = (Inr sample_unwind, d\<lparr>tick := 4\<rparr>)"
  using assms
  by (simp add: load_unwind_def await_def andthen_def sample_script script_hex_def sample_unwind_def)

lemma sample_check:
  "st \<in> set refundable_states \<Longrightarrow>
     check_row ''s1'' what (sample_store st sample_op) = (Inr (sample_row st sample_op), sample_store st sample_op)"
  by (simp add: check_row_def sample_get_row andthen_def guard_eff_def truthy_def)

lemma sample_registered:
  assumes "5 \<le> tick d"
  shows "registered 8 sample_world pk t n d = (Inr True, d\<lparr>tick := Suc (tick d)\<rparr>)"
  using assms by (simp add: eval_nat_numeral await_def andthen_def still_listed_def)

lemma sample_refund:
  "\<exists>d'. refundAtomicSend sample_world ''s1'' (sample_store Funded sample_op)
     = (Inr \<lparr>xr_txid = ''rf'', xr_amount = 1000\<rparr>, d')"
proof -
  let ?d = "sample_store Funded sample_op"
  have t: "tick ?d = 0" by (simp add: sample_store_def empty_db_def)
  have chk: "check_row ''s1'' what ?d = (Inr (sample_row Funded sample_op), ?d)" for what
    by (rule sample_check) (simp add: refundable_states_def)
  have att: "\<exists>s. refund_attempts sample_world ''s1'' sample_unwind (freshTxidAttempts (uw_ourAddr sample_unwind) 1000 330) (?d\<lparr>tick := 4\<rparr>)
      = (Inr ''rf'', s) \<and> repo_get s ''s1'' = Some (sample_row Funded sample_op)"
    using t sample_get_row [of Funded sample_op]
    by (simp add: freshTxidAttempts_def Let_def log_call_def await_def andthen_def sample_registered repo_get_def)
  then obtain s where s: "refund_attempts sample_world ''s1'' sample_unwind (freshTxidAttempts (uw_ourAddr sample_unwind) 1000 330) (?d\<lparr>tick := 4\<rparr>)
      = (Inr ''rf'', s)" "repo_get s ''s1'' = Some (sample_row Funded sample_op)" by blast
  have tr: "\<exists>s1 r1. transition sample_world ''s1'' Refund_wait s = (Inr (), s1) \<and> repo_get s1 ''s1'' = Some r1
      \<and> s_state r1 = Refund_wait \<and> s_direction r1 = Send"
    using transition_run [OF s(2), of Refund_wait sample_world] s(2) by (simp add: legal_step_iff)
  then obtain s1 r1 where s1: "transition sample_world ''s1'' Refund_wait s = (Inr (), s1)" "repo_get s1 ''s1'' = Some r1"
      "s_state r1 = Refund_wait" "s_direction r1 = Send" by blast
  from close_row_run [OF s1(2), of Refunded sample_world sample_unwind "\<lparr>xr_txid = ''rf'', xr_amount = 1000\<rparr>"] s1
  obtain s2 where "close_row sample_world ''s1'' Refunded sample_unwind \<lparr>xr_txid = ''rf'', xr_amount = 1000\<rparr> s1
      = (Inr \<lparr>xr_txid = ''rf'', xr_amount = 1000\<rparr>, s2)" by (auto simp: legal_step_iff)
  then have "refundAtomicSend sample_world ''s1'' ?d = (Inr \<lparr>xr_txid = ''rf'', xr_amount = 1000\<rparr>, s2)"
    by (simp add: refundAtomicSend_def chk clock_ms_def guard_eff_def andthen_def [of "reading f" for f]
        sample_load [OF t] s(1) s1(1) close_row_def)
  then show ?thesis by blast
qed


lemma sample_cancel:
  "\<exists>d'. cancelAtomicSend sample_world ''s1'' (sample_store Refund_wait sample_op)
     = (Inr \<lparr>xr_txid = ''cx'', xr_amount = 1000\<rparr>, d')"
proof -
  let ?d = "sample_store Refund_wait sample_op"
  have t: "tick ?d = 0" by (simp add: sample_store_def empty_db_def)
  have chk: "check_row ''s1'' what ?d = (Inr (sample_row Refund_wait sample_op), ?d)" for what
    by (rule sample_check) (simp add: refundable_states_def)
  have "\<exists>s. cancel_attempts sample_world ''s1'' sample_unwind (freshTxidAttempts (uw_ourAddr sample_unwind) 1000 330) (?d\<lparr>tick := 4\<rparr>)
      = (Inr ''cx'', s) \<and> repo_get s ''s1'' = Some (sample_row Refund_wait sample_op)"
    using t sample_get_row [of Refund_wait sample_op]
    by (simp add: freshTxidAttempts_def Let_def log_call_def await_def andthen_def sample_registered repo_get_def truthy_def)
  then obtain s where s: "cancel_attempts sample_world ''s1'' sample_unwind (freshTxidAttempts (uw_ourAddr sample_unwind) 1000 330) (?d\<lparr>tick := 4\<rparr>)
      = (Inr ''cx'', s)" "repo_get s ''s1'' = Some (sample_row Refund_wait sample_op)" by blast
  from close_row_run [OF s(2), of Cancelled sample_world sample_unwind "\<lparr>xr_txid = ''cx'', xr_amount = 1000\<rparr>"]
  obtain s2 where "close_row sample_world ''s1'' Cancelled sample_unwind \<lparr>xr_txid = ''cx'', xr_amount = 1000\<rparr> s
      = (Inr \<lparr>xr_txid = ''cx'', xr_amount = 1000\<rparr>, s2)" by (auto simp: legal_step_iff)
  then have "cancelAtomicSend sample_world ''s1'' ?d = (Inr \<lparr>xr_txid = ''cx'', xr_amount = 1000\<rparr>, s2)"
    by (simp add: cancelAtomicSend_def chk sample_load [OF t] s(1) close_row_def)
  then show ?thesis by blast
qed


theorem resume_respects_live_witness:
  "repo_get (snd (resumeAtomicSends sample_world ((sample_store Init None)\<lparr>inflight := [''s1'']\<rparr>))) ''s1'' = Some (sample_row Init None)"
  using resume_respects_live [of "''s1''" "(sample_store Init None)\<lparr>inflight := [''s1'']\<rparr>" sample_world]
    sample_get_row [of Init None] by (simp add: repo_get_def)

theorem claim_needs_spend_witness:
  "\<exists>d' r. markClaimed sample_world ''s1'' (Some ''pp'') sample_op (sample_store Ln_inflight sample_op) = (Inr True, d')
     \<and> repo_get d' ''s1'' = Some r \<and> s_state r = Claimed"
proof -
  let ?d = "sample_store Ln_inflight sample_op"
  have seen: "shows_spent sample_world t ''aa'' 0" for t
    by (simp add: shows_spent_def spent_coin_def truthy_def)
  have conf: "confirmSpent sample_world ''aa'' 0 d = (Inr True, d\<lparr>tick := Suc (tick d)\<rparr>)" for d
    by (simp add: confirmSpent_def eval_nat_numeral await_def andthen_def seen)
  let ?d1 = "?d\<lparr>tick := Suc (tick ?d)\<rparr>"
  have row: "repo_get ?d1 ''s1'' = Some (sample_row Ln_inflight sample_op)"
    using sample_get_row [of Ln_inflight sample_op] by (simp add: repo_get_def)
  let ?d2 = "update_swap ''s1'' (\<lambda>r. r\<lparr>s_state := Claimed, s_updatedAt := w_now sample_world (tick ?d1)\<rparr>) ?d1"
  have tr: "transition sample_world ''s1'' Claimed ?d1 = (Inr (), ?d2)"
    by (rule transition_run [OF row]) (simp add: legal_step_iff)
  obtain d3 where "setPreimage sample_world ''s1'' ''pp'' (notify Send_subdust ?d2) = (Inr (), d3)"
    using row by (simp add: setPreimage_def repo_setPreimage_def clock_ms_def repo_touch_eq)
  moreover obtain d4 where "releaseVaultRow ''aa'' (Some 0) d3 = (Inr (), d4)"
    using releaseVaultRow_run by blast
  ultimately have run: "markClaimed sample_world ''s1'' (Some ''pp'') sample_op ?d = (Inr True, d4)"
    using row tr by (simp add: markClaimed_def conf truthy_def)
  have "CHR '':'' \<notin> set ''aa''" "''aa'' \<noteq> []" by simp_all
  from claim_needs_spend [OF this run] run show ?thesis by blast
qed

theorem unfunded_sound_witness:
  "\<exists>d' r. failIfUnfunded sample_world ''s1'' (sample_store Init None) = (Inr True, d')
     \<and> repo_get d' ''s1'' = Some r \<and> s_state r = Failed"
proof -
  let ?d = "sample_store Init None"
  have "classifyUnfundedInit sample_world (sample_row Init None) ?d = (Inr Unfunded, ?d\<lparr>tick := 3\<rparr>)"
    by (simp add: classifyUnfundedInit_def truthy_def await_def andthen_def sample_script sample_store_def empty_db_def)
  moreover have row: "repo_get (?d\<lparr>tick := 3\<rparr>) ''s1'' = Some (sample_row Init None)"
    using sample_get_row [of Init None] by (simp add: repo_get_def)
  moreover obtain d' where "transition sample_world ''s1'' Failed (?d\<lparr>tick := 3\<rparr>) = (Inr (), d')"
    using transition_run [OF row, of Failed sample_world] by (simp add: legal_step_iff)
  ultimately have "failIfUnfunded sample_world ''s1'' ?d = (Inr True, d')"
    using sample_get_row [of Init None] by (simp add: failIfUnfunded_def truthy_def)
  with unfunded_sound [of sample_world "''s1''" ?d 0 "sample_row Init None"] show ?thesis by blast
qed

text \<open>For the live flow: the coin stays listed.\<close>

definition send_world :: world where
  "send_world = sample_world\<lparr>w_byScript := (\<lambda>t pk so. Inr [sample_coin ''aa'' 1000])\<rparr>"

lemma is_integer_of_int [simp]: "is_integer (of_int n)" "is_integer (numeral k)"
  by (simp_all add: is_integer_def)

lemma sample_big_int: "big_int ''600'' = Inr 600"
  by (simp add: big_int_def js_number_def is_digit_def digits_value_def)

lemma sample_funding:
  "send_funding w d [sample_coin ''dd'' 1000] 330 900000 100 3 = [sample_coin ''dd'' 1000]"
  if "w_sdk w = sample_sdk"
  using that by (simp add: send_funding_def isEligibleFundingInput_def batchExpirySecs_def FUNDING_MARGIN_SECS_def
      selectSpendInputs_def covers_def) (simp add: sample_coin_def)

lemma sample_prepare:
  "\<exists>p. send_prepare send_world ''inv'' 100 empty_db = (Inr p, empty_db\<lparr>tick := 4\<rparr>)
     \<and> pl_id p = ''s1'' \<and> pl_hash p = ''h1'' \<and> pl_amount p = 100 \<and> pl_fee p = 3 \<and> pl_dust p = 330
     \<and> pl_funding p = [sample_coin ''dd'' 1000] \<and> zi_boltzScriptDelay (pl_init p) = None"
  by (simp add: send_prepare_def send_world_def await_def andthen_def guard_eff_def xonly_hex_def map_Inr_def
      sample_big_int advertised_fee_def send_script_def atomicVtxoScript_def assertXOnly_def
      toXOnly_def hashlockConditionScript_def Let_def sample_funding empty_db_def)

lemma sample_presign:
  assumes "pl_amount p = 100" "pl_fee p = 3" "pl_dust p = 330" "pl_funding p = [sample_coin ''dd'' 1000]"
    and "zi_boltzScriptDelay (pl_init p) = None"
  shows "\<exists>d'. send_presign send_world p shared d = (Inr \<lparr>ps_arkTx = [], ps_checkpoint = []\<rparr>, d') \<and> same_books d d'"
proof -
  have "send_presign send_world p shared d = (Inr \<lparr>ps_arkTx = [], ps_checkpoint = []\<rparr>, snd (send_presign send_world p shared d))"
    using assms by (simp add: send_presign_def send_world_def await_def andthen_def Let_def computeClaimSplit_def
        outputFor_def MAX_OP_RETURN_OUTPUTS_def)
  moreover have "same_books d (snd (send_presign send_world p shared d))"
    by (rule movesD [OF bks_presign])
  ultimately show ?thesis by blast
qed

lemma sample_capture: "\<exists>d'. send_capture w p shared coin d = (Inr (), d') \<and> same_books d d'"
proof -
  have "fst (send_capture w p shared coin d) = Inr ()"
    by (simp add: send_capture_def catching_def split: prod.split sum.split)
  with movesD [OF bks_capture_send, of d] show ?thesis by (metis prod.collapse)
qed

lemma sample_row_after:
  "repo_get d i = Some r \<Longrightarrow> same_books d d' \<Longrightarrow> repo_get d' i = Some r"
  by (simp add: same_books_def repo_get_def)

lemma sample_live:
  assumes p: "pl_id p = ''s1''" "pl_hash p = ''h1''" "pl_amount p = 100" "pl_fee p = 3" "pl_dust p = 330"
      "pl_funding p = [sample_coin ''dd'' 1000]" "zi_boltzScriptDelay (pl_init p) = None"
    and d: "swaps d = []"
  shows "\<exists>res d'. send_live send_world ''inv'' p d = (Inr res, d')"
proof -
  let ?w = send_world
  let ?sh = "\<lparr>sh_txid = ''aa'', sh_vout = 0, sh_value = 1000, sh_script = pl_script p\<rparr>"
  obtain d1 r1 where d1: "send_create ?w ''inv'' p d = (Inr (), d1)" "repo_get d1 ''s1'' = Some r1"
      "s_direction r1 = Send" "s_state r1 = Init"
    using d p by (simp add: send_create_def clock_ms_def repo_create_def repo_get_def repo_getByPaymentHash_def
        andthen_def Let_def row_of_new_def)
  obtain d2 where d2: "send_fund ?w p d1 = (Inr ''aa'', d2)" "repo_get d2 ''s1'' = Some r1"
    using d1(2) by (simp add: send_fund_def catching_def andthen_def log_call_def await_def send_world_def repo_get_def)
  obtain d3 where d3: "locateFunding 20 ?w (pl_script p) (pl_value p) ''aa'' d2 = (Inr (?sh, sample_coin ''aa'' 1000), d3)"
      "repo_get d3 ''s1'' = Some r1"
    using d2(2) by (simp add: eval_nat_numeral await_def andthen_def send_world_def repo_get_def)
  let ?op = "outpoint_key ''aa'' 0"
  let ?r4 = "r1\<lparr>s_fundingOutpoint := Some ?op, s_updatedAt := w_now ?w (tick d3)\<rparr>"
  obtain d4 where d4: "setFundingOutpoint ?w ''s1'' ?op d3 = (Inr (), d4)" "repo_get d4 ''s1'' = Some ?r4"
    using d3(2) by (simp add: setFundingOutpoint_def repo_setFundingOutpoint_def clock_ms_def touch_run repo_get_update_swap)
  obtain d5 where d5: "send_capture ?w p ?sh (sample_coin ''aa'' 1000) d4 = (Inr (), d5)" "repo_get d5 ''s1'' = Some ?r4"
    using sample_capture sample_row_after [OF d4(2)] by metis
  let ?ps = "\<lparr>ps_arkTx = [], ps_checkpoint = []\<rparr>"
  obtain d6 where d6: "send_presign ?w p ?sh d5 = (Inr ?ps, d6)" "repo_get d6 ''s1'' = Some ?r4"
    using sample_presign [OF p(3-7)] sample_row_after [OF d5(2)] by metis
  let ?r7 = "?r4\<lparr>s_presigs := Some ?ps, s_updatedAt := w_now ?w (tick d6)\<rparr>"
  obtain d7 where d7: "setPresigs ?w ''s1'' ?ps d6 = (Inr (), d7)" "repo_get d7 ''s1'' = Some ?r7"
    using d6(2) by (simp add: setPresigs_def repo_setPresigs_def clock_ms_def touch_run repo_get_update_swap)
  have "legal_step (s_direction ?r7) (s_state ?r7) Funded" using d1 by (simp add: legal_step_iff)
  from transition_run [OF d7(2) this] d7(2) obtain d8 r8 where d8: "transition ?w ''s1'' Funded d7 = (Inr (), d8)"
      "repo_get d8 ''s1'' = Some r8" "s_state r8 = Funded" "s_direction r8 = Send" using d1(3) by simp
  have "legal_step (s_direction r8) (s_state r8) Ln_inflight" using d8 by (simp add: legal_step_iff)
  from transition_run [OF d8(2) this] d8 obtain d9 r9 where d9: "transition ?w ''s1'' Ln_inflight d8 = (Inr (), d9)"
      "repo_get d9 ''s1'' = Some r9" "s_state r9 = Ln_inflight" "s_direction r9 = Send" by simp
  obtain d10 where d10: "send_handover ?w p ?sh ?ps d8 = (Inr ''pp'', d10)" "repo_get d10 ''s1'' = Some r9"
    using d9 p(1) by (simp add: send_handover_def andthen_def log_call_def await_def send_world_def repo_get_def)
  have conf: "\<exists>d11. confirmSpent ?w ''aa'' 0 d10 = (Inr True, d11) \<and> repo_get d11 ''s1'' = Some r9"
    using d10(2) by (simp add: confirmSpent_def eval_nat_numeral await_def andthen_def shows_spent_def send_world_def
        spent_coin_def truthy_def repo_get_def)
  then obtain d11 where d11: "confirmSpent ?w ''aa'' 0 d10 = (Inr True, d11)" "repo_get d11 ''s1'' = Some r9" by blast
  have "legal_step (s_direction r9) (s_state r9) Claimed" using d9 by (simp add: legal_step_iff)
  from transition_run [OF d11(2) this] obtain d12 where d12: "transition ?w ''s1'' Claimed d11 = (Inr (), d12)" by blast
  obtain d13 where d13: "releaseVaultRow ''aa'' (Some 0) d12 = (Inr (), d13)" using releaseVaultRow_run by blast
  have "send_settle ?w p ?sh ''pp'' d10 = (Inr (), notify Send_subdust d13)"
    using d11 d12 d13 p(1) by (simp add: send_settle_def)
  then show ?thesis
    using d1(1) d2(1) d3(1) d4(1) d5(1) d6(1) d7(1) d8(1) d10(1) p(1) by (simp add: send_live_def Let_def)
qed

lemma sample_send: "\<exists>res d'. atomicSubdustSend send_world ''inv'' 100 empty_db = (Inr res, d')"
proof -
  obtain p where p: "send_prepare send_world ''inv'' 100 empty_db = (Inr p, empty_db\<lparr>tick := 4\<rparr>)"
    "pl_id p = ''s1''" "pl_hash p = ''h1''" "pl_amount p = 100" "pl_fee p = 3" "pl_dust p = 330"
    "pl_funding p = [sample_coin ''dd'' 1000]" "zi_boltzScriptDelay (pl_init p) = None"
    using sample_prepare by blast
  let ?d = "inflight_update (set_add (pl_id p)) (empty_db\<lparr>tick := 4\<rparr>)"
  have "swaps ?d = []" by (simp add: empty_db_def)
  from sample_live [OF p(2-8) this] obtain res d' where "send_live send_world ''inv'' p ?d = (Inr res, d')" by blast
  with p(1) show ?thesis by (simp add: atomicSubdustSend_def)
qed


theorem duplicate_send_unlocks_witness:
  "\<exists>d'. set (inflight d') = {} \<and> atomicSubdustSend send_world ''inv'' 100 ((sample_store Init None)\<lparr>inflight := [''s1'']\<rparr>)
     = (Inl (Duplicate_swap ''h1''), d')"
proof -
  let ?d = "(sample_store Init None)\<lparr>inflight := [''s1'']\<rparr>"
  have "\<exists>p. send_prepare send_world ''inv'' 100 ?d = (Inr p, ?d\<lparr>tick := 4\<rparr>) \<and> pl_id p = ''s1'' \<and> pl_hash p = ''h1''"
    by (simp add: send_prepare_def send_world_def await_def andthen_def guard_eff_def xonly_hex_def map_Inr_def
      sample_big_int advertised_fee_def send_script_def atomicVtxoScript_def assertXOnly_def
      toXOnly_def hashlockConditionScript_def Let_def sample_funding sample_store_def empty_db_def)
  then obtain p where p: "send_prepare send_world ''inv'' 100 ?d = (Inr p, ?d\<lparr>tick := 4\<rparr>)" "pl_id p = ''s1''" "pl_hash p = ''h1''"
    by blast
  have row: "repo_get ?d (pl_id p) = Some (sample_row Init None)"
    using p(2) sample_get_row [of Init None] by (simp add: repo_get_def)
  have live: "pl_id p \<in> set (inflight ?d)" using p(2) by simp
  from duplicate_send_unlocks [OF p(1) row live] p(2,3) show ?thesis by auto
qed

theorem unexpected_answer_strands_witness:
  "\<exists>d' r. isTerminal (s_direction r) (s_state r) = Inr True \<and> repo_get d' ''s1'' = Some r
     \<and> s_fundingOutpoint r = sample_op"
proof -
  let ?w = "sample_world\<lparr>w_fund := (\<lambda>t i op p. Inr \<lparr>zf_status = ''pending'', zf_preimage = None\<rparr>)\<rparr>"
  obtain p where p: "pl_id p = ''s1''" using sample_prepare by blast
  have row: "repo_get (sample_store Funded sample_op) (pl_id p) = Some (sample_row Funded sample_op)"
    by (simp add: p sample_get_row)
  let ?sh = "\<lparr>sh_txid = ''aa'', sh_vout = 0, sh_value = 1000, sh_script = sample_shared_script\<rparr>"
  have "w_fund ?w (tick (sample_store Funded sample_op)) (pl_id p) (outpoint_key (sh_txid ?sh) (sh_vout ?sh))
      \<lparr>ps_arkTx = [], ps_checkpoint = []\<rparr> = Inr \<lparr>zf_status = ''pending'', zf_preimage = None\<rparr>" by simp
  from unexpected_answer_strands [OF row _ _ this] p show ?thesis by auto
qed

end
