(* ===== verification/Atomic_Receive.thy ===== *)
theory Atomic_Receive
  imports Send_Verdicts
begin

text \<open>
  The sub-dust receive, \<open>src/atomic/receive.ts\<close>: issuing the hold invoice, driving one swap from
  boltz's funding to the settled invoice, and the boot and periodic pass over all of them. The
  claim transaction reveals the preimage on chain and the settle call reveals it to boltz; both are
  logged as calls.
\<close>

subsection \<open>Notification and convergence\<close>

definition notifyReceiveSettled :: "swap_row \<Rightarrow> unit bridge" where
  "notifyReceiveSettled swap =
     modify (\<lambda>d. if s_paymentHash swap \<in> set (clink_hashes d) then d else notify Recv_subdust d)"

text \<open>\<open>advanceReceive\<close>: the steps of the path that are legal from where the row stands.\<close>

fun advance_steps :: "world \<Rightarrow> string \<Rightarrow> swap_state \<Rightarrow> swap_state list \<Rightarrow> unit bridge" where
  "advance_steps w i target [] = ret ()"
| "advance_steps w i target (next_st # path) =
     andthen (reading (\<lambda>d. repo_get d i)) (\<lambda>row. case row of
       None \<Rightarrow> ret ()
     | Some cur \<Rightarrow>
        (if s_state cur = target then ret ()
         else andthen (lift_res (isTerminal Receive (s_state cur))) (\<lambda>terminal.
           if terminal then ret ()
           else andthen (lift_res (canTransition Receive (s_state cur) next_st)) (\<lambda>can.
             andthen (if can then transition w i next_st else ret ()) (\<lambda>u.
             advance_steps w i target path)))))"

definition advanceReceive :: "world \<Rightarrow> string \<Rightarrow> swap_state \<Rightarrow> unit bridge" where
  "advanceReceive w i target = advance_steps w i target
     (if target = Settled then [Funded, Claimed, Settled] else [Refund_wait, Refunded])"

subsection \<open>Issuing\<close>

record receive_invoice =
  vi_swapId :: string
  vi_invoice :: string
  vi_paymentHash :: string
  vi_preimage :: string

definition issueAtomicReceive :: "world \<Rightarrow> int \<Rightarrow> string option \<Rightarrow> receive_invoice bridge" where
  "issueAtomicReceive w amountSats descriptionHash =
     andthen (await (w_info w)) (\<lambda>info.
     andthen (guard_eff (0 < amountSats \<and> amountSats < i_dust info) (Error ''amount is not sub-dust'')) (\<lambda>u.
     andthen (await (\<lambda>t. Inr (w_random w t))) (\<lambda>preimage.
     (let H = k_hexEncode (w_sdk w) (k_sha256 (w_sdk w) preimage);
          pre = k_hexEncode (w_sdk w) preimage in
     andthen (await (w_userKey w)) (\<lambda>user.
     andthen (await (\<lambda>t. w_receiveInit w t amountSats H (k_hexEncode (w_sdk w) (toXOnly user))
        (if truthy descriptionHash then descriptionHash else None))) (\<lambda>init.
     andthen (clock_ms (w_now w)) (\<lambda>now.
     andthen (repo_create now \<lparr>w_id = ri_swapId init, w_direction = Receive, w_paymentHash = H,
        w_state = Invoice_issued, w_amount = amountSats, w_refundLocktime = 0,
        w_invoice = Some (ri_invoice init), w_preimage = Some pre, w_peerPubkey = None, w_exitDelay = None\<rparr>) (\<lambda>row.
     ret \<lparr>vi_swapId = ri_swapId init, vi_invoice = ri_invoice init, vi_paymentHash = H, vi_preimage = pre\<rparr>))))))))"

subsection \<open>Driving one swap\<close>

text \<open>The funding boltz reports, when its answer is complete.\<close>

record claim_offer =
  co_outpoint :: string
  co_presigs :: presig
  co_boltzPubkey :: string
  co_refundLocktime :: int
  co_boltzScriptDelay :: "string option"

definition offer_of :: "receive_status \<Rightarrow> claim_offer option" where
  "offer_of st =
     (if rv_state st \<noteq> ''funded'' \<or> \<not> truthy (rv_fundingOutpoint st) \<or> rv_presigs st = None
        \<or> rv_boltzPubkey st = None \<or> rv_refundLocktime st = None then None
      else Some \<lparr>co_outpoint = the (rv_fundingOutpoint st), co_presigs = the (rv_presigs st),
        co_boltzPubkey = the (rv_boltzPubkey st), co_refundLocktime = the (rv_refundLocktime st),
        co_boltzScriptDelay = rv_boltzScriptDelay st\<rparr>)"

text \<open>Everything up to the phases: the script, the shared vtxo as listed, the split.\<close>

record claim_plan =
  cp_shared :: shared_vtxo
  cp_outputs :: "atomic_output list"
  cp_unroll :: string
  cp_preimage :: bytes

definition receive_script :: "world \<Rightarrow> swap_row \<Rightarrow> claim_offer \<Rightarrow> bytes \<Rightarrow> bytes \<Rightarrow> bytes \<Rightarrow> int \<Rightarrow> err + atomic_script" where
  "receive_script w swap offer boltz user server exitDelay =
     (case k_hexDecode (w_sdk w) (s_paymentHash swap) of Inl e \<Rightarrow> Inl e | Inr h \<Rightarrow>
      atomicVtxoScript (k_ripemd160 (w_sdk w)) \<lparr>so_funder = boltz, so_claimer = user, so_server = server,
        so_paymentHash = h, so_refundLocktime = co_refundLocktime offer, so_exitDelay = exitDelay\<rparr>)"

definition receive_split :: "world \<Rightarrow> swap_row \<Rightarrow> ark_info \<Rightarrow> bytes \<Rightarrow> bytes \<Rightarrow> bytes \<Rightarrow> int \<Rightarrow> int \<Rightarrow> err + claim_split" where
  "receive_split w swap info boltz user server boltzD value =
     (let netHrp = hrp (i_network info); d = i_unilateralExitDelay info in
      computeClaimSplit
        \<lparr>sa_funderAddress = k_defaultAddress (w_sdk w) boltz server (timelockType boltzD) boltzD netHrp,
         sa_claimerAddress = k_defaultAddress (w_sdk w) user server (timelockType d) d netHrp,
         sa_fundingValue = value, sa_amount = s_amount swap, sa_dust = i_dust info,
         sa_feeSats = None, sa_feeRecipient = None, sa_maxOpReturn = None\<rparr>)"

definition receive_plan :: "world \<Rightarrow> swap_row \<Rightarrow> claim_offer \<Rightarrow> claim_plan bridge" where
  "receive_plan w swap offer =
     andthen (await (w_info w)) (\<lambda>info.
     andthen (lift_res (xonly_hex w (i_signerPubkey info))) (\<lambda>server.
     andthen (lift_res (k_hexDecode (w_sdk w) (the (s_preimage swap)))) (\<lambda>preimage.
     andthen (await (w_userKey w)) (\<lambda>key.
     (let user = toXOnly key in
     andthen (lift_res (xonly_hex w (co_boltzPubkey offer))) (\<lambda>boltz.
     andthen (lift_res (receive_script w swap offer boltz user server (i_unilateralExitDelay info))) (\<lambda>script.
     (case parse_outpoint (co_outpoint offer) of
        None \<Rightarrow> throw (Error ''bad funding outpoint'')
      | Some (txid, vout) \<Rightarrow>
         andthen (await (\<lambda>t. w_byScript w t (script_hex w script) True)) (\<lambda>coins.
         (case find_first (\<lambda>x. c_txid x = txid \<and> Some (c_vout x) = vout) coins of
            None \<Rightarrow> throw (Error ''shared vtxo not found'')
          | Some v \<Rightarrow>
             andthen (lift_res (case co_boltzScriptDelay offer of
                None \<Rightarrow> Inr (i_unilateralExitDelay info) | Some s \<Rightarrow> big_int s)) (\<lambda>boltzD.
             andthen (lift_res (receive_split w swap info boltz user server boltzD (c_value v))) (\<lambda>split.
             andthen (lift_res (k_unroll (w_sdk w) (i_checkpointTapscript info))) (\<lambda>unroll.
             ret \<lparr>cp_shared = \<lparr>sh_txid = txid, sh_vout = c_vout v, sh_value = c_value v, sh_script = script\<rparr>,
               cp_outputs = cs_outputs split, cp_unroll = unroll, cp_preimage = preimage\<rparr>)))))))))))))"

text \<open>The phases, on the state the swap was read in.\<close>

definition receive_claim :: "world \<Rightarrow> swap_row \<Rightarrow> claim_offer \<Rightarrow> claim_plan \<Rightarrow> unit bridge" where
  "receive_claim w swap offer p =
     andthen (if s_state swap = Invoice_issued
        then andthen (setFundingOutpoint w (s_id swap) (co_outpoint offer)) (\<lambda>u.
             transition w (s_id swap) Funded)
        else ret ()) (\<lambda>u.
     if s_state swap = Invoice_issued \<or> s_state swap = Funded
     then andthen (log_call Submit_claim (s_id swap)) (\<lambda>u.
          andthen (await (\<lambda>t. w_finishClaim w t (cp_shared p) (cp_outputs p) (cp_unroll p) (co_presigs offer) (cp_preimage p))) (\<lambda>txid.
          transition w (s_id swap) Claimed))
     else ret ())"

definition receive_settle :: "world \<Rightarrow> swap_row \<Rightarrow> claim_plan \<Rightarrow> bool bridge" where
  "receive_settle w swap p =
     andthen (confirmSpent w (sh_txid (cp_shared p)) (sh_vout (cp_shared p))) (\<lambda>spent.
     if \<not> spent then ret False
     else andthen (log_call Reveal_preimage (s_id swap)) (\<lambda>u.
          andthen (await (\<lambda>t. w_receiveSettle w t (s_id swap) (the (s_preimage swap)))) (\<lambda>u.
          andthen (transition w (s_id swap) Settled) (\<lambda>u.
          andthen (notifyReceiveSettled swap) (\<lambda>u.
          ret True)))))"

definition receive_answer :: "world \<Rightarrow> string \<Rightarrow> swap_row \<Rightarrow> receive_status \<Rightarrow> bool bridge" where
  "receive_answer w i swap status =
     (if rv_state status = ''settled'' then
        andthen (advanceReceive w i Settled) (\<lambda>u.
        andthen (notifyReceiveSettled swap) (\<lambda>u. ret True))
      else if rv_state status = ''refunded'' \<or> rv_state status = ''refund_wait'' then
        andthen (advanceReceive w i Refunded) (\<lambda>u. ret False)
      else (case offer_of status of
          None \<Rightarrow> ret False
        | Some offer \<Rightarrow>
           andthen (receive_plan w swap offer) (\<lambda>p.
           andthen (receive_claim w swap offer p) (\<lambda>u.
           receive_settle w swap p))))"

definition driveAtomicReceive :: "world \<Rightarrow> string \<Rightarrow> bool bridge" where
  "driveAtomicReceive w i =
     andthen (reading (\<lambda>d. repo_get d i)) (\<lambda>row. case row of
       None \<Rightarrow> ret False
     | Some swap \<Rightarrow>
        (if s_direction swap \<noteq> Receive \<or> s_preimage swap = None then ret False
         else andthen (lift_res (isTerminal Receive (s_state swap))) (\<lambda>terminal.
           if terminal then ret (s_state swap = Settled)
           else andthen (await (\<lambda>t. w_receiveStatus w t i)) (receive_answer w i swap))))"

subsection \<open>The pass\<close>

fun drive_each :: "world \<Rightarrow> swap_row list \<Rightarrow> string list \<Rightarrow> string list bridge" where
  "drive_each w [] settled = ret settled"
| "drive_each w (swap # rest) settled =
     andthen (catching (driveAtomicReceive w (s_id swap)) (\<lambda>e. ret False)) (\<lambda>done_now.
     drive_each w rest (if done_now then settled @ [s_id swap] else settled))"

definition driveAtomicReceives :: "world \<Rightarrow> string list bridge" where
  "driveAtomicReceives w =
     andthen resumable_now (\<lambda>rows.
     drive_each w (filter (\<lambda>s. s_direction s = Receive) rows) [])"

end
