(* ===== verification/Receive_Safety.thy ===== *)
theory Receive_Safety
  imports Atomic_Receive
begin

text \<open>
  What the receive side guarantees whatever boltz, the ASP and the indexer answer: rows move along
  the machine, the invoice handed out is backed by a stored preimage, the preimage leaves the bridge
  only for a claim transaction or after the claim is on chain, and a row converges to what boltz
  reports where the machine lets it; and the two situations in which it does not.
\<close>

subsection \<open>Parts that only read, and legal movement\<close>

lemma bks_notify_settled: "moves same_books (notifyReceiveSettled swap)"
  unfolding notifyReceiveSettled_def by (rule bks.moves_modify) (simp add: same_books_def)

lemma bks_receive_plan: "moves same_books (receive_plan w swap offer)"
  unfolding receive_plan_def Let_def by (intro bks_rules moves_option moves_prod)

text \<open>Any preorder that the writes and the calls of the receive flow respect is respected by it.\<close>

locale receive_order = progress R for R :: "db \<Rightarrow> db \<Rightarrow> bool" +
  fixes w :: world and kinds :: "ext_kind \<Rightarrow> bool"
  assumes V_books: "same_books d d' \<Longrightarrow> R d d'"
    and V_transition: "moves R (transition w i st)"
    and V_outpoint: "moves R (setFundingOutpoint w i op)"
    and V_log: "kinds kind \<Longrightarrow> moves R (log_call kind i)"
begin

lemma V_quiet: "moves same_books m \<Longrightarrow> moves R m"
  by (rule moves_weaken [OF _ V_books])

lemmas V_rules = moves_rules moves_option V_transition V_outpoint V_log
  quiet [THEN V_quiet] V_quiet [OF bks_notify_settled] V_quiet [OF bks_receive_plan]

lemma V_advance_steps: "moves R (advance_steps w i target path)"
proof (induction path)
  case Nil
  show ?case unfolding advance_steps.simps by (rule V_rules)
next
  case (Cons st path)
  then show ?case unfolding advance_steps.simps by (intro V_rules)
qed

lemma V_advance: "moves R (advanceReceive w i target)"
  unfolding advanceReceive_def by (rule V_advance_steps)

lemma V_claim: "kinds Submit_claim \<Longrightarrow> moves R (receive_claim w swap offer p)"
  unfolding receive_claim_def by (intro V_rules)

lemma V_settle: "kinds Reveal_preimage \<Longrightarrow> moves R (receive_settle w swap p)"
  unfolding receive_settle_def by (intro V_rules)

lemma V_drive:
  assumes "kinds Submit_claim" "kinds Reveal_preimage"
  shows "moves R (driveAtomicReceive w i)"
  unfolding driveAtomicReceive_def receive_answer_def by (intro V_rules V_advance V_claim V_settle assms)

lemma V_drive_each:
  assumes "\<And>i. moves R (driveAtomicReceive w i)"
  shows "moves R (drive_each w rows settled)"
proof (induction rows arbitrary: settled)
  case Nil
  show ?case unfolding drive_each.simps by (rule V_rules)
next
  case (Cons swap rows)
  show ?case unfolding drive_each.simps by (intro V_rules assms Cons.IH)
qed

lemma V_drives:
  assumes "\<And>i. moves R (driveAtomicReceive w i)"
  shows "moves R (driveAtomicReceives w)"
  unfolding driveAtomicReceives_def by (intro V_rules V_drive_each assms)

end

interpretation rcv: receive_order swap_progress w "\<lambda>k. True" for w
  by unfold_locales (auto intro: progress_of_books swp_rules)

lemma moves_issue: "moves swap_progress (issueAtomicReceive w amount dh)"
  unfolding issueAtomicReceive_def Let_def by (intro swp_quiet moves_create) simp

text \<open>The receive side moves rows along the machine only. Issuing an invoice, driving one swap and
  the pass over all of them, returning or throwing, whatever boltz and the indexer answer, take each
  stored swap along legal transitions, change no contract column and leave terminal rows alone.\<close>

theorem receive_moves_legally:
  "swap_progress d (snd (issueAtomicReceive w amount dh d))
   \<and> swap_progress d (snd (driveAtomicReceive w i d))
   \<and> swap_progress d (snd (driveAtomicReceives w d))"
  using moves_issue [of w amount dh] rcv.V_drive rcv.V_drives [OF rcv.V_drive] by (simp add: movesD)

subsection \<open>The invoice is backed by the store\<close>

lemma bks_random: "moves same_books (await (\<lambda>t. Inr (w_random w t)))"
  by (rule bks_await)

text \<open>The invoice handed out is backed by a stored preimage. When issuing returns, the store holds
  a receive row under the returned id, in state invoice_issued, for the requested amount, which is
  positive and below dust; the row carries the preimage that was returned, and the payment hash of
  the row and of the answer is the hash of that preimage. When it throws, no row was added.\<close>

theorem issue_sound:
  "(\<forall>res d'. issueAtomicReceive w amount dh d = (Inr res, d') \<longrightarrow>
      (\<exists>r pre info t. repo_get d' (vi_swapId res) = Some r \<and> repo_get d (vi_swapId res) = None
        \<and> s_direction r = Receive \<and> s_state r = Invoice_issued \<and> s_amount r = amount
        \<and> w_info w t = Inr info \<and> 0 < amount \<and> amount < i_dust info
        \<and> s_preimage r = Some (vi_preimage res) \<and> vi_preimage res = k_hexEncode (w_sdk w) pre
        \<and> s_paymentHash r = vi_paymentHash res
        \<and> vi_paymentHash res = k_hexEncode (w_sdk w) (k_sha256 (w_sdk w) pre)
        \<and> s_invoice r = Some (vi_invoice res)))
   \<and> (\<forall>e d'. issueAtomicReceive w amount dh d = (Inl e, d') \<longrightarrow> swaps d' = swaps d)"
proof -
  let ?Q = "\<lambda>(res :: receive_invoice) (s :: db). (\<exists>r pre info t. repo_get s (vi_swapId res) = Some r \<and> repo_get d (vi_swapId res) = None
        \<and> s_direction r = Receive \<and> s_state r = Invoice_issued \<and> s_amount r = amount
        \<and> w_info w t = Inr info \<and> 0 < amount \<and> amount < i_dust info
        \<and> s_preimage r = Some (vi_preimage res) \<and> vi_preimage res = k_hexEncode (w_sdk w) pre
        \<and> s_paymentHash r = vi_paymentHash res
        \<and> vi_paymentHash res = k_hexEncode (w_sdk w) (k_sha256 (w_sdk w) pre)
        \<and> s_invoice r = Some (vi_invoice res))"
  let ?S = "\<lambda>s :: db. swaps s = swaps d"
  let ?E = "\<lambda>(e :: err) (s :: db). swaps s = swaps d"
  have quiet_S: "triple ?S m (\<lambda>x. ?S) ?E" if "moves same_books m" for m :: "'a bridge"
    by (rule triple_moves [OF that]) (simp add: same_books_def)
  have info: "triple ?S (await (w_info w)) (\<lambda>info s. ?S s \<and> (\<exists>t. w_info w t = Inr info)) ?E"
    by (rule triple_await) auto
  have grd: "triple ?S (guard_eff b e) (\<lambda>u s. ?S s \<and> b) ?E" for b e
    by (rule triple_guard) auto
  have mk: "triple ?S (andthen (repo_create now nw) (\<lambda>row. ret res)) ?Q ?E"
    if "nw = \<lparr>w_id = vi_swapId res, w_direction = Receive, w_paymentHash = vi_paymentHash res, w_state = Invoice_issued,
        w_amount = amount, w_refundLocktime = 0, w_invoice = Some (vi_invoice res), w_preimage = Some (vi_preimage res),
        w_peerPubkey = None, w_exitDelay = None\<rparr>"
      and "vi_preimage res = k_hexEncode (w_sdk w) pre" "vi_paymentHash res = k_hexEncode (w_sdk w) (k_sha256 (w_sdk w) pre)"
      and "w_info w t = Inr info" "0 < amount" "amount < i_dust info" for now nw pre info t and res :: receive_invoice
    unfolding triple_def
  proof (intro allI impI)
    fix s :: db assume s: "swaps s = swaps d"
    show "case andthen (repo_create now nw) (\<lambda>row. ret res) s of (Inl e, t) \<Rightarrow> swaps t = swaps d | (Inr x, t) \<Rightarrow> ?Q x t"
    proof (cases "repo_get s (w_id nw) \<noteq> None \<or> repo_getByPaymentHash s (w_paymentHash nw) \<noteq> None")
      case True
      with s show ?thesis by (simp add: andthen_def repo_create_def)
    next
      case False
      let ?s' = "s\<lparr>swaps := swaps s @ [row_of_new now nw]\<rparr>"
      have run: "andthen (repo_create now nw) (\<lambda>row. ret res) s = (Inr res, ?s')"
        using False by (simp add: andthen_def repo_create_def Let_def)
      have get: "repo_get ?s' (vi_swapId res) = Some (row_of_new now nw)"
        using False that(1) by (simp add: repo_get_def swap_ids.row_get_snoc row_of_new_def)
      have fresh: "repo_get d (vi_swapId res) = None" using False that(1) s by (simp add: repo_get_def)
      have "?Q res ?s'"
        by (rule exI [where x = "row_of_new now nw"], rule exI [where x = pre], rule exI [where x = info], rule exI [where x = t])
          (use get fresh that in \<open>simp add: row_of_new_def\<close>)
      with run show ?thesis by simp
    qed
  qed
  have T: "triple ?S (issueAtomicReceive w amount dh) ?Q ?E"
    unfolding issueAtomicReceive_def Let_def
    apply (rule triple_andthen [OF info])
    apply (rule triple_pure)
    apply (elim exE)
    apply (rule triple_andthen [OF grd])
    apply (rule triple_pure)
    apply (elim conjE)
    apply (rule triple_andthen [OF quiet_S [OF bks_await]])
    apply (rule triple_andthen [OF quiet_S [OF bks_await]])
    apply (rule triple_andthen [OF quiet_S [OF bks_await]])
    apply (rule triple_andthen [OF quiet_S [OF bks_clock]])
    apply (rule mk)
         apply simp_all
    done
  show ?thesis
  proof (intro conjI allI impI)
    fix res d' assume "issueAtomicReceive w amount dh d = (Inr res, d')"
    from triple_Inr [OF T refl this] show "?Q res d'" .
  next
    fix e d' assume "issueAtomicReceive w amount dh d = (Inl e, d')"
    from triple_Inl [OF T refl this] show "swaps d' = swaps d" .
  qed
qed

subsection \<open>When the preimage leaves the bridge\<close>

interpretation rcl: receive_order keeps_ledger w "\<lambda>k. False" for w
  by unfold_locales (simp_all add: ledger_books ledger_writes)

text \<open>Time only moves on; and everything but the settle call hands no preimage to boltz.\<close>

definition later :: "db \<Rightarrow> db \<Rightarrow> bool" where
  "later d d' \<longleftrightarrow> tick d \<le> tick d'"

definition revealed :: "db \<Rightarrow> ext_call list" where
  "revealed d = filter (\<lambda>c. call_kind c = Reveal_preimage) (calls d)"

definition unrevealed :: "db \<Rightarrow> db \<Rightarrow> bool" where
  "unrevealed d d' \<longleftrightarrow> revealed d' = revealed d \<and> tick d \<le> tick d'"

interpretation lat: progress later
  by unfold_locales (simp_all add: later_def)

interpretation urv: progress unrevealed
  by unfold_locales (simp_all add: unrevealed_def)

lemma unrevealed_calls: "calls d' = calls d \<Longrightarrow> tick d \<le> tick d' \<Longrightarrow> unrevealed d d'"
  by (simp add: unrevealed_def revealed_def)

lemma unrevealed_books: "same_books d d' \<Longrightarrow> unrevealed d d'"
  by (simp add: same_books_def unrevealed_calls)

lemma unrevealed_later: "unrevealed d d' \<Longrightarrow> later d d'"
  by (simp add: unrevealed_def later_def)

lemma unrevealed_writes:
  "moves unrevealed (transition w i st)" "moves unrevealed (setFundingOutpoint w i op)"
proof -
  have t: "moves unrevealed (repo_transition now i st)" for now
    unfolding moves_def
    by (simp add: repo_transition_eq urv.R_refl unrevealed_calls split: option.split sum.split)
  have s: "moves unrevealed (repo_touch now i f)" for now f
    unfolding moves_def by (simp add: repo_touch_eq urv.R_refl unrevealed_calls split: option.split)
  have c: "moves unrevealed (clock_ms (w_now w))"
    by (rule moves_weaken [OF bks_clock unrevealed_books])
  show "moves unrevealed (transition w i st)" "moves unrevealed (setFundingOutpoint w i op)"
    unfolding transition_def setFundingOutpoint_def repo_setFundingOutpoint_def
    by (intro urv.moves_rules t s c)+
qed

lemma unrevealed_log: "kind \<noteq> Reveal_preimage \<Longrightarrow> moves unrevealed (log_call kind i)"
  unfolding log_call_def by (rule urv.moves_modify) (simp add: unrevealed_def revealed_def)

lemma later_log: "moves later (log_call kind i)"
  unfolding log_call_def by (rule lat.moves_modify) (simp add: later_def)

interpretation rvl: receive_order unrevealed w "\<lambda>k. k \<noteq> Reveal_preimage" for w
  by (unfold_locales; (rule unrevealed_books unrevealed_writes unrevealed_log; assumption)?; rule unrevealed_writes)

interpretation rlt: receive_order later w "\<lambda>k. True" for w
  by (unfold_locales; (erule unrevealed_later [OF unrevealed_books])?;
      (rule later_log moves_weaken [OF unrevealed_writes(1) unrevealed_later]
        moves_weaken [OF unrevealed_writes(2) unrevealed_later]; assumption?)?)

text \<open>The row while its swap is driven.\<close>

definition rx_row :: "swap_row \<Rightarrow> swap_state \<Rightarrow> swap_row \<Rightarrow> bool" where
  "rx_row swap st r \<longleftrightarrow> s_direction r = Receive \<and> s_preimage r = s_preimage swap \<and> s_preimage swap \<noteq> None \<and> s_state r = st"

abbreviation claim_done :: "swap_state \<Rightarrow> swap_state" where
  "claim_done st \<equiv> (if st = Invoice_issued \<or> st = Funded then Claimed else st)"

lemma stage_claim:
  "triple (track (s_id swap) I t0 (rx_row swap (s_state swap))) (receive_claim w swap offer p)
     (\<lambda>u. track (s_id swap) I t0 (rx_row swap (claim_done (s_state swap)))) (\<lambda>e. calm I)"
proof -
  let ?t = "\<lambda>st. track (s_id swap) I t0 (rx_row swap st)"
  have fund: "triple (?t (s_state swap))
      (if s_state swap = Invoice_issued
       then andthen (setFundingOutpoint w (s_id swap) (co_outpoint offer)) (\<lambda>u. transition w (s_id swap) Funded)
       else ret ())
      (\<lambda>u. ?t (if s_state swap = Invoice_issued then Funded else s_state swap)) (\<lambda>e. calm I)"
    apply (rule triple_if)
     apply (rule triple_andthen [OF track_setters [where Q = "rx_row swap Invoice_issued"]])
      apply (simp add: rx_row_def)
     apply (rule track_transition)
      apply (auto simp: rx_row_def legal_step_iff) [1]
     apply (simp add: rx_row_def)
    apply (rule triple_ret)
    apply simp
    done
  have claim: "triple (?t Funded) (andthen (log_call Submit_claim (s_id swap)) (\<lambda>u.
       andthen (await (\<lambda>t. w_finishClaim w t (cp_shared p) (cp_outputs p) (cp_unroll p) (co_presigs offer) (cp_preimage p))) (\<lambda>txid.
       transition w (s_id swap) Claimed))) (\<lambda>u. ?t Claimed) (\<lambda>e. calm I)"
    apply (rule triple_andthen [OF track_log])
     apply (auto simp: recorded_def rx_row_def) [1]
    apply (rule triple_andthen [OF track_quiet [OF bks_await]])
    apply (rule track_transition)
     apply (auto simp: rx_row_def legal_step_iff) [1]
    apply (simp add: rx_row_def)
    done
  show ?thesis
    unfolding receive_claim_def
    apply (rule triple_andthen [OF fund])
    apply (rule triple_if)
     apply (rule triple_conseq [OF claim])
       apply (auto) [3]
    apply (rule triple_ret)
    apply simp
    done
qed

lemma stage_receive_settle:
  assumes "st \<notin> {Invoice_issued, Funded}" "isTerminal Receive st = Inr False"
  shows "triple (track (s_id swap) I t0 (rx_row swap st)) (receive_settle w swap p)
     (\<lambda>b. calm I) (\<lambda>e. calm I)"
proof -
  have log: "triple (track (s_id swap) I t0 (rx_row swap st)) (log_call Reveal_preimage (s_id swap)) (\<lambda>u. calm I) (\<lambda>e. calm I)"
    by (rule triple_conseq [OF track_log [where E = "\<lambda>e. calm I"]])
      (use assms in \<open>auto simp: recorded_def rx_row_def track_calm\<close>)
  show ?thesis
    unfolding receive_settle_def
    apply (rule triple_andthen [OF triple_confirm])
    apply (rule triple_if)
     apply (rule triple_ret, blast intro: track_calm)
    apply (rule triple_andthen [OF triple_pre [OF log]], blast)
    apply (rule triple_andthen [OF calm_moves [OF rcl.V_quiet [OF bks_await]]])
    apply (rule triple_andthen [OF calm_moves [OF ledger_writes(1)]])
    apply (rule triple_andthen [OF calm_moves [OF rcl.V_quiet [OF bks_notify_settled]]])
    apply (rule triple_ret)
    apply assumption
    done
qed

text \<open>The offer boltz made for a swap, and the spend of its outpoint seen before the reveal.\<close>

definition spend_seen :: "world \<Rightarrow> claim_offer \<Rightarrow> db \<Rightarrow> db \<Rightarrow> bool" where
  "spend_seen w offer d s \<longleftrightarrow> (\<exists>txid vout t. parse_outpoint (co_outpoint offer) = Some (txid, Some vout)
     \<and> tick d \<le> t \<and> t < tick s \<and> shows_spent w t txid vout)"

definition reveal_backed :: "world \<Rightarrow> string \<Rightarrow> db \<Rightarrow> db \<Rightarrow> bool" where
  "reveal_backed w i d s \<longleftrightarrow> (\<exists>t0 st offer. w_receiveStatus w t0 i = Inr st \<and> offer_of st = Some offer
     \<and> spend_seen w offer d s)"

definition shy :: "world \<Rightarrow> string \<Rightarrow> db \<Rightarrow> db \<Rightarrow> bool" where
  "shy w i d s \<longleftrightarrow> unrevealed d s \<or> reveal_backed w i d s"

lemma spend_seen_later: "spend_seen w offer d s \<Longrightarrow> later s s' \<Longrightarrow> spend_seen w offer d s'"
  unfolding spend_seen_def later_def by (meson less_le_trans)

lemma plan_outpoint:
  "triple (\<lambda>s. True) (receive_plan w swap offer)
     (\<lambda>p s. parse_outpoint (co_outpoint offer) = Some (sh_txid (cp_shared p), Some (sh_vout (cp_shared p)))) (\<lambda>e s. True)"
  unfolding receive_plan_def Let_def
  apply (rule yields_skip, rule yields_skip, rule yields_skip, rule yields_skip, rule yields_skip, rule yields_skip)
  apply (cases "parse_outpoint (co_outpoint offer)")
   apply (simp add: triple_throw)
  apply (clarsimp split: prod.split)
  apply (rule yields_skip)
  subgoal for u1 u2 u3 u4 u5 u6 t n coins
    apply (cases "find_first (\<lambda>x. c_txid x = t \<and> Some (c_vout x) = n) coins")
     apply (simp add: triple_throw)
    apply (simp only: option.case)
    apply (rule yields_skip, rule yields_skip, rule yields_skip)
    apply (rule triple_ret)
    apply (auto dest: find_first_Some)
    done
  done

lemma quiet_unrevealed: "moves unrevealed m \<Longrightarrow> triple (unrevealed d) m (\<lambda>x. unrevealed d) (\<lambda>e. unrevealed d)"
  by (rule triple_moves [where R = unrevealed]) (auto intro: urv.R_trans)

lemma plan_unrevealed:
  "triple (unrevealed d) (receive_plan w swap offer)
     (\<lambda>p s. unrevealed d s \<and> parse_outpoint (co_outpoint offer) = Some (sh_txid (cp_shared p), Some (sh_vout (cp_shared p))))
     (\<lambda>e. unrevealed d)"
  by (rule triple_conseq [OF triple_both [OF quiet_unrevealed [OF rvl.V_quiet [OF bks_receive_plan]] plan_outpoint]]) auto

lemma settle_shy:
  assumes "parse_outpoint (co_outpoint offer) = Some (sh_txid (cp_shared p), Some (sh_vout (cp_shared p)))"
  shows "triple (unrevealed d) (receive_settle w swap p)
     (\<lambda>b s. unrevealed d s \<or> spend_seen w offer d s) (\<lambda>e s. unrevealed d s \<or> spend_seen w offer d s)"
proof -
  have confirm: "triple (unrevealed d) (confirmSpent w (sh_txid (cp_shared p)) (sh_vout (cp_shared p)))
      (\<lambda>b s. unrevealed d s \<and> (b \<longrightarrow> spend_seen w offer d s)) (\<lambda>e. unrevealed d)"
  proof (rule tripleI)
    fix s b t assume s: "unrevealed d s" and run: "confirmSpent w (sh_txid (cp_shared p)) (sh_vout (cp_shared p)) s = (Inr b, t)"
    have "unrevealed s t" using movesD [OF bks_confirm, of s] run by (metis snd_conv unrevealed_books)
    moreover have "spend_seen w offer d t" if b
    proof -
      from confirm_poll_True [OF run [unfolded confirmSpent_def]] that obtain u where
        "tick s \<le> u" "u < tick t" "shows_spent w u (sh_txid (cp_shared p)) (sh_vout (cp_shared p))" by auto
      then show ?thesis using s assms unfolding spend_seen_def unrevealed_def by (meson le_trans)
    qed
    ultimately show "unrevealed d t \<and> (b \<longrightarrow> spend_seen w offer d t)" using s by (blast intro: urv.R_trans)
  next
    fix s e t assume s: "unrevealed d s" and run: "confirmSpent w (sh_txid (cp_shared p)) (sh_vout (cp_shared p)) s = (Inl e, t)"
    then show "unrevealed d t" using movesD [OF bks_confirm, of s] by (metis snd_conv unrevealed_books urv.R_trans)
  qed
  have rest: "triple (spend_seen w offer d) m (\<lambda>x. spend_seen w offer d) (\<lambda>e. spend_seen w offer d)" if "moves later m" for m :: "'x bridge"
    by (rule triple_moves [OF that]) (rule spend_seen_later)
  show ?thesis
    unfolding receive_settle_def
    apply (rule triple_andthen [OF triple_conseq [OF confirm]])
       apply (assumption | blast)+
    apply (rule triple_if)
     apply (rule triple_ret, blast)
    apply (rule triple_conseq [OF rest])
       apply (intro rlt.V_rules TrueI)
      apply blast+
    done
qed

lemma drive_shy: "triple (\<lambda>s. s = d) (driveAtomicReceive w i) (\<lambda>b. shy w i d) (\<lambda>e. shy w i d)"
proof (rule triple_pre)
  have q: "triple (unrevealed d) m (\<lambda>x. shy w i d) (\<lambda>e. shy w i d)" if "moves unrevealed m" for m :: "bool bridge"
    by (rule triple_conseq [OF quiet_unrevealed [OF that]]) (auto simp: shy_def)
  have e: "triple (unrevealed d) m (\<lambda>x. unrevealed d) (\<lambda>e. shy w i d)" if "moves unrevealed m" for m :: "'x bridge"
    by (rule triple_conseq [OF quiet_unrevealed [OF that]]) (auto simp: shy_def)
  have status: "triple (unrevealed d) (await (\<lambda>t. w_receiveStatus w t i))
      (\<lambda>st s. unrevealed d s \<and> (\<exists>t0. w_receiveStatus w t0 i = Inr st)) (\<lambda>e. shy w i d)"
    by (rule triple_await) (auto simp: shy_def unrevealed_def revealed_def)
  have plan: "triple (unrevealed d) (receive_plan w swap offer)
      (\<lambda>p s. unrevealed d s \<and> parse_outpoint (co_outpoint offer) = Some (sh_txid (cp_shared p), Some (sh_vout (cp_shared p))))
      (\<lambda>e. shy w i d)" for swap offer
    by (rule triple_conseq [OF plan_unrevealed]) (auto simp: shy_def)
  have answer: "triple (unrevealed d) (receive_answer w i swap st) (\<lambda>b. shy w i d) (\<lambda>e. shy w i d)"
    if "w_receiveStatus w t0 i = Inr st" for swap t0 st
    unfolding receive_answer_def
    apply (rule triple_if, rule q, intro rvl.V_rules rvl.V_advance)
    apply (rule triple_if, rule q, intro rvl.V_rules rvl.V_advance)
    apply (cases "offer_of st")
     apply (simp add: q [OF urv.moves_ret])
    subgoal for offer
      apply (simp only: option.case)
      apply (rule triple_andthen [OF plan])
      apply (rule triple_pure)
      apply (rule triple_andthen [OF e [OF rvl.V_claim]], simp)
      apply (rule triple_conseq [OF settle_shy [where offer = offer]])
         apply (use that in \<open>auto simp: shy_def reveal_backed_def\<close>)
      done
    done
  show "triple (unrevealed d) (driveAtomicReceive w i) (\<lambda>b. shy w i d) (\<lambda>e. shy w i d)"
    unfolding driveAtomicReceive_def
    apply (rule triple_andthen [OF e [OF urv.moves_reading]])
    apply (simp only: option.case_eq_if)
    apply (rule triple_if, rule q [OF urv.moves_ret])
    apply (rule triple_if, rule q [OF urv.moves_ret])
    apply (rule triple_andthen [OF e [OF urv.moves_lift]])
    apply (rule triple_if, rule q [OF urv.moves_ret])
    apply (rule triple_andthen [OF status])
    apply (rule triple_pure, erule exE)
    apply (erule answer)
    done
qed (simp add: urv.R_refl)

lemma calm_t:
  "moves keeps_ledger m \<Longrightarrow> triple (track i I t0 P) m (\<lambda>x. calm I) (\<lambda>e. calm I)"
  by (rule triple_pre [OF calm_moves]) (auto intro: track_calm)

lemma stage_answer:
  assumes "s_direction swap = Receive" "s_preimage swap \<noteq> None" "isTerminal Receive (s_state swap) = Inr False"
  shows "triple (track (s_id swap) I t0 (\<lambda>r. r = swap)) (receive_answer w (s_id swap) swap st) (\<lambda>b. calm I) (\<lambda>e. calm I)"
  unfolding receive_answer_def
  apply (rule triple_if, rule calm_t, intro rcl.V_rules rcl.V_advance)
  apply (rule triple_if, rule calm_t, intro rcl.V_rules rcl.V_advance)
  apply (cases "offer_of st")
   apply (simp add: calm_t [OF lgr.moves_ret])
  apply (simp only: option.case)
  apply (rule triple_andthen [OF track_quiet [OF bks_receive_plan]])
  apply (rule triple_andthen [OF triple_pre [OF stage_claim]])
   apply (use assms in \<open>auto simp: track_def rx_row_def\<close>) [1]
  apply (rule stage_receive_settle)
   apply (use assms in \<open>auto simp: isTerminal_receive_cases\<close>)
  done

text \<open>The ledger alone, without the registrations of live sends.\<close>

definition keeps_ok :: "db \<Rightarrow> db \<Rightarrow> bool" where
  "keeps_ok d d' \<longleftrightarrow> (ledger_ok d \<longrightarrow> ledger_ok d')"

lemma keeps_ok_weaken: "moves keeps_ledger m \<Longrightarrow> moves keeps_ok m"
  by (erule moves_weaken) (simp add: keeps_ledger_def keeps_ok_def)

interpretation okp: progress keeps_ok
  by unfold_locales (simp_all add: keeps_ok_def)

interpretation rok: receive_order keeps_ok w "\<lambda>k. False" for w
  by unfold_locales (simp_all add: keeps_ok_weaken ledger_writes, simp add: keeps_ok_def ledger_ok_def same_books_def)

lemma drive_ledger: "moves keeps_ok (driveAtomicReceive w i)"
proof (rule moves_triple)
  fix d
  have row: "triple (track i I t0 (\<lambda>r. r = swap)) (if s_direction swap \<noteq> Receive \<or> s_preimage swap = None then ret False
         else andthen (lift_res (isTerminal Receive (s_state swap))) (\<lambda>terminal.
           if terminal then ret (s_state swap = Settled)
           else andthen (await (\<lambda>t. w_receiveStatus w t i)) (receive_answer w i swap)))
      (\<lambda>b. calm I) (\<lambda>e. calm I)" if "s_id swap = i" for swap I t0
    apply (rule triple_if, rule triple_ret, erule track_calm)
    apply (cases "isTerminal Receive (s_state swap)")
     apply (simp add: triple_def andthen_def track_calm)
    apply (rule triple_andthen [where R = "\<lambda>x s. track i I t0 (\<lambda>r. r = swap) s \<and> isTerminal Receive (s_state swap) = Inr x"])
     apply (rule triple_lift; simp add: track_calm)
    apply (rule triple_pure)
    apply (rule triple_if, rule triple_ret, erule track_calm)
    apply (rule triple_andthen [OF track_quiet [OF bks_await]])
    using stage_answer [of swap] that apply auto
    done
  have drive: "triple (\<lambda>s. s = d) (driveAtomicReceive w i) (\<lambda>b. calm (inflight d)) (\<lambda>e. calm (inflight d))"
    if d: "ledger_ok d"
  proof (cases "repo_get d i")
    case None
    then show ?thesis using d by (simp add: triple_def driveAtomicReceive_def calm_def)
  next
    case (Some swap)
    then have "track i (inflight d) 0 (\<lambda>r. r = swap) d" using d by (simp add: track_def)
    then have get: "triple (\<lambda>s. s = d) (reading (\<lambda>d. repo_get d i))
        (\<lambda>row s. track i (inflight d) 0 (\<lambda>r. r = swap) s \<and> row = Some swap) (\<lambda>e. calm (inflight d))"
      by (intro triple_reading) (simp add: Some)
    show ?thesis
      unfolding driveAtomicReceive_def
      apply (rule triple_andthen [OF get])
      apply (rule triple_pure)
      apply (simp only: option.case)
      apply (rule row [OF conjunct2 [OF repo_get_row [OF Some]]])
      done
  qed
  show "triple (\<lambda>s. s = d) (driveAtomicReceive w i) (\<lambda>b. keeps_ok d) (\<lambda>e. keeps_ok d)"
  proof (cases "ledger_ok d")
    case True
    show ?thesis by (rule triple_conseq [OF drive [OF True]]) (auto simp: keeps_ok_def calm_def)
  next
    case False
    show ?thesis by (rule triple_conseq [OF yields_any]) (use False in \<open>auto simp: keeps_ok_def\<close>)
  qed
qed

lemma issue_ledger: "moves keeps_ok (issueAtomicReceive w amount dh)"
proof -
  have "moves keeps_ok (repo_create now nw)" for now nw
    unfolding moves_def by (auto simp: repo_create_def keeps_ok_def ledger_ok_def Let_def)
  then show ?thesis unfolding issueAtomicReceive_def Let_def by (intro rok.V_rules)
qed


subsection \<open>Converging to what boltz reports\<close>

definition row_at :: "string \<Rightarrow> swap_state \<Rightarrow> db \<Rightarrow> bool" where
  "row_at i st s \<longleftrightarrow> (\<exists>r. repo_get s i = Some r \<and> s_direction r = Receive \<and> s_state r = st)"

definition same_rest :: "db \<Rightarrow> db \<Rightarrow> bool" where
  "same_rest s s' \<longleftrightarrow> s' = s\<lparr>swaps := swaps s'\<rparr>"

lemma same_restD: "same_rest s s' \<Longrightarrow> notices s' = notices s \<and> clink_hashes s' = clink_hashes s \<and> calls s' = calls s"
  by (cases s; cases s') (simp add: same_rest_def)

lemma same_rest_trans: "same_rest s t \<Longrightarrow> same_rest t u \<Longrightarrow> same_rest s u"
  by (cases s; cases t; cases u) (simp add: same_rest_def)

text \<open>The state the walk ends in.\<close>

fun walk :: "swap_state \<Rightarrow> swap_state \<Rightarrow> swap_state list \<Rightarrow> swap_state" where
  "walk st target [] = st"
| "walk st target (nx # path) =
     (if st = target \<or> receive_transitions st = Some [] then st
      else walk (if nx \<in> set (the (receive_transitions st)) then nx else st) target path)"

lemma receive_step_known: "nx \<in> set (the (receive_transitions st)) \<Longrightarrow> receive_transitions st \<noteq> None \<Longrightarrow> receive_transitions nx \<noteq> None"
  by (cases st) auto

lemma advance_walk:
  assumes "row_at i st s" "receive_transitions st \<noteq> None"
  shows "\<exists>s'. advance_steps w i target path s = (Inr (), s') \<and> same_rest s s' \<and> row_at i (walk st target path) s'"
  using assms
proof (induction path arbitrary: st s)
  case Nil
  then show ?case by (auto simp: same_rest_def)
next
  case (Cons nx path)
  from Cons.prems(1) obtain r where r: "repo_get s i = Some r" "s_direction r = Receive" "s_state r = st"
    by (auto simp: row_at_def)
  from Cons.prems(2) obtain ts where ts: "receive_transitions st = Some ts" by blast
  have trm: "isTerminal Receive st = Inr (ts = [])" and can: "canTransition Receive st nx = Inr (nx \<in> set ts)"
    using ts by (simp_all add: isTerminal_def canTransition_def)
  consider (stop) "st = target \<or> ts = []" | (skip) "\<not> (st = target \<or> ts = [])" "nx \<notin> set ts"
    | (take_step) "\<not> (st = target \<or> ts = [])" "nx \<in> set ts" by blast
  then show ?case
  proof cases
    case stop
    with r ts trm Cons.prems(1) show ?thesis by (auto simp: same_rest_def)
  next
    case skip
    with Cons.IH [OF Cons.prems] r ts trm can show ?thesis by simp
  next
    case take_step
    have "legal_step (s_direction r) (s_state r) nx" using r ts take_step by (simp add: legal_step_iff)
    note run = transition_run [OF r(1) this, of w]
    let ?s = "update_swap i (\<lambda>r. r\<lparr>s_state := nx, s_updatedAt := w_now w (tick s)\<rparr>) s"
    have at: "row_at i nx ?s" and rest: "same_rest s ?s"
      using r by (auto simp: row_at_def same_rest_def update_swap_def repo_get_update_swap [unfolded update_swap_def])
    have "receive_transitions nx \<noteq> None" using receive_step_known ts take_step by (metis option.distinct(1) option.sel)
    from Cons.IH [OF at this] obtain s' where "advance_steps w i target path ?s = (Inr (), s')"
      "same_rest ?s s'" "row_at i (walk nx target path) s'" by blast
    moreover from this rest have "same_rest s s'" by (blast intro: same_rest_trans)
    ultimately show ?thesis using r ts trm can take_step run by auto
  qed
qed

lemma advance_reaches:
  assumes "row_at i st s" "receive_transitions st \<noteq> None"
  shows "\<exists>s'. advanceReceive w i Settled s = (Inr (), s') \<and> same_rest s s'
       \<and> row_at i (if st \<in> {Invoice_issued, Funded, Claimed} then Settled else st) s'"
    and "\<exists>s'. advanceReceive w i Refunded s = (Inr (), s') \<and> same_rest s s'
       \<and> row_at i (if st \<in> {Invoice_issued, Funded, Refund_wait} then Refunded else st) s'"
proof -
  have "walk st Settled [Funded, Claimed, Settled] = (if st \<in> {Invoice_issued, Funded, Claimed} then Settled else st)"
    "walk st Refunded [Refund_wait, Refunded] = (if st \<in> {Invoice_issued, Funded, Refund_wait} then Refunded else st)"
    using assms(2) by (cases st; simp)+
  then show "\<exists>s'. advanceReceive w i Settled s = (Inr (), s') \<and> same_rest s s'
       \<and> row_at i (if st \<in> {Invoice_issued, Funded, Claimed} then Settled else st) s'"
    "\<exists>s'. advanceReceive w i Refunded s = (Inr (), s') \<and> same_rest s s'
       \<and> row_at i (if st \<in> {Invoice_issued, Funded, Refund_wait} then Refunded else st) s'"
    using advance_walk [OF assms, of w Settled "[Funded, Claimed, Settled]"]
      advance_walk [OF assms, of w Refunded "[Refund_wait, Refunded]"]
    by (simp_all add: advanceReceive_def)
qed

lemma drive_asks:
  assumes "repo_get d i = Some r" "s_direction r = Receive" "s_preimage r \<noteq> None"
    and "isTerminal Receive (s_state r) = Inr False" "w_receiveStatus w (tick d) i = Inr st"
  shows "driveAtomicReceive w i d = receive_answer w i r st (d\<lparr>tick := Suc (tick d)\<rparr>)"
  using assms by (auto simp: driveAtomicReceive_def await_def andthen_def)

text \<open>A row converges to what boltz reports. When boltz says the swap is settled, driving it
  returns true, moves a row in invoice_issued, funded or claimed to settled and leaves any other as
  it is, and announces it once unless the hash belongs to a CLINK receipt; when boltz says it is
  refunded or waiting for the refund, driving it returns false and moves a row in invoice_issued,
  funded or refund_wait to refunded, without an announcement. No call that moves money is made.\<close>

theorem receive_converges:
  assumes "repo_get d i = Some r" "s_direction r = Receive" "s_preimage r \<noteq> None"
    and "isTerminal Receive (s_state r) = Inr False" "w_receiveStatus w (tick d) i = Inr st"
  shows "(rv_state st = ''settled'' \<longrightarrow> (\<exists>d' r'. driveAtomicReceive w i d = (Inr True, d') \<and> calls d' = calls d
      \<and> repo_get d' i = Some r' \<and> s_state r' = (if s_state r \<in> {Invoice_issued, Funded, Claimed} then Settled else s_state r)
      \<and> notices d' = notices d @ (if s_paymentHash r \<in> set (clink_hashes d) then [] else [Recv_subdust])))
    \<and> (rv_state st = ''refunded'' \<or> rv_state st = ''refund_wait'' \<longrightarrow> (\<exists>d' r'. driveAtomicReceive w i d = (Inr False, d')
      \<and> calls d' = calls d \<and> notices d' = notices d \<and> repo_get d' i = Some r'
      \<and> s_state r' = (if s_state r \<in> {Invoice_issued, Funded, Refund_wait} then Refunded else s_state r)))"
proof (intro conjI impI)
  let ?d = "d\<lparr>tick := Suc (tick d)\<rparr>"
  have at: "row_at i (s_state r) ?d" using assms(1,2) by (simp add: row_at_def repo_get_def)
  have known: "receive_transitions (s_state r) \<noteq> None" using assms(4) by (auto simp: isTerminal_receive_cases)
  note reach = advance_reaches [OF at known, of w]
  note run = drive_asks [OF assms]
  show "\<exists>d' r'. driveAtomicReceive w i d = (Inr True, d') \<and> calls d' = calls d
      \<and> repo_get d' i = Some r' \<and> s_state r' = (if s_state r \<in> {Invoice_issued, Funded, Claimed} then Settled else s_state r)
      \<and> notices d' = notices d @ (if s_paymentHash r \<in> set (clink_hashes d) then [] else [Recv_subdust])"
    if "rv_state st = ''settled''"
  proof -
    from reach(1) obtain s' where s: "advanceReceive w i Settled ?d = (Inr (), s')" "same_rest ?d s'"
      "row_at i (if s_state r \<in> {Invoice_issued, Funded, Claimed} then Settled else s_state r) s'" by blast
    have "driveAtomicReceive w i d = (Inr True, if s_paymentHash r \<in> set (clink_hashes d) then s' else notify Recv_subdust s')"
      using run that s(1) same_restD [OF s(2)] by (simp add: receive_answer_def notifyReceiveSettled_def)
    then show ?thesis using s(3) same_restD [OF s(2)] by (auto simp: row_at_def repo_get_def)
  qed
  show "\<exists>d' r'. driveAtomicReceive w i d = (Inr False, d')
      \<and> calls d' = calls d \<and> notices d' = notices d \<and> repo_get d' i = Some r'
      \<and> s_state r' = (if s_state r \<in> {Invoice_issued, Funded, Refund_wait} then Refunded else s_state r)"
    if "rv_state st = ''refunded'' \<or> rv_state st = ''refund_wait''"
  proof -
    from reach(2) obtain s' where s: "advanceReceive w i Refunded ?d = (Inr (), s')" "same_rest ?d s'"
      "row_at i (if s_state r \<in> {Invoice_issued, Funded, Refund_wait} then Refunded else s_state r) s'" by blast
    have "driveAtomicReceive w i d = (Inr False, s')"
      using run that s(1) by (auto simp: receive_answer_def)
    then show ?thesis using s(3) same_restD [OF s(2)] by (auto simp: row_at_def)
  qed
qed

subsection \<open>A claimed row that boltz still reports as funded\<close>

lemma plan_needs_listing:
  assumes "parse_outpoint (co_outpoint offer) = Some (txid, vout)"
    and "\<And>t pk coins. w_byScript w t pk True = Inr coins \<Longrightarrow> find_first (\<lambda>x. c_txid x = txid \<and> Some (c_vout x) = vout) coins = None"
  shows "triple (\<lambda>s. True) (receive_plan w swap offer) (\<lambda>p s. False) (\<lambda>e s. True)"
  unfolding receive_plan_def Let_def
  apply (rule yields_skip, rule yields_skip, rule yields_skip, rule yields_skip, rule yields_skip, rule yields_skip)
  apply (simp only: assms(1) option.case prod.case)
  apply (rule triple_andthen [where R = "\<lambda>coins s. find_first (\<lambda>x. c_txid x = txid \<and> Some (c_vout x) = vout) coins = None"])
   apply (rule triple_await)
    apply (simp add: assms(2))
   apply simp
  apply (rule yields_pure)
  apply (simp add: triple_throw)
  done

text \<open>The retry of the settle call is dead code for the case it was written for. Once the claim of
  a receive has landed the shared vtxo is no longer listed as spendable, and driving the claimed row
  while boltz still reports it funded throws before it reaches the settle call: the row stays
  claimed and no call is made, in every pass, however visible the spend is to the indexer. The row
  only moves again when boltz itself reports the swap settled.\<close>

theorem claimed_never_settles:
  assumes "repo_get d i = Some r" "s_direction r = Receive" "s_preimage r \<noteq> None" "s_state r = Claimed"
    and "w_receiveStatus w (tick d) i = Inr st" "offer_of st = Some offer"
    and "parse_outpoint (co_outpoint offer) = Some (txid, vout)"
    and "\<And>t pk coins. w_byScript w t pk True = Inr coins \<Longrightarrow> find_first (\<lambda>x. c_txid x = txid \<and> Some (c_vout x) = vout) coins = None"
  shows "\<exists>e d'. driveAtomicReceive w i d = (Inl e, d') \<and> repo_get d' i = Some r \<and> calls d' = calls d"
proof -
  let ?d = "d\<lparr>tick := Suc (tick d)\<rparr>"
  have trm: "isTerminal Receive (s_state r) = Inr False" using assms(4) by (simp add: isTerminal_receive_cases)
  have st: "rv_state st = ''funded''" using assms(6) by (simp add: offer_of_def split: if_splits)
  obtain x s where plan: "receive_plan w r offer ?d = (x, s)" by fastforce
  have "\<exists>e. x = Inl e"
    using triple_Inr [OF plan_needs_listing [OF assms(7,8)] TrueI, where s = ?d] plan by (cases x) auto
  then obtain e where e: "x = Inl e" by blast
  have "same_books ?d s" using movesD [OF bks_receive_plan, of ?d] plan by (metis snd_conv)
  then have "swaps s = swaps d" "calls s = calls d" by (simp_all add: same_books_def)
  moreover have "driveAtomicReceive w i d = (Inl e, s)"
    using drive_asks [OF assms(1-3) trm assms(5)] st assms(6) plan e by (simp add: receive_answer_def)
  ultimately show ?thesis using assms(1) by (simp add: repo_get_def)
qed

subsection \<open>Concrete runs\<close>

definition receive_store :: "swap_state \<Rightarrow> db" where
  "receive_store st = empty_db\<lparr>swaps := [(sample_row st None)\<lparr>s_direction := Receive, s_preimage := Some ''pp''\<rparr>]\<rparr>"

definition receive_world :: "string \<Rightarrow> world" where
  "receive_world st = sample_world\<lparr>w_byScript := (\<lambda>t pk so. Inr []),
     w_receiveStatus := (\<lambda>t i. Inr \<lparr>rv_state = st, rv_fundingOutpoint = Some (outpoint_key ''aa'' 0),
       rv_presigs = Some \<lparr>ps_arkTx = [], ps_checkpoint = []\<rparr>, rv_boltzPubkey = Some [], rv_refundLocktime = Some 900000,
       rv_boltzScriptDelay = None\<rparr>)\<rparr>"

lemma receive_store_get:
  "repo_get (receive_store st) ''s1'' = Some ((sample_row st None)\<lparr>s_direction := Receive, s_preimage := Some ''pp''\<rparr>)"
  by (simp add: receive_store_def repo_get_def empty_db_def)

lemma receive_store_rest:
  "clink_hashes (receive_store st) = []" "notices (receive_store st) = []" "calls (receive_store st) = []" "tick (receive_store st) = 0"
  by (simp_all add: receive_store_def empty_db_def)

lemma receive_store_ledger: "ledger_ok (receive_store st)"
  by (simp add: ledger_ok_def receive_store_rest)


theorem issue_sound_witness:
  "\<exists>res d' r. issueAtomicReceive sample_world 21 None empty_db = (Inr res, d') \<and> repo_get d' (vi_swapId res) = Some r
     \<and> s_state r = Invoice_issued \<and> s_amount r = 21 \<and> s_preimage r = Some (vi_preimage res)"
proof -
  have "\<exists>res d'. issueAtomicReceive sample_world 21 None empty_db = (Inr res, d')"
    by (simp add: issueAtomicReceive_def andthen_def await_def guard_eff_def Let_def clock_ms_def repo_create_def empty_db_def repo_get_def repo_getByPaymentHash_def)
  with issue_sound [of sample_world 21 None empty_db] show ?thesis by blast
qed

theorem receive_converges_witness:
  "\<exists>d' r'. driveAtomicReceive (receive_world ''settled'') ''s1'' (receive_store Funded) = (Inr True, d')
     \<and> repo_get d' ''s1'' = Some r' \<and> s_state r' = Settled \<and> notices d' = [Recv_subdust]"
proof -
  have trm: "isTerminal Receive Funded = Inr False" by (simp add: isTerminal_receive_cases)
  obtain st where st: "w_receiveStatus (receive_world ''settled'') (tick (receive_store Funded)) ''s1'' = Inr st" "rv_state st = ''settled''"
    by (simp add: receive_world_def)
  from receive_converges [OF receive_store_get _ _ _ st(1)] st(2) trm
  show ?thesis by (auto simp: receive_store_rest)
qed

theorem claimed_never_settles_witness:
  "(\<forall>t. shows_spent (receive_world ''funded'') t ''aa'' 0)
   \<and> (\<exists>e d'. driveAtomicReceive (receive_world ''funded'') ''s1'' (receive_store Claimed) = (Inl e, d')
        \<and> calls d' = [])"
proof
  show "\<forall>t. shows_spent (receive_world ''funded'') t ''aa'' 0"
    by (simp add: receive_world_def shows_spent_def spent_coin_def sample_coin_def truthy_def)
  have "\<exists>e d'. driveAtomicReceive (receive_world ''funded'') ''s1'' (receive_store Claimed) = (Inl e, d')
     \<and> repo_get d' ''s1'' = Some ((sample_row Claimed None)\<lparr>s_direction := Receive, s_preimage := Some ''pp''\<rparr>)
     \<and> calls d' = calls (receive_store Claimed)"
    by (rule claimed_never_settles [OF receive_store_get, where txid = "''aa''" and vout = "Some 0"])
      (auto simp: receive_world_def offer_of_def truthy_def outpoint_key_def [of "''aa''" 0, symmetric] parse_outpoint_key)
  then show "\<exists>e d'. driveAtomicReceive (receive_world ''funded'') ''s1'' (receive_store Claimed) = (Inl e, d') \<and> calls d' = []"
    by (auto simp: receive_store_rest)
qed

end
