(* ===== verification/Exit_Spend.thy ===== *)
theory Exit_Spend
  imports Exit_Estimate Eff_Logic Swap_Script
begin

text \<open>
  The transactions of a unilateral exit beyond the pre-signed ones: \<open>src/exit/csv.ts\<close> (when an exit
  path is open), \<open>sweep.ts\<close> (spending unrolled vtxos), \<open>boost.ts\<close> (replacing the CPFP child of a
  stuck package, or the sweep), \<open>final_send.ts\<close> and \<open>dest.ts\<close> (sending everything to the
  challenge-verified address), \<open>esplora.ts\<close> (choosing the block explorer).

  What is outside is in \<open>exit_world\<close>: the explorer's answers (functions of the request and of the
  tick), the SDK's script decoding, weight estimates and signer. A transaction is the data it is
  built from; its signature, id and hex come from \<open>x_sign\<close>.
\<close>

subsection \<open>The surroundings\<close>

record block_time =
  bt_height :: int
  bt_time :: int

record onchain_status =
  os_confirmed :: bool
  os_at :: block_time

record exit_path =
  xp_type :: timelock_unit
  xp_need :: int
  xp_script :: string

record spend_leaf =
  lf_leaf :: string
  lf_sequence :: int
  lf_pkScript :: string

record fuel_coin =
  f_txid :: string
  f_vout :: nat
  f_valueSat :: int

record wallet_coin =
  wc_coin :: fuel_coin
  wc_confirmed :: bool

record parent_tx =
  pt_hex :: string
  pt_vsize :: int
  pt_outputs :: "string list"

text \<open>The transactions the exit code builds.\<close>

record sweep_input =
  wi_vtxo :: vault_vtxo
  wi_leaf :: spend_leaf

datatype exit_tx =
    Cpfp_child string nat "fuel_coin list" string int
  | Sweep_tx "sweep_input list" string int
  | Final_tx "fuel_coin list" string int

text \<open>The JSON of esplora's \<open>/tx/:id\<close>, with the fields that may be missing.\<close>

record esplora_input =
  ei_txid :: "string option"
  ei_vout :: "nat option"
  ei_value :: "int option"
  ei_script :: "string option"

record esplora_tx =
  es_txid :: "string option"
  es_fee :: "int option"
  es_weight :: "int option"
  es_confirmed :: bool
  es_vin :: "esplora_input list"

record exit_world =
  x_now :: "nat \<Rightarrow> int"
  x_probe :: "nat \<Rightarrow> string \<Rightarrow> bool"
  x_status :: "nat \<Rightarrow> string \<Rightarrow> err + onchain_status"
  x_tip :: "nat \<Rightarrow> err + block_time"
  x_feeRate :: "nat \<Rightarrow> err + rat option"
  x_outspends :: "nat \<Rightarrow> string \<Rightarrow> err + (bool \<times> string option) list"
  x_broadcast :: "nat \<Rightarrow> string list \<Rightarrow> err + unit"
  x_tx :: "nat \<Rightarrow> string \<Rightarrow> esplora_tx option"
  x_addressTxs :: "nat \<Rightarrow> string \<Rightarrow> esplora_tx list option"
  x_coins :: "nat \<Rightarrow> err + wallet_coin list"
  x_providers :: "nat \<Rightarrow> err + unit"
  x_fuelReady :: bool
  x_wallet :: "nat \<Rightarrow> err + string"
  x_fuelAddress :: string
  x_fuelScript :: string
  x_sign :: "nat \<Rightarrow> exit_tx \<Rightarrow> err + (string \<times> string)"
  x_exitPaths :: "string \<Rightarrow> err + exit_path list"
  x_findLeaf :: "string \<Rightarrow> string \<Rightarrow> spend_leaf option"
  x_finalize :: "chain_tx_type \<Rightarrow> string \<Rightarrow> err + parent_tx"
  x_childVb :: "nat \<Rightarrow> int"
  x_sweepVb :: "spend_leaf list \<Rightarrow> string \<Rightarrow> err + int"
  x_finalVb :: "nat \<Rightarrow> string \<Rightarrow> err + int"
  x_checkDest :: "string \<Rightarrow> string option"
  x_verifyDest :: "string \<Rightarrow> string \<Rightarrow> string \<Rightarrow> string + string"
  x_nonce :: "nat \<Rightarrow> string"

definition now_s :: "exit_world \<Rightarrow> int bridge" where
  "now_s x = clock_ms (x_now x)"

text \<open>Reads whose failure is an ordinary value.\<close>

definition await_opt :: "(nat \<Rightarrow> err + 'a) \<Rightarrow> 'a option bridge" where
  "await_opt ask = await (\<lambda>t. Inr (case ask t of Inl e \<Rightarrow> None | Inr v \<Rightarrow> Some v))"

definition tipHeightOrNull :: "exit_world \<Rightarrow> int option bridge" where
  "tipHeightOrNull x = andthen (await_opt (x_tip x)) (\<lambda>tip. ret (map_option bt_height tip))"

definition nextBlockRate :: "exit_world \<Rightarrow> int bridge" where
  "nextBlockRate x = andthen (await_opt (x_feeRate x)) (\<lambda>r. ret (case r of
     None \<Rightarrow> 1 | Some rate \<Rightarrow> max 1 \<lceil>case rate of None \<Rightarrow> 1 | Some q \<Rightarrow> q\<rceil>))"

datatype presence = Confirmed | Mempool | Unknown

definition txPresence :: "exit_world \<Rightarrow> string \<Rightarrow> presence bridge" where
  "txPresence x txid = andthen (await_opt (\<lambda>t. x_status x t txid)) (\<lambda>s. ret (case s of
     None \<Rightarrow> Unknown | Some st \<Rightarrow> if os_confirmed st then Confirmed else Mempool))"

fun presence_poll :: "nat \<Rightarrow> exit_world \<Rightarrow> string \<Rightarrow> unit bridge" where
  "presence_poll 0 x txid = throw (Error ''did not appear in the mempool after broadcast'')"
| "presence_poll (Suc n) x txid = andthen (txPresence x txid) (\<lambda>p.
     if p \<noteq> Unknown then ret () else presence_poll n x txid)"

definition confirmInMempool :: "exit_world \<Rightarrow> string \<Rightarrow> unit bridge" where
  "confirmInMempool x txid = presence_poll 5 x txid"

fun pick_from :: "exit_world \<Rightarrow> string \<Rightarrow> string list \<Rightarrow> (string \<times> bool) bridge" where
  "pick_from x first [] = ret (first, False)"
| "pick_from x first (url # urls) = andthen (await (\<lambda>t. Inr (x_probe x t url))) (\<lambda>ok.
     if ok then ret (url, True) else pick_from x first urls)"

definition pickEsplora :: "exit_world \<Rightarrow> string list \<Rightarrow> (string \<times> bool) bridge" where
  "pickEsplora x urls = (case urls of [] \<Rightarrow> throw (Error ''esploraUrls must not be empty'')
     | first # _ \<Rightarrow> pick_from x first urls)"

subsection \<open>Exit paths (\<open>csv.ts\<close>)\<close>

record csv_status =
  cv_type :: timelock_unit
  cv_need :: int
  cv_have :: int
  cv_satisfied :: bool
  cv_path :: exit_path

definition csv_of :: "block_time \<Rightarrow> block_time \<Rightarrow> exit_path \<Rightarrow> csv_status" where
  "csv_of confirmedAt tip path =
     (let have = (if xp_type path = Blocks then bt_height tip - bt_height confirmedAt
                  else bt_time tip - bt_time confirmedAt)
      in \<lparr>cv_type = xp_type path, cv_need = xp_need path, cv_have = have,
          cv_satisfied = (have \<ge> xp_need path), cv_path = path\<rparr>)"

definition csvPathStatuses :: "exit_world \<Rightarrow> string \<Rightarrow> block_time \<Rightarrow> block_time \<Rightarrow> err + csv_status list" where
  "csvPathStatuses x tapTree confirmedAt tip = (case x_exitPaths x tapTree of
     Inl e \<Rightarrow> Inl e | Inr paths \<Rightarrow> Inr (map (csv_of confirmedAt tip) paths))"

definition availableExitPath :: "exit_world \<Rightarrow> string \<Rightarrow> block_time \<Rightarrow> block_time \<Rightarrow> err + exit_path option" where
  "availableExitPath x tapTree confirmedAt tip = (case csvPathStatuses x tapTree confirmedAt tip of
     Inl e \<Rightarrow> Inl e | Inr ss \<Rightarrow> Inr (map_option cv_path (find_first cv_satisfied ss)))"

subsection \<open>Sweeping (\<open>sweep.ts\<close>)\<close>

definition DUST_SAT :: int where "DUST_SAT = 546"

record sweep_result =
  sw_txid :: string
  sw_hex :: string
  sw_inputCount :: nat
  sw_amountSat :: int
  sw_feeSat :: int

definition resolveInput :: "exit_world \<Rightarrow> string \<Rightarrow> nat \<Rightarrow> sweep_input bridge" where
  "resolveInput x txid vout =
     andthen (reading (\<lambda>d. getVaultVtxo d txid vout)) (\<lambda>row. case row of
       None \<Rightarrow> throw (Error ''exit vault has no entry'')
     | Some vtxo \<Rightarrow>
        andthen (await (\<lambda>t. x_status x t txid)) (\<lambda>status.
        andthen (guard_eff (os_confirmed status) (Error ''vtxo tx is not confirmed onchain'')) (\<lambda>u.
        andthen (await (x_tip x)) (\<lambda>tip.
        andthen (lift_res (availableExitPath x (v_tapTree vtxo) (os_at status) tip)) (\<lambda>exit. case exit of
          None \<Rightarrow> throw (Error ''CSV timelock not elapsed yet'')
        | Some path \<Rightarrow> (case x_findLeaf x (v_tapTree vtxo) (xp_script path) of
            None \<Rightarrow> throw (Error ''exit leaf not found in tapTree'')
          | Some leaf \<Rightarrow> ret \<lparr>wi_vtxo = vtxo, wi_leaf = leaf\<rparr>))))))"

fun resolve_all :: "exit_world \<Rightarrow> (string \<times> nat) list \<Rightarrow> sweep_input list bridge" where
  "resolve_all x [] = ret []"
| "resolve_all x (o1 # outs) =
     andthen (resolveInput x (fst o1) (snd o1)) (\<lambda>i.
     andthen (resolve_all x outs) (\<lambda>rest. ret (i # rest)))"

definition rate_floor :: "rat option \<Rightarrow> rat" where
  "rate_floor r = (case r of None \<Rightarrow> 1 | Some q \<Rightarrow> if q < 1 then 1 else q)"

definition raise_to :: "int option \<Rightarrow> int \<Rightarrow> int" where
  "raise_to minFee fee = (case minFee of None \<Rightarrow> fee | Some m \<Rightarrow> if fee < m then m else fee)"

definition buildSweepTx :: "exit_world \<Rightarrow> (string \<times> nat) list \<Rightarrow> string \<Rightarrow> int option \<Rightarrow> sweep_result bridge" where
  "buildSweepTx x outpoints destAddress minFeeSat =
     andthen (guard_eff (outpoints \<noteq> []) (Error ''nothing to sweep'')) (\<lambda>u.
     andthen (resolve_all x outpoints) (\<lambda>inputs.
     (let totalSat = sum_list (map (\<lambda>i. v_valueSat (wi_vtxo i)) inputs) in
     andthen (lift_res (x_sweepVb x (map wi_leaf inputs) destAddress)) (\<lambda>vsize.
     andthen (await (x_feeRate x)) (\<lambda>rate.
     (let feeSat = raise_to minFeeSat (vsize * \<lceil>rate_floor rate\<rceil>) in
     andthen (guard_eff (feeSat < totalSat) (Error ''sweep fee would consume the entire value'')) (\<lambda>u.
     (let amountSat = totalSat - feeSat in
     andthen (guard_eff (DUST_SAT \<le> amountSat) (Error ''sweep output is below dust'')) (\<lambda>u.
     andthen (await (\<lambda>t. x_sign x t (Sweep_tx inputs destAddress amountSat))) (\<lambda>signed.
     ret \<lparr>sw_txid = fst signed, sw_hex = snd signed, sw_inputCount = length inputs,
       sw_amountSat = amountSat, sw_feeSat = feeSat\<rparr>))))))))))"

definition sweepVtxos :: "exit_world \<Rightarrow> (string \<times> nat) list \<Rightarrow> string \<Rightarrow> sweep_result bridge" where
  "sweepVtxos x outpoints destAddress =
     andthen (buildSweepTx x outpoints destAddress None) (\<lambda>result.
     andthen (await (\<lambda>t. x_broadcast x t [sw_hex result])) (\<lambda>u.
     ret result))"

subsection \<open>Writes stamped with the clock\<close>

definition set_op :: "exit_world \<Rightarrow> string \<Rightarrow> nat \<Rightarrow> exit_op_state \<Rightarrow> op_extra \<Rightarrow> unit bridge" where
  "set_op x txid vout st extra = andthen (now_s x) (\<lambda>now. modify (setExitOpState now txid vout st extra))"

definition note_broadcast :: "exit_world \<Rightarrow> string \<Rightarrow> string \<Rightarrow> int \<Rightarrow> int option \<Rightarrow> unit bridge" where
  "note_broadcast x stepTxid txid vout tip = andthen (now_s x) (\<lambda>now. modify (recordBroadcast now stepTxid txid vout tip))"

definition swept_extra :: "string \<Rightarrow> string \<Rightarrow> op_extra" where
  "swept_extra txid destAddress = no_extra\<lparr>x_sweepTxid := Some txid, x_destAddress := Some destAddress\<rparr>"

definition mark_swept :: "exit_world \<Rightarrow> string \<Rightarrow> string \<Rightarrow> (string \<times> nat) list \<Rightarrow> unit bridge" where
  "mark_swept x txid destAddress = for_each (\<lambda>o1. set_op x (fst o1) (snd o1) Swept (swept_extra txid destAddress))"

end
