(* ===== verification/Exit_Boost.thy ===== *)
theory Exit_Boost
  imports Exit_Spend
begin

text \<open>
  Fee replacement and the last send: \<open>src/exit/boost.ts\<close> (esplora reads, the CPFP child of a stuck
  package, the sweep), \<open>src/exit/dest.ts\<close> (the challenge-verified destination) and
  \<open>src/exit/final_send.ts\<close>. The fixpoint of fee and input count runs on the ten rounds of the code.
\<close>

subsection \<open>Reading one transaction from esplora\<close>

record fuel_input =
  fi_coin :: fuel_coin
  fi_scriptHex :: string

record mempool_info =
  mi_feeSat :: int
  mi_vsize :: int
  mi_confirmed :: bool
  mi_inputs :: "fuel_input list"

definition input_of :: "esplora_input \<Rightarrow> fuel_input list" where
  "input_of v = (case (ei_txid v, ei_vout v, ei_value v, ei_script v) of
     (Some txid, Some vout, Some value, Some script) \<Rightarrow>
       [\<lparr>fi_coin = \<lparr>f_txid = txid, f_vout = vout, f_valueSat = value\<rparr>, fi_scriptHex = script\<rparr>]
   | _ \<Rightarrow> [])"

definition info_of :: "esplora_tx \<Rightarrow> mempool_info option" where
  "info_of j = (case (es_fee j, es_weight j) of
     (Some fee, Some weight) \<Rightarrow> Some \<lparr>mi_feeSat = fee, mi_vsize = \<lceil>of_int weight / (4 :: rat)\<rceil>,
       mi_confirmed = es_confirmed j, mi_inputs = concat (map input_of (es_vin j))\<rparr>
   | _ \<Rightarrow> None)"

definition reader_tx :: "exit_world \<Rightarrow> string \<Rightarrow> mempool_info option bridge" where
  "reader_tx x txid = await (\<lambda>t. Inr (case x_tx x t txid of None \<Rightarrow> None | Some j \<Rightarrow> info_of j))"

definition spends_from :: "string \<Rightarrow> nat \<Rightarrow> esplora_tx \<Rightarrow> bool" where
  "spends_from parentTxid vout t \<longleftrightarrow> es_txid t \<noteq> None \<and> es_txid t \<noteq> Some [] \<and> \<not> es_confirmed t
     \<and> (\<exists>v \<in> set (es_vin t). ei_txid v = Some parentTxid \<and> ei_vout v = Some vout)"

definition spenderFromAddress :: "exit_world \<Rightarrow> string \<Rightarrow> string \<Rightarrow> nat \<Rightarrow> string option bridge" where
  "spenderFromAddress x address parentTxid vout = await (\<lambda>t. Inr (case x_addressTxs x t address of
     None \<Rightarrow> None
   | Some ts \<Rightarrow> (case find_first (spends_from parentTxid vout) ts of None \<Rightarrow> None | Some tx \<Rightarrow> es_txid tx)))"

subsection \<open>The package in the mempool\<close>

definition ANCHOR_SCRIPT_HEX :: string where "ANCHOR_SCRIPT_HEX = ''51024e73''"
definition TRUC_CHILD_MAX_VB :: int where "TRUC_CHILD_MAX_VB = 1000"

fun index_of :: "'a \<Rightarrow> 'a list \<Rightarrow> nat option" where
  "index_of x [] = None"
| "index_of x (y # ys) = (if y = x then Some 0 else map_option Suc (index_of x ys))"

definition anchorIndexOf :: "parent_tx \<Rightarrow> err + nat" where
  "anchorIndexOf tx = (case index_of ANCHOR_SCRIPT_HEX (pt_outputs tx) of
     None \<Rightarrow> Inl (Error ''no P2A anchor output on the parent tx'') | Some i \<Rightarrow> Inr i)"

definition blocksWaitingOf :: "db \<Rightarrow> string \<Rightarrow> int option \<Rightarrow> int option" where
  "blocksWaitingOf d stepTxid tipHeight = (case getBroadcast d stepTxid of
     None \<Rightarrow> None
   | Some record \<Rightarrow> (case (b_tipHeight record, tipHeight) of
       (Some h, Some tip) \<Rightarrow> Some (max 0 (tip - h)) | _ \<Rightarrow> None))"

text \<open>BIP-125 rule 4: the old fee plus the incremental relay fee (1 sat/vB) for the new size.\<close>

definition rbfFloor :: "mempool_info option \<Rightarrow> int \<Rightarrow> int" where
  "rbfFloor old newVb = (case old of None \<Rightarrow> 0 | Some m \<Rightarrow> mi_feeSat m + newVb + 1)"

definition loadProofTx :: "db \<Rightarrow> string \<Rightarrow> nat \<Rightarrow> string \<Rightarrow> err + chain_tx_type \<times> string" where
  "loadProofTx d txid vout stepTxid = (case getVaultVtxo d txid vout of
     None \<Rightarrow> Inl (Error ''no vault entry'')
   | Some vtxo \<Rightarrow> (case find_first (\<lambda>c. ct_txid c = stepTxid) (v_chain vtxo) of
       None \<Rightarrow> Inl (Error ''not a broadcastable step of this vtxo'')
     | Some entry \<Rightarrow>
        (if ct_type entry \<in> {COMMITMENT, UNSPECIFIED} then Inl (Error ''not a broadcastable step of this vtxo'')
         else (case getProofPsbts d [stepTxid] stepTxid of
             None \<Rightarrow> Inl (Error ''proof PSBT is not in the vault'')
           | Some psbt \<Rightarrow> if psbt = [] then Inl (Error ''proof PSBT is not in the vault'')
               else Inr (ct_type entry, psbt)))))"

record child_ref =
  cr_txid :: string
  cr_info :: "mempool_info option"

definition anchor_spender :: "(bool \<times> string option) list \<Rightarrow> nat \<Rightarrow> (bool \<times> string option)" where
  "anchor_spender spends i = (if i < length spends then spends ! i else (False, None))"

definition currentChild :: "exit_world \<Rightarrow> string \<Rightarrow> nat \<Rightarrow> child_ref option bridge" where
  "currentChild x stepTxid anchorIdx =
     andthen (await_opt (\<lambda>t. x_outspends x t stepTxid)) (\<lambda>answer.
     (case answer of
        Some spends \<Rightarrow>
          (if \<not> fst (anchor_spender spends anchorIdx) then ret None
           else andthen (case snd (anchor_spender spends anchorIdx) of
               Some txid \<Rightarrow> if txid \<noteq> [] then ret (Some txid) else spenderFromAddress x (x_fuelAddress x) stepTxid anchorIdx
             | None \<Rightarrow> spenderFromAddress x (x_fuelAddress x) stepTxid anchorIdx) (\<lambda>spender.
           (case spender of
              None \<Rightarrow> ret None
            | Some txid \<Rightarrow> andthen (reader_tx x txid) (\<lambda>info. ret (Some \<lparr>cr_txid = txid, cr_info = info\<rparr>)))))
      | None \<Rightarrow> andthen (spenderFromAddress x (x_fuelAddress x) stepTxid anchorIdx) (\<lambda>spender.
          (case spender of
             None \<Rightarrow> ret None
           | Some txid \<Rightarrow> andthen (reader_tx x txid) (\<lambda>info. ret (Some \<lparr>cr_txid = txid, cr_info = info\<rparr>))))))"

subsection \<open>What the operator is shown\<close>

definition one_decimal :: "rat \<Rightarrow> rat" where
  "one_decimal q = of_int \<lfloor>q * 10 + 1 / 2\<rfloor> / 10"

record step_boost_info =
  sb_parentVb :: int
  sb_childTxid :: "string option"
  sb_childFeeSat :: "int option"
  sb_childVb :: "int option"
  sb_pkgRate :: "rat option"
  sb_targetRate :: int
  sb_boostable :: bool
  sb_projectedFeeSat :: "int option"
  sb_blocksWaiting :: "int option"

definition package_info :: "int \<Rightarrow> child_ref option \<Rightarrow> int \<Rightarrow> int option \<Rightarrow> step_boost_info" where
  "package_info parentVb child targetRate waiting =
     (let info = (case child of None \<Rightarrow> None | Some c \<Rightarrow> cr_info c);
          pkgRate = map_option (\<lambda>m. one_decimal (of_int (mi_feeSat m) / of_int (parentVb + mi_vsize m))) info
      in \<lparr>sb_parentVb = parentVb, sb_childTxid = map_option cr_txid child,
          sb_childFeeSat = map_option mi_feeSat info, sb_childVb = map_option mi_vsize info,
          sb_pkgRate = pkgRate, sb_targetRate = targetRate,
          sb_boostable = (case pkgRate of None \<Rightarrow> False | Some r \<Rightarrow> r < of_int targetRate),
          sb_projectedFeeSat = map_option (\<lambda>m. max (targetRate * (parentVb + mi_vsize m)) (rbfFloor (Some m) (mi_vsize m))) info,
          sb_blocksWaiting = waiting\<rparr>)"

definition stepBoostInfo :: "exit_world \<Rightarrow> string \<Rightarrow> nat \<Rightarrow> string \<Rightarrow> step_boost_info option bridge" where
  "stepBoostInfo x txid vout stepTxid =
     andthen (reading (\<lambda>d. loadProofTx d txid vout stepTxid)) (\<lambda>proof. case proof of
       Inl e \<Rightarrow> ret None
     | Inr (ty, psbt) \<Rightarrow> (case x_finalize x ty psbt of
         Inl e \<Rightarrow> ret None
       | Inr parent \<Rightarrow>
          andthen (lift_res (anchorIndexOf parent)) (\<lambda>anchorIdx.
          andthen (currentChild x stepTxid anchorIdx) (\<lambda>child.
          andthen (nextBlockRate x) (\<lambda>targetRate.
          andthen (tipHeightOrNull x) (\<lambda>tip.
          andthen (reading (\<lambda>d. blocksWaitingOf d stepTxid tip)) (\<lambda>waiting.
          ret (Some (package_info (pt_vsize parent) child targetRate waiting)))))))))"

subsection \<open>Fuel\<close>

text \<open>\<open>new Map()\<close> keyed by outpoint: a later coin under the same key replaces the value in place.\<close>

definition pool_put :: "fuel_coin list \<Rightarrow> fuel_coin \<Rightarrow> fuel_coin list" where
  "pool_put pool c = (if \<exists>p \<in> set pool. f_txid p = f_txid c \<and> f_vout p = f_vout c
     then map (\<lambda>p. if f_txid p = f_txid c \<and> f_vout p = f_vout c then c else p) pool
     else pool @ [c])"

definition own_inputs :: "exit_world \<Rightarrow> mempool_info option \<Rightarrow> fuel_coin list" where
  "own_inputs x old = (case old of None \<Rightarrow> []
     | Some m \<Rightarrow> map fi_coin (filter (\<lambda>i. fi_scriptHex i = x_fuelScript x) (mi_inputs m)))"

definition confirmed_coins :: "wallet_coin list \<Rightarrow> fuel_coin list" where
  "confirmed_coins cs = map wc_coin (filter wc_confirmed cs)"

definition by_value_desc :: "fuel_coin \<Rightarrow> fuel_coin \<Rightarrow> int" where
  "by_value_desc a b = f_valueSat b - f_valueSat a"

definition fuelPool :: "exit_world \<Rightarrow> mempool_info option \<Rightarrow> fuel_coin list bridge" where
  "fuelPool x old = andthen (await (x_coins x)) (\<lambda>coins.
     ret (js_sort by_value_desc (foldl pool_put (foldl pool_put [] (own_inputs x old)) (confirmed_coins coins))))"

fun select_fuel_from :: "fuel_coin list \<Rightarrow> int \<Rightarrow> fuel_coin list \<Rightarrow> int \<Rightarrow> err + fuel_coin list" where
  "select_fuel_from sel acc [] targetSat = Inl (Error ''not enough confirmed exit fuel'')"
| "select_fuel_from sel acc (c # pool) targetSat =
     (if acc + f_valueSat c \<ge> targetSat then Inr (sel @ [c])
      else select_fuel_from (sel @ [c]) (acc + f_valueSat c) pool targetSat)"

definition selectFuel :: "fuel_coin list \<Rightarrow> int \<Rightarrow> err + fuel_coin list" where
  "selectFuel pool targetSat = select_fuel_from [] 0 pool targetSat"

subsection \<open>Boosting a package\<close>

record fee_plan =
  fp_selected :: "fuel_coin list"
  fp_childVb :: int
  fp_feeSat :: int

definition child_fee :: "int \<Rightarrow> int \<Rightarrow> mempool_info option \<Rightarrow> int \<Rightarrow> int" where
  "child_fee targetRate parentVb old vb = max (targetRate * (parentVb + vb)) (rbfFloor old vb)"

fun fee_rounds :: "nat \<Rightarrow> exit_world \<Rightarrow> fuel_coin list \<Rightarrow> int \<Rightarrow> int \<Rightarrow> mempool_info option \<Rightarrow> int \<Rightarrow> err + fee_plan" where
  "fee_rounds 0 x pool targetRate parentVb old feeSat = Inl (Error ''boost fee estimation did not converge'')"
| "fee_rounds (Suc n) x pool targetRate parentVb old feeSat =
     (case selectFuel pool (feeSat + DUST_SAT) of
        Inl e \<Rightarrow> Inl e
      | Inr candidate \<Rightarrow>
         (let vb = x_childVb x (length candidate); needed = child_fee targetRate parentVb old vb in
          if vb > TRUC_CHILD_MAX_VB then Inl (Error ''boost child over the v3 limit'')
          else if needed \<le> feeSat then Inr \<lparr>fp_selected = candidate, fp_childVb = vb, fp_feeSat = needed\<rparr>
          else fee_rounds n x pool targetRate parentVb old needed))"

definition MAX_FEE_ITERATIONS :: nat where "MAX_FEE_ITERATIONS = 10"

record boost_step_result =
  br_childTxid :: string
  br_feeSat :: int
  br_pkgRate :: rat

abbreviation fuel_total :: "fuel_coin list \<Rightarrow> int" where
  "fuel_total cs \<equiv> sum_list (map f_valueSat cs)"

definition child_confirmed :: "child_ref option \<Rightarrow> bool" where
  "child_confirmed child = (case child of None \<Rightarrow> False
     | Some c \<Rightarrow> (case cr_info c of None \<Rightarrow> False | Some m \<Rightarrow> mi_confirmed m))"

definition child_info :: "child_ref option \<Rightarrow> mempool_info option" where
  "child_info child = (case child of None \<Rightarrow> None | Some c \<Rightarrow> cr_info c)"

definition boostStep :: "exit_world \<Rightarrow> string \<Rightarrow> nat \<Rightarrow> string \<Rightarrow> boost_step_result bridge" where
  "boostStep x txid vout stepTxid =
     andthen (reading (\<lambda>d. loadProofTx d txid vout stepTxid)) (\<lambda>loaded.
     andthen (lift_res loaded) (\<lambda>proof.
     andthen (lift_res (x_finalize x (fst proof) (snd proof))) (\<lambda>parent.
     andthen (lift_res (anchorIndexOf parent)) (\<lambda>anchorIdx.
     andthen (txPresence x stepTxid) (\<lambda>presence.
     andthen (guard_eff (presence \<noteq> Confirmed) (Error ''already confirmed, nothing to boost'')) (\<lambda>u.
     andthen (currentChild x stepTxid anchorIdx) (\<lambda>child.
     andthen (guard_eff (\<not> child_confirmed child) (Error ''anchor spender is already confirmed'')) (\<lambda>u.
     (let old = child_info child in
     andthen (guard_eff (\<not> (presence = Mempool \<and> old = None))
        (Error ''the current CPFP child could not be read from esplora'')) (\<lambda>u.
     andthen (nextBlockRate x) (\<lambda>targetRate.
     andthen (fuelPool x old) (\<lambda>pool.
     andthen (lift_res (fee_rounds MAX_FEE_ITERATIONS x pool targetRate (pt_vsize parent) old 0)) (\<lambda>plan.
     andthen (await (\<lambda>t. x_sign x t (Cpfp_child stepTxid anchorIdx (fp_selected plan) (x_fuelAddress x)
        (fuel_total (fp_selected plan) - fp_feeSat plan)))) (\<lambda>signed.
     andthen (await (\<lambda>t. x_broadcast x t [pt_hex parent, snd signed])) (\<lambda>u.
     andthen (confirmInMempool x (fst signed)) (\<lambda>u.
     ret \<lparr>br_childTxid = fst signed, br_feeSat = fp_feeSat plan,
       br_pkgRate = one_decimal (of_int (fp_feeSat plan) / of_int (pt_vsize parent + fp_childVb plan))\<rparr>))))))))))))))))"

subsection \<open>Boosting the sweep\<close>

record sweep_boost_info =
  wb_sweepTxid :: string
  wb_confirmed :: bool
  wb_feeSat :: int
  wb_vsize :: int
  wb_rate :: rat
  wb_targetRate :: int
  wb_boostable :: bool
  wb_projectedFeeSat :: int
  wb_blocksWaiting :: "int option"

definition sweepBoostInfo :: "exit_world \<Rightarrow> string \<Rightarrow> nat \<Rightarrow> sweep_boost_info option bridge" where
  "sweepBoostInfo x txid vout =
     andthen (reading (\<lambda>d. getExitOp d txid vout)) (\<lambda>op. case op of
       None \<Rightarrow> ret None
     | Some p \<Rightarrow> (case o_sweepTxid p of
         None \<Rightarrow> ret None
       | Some sweepTxid \<Rightarrow> (if sweepTxid = [] then ret None else
          andthen (reader_tx x sweepTxid) (\<lambda>info. case info of
            None \<Rightarrow> ret None
          | Some m \<Rightarrow>
             andthen (nextBlockRate x) (\<lambda>targetRate.
             andthen (tipHeightOrNull x) (\<lambda>tip.
             andthen (reading (\<lambda>d. blocksWaitingOf d sweepTxid tip)) (\<lambda>waiting.
             (let rate = one_decimal (of_int (mi_feeSat m) / of_int (mi_vsize m)) in
             ret (Some \<lparr>wb_sweepTxid = sweepTxid, wb_confirmed = mi_confirmed m, wb_feeSat = mi_feeSat m,
               wb_vsize = mi_vsize m, wb_rate = rate, wb_targetRate = targetRate,
               wb_boostable = (\<not> mi_confirmed m \<and> rate < of_int targetRate),
               wb_projectedFeeSat = max (targetRate * mi_vsize m) (rbfFloor (Some m) (mi_vsize m)),
               wb_blocksWaiting = waiting\<rparr>)))))))))"

text \<open>Before a replacement: the old transaction must be readable, or gone.\<close>

definition replaceable :: "exit_world \<Rightarrow> string \<Rightarrow> mempool_info option bridge" where
  "replaceable x txid =
     andthen (reader_tx x txid) (\<lambda>old. case old of
       Some m \<Rightarrow> if mi_confirmed m then throw (Error ''already confirmed, nothing to boost'') else ret (Some m)
     | None \<Rightarrow> andthen (txPresence x txid) (\<lambda>presence. case presence of
         Confirmed \<Rightarrow> throw (Error ''already confirmed, nothing to boost'')
       | Mempool \<Rightarrow> throw (Error ''its fee could not be read from esplora'')
       | Unknown \<Rightarrow> ret None))"

definition sweep_dest :: "exit_world \<Rightarrow> exit_op list \<Rightarrow> string" where
  "sweep_dest x ps = (case find_first (\<lambda>p. o_destAddress p \<noteq> None \<and> o_destAddress p \<noteq> Some []) ps of
     None \<Rightarrow> x_fuelAddress x | Some p \<Rightarrow> the (o_destAddress p))"

definition first_height :: "exit_world \<Rightarrow> string \<Rightarrow> int option bridge" where
  "first_height x oldTxid = andthen (reading (\<lambda>d. getBroadcast d oldTxid)) (\<lambda>first. case first of
     None \<Rightarrow> tipHeightOrNull x
   | Some b \<Rightarrow> (case b_tipHeight b of None \<Rightarrow> tipHeightOrNull x | Some h \<Rightarrow> ret (Some h)))"

definition replace_sweep :: "exit_world \<Rightarrow> string \<Rightarrow> string \<Rightarrow> nat \<Rightarrow> exit_op list \<Rightarrow> mempool_info option \<Rightarrow> sweep_result bridge" where
  "replace_sweep x sweepTxid txid vout settled old =
     andthen (buildSweepTx x (map op_key settled) (sweep_dest x settled)
        (map_option (\<lambda>m. rbfFloor (Some m) (mi_vsize m)) old)) (\<lambda>result.
     andthen (await (\<lambda>t. x_broadcast x t [sw_hex result])) (\<lambda>u.
     andthen (confirmInMempool x (sw_txid result)) (\<lambda>u.
     andthen (mark_swept x (sw_txid result) (sweep_dest x settled) (map op_key settled)) (\<lambda>u.
     andthen (first_height x sweepTxid) (\<lambda>height.
     andthen (note_broadcast x (sw_txid result) txid (int vout) height) (\<lambda>u.
     ret result))))))"

definition boostSweep :: "exit_world \<Rightarrow> string \<Rightarrow> nat \<Rightarrow> sweep_result bridge" where
  "boostSweep x txid vout =
     andthen (reading (\<lambda>d. getExitOp d txid vout)) (\<lambda>op. case op of
       None \<Rightarrow> throw (Error ''has no sweep to boost'')
     | Some p \<Rightarrow> (case (o_state p, o_sweepTxid p) of
         (Swept, Some sweepTxid) \<Rightarrow> (if sweepTxid = [] then throw (Error ''has no sweep to boost'') else
           andthen (replaceable x sweepTxid) (\<lambda>old.
           andthen (reading (\<lambda>d. listOpsBySweepTxid d sweepTxid)) (\<lambda>batch.
           replace_sweep x sweepTxid txid vout (if batch \<noteq> [] then batch else [p]) old)))
       | _ \<Rightarrow> throw (Error ''has no sweep to boost'')))"

subsection \<open>The destination (\<open>dest.ts\<close>)\<close>

definition issueDestChallenge :: "exit_world \<Rightarrow> string \<Rightarrow> (string + exit_dest) bridge" where
  "issueDestChallenge x trimmed = (case x_checkDest x trimmed of
     Some reason \<Rightarrow> ret (Inl reason)
   | None \<Rightarrow>
      andthen (reading (\<lambda>d. x_nonce x (tick d))) (\<lambda>nonce.
      andthen (now_s x) (\<lambda>now.
      (let row = \<lparr>e_address = trimmed,
             e_challenge = ''arkade-bridge final send: sweep ALL exit funds to '' @ trimmed @ '' (nonce: '' @ nonce @ '')'',
             e_issuedAt = now, e_verifiedAt = None, e_scheme = None, e_sendTxid = None, e_sentAt = None\<rparr> in
      andthen (modify (\<lambda>d. d\<lparr>destRow := Some row\<rparr>)) (\<lambda>u. ret (Inr row))))))"

definition submitDestSignature :: "exit_world \<Rightarrow> string \<Rightarrow> (string + exit_dest) bridge" where
  "submitDestSignature x signature =
     andthen (reading destRow) (\<lambda>row. case row of
       None \<Rightarrow> ret (Inl ''no challenge issued'')
     | Some r \<Rightarrow> (case x_verifyDest x (e_address r) (e_challenge r) signature of
         Inl reason \<Rightarrow> ret (Inl reason)
       | Inr scheme \<Rightarrow>
          andthen (now_s x) (\<lambda>now.
          (let r' = r\<lparr>e_verifiedAt := Some now, e_scheme := Some scheme\<rparr> in
          andthen (modify (\<lambda>d. d\<lparr>destRow := Some r'\<rparr>)) (\<lambda>u. ret (Inr r'))))))"

definition clearExitDest :: "unit bridge" where
  "clearExitDest = modify (\<lambda>d. d\<lparr>destRow := None\<rparr>)"

definition markDestSent :: "exit_world \<Rightarrow> string \<Rightarrow> unit bridge" where
  "markDestSent x txid = andthen (now_s x) (\<lambda>now. modify (\<lambda>d.
     d\<lparr>destRow := map_option (\<lambda>r. r\<lparr>e_sendTxid := Some txid, e_sentAt := Some now\<rparr>) (destRow d)\<rparr>))"

subsection \<open>The final send (\<open>final_send.ts\<close>)\<close>

record final_send_result =
  fs_txid :: string
  fs_hex :: string
  fs_inputCount :: nat
  fs_amountSat :: int
  fs_feeSat :: int

definition final_amount :: "fuel_coin list \<Rightarrow> int \<Rightarrow> int \<Rightarrow> mempool_info option \<Rightarrow> err + int \<times> int" where
  "final_amount coins vsize feeRate against =
     (let fee = (let f = vsize * feeRate in if f < rbfFloor against vsize then rbfFloor against vsize else f);
          amount = fuel_total coins - fee in
      if fee \<ge> fuel_total coins then Inl (Error ''final send fee would consume the entire value'')
      else if amount < DUST_SAT then Inl (Error ''final send output is below dust'')
      else Inr (amount, fee))"

definition build_final :: "exit_world \<Rightarrow> fuel_coin list \<Rightarrow> string \<Rightarrow> int \<Rightarrow> mempool_info option \<Rightarrow> err + exit_tx \<times> int \<times> int" where
  "build_final x coins destAddress feeRate against =
     (if coins = [] then Inl (Error ''no confirmed coins on the fuel address'')
      else (case x_finalVb x (length coins) destAddress of
          Inl e \<Rightarrow> Inl e
        | Inr vsize \<Rightarrow> (case final_amount coins vsize feeRate against of
            Inl e \<Rightarrow> Inl e
          | Inr (amount, fee) \<Rightarrow> Inr (Final_tx coins destAddress amount, amount, fee))))"

definition signAndBroadcast :: "exit_world \<Rightarrow> nat \<Rightarrow> exit_tx \<times> int \<times> int \<Rightarrow> final_send_result bridge" where
  "signAndBroadcast x inputCount built =
     andthen (await (\<lambda>t. x_sign x t (fst built))) (\<lambda>signed.
     andthen (await (\<lambda>t. x_broadcast x t [snd signed])) (\<lambda>u.
     andthen (confirmInMempool x (fst signed)) (\<lambda>u.
     ret \<lparr>fs_txid = fst signed, fs_hex = snd signed, fs_inputCount = inputCount,
       fs_amountSat = fst (snd built), fs_feeSat = snd (snd built)\<rparr>)))"

definition requireVerifiedDest :: "exit_dest bridge" where
  "requireVerifiedDest = andthen (reading destRow) (\<lambda>row. case row of
     None \<Rightarrow> throw (Error ''no verified destination'')
   | Some r \<Rightarrow> (case e_verifiedAt r of
       None \<Rightarrow> throw (Error ''no verified destination'')
     | Some t \<Rightarrow> if t = 0 then throw (Error ''no verified destination'') else ret r))"

definition sent_already :: "exit_dest \<Rightarrow> string option" where
  "sent_already r = (case e_sendTxid r of None \<Rightarrow> None | Some t \<Rightarrow> if t = [] then None else Some t)"

definition finalSend :: "exit_world \<Rightarrow> final_send_result bridge" where
  "finalSend x =
     andthen requireVerifiedDest (\<lambda>r.
     andthen (case sent_already r of
         None \<Rightarrow> ret ()
       | Some txid \<Rightarrow> andthen (txPresence x txid) (\<lambda>presence.
           guard_eff (presence \<noteq> Mempool) (Error ''final send is already in the mempool''))) (\<lambda>u.
     andthen (await (x_coins x)) (\<lambda>coins.
     andthen (nextBlockRate x) (\<lambda>rate.
     (let cs = confirmed_coins coins in
     andthen (lift_res (build_final x cs (e_address r) rate None)) (\<lambda>built.
     andthen (signAndBroadcast x (length cs) built) (\<lambda>result.
     andthen (markDestSent x (fs_txid result)) (\<lambda>u.
     andthen (tipHeightOrNull x) (\<lambda>tip.
     andthen (note_broadcast x (fs_txid result) (fs_txid result) (-1) tip) (\<lambda>u.
     ret result))))))))))"

record final_send_info =
  fn_sendTxid :: string
  fn_confirmed :: bool
  fn_feeSat :: int
  fn_vsize :: int
  fn_rate :: rat
  fn_targetRate :: int
  fn_boostable :: bool
  fn_blocksWaiting :: "int option"

definition finalSendInfo :: "exit_world \<Rightarrow> final_send_info option bridge" where
  "finalSendInfo x =
     andthen (reading destRow) (\<lambda>row.
     (case (case row of None \<Rightarrow> None | Some r \<Rightarrow> sent_already r) of
        None \<Rightarrow> ret None
      | Some txid \<Rightarrow>
         andthen (reader_tx x txid) (\<lambda>info. case info of
           None \<Rightarrow> ret None
         | Some m \<Rightarrow>
            andthen (nextBlockRate x) (\<lambda>targetRate.
            andthen (tipHeightOrNull x) (\<lambda>tip.
            andthen (reading (\<lambda>d. blocksWaitingOf d txid tip)) (\<lambda>waiting.
            (let rate = one_decimal (of_int (mi_feeSat m) / of_int (mi_vsize m)) in
            ret (Some \<lparr>fn_sendTxid = txid, fn_confirmed = mi_confirmed m, fn_feeSat = mi_feeSat m,
              fn_vsize = mi_vsize m, fn_rate = rate, fn_targetRate = targetRate,
              fn_boostable = (\<not> mi_confirmed m \<and> rate < of_int targetRate), fn_blocksWaiting = waiting\<rparr>))))))))"

definition merge_coins :: "fuel_coin list \<Rightarrow> fuel_coin list \<Rightarrow> fuel_coin list" where
  "merge_coins own extra = own @ filter (\<lambda>c. (f_txid c, f_vout c) \<notin> set (map (\<lambda>p. (f_txid p, f_vout p)) own)) extra"

definition boostFinalSend :: "exit_world \<Rightarrow> final_send_result bridge" where
  "boostFinalSend x =
     andthen requireVerifiedDest (\<lambda>r. case sent_already r of
       None \<Rightarrow> throw (Error ''no final send to boost'')
     | Some txid \<Rightarrow>
        andthen (replaceable x txid) (\<lambda>old.
        andthen (await (x_coins x)) (\<lambda>coins.
        andthen (nextBlockRate x) (\<lambda>rate.
        (let cs = merge_coins (own_inputs x old) (confirmed_coins coins) in
        andthen (lift_res (build_final x cs (e_address r) rate old)) (\<lambda>built.
        andthen (signAndBroadcast x (length cs) built) (\<lambda>result.
        andthen (markDestSent x (fs_txid result)) (\<lambda>u.
        andthen (first_height x txid) (\<lambda>height.
        andthen (note_broadcast x (fs_txid result) (fs_txid result) (-1) height) (\<lambda>u.
        ret result))))))))))"

end
