(* ===== verification/Exit_Spend_Safety.thy ===== *)
theory Exit_Spend_Safety
  imports Exit_Boost
begin

text \<open>
  What the spending transactions of an exit guarantee, whatever the explorer and the signer answer:
  a sweep spends mature vault entries only and conserves value, a replacement pays what the relay
  rules ask for, the fee loop ends, and the final send pays only an address whose owner signed the
  bridge's challenge.
\<close>

subsection \<open>What runs that only read leave alone\<close>

lemma only_ticks_reads:
  assumes "only_ticks d s"
  shows "getVaultVtxo s t n = getVaultVtxo d t n" "getExitOp s t n = getExitOp d t n"
    "loadProofTx s t n i = loadProofTx d t n i" "listOpsBySweepTxid s i = listOpsBySweepTxid d i"
    "getBroadcast s i = getBroadcast d i"
proof -
  have "getProofPsbts s = getProofPsbts d"
    using only_ticksD [OF assms] by (simp add: fun_eq_iff getProofPsbts_eq proof_of_def)
  then show "getVaultVtxo s t n = getVaultVtxo d t n" "getExitOp s t n = getExitOp d t n"
    "loadProofTx s t n i = loadProofTx d t n i" "listOpsBySweepTxid s i = listOpsBySweepTxid d i"
    "getBroadcast s i = getBroadcast d i"
    using only_ticksD [OF assms]
    by (simp_all add: getVaultVtxo_def getExitOp_def loadProofTx_def listOpsBySweepTxid_def getBroadcast_def
        cong: option.case_cong if_cong)
qed

lemma tck_small: "moves only_ticks (await_opt ask)" "moves only_ticks (tipHeightOrNull x)"
  "moves only_ticks (nextBlockRate x)" "moves only_ticks (txPresence x txid)" "moves only_ticks (reader_tx x txid)"
  "moves only_ticks (spenderFromAddress x a p n)" "moves only_ticks (fuelPool x old)" "moves only_ticks (now_s x)"
  unfolding await_opt_def tipHeightOrNull_def nextBlockRate_def txPresence_def reader_tx_def
    spenderFromAddress_def fuelPool_def now_s_def
  by (intro tck_rules)+

lemma tck_presence_poll: "moves only_ticks (presence_poll n x txid)"
proof (induction n)
  case 0
  show ?case unfolding presence_poll.simps by (rule tck_rules)
next
  case (Suc n)
  then show ?case unfolding presence_poll.simps by (intro tck_rules tck_small)
qed

lemma tck_confirm: "moves only_ticks (confirmInMempool x txid)"
  unfolding confirmInMempool_def by (rule tck_presence_poll)

lemma tck_currentChild: "moves only_ticks (currentChild x i n)"
  unfolding currentChild_def by (intro tck_rules tck_small)

lemma tck_resolveInput: "moves only_ticks (resolveInput x txid vout)"
  unfolding resolveInput_def by (intro tck_rules)

lemma tck_resolve_all: "moves only_ticks (resolve_all x outs)"
proof (induction outs)
  case Nil
  show ?case unfolding resolve_all.simps by (rule tck_rules)
next
  case (Cons o1 outs)
  then show ?case unfolding resolve_all.simps by (intro tck_rules tck_resolveInput)
qed

lemma tck_buildSweep: "moves only_ticks (buildSweepTx x outs dst fee)"
  unfolding buildSweepTx_def Let_def by (intro tck_rules tck_resolve_all)

lemma tck_replaceable: "moves only_ticks (replaceable x txid)"
proof -
  have "moves only_ticks (case p of Confirmed \<Rightarrow> throw a | Mempool \<Rightarrow> throw b | Unknown \<Rightarrow> ret c)" for p a b and c :: "mempool_info option"
    by (cases p) (simp_all add: tck_rules)
  then show ?thesis unfolding replaceable_def by (intro tck_rules tck_small)
qed

lemma run_ticks: "moves only_ticks m \<Longrightarrow> m d = (r, s) \<Longrightarrow> only_ticks d s"
  by (metis movesD snd_conv)

subsection \<open>Sweeping\<close>

definition mature :: "exit_world \<Rightarrow> string \<Rightarrow> block_time \<Rightarrow> block_time \<Rightarrow> exit_path \<Rightarrow> bool" where
  "mature x tapTree confirmedAt tip path \<longleftrightarrow> (\<exists>paths. x_exitPaths x tapTree = Inr paths \<and> path \<in> set paths
     \<and> xp_need path \<le> (if xp_type path = Blocks then bt_height tip - bt_height confirmedAt
          else bt_time tip - bt_time confirmedAt))"

lemma available_mature:
  "availableExitPath x tapTree confirmedAt tip = Inr (Some path) \<Longrightarrow> mature x tapTree confirmedAt tip path"
  by (auto simp: availableExitPath_def csvPathStatuses_def mature_def csv_of_def Let_def
      split: sum.splits if_splits dest!: find_first_Some)

definition spendable_now :: "exit_world \<Rightarrow> db \<Rightarrow> string \<times> nat \<Rightarrow> sweep_input \<Rightarrow> bool" where
  "spendable_now x d o1 i \<longleftrightarrow> getVaultVtxo d (fst o1) (snd o1) = Some (wi_vtxo i)
     \<and> (\<exists>t1 t2 st tip path. x_status x t1 (fst o1) = Inr st \<and> os_confirmed st \<and> x_tip x t2 = Inr tip
          \<and> mature x (v_tapTree (wi_vtxo i)) (os_at st) tip path
          \<and> x_findLeaf x (v_tapTree (wi_vtxo i)) (xp_script path) = Some (wi_leaf i))"

lemma resolveInput_ok:
  assumes "resolveInput x txid vout d = (Inr i, s)"
  shows "spendable_now x d (txid, vout) i"
proof (cases "getVaultVtxo d txid vout")
  case None
  with assms show ?thesis by (simp add: resolveInput_def)
next
  case (Some v)
  from assms Some obtain st tip path leaf where "x_status x (tick d) txid = Inr st" "os_confirmed st"
    "x_tip x (Suc (tick d)) = Inr tip"
    "availableExitPath x (v_tapTree v) (os_at st) tip = Inr (Some path)"
    "x_findLeaf x (v_tapTree v) (xp_script path) = Some leaf" "i = \<lparr>wi_vtxo = v, wi_leaf = leaf\<rparr>"
    unfolding resolveInput_def
    by (auto simp: await_def guard_eff_def elim!: andthen_InrE split: if_splits option.splits)
  with Some show ?thesis
    unfolding spendable_now_def
    by (intro conjI exI [of _ "tick d"] exI [of _ "Suc (tick d)"] exI [of _ st] exI [of _ tip] exI [of _ path])
      (simp_all add: available_mature)
qed

lemma resolve_all_ok:
  "resolve_all x outs d = (Inr is, s) \<Longrightarrow> list_all2 (spendable_now x d) outs is"
proof (induction outs arbitrary: d "is")
  case Nil
  then show ?case by simp
next
  case (Cons o1 outs)
  from Cons.prems obtain i s1 rest where i: "resolveInput x (fst o1) (snd o1) d = (Inr i, s1)"
    and rest: "resolve_all x outs s1 = (Inr rest, s)" and eq: "is = i # rest"
    by (auto elim!: andthen_InrE)
  have "only_ticks d s1" by (rule run_ticks [OF tck_resolveInput i])
  then have "spendable_now x s1 = spendable_now x d"
    by (simp add: fun_eq_iff spendable_now_def only_ticks_reads)
  with Cons.IH [OF rest] resolveInput_ok [OF i] eq show ?case by simp
qed

lemma build_sweep_ok:
  assumes "buildSweepTx x outs dst minFee d = (Inr res, s)"
  shows "\<exists>is vsize t1 rate t2. list_all2 (spendable_now x d) outs is \<and> outs \<noteq> []
      \<and> x_sweepVb x (map wi_leaf is) dst = Inr vsize \<and> x_feeRate x t1 = Inr rate
      \<and> sw_amountSat res + sw_feeSat res = (\<Sum>i \<leftarrow> is. v_valueSat (wi_vtxo i))
      \<and> vsize * \<lceil>rate_floor rate\<rceil> \<le> sw_feeSat res \<and> (\<forall>m. minFee = Some m \<longrightarrow> m \<le> sw_feeSat res)
      \<and> 546 \<le> sw_amountSat res \<and> sw_inputCount res = length outs
      \<and> x_sign x t2 (Sweep_tx is dst (sw_amountSat res)) = Inr (sw_txid res, sw_hex res)"
proof -
  from assms obtain "is" s1 vsize rate t2 fee amount signed where
    outs: "outs \<noteq> []" and r: "resolve_all x outs d = (Inr is, s1)"
    and vs: "x_sweepVb x (map wi_leaf is) dst = Inr vsize"
    and rate: "x_feeRate x (tick s1) = Inr rate"
    and fee: "fee = raise_to minFee (vsize * \<lceil>rate_floor rate\<rceil>)" "fee < (\<Sum>i \<leftarrow> is. v_valueSat (wi_vtxo i))"
    and amount: "amount = (\<Sum>i \<leftarrow> is. v_valueSat (wi_vtxo i)) - fee" "546 \<le> amount"
    and sign: "x_sign x t2 (Sweep_tx is dst amount) = Inr signed"
    and res: "res = \<lparr>sw_txid = fst signed, sw_hex = snd signed, sw_inputCount = length is,
       sw_amountSat = amount, sw_feeSat = fee\<rparr>"
    unfolding buildSweepTx_def Let_def DUST_SAT_def
    by (elim andthen_InrE) (auto simp: await_def guard_eff_def split: if_splits)
  note ok = resolve_all_ok [OF r]
  then have "length is = length outs" by (simp add: list_all2_lengthD)
  moreover have "vsize * \<lceil>rate_floor rate\<rceil> \<le> fee \<and> (\<forall>m. minFee = Some m \<longrightarrow> m \<le> fee)"
    using fee(1) by (auto simp: raise_to_def split: option.splits if_splits)
  ultimately show ?thesis
    using ok outs vs rate amount sign res
    by (intro exI [of _ "is"] exI [of _ vsize] exI [of _ "tick s1"] exI [of _ rate] exI [of _ t2]) simp
qed

text \<open>A sweep that is built spends mature vault entries and conserves their value. Its inputs are
  the requested outpoints, in order, each a vault entry whose transaction the explorer reported
  confirmed and whose exit path had elapsed at the tip; what it pays out and its fee add up to their
  value, the payout is at least 546 sats, the fee covers the advertised rate for the size and any
  floor that was asked for, and the signed transaction pays that amount to the given address.
  Nothing is written.\<close>

theorem sweep_sound:
  assumes "buildSweepTx x outs dst minFee d = (Inr res, s)"
  shows "\<exists>is vsize t1 rate t2. list_all2 (spendable_now x d) outs is
      \<and> x_sweepVb x (map wi_leaf is) dst = Inr vsize \<and> x_feeRate x t1 = Inr rate
      \<and> sw_amountSat res + sw_feeSat res = (\<Sum>i \<leftarrow> is. v_valueSat (wi_vtxo i))
      \<and> vsize * \<lceil>rate_floor rate\<rceil> \<le> sw_feeSat res \<and> (minFee = None \<or> the minFee \<le> sw_feeSat res)
      \<and> 546 \<le> sw_amountSat res
      \<and> x_sign x t2 (Sweep_tx is dst (sw_amountSat res)) = Inr (sw_txid res, sw_hex res)
      \<and> s = d\<lparr>tick := tick s\<rparr>"
proof -
  from build_sweep_ok [OF assms] obtain "is" vsize t1 rate t2 where
    "list_all2 (spendable_now x d) outs is" "x_sweepVb x (map wi_leaf is) dst = Inr vsize" "x_feeRate x t1 = Inr rate"
    "sw_amountSat res + sw_feeSat res = (\<Sum>i \<leftarrow> is. v_valueSat (wi_vtxo i))"
    "vsize * \<lceil>rate_floor rate\<rceil> \<le> sw_feeSat res" "\<forall>m. minFee = Some m \<longrightarrow> m \<le> sw_feeSat res"
    "546 \<le> sw_amountSat res" "x_sign x t2 (Sweep_tx is dst (sw_amountSat res)) = Inr (sw_txid res, sw_hex res)" by blast
  moreover have "s = d\<lparr>tick := tick s\<rparr>"
    using run_ticks [OF tck_buildSweep assms] by (auto simp: only_ticks_def)
  ultimately show ?thesis
    by (intro exI [of _ "is"] exI [of _ vsize] exI [of _ t1] exI [of _ rate] exI [of _ t2]) (cases minFee; simp)
qed

subsection \<open>The fee loop\<close>

lemma select_fuel_from_spec:
  "select_fuel_from sel acc pool target = Inr res \<Longrightarrow>
     \<exists>k. k \<le> length pool \<and> 0 < k \<and> res = sel @ take k pool \<and> target \<le> acc + fuel_total (take k pool)
       \<and> (\<forall>j < k. 0 < j \<longrightarrow> acc + fuel_total (take j pool) < target)"
proof (induction pool arbitrary: sel acc)
  case Nil
  then show ?case by simp
next
  case (Cons c pool)
  show ?case
  proof (cases "target \<le> acc + f_valueSat c")
    case True
    with Cons.prems show ?thesis by (intro exI [of _ 1]) auto
  next
    case False
    with Cons.prems Cons.IH [of "sel @ [c]" "acc + f_valueSat c"] obtain k where
      k: "k \<le> length pool" "0 < k" "res = (sel @ [c]) @ take k pool" "target \<le> acc + f_valueSat c + fuel_total (take k pool)"
        "\<forall>j < k. 0 < j \<longrightarrow> acc + f_valueSat c + fuel_total (take j pool) < target"
      by auto
    have "acc + fuel_total (take j (c # pool)) < target" if "j < Suc k" "0 < j" for j
      using that k(5) False by (cases j) (auto simp: add.assoc elim: lessE)
    with k False show ?thesis
      by (intro exI [of _ "Suc k"]) (auto simp: add.assoc)
  qed
qed

lemma selectFuel_spec:
  "selectFuel pool target = Inr res \<Longrightarrow>
     \<exists>k. k \<le> length pool \<and> 0 < k \<and> res = take k pool \<and> target \<le> fuel_total res
       \<and> (\<forall>j < k. 0 < j \<longrightarrow> fuel_total (take j pool) < target)"
  using select_fuel_from_spec [of "[]" 0 pool target res] by (auto simp: selectFuel_def)

lemma selectFuel_mono:
  assumes "selectFuel pool a = Inr r" "selectFuel pool b = Inr r'" "a \<le> b"
  shows "length r \<le> length r'"
proof (rule ccontr)
  assume less: "\<not> length r \<le> length r'"
  from selectFuel_spec [OF assms(1)] obtain k where
    k: "k \<le> length pool" "r = take k pool" "\<forall>j < k. 0 < j \<longrightarrow> fuel_total (take j pool) < a" by blast
  from selectFuel_spec [OF assms(2)] obtain k' where
    k': "k' \<le> length pool" "0 < k'" "r' = take k' pool" "b \<le> fuel_total r'" by blast
  from less k k' have "k' < k" by simp
  with k(3) k'(2) have "fuel_total (take k' pool) < a" by blast
  with k'(3,4) assms(3) show False by simp
qed

definition stuck :: "err + fee_plan \<Rightarrow> bool" where
  "stuck r \<longleftrightarrow> r = Inl (Error ''boost fee estimation did not converge'')"

lemma select_error: "selectFuel pool target = Inl e \<Longrightarrow> e = Error ''not enough confirmed exit fuel''"
proof -
  have "select_fuel_from sel acc pool target = Inl e \<Longrightarrow> e = Error ''not enough confirmed exit fuel''" for sel acc
    by (induction pool arbitrary: sel acc) (auto split: if_splits)
  then show "selectFuel pool target = Inl e \<Longrightarrow> e = Error ''not enough confirmed exit fuel''"
    by (simp add: selectFuel_def)
qed

lemma fee_rounds_step:
  assumes "m \<le> length pool" "length pool < n + m"
    and "m = 0 \<or> fee = child_fee rate pvb old (x_childVb x m)"
    and "\<And>r. selectFuel pool (fee + DUST_SAT) = Inr r \<Longrightarrow> m \<le> length r"
  shows "\<not> stuck (fee_rounds n x pool rate pvb old fee)"
  using assms
proof (induction n arbitrary: m fee)
  case 0
  then show ?case by simp
next
  case (Suc n)
  show ?case
  proof (cases "selectFuel pool (fee + DUST_SAT)")
    case (Inl e)
    then show ?thesis using select_error [OF Inl] by (simp add: stuck_def)
  next
    case (Inr r)
    from selectFuel_spec [OF Inr] obtain k where k: "k \<le> length pool" "0 < k" "r = take k pool" by blast
    then have len: "length r = k" by simp
    let ?needed = "child_fee rate pvb old (x_childVb x k)"
    have mk: "m \<le> k" using Suc.prems(4) [OF Inr] len by simp
    show ?thesis
    proof (cases "?needed \<le> fee")
      case True
      then show ?thesis using Inr len by (simp add: stuck_def Let_def)
    next
      case False
      with Suc.prems(3) k(2) mk have "m < k" by (cases "m = k") auto
      have "k \<le> length r'" if "selectFuel pool (?needed + DUST_SAT) = Inr r'" for r'
        using selectFuel_mono [OF Inr that] False len by simp
      then have "\<not> stuck (fee_rounds n x pool rate pvb old ?needed)"
        using Suc.prems(2) k(1) \<open>m < k\<close> by (intro Suc.IH [of k]) auto
      then show ?thesis using Inr len False by (simp add: stuck_def Let_def)
    qed
  qed
qed

text \<open>The fee loop of the boost ends. With fewer fuel coins than rounds, in the code with at most
  nine, it never gives up as not converging: each round that does not accept takes a strictly larger
  prefix of the pool. It returns a fee, or reports too little fuel or too large a child.\<close>

theorem fee_rounds_converge:
  assumes "length pool < n"
  shows "fee_rounds n x pool rate parentVb old 0 \<noteq> Inl (Error ''boost fee estimation did not converge'')"
  using fee_rounds_step [of 0 pool n 0] assms by (simp add: stuck_def)

lemma fee_rounds_ok:
  "fee_rounds n x pool rate pvb old fee = Inr plan \<Longrightarrow>
     fp_childVb plan = x_childVb x (length (fp_selected plan)) \<and> fp_childVb plan \<le> 1000
     \<and> fp_feeSat plan = child_fee rate pvb old (fp_childVb plan)
     \<and> 546 \<le> fuel_total (fp_selected plan) - fp_feeSat plan \<and> (\<exists>k. fp_selected plan = take k pool)"
proof (induction n arbitrary: fee)
  case 0
  then show ?case by simp
next
  case (Suc n)
  from Suc.prems obtain r where r: "selectFuel pool (fee + DUST_SAT) = Inr r"
    by (auto split: sum.splits)
  from selectFuel_spec [OF r] obtain k where k: "r = take k pool" "fee + DUST_SAT \<le> fuel_total r" by blast
  let ?needed = "child_fee rate pvb old (x_childVb x (length r))"
  show ?case
  proof (cases "?needed \<le> fee")
    case True
    with Suc.prems r have "plan = \<lparr>fp_selected = r, fp_childVb = x_childVb x (length r), fp_feeSat = ?needed\<rparr>"
      "x_childVb x (length r) \<le> 1000"
      by (auto simp: Let_def TRUC_CHILD_MAX_VB_def split: if_splits)
    with k True show ?thesis by (auto simp: DUST_SAT_def)
  next
    case False
    with Suc.prems r have "fee_rounds n x pool rate pvb old ?needed = Inr plan"
      by (auto simp: Let_def split: if_splits)
    then show ?thesis by (rule Suc.IH)
  qed
qed

subsection \<open>The replacement child\<close>

lemma await_optD: "await_opt ask d = (Inr v, s) \<Longrightarrow> s = d\<lparr>tick := Suc (tick d)\<rparr>
    \<and> v = (case ask (tick d) of Inl e \<Rightarrow> None | Inr y \<Rightarrow> Some y)"
  by (auto simp: await_opt_def await_def)

lemma txPresenceD:
  assumes "txPresence x i d = (Inr p, s)"
  shows "p = (case x_status x (tick d) i of Inl e \<Rightarrow> Unknown | Inr st \<Rightarrow> if os_confirmed st then Confirmed else Mempool)"
  using assms unfolding txPresence_def
  by (auto elim!: andthen_InrE dest!: await_optD split: sum.split)

lemma nextBlockRateD:
  assumes "nextBlockRate x d = (Inr r, s)"
  shows "1 \<le> r \<and> (\<exists>t. \<forall>q. x_feeRate x t = Inr (Some q) \<longrightarrow> q \<le> of_int r)"
proof -
  from assms have r: "r = (case x_feeRate x (tick d) of Inl e \<Rightarrow> 1 | Inr rate \<Rightarrow> max 1 \<lceil>case rate of None \<Rightarrow> 1 | Some q \<Rightarrow> q\<rceil>)"
    unfolding nextBlockRate_def by (auto elim!: andthen_InrE dest!: await_optD split: sum.split)
  have "q \<le> of_int r" if "x_feeRate x (tick d) = Inr (Some q)" for q
  proof -
    have "q \<le> of_int \<lceil>q\<rceil>" by (rule le_of_int_ceiling)
    also have "(of_int \<lceil>q\<rceil> :: rat) \<le> of_int (max 1 \<lceil>q\<rceil>)" by (simp only: of_int_le_iff max.cobounded2)
    finally show ?thesis using r that by simp
  qed
  moreover have "1 \<le> r" using r by (simp split: sum.split)
  ultimately show ?thesis by blast
qed

lemma presence_pollD: "presence_poll n x i d = (Inr u, s) \<Longrightarrow> \<exists>t st. x_status x t i = Inr st"
proof (induction n arbitrary: d)
  case 0
  then show ?case by simp
next
  case (Suc n)
  from Suc.prems obtain p s1 where p: "txPresence x i d = (Inr p, s1)"
    and k: "(if p \<noteq> Unknown then ret () else presence_poll n x i) s1 = (Inr u, s)"
    unfolding presence_poll.simps by (elim andthen_InrE)
  show ?case
  proof (cases "p = Unknown")
    case True
    with k Suc.IH show ?thesis by simp
  next
    case False
    with txPresenceD [OF p] show ?thesis by (auto split: sum.splits)
  qed
qed

lemma reader_txD: "reader_tx x i d = (Inr (Some m), s) \<Longrightarrow> \<exists>t j. x_tx x t i = Some j \<and> info_of j = Some m"
  by (auto simp: reader_tx_def await_def split: option.splits)

lemma currentChildD:
  assumes "currentChild x i n d = (Inr (Some c), s)" "cr_info c = Some m"
  shows "\<exists>t j. x_tx x t (cr_txid c) = Some j \<and> info_of j = Some m"
proof -
  have fin: "\<exists>t j. x_tx x t (cr_txid c) = Some j \<and> info_of j = Some m"
    if "(case sp of None \<Rightarrow> ret None | Some txid \<Rightarrow> andthen (reader_tx x txid) (\<lambda>info. ret (Some \<lparr>cr_txid = txid, cr_info = info\<rparr>))) s1
        = (Inr (Some c), s)" for sp s1
    using that assms(2) by (auto split: option.splits elim!: andthen_InrE dest!: reader_txD)
  from assms(1) show ?thesis
    unfolding currentChild_def
    by (elim andthen_InrE)
      (use assms(2) in \<open>auto split: option.splits if_splits elim!: andthen_InrE dest!: fin reader_txD\<close>)
qed

text \<open>Where the fuel comes from, and that no coin is counted twice.\<close>

abbreviation coin_key :: "fuel_coin \<Rightarrow> string \<times> nat" where
  "coin_key c \<equiv> (f_txid c, f_vout c)"

lemma pool_put_keys: "distinct (map coin_key pool) \<Longrightarrow> distinct (map coin_key (pool_put pool c))"
proof -
  have "map coin_key (map (\<lambda>p. if f_txid p = f_txid c \<and> f_vout p = f_vout c then c else p) pool) = map coin_key pool"
    by auto
  then show "distinct (map coin_key pool) \<Longrightarrow> distinct (map coin_key (pool_put pool c))"
    unfolding pool_put_def by (auto simp del: map_map)
qed

lemma pool_put_set: "set (pool_put pool c) \<subseteq> insert c (set pool)"
  by (auto simp: pool_put_def)

lemma pool_puts: "distinct (map coin_key pool) \<Longrightarrow> distinct (map coin_key (foldl pool_put pool cs))
    \<and> set (foldl pool_put pool cs) \<subseteq> set pool \<union> set cs"
proof (induction cs arbitrary: pool)
  case Nil
  then show ?case by simp
next
  case (Cons c cs)
  from Cons.IH [OF pool_put_keys [OF Cons.prems, of c]] pool_put_set [of pool c] show ?case by auto
qed

lemma fuelPoolD:
  assumes "fuelPool x old d = (Inr pool, s)"
  shows "\<exists>t cs. x_coins x t = Inr cs \<and> distinct (map coin_key pool)
    \<and> set pool \<subseteq> set (own_inputs x old) \<union> set (confirmed_coins cs)"
proof -
  from assms obtain cs where cs: "x_coins x (tick d) = Inr cs"
    and pool: "pool = js_sort by_value_desc (foldl pool_put (foldl pool_put [] (own_inputs x old)) (confirmed_coins cs))"
    unfolding fuelPool_def by (auto simp: await_def elim!: andthen_InrE)
  have "distinct (map coin_key []) " by simp
  from pool_puts [OF this, of "own_inputs x old"] have one: "distinct (map coin_key (foldl pool_put [] (own_inputs x old)))"
    "set (foldl pool_put [] (own_inputs x old)) \<subseteq> set (own_inputs x old)" by auto
  from pool_puts [OF one(1), of "confirmed_coins cs"] one(2)
  have "distinct (map coin_key (foldl pool_put (foldl pool_put [] (own_inputs x old)) (confirmed_coins cs)))"
    "set pool \<subseteq> set (own_inputs x old) \<union> set (confirmed_coins cs)" using pool by auto
  moreover have "distinct (map coin_key (js_sort by_value_desc ys)) = distinct (map coin_key ys)" for ys
    by (metis mset_js_sort mset_map mset_eq_imp_distinct_iff)
  ultimately show ?thesis using cs pool by blast
qed

lemma child_info_old:
  "child_info child = Some m \<Longrightarrow> \<not> child_confirmed child \<Longrightarrow> \<not> mi_confirmed m"
  by (auto simp: child_info_def child_confirmed_def split: option.splits)


subsection \<open>Replacing a sweep\<close>

lemma replaceableD:
  assumes "replaceable x i d = (Inr old, s)"
  shows "case old of None \<Rightarrow> (\<exists>t e. x_status x t i = Inl e)
    | Some m \<Rightarrow> \<not> mi_confirmed m \<and> (\<exists>t j. x_tx x t i = Some j \<and> info_of j = Some m)"
proof -
  from assms obtain r s1 where r: "reader_tx x i d = (Inr r, s1)"
    and k: "(case r of Some m \<Rightarrow> if mi_confirmed m then throw (Error ''already confirmed, nothing to boost'') else ret (Some m)
       | None \<Rightarrow> andthen (txPresence x i) (\<lambda>presence. case presence of
           Confirmed \<Rightarrow> throw (Error ''already confirmed, nothing to boost'')
         | Mempool \<Rightarrow> throw (Error ''its fee could not be read from esplora'')
         | Unknown \<Rightarrow> ret None)) s1 = (Inr old, s)"
    unfolding replaceable_def by (elim andthen_InrE)
  show ?thesis
  proof (cases r)
    case (Some m)
    with k have "old = Some m" "\<not> mi_confirmed m" by (auto split: if_splits)
    with reader_txD [OF r [unfolded Some]] show ?thesis by simp
  next
    case None
    with k obtain p s2 where p: "txPresence x i s1 = (Inr p, s2)" and "p = Unknown" "old = None"
      by (auto elim!: andthen_InrE split: presence.splits)
    with txPresenceD [OF p] show ?thesis by (auto split: sum.splits if_splits)
  qed
qed

text \<open>Marking a batch as swept touches the rows of the batch only.\<close>

lemma mark_swept_run:
  "\<exists>s. mark_swept x i dst outs d = (Inr (), s) \<and> vtxos s = vtxos d \<and> broadcasts s = broadcasts d \<and> tick s = tick d
     \<and> destRow s = destRow d
     \<and> (\<forall>t n. getExitOp s t n = (if (t, n) \<in> set outs
          then map_option (\<lambda>p. p\<lparr>o_state := Swept, o_error := None, o_sweepTxid := Some i, o_destAddress := Some dst,
                 o_updatedAt := x_now x (tick d)\<rparr>) (getExitOp d t n)
          else getExitOp d t n))"
proof (induction outs arbitrary: d)
  case Nil
  then show ?case by (simp add: mark_swept_def)
next
  case (Cons o1 outs)
  let ?f = "\<lambda>p. p\<lparr>o_state := Swept, o_error := None, o_sweepTxid := Some i, o_destAddress := Some dst,
                 o_updatedAt := x_now x (tick d)\<rparr>"
  let ?d1 = "setExitOpState (x_now x (tick d)) (fst o1) (snd o1) Swept (swept_extra i dst) d"
  have step: "set_op x (fst o1) (snd o1) Swept (swept_extra i dst) d = (Inr (), ?d1)"
    by (simp add: set_op_def now_s_def clock_ms_def)
  have same: "vtxos ?d1 = vtxos d" "broadcasts ?d1 = broadcasts d" "tick ?d1 = tick d" "destRow ?d1 = destRow d"
    by (simp_all add: setExitOpState_def)
  have op: "getExitOp ?d1 t n = (if (t, n) = o1 then map_option ?f (getExitOp d t n) else getExitOp d t n)" for t n
    by (cases o1) (simp add: getExitOp_def setExitOpState_def op_rows.row_get_update op_key_def
        swept_extra_def no_extra_def coalesce_def)
  from Cons.IH [of ?d1] obtain s where s: "mark_swept x i dst outs ?d1 = (Inr (), s)"
    "vtxos s = vtxos ?d1" "broadcasts s = broadcasts ?d1" "tick s = tick ?d1" "destRow s = destRow ?d1"
    "\<forall>t n. getExitOp s t n = (if (t, n) \<in> set outs then map_option (\<lambda>p. p\<lparr>o_state := Swept, o_error := None, o_sweepTxid := Some i, o_destAddress := Some dst,
                 o_updatedAt := x_now x (tick ?d1)\<rparr>) (getExitOp ?d1 t n) else getExitOp ?d1 t n)" by blast
  have "mark_swept x i dst (o1 # outs) d = (Inr (), s)"
    using s(1) step by (simp add: mark_swept_def)
  moreover have "getExitOp s t n = (if (t, n) \<in> set (o1 # outs) then map_option ?f (getExitOp d t n) else getExitOp d t n)" for t n
    using s(6) same op [of t n] by (cases "getExitOp d t n") auto
  ultimately show ?case using s(2-5) same by auto
qed

lemma note_broadcast_get:
  "note_broadcast x i txid vout h d = (Inr (), recordBroadcast (x_now x (tick d)) i txid vout h d)"
  "map_option b_tipHeight (getBroadcast (recordBroadcast now i txid vout h d) i) = Some h"
  by (auto simp: note_broadcast_def now_s_def clock_ms_def getBroadcast_def recordBroadcast_def
      broadcast_rows.row_get_upsert split: option.splits)

lemma batch_rows:
  assumes "p \<in> set (listOpsBySweepTxid d i)"
  shows "p \<in> set (ops d) \<and> o_sweepTxid p = Some i"
  using assms by (auto simp: listOpsBySweepTxid_def)

text \<open>Replacing a sweep. When it returns, the operation was swept by a known transaction that is
  not confirmed, or that the explorer no longer knew; every operation the old sweep settled is now
  swept by the new transaction, to one common destination; the new fee is at least the old fee plus
  one sat per vbyte when the old one could be read, the inputs are spendable vault entries whose value
  is conserved, the broadcast was accepted, and the height from which the wait is counted is carried
  over from the first broadcast.\<close>

theorem boost_sweep_sound:
  assumes "boostSweep x txid vout d = (Inr res, d')" and "vault_wf d"
  shows "\<exists>p (old :: mempool_info option) sweepTxid dst is t2. getExitOp d txid vout = Some p \<and> o_state p = Swept \<and> o_sweepTxid p = Some sweepTxid
      \<and> (case old of None \<Rightarrow> (\<exists>t e. x_status x t sweepTxid = Inl e)
          | Some m \<Rightarrow> \<not> mi_confirmed m \<and> mi_feeSat m + mi_vsize m + 1 \<le> sw_feeSat res)
      \<and> list_all2 (spendable_now x d) (map op_key (listOpsBySweepTxid d sweepTxid)) is
      \<and> sw_amountSat res + sw_feeSat res = (\<Sum>i \<leftarrow> is. v_valueSat (wi_vtxo i))
      \<and> x_broadcast x t2 [sw_hex res] = Inr ()
      \<and> (\<forall>q \<in> set (listOpsBySweepTxid d sweepTxid). \<exists>q'. getExitOp d' (o_txid q) (o_vout q) = Some q'
           \<and> o_state q' = Swept \<and> o_sweepTxid q' = Some (sw_txid res) \<and> o_destAddress q' = Some dst)
      \<and> (\<forall>b h. getBroadcast d sweepTxid = Some b \<and> b_tipHeight b = Some h \<longrightarrow>
           map_option b_tipHeight (getBroadcast d' (sw_txid res)) = Some (Some h))"
proof -
  from assms(1) obtain p sweepTxid where p: "getExitOp d txid vout = Some p" "o_state p = Swept" "o_sweepTxid p = Some sweepTxid"
    "sweepTxid \<noteq> []"
    unfolding boostSweep_def by (auto split: option.splits exit_op_state.splits if_splits)
  have key: "p \<in> set (ops d)" "op_key p = (txid, vout)"
    using op_rows.row_get_Some [of "(txid, vout)" "ops d" p] p(1) by (simp_all add: getExitOp_def)
  let ?batch = "listOpsBySweepTxid d sweepTxid"
  have mem: "p \<in> set ?batch" using key p(3) by (simp add: listOpsBySweepTxid_def)
  then have batch: "?batch \<noteq> []" by auto
  let ?dst = "sweep_dest x ?batch"
  from assms(1) p obtain old s1 where old: "replaceable x sweepTxid d = (Inr old, s1)"
    and run: "replace_sweep x sweepTxid txid vout (if listOpsBySweepTxid s1 sweepTxid \<noteq> [] then listOpsBySweepTxid s1 sweepTxid else [p]) old s1
      = (Inr res, d')"
    unfolding boostSweep_def by (auto elim!: andthen_InrE)
  note t1 = run_ticks [OF tck_replaceable old]
  from run batch have "replace_sweep x sweepTxid txid vout ?batch old s1 = (Inr res, d')"
    by (simp add: only_ticks_reads(4) [OF t1])
  then obtain s2 s3 s4 h s5 where
    build: "buildSweepTx x (map op_key ?batch) ?dst (map_option (\<lambda>m. rbfFloor (Some m) (mi_vsize m)) old) s1 = (Inr res, s2)"
    and bc: "x_broadcast x (tick s2) [sw_hex res] = Inr ()"
    and conf: "confirmInMempool x (sw_txid res) (s2\<lparr>tick := Suc (tick s2)\<rparr>) = (Inr (), s3)"
    and mark: "mark_swept x (sw_txid res) ?dst (map op_key ?batch) s3 = (Inr (), s4)"
    and height: "first_height x sweepTxid s4 = (Inr h, s5)"
    and d': "d' = recordBroadcast (x_now x (tick s5)) (sw_txid res) txid (int vout) h s5"
    unfolding replace_sweep_def by (auto elim!: andthen_InrE simp: await_def note_broadcast_get)
  note t2 = run_ticks [OF tck_buildSweep build]
  have t3: "only_ticks s2 s3"
    using run_ticks [OF tck_confirm conf] by (auto simp: only_ticks_def)
  have t13: "only_ticks d s3" using t1 t2 t3 by (blast intro: tck.R_trans)
  from mark_swept_run [of x "sw_txid res" ?dst "map op_key ?batch" s3] mark
  have s4: "broadcasts s4 = broadcasts s3" and ops4: "\<And>t n. getExitOp s4 t n = (if (t, n) \<in> set (map op_key ?batch)
          then map_option (\<lambda>p. p\<lparr>o_state := Swept, o_error := None, o_sweepTxid := Some (sw_txid res), o_destAddress := Some ?dst,
                 o_updatedAt := x_now x (tick s3)\<rparr>) (getExitOp s3 t n) else getExitOp s3 t n)" by auto
  have "moves only_ticks (first_height x sweepTxid)"
    unfolding first_height_def by (intro tck_rules tck_small)
  from run_ticks [OF this height] have t5: "only_ticks s4 s5" .
  then have ops5: "getExitOp d' t n = getExitOp s4 t n" for t n
    using only_ticks_reads(2) [OF t5] by (simp add: d' getExitOp_def recordBroadcast_def)
  have rows: "\<exists>q'. getExitOp d' (o_txid q) (o_vout q) = Some q' \<and> o_state q' = Swept \<and> o_sweepTxid q' = Some (sw_txid res)
      \<and> o_destAddress q' = Some ?dst" if q: "q \<in> set ?batch" for q
  proof -
    have "(o_txid q, o_vout q) \<in> set (map op_key ?batch)" using q by (force simp: op_key_def)
    moreover have "getExitOp d (o_txid q) (o_vout q) = Some q"
      using op_rows.row_get_in [of "ops d" q] batch_rows [OF q] assms(2) by (simp add: getExitOp_def vault_wf_def op_key_def)
    ultimately show ?thesis using ops5 ops4 only_ticks_reads(2) [OF t13] by simp
  qed
  have carry: "map_option b_tipHeight (getBroadcast d' (sw_txid res)) = Some (Some k)"
    if "getBroadcast d sweepTxid = Some b" "b_tipHeight b = Some k" for b k
  proof -
    have "getBroadcast s4 sweepTxid = Some b"
      using that(1) s4 only_ticksD(5) [OF t13] by (simp add: getBroadcast_def)
    with height that(2) have "h = Some k" by (simp add: first_height_def)
    then show ?thesis using note_broadcast_get(2) d' by simp
  qed
  from build_sweep_ok [OF build] obtain "is" where ok: "list_all2 (spendable_now x s1) (map op_key ?batch) is"
    "sw_amountSat res + sw_feeSat res = (\<Sum>i \<leftarrow> is. v_valueSat (wi_vtxo i))"
    "\<forall>m. map_option (\<lambda>m. rbfFloor (Some m) (mi_vsize m)) old = Some m \<longrightarrow> m \<le> sw_feeSat res" by blast
  have "spendable_now x s1 = spendable_now x d"
    by (simp add: fun_eq_iff spendable_now_def only_ticks_reads [OF t1])
  with ok(1) have ok1: "list_all2 (spendable_now x d) (map op_key ?batch) is" by simp
  have oldc: "case old of None \<Rightarrow> (\<exists>t e. x_status x t sweepTxid = Inl e)
      | Some m \<Rightarrow> \<not> mi_confirmed m \<and> mi_feeSat m + mi_vsize m + 1 \<le> sw_feeSat res"
    using replaceableD [OF old] ok(3) by (cases old) (auto simp: rbfFloor_def)
  show ?thesis
    apply (rule exI [of _ p], rule exI [of _ old], rule exI [of _ sweepTxid], rule exI [of _ ?dst], rule exI [of _ "is"],
        rule exI [of _ "tick s2"])
    apply (intro conjI p oldc ok1 ok(2) bc ballI rows allI impI)
     apply assumption
    apply (elim conjE, rule carry; assumption)
    done
qed

subsection \<open>The last send\<close>

text \<open>What a stored destination has been through: the address passed the check, and when it is marked
  verified a signature of the challenge on file was accepted for it; the challenge names it.\<close>

definition dest_ok :: "exit_world \<Rightarrow> db \<Rightarrow> bool" where
  "dest_ok x d \<longleftrightarrow> (\<forall>r. destRow d = Some r \<longrightarrow> x_checkDest x (e_address r) = None
     \<and> (\<exists>nonce. e_challenge r = ''arkade-bridge final send: sweep ALL exit funds to '' @ e_address r @ '' (nonce: '' @ nonce @ '')'')
     \<and> (e_verifiedAt r \<noteq> None \<longrightarrow> (\<exists>sig scheme. x_verifyDest x (e_address r) (e_challenge r) sig = Inr scheme)))"

lemma keeps_ticks: "moves only_ticks m \<Longrightarrow> keeps (dest_ok x) m"
  by (rule keepsI) (simp add: dest_ok_def only_ticksD(4) [OF movesD [where R = only_ticks]])

lemma keeps_markDestSent: "keeps (dest_ok x) (markDestSent x txid)"
  by (auto simp: keeps_def markDestSent_def now_s_def clock_ms_def dest_ok_def)

lemma keeps_note: "keeps (dest_ok x) (note_broadcast x i txid vout h)"
  by (simp add: keeps_def note_broadcast_get dest_ok_def recordBroadcast_def)

lemma tck_first_height: "moves only_ticks (first_height x i)"
  unfolding first_height_def by (intro tck_rules tck_small)

lemma tck_signAndBroadcast: "moves only_ticks (signAndBroadcast x n built)"
  unfolding signAndBroadcast_def by (intro tck_rules tck_confirm)

lemma tck_requireVerifiedDest: "moves only_ticks requireVerifiedDest"
  unfolding requireVerifiedDest_def by (intro tck_rules)

lemmas dest_rules = keeps_andthen keeps_ret keeps_throw keeps_lift keeps_if keeps_option
  keeps_markDestSent keeps_note keeps_ticks [OF tck.moves_reading] keeps_ticks [OF tck_await] keeps_ticks [OF tck.moves_guard]
  keeps_ticks [OF tck_small(1)] keeps_ticks [OF tck_small(2)] keeps_ticks [OF tck_small(3)] keeps_ticks [OF tck_small(4)]
  keeps_ticks [OF tck_signAndBroadcast] keeps_ticks [OF tck_first_height] keeps_ticks [OF tck_replaceable]
  keeps_ticks [OF tck_requireVerifiedDest]

text \<open>A destination is marked verified only by a valid signature for it. Whatever sequence of issuing
  a challenge, submitting signatures, clearing, sending and boosting: the stored address passes the
  address check, the stored challenge names that address, and if the row is marked verified the
  signature check accepted some signature of that challenge for that address.\<close>

theorem dest_verified_invariant:
  assumes "dest_ok x d"
  shows "dest_ok x (snd (issueDestChallenge x address d)) \<and> dest_ok x (snd (submitDestSignature x signature d))
    \<and> dest_ok x (snd (clearExitDest d)) \<and> dest_ok x (snd (finalSend x d)) \<and> dest_ok x (snd (boostFinalSend x d))"
proof (intro conjI)
  show "dest_ok x (snd (issueDestChallenge x address d))"
    using assms by (auto simp: issueDestChallenge_def now_s_def clock_ms_def dest_ok_def Let_def split: option.splits)
  show "dest_ok x (snd (submitDestSignature x signature d))"
    using assms by (auto simp: submitDestSignature_def now_s_def clock_ms_def dest_ok_def Let_def split: option.splits sum.splits)
  show "dest_ok x (snd (clearExitDest d))"
    by (simp add: clearExitDest_def dest_ok_def)
  have "keeps (dest_ok x) (finalSend x)" "keeps (dest_ok x) (boostFinalSend x)"
    unfolding finalSend_def boostFinalSend_def Let_def by (intro dest_rules)+
  then show "dest_ok x (snd (finalSend x d))" "dest_ok x (snd (boostFinalSend x d))"
    using assms by (auto dest: keepsD)
qed

lemma build_final_ok:
  assumes "build_final x coins address rate against = Inr (tx, amount, fee)"
  shows "tx = Final_tx coins address amount \<and> coins \<noteq> [] \<and> amount + fee = fuel_total coins \<and> 546 \<le> amount
    \<and> (\<exists>vsize. x_finalVb x (length coins) address = Inr vsize \<and> vsize * rate \<le> fee \<and> rbfFloor against vsize \<le> fee)"
  using assms by (auto simp: build_final_def final_amount_def Let_def DUST_SAT_def split: if_splits sum.splits)

lemma requireVerifiedD: "requireVerifiedDest d = (Inr r, s) \<Longrightarrow> s = d \<and> destRow d = Some r \<and> e_verifiedAt r \<noteq> None"
  by (auto simp: requireVerifiedDest_def split: option.splits if_splits)

lemma signAndBroadcastD:
  assumes "signAndBroadcast x n built d = (Inr res, s)"
  shows "\<exists>t1 t2 t3 st. x_sign x t1 (fst built) = Inr (fs_txid res, fs_hex res) \<and> x_broadcast x t2 [fs_hex res] = Inr ()
    \<and> x_status x t3 (fs_txid res) = Inr st \<and> fs_amountSat res = fst (snd built) \<and> fs_feeSat res = snd (snd built)"
proof -
  from assms obtain signed t2 s1 s2 where "x_sign x (tick d) (fst built) = Inr signed" "x_broadcast x t2 [snd signed] = Inr ()"
    "confirmInMempool x (fst signed) s1 = (Inr (), s2)"
    "res = \<lparr>fs_txid = fst signed, fs_hex = snd signed, fs_inputCount = n, fs_amountSat = fst (snd built), fs_feeSat = snd (snd built)\<rparr>"
    unfolding signAndBroadcast_def by (auto elim!: andthen_InrE simp: await_def)
  with presence_pollD [of 5 x "fst signed" s1] show ?thesis
    by (force simp: confirmInMempool_def)
qed


subsection \<open>Concrete runs\<close>

definition sample_exit :: exit_world where
  "sample_exit = \<lparr>x_now = (\<lambda>t. 100), x_probe = (\<lambda>t u. True),
     x_status = (\<lambda>t i. Inr \<lparr>os_confirmed = (i = ''aa''), os_at = \<lparr>bt_height = 0, bt_time = 0\<rparr>\<rparr>),
     x_tip = (\<lambda>t. Inr \<lparr>bt_height = 1000, bt_time = 100000\<rparr>), x_feeRate = (\<lambda>t. Inr (Some 5)),
     x_outspends = (\<lambda>t i. Inr [(True, Some ''ch'')]), x_broadcast = (\<lambda>t hs. Inr ()),
     x_tx = (\<lambda>t i. Some \<lparr>es_txid = Some i, es_fee = Some 300, es_weight = Some 400, es_confirmed = False,
        es_vin = [\<lparr>ei_txid = Some ''f1'', ei_vout = Some 0, ei_value = Some 5000, ei_script = Some ''fs''\<rparr>]\<rparr>),
     x_addressTxs = (\<lambda>t a. None),
     x_coins = (\<lambda>t. Inr [\<lparr>wc_coin = \<lparr>f_txid = ''f2'', f_vout = 0, f_valueSat = 9000\<rparr>, wc_confirmed = True\<rparr>]),
     x_providers = (\<lambda>t. Inr ()), x_fuelReady = True, x_wallet = (\<lambda>t. Inr ''w''), x_fuelAddress = ''w'',
     x_fuelScript = ''fs'', x_sign = (\<lambda>t tx. Inr (''id'', ''raw'')),
     x_exitPaths = (\<lambda>s. Inr [\<lparr>xp_type = Blocks, xp_need = 10, xp_script = ''sc''\<rparr>]),
     x_findLeaf = (\<lambda>s p. Some \<lparr>lf_leaf = ''lf'', lf_sequence = 10, lf_pkScript = ''pk''\<rparr>),
     x_finalize = (\<lambda>ty p. Inr \<lparr>pt_hex = ''pr'', pt_vsize = 200, pt_outputs = [''51024e73'']\<rparr>),
     x_childVb = (\<lambda>n. 100 + 58 * int n), x_sweepVb = (\<lambda>ls a. Inr 120), x_finalVb = (\<lambda>n a. Inr 110),
     x_checkDest = (\<lambda>a. None), x_verifyDest = (\<lambda>a c s. Inr ''legacy''), x_nonce = (\<lambda>t. ''n'')\<rparr>"

lemma sample_exit_simps [simp]:
  "x_now sample_exit = (\<lambda>t. 100)"
  "x_probe sample_exit = (\<lambda>t u. True)"
  "x_status sample_exit = (\<lambda>t i. Inr \<lparr>os_confirmed = (i = ''aa''), os_at = \<lparr>bt_height = 0, bt_time = 0\<rparr>\<rparr>)"
  "x_tip sample_exit = (\<lambda>t. Inr \<lparr>bt_height = 1000, bt_time = 100000\<rparr>)"
  "x_feeRate sample_exit = (\<lambda>t. Inr (Some 5))"
  "x_outspends sample_exit = (\<lambda>t i. Inr [(True, Some ''ch'')])"
  "x_broadcast sample_exit = (\<lambda>t hs. Inr ())"
  "x_tx sample_exit = (\<lambda>t i. Some \<lparr>es_txid = Some i, es_fee = Some 300, es_weight = Some 400, es_confirmed = False,
        es_vin = [\<lparr>ei_txid = Some ''f1'', ei_vout = Some 0, ei_value = Some 5000, ei_script = Some ''fs''\<rparr>]\<rparr>)"
  "x_coins sample_exit = (\<lambda>t. Inr [\<lparr>wc_coin = \<lparr>f_txid = ''f2'', f_vout = 0, f_valueSat = 9000\<rparr>, wc_confirmed = True\<rparr>])"
  "x_providers sample_exit = (\<lambda>t. Inr ())" "x_wallet sample_exit = (\<lambda>t. Inr ''w'')" "x_fuelAddress sample_exit = ''w''"
  "x_fuelScript sample_exit = ''fs''" "x_sign sample_exit = (\<lambda>t tx. Inr (''id'', ''raw''))"
  "x_exitPaths sample_exit = (\<lambda>s. Inr [\<lparr>xp_type = Blocks, xp_need = 10, xp_script = ''sc''\<rparr>])"
  "x_findLeaf sample_exit = (\<lambda>s p. Some \<lparr>lf_leaf = ''lf'', lf_sequence = 10, lf_pkScript = ''pk''\<rparr>)"
  "x_finalize sample_exit = (\<lambda>ty p. Inr \<lparr>pt_hex = ''pr'', pt_vsize = 200, pt_outputs = [''51024e73'']\<rparr>)"
  "x_childVb sample_exit = (\<lambda>n. 100 + 58 * int n)" "x_sweepVb sample_exit = (\<lambda>ls a. Inr 120)"
  "x_finalVb sample_exit = (\<lambda>n a. Inr 110)" "x_checkDest sample_exit = (\<lambda>a. None)"
  "x_verifyDest sample_exit = (\<lambda>a c s. Inr ''legacy'')" "x_nonce sample_exit = (\<lambda>t. ''n'')"
  by (simp_all add: sample_exit_def)

definition sample_vtxo :: vault_vtxo where
  "sample_vtxo = \<lparr>v_txid = ''aa'', v_vout = 0, v_valueSat = 2000, v_source = Wallet_source, v_script = [], v_tapTree = ''tt'',
     v_status = [], v_expiresAt = None, v_chain = [\<lparr>ct_txid = ''st'', ct_type = TREE, ct_spends = Some []\<rparr>],
     v_syncedAt = 0, v_quarantinedAt = None, v_quarantineReason = None\<rparr>"

definition sample_dest :: exit_dest where
  "sample_dest = \<lparr>e_address = ''ad'',
     e_challenge = ''arkade-bridge final send: sweep ALL exit funds to '' @ ''ad'' @ '' (nonce: '' @ ''n'' @ '')'',
     e_issuedAt = 0, e_verifiedAt = Some 1, e_scheme = Some ''legacy'', e_sendTxid = None, e_sentAt = None\<rparr>"

definition sample_exit_db :: db where
  "sample_exit_db = empty_db\<lparr>vtxos := [sample_vtxo], proofs := [\<lparr>p_txid = ''st'', p_type = TREE, p_psbt = ''ps''\<rparr>],
     ops := [\<lparr>o_txid = ''aa'', o_vout = 0, o_state = Swept, o_destAddress = Some ''d'', o_sweepTxid = Some ''sw'',
       o_error = None, o_createdAt = 0, o_updatedAt = 0\<rparr>], destRow := Some sample_dest\<rparr>"

lemmas run_simps = andthen_def await_def await_opt_def guard_eff_def now_s_def clock_ms_def txPresence_def nextBlockRate_def
  tipHeightOrNull_def confirmInMempool_def eval_nat_numeral reader_tx_def info_of_def input_of_def

lemma sample_input:
  "spendable_input = \<lparr>wi_vtxo = sample_vtxo, wi_leaf = \<lparr>lf_leaf = ''lf'', lf_sequence = 10, lf_pkScript = ''pk''\<rparr>\<rparr> \<Longrightarrow>
   vtxos d = [sample_vtxo] \<Longrightarrow> resolveInput sample_exit ''aa'' 0 d = (Inr spendable_input, d\<lparr>tick := tick d + 2\<rparr>)"
  by (simp add: resolveInput_def run_simps getVaultVtxo_def sample_vtxo_def vtxo_key_def availableExitPath_def
      csvPathStatuses_def csv_of_def)

lemma sample_build:
  assumes "vtxos d = [sample_vtxo]" and "minFee = None \<or> minFee = Some 401"
  shows "\<exists>n. buildSweepTx sample_exit [(''aa'', 0)] ''d'' minFee d
     = (Inr \<lparr>sw_txid = ''id'', sw_hex = ''raw'', sw_inputCount = 1, sw_amountSat = 1400, sw_feeSat = 600\<rparr>, d\<lparr>tick := n\<rparr>)"
proof (rule exI [of _ "tick d + 4"])
  let ?i = "\<lparr>wi_vtxo = sample_vtxo, wi_leaf = \<lparr>lf_leaf = ''lf'', lf_sequence = 10, lf_pkScript = ''pk''\<rparr>\<rparr>"
  have all: "resolve_all sample_exit [(''aa'', 0)] d = (Inr [?i], d\<lparr>tick := tick d + 2\<rparr>)"
    using sample_input [OF refl assms(1)] by simp
  have val: "v_valueSat sample_vtxo = 2000" by (simp add: sample_vtxo_def)
  have fee: "raise_to minFee 600 = 600" using assms(2) by (auto simp: raise_to_def)
  show "buildSweepTx sample_exit [(''aa'', 0)] ''d'' minFee d
     = (Inr \<lparr>sw_txid = ''id'', sw_hex = ''raw'', sw_inputCount = 1, sw_amountSat = 1400, sw_feeSat = 600\<rparr>, d\<lparr>tick := tick d + 4\<rparr>)"
    by (simp add: buildSweepTx_def Let_def andthen_def guard_eff_def all await_def rate_floor_def DUST_SAT_def val fee del: resolve_all.simps)
qed

theorem sweep_sound_witness:
  "\<exists>res s. buildSweepTx sample_exit [(''aa'', 0)] ''d'' None sample_exit_db = (Inr res, s)
     \<and> sw_amountSat res = 1400 \<and> s = sample_exit_db\<lparr>tick := tick s\<rparr>"
proof -
  obtain n where run: "buildSweepTx sample_exit [(''aa'', 0)] ''d'' None sample_exit_db
     = (Inr \<lparr>sw_txid = ''id'', sw_hex = ''raw'', sw_inputCount = 1, sw_amountSat = 1400, sw_feeSat = 600\<rparr>, sample_exit_db\<lparr>tick := n\<rparr>)"
    using sample_build [of sample_exit_db None] by (auto simp: sample_exit_db_def)
  from sweep_sound [OF run] run show ?thesis by auto
qed

theorem fee_rounds_converge_witness:
  "fee_rounds MAX_FEE_ITERATIONS sample_exit [\<lparr>f_txid = ''f2'', f_vout = 0, f_valueSat = 9000\<rparr>] 5 200 None 0
     \<noteq> Inl (Error ''boost fee estimation did not converge'')"
  by (rule fee_rounds_converge) (simp add: MAX_FEE_ITERATIONS_def)

lemma sample_proof_load: "loadProofTx sample_exit_db ''aa'' 0 ''st'' = Inr (TREE, ''ps'')"
  by (simp add: loadProofTx_def getVaultVtxo_def sample_exit_db_def sample_vtxo_def vtxo_key_def getProofPsbts_eq proof_of_def
      empty_db_def)

lemma sample_boost: "\<exists>res d'. boostStep sample_exit ''aa'' 0 ''st'' sample_exit_db = (Inr res, d')"
  by (simp add: boostStep_def sample_proof_load anchorIndexOf_def ANCHOR_SCRIPT_HEX_def run_simps currentChild_def anchor_spender_def
      child_confirmed_def child_info_def fuelPool_def own_inputs_def pool_put_def confirmed_coins_def by_value_desc_def
      MAX_FEE_ITERATIONS_def selectFuel_def child_fee_def rbfFloor_def TRUC_CHILD_MAX_VB_def DUST_SAT_def Let_def)


lemma sample_wf: "vault_wf sample_exit_db"
  by (simp add: vault_wf_def sample_exit_db_def empty_db_def)

lemma sample_boost_sweep: "\<exists>res d'. boostSweep sample_exit ''aa'' 0 sample_exit_db = (Inr res, d')"
proof -
  have op: "getExitOp sample_exit_db ''aa'' 0 = Some \<lparr>o_txid = ''aa'', o_vout = 0, o_state = Swept, o_destAddress = Some ''d'',
      o_sweepTxid = Some ''sw'', o_error = None, o_createdAt = 0, o_updatedAt = 0\<rparr>"
    by (simp add: getExitOp_def sample_exit_db_def op_key_def)
  have vt: "vtxos (sample_exit_db\<lparr>tick := n\<rparr>) = [sample_vtxo]" for n by (simp add: sample_exit_db_def)
  have rep: "replaceable sample_exit ''sw'' sample_exit_db = (Inr (Some \<lparr>mi_feeSat = 300, mi_vsize = 100, mi_confirmed = False,
      mi_inputs = [\<lparr>fi_coin = \<lparr>f_txid = ''f1'', f_vout = 0, f_valueSat = 5000\<rparr>, fi_scriptHex = ''fs''\<rparr>]\<rparr>), sample_exit_db\<lparr>tick := 1\<rparr>)"
    by (simp add: replaceable_def run_simps) (simp add: sample_exit_db_def empty_db_def)
  obtain n where b: "buildSweepTx sample_exit [(''aa'', 0)] ''d'' (Some 401) (sample_exit_db\<lparr>tick := 1\<rparr>)
     = (Inr \<lparr>sw_txid = ''id'', sw_hex = ''raw'', sw_inputCount = 1, sw_amountSat = 1400, sw_feeSat = 600\<rparr>, sample_exit_db\<lparr>tick := 1, tick := n\<rparr>)"
    using sample_build [OF vt [of 1], of "Some 401"] by auto
  have batch: "listOpsBySweepTxid (sample_exit_db\<lparr>tick := Suc 0\<rparr>) ''sw'' = [\<lparr>o_txid = ''aa'', o_vout = 0, o_state = Swept, o_destAddress = Some ''d'',
      o_sweepTxid = Some ''sw'', o_error = None, o_createdAt = 0, o_updatedAt = 0\<rparr>]"
    by (simp add: listOpsBySweepTxid_def sample_exit_db_def)
  have mark: "\<exists>s. mark_swept sample_exit i a outs d = (Inr (), s)" for i a outs d
    using mark_swept_run [of sample_exit i a outs d] by blast
  have tail: "\<exists>h s. first_height sample_exit i d = (Inr h, s)" for i d
    by (auto simp: first_height_def run_simps split: option.split)
  have conf: "confirmInMempool sample_exit ''id'' d = (Inr (), d\<lparr>tick := Suc (tick d)\<rparr>)" for d
    by (simp add: run_simps)
  have "\<exists>res d'. replace_sweep sample_exit ''sw'' ''aa'' 0 [\<lparr>o_txid = ''aa'', o_vout = 0, o_state = Swept, o_destAddress = Some ''d'',
      o_sweepTxid = Some ''sw'', o_error = None, o_createdAt = 0, o_updatedAt = 0\<rparr>] (Some \<lparr>mi_feeSat = 300, mi_vsize = 100, mi_confirmed = False,
      mi_inputs = [\<lparr>fi_coin = \<lparr>f_txid = ''f1'', f_vout = 0, f_valueSat = 5000\<rparr>, fi_scriptHex = ''fs''\<rparr>]\<rparr>) (sample_exit_db\<lparr>tick := 1\<rparr>) = (Inr res, d')"
  proof -
    obtain s2 where s2: "mark_swept sample_exit ''id'' ''d'' [(''aa'', 0)] (sample_exit_db\<lparr>tick := Suc (Suc n)\<rparr>) = (Inr (), s2)" using mark by blast
    obtain h s3 where s3: "first_height sample_exit ''sw'' s2 = (Inr h, s3)" using tail by blast
    show ?thesis
      using b s2 s3 by (simp add: replace_sweep_def op_key_def sweep_dest_def rbfFloor_def andthen_def await_def conf note_broadcast_get)
  qed
  then show ?thesis
    by (simp add: boostSweep_def op andthen_def [of "reading f" for f] andthen_def [of "replaceable x i" for x i] rep batch)
qed

theorem boost_sweep_sound_witness:
  "\<exists>res d' (old :: mempool_info option). boostSweep sample_exit ''aa'' 0 sample_exit_db = (Inr res, d')
     \<and> (\<exists>t2. x_broadcast sample_exit t2 [sw_hex res] = Inr ())
     \<and> getExitOp sample_exit_db ''aa'' 0 \<noteq> None"
proof -
  obtain res d' where run: "boostSweep sample_exit ''aa'' 0 sample_exit_db = (Inr res, d')"
    using sample_boost_sweep by blast
  from boost_sweep_sound [OF run sample_wf] run show ?thesis by auto
qed

lemma sample_dest_ok: "dest_ok sample_exit sample_exit_db"
  by (auto simp: dest_ok_def sample_exit_db_def sample_dest_def)

theorem dest_verified_invariant_witness:
  "dest_ok sample_exit sample_exit_db \<and> dest_ok sample_exit (snd (finalSend sample_exit sample_exit_db))"
  using dest_verified_invariant [OF sample_dest_ok] sample_dest_ok by blast

lemma sample_final: "\<exists>res d'. finalSend sample_exit sample_exit_db = (Inr res, d') \<and> fs_amountSat res = 8450"
  by (simp add: finalSend_def requireVerifiedDest_def sample_exit_db_def sample_dest_def sent_already_def run_simps
      confirmed_coins_def build_final_def final_amount_def rbfFloor_def DUST_SAT_def signAndBroadcast_def markDestSent_def
      note_broadcast_get Let_def)


end
