(* ===== verification/Exit_Engine.thy ===== *)
theory Exit_Engine
  imports Exit_Spend_Safety
begin

text \<open>
  The exit engine, \<open>src/exit/engine.ts\<close>. Its state is the store, the queue, the one run that is
  under way with the point it awaits at, the CSV checks started by the poll, the sweeps an operator
  has asked for, and the flags. A handler runs from one await to the next without interruption, so a
  step is one such segment: \<open>engine_do\<close> executes the segment an event enables, and the events carry
  the answers awaited (the session's next step, the explorer's status and tip, the result of a sweep)
  and the clock. \<open>e_log\<close> is a ghost: what the engine has been told, for stating why a row is in its
  state.
\<close>

subsection \<open>State\<close>

type_synonym op_ref = "string \<times> nat"

datatype check_pc = Ck_providers | Ck_status | Ck_tip block_time

record check =
  k_key :: op_ref
  k_tapTree :: string
  k_pc :: check_pc

datatype run_pc = Run_providers | Run_session | Run_tip string | Run_check check

record sweep_job =
  j_outs :: "op_ref list"
  j_dest :: string

datatype seen = Saw_status string onchain_status | Saw_tip block_time | Session_over op_ref | Sweep_accepted string "op_ref list"

record engine =
  e_db :: db
  e_queue :: "op_ref list"
  e_active :: "op_ref option"
  e_run :: "run_pc option"
  e_running :: bool
  e_checks :: "check list"
  e_sweeps :: "sweep_job list"
  e_stopped :: bool
  e_log :: "seen list"

definition new_engine :: "db \<Rightarrow> engine" where
  "new_engine d = \<lparr>e_db = d, e_queue = [], e_active = None, e_run = None, e_running = False, e_checks = [],
     e_sweeps = [], e_stopped = False, e_log = []\<rparr>"

definition put_op :: "int \<Rightarrow> op_ref \<Rightarrow> exit_op_state \<Rightarrow> op_extra \<Rightarrow> engine \<Rightarrow> engine" where
  "put_op now k st extra e = e\<lparr>e_db := setExitOpState now (fst k) (snd k) st extra (e_db e)\<rparr>"

definition log_seen :: "seen \<Rightarrow> engine \<Rightarrow> engine" where
  "log_seen s e = e\<lparr>e_log := e_log e @ [s]\<rparr>"

subsection \<open>The CSV check\<close>

definition begin_check :: "db \<Rightarrow> op_ref \<Rightarrow> check option" where
  "begin_check d k = map_option (\<lambda>v. \<lparr>k_key = k, k_tapTree = v_tapTree v, k_pc = Ck_providers\<rparr>)
     (getVaultVtxo d (fst k) (snd k))"

datatype check_answer = Ans_ok | Ans_status onchain_status | Ans_tip block_time | Ans_error string

datatype check_end = Goes_on check | Ended | Is_sweepable | Crashed string

fun answers :: "check_pc \<Rightarrow> check_answer \<Rightarrow> bool" where
  "answers pc (Ans_error m) = True"
| "answers Ck_providers Ans_ok = True"
| "answers Ck_status (Ans_status st) = True"
| "answers (Ck_tip since) (Ans_tip tip) = True"
| "answers pc ans = False"

fun check_next :: "exit_world \<Rightarrow> check \<Rightarrow> check_answer \<Rightarrow> check_end" where
  "check_next x c (Ans_error m) = Crashed m"
| "check_next x c Ans_ok = Goes_on (c\<lparr>k_pc := Ck_status\<rparr>)"
| "check_next x c (Ans_status st) = (if os_confirmed st then Goes_on (c\<lparr>k_pc := Ck_tip (os_at st)\<rparr>) else Ended)"
| "check_next x c (Ans_tip tip) = (case k_pc c of
     Ck_tip since \<Rightarrow> (case availableExitPath x (k_tapTree c) since tip of
         Inl e \<Rightarrow> Crashed ''undecodable tapTree'' | Inr None \<Rightarrow> Ended | Inr (Some path) \<Rightarrow> Is_sweepable)
   | _ \<Rightarrow> Ended)"

fun seen_of :: "check \<Rightarrow> check_answer \<Rightarrow> engine \<Rightarrow> engine" where
  "seen_of c (Ans_status st) e = log_seen (Saw_status (fst (k_key c)) st) e"
| "seen_of c (Ans_tip tip) e = log_seen (Saw_tip tip) e"
| "seen_of c ans e = e"

subsection \<open>The run\<close>

definition end_run :: "engine \<Rightarrow> engine" where
  "end_run e = e\<lparr>e_active := None, e_run := None\<rparr>"

definition fail_run :: "int \<Rightarrow> op_ref \<Rightarrow> string \<Rightarrow> engine \<Rightarrow> engine" where
  "fail_run now k msg e = end_run (put_op now k Op_failed (no_extra\<lparr>x_error := Some msg\<rparr>) e)"

definition begin_run :: "int \<Rightarrow> op_ref \<Rightarrow> engine \<Rightarrow> engine" where
  "begin_run now k e = (case getVaultVtxo (e_db e) (fst k) (snd k) of
     None \<Rightarrow> fail_run now k ''exit vault has no chain for this vtxo'' e
   | Some v \<Rightarrow> e\<lparr>e_active := Some k, e_run := Some Run_providers\<rparr>)"

datatype session_answer = Yield_unroll string | Yield_wait string | Yield_done | Session_end | Session_error string

text \<open>The end of a loop body: the row is marked unrolling, then the soft stop.\<close>

definition mark_unrolling :: "int \<Rightarrow> op_ref \<Rightarrow> engine \<Rightarrow> engine" where
  "mark_unrolling now k e = (let e' = put_op now k Unrolling no_extra e in
     if e_stopped e then end_run e' else e'\<lparr>e_run := Some Run_session\<rparr>)"

definition finish_session :: "int \<Rightarrow> op_ref \<Rightarrow> engine \<Rightarrow> engine" where
  "finish_session now k e = (let e' = put_op now k Waiting no_extra (log_seen (Session_over k) e) in
     case getExitOp (e_db e') (fst k) (snd k) of
       None \<Rightarrow> fail_run now k ''no exit op'' e'
     | Some p \<Rightarrow> (case begin_check (e_db e') k of None \<Rightarrow> end_run e' | Some c \<Rightarrow> e'\<lparr>e_run := Some (Run_check c)\<rparr>))"

fun run_session :: "int \<Rightarrow> op_ref \<Rightarrow> session_answer \<Rightarrow> engine \<Rightarrow> engine" where
  "run_session now k (Yield_unroll stepTxid) e = e\<lparr>e_run := Some (Run_tip stepTxid)\<rparr>"
| "run_session now k (Yield_wait stepTxid) e = mark_unrolling now k e"
| "run_session now k Yield_done e = mark_unrolling now k e"
| "run_session now k Session_end e = finish_session now k e"
| "run_session now k (Session_error msg) e = fail_run now k msg e"

definition run_tip :: "int \<Rightarrow> op_ref \<Rightarrow> string \<Rightarrow> int option \<Rightarrow> engine \<Rightarrow> engine" where
  "run_tip now k stepTxid height e =
     mark_unrolling now k (e\<lparr>e_db := recordBroadcast now stepTxid (fst k) (int (snd k)) height (e_db e)\<rparr>)"

definition run_inline :: "exit_world \<Rightarrow> int \<Rightarrow> op_ref \<Rightarrow> check \<Rightarrow> check_answer \<Rightarrow> engine \<Rightarrow> engine" where
  "run_inline x now k c ans e = (let e' = seen_of c ans e in case check_next x c ans of
     Goes_on c' \<Rightarrow> e'\<lparr>e_run := Some (Run_check c')\<rparr>
   | Ended \<Rightarrow> end_run e'
   | Is_sweepable \<Rightarrow> end_run (put_op now (k_key c) Sweepable no_extra e')
   | Crashed msg \<Rightarrow> fail_run now k msg e')"

subsection \<open>Queue and drain\<close>

text \<open>One turn of the drain loop.\<close>

definition loop_turn :: "int \<Rightarrow> engine \<Rightarrow> engine" where
  "loop_turn now e = (case e_queue e of
     [] \<Rightarrow> e\<lparr>e_running := False\<rparr>
   | k # rest \<Rightarrow> (if e_stopped e then e\<lparr>e_queue := rest, e_running := False\<rparr>
       else begin_run now k (e\<lparr>e_queue := rest\<rparr>)))"

definition drain :: "int \<Rightarrow> engine \<Rightarrow> engine" where
  "drain now e = (if e_running e \<or> e_stopped e then e else loop_turn now (e\<lparr>e_running := True\<rparr>))"

definition enqueue :: "int \<Rightarrow> op_ref \<Rightarrow> engine \<Rightarrow> engine" where
  "enqueue now k e = (if e_active e = Some k \<or> k \<in> set (e_queue e) then e
     else drain now (e\<lparr>e_queue := e_queue e @ [k]\<rparr>))"

subsection \<open>What the operator and the timer ask for\<close>

definition startExit :: "int \<Rightarrow> op_ref \<Rightarrow> engine \<Rightarrow> engine" where
  "startExit now k e = enqueue now k (e\<lparr>e_db := snd (createOrRestartExitOp now (fst k) (snd k) (e_db e))\<rparr>)"

definition waiting_checks :: "db \<Rightarrow> check list" where
  "waiting_checks d = concat (map (\<lambda>p. case begin_check d (op_key p) of None \<Rightarrow> [] | Some c \<Rightarrow> [c]) (listExitOps d [Waiting]))"

definition poll :: "engine \<Rightarrow> engine" where
  "poll e = (if e_stopped e then e else e\<lparr>e_checks := e_checks e @ waiting_checks (e_db e)\<rparr>)"

definition resume :: "int \<Rightarrow> engine \<Rightarrow> engine" where
  "resume now e =
     (let e' = foldl (\<lambda>e p. enqueue now (op_key p) e) e (listExitOps (e_db e) [Unrolling])
      in e'\<lparr>e_checks := e_checks e' @ waiting_checks (e_db e')\<rparr>)"

definition sweepable_now :: "db \<Rightarrow> op_ref \<Rightarrow> bool" where
  "sweepable_now d k = (map_option o_state (getExitOp d (fst k) (snd k)) = Some Sweepable)"

definition finish_sweep :: "int \<Rightarrow> sweep_job \<Rightarrow> string \<Rightarrow> int option \<Rightarrow> engine \<Rightarrow> engine" where
  "finish_sweep now j txid height e =
     foldl (\<lambda>e k. put_op now k Swept (swept_extra txid (j_dest j)) e)
       (log_seen (Sweep_accepted txid (j_outs j))
         (case j_outs j of [] \<Rightarrow> e
          | k # ks \<Rightarrow> e\<lparr>e_db := recordBroadcast now txid (fst k) (int (snd k)) height (e_db e)\<rparr>))
       (j_outs j)"

record exit_summary =
  y_total :: nat
  y_swept :: nat
  y_unresolved :: nat

definition exitSummary :: "db \<Rightarrow> exit_summary" where
  "exitSummary d =
     (let swept = js_set (map (\<lambda>p. outpoint_key (o_txid p) (o_vout p)) (listExitOps d [Swept]));
          unresolved = length (filter (\<lambda>v. outpoint_key (v_txid v) (v_vout v) \<notin> set swept) (listVaultVtxos d))
      in \<lparr>y_total = unresolved + length swept, y_swept = length swept, y_unresolved = unresolved\<rparr>)"

subsection \<open>Events and reachable states\<close>

datatype event =
    Ask_start op_ref
  | Turn
  | Providers "string option"
  | Session session_answer
  | Tip_answer "int option"
  | Inline_answer check_answer
  | Poll
  | Check_answer nat check_answer
  | Ask_sweep "op_ref list" string
  | Sweep_done nat string "int option"
  | Sweep_failed nat
  | Vault_changed "vault_vtxo list"
  | Stop

definition drop_nth :: "nat \<Rightarrow> 'a list \<Rightarrow> 'a list" where
  "drop_nth i xs = take i xs @ drop (Suc i) xs"

definition check_step :: "exit_world \<Rightarrow> int \<Rightarrow> nat \<Rightarrow> check_answer \<Rightarrow> engine \<Rightarrow> engine" where
  "check_step x now i ans e = (let c = e_checks e ! i; e' = seen_of c ans e in case check_next x c ans of
     Goes_on c' \<Rightarrow> e'\<lparr>e_checks := (e_checks e)[i := c']\<rparr>
   | Is_sweepable \<Rightarrow> put_op now (k_key c) Sweepable no_extra (e'\<lparr>e_checks := drop_nth i (e_checks e)\<rparr>)
   | _ \<Rightarrow> e'\<lparr>e_checks := drop_nth i (e_checks e)\<rparr>)"

text \<open>\<open>None\<close>: the event is not enabled.\<close>

fun engine_do :: "exit_world \<Rightarrow> int \<Rightarrow> event \<Rightarrow> engine \<Rightarrow> engine option" where
  "engine_do x now (Ask_start k) e = Some (startExit now k e)"
| "engine_do x now Turn e = (if e_running e \<and> e_run e = None then Some (loop_turn now e) else None)"
| "engine_do x now (Providers err) e = (case (e_run e, e_active e) of
     (Some Run_providers, Some k) \<Rightarrow> Some (case err of None \<Rightarrow> e\<lparr>e_run := Some Run_session\<rparr> | Some msg \<Rightarrow> fail_run now k msg e)
   | _ \<Rightarrow> None)"
| "engine_do x now (Session ans) e = (case (e_run e, e_active e) of
     (Some Run_session, Some k) \<Rightarrow> Some (run_session now k ans e) | _ \<Rightarrow> None)"
| "engine_do x now (Tip_answer h) e = (case (e_run e, e_active e) of
     (Some (Run_tip s), Some k) \<Rightarrow> Some (run_tip now k s h e) | _ \<Rightarrow> None)"
| "engine_do x now (Inline_answer ans) e = (case (e_run e, e_active e) of
     (Some (Run_check c), Some k) \<Rightarrow> if answers (k_pc c) ans then Some (run_inline x now k c ans e) else None | _ \<Rightarrow> None)"
| "engine_do x now Poll e = Some (poll e)"
| "engine_do x now (Check_answer i ans) e =
     (if i < length (e_checks e) \<and> answers (k_pc (e_checks e ! i)) ans then Some (check_step x now i ans e) else None)"
| "engine_do x now (Ask_sweep outs dst) e =
     (if outs \<noteq> [] \<and> (\<forall>k \<in> set outs. sweepable_now (e_db e) k)
      then Some (e\<lparr>e_sweeps := e_sweeps e @ [\<lparr>j_outs = outs, j_dest = dst\<rparr>]\<rparr>) else Some e)"
| "engine_do x now (Sweep_done i txid h) e =
     (if i < length (e_sweeps e) then Some (finish_sweep now (e_sweeps e ! i) txid h (e\<lparr>e_sweeps := drop_nth i (e_sweeps e)\<rparr>)) else None)"
| "engine_do x now (Sweep_failed i) e =
     (if i < length (e_sweeps e) then Some (e\<lparr>e_sweeps := drop_nth i (e_sweeps e)\<rparr>) else None)"
| "engine_do x now (Vault_changed vs) e = Some (e\<lparr>e_db := (e_db e)\<lparr>vtxos := vs\<rparr>\<rparr>)"
| "engine_do x now Stop e = Some (e\<lparr>e_stopped := True\<rparr>)"

text \<open>The states an engine booted on a store reaches by events that \<open>ok\<close> admits.\<close>

inductive reach :: "exit_world \<Rightarrow> (engine \<Rightarrow> event \<Rightarrow> bool) \<Rightarrow> db \<Rightarrow> engine \<Rightarrow> bool"
  for x :: exit_world and ok :: "engine \<Rightarrow> event \<Rightarrow> bool" and d :: db where
  boot: "reach x ok d (resume now (new_engine d))"
| act: "reach x ok d e \<Longrightarrow> ok e ev \<Longrightarrow> engine_do x now ev e = Some e' \<Longrightarrow> reach x ok d e'"

end
