(* ===== verification/Engine_Safety.thy ===== *)
theory Engine_Safety
  imports Exit_Engine
begin

text \<open>
  Invariants of the exit engine over every interleaving of its segments: one run at a time and no
  queued exit forgotten, no exit left marked unrolling with nothing driving it (as long as nobody
  restarts an exit in its last check), and every state a row is in backed by what the engine was
  told; and three interleavings that break what the code means to do.
\<close>

declare split_paired_All [simp del] split_paired_Ex [simp del]

subsection \<open>The queue\<close>

definition queue_pre :: "engine \<Rightarrow> bool" where
  "queue_pre e \<longleftrightarrow> distinct (e_queue e) \<and> (\<forall>k. e_active e = Some k \<longrightarrow> k \<notin> set (e_queue e))
     \<and> (e_run e = None \<longleftrightarrow> e_active e = None) \<and> (e_run e \<noteq> None \<longrightarrow> e_running e)"

definition queue_ok :: "engine \<Rightarrow> bool" where
  "queue_ok e \<longleftrightarrow> queue_pre e \<and> (e_queue e \<noteq> [] \<and> \<not> e_stopped e \<longrightarrow> e_running e)"

lemma put_op_simps [simp]:
  "e_queue (put_op now k st x e) = e_queue e" "e_active (put_op now k st x e) = e_active e" "e_run (put_op now k st x e) = e_run e"
  "e_running (put_op now k st x e) = e_running e" "e_stopped (put_op now k st x e) = e_stopped e"
  "e_checks (put_op now k st x e) = e_checks e" "e_sweeps (put_op now k st x e) = e_sweeps e" "e_log (put_op now k st x e) = e_log e"
  by (simp_all add: put_op_def)

lemma log_seen_simps [simp]:
  "e_queue (log_seen s e) = e_queue e" "e_active (log_seen s e) = e_active e" "e_run (log_seen s e) = e_run e"
  "e_running (log_seen s e) = e_running e" "e_stopped (log_seen s e) = e_stopped e" "e_checks (log_seen s e) = e_checks e"
  "e_sweeps (log_seen s e) = e_sweeps e" "e_db (log_seen s e) = e_db e" "e_log (log_seen s e) = e_log e @ [s]"
  by (simp_all add: log_seen_def)

lemma seen_of_simps [simp]:
  "e_queue (seen_of c ans e) = e_queue e" "e_active (seen_of c ans e) = e_active e" "e_run (seen_of c ans e) = e_run e"
  "e_running (seen_of c ans e) = e_running e" "e_stopped (seen_of c ans e) = e_stopped e" "e_checks (seen_of c ans e) = e_checks e"
  "e_db (seen_of c ans e) = e_db e" "e_sweeps (seen_of c ans e) = e_sweeps e"
  by (cases ans; simp)+

lemma end_run_simps [simp]:
  "e_queue (end_run e) = e_queue e" "e_active (end_run e) = None" "e_run (end_run e) = None" "e_running (end_run e) = e_running e"
  "e_stopped (end_run e) = e_stopped e" "e_checks (end_run e) = e_checks e" "e_db (end_run e) = e_db e" "e_log (end_run e) = e_log e"
  by (simp_all add: end_run_def)

lemma fail_run_simps [simp]:
  "e_queue (fail_run now k m e) = e_queue e" "e_active (fail_run now k m e) = None" "e_run (fail_run now k m e) = None"
  "e_running (fail_run now k m e) = e_running e" "e_stopped (fail_run now k m e) = e_stopped e"
  "e_checks (fail_run now k m e) = e_checks e" "e_log (fail_run now k m e) = e_log e"
  by (simp_all add: fail_run_def)

lemma finish_sweep_simps [simp]:
  "e_queue (finish_sweep now j t h e) = e_queue e" "e_active (finish_sweep now j t h e) = e_active e"
  "e_run (finish_sweep now j t h e) = e_run e" "e_running (finish_sweep now j t h e) = e_running e"
  "e_stopped (finish_sweep now j t h e) = e_stopped e" "e_checks (finish_sweep now j t h e) = e_checks e"
proof -
  have f: "e_queue (foldl (\<lambda>e k. put_op now k st x e) e0 ks) = e_queue e0 \<and> e_active (foldl (\<lambda>e k. put_op now k st x e) e0 ks) = e_active e0
    \<and> e_run (foldl (\<lambda>e k. put_op now k st x e) e0 ks) = e_run e0 \<and> e_running (foldl (\<lambda>e k. put_op now k st x e) e0 ks) = e_running e0
    \<and> e_stopped (foldl (\<lambda>e k. put_op now k st x e) e0 ks) = e_stopped e0 \<and> e_checks (foldl (\<lambda>e k. put_op now k st x e) e0 ks) = e_checks e0"
    for st x e0 ks by (induction ks arbitrary: e0) simp_all
  show "e_queue (finish_sweep now j t h e) = e_queue e" "e_active (finish_sweep now j t h e) = e_active e"
    "e_run (finish_sweep now j t h e) = e_run e" "e_running (finish_sweep now j t h e) = e_running e"
    "e_stopped (finish_sweep now j t h e) = e_stopped e" "e_checks (finish_sweep now j t h e) = e_checks e"
    by (simp_all add: finish_sweep_def f split: list.split)
qed

lemma begin_run_queue:
  "queue_pre e \<Longrightarrow> e_run e = None \<Longrightarrow> e_running e \<Longrightarrow> k \<notin> set (e_queue e) \<Longrightarrow> queue_ok (begin_run now k e)"
  by (auto simp: begin_run_def queue_ok_def queue_pre_def split: option.split)

lemma loop_turn_queue: "queue_pre e \<Longrightarrow> e_run e = None \<Longrightarrow> e_running e \<Longrightarrow> queue_ok (loop_turn now e)"
proof (cases "e_queue e")
  case (Cons k rest)
  assume "queue_pre e" "e_run e = None" "e_running e"
  with Cons show ?thesis
    by (auto simp: loop_turn_def intro!: begin_run_queue) (auto simp: queue_pre_def queue_ok_def)
qed (auto simp: loop_turn_def queue_ok_def queue_pre_def)

lemma drain_queue: "queue_pre e \<Longrightarrow> queue_ok (drain now e)"
  unfolding drain_def
  by (auto simp: queue_ok_def intro!: loop_turn_queue [unfolded queue_ok_def, THEN conjunct1] loop_turn_queue [unfolded queue_ok_def, THEN conjunct2, rule_format])
    (auto simp: queue_pre_def)

lemma enqueue_queue: "queue_ok e \<Longrightarrow> queue_ok (enqueue now k e)"
proof -
  assume e: "queue_ok e"
  have "queue_pre (e\<lparr>e_queue := e_queue e @ [k]\<rparr>)" if "\<not> (e_active e = Some k \<or> k \<in> set (e_queue e))"
    using e that by (auto simp: queue_ok_def queue_pre_def)
  with e show ?thesis by (simp add: enqueue_def drain_queue)
qed

lemma queue_db: "queue_ok (e\<lparr>e_db := d\<rparr>) = queue_ok e" "queue_ok (e\<lparr>e_checks := cs\<rparr>) = queue_ok e"
    "queue_ok (e\<lparr>e_sweeps := js\<rparr>) = queue_ok e"
  by (simp_all add: queue_ok_def queue_pre_def)

lemma resume_queue: "queue_ok e \<Longrightarrow> queue_ok (resume now e)"
proof -
  have "queue_ok e \<Longrightarrow> queue_ok (foldl (\<lambda>e p. enqueue now (op_key p) e) e ps)" for e ps
    by (induction ps arbitrary: e) (auto intro: enqueue_queue)
  then show "queue_ok e \<Longrightarrow> queue_ok (resume now e)" by (simp add: resume_def Let_def queue_db)
qed

lemma mark_unrolling_queue: "queue_ok e \<Longrightarrow> e_run e \<noteq> None \<Longrightarrow> queue_ok (mark_unrolling now k e)"
  by (auto simp: mark_unrolling_def Let_def queue_ok_def queue_pre_def)

lemma step_queue:
  assumes "queue_ok e" "engine_do x now ev e = Some e'"
  shows "queue_ok e'"
proof (cases ev)
  case (Ask_start k)
  with assms show ?thesis by (auto simp: startExit_def queue_db intro!: enqueue_queue)
next
  case Turn
  with assms show ?thesis by (auto simp: queue_ok_def split: if_splits dest: loop_turn_queue)
next
  case (Providers err)
  with assms show ?thesis
    by (auto simp: queue_ok_def queue_pre_def split: option.splits run_pc.splits)
next
  case (Session ans)
  with assms show ?thesis
    by (cases ans) (auto simp: finish_session_def Let_def queue_ok_def queue_pre_def mark_unrolling_def split: option.splits run_pc.splits if_splits)
next
  case (Tip_answer h)
  with assms show ?thesis
    by (auto simp: run_tip_def queue_db intro!: mark_unrolling_queue split: option.splits run_pc.splits)
next
  case (Inline_answer ans)
  with assms show ?thesis
    by (auto simp: run_inline_def Let_def queue_ok_def queue_pre_def split: option.splits run_pc.splits if_splits check_end.splits)
next
  case Poll
  with assms show ?thesis by (auto simp: poll_def queue_db)
next
  case (Check_answer i ans)
  with assms show ?thesis
    by (auto simp: check_step_def Let_def queue_ok_def queue_pre_def split: if_splits check_end.splits)
next
  case (Sweep_done i txid h)
  with assms show ?thesis by (auto simp: queue_ok_def queue_pre_def split: if_splits)
qed (use assms in \<open>auto simp: queue_ok_def queue_pre_def split: if_splits\<close>)

lemma reach_queue: "reach x ok d e \<Longrightarrow> queue_ok e"
proof (induction rule: reach.induct)
  case (boot now)
  have "queue_ok (new_engine d)" by (simp add: new_engine_def queue_ok_def queue_pre_def)
  then show ?case by (rule resume_queue)
qed (blast intro: step_queue)

text \<open>One exit at a time, and none forgotten in the queue. In every state the engine reaches, the
  queue holds each exit once and never the one that is running, at most one run is under way, and
  while the engine has not been stopped a waiting queue is being drained.\<close>

theorem engine_queue_discipline:
  assumes "reach x ok d e"
  shows "distinct (e_queue e) \<and> (\<forall>k. e_active e = Some k \<longrightarrow> k \<notin> set (e_queue e))
    \<and> (e_run e \<noteq> None \<longleftrightarrow> e_active e \<noteq> None) \<and> (e_run e \<noteq> None \<longrightarrow> e_running e)
    \<and> (e_queue e \<noteq> [] \<longrightarrow> e_running e \<or> e_stopped e)"
  using reach_queue [OF assms] by (auto simp: queue_ok_def queue_pre_def)

subsection \<open>No exit is stranded\<close>

definition op_state :: "engine \<Rightarrow> op_ref \<Rightarrow> exit_op_state option" where
  "op_state e k = map_option o_state (getExitOp (e_db e) (fst k) (snd k))"

definition covered :: "engine \<Rightarrow> op_ref \<Rightarrow> bool" where
  "covered e k \<longleftrightarrow> e_active e = Some k \<or> k \<in> set (e_queue e)"

text \<open>On the keys of a set, an exit marked unrolling is running or queued.\<close>

definition driven :: "op_ref set \<Rightarrow> engine \<Rightarrow> bool" where
  "driven K e \<longleftrightarrow> e_stopped e \<or> (\<forall>k \<in> K. op_state e k = Some Unrolling \<longrightarrow> covered e k)"

definition last_check_ok :: "engine \<Rightarrow> bool" where
  "last_check_ok e \<longleftrightarrow> (\<forall>c k. e_run e = Some (Run_check c) \<and> e_active e = Some k \<and> \<not> e_stopped e \<longrightarrow>
     k_key c = k \<and> op_state e k \<noteq> Some Unrolling)"

lemma op_state_put:
  "op_state (put_op now k st x e) j = (if j = k then map_option (\<lambda>s. st) (op_state e k) else op_state e j)"
  by (auto simp: op_state_def put_op_def setExitOpState_def getExitOp_def op_rows.row_get_update op_key_def option.map_comp comp_def
      prod_eq_iff)

lemma op_state_same: "ops (e_db e') = ops (e_db e) \<Longrightarrow> op_state e' k = op_state e k"
  by (simp add: op_state_def getExitOp_def)

lemma op_state_simps [simp]:
  "op_state (log_seen s e) k = op_state e k" "op_state (seen_of c ans e) k = op_state e k" "op_state (end_run e) k = op_state e k"
  "op_state (e\<lparr>e_queue := q\<rparr>) k = op_state e k" "op_state (e\<lparr>e_active := a\<rparr>) k = op_state e k"
  "op_state (e\<lparr>e_run := r\<rparr>) k = op_state e k" "op_state (e\<lparr>e_running := b\<rparr>) k = op_state e k"
  "op_state (e\<lparr>e_checks := cs\<rparr>) k = op_state e k" "op_state (e\<lparr>e_sweeps := js\<rparr>) k = op_state e k"
  "op_state (e\<lparr>e_stopped := b\<rparr>) k = op_state e k"
  by (rule op_state_same, simp)+

lemma op_state_fail: "op_state (fail_run now k m e) j = (if j = k then map_option (\<lambda>s. Op_failed) (op_state e k) else op_state e j)"
  by (simp add: fail_run_def op_state_put)

lemma begin_run_op: "op_state (begin_run now k e) j = Some Unrolling \<Longrightarrow> op_state e j = Some Unrolling"
  by (auto simp: begin_run_def op_state_fail split: option.splits if_splits)

lemma begin_run_driven:
  assumes "driven K e" "e_active e = None"
  shows "driven (insert k K) (begin_run now k e)"
  using assms by (auto simp: begin_run_def driven_def op_state_fail covered_def split: option.split)

lemma loop_turn_driven:
  assumes "\<forall>k \<in> K. op_state e k = Some Unrolling \<longrightarrow> covered e k" "e_active e = None"
  shows "driven K (loop_turn now e)"
proof (cases "e_queue e")
  case Nil
  with assms show ?thesis by (auto simp: loop_turn_def driven_def covered_def)
next
  case (Cons k rest)
  have "driven (K - {k}) (e\<lparr>e_queue := rest\<rparr>)" if "\<not> e_stopped e"
    using assms Cons by (auto simp: driven_def covered_def)
  from begin_run_driven [OF this, of k now] assms(2) Cons show ?thesis
    by (cases "e_stopped e") (auto simp: loop_turn_def driven_def)
qed

lemma drain_driven:
  assumes "\<forall>k \<in> K. op_state e k = Some Unrolling \<longrightarrow> covered e k" "queue_pre e"
  shows "driven K (drain now e)"
proof -
  have "\<forall>k \<in> K. op_state (e\<lparr>e_running := True\<rparr>) k = Some Unrolling \<longrightarrow> covered (e\<lparr>e_running := True\<rparr>) k"
    using assms(1) by (simp add: covered_def)
  from loop_turn_driven [OF this, of now] assms show ?thesis
    by (auto simp: drain_def driven_def queue_pre_def)
qed

lemma enqueue_driven:
  assumes "driven K e" "queue_ok e"
  shows "driven (insert k K) (enqueue now k e)"
proof (cases "e_stopped e")
  case True
  then show ?thesis by (simp add: enqueue_def drain_def driven_def)
next
  case False
  show ?thesis
  proof (cases "e_active e = Some k \<or> k \<in> set (e_queue e)")
    case True
    with assms(1) show ?thesis by (auto simp: enqueue_def driven_def covered_def)
  next
    case new: False
    let ?e = "e\<lparr>e_queue := e_queue e @ [k]\<rparr>"
    have "\<forall>j \<in> insert k K. op_state ?e j = Some Unrolling \<longrightarrow> covered ?e j"
      using assms(1) False by (auto simp: driven_def covered_def)
    moreover have "queue_pre ?e" using assms(2) new by (auto simp: queue_ok_def queue_pre_def)
    ultimately have "driven (insert k K) (drain now ?e)" by (rule drain_driven)
    with new show ?thesis by (simp add: enqueue_def)
  qed
qed

lemma enqueue_op: "op_state (enqueue now k e) j = Some Unrolling \<Longrightarrow> op_state e j = Some Unrolling"
  by (auto simp: enqueue_def drain_def loop_turn_def split: if_splits list.splits dest!: begin_run_op)

lemma enqueue_stopped: "e_stopped (enqueue now k e) = e_stopped e"
  by (auto simp: enqueue_def drain_def loop_turn_def begin_run_def split: list.split option.split)

lemma resume_driven:
  assumes "queue_ok e"
  shows "driven UNIV (resume now e)"
proof -
  let ?go = "foldl (\<lambda>e p. enqueue now (op_key p) e)"
  have fold: "driven (K \<union> set (map op_key ps)) (?go e ps) \<and> (\<forall>j. op_state (?go e ps) j = Some Unrolling \<longrightarrow> op_state e j = Some Unrolling)"
    if "driven K e" "queue_ok e" for K e ps
    using that
  proof (induction ps arbitrary: K e)
    case Nil
    then show ?case by simp
  next
    case (Cons p ps)
    from Cons.IH [OF enqueue_driven [OF Cons.prems] enqueue_queue [OF Cons.prems(2)], of "op_key p" now]
    show ?case using enqueue_op [of now "op_key p" e] by (auto simp: insert_commute)
  qed
  let ?ps = "listExitOps (e_db e) [Unrolling]"
  have f: "driven (set (map op_key ?ps)) (?go e ?ps)"
    "\<And>j. op_state (?go e ?ps) j = Some Unrolling \<Longrightarrow> op_state e j = Some Unrolling"
    using fold [of "{}" e ?ps] assms by (auto simp: driven_def)
  have "j \<in> set (map op_key ?ps)" if "op_state e j = Some Unrolling" for j
  proof -
    from that obtain p where p: "getExitOp (e_db e) (fst j) (snd j) = Some p" "o_state p = Unrolling"
      by (auto simp: op_state_def)
    then have "p \<in> set (ops (e_db e))" "op_key p = j"
      using op_rows.row_get_Some [of j "ops (e_db e)" p] by (simp_all add: getExitOp_def)
    with p(2) show ?thesis by (force simp: listExitOps_def)
  qed
  with f(2) have sub: "\<And>j. op_state (?go e ?ps) j = Some Unrolling \<Longrightarrow> j \<in> set (map op_key ?ps)" by blast
  have "driven UNIV (?go e ?ps)"
  proof (cases "e_stopped (?go e ?ps)")
    case True
    then show ?thesis by (simp add: driven_def)
  next
    case False
    with f(1) have "covered (?go e ?ps) j" if "op_state (?go e ?ps) j = Some Unrolling" for j
      using sub [OF that] that unfolding driven_def by blast
    then show ?thesis unfolding driven_def by blast
  qed
  then show ?thesis by (simp add: resume_def Let_def driven_def covered_def)
qed

lemma startExit_op: "op_state (e\<lparr>e_db := snd (createOrRestartExitOp now (fst k) (snd k) (e_db e))\<rparr>) j
    = (if j = k then Some Unrolling else op_state e j)"
  by (auto simp: op_state_def createOrRestartExitOp_def Let_def getExitOp_def op_rows.row_get_upsert op_key_def prod_eq_iff
      split: option.split)

lemma startExit_driven:
  assumes "driven UNIV e" "queue_ok e"
  shows "driven UNIV (startExit now k e)"
proof -
  let ?e = "e\<lparr>e_db := snd (createOrRestartExitOp now (fst k) (snd k) (e_db e))\<rparr>"
  have "driven (UNIV - {k}) ?e" using assms(1) by (auto simp: driven_def startExit_op covered_def)
  from enqueue_driven [OF this, where now = now and k = k] assms(2) show ?thesis
    by (simp add: startExit_def queue_db)
qed

text \<open>The last check is never the active exit's own restart.\<close>

definition no_late_restart :: "engine \<Rightarrow> event \<Rightarrow> bool" where
  "no_late_restart e ev \<longleftrightarrow> (\<forall>k c. ev = Ask_start k \<longrightarrow> \<not> (e_active e = Some k \<and> e_run e = Some (Run_check c)))"

lemma enqueue_run: "e_run (enqueue now k e) = e_run e \<or> e_run (enqueue now k e) \<in> {None, Some Run_providers}"
  by (auto simp: enqueue_def drain_def loop_turn_def begin_run_def split: list.split option.split)

lemma enqueue_keeps_check:
  "queue_ok e \<Longrightarrow> e_run e = Some r \<Longrightarrow> e_run (enqueue now k e) = Some r \<and> e_active (enqueue now k e) = e_active e
     \<and> (\<forall>j. op_state (enqueue now k e) j = op_state e j)"
  by (auto simp: enqueue_def drain_def queue_ok_def queue_pre_def)

lemma driven_put:
  "driven K e \<Longrightarrow> st \<noteq> Unrolling \<Longrightarrow> driven K (put_op now k st x e)"
  by (auto simp: driven_def op_state_put covered_def)

lemma driven_foldl_put: "driven K e \<Longrightarrow> st \<noteq> Unrolling \<Longrightarrow> driven K (foldl (\<lambda>e k. put_op now k st x e) e ks)"
  by (induction ks arbitrary: e) (auto intro: driven_put)

lemma op_state_foldl_put:
  assumes "st \<noteq> Unrolling"
  shows "op_state (foldl (\<lambda>e k. put_op now k st x e) e ks) j = Some Unrolling \<Longrightarrow> op_state e j = Some Unrolling"
proof (induction ks arbitrary: e)
  case (Cons k ks)
  then have "op_state (put_op now k st x e) j = Some Unrolling" by simp
  with assms show ?case by (auto simp: op_state_put split: if_splits)
qed simp

lemma finish_sweep_op: "op_state (finish_sweep now j t h e) k = Some Unrolling \<Longrightarrow> op_state e k = Some Unrolling"
proof -
  let ?e = "log_seen (Sweep_accepted t (j_outs j)) (case j_outs j of [] \<Rightarrow> e
     | k # ks \<Rightarrow> e\<lparr>e_db := recordBroadcast now t (fst k) (int (snd k)) h (e_db e)\<rparr>)"
  assume "op_state (finish_sweep now j t h e) k = Some Unrolling"
  from op_state_foldl_put [OF _ this [unfolded finish_sweep_def]] have "op_state ?e k = Some Unrolling" by simp
  moreover have "op_state ?e k = op_state e k"
    by (cases "j_outs j") (simp_all add: op_state_def recordBroadcast_def getExitOp_def)
  ultimately show ?thesis by simp
qed

definition strand_free :: "engine \<Rightarrow> bool" where
  "strand_free e \<longleftrightarrow> driven UNIV e \<and> last_check_ok e"

text \<open>A step that leaves queue, run and flags alone and marks nothing unrolling.\<close>

lemma strand_free_aside:
  assumes "strand_free e" "e_queue e' = e_queue e" "e_active e' = e_active e" "e_run e' = e_run e" "e_stopped e' = e_stopped e"
    and "\<And>k. op_state e' k = Some Unrolling \<Longrightarrow> op_state e k = Some Unrolling"
  shows "strand_free e'"
proof -
  have "\<forall>k. op_state e' k = Some Unrolling \<longrightarrow> op_state e k = Some Unrolling" using assms(6) by blast
  with assms(1-5) show ?thesis
    unfolding strand_free_def driven_def last_check_ok_def covered_def by simp blast
qed

lemma fail_run_free:
  assumes "strand_free e" "e_active e = Some k"
  shows "strand_free (fail_run now k m e)"
  using assms by (auto simp: strand_free_def driven_def last_check_ok_def covered_def op_state_fail split: if_splits)

lemma mark_unrolling_free:
  assumes "strand_free e" "e_active e = Some k"
  shows "strand_free (mark_unrolling now k e)"
  using assms by (auto simp: mark_unrolling_def Let_def strand_free_def driven_def last_check_ok_def covered_def op_state_put split: if_splits)

lemma begin_check_key: "begin_check d k = Some c \<Longrightarrow> k_key c = k"
  by (auto simp: begin_check_def)

lemma finish_session_free:
  assumes "strand_free e" "e_active e = Some k"
  shows "strand_free (finish_session now k e)"
proof -
  let ?e = "put_op now k Waiting no_extra (log_seen (Session_over k) e)"
  have d: "driven UNIV ?e" using assms(1) by (intro driven_put) (auto simp: strand_free_def driven_def covered_def)
  have w: "op_state ?e k \<noteq> Some Unrolling" by (simp add: op_state_put)
  have a: "e_active ?e = Some k" "e_stopped ?e = e_stopped e" using assms(2) by simp_all
  show ?thesis
  proof (cases "getExitOp (e_db ?e) (fst k) (snd k)")
    case None
    have "last_check_ok (?e\<lparr>e_run := None\<rparr>)" by (simp add: last_check_ok_def)
    with d have "strand_free (?e\<lparr>e_run := None\<rparr>)" by (simp add: strand_free_def driven_def covered_def)
    from fail_run_free [OF this, of k now "''no exit op''"] a have "strand_free (fail_run now k ''no exit op'' ?e)"
      by (simp add: fail_run_def end_run_def put_op_def)
    with None show ?thesis by (simp add: finish_session_def Let_def)
  next
    case (Some p)
    show ?thesis
    proof (cases "begin_check (e_db ?e) k")
      case None
      have "strand_free (end_run ?e)"
        using d a w by (auto simp: strand_free_def driven_def last_check_ok_def covered_def)
      with None Some show ?thesis by (simp add: finish_session_def Let_def)
    next
      case c: (Some c)
      have "strand_free (?e\<lparr>e_run := Some (Run_check c)\<rparr>)"
        using d a w begin_check_key [OF c] by (auto simp: strand_free_def driven_def last_check_ok_def covered_def)
      with c Some show ?thesis by (simp add: finish_session_def Let_def)
    qed
  qed
qed

lemma run_inline_free:
  assumes "strand_free e" "e_active e = Some k" "e_run e = Some (Run_check c)"
  shows "strand_free (run_inline x now k c ans e)"
proof -
  let ?e = "seen_of c ans e"
  have free: "strand_free ?e" using assms(1) by (rule strand_free_aside) simp_all
  have st: "op_state e k \<noteq> Some Unrolling" "k_key c = k" if "\<not> e_stopped e"
    using assms that by (auto simp: strand_free_def last_check_ok_def)
  show ?thesis
  proof (cases "check_next x c ans")
    case (Goes_on c')
    then have "k_key c' = k_key c"
      by (cases ans) (auto split: if_splits check_pc.splits sum.splits option.splits)
    then have "strand_free (?e\<lparr>e_run := Some (Run_check c')\<rparr>)"
      using free assms(2) st by (auto simp: strand_free_def driven_def last_check_ok_def covered_def)
    with Goes_on show ?thesis by (simp add: run_inline_def Let_def)
  next
    case Ended
    have "strand_free (end_run ?e)"
      using free assms(2) st by (auto simp: strand_free_def driven_def last_check_ok_def covered_def)
    with Ended show ?thesis by (simp add: run_inline_def Let_def)
  next
    case Is_sweepable
    have "strand_free (end_run (put_op now (k_key c) Sweepable no_extra ?e))"
      using free assms(2) st by (auto simp: strand_free_def driven_def last_check_ok_def covered_def op_state_put split: if_splits)
    with Is_sweepable show ?thesis by (simp add: run_inline_def Let_def)
  next
    case (Crashed msg)
    from fail_run_free [OF free] assms(2) Crashed show ?thesis by (simp add: run_inline_def Let_def)
  qed
qed

lemma startExit_free:
  assumes "strand_free e" "queue_ok e" "no_late_restart e (Ask_start k)"
  shows "strand_free (startExit now k e)"
proof -
  let ?e = "e\<lparr>e_db := snd (createOrRestartExitOp now (fst k) (snd k) (e_db e))\<rparr>"
  have "last_check_ok (enqueue now k ?e)"
  proof (cases "e_run e")
    case None
    then have "e_run (enqueue now k ?e) \<in> {None, Some Run_providers}" using enqueue_run [of now k ?e] by auto
    then show ?thesis by (auto simp: last_check_ok_def)
  next
    case (Some r)
    then have "e_run (enqueue now k ?e) = Some r" "e_active (enqueue now k ?e) = e_active e"
      "\<And>j. op_state (enqueue now k ?e) j = op_state ?e j"
      using enqueue_keeps_check [of ?e r now k] assms(2) by (auto simp: queue_db)
    with assms(1,3) Some show ?thesis
      by (auto simp: last_check_ok_def strand_free_def enqueue_stopped startExit_op no_late_restart_def)
  qed
  with startExit_driven [of e now k] assms(1,2) show ?thesis by (simp add: strand_free_def startExit_def)
qed

lemma step_free:
  assumes "strand_free e" "queue_ok e" "no_late_restart e ev" "engine_do x now ev e = Some e'"
  shows "strand_free e'"
proof (cases ev)
  case (Ask_start k)
  with assms show ?thesis by (auto intro: startExit_free)
next
  case Turn
  with assms(4) have t: "e_running e" "e_run e = None" "e' = loop_turn now e" by (auto split: if_splits)
  then have "e_active e = None" using assms(2) by (simp add: queue_ok_def queue_pre_def)
  moreover have "last_check_ok e'"
    using t by (auto simp: loop_turn_def begin_run_def last_check_ok_def split: list.splits option.splits if_splits)
  ultimately show ?thesis
    using t assms(1) loop_turn_driven [of UNIV e now]
    by (cases "e_stopped e") (auto simp: strand_free_def driven_def loop_turn_def split: list.splits)
next
  case (Providers err)
  with assms(4) obtain k where k: "e_active e = Some k" "e_run e = Some Run_providers"
    "e' = (case err of None \<Rightarrow> e\<lparr>e_run := Some Run_session\<rparr> | Some msg \<Rightarrow> fail_run now k msg e)"
    by (auto split: option.splits run_pc.splits)
  have "strand_free (e\<lparr>e_run := Some Run_session\<rparr>)"
    using assms(1) k by (auto simp: strand_free_def driven_def last_check_ok_def covered_def)
  with assms(1) k show ?thesis by (cases err) (simp_all add: fail_run_free)
next
  case (Session ans)
  with assms(4) obtain k where k: "e_active e = Some k" "e' = run_session now k ans e"
    by (auto split: option.splits run_pc.splits)
  show ?thesis
  proof (cases ans)
    case (Yield_unroll s)
    with k assms(1) show ?thesis by (auto simp: strand_free_def driven_def last_check_ok_def covered_def)
  qed (use k assms(1) in \<open>simp_all add: mark_unrolling_free finish_session_free fail_run_free\<close>)
next
  case (Tip_answer h)
  with assms(4) obtain k s where k: "e_active e = Some k" "e' = run_tip now k s h e"
    by (auto split: option.splits run_pc.splits)
  let ?e = "e\<lparr>e_db := recordBroadcast now s (fst k) (int (snd k)) h (e_db e)\<rparr>"
  have "op_state ?e j = op_state e j" for j by (rule op_state_same) (simp add: recordBroadcast_def)
  then have "strand_free ?e" by (intro strand_free_aside [OF assms(1)]) auto
  with k show ?thesis by (simp add: run_tip_def mark_unrolling_free)
next
  case (Inline_answer ans)
  with assms(4) obtain k c where k: "e_active e = Some k" "e_run e = Some (Run_check c)" "e' = run_inline x now k c ans e"
    by (auto split: option.splits run_pc.splits if_splits)
  with assms(1) show ?thesis by (simp add: run_inline_free)
next
  case Poll
  with assms(4) have e': "e' = poll e" by simp
  show ?thesis by (rule strand_free_aside [OF assms(1)]) (simp_all add: e' poll_def split: if_splits)
next
  case (Check_answer i ans)
  with assms(4) have e': "e' = check_step x now i ans e" by (auto split: if_splits)
  show ?thesis
    by (rule strand_free_aside [OF assms(1)])
      (auto simp: e' check_step_def Let_def op_state_put split: check_end.splits if_splits)
next
  case (Ask_sweep outs dst)
  with assms(4) have e': "e' = e \<or> e' = e\<lparr>e_sweeps := e_sweeps e @ [\<lparr>j_outs = outs, j_dest = dst\<rparr>]\<rparr>" by (auto split: if_splits)
  show ?thesis by (rule strand_free_aside [OF assms(1)]) (use e' in auto)
next
  case (Sweep_done i txid h)
  with assms(4) have e': "e' = finish_sweep now (e_sweeps e ! i) txid h (e\<lparr>e_sweeps := drop_nth i (e_sweeps e)\<rparr>)" by (auto split: if_splits)
  show ?thesis by (rule strand_free_aside [OF assms(1)]) (auto simp: e' dest: finish_sweep_op)
next
  case (Sweep_failed i)
  with assms(4) have e': "e' = e\<lparr>e_sweeps := drop_nth i (e_sweeps e)\<rparr>" by (auto split: if_splits)
  show ?thesis by (rule strand_free_aside [OF assms(1)]) (simp_all add: e')
next
  case (Vault_changed vs)
  with assms(4) have e': "e' = e\<lparr>e_db := (e_db e)\<lparr>vtxos := vs\<rparr>\<rparr>" by simp
  have "op_state e' k = op_state e k" for k by (rule op_state_same) (simp add: e')
  then show ?thesis by (intro strand_free_aside [OF assms(1)]) (simp_all add: e')
next
  case Stop
  with assms(4) have "e' = e\<lparr>e_stopped := True\<rparr>" by simp
  then show ?thesis by (simp add: strand_free_def driven_def last_check_ok_def)
qed

text \<open>An exit the operator decided on stays driven. From a boot on any store, through every
  interleaving of sessions, explorer answers, sweeps, polls and requests, an exit marked unrolling is
  running or queued for as long as the engine is not stopped, provided nobody restarts an exit whose
  session is over and whose last CSV check is still awaited.\<close>

theorem engine_strands_nothing:
  assumes "reach x no_late_restart d e" and "\<not> e_stopped e"
    and "getExitOp (e_db e) (fst k) (snd k) = Some p" and "o_state p = Unrolling"
  shows "e_active e = Some k \<or> k \<in> set (e_queue e)"
proof -
  have "strand_free e"
    using assms(1)
  proof induction
    case (boot now)
    have q: "queue_ok (new_engine d)" by (simp add: new_engine_def queue_ok_def queue_pre_def)
    have "e_run (foldl (\<lambda>e p. enqueue now (op_key p) e) e ps) \<in> {None, Some Run_providers}"
      if "e_run e \<in> {None, Some Run_providers}" for e ps
      using that
    proof (induction ps arbitrary: e)
      case (Cons p ps)
      from Cons.IH [of "enqueue now (op_key p) e"] Cons.prems enqueue_run [of now "op_key p" e] show ?case by auto
    qed simp
    from this [of "new_engine d" "listExitOps d [Unrolling]"]
    have "e_run (resume now (new_engine d)) \<in> {None, Some Run_providers}" by (simp add: new_engine_def resume_def Let_def)
    then have "last_check_ok (resume now (new_engine d))" by (auto simp: last_check_ok_def)
    with resume_driven [OF q, of now] show ?case by (simp add: strand_free_def)
  next
    case (act e ev now e')
    with reach_queue [OF act.hyps(1)] show ?case by (blast intro: step_free)
  qed
  with assms(2-4) show ?thesis by (auto simp: strand_free_def driven_def op_state_def covered_def)
qed

subsection \<open>Why a row is in its state\<close>

definition csv_evidence :: "(op_ref \<Rightarrow> string \<Rightarrow> bool) \<Rightarrow> exit_world \<Rightarrow> seen list \<Rightarrow> op_ref \<Rightarrow> bool" where
  "csv_evidence P x l1 k \<longleftrightarrow> (\<exists>st tip tapTree path. P k tapTree \<and> Saw_status (fst k) st \<in> set l1 \<and> os_confirmed st
     \<and> Saw_tip tip \<in> set l1 \<and> mature x tapTree (os_at st) tip path)"

definition backed :: "(op_ref \<Rightarrow> string \<Rightarrow> bool) \<Rightarrow> exit_world \<Rightarrow> seen list \<Rightarrow> op_ref \<Rightarrow> exit_op \<Rightarrow> bool" where
  "backed P x l1 k p \<longleftrightarrow> (case o_state p of
     Waiting \<Rightarrow> Session_over k \<in> set l1
   | Sweepable \<Rightarrow> csv_evidence P x l1 k
   | Swept \<Rightarrow> (\<exists>txid outs. Sweep_accepted txid outs \<in> set l1 \<and> k \<in> set outs \<and> o_sweepTxid p = Some txid)
   | _ \<Rightarrow> True)"

definition inherited :: "db \<Rightarrow> op_ref \<Rightarrow> exit_op \<Rightarrow> bool" where
  "inherited d k p \<longleftrightarrow> getExitOp d (fst k) (snd k) = Some p"

definition check_seen :: "(op_ref \<Rightarrow> string \<Rightarrow> bool) \<Rightarrow> seen list \<Rightarrow> check \<Rightarrow> bool" where
  "check_seen P l1 c \<longleftrightarrow> P (k_key c) (k_tapTree c) \<and> (\<forall>since. k_pc c = Ck_tip since \<longrightarrow> (\<exists>st. Saw_status (fst (k_key c)) st \<in> set l1 \<and> os_confirmed st \<and> os_at st = since))"

definition rows_backed :: "(op_ref \<Rightarrow> string \<Rightarrow> bool) \<Rightarrow> exit_world \<Rightarrow> db \<Rightarrow> engine \<Rightarrow> bool" where
  "rows_backed P x d e \<longleftrightarrow> (\<forall>k p. getExitOp (e_db e) (fst k) (snd k) = Some p \<longrightarrow> inherited d k p \<or> backed P x (e_log e) k p)"

definition checks_seen :: "(op_ref \<Rightarrow> string \<Rightarrow> bool) \<Rightarrow> engine \<Rightarrow> bool" where
  "checks_seen P e \<longleftrightarrow> (\<forall>c \<in> set (e_checks e). check_seen P (e_log e) c) \<and> (\<forall>c. e_run e = Some (Run_check c) \<longrightarrow> check_seen P (e_log e) c)"

lemma backed_mono: "backed P x l1 k p \<Longrightarrow> set l1 \<subseteq> set l2 \<Longrightarrow> backed P x l2 k p"
  unfolding backed_def csv_evidence_def by (cases "o_state p") (simp_all, blast+)

lemma check_seen_mono: "check_seen P l1 c \<Longrightarrow> set l1 \<subseteq> set l2 \<Longrightarrow> check_seen P l2 c"
  unfolding check_seen_def by blast

lemma rows_backed_aside:
  "rows_backed P x d e \<Longrightarrow> ops (e_db e') = ops (e_db e) \<Longrightarrow> set (e_log e) \<subseteq> set (e_log e') \<Longrightarrow> rows_backed P x d e'"
  unfolding rows_backed_def getExitOp_def by (metis backed_mono)

lemma get_put:
  "getExitOp (e_db (put_op now k st extra e)) (fst j) (snd j) = (if j = k then map_option (\<lambda>p. p\<lparr>o_state := st, o_error := x_error extra,
     o_sweepTxid := coalesce (x_sweepTxid extra) (o_sweepTxid p), o_destAddress := coalesce (x_destAddress extra) (o_destAddress p),
     o_updatedAt := now\<rparr>) (getExitOp (e_db e) (fst k) (snd k)) else getExitOp (e_db e) (fst j) (snd j))"
  by (auto simp: put_op_def setExitOpState_def getExitOp_def op_rows.row_get_update op_key_def prod_eq_iff)

lemma rows_backed_put:
  assumes "rows_backed P x d e"
    and "\<And>p. o_state p = st \<Longrightarrow> (\<forall>t. x_sweepTxid extra = Some t \<longrightarrow> o_sweepTxid p = Some t) \<Longrightarrow> backed P x (e_log e) k p"
  shows "rows_backed P x d (put_op now k st extra e)"
  unfolding rows_backed_def
proof (intro allI impI)
  fix j p assume get: "getExitOp (e_db (put_op now k st extra e)) (fst j) (snd j) = Some p"
  show "inherited d j p \<or> backed P x (e_log (put_op now k st extra e)) j p"
  proof (cases "j = k")
    case True
    with get have "o_state p = st" "\<forall>t. x_sweepTxid extra = Some t \<longrightarrow> o_sweepTxid p = Some t"
      by (auto simp: get_put coalesce_def)
    with assms(2) True show ?thesis by simp
  next
    case False
    with get assms(1) show ?thesis by (simp add: get_put rows_backed_def)
  qed
qed

lemma rows_backed_simps [simp]:
  "rows_backed P x d (e\<lparr>e_queue := q\<rparr>) = rows_backed P x d e" "rows_backed P x d (e\<lparr>e_active := a\<rparr>) = rows_backed P x d e"
  "rows_backed P x d (e\<lparr>e_run := r\<rparr>) = rows_backed P x d e" "rows_backed P x d (e\<lparr>e_running := b\<rparr>) = rows_backed P x d e"
  "rows_backed P x d (e\<lparr>e_checks := cs\<rparr>) = rows_backed P x d e" "rows_backed P x d (e\<lparr>e_sweeps := js\<rparr>) = rows_backed P x d e"
  "rows_backed P x d (e\<lparr>e_stopped := b\<rparr>) = rows_backed P x d e" "rows_backed P x d (end_run e) = rows_backed P x d e"
  by (simp_all add: rows_backed_def end_run_def)

lemma rows_backed_fail: "rows_backed P x d e \<Longrightarrow> rows_backed P x d (fail_run now k m e)"
  unfolding fail_run_def by (auto intro!: rows_backed_put simp: backed_def)

lemma rows_backed_unrolling: "rows_backed P x d e \<Longrightarrow> rows_backed P x d (mark_unrolling now k e)"
proof -
  assume e: "rows_backed P x d e"
  have "rows_backed P x d (put_op now k Unrolling no_extra e)" by (rule rows_backed_put [OF e]) (simp add: backed_def)
  then show ?thesis unfolding mark_unrolling_def Let_def
    by simp
qed

lemma rows_backed_begin_run: "rows_backed P x d e \<Longrightarrow> rows_backed P x d (begin_run now k e)"
  unfolding begin_run_def by (auto intro: rows_backed_fail split: option.split)

lemma rows_backed_enqueue: "rows_backed P x d e \<Longrightarrow> rows_backed P x d (enqueue now k e)"
proof -
  have "rows_backed P x d e \<Longrightarrow> rows_backed P x d (loop_turn now e)" for e
    unfolding loop_turn_def by (auto intro!: rows_backed_begin_run split: list.split)
  then show "rows_backed P x d e \<Longrightarrow> rows_backed P x d (enqueue now k e)"
    unfolding enqueue_def drain_def by auto
qed

definition trees :: "(op_ref \<Rightarrow> string \<Rightarrow> bool) \<Rightarrow> db \<Rightarrow> bool" where
  "trees P d \<longleftrightarrow> (\<forall>k v. getVaultVtxo d (fst k) (snd k) = Some v \<longrightarrow> P k (v_tapTree v))"

lemma trees_same: "trees P d \<Longrightarrow> vtxos d' = vtxos d \<Longrightarrow> trees P d'"
  by (simp add: trees_def getVaultVtxo_def)

lemma begin_check_seen: "begin_check d k = Some c \<Longrightarrow> trees P d \<Longrightarrow> check_seen P l1 c"
  by (auto simp: begin_check_def check_seen_def trees_def)

lemma waiting_checks_seen: "c \<in> set (waiting_checks d) \<Longrightarrow> trees P d \<Longrightarrow> check_seen P l1 c"
  by (auto simp: waiting_checks_def dest: begin_check_seen [OF sym] split: option.splits)

lemma put_op_vtxos [simp]: "vtxos (e_db (put_op now k st extra e)) = vtxos (e_db e)"
  by (simp add: put_op_def setExitOpState_def)

lemma enqueue_vtxos [simp]: "vtxos (e_db (enqueue now k e)) = vtxos (e_db e)"
  by (simp add: enqueue_def drain_def loop_turn_def begin_run_def fail_run_def end_run_def split: list.split option.split)

lemma resume_vtxos [simp]: "vtxos (e_db (resume now e)) = vtxos (e_db e)"
proof -
  have "vtxos (e_db (foldl (\<lambda>e p. enqueue now (op_key p) e) e ps)) = vtxos (e_db e)" for ps
    by (induction ps arbitrary: e) simp_all
  then show ?thesis by (simp add: resume_def Let_def)
qed

lemma enqueue_checks: "e_checks (enqueue now k e) = e_checks e \<and> e_log (enqueue now k e) = e_log e"
  by (auto simp: enqueue_def drain_def loop_turn_def begin_run_def split: list.split option.split)

lemma resume_backed:
  assumes "rows_backed P x d e" "checks_seen P e" "e_run e = None" "trees P (e_db e)"
  shows "rows_backed P x d (resume now e) \<and> checks_seen P (resume now e)"
proof -
  have "rows_backed P x d (foldl (\<lambda>e p. enqueue now (op_key p) e) e ps) \<and> e_checks (foldl (\<lambda>e p. enqueue now (op_key p) e) e ps) = e_checks e
      \<and> e_log (foldl (\<lambda>e p. enqueue now (op_key p) e) e ps) = e_log e
      \<and> e_run (foldl (\<lambda>e p. enqueue now (op_key p) e) e ps) \<in> {None, Some Run_providers}
      \<and> vtxos (e_db (foldl (\<lambda>e p. enqueue now (op_key p) e) e ps)) = vtxos (e_db e)"
    if "rows_backed P x d e" "e_run e \<in> {None, Some Run_providers}" for ps e
    using that
  proof (induction ps arbitrary: e)
    case (Cons p ps)
    from Cons.IH [of "enqueue now (op_key p) e"] Cons.prems rows_backed_enqueue [of P x d e now "op_key p"]
      enqueue_run [of now "op_key p" e] enqueue_checks [of now "op_key p" e] show ?case by auto
  qed simp
  from this [of e "listExitOps (e_db e) [Unrolling]"] assms show ?thesis
    unfolding resume_def Let_def
    by (auto simp: checks_seen_def intro: rows_backed_aside waiting_checks_seen trees_same)
qed

lemma seen_of_log: "e_log (seen_of c ans e) = e_log e @ (case ans of Ans_status st \<Rightarrow> [Saw_status (fst (k_key c)) st]
    | Ans_tip tip \<Rightarrow> [Saw_tip tip] | _ \<Rightarrow> [])"
  by (cases ans) simp_all

lemma check_next_seen:
  assumes "check_seen P (e_log e) c"
  shows "check_next x c ans = Goes_on c' \<Longrightarrow> check_seen P (e_log (seen_of c ans e)) c'"
    and "check_next x c ans = Is_sweepable \<Longrightarrow> csv_evidence P x (e_log (seen_of c ans e)) (k_key c)"
proof -
  show "check_next x c ans = Goes_on c' \<Longrightarrow> check_seen P (e_log (seen_of c ans e)) c'"
    using assms by (cases ans) (auto simp: check_seen_def seen_of_log split: if_splits check_pc.splits sum.splits option.splits)
  show "check_next x c ans = Is_sweepable \<Longrightarrow> csv_evidence P x (e_log (seen_of c ans e)) (k_key c)"
  proof (cases ans)
    case (Ans_tip tip)
    assume "check_next x c ans = Is_sweepable"
    with Ans_tip obtain since path where pc: "k_pc c = Ck_tip since"
      and av: "availableExitPath x (k_tapTree c) since tip = Inr (Some path)"
      by (auto split: check_pc.splits sum.splits option.splits)
    with assms obtain st where st: "P (k_key c) (k_tapTree c)" "Saw_status (fst (k_key c)) st \<in> set (e_log e)" "os_confirmed st" "os_at st = since"
      by (auto simp: check_seen_def)
    with available_mature [OF av] Ans_tip show ?thesis
      unfolding csv_evidence_def seen_of_log
      by (intro exI [of _ st] exI [of _ tip] exI [of _ "k_tapTree c"] exI [of _ path]) simp
  qed (simp_all split: if_splits)
qed

lemma rows_backed_log: "rows_backed P x d e \<Longrightarrow> rows_backed P x d (log_seen s e)" "rows_backed P x d e \<Longrightarrow> rows_backed P x d (seen_of c ans e)"
  by (erule rows_backed_aside; simp add: seen_of_log; blast)+

lemma rows_backed_start:
  assumes "rows_backed P x d e"
  shows "rows_backed P x d (e\<lparr>e_db := snd (createOrRestartExitOp now (fst k) (snd k) (e_db e))\<rparr>)"
proof -
  let ?d = "snd (createOrRestartExitOp now (fst k) (snd k) (e_db e))"
  have "o_state p = Unrolling \<or> getExitOp (e_db e) (fst j) (snd j) = Some p" if "getExitOp ?d (fst j) (snd j) = Some p" for j p
    using that by (auto simp: createOrRestartExitOp_def Let_def getExitOp_def op_rows.row_get_upsert op_key_def
        split: option.splits if_splits)
  moreover have "backed P x l1 j p" if "o_state p = Unrolling" for l1 j p using that by (simp add: backed_def)
  ultimately show ?thesis using assms unfolding rows_backed_def by simp blast
qed

lemma finish_session_backed:
  "rows_backed P x d e \<Longrightarrow> rows_backed P x d (finish_session now k e)"
proof -
  assume e: "rows_backed P x d e"
  have "rows_backed P x d (put_op now k Waiting no_extra (log_seen (Session_over k) e))"
    by (rule rows_backed_put [OF rows_backed_log(1) [OF e]]) (simp add: backed_def)
  then show ?thesis unfolding finish_session_def Let_def
    by (auto intro: rows_backed_fail split: option.split)
qed

lemma finish_sweep_backed:
  assumes "rows_backed P x d e"
  shows "rows_backed P x d (finish_sweep now j txid h e)" "set (e_log e) \<subseteq> set (e_log (finish_sweep now j txid h e))"
proof -
  have f: "rows_backed P x d (foldl (\<lambda>e k. put_op now k Swept (swept_extra txid dst) e) e0 ks)
      \<and> e_log (foldl (\<lambda>e k. put_op now k Swept (swept_extra txid dst) e) e0 ks) = e_log e0"
    if "rows_backed P x d e0" "Sweep_accepted txid outs \<in> set (e_log e0)" "set ks \<subseteq> set outs" for e0 ks dst outs
    using that
  proof (induction ks arbitrary: e0)
    case (Cons k ks)
    have "rows_backed P x d (put_op now k Swept (swept_extra txid dst) e0)"
      by (rule rows_backed_put [OF Cons.prems(1)]) (use Cons.prems(2,3) in \<open>auto simp: backed_def swept_extra_def no_extra_def\<close>)
    from Cons.IH [OF this] Cons.prems show ?case by simp
  qed simp
  let ?e1 = "case j_outs j of [] \<Rightarrow> e | k # ks \<Rightarrow> e\<lparr>e_db := recordBroadcast now txid (fst k) (int (snd k)) h (e_db e)\<rparr>"
  have "rows_backed P x d ?e1" "e_log ?e1 = e_log e"
    using assms by (cases "j_outs j"; simp add: rows_backed_def recordBroadcast_def getExitOp_def)+
  with f [OF rows_backed_log(1), of ?e1 "j_outs j" "Sweep_accepted txid (j_outs j)" "j_outs j" "j_dest j"]
  show "rows_backed P x d (finish_sweep now j txid h e)" "set (e_log e) \<subseteq> set (e_log (finish_sweep now j txid h e))"
    by (auto simp: finish_sweep_def)
qed

lemma checks_seen_mono:
  assumes "checks_seen P e" "set (e_log e) \<subseteq> set (e_log e')"
    and "\<And>c. c \<in> set (e_checks e') \<Longrightarrow> c \<in> set (e_checks e) \<or> check_seen P (e_log e') c"
    and "\<And>c. e_run e' = Some (Run_check c) \<Longrightarrow> e_run e = Some (Run_check c) \<or> check_seen P (e_log e') c"
  shows "checks_seen P e'"
  using assms unfolding checks_seen_def by (blast intro: check_seen_mono)

lemma set_drop_nth: "set (drop_nth i xs) \<subseteq> set xs"
  using set_take_subset [of i xs] set_drop_subset [of "Suc i" xs] by (auto simp: drop_nth_def)

lemma step_backed:
  assumes "rows_backed P x d e" "checks_seen P e" "trees P (e_db e)" "queue_ok e" "engine_do x now ev e = Some e'"
  shows "rows_backed P x d e' \<and> checks_seen P e'"
proof (cases ev)
  case (Ask_start k)
  let ?e = "e\<lparr>e_db := snd (createOrRestartExitOp now (fst k) (snd k) (e_db e))\<rparr>"
  from Ask_start assms(5) have e': "e' = enqueue now k ?e" by (simp add: startExit_def)
  have "e_run e' = Some (Run_check c) \<Longrightarrow> e_run e = Some (Run_check c)" for c
    using enqueue_run [of now k ?e] by (auto simp: e')
  with assms(2) have "checks_seen P e'" by (intro checks_seen_mono [OF assms(2)]) (auto simp: e' enqueue_checks)
  with rows_backed_enqueue [OF rows_backed_start [OF assms(1)]] e' show ?thesis by simp
next
  case Turn
  with assms(5) have t: "e_run e = None" "e' = loop_turn now e" by (auto split: if_splits)
  have "rows_backed P x d e'" unfolding t(2) loop_turn_def
    using assms(1) by (auto intro!: rows_backed_begin_run split: list.split)
  moreover have "checks_seen P e'"
    by (rule checks_seen_mono [OF assms(2)])
      (auto simp: t loop_turn_def begin_run_def split: list.splits option.splits if_splits)
  ultimately show ?thesis by blast
next
  case (Providers err)
  with assms(5) obtain k where k: "e' = (case err of None \<Rightarrow> e\<lparr>e_run := Some Run_session\<rparr> | Some msg \<Rightarrow> fail_run now k msg e)"
    by (auto split: option.splits run_pc.splits)
  have "checks_seen P e'" by (rule checks_seen_mono [OF assms(2)]) (auto simp: k split: option.splits)
  with k assms(1) show ?thesis by (auto split: option.splits intro: rows_backed_fail)
next
  case (Session ans)
  with assms(5) obtain k where k: "e_active e = Some k" "e' = run_session now k ans e"
    by (auto split: option.splits run_pc.splits)
  have "rows_backed P x d e'"
    unfolding k(2) by (cases ans) (simp_all add: assms(1) rows_backed_unrolling finish_session_backed rows_backed_fail)
  moreover have "checks_seen P e'"
    by (rule checks_seen_mono [OF assms(2)])
      (cases ans; auto simp: k mark_unrolling_def finish_session_def Let_def split: if_splits option.splits intro: trees_same [OF assms(3)] dest!: begin_check_seen)+
  ultimately show ?thesis by blast
next
  case (Tip_answer h)
  with assms(5) obtain k s where k: "e_active e = Some k" "e' = run_tip now k s h e"
    by (auto split: option.splits run_pc.splits)
  have "rows_backed P x d (e\<lparr>e_db := recordBroadcast now s (fst k) (int (snd k)) h (e_db e)\<rparr>)"
    by (rule rows_backed_aside [OF assms(1)]) (simp_all add: recordBroadcast_def)
  then have "rows_backed P x d e'" unfolding k(2) run_tip_def by (rule rows_backed_unrolling)
  moreover have "checks_seen P e'"
    by (rule checks_seen_mono [OF assms(2)]) (auto simp: k run_tip_def mark_unrolling_def Let_def split: if_splits)
  ultimately show ?thesis by blast
next
  case (Inline_answer ans)
  with assms(5) obtain k c where k: "e_active e = Some k" "e_run e = Some (Run_check c)" "e' = run_inline x now k c ans e"
    by (auto split: option.splits run_pc.splits if_splits)
  have c: "check_seen P (e_log e) c" using assms(2) k(2) by (simp add: checks_seen_def)
  note nx = check_next_seen [OF c, of x ans]
  have "rows_backed P x d e'"
    using rows_backed_log(2) [OF assms(1), of c ans] nx(2)
    by (auto simp: k(3) run_inline_def Let_def backed_def intro!: rows_backed_fail rows_backed_put split: check_end.split)
  moreover have "checks_seen P e'"
    by (rule checks_seen_mono [OF assms(2)])
      (auto simp: k(3) run_inline_def Let_def seen_of_log nx(1) split: check_end.splits dest: nx(1))
  ultimately show ?thesis by blast
next
  case Poll
  with assms(5) have e': "e' = poll e" by simp
  have "checks_seen P e'" by (rule checks_seen_mono [OF assms(2)]) (auto simp: e' poll_def intro: waiting_checks_seen [OF _ assms(3)] split: if_splits)
  with assms(1) show ?thesis by (simp add: e' poll_def)
next
  case (Check_answer i ans)
  with assms(5) have i: "i < length (e_checks e)" "e' = check_step x now i ans e" by (auto split: if_splits)
  let ?c = "e_checks e ! i"
  have c: "check_seen P (e_log e) ?c" using assms(2) i(1) by (simp add: checks_seen_def)
  note nx = check_next_seen [OF c, of x ans]
  have sub: "set (e_log e) \<subseteq> set (e_log (seen_of ?c ans e))" by (auto simp: seen_of_log)
  have "rows_backed P x d e'"
    using rows_backed_log(2) [OF assms(1), of ?c ans] nx(2)
    by (auto simp: i(2) check_step_def Let_def backed_def intro!: rows_backed_put split: check_end.split)
  moreover have "checks_seen P e'"
    by (rule checks_seen_mono [OF assms(2)])
      (use sub in \<open>auto simp: i(2) check_step_def Let_def split: check_end.splits
        dest: nx(1) set_update_subset_insert [THEN subsetD] set_drop_nth [THEN subsetD]\<close>)
  ultimately show ?thesis by blast
next
  case (Ask_sweep outs dst)
  with assms(5) have e': "e' = e \<or> e' = e\<lparr>e_sweeps := e_sweeps e @ [\<lparr>j_outs = outs, j_dest = dst\<rparr>]\<rparr>" by (auto split: if_splits)
  with assms(1,2) show ?thesis by (auto simp: checks_seen_def)
next
  case (Sweep_done i txid h)
  let ?e = "e\<lparr>e_sweeps := drop_nth i (e_sweeps e)\<rparr>"
  from Sweep_done assms(5) have e': "e' = finish_sweep now (e_sweeps e ! i) txid h ?e" by (auto split: if_splits)
  have r: "rows_backed P x d ?e" using assms(1) by simp
  have "checks_seen P e'"
    by (rule checks_seen_mono [OF assms(2)]) (use finish_sweep_backed(2) [OF r] in \<open>auto simp: e'\<close>)
  with finish_sweep_backed(1) [OF r] e' show ?thesis by simp
next
  case (Sweep_failed i)
  with assms show ?thesis by (auto simp: checks_seen_def split: if_splits)
next
  case (Vault_changed vs)
  with assms(5) have e': "e' = e\<lparr>e_db := (e_db e)\<lparr>vtxos := vs\<rparr>\<rparr>" by simp
  from rows_backed_aside [OF assms(1), of e'] assms(2) show ?thesis by (simp add: e' checks_seen_def)
next
  case Stop
  with assms show ?thesis by (auto simp: checks_seen_def)
qed


subsection \<open>Three interleavings\<close>

fun run_events :: "exit_world \<Rightarrow> event list \<Rightarrow> engine \<Rightarrow> engine option" where
  "run_events x [] e = Some e"
| "run_events x (ev # evs) e = (case engine_do x 0 ev e of None \<Rightarrow> None | Some e' \<Rightarrow> run_events x evs e')"

lemma reach_run:
  "reach x (\<lambda>e ev. True) d e \<Longrightarrow> run_events x evs e = Some e' \<Longrightarrow> reach x (\<lambda>e ev. True) d e'"
  by (induction evs arbitrary: e) (auto split: option.splits intro: reach.act)

definition race_store :: "exit_op_state \<Rightarrow> db" where
  "race_store st = empty_db\<lparr>vtxos := [sample_vtxo], ops := [\<lparr>o_txid = ''aa'', o_vout = 0, o_state = st, o_destAddress = None,
     o_sweepTxid = None, o_error = None, o_createdAt = 0, o_updatedAt = 0\<rparr>]\<rparr>"

definition deep_status :: onchain_status where
  "deep_status = \<lparr>os_confirmed = True, os_at = \<lparr>bt_height = 0, bt_time = 0\<rparr>\<rparr>"

definition mature_answers :: "nat \<Rightarrow> event list" where
  "mature_answers i = [Check_answer i Ans_ok, Check_answer i (Ans_status deep_status),
     Check_answer i (Ans_tip \<lparr>bt_height = 1000, bt_time = 100000\<rparr>)]"

lemmas race_simps = race_store_def new_engine_def resume_def Let_def listExitOps_def enqueue_def drain_def loop_turn_def
  begin_run_def getVaultVtxo_def sample_vtxo_def vtxo_key_def op_key_def waiting_checks_def begin_check_def empty_db_def
  mark_unrolling_def finish_session_def put_op_def setExitOpState_def row_update_def getExitOp_def startExit_def
  createOrRestartExitOp_def row_upsert_def run_inline_def end_run_def fail_run_def log_seen_def check_step_def poll_def
  finish_sweep_def sweepable_now_def recordBroadcast_def drop_nth_def swept_extra_def no_extra_def coalesce_def
  availableExitPath_def csvPathStatuses_def csv_of_def deep_status_def mature_answers_def

lemma race_stranded:
  "\<exists>e p. run_events sample_exit [Providers None, Session Session_end, Ask_start (''aa'', 0), Inline_answer Ans_ok,
      Inline_answer (Ans_status (deep_status\<lparr>os_confirmed := False\<rparr>)), Turn] (resume 0 (new_engine (race_store Unrolling))) = Some e
    \<and> getExitOp (e_db e) ''aa'' 0 = Some p \<and> o_state p = Unrolling \<and> e_active e = None \<and> e_queue e = [] \<and> e_checks e = []
    \<and> \<not> e_running e \<and> \<not> e_stopped e"
  by (simp add: race_simps)

lemma race_regress:
  "\<exists>e p. run_events sample_exit (Poll # mature_answers 1 @ [Ask_sweep [(''aa'', 0)] ''d'', Sweep_done 0 ''sw'' None] @ mature_answers 0)
      (resume 0 (new_engine (race_store Waiting))) = Some e
    \<and> getExitOp (e_db e) ''aa'' 0 = Some p \<and> o_state p = Sweepable \<and> o_sweepTxid p = Some ''sw''"
  by (simp add: race_simps)

lemma race_failed:
  "\<exists>e p. run_events sample_exit [Providers None, Session Session_end, Inline_answer Ans_ok, Inline_answer (Ans_error ''HTTP 502'')]
      (resume 0 (new_engine (race_store Unrolling))) = Some e
    \<and> getExitOp (e_db e) ''aa'' 0 = Some p \<and> o_state p = Op_failed \<and> Session_over (''aa'', 0) \<in> set (e_log e)"
  by (simp add: race_simps)


subsection \<open>Concrete runs\<close>

lemma sample_boot: "reach sample_exit ok (race_store Unrolling) (resume 0 (new_engine (race_store Unrolling)))"
  by (rule reach.boot)

theorem engine_queue_discipline_witness:
  "distinct (e_queue (resume 0 (new_engine (race_store Unrolling))))"
  using engine_queue_discipline [OF sample_boot] by blast

theorem engine_strands_nothing_witness:
  "e_active (resume 0 (new_engine (race_store Unrolling))) = Some (''aa'', 0)
     \<or> (''aa'', 0) \<in> set (e_queue (resume 0 (new_engine (race_store Unrolling))))"
  by (rule engine_strands_nothing [OF sample_boot, where p = "\<lparr>o_txid = ''aa'', o_vout = 0, o_state = Unrolling,
        o_destAddress = None, o_sweepTxid = None, o_error = None, o_createdAt = 0, o_updatedAt = 0\<rparr>"])
    (simp_all add: race_simps)


end
