(* ===== verification/Noffer.thy ===== *)
theory Noffer
  imports Swap_Script
begin

text \<open>
  The noffer codec, \<open>src/clink/nip19_offer.ts\<close>: an offer pointer as bech32 over a TLV payload. A
  TLV length is one byte of a typed array, so it wraps; the price is four bytes, big-endian.
  \<open>parseTLV\<close> is the code's \<open>while\<close> loop and may run forever: \<open>None\<close> is a loop that does not
  return. A JavaScript read past the end is \<open>undefined\<close>, \<open>slice(2, NaN)\<close> is empty and
  \<open>slice(NaN)\<close> is the whole array, which is what the one-byte case writes out.

  The bech32, hex and UTF-8 codecs are the fields of \<open>codecs\<close>.
\<close>

record codecs =
  cd_hexDecode :: "string \<Rightarrow> string + bytes"
  cd_hexEncode :: "bytes \<Rightarrow> string"
  cd_utf8 :: "string \<Rightarrow> bytes"
  cd_unutf8 :: "bytes \<Rightarrow> string"
  cd_bech32 :: "string \<Rightarrow> bytes \<Rightarrow> string + string"
  cd_unbech32 :: "string \<Rightarrow> string + (string \<times> bytes)"

text \<open>A JavaScript number read with \<open>parseInt(hex, 16)\<close>.\<close>

datatype js_int = NaN | Num int

record offer_pointer =
  op_pubkey :: string
  op_relay :: string
  op_offer :: string
  op_priceType :: "8 word"
  op_price :: "js_int option"

definition Fixed :: "8 word" where "Fixed = 0"
definition Variable :: "8 word" where "Variable = 1"
definition Spontaneous :: "8 word" where "Spontaneous = 2"

subsection \<open>Encoding\<close>

definition integerToUint8Array :: "int \<Rightarrow> bytes" where
  "integerToUint8Array n = [word_of_int (drop_bit 24 n), word_of_int (drop_bit 16 n), word_of_int (drop_bit 8 n), word_of_int n]"

type_synonym tlv = "(nat \<times> bytes list) list"

definition tlv_entry :: "nat \<Rightarrow> bytes \<Rightarrow> bytes" where
  "tlv_entry t v = word_of_nat t # word_of_nat (length v) # v"

text \<open>Integer keys of an object come out in ascending order; \<open>o\<close> lists them that way.\<close>

definition encodeTLV :: "tlv \<Rightarrow> bytes" where
  "encodeTLV o1 = concat (map (\<lambda>(t, vs). concat (map (tlv_entry t) vs)) (rev o1))"

definition nofferEncode :: "codecs \<Rightarrow> offer_pointer \<Rightarrow> string + string" where
  "nofferEncode c p = (case cd_hexDecode c (op_pubkey p) of
     Inl e \<Rightarrow> Inl e
   | Inr key \<Rightarrow> cd_bech32 c ''noffer'' (encodeTLV
       ([(0, [key]), (1, [cd_utf8 c (op_relay p)]), (2, [cd_utf8 c (op_offer p)]), (3, [[op_priceType p]])]
        @ (case op_price p of Some (Num n) \<Rightarrow> if n = 0 then [] else [(4, [integerToUint8Array n])] | _ \<Rightarrow> []))))"

subsection \<open>Decoding\<close>

type_synonym tlv_map = "8 word \<Rightarrow> bytes list"

definition tlv_push :: "8 word \<Rightarrow> bytes \<Rightarrow> tlv_map \<Rightarrow> tlv_map" where
  "tlv_push t v m = m(t := m t @ [v])"

partial_function (option) parse_loop :: "bytes \<Rightarrow> tlv_map \<Rightarrow> (string + tlv_map) option" where
  "parse_loop rest result = (case rest of
     [] \<Rightarrow> Some (Inr result)
   | [t] \<Rightarrow> parse_loop [t] (tlv_push t [] result)
   | t # l # body \<Rightarrow> (let v = take (unat l) body in
       if length v < unat l then Some (Inl ''truncated TLV'')
       else parse_loop (drop (unat l) body) (tlv_push t v result)))"

definition parseTLV :: "bytes \<Rightarrow> (string + tlv_map) option" where
  "parseTLV data = parse_loop data (\<lambda>t. [])"

definition first :: "8 word \<Rightarrow> tlv_map \<Rightarrow> bytes option" where
  "first t m = (case m t of [] \<Rightarrow> None | v # vs \<Rightarrow> Some v)"

definition be_value :: "bytes \<Rightarrow> js_int" where
  "be_value bs = (if bs = [] then NaN else Num (foldl (\<lambda>n b. 256 * n + uint b) 0 bs))"

definition pointer_of :: "codecs \<Rightarrow> tlv_map \<Rightarrow> string + offer_pointer" where
  "pointer_of c m = (case first 0 m of
     None \<Rightarrow> Inl ''missing/invalid pubkey (TLV 0)''
   | Some key \<Rightarrow> (if length key \<noteq> 32 then Inl ''missing/invalid pubkey (TLV 0)''
     else case first 1 m of None \<Rightarrow> Inl ''missing relay (TLV 1)''
     | Some relay \<Rightarrow> (case first 2 m of None \<Rightarrow> Inl ''missing offer id (TLV 2)''
       | Some offer \<Rightarrow> Inr \<lparr>op_pubkey = cd_hexEncode c key, op_relay = cd_unutf8 c relay, op_offer = cd_unutf8 c offer,
           op_priceType = (case first 3 m of Some (b # bs) \<Rightarrow> b | _ \<Rightarrow> Spontaneous),
           op_price = map_option be_value (first 4 m)\<rparr>)))"

definition nofferDecode :: "codecs \<Rightarrow> string \<Rightarrow> (string + offer_pointer) option" where
  "nofferDecode c code = (case cd_unbech32 c code of
     Inl e \<Rightarrow> Some (Inl e)
   | Inr (prefix, payload) \<Rightarrow> (if prefix \<noteq> ''noffer'' then Some (Inl ''expected noffer'')
       else map_option (\<lambda>r. case r of Inl e \<Rightarrow> Inl e | Inr m \<Rightarrow> pointer_of c m) (parseTLV payload)))"

subsection \<open>The loop\<close>

lemma parse_entry:
  assumes "length v < 256"
  shows "parse_loop (tlv_entry t v @ rest) m = parse_loop rest (tlv_push (word_of_nat t) v m)"
  using assms by (subst parse_loop.simps) (simp add: tlv_entry_def unat_of_nat Let_def)

text \<open>Entries that fit their length byte are read back one by one.\<close>

definition entries :: "(nat \<times> bytes) list \<Rightarrow> bytes" where
  "entries es = concat (map (\<lambda>(t, v). tlv_entry t v) es)"

definition pushes :: "(nat \<times> bytes) list \<Rightarrow> tlv_map \<Rightarrow> tlv_map" where
  "pushes es m = foldl (\<lambda>m (t, v). tlv_push (word_of_nat t) v m) m es"

lemma parse_entries:
  "\<forall>(t, v) \<in> set es. length v < 256 \<Longrightarrow> parse_loop (entries es @ rest) m = parse_loop rest (pushes es m)"
  by (induction es arbitrary: m) (auto simp: entries_def pushes_def parse_entry)

lemma parse_stray: "parse_loop [t] m = None"
proof -
  have "parse_loop rest m = Some y \<Longrightarrow> rest \<noteq> [t]" for rest m y
    by (erule parse_loop.raw_induct [where P = "\<lambda>rest m y. rest \<noteq> [t]", rotated])
      (auto split: list.splits)
  then show ?thesis by (cases "parse_loop [t] m") auto
qed

subsection \<open>Properties\<close>

lemma be_value_price:
  assumes "0 \<le> n" "n < 2 ^ 32"
  shows "be_value (integerToUint8Array n) = Num n"
proof -
  have d: "n div 2 ^ 8 = n div 256" "n div 2 ^ 16 = n div 256 div 256" "n div 2 ^ 24 = n div 256 div 256 div 256"
    by (simp_all add: zdiv_zmult2_eq [symmetric])
  have "n div 256 div 256 div 256 < 256" "0 \<le> n div 256 div 256 div 256" using assms by simp_all
  then have "n div 256 div 256 div 256 mod 256 = n div 256 div 256 div 256" by simp
  then have sum: "256 * (256 * (256 * (256 * 0 + n div 2 ^ 24 mod 256) + n div 2 ^ 16 mod 256) + n div 2 ^ 8 mod 256) + n mod 256 = n"
    by (simp only: d mult_div_mod_eq mult_zero_right add_0)
  have byte: "uint (word_of_int k :: 8 word) = k mod 256" for k by (simp add: uint_word_of_int)
  have "foldl (\<lambda>n b. 256 * n + uint b) 0 (integerToUint8Array n)
      = 256 * (256 * (256 * (256 * 0 + n div 2 ^ 24 mod 256) + n div 2 ^ 16 mod 256) + n div 2 ^ 8 mod 256) + n mod 256"
    by (simp only: integerToUint8Array_def foldl_Cons foldl_Nil byte drop_bit_eq_div)
  also note sum
  finally show ?thesis by (simp add: be_value_def integerToUint8Array_def)
qed

text \<open>The entries an encoded pointer is made of.\<close>

definition pointer_entries :: "codecs \<Rightarrow> bytes \<Rightarrow> offer_pointer \<Rightarrow> (nat \<times> bytes) list" where
  "pointer_entries c key p = [(0, key), (1, cd_utf8 c (op_relay p)), (2, cd_utf8 c (op_offer p)), (3, [op_priceType p])]
     @ (case op_price p of Some (Num n) \<Rightarrow> if n = 0 then [] else [(4, integerToUint8Array n)] | _ \<Rightarrow> [])"

lemma encode_entries:
  "cd_hexDecode c (op_pubkey p) = Inr key \<Longrightarrow> nofferEncode c p = cd_bech32 c ''noffer'' (entries (rev (pointer_entries c key p)))"
  by (auto simp: nofferEncode_def pointer_entries_def encodeTLV_def entries_def split: option.split js_int.split)

text \<open>C28: a noffer round-trips. A pointer whose key is 32 bytes and whose relay and offer id take less than
  256 bytes, with no price or a price that fits 32 bits, is read back exactly from the code it was
  encoded to; in particular the decoding loop returns. Assumed of the codecs: bech32, hex and UTF-8
  read back what they wrote.\<close>

theorem noffer_roundtrip:
  assumes enc: "nofferEncode c p = Inr code"
    and bech32: "\<And>pre data code. cd_bech32 c pre data = Inr code \<Longrightarrow> cd_unbech32 c code = Inr (pre, data)"
    and hex: "cd_hexDecode c (op_pubkey p) = Inr key" "cd_hexEncode c key = op_pubkey p" "length key = 32"
    and utf8: "\<And>s. cd_unutf8 c (cd_utf8 c s) = s"
    and fits: "length (cd_utf8 c (op_relay p)) < 256" "length (cd_utf8 c (op_offer p)) < 256"
    and price: "op_price p = None \<or> (\<exists>n. op_price p = Some (Num n) \<and> 0 < n \<and> n < 2 ^ 32)"
  shows "nofferDecode c code = Some (Inr p)"
proof -
  let ?es = "rev (pointer_entries c key p)"
  have "cd_unbech32 c code = Inr (''noffer'', entries ?es)"
    using bech32 enc encode_entries [OF hex(1)] by metis
  moreover have "\<forall>(t, v) \<in> set ?es. length v < 256"
    using fits hex(3) by (auto simp: pointer_entries_def integerToUint8Array_def split: option.splits js_int.splits if_splits)
  then have "parseTLV (entries ?es) = parse_loop [] (pushes ?es (\<lambda>t. []))"
    using parse_entries [of ?es "[]"] by (simp add: parseTLV_def)
  then have "parseTLV (entries ?es) = Some (Inr (pushes ?es (\<lambda>t. [])))" by (subst (asm) parse_loop.simps) simp
  moreover have "pointer_of c (pushes ?es (\<lambda>t. [])) = Inr p"
    using hex(2,3) utf8 price
    by (auto simp: pointer_of_def pushes_def pointer_entries_def first_def tlv_push_def be_value_price split: if_splits)
  ultimately show ?thesis by (simp add: nofferDecode_def)
qed

text \<open>C40: a malformed noffer hangs the reader. A code whose payload is any sequence of well-formed entries
  followed by one stray byte never decodes: the loop reads an undefined length, takes nothing off the
  payload and goes round for ever. No error is thrown and nothing is returned.\<close>

theorem noffer_stray_byte_hangs:
  assumes "cd_unbech32 c code = Inr (''noffer'', entries es @ [t])" and "\<forall>(t, v) \<in> set es. length v < 256"
  shows "nofferDecode c code = None"
  using assms by (simp add: nofferDecode_def parseTLV_def parse_entries parse_stray)

subsection \<open>Concrete codecs\<close>

definition chars_of :: "bytes \<Rightarrow> string" where
  "chars_of bs = map (\<lambda>b. char_of (unat b)) bs"

definition bytes_of :: "string \<Rightarrow> bytes" where
  "bytes_of s = map (\<lambda>c. word_of_nat (of_char c)) s"

lemma chars_of_bytes [simp]: "chars_of (bytes_of s) = s"
  by (induction s) (simp_all add: chars_of_def bytes_of_def unat_of_nat)

lemma bytes_of_chars [simp]: "bytes_of (chars_of bs) = bs"
proof (induction bs)
  case (Cons b bs)
  have "unat b < 256" using unsigned_less [of b, where 'a = nat] by simp
  with Cons show ?case by (simp add: chars_of_def bytes_of_def)
qed (simp add: chars_of_def bytes_of_def)

lemma length_bytes_of: "length (bytes_of s) = length s"
  by (simp add: bytes_of_def)

definition sample_codecs :: codecs where
  "sample_codecs = \<lparr>cd_hexDecode = \<lambda>s. Inr (bytes_of s), cd_hexEncode = chars_of, cd_utf8 = bytes_of, cd_unutf8 = chars_of,
     cd_bech32 = \<lambda>pre bs. if pre = ''noffer'' then Inr (chars_of bs) else Inl ''prefix'',
     cd_unbech32 = \<lambda>s. Inr (''noffer'', bytes_of s)\<rparr>"

definition sample_pointer :: offer_pointer where
  "sample_pointer = \<lparr>op_pubkey = replicate 32 (CHR ''k''), op_relay = ''wss://r'', op_offer = ''zap_'', op_priceType = Spontaneous,
     op_price = Some (Num 70000)\<rparr>"

theorem noffer_roundtrip_witness:
  "\<exists>code. nofferEncode sample_codecs sample_pointer = Inr code \<and> nofferDecode sample_codecs code = Some (Inr sample_pointer)"
proof -
  obtain code where "nofferEncode sample_codecs sample_pointer = Inr code"
    by (simp add: nofferEncode_def sample_codecs_def)
  moreover from this have "nofferDecode sample_codecs code = Some (Inr sample_pointer)"
    by (rule noffer_roundtrip [where key = "bytes_of (op_pubkey sample_pointer)"])
      (auto simp: sample_codecs_def sample_pointer_def length_bytes_of split: if_splits)
  ultimately show ?thesis by blast
qed

theorem noffer_stray_byte_hangs_witness: "nofferDecode sample_codecs [CHR ''a''] = None"
  by (rule noffer_stray_byte_hangs [where es = "[]" and t = "word_of_nat (of_char (CHR ''a''))"])
    (simp_all add: sample_codecs_def bytes_of_def entries_def)

end
