(* ===== verification/Budget_Window.thy ===== *)
theory Budget_Window
  imports Bridge_Types
begin

text \<open>
  The budget windows of \<open>src/lib/budget.ts\<close>: where the current window of a renewal starts, and
  where the next one does, computed on the host's local calendar. \<open>Date\<close>'s local-time methods are
  written out as ECMAScript defines them, over the two conversions of the host's time zone
  (\<open>LocalTime\<close> and \<open>UTC\<close>, in seconds): the local day number is the local time over 86400,
  \<open>setHours(0, 0, 0, 0)\<close> goes to its start, \<open>setDate\<close> and \<open>setMonth\<close> keep the time of day.
\<close>

record local_clock =
  z_local :: "int \<Rightarrow> int"
  z_utc :: "int \<Rightarrow> int"

subsection \<open>The civil calendar\<close>

text \<open>Days since 1970-01-01. Years are counted from March, so that the leap day ends the year:
  the 400-year era, the century in it, the four years in that, the year, the day of the year.\<close>

definition shifted :: "int \<Rightarrow> int" where "shifted n = n + 719468"
definition day_of_era :: "int \<Rightarrow> int" where "day_of_era n = shifted n mod 146097"
definition century :: "int \<Rightarrow> int" where "century n = min 3 (day_of_era n div 36524)"
definition day_of_century :: "int \<Rightarrow> int" where "day_of_century n = day_of_era n - 36524 * century n"
definition quad :: "int \<Rightarrow> int" where "quad n = day_of_century n div 1461"
definition day_of_quad :: "int \<Rightarrow> int" where "day_of_quad n = day_of_century n - 1461 * quad n"
definition quad_year :: "int \<Rightarrow> int" where "quad_year n = min 3 (day_of_quad n div 365)"
definition day_of_year :: "int \<Rightarrow> int" where "day_of_year n = day_of_quad n - 365 * quad_year n"

definition year_length :: "int \<Rightarrow> int" where
  "year_length n = (if quad_year n = 3 \<and> (quad n \<noteq> 24 \<or> century n = 3) then 366 else 365)"

text \<open>Months from March, and the day of the year one starts on.\<close>

definition month_of :: "int \<Rightarrow> int" where "month_of n = (5 * day_of_year n + 2) div 153"
definition month_offset :: "int \<Rightarrow> int" where "month_offset m = (153 * m + 2) div 5"

definition month_first :: "int \<Rightarrow> int" where
  "month_first n = n - day_of_year n + month_offset (month_of n)"

definition next_month :: "int \<Rightarrow> int" where
  "next_month n = n - day_of_year n + (if month_of n = 11 then year_length n else month_offset (month_of n + 1))"

definition weekday :: "int \<Rightarrow> int" where
  "weekday n = (n + 4) mod 7"

subsection \<open>The windows\<close>

definition local_day :: "local_clock \<Rightarrow> int \<Rightarrow> int" where
  "local_day z t = z_local z t div 86400"

definition midnight :: "local_clock \<Rightarrow> int \<Rightarrow> int" where
  "midnight z t = z_utc z (86400 * local_day z t)"

definition set_day :: "local_clock \<Rightarrow> int \<Rightarrow> int \<Rightarrow> int" where
  "set_day z t k = z_utc z (86400 * k + z_local z t mod 86400)"

definition periodStartSec :: "local_clock \<Rightarrow> budget_renewal \<Rightarrow> int \<Rightarrow> int" where
  "periodStartSec z renewal now = (let d = midnight z now in case renewal of
     Never \<Rightarrow> 0
   | Daily \<Rightarrow> d
   | Weekly \<Rightarrow> set_day z d (local_day z d - (weekday (local_day z d) + 6) mod 7)
   | Monthly \<Rightarrow> set_day z d (month_first (local_day z d)))"

definition nextRenewalSec :: "local_clock \<Rightarrow> budget_renewal \<Rightarrow> int \<Rightarrow> int option" where
  "nextRenewalSec z renewal now = (let d = periodStartSec z renewal now in case renewal of
     Never \<Rightarrow> None
   | Daily \<Rightarrow> Some (set_day z d (local_day z d + 1))
   | Weekly \<Rightarrow> Some (set_day z d (local_day z d + 7))
   | Monthly \<Rightarrow> Some (set_day z d (next_month (local_day z d))))"

definition parseBudgetRenewal :: "string \<Rightarrow> budget_renewal option" where
  "parseBudgetRenewal s =
     (if s = ''never'' then Some Never else if s = ''daily'' then Some Daily
      else if s = ''weekly'' then Some Weekly else if s = ''monthly'' then Some Monthly else None)"

subsection \<open>Months partition the days\<close>

lemma calendar_bounds:
  "0 \<le> century n" "century n \<le> 3" "0 \<le> day_of_century n"
  "day_of_century n < (if century n = 3 then 36525 else 36524)"
  "0 \<le> quad n" "quad n \<le> 24" "0 \<le> day_of_quad n" "day_of_quad n < (if quad n = 24 \<and> century n \<noteq> 3 then 1460 else 1461)"
  "0 \<le> quad_year n" "quad_year n \<le> 3" "0 \<le> day_of_year n" "day_of_year n < year_length n"
proof -
  have e: "0 \<le> day_of_era n" "day_of_era n < 146097" by (simp_all add: day_of_era_def)
  show c: "0 \<le> century n" "century n \<le> 3" using e by (simp_all add: century_def)
  show d: "0 \<le> day_of_century n" "day_of_century n < (if century n = 3 then 36525 else 36524)"
    using e by (auto simp: day_of_century_def century_def min_def split: if_splits)
  show q: "0 \<le> quad n" "quad n \<le> 24" using d by (auto simp: quad_def split: if_splits)
  show r: "0 \<le> day_of_quad n" "day_of_quad n < (if quad n = 24 \<and> century n \<noteq> 3 then 1460 else 1461)"
    using d by (auto simp: day_of_quad_def quad_def split: if_splits)
  show y: "0 \<le> quad_year n" "quad_year n \<le> 3" using r by (simp_all add: quad_year_def)
  show "0 \<le> day_of_year n" "day_of_year n < year_length n"
    using r by (auto simp: day_of_year_def quad_year_def year_length_def min_def split: if_splits)
qed

text \<open>The parts of a day determine it, and are determined by it.\<close>

lemma day_of_parts:
  "shifted n = 146097 * (shifted n div 146097) + 36524 * century n + 1461 * quad n + 365 * quad_year n + day_of_year n"
  by (simp add: day_of_year_def day_of_quad_def day_of_century_def day_of_era_def)

lemma parts_unique:
  assumes s: "shifted m = 146097 * era + 36524 * c + 1461 * q + 365 * y + d"
    and c: "0 \<le> c" "c \<le> 3" and q: "0 \<le> q" "q \<le> 24" and y: "0 \<le> y" "y \<le> 3"
    and d: "0 \<le> d" "d < (if y = 3 \<and> (q \<noteq> 24 \<or> c = 3) then 366 else 365)"
  shows "century m = c \<and> quad m = q \<and> quad_year m = y \<and> day_of_year m = d"
proof -
  have r: "0 \<le> 365 * y + d" "365 * y + d < (if q = 24 \<and> c \<noteq> 3 then 1460 else 1461)"
    using y d by (auto split: if_splits)
  then have k: "0 \<le> 1461 * q + (365 * y + d)" "1461 * q + (365 * y + d) < (if c = 3 then 36525 else 36524)"
    using q by (auto split: if_splits)
  then have e: "0 \<le> 36524 * c + (1461 * q + (365 * y + d))" "36524 * c + (1461 * q + (365 * y + d)) < 146097"
    using c by (auto split: if_splits)
  then have era: "day_of_era m = 36524 * c + (1461 * q + (365 * y + d))"
  proof -
    have "shifted m = (36524 * c + (1461 * q + (365 * y + d))) + 146097 * era" by (simp add: s)
    then show ?thesis by (simp only: day_of_era_def mod_mult_self2 mod_pos_pos_trivial [OF e])
  qed
  have cent: "century m = c"
    unfolding century_def era using c k by (cases "c = 3") (auto simp: min_def div_pos_pos_trivial)
  then have cd: "day_of_century m = 1461 * q + (365 * y + d)" by (simp add: day_of_century_def era)
  have qd: "quad m = q" using r unfolding quad_def cd by (auto split: if_splits)
  then have qq: "day_of_quad m = 365 * y + d" by (simp add: day_of_quad_def cd)
  have "quad_year m = y"
    unfolding quad_year_def qq using y d by (cases "y = 3") (auto simp: min_def split: if_splits)
  with cent qd show ?thesis by (simp add: day_of_year_def qq)
qed

lemma mult_le_div:
  fixes a x q :: int
  assumes "0 < a"
  shows "a * q \<le> x \<longleftrightarrow> q \<le> x div a"
proof
  assume "a * q \<le> x"
  then have "a * q div a \<le> x div a" using assms by (intro zdiv_mono1)
  then show "q \<le> x div a" using assms by simp
next
  assume "q \<le> x div a"
  then have "a * q \<le> a * (x div a)" using assms by simp
  also have "\<dots> \<le> x" using assms mult_div_mod_eq [of a x] pos_mod_sign [of a x] by linarith
  finally show "a * q \<le> x" .
qed

lemma div_bounds:
  fixes x d p :: int
  shows "x div 5 \<le> d \<longleftrightarrow> x < 5 * d + 5" and "d < x div 5 \<longleftrightarrow> 5 * d + 5 \<le> x"
    and "x div 153 = p \<longleftrightarrow> 153 * p \<le> x \<and> x < 153 * p + 153"
proof -
  show "x div 5 \<le> d \<longleftrightarrow> x < 5 * d + 5" by presburger
  show "d < x div 5 \<longleftrightarrow> 5 * d + 5 \<le> x" by presburger
  have le: "153 * q \<le> x \<longleftrightarrow> q \<le> x div 153" for q
    by (rule mult_le_div)  simp
  show "x div 153 = p \<longleftrightarrow> 153 * p \<le> x \<and> x < 153 * p + 153"
    using le [of p] le [of "p + 1"] by auto
qed

lemma month_bounds:
  "0 \<le> month_of n" "month_of n \<le> 11" "month_offset (month_of n) \<le> day_of_year n"
  "month_of n \<noteq> 11 \<Longrightarrow> day_of_year n < month_offset (month_of n + 1)"
proof -
  have d: "0 \<le> day_of_year n" "day_of_year n \<le> 365"
    using calendar_bounds [of n] by (auto simp: year_length_def split: if_splits)
  then show "0 \<le> month_of n" "month_of n \<le> 11" by (simp_all add: month_of_def)
  have p: "153 * month_of n \<le> 5 * day_of_year n + 2" "5 * day_of_year n + 2 < 153 * month_of n + 153"
    using div_bounds(3) [of "5 * day_of_year n + 2" "month_of n"] by (simp_all add: month_of_def)
  then show "month_offset (month_of n) \<le> day_of_year n" by (simp add: month_offset_def div_bounds)
  show "month_of n \<noteq> 11 \<Longrightarrow> day_of_year n < month_offset (month_of n + 1)"
    using p by (simp add: month_offset_def div_bounds)
qed

lemma month_by_offset:
  "p \<le> 11 \<Longrightarrow> month_offset p \<le> d \<Longrightarrow> d < (if p = 11 then 366 else month_offset (p + 1)) \<Longrightarrow> (5 * d + 2) div 153 = p"
  unfolding month_offset_def div_bounds by (auto split: if_splits)

lemma month_offset_year: "p \<noteq> 11 \<Longrightarrow> 0 \<le> p \<Longrightarrow> p \<le> 11 \<Longrightarrow> month_offset (p + 1) < 365"
  by (simp add: month_offset_def div_bounds)

text \<open>Every day of a month has the same first day and the same following month.\<close>

lemma same_month:
  assumes "month_first n \<le> m" "m < next_month n"
  shows "month_first m = month_first n \<and> next_month m = next_month n"
proof -
  let ?d = "day_of_year n + (m - n)" and ?p = "month_of n"
  have p: "0 \<le> ?p" "?p \<le> 11" by (rule month_bounds)+
  have lo: "month_offset ?p \<le> ?d" using assms(1) by (simp add: month_first_def)
  have hi: "?d < (if ?p = 11 then year_length n else month_offset (?p + 1))" using assms(2) by (simp add: next_month_def split: if_splits)
  have "0 \<le> month_offset ?p" using p by (simp add: month_offset_def)
  with lo have d0: "0 \<le> ?d" by simp
  have yl: "365 \<le> year_length n" "year_length n \<le> 366" by (simp_all add: year_length_def)
  have d1: "?d < year_length n" using hi yl(1) month_offset_year [of ?p] p by (simp split: if_splits)
  have "shifted m = shifted n + (m - n)" by (simp add: shifted_def)
  then have s: "shifted m = 146097 * (shifted n div 146097) + 36524 * century n + 1461 * quad n + 365 * quad_year n + ?d"
    using day_of_parts [of n] by simp
  have parts: "century m = century n \<and> quad m = quad n \<and> quad_year m = quad_year n \<and> day_of_year m = ?d"
    by (rule parts_unique [OF s]) (use calendar_bounds [of n] d0 d1 in \<open>simp_all add: year_length_def\<close>)
  then have yr: "year_length m = year_length n" by (simp add: year_length_def)
  have "month_of m = ?p"
  proof -
    have "?d < (if ?p = 11 then 366 else month_offset (?p + 1))" using hi yl by (simp split: if_splits)
    with parts month_by_offset [OF p(2) lo] show ?thesis by (simp only: month_of_def [of m])
  qed
  with parts yr show ?thesis by (simp add: month_first_def next_month_def)
qed

lemma month_contains: "month_first n \<le> n" "n < next_month n"
  using month_bounds [of n] calendar_bounds(12) [of n] by (auto simp: month_first_def next_month_def)

lemma month_first_idem: "month_first (month_first n) = month_first n" "next_month (month_first n) = next_month n"
  using same_month [of n "month_first n"] month_contains [of n] by auto

subsection \<open>Windows partition time\<close>

text \<open>What a host's zone data promises about midnights: each day has one, and it separates the instants
  of the days before from those of the day and after.\<close>

definition regular_clock :: "local_clock \<Rightarrow> bool" where
  "regular_clock z \<longleftrightarrow> (\<forall>n. z_local z (z_utc z (86400 * n)) = 86400 * n)
     \<and> (\<forall>n t. z_utc z (86400 * n) \<le> t \<longleftrightarrow> 86400 * n \<le> z_local z t)"

definition window_day :: "budget_renewal \<Rightarrow> int \<Rightarrow> int" where
  "window_day r n = (case r of Monthly \<Rightarrow> month_first n | Weekly \<Rightarrow> n - (weekday n + 6) mod 7 | _ \<Rightarrow> n)"

definition window_end :: "budget_renewal \<Rightarrow> int \<Rightarrow> int" where
  "window_end r n = (case r of Monthly \<Rightarrow> next_month n | Weekly \<Rightarrow> window_day Weekly n + 7 | _ \<Rightarrow> n + 1)"

lemma clock_midnight:
  assumes "regular_clock z"
  shows "local_day z (midnight z t) = local_day z t" "set_day z (midnight z t) k = z_utc z (86400 * k)"
    "local_day z (z_utc z (86400 * k)) = k" "set_day z (z_utc z (86400 * k)) j = z_utc z (86400 * j)"
    "z_utc z (86400 * k) \<le> t \<longleftrightarrow> k \<le> local_day z t"
proof -
  have m: "86400 * k \<le> y \<longleftrightarrow> k \<le> y div 86400" for k y :: int by (rule mult_le_div) simp
  show "local_day z (midnight z t) = local_day z t" "set_day z (midnight z t) k = z_utc z (86400 * k)"
    "local_day z (z_utc z (86400 * k)) = k" "set_day z (z_utc z (86400 * k)) j = z_utc z (86400 * j)"
    using assms by (simp_all add: regular_clock_def local_day_def midnight_def set_day_def)
  show "z_utc z (86400 * k) \<le> t \<longleftrightarrow> k \<le> local_day z t"
    using assms by (simp only: regular_clock_def local_day_def m)
qed

lemma window_start:
  assumes "regular_clock z" "r \<noteq> Never"
  shows "periodStartSec z r t = z_utc z (86400 * window_day r (local_day z t))"
    and "nextRenewalSec z r t = Some (z_utc z (86400 * window_end r (local_day z t)))"
proof -
  note c = clock_midnight [OF assms(1)]
  show s: "periodStartSec z r t = z_utc z (86400 * window_day r (local_day z t))"
    using assms(2) by (cases r) (simp_all add: periodStartSec_def window_day_def c midnight_def Let_def)
  show "nextRenewalSec z r t = Some (z_utc z (86400 * window_end r (local_day z t)))"
    unfolding nextRenewalSec_def s Let_def c
    using assms(2) by (cases r) (simp_all add: window_day_def window_end_def month_first_idem)
qed

lemma window_week: "window_day Weekly n = 7 * ((n + 3) div 7) - 3"
proof -
  have "((n + 4) mod 7 + 6) mod 7 = (n + 3 + 7) mod 7" by (simp add: mod_simps)
  then have "(weekday n + 6) mod 7 = (n + 3) mod 7" by (simp only: weekday_def mod_add_self2)
  then have "window_day Weekly n = (n + 3) - (n + 3) mod 7 - 3" by (simp add: window_day_def)
  also have "\<dots> = 7 * ((n + 3) div 7) - 3" by (simp only: minus_mod_eq_mult_div)
  finally show ?thesis .
qed

lemma window_days:
  assumes "r \<noteq> Never"
  shows "window_day r n \<le> n" "n < window_end r n"
    and "window_day r n \<le> m \<Longrightarrow> m < window_end r n \<Longrightarrow> window_day r m = window_day r n"
proof -
  have w: "7 * k \<le> y \<longleftrightarrow> k \<le> y div 7" for k y :: int by (rule mult_le_div) simp
  have week: "window_day Weekly n \<le> m \<and> m < window_end Weekly n \<longleftrightarrow> (m + 3) div 7 = (n + 3) div 7" for m
    unfolding window_end_def using w [of "(n + 3) div 7" "m + 3"] w [of "(n + 3) div 7 + 1" "m + 3"]
    by (auto simp: window_week)
  show "window_day r n \<le> n" "n < window_end r n"
    using assms month_contains [of n] week [of n] by (cases r; simp add: window_day_def window_end_def)+
  assume "window_day r n \<le> m" "m < window_end r n"
  then show "window_day r m = window_day r n"
    using assms same_month [of n m] week [of m]
    by (cases r) (simp_all add: window_week, simp_all add: window_day_def window_end_def)
qed

text \<open>Budget windows partition time. On a host whose midnights are regular, a renewing budget's current
  window contains the present, ends strictly after it, and every instant inside it computes the same
  window start; a weekly window starts on a Monday and a monthly one on the first of its month.\<close>

theorem budget_window_sound:
  assumes "regular_clock z" and "r \<noteq> Never"
  shows "\<exists>e. nextRenewalSec z r now = Some e \<and> periodStartSec z r now \<le> now \<and> now < e
    \<and> (\<forall>t. periodStartSec z r now \<le> t \<and> t < e \<longrightarrow> periodStartSec z r t = periodStartSec z r now)
    \<and> (r = Weekly \<longrightarrow> weekday (local_day z (periodStartSec z r now)) = 1)
    \<and> (r = Monthly \<longrightarrow> month_first (local_day z (periodStartSec z r now)) = local_day z (periodStartSec z r now))"
proof -
  note c = clock_midnight [OF assms(1)] and s = window_start [OF assms] and d = window_days [OF assms(2)]
  have lt: "t < z_utc z (86400 * k) \<longleftrightarrow> local_day z t < k" for t k
    using c(5) [of k t] by linarith
  have "weekday (7 * k - 3) = 1" for k
  proof -
    have "7 * k - 3 + 4 = 1 + 7 * k" by simp
    then show ?thesis by (simp only: weekday_def mod_mult_self2) simp
  qed
  then have mon: "r = Weekly \<Longrightarrow> weekday (window_day r n) = 1" for n by (simp add: window_week)
  show ?thesis
    unfolding s
  proof (intro exI conjI)
    show "z_utc z (86400 * window_day r (local_day z now)) \<le> now" "now < z_utc z (86400 * window_end r (local_day z now))"
      using d(1,2) by (simp_all only: c lt)
    show "\<forall>t. z_utc z (86400 * window_day r (local_day z now)) \<le> t \<and> t < z_utc z (86400 * window_end r (local_day z now))
        \<longrightarrow> z_utc z (86400 * window_day r (local_day z t)) = z_utc z (86400 * window_day r (local_day z now))"
      by (simp only: c lt) (metis d(3))
    show "r = Weekly \<longrightarrow> weekday (local_day z (z_utc z (86400 * window_day r (local_day z now)))) = 1"
      unfolding c using mon by blast
    show "r = Monthly \<longrightarrow> month_first (local_day z (z_utc z (86400 * window_day r (local_day z now))))
        = local_day z (z_utc z (86400 * window_day r (local_day z now)))"
      using month_first_idem(1) by (simp add: c window_day_def)
  qed (rule refl)
qed

definition utc_clock :: local_clock where
  "utc_clock = \<lparr>z_local = \<lambda>t. t, z_utc = \<lambda>t. t\<rparr>"

lemma regular_utc: "regular_clock utc_clock"
  by (simp add: regular_clock_def utc_clock_def)

text \<open>On 2024-02-29 at noon, and across the end of February.\<close>

theorem budget_window_sound_witness:
  "periodStartSec utc_clock Monthly 1709208000 = 1706745600 \<and> nextRenewalSec utc_clock Monthly 1709208000 = Some 1709251200
    \<and> periodStartSec utc_clock Monthly 1709251199 = 1706745600"
proof -
  have p: "century 19782 = 0 \<and> quad 19782 = 5 \<and> quad_year 19782 = 3 \<and> day_of_year 19782 = 365"
    by (rule parts_unique [where era = 5]) (simp_all add: shifted_def)
  have "local_day utc_clock 1709208000 = 19782" by (simp add: local_day_def utc_clock_def)
  then have now: "periodStartSec utc_clock Monthly 1709208000 = 1706745600" "nextRenewalSec utc_clock Monthly 1709208000 = Some 1709251200"
    using p by (simp_all add: window_start [OF regular_utc] window_day_def window_end_def month_first_def next_month_def month_of_def
        month_offset_def year_length_def) (simp_all add: utc_clock_def)
  with budget_window_sound [OF regular_utc, of Monthly 1709208000] show ?thesis by simp
qed

end
