(* ===== verification/Nwc_Ledger.thy ===== *)
theory Nwc_Ledger
  imports Budget_Window Swap_Repo Swap_Script
begin

text \<open>
  The NIP-47 ledger: the handlers \<open>pay_invoice\<close>, \<open>make_invoice\<close>, \<open>lookup_invoice\<close> and
  \<open>list_transactions\<close> of \<open>src/handlers/\<close>, the connections of \<open>src/nostr/connections.ts\<close>, the spend
  sum of \<open>src/lib/budget.ts\<close> and the row conversion of \<open>src/lib/transaction.ts\<close>, over the tables
  \<open>transactions\<close>, \<open>connections\<close> and \<open>history\<close>.

  A handler runs without interruption from one await to the next. \<open>pay_invoice\<close> awaits once, the send
  itself, so it is the segment before it (\<open>pay_begin\<close>) and the two after it (\<open>pay_settle\<close>,
  \<open>pay_fail\<close>); \<open>handlePayInvoice\<close> composes them around a send. Millisats are integers; a decoded
  invoice without an amount has amount 0.
\<close>

subsection \<open>SQL on the tables\<close>

definition update_txs :: "(tx_row \<Rightarrow> bool) \<Rightarrow> (tx_row \<Rightarrow> tx_row) \<Rightarrow> db \<Rightarrow> db" where
  "update_txs P f d = d\<lparr>txs := map (\<lambda>r. if P r then f r else r) (txs d)\<rparr>"

text \<open>An \<open>INTEGER PRIMARY KEY\<close> left out of an insert is one more than the largest.\<close>

definition next_id :: "nat list \<Rightarrow> nat" where
  "next_id ids = Suc (foldr max ids 0)"

lemma next_id_fresh: "i \<in> set ids \<Longrightarrow> i < next_id ids"
proof -
  have "i \<in> set ids \<Longrightarrow> i \<le> foldr max ids 0" by (induction ids) auto
  then show "i \<in> set ids \<Longrightarrow> i < next_id ids" by (simp add: next_id_def)
qed

definition insert_tx :: "tx_row \<Rightarrow> unit bridge" where
  "insert_tx row d = (if t_event row \<in> t_event ` set (txs d) then (Inl (Error ''UNIQUE constraint failed''), d)
     else (Inr (), d\<lparr>txs := txs d @ [row\<lparr>t_id := next_id (map t_id (txs d))\<rparr>]\<rparr>))"

definition add_spent :: "int \<Rightarrow> nat \<Rightarrow> db \<Rightarrow> db" where
  "add_spent msat conn d = d\<lparr>conns := map (\<lambda>c. if n_id c = conn then c\<lparr>n_spentMsat := n_spentMsat c + msat\<rparr> else c) (conns d)\<rparr>"

text \<open>\<open>INSERT INTO history ... ON CONFLICT(kind, ref) DO NOTHING\<close>; two NULLs do not conflict.\<close>

definition history_insert :: "history_row \<Rightarrow> db \<Rightarrow> db" where
  "history_insert row d =
     (if h_ref row \<noteq> None \<and> (\<exists>r \<in> set (history d). h_kind r = h_kind row \<and> h_ref r = h_ref row) then d
      else d\<lparr>history := history d @ [row\<lparr>h_id := next_id (map h_id (history d))\<rparr>]\<rparr>)"

definition recordNwcLn :: "bool \<Rightarrow> string \<Rightarrow> int \<Rightarrow> int option \<Rightarrow> string option \<Rightarrow> int \<Rightarrow> db \<Rightarrow> db" where
  "recordNwcLn out event amount fees description createdAt =
     history_insert \<lparr>h_id = 0, h_kind = Nwc_ln, h_out = out, h_state = Tx_pending, h_amountMsat = amount, h_feesMsat = fees,
       h_description = description, h_ref = Some event, h_txid = None, h_txid2 = None, h_error = None,
       h_createdAt = createdAt, h_settledAt = None\<rparr>"

subsection \<open>Connections\<close>

definition findConnectionById :: "db \<Rightarrow> nat \<Rightarrow> connection option" where
  "findConnectionById d i = find_first (\<lambda>c. n_id c = i) (conns d)"

definition findConnectionByServicePubkey :: "db \<Rightarrow> string \<Rightarrow> connection option" where
  "findConnectionByServicePubkey d pk = find_first (\<lambda>c. n_servicePubkey c = pk \<and> n_revokedAt c = None) (conns d)"

text \<open>The keys are generated outside; \<open>service_pubkey_hex\<close> is unique.\<close>

definition createConnection :: "string option \<Rightarrow> string list \<Rightarrow> int option \<Rightarrow> budget_renewal option \<Rightarrow> string \<Rightarrow> string \<Rightarrow> int
    \<Rightarrow> connection bridge" where
  "createConnection label relays budget renewal servicePubkey clientPubkey createdAt d =
     (if relays = [] then (Inl (Error ''at least one relay url is required''), d)
      else if servicePubkey \<in> n_servicePubkey ` set (conns d) then (Inl (Error ''UNIQUE constraint failed''), d)
      else (let c = \<lparr>n_id = next_id (map n_id (conns d)), n_label = label, n_servicePubkey = servicePubkey,
              n_clientPubkey = clientPubkey, n_relays = relays, n_budgetMsat = budget,
              n_budgetRenewal = (case renewal of None \<Rightarrow> Never | Some r \<Rightarrow> r), n_spentMsat = 0, n_createdAt = createdAt,
              n_revokedAt = None\<rparr>
            in (Inr c, d\<lparr>conns := conns d @ [c]\<rparr>)))"

definition revokeConnection :: "int \<Rightarrow> nat \<Rightarrow> db \<Rightarrow> db" where
  "revokeConnection now i d = d\<lparr>conns := map (\<lambda>c. if n_id c = i \<and> n_revokedAt c = None then c\<lparr>n_revokedAt := Some now\<rparr> else c) (conns d)\<rparr>"

definition listActiveConnections :: "db \<Rightarrow> connection list" where
  "listActiveConnections d = js_sort (\<lambda>a b. int (n_id a) - int (n_id b)) (filter (\<lambda>c. n_revokedAt c = None) (conns d))"

subsection \<open>The spend sum\<close>

definition of_conn :: "nat \<Rightarrow> tx_row \<Rightarrow> bool" where
  "of_conn conn r \<longleftrightarrow> t_connection r = conn \<and> t_type r = Outgoing"

definition with_fees :: "tx_row \<Rightarrow> int" where
  "with_fees r = t_amountMsat r + (case t_feesPaidMsat r of None \<Rightarrow> 0 | Some f \<Rightarrow> f)"

definition cycleSpentMsat :: "local_clock \<Rightarrow> db \<Rightarrow> nat \<Rightarrow> budget_renewal \<Rightarrow> int \<Rightarrow> int" where
  "cycleSpentMsat z d conn renewal now =
     (if renewal = Never
      then (case findConnectionById d conn of None \<Rightarrow> 0 | Some c \<Rightarrow> n_spentMsat c)
        + sum_list (map t_amountMsat (filter (\<lambda>r. of_conn conn r \<and> t_state r = Tx_pending) (txs d)))
      else sum_list (map with_fees (filter (\<lambda>r. of_conn conn r \<and> periodStartSec z renewal now \<le> t_createdAt r
             \<and> t_state r \<in> {Tx_pending, Tx_settled}) (txs d))))"

subsection \<open>\<open>pay_invoice\<close>\<close>

record ln_invoice =
  li_paymentHash :: string
  li_amountSats :: int
  li_description :: string

datatype pay_start = Replay string | Sending ln_invoice int

definition satsToMsats :: "int \<Rightarrow> int" where
  "satsToMsats sats = sats * 1000"

definition settled_preimage :: "db \<Rightarrow> string \<Rightarrow> string option" where
  "settled_preimage d h = (case find_first (\<lambda>r. t_type r = Outgoing \<and> t_paymentHash r = h \<and> t_state r = Tx_settled) (txs d) of
     None \<Rightarrow> None | Some r \<Rightarrow> if t_preimage r = Some [] then None else t_preimage r)"

definition in_flight :: "db \<Rightarrow> nat \<Rightarrow> string \<Rightarrow> bool" where
  "in_flight d conn h \<longleftrightarrow> (\<exists>r \<in> set (txs d). of_conn conn r \<and> t_paymentHash r = h \<and> t_state r = Tx_pending)"

definition over_budget :: "local_clock \<Rightarrow> db \<Rightarrow> connection \<Rightarrow> int \<Rightarrow> int \<Rightarrow> bool" where
  "over_budget z d conn msat now = (case n_budgetMsat conn of None \<Rightarrow> False
     | Some budget \<Rightarrow> budget < cycleSpentMsat z d (n_id conn) (n_budgetRenewal conn) now + msat)"

definition pay_row :: "nat \<Rightarrow> string \<Rightarrow> string \<Rightarrow> string \<Rightarrow> int \<Rightarrow> int \<Rightarrow> tx_row" where
  "pay_row conn event invoice h msat createdAt = \<lparr>t_id = 0, t_connection = conn, t_type = Outgoing, t_event = event,
     t_invoice = invoice, t_paymentHash = h, t_amountMsat = msat, t_feesPaidMsat = None, t_description = None, t_swapId = None,
     t_state = Tx_pending, t_preimage = None, t_error = None, t_createdAt = createdAt, t_expiresAt = None, t_settledAt = None\<rparr>"

definition pay_begin :: "local_clock \<Rightarrow> (string \<Rightarrow> string + ln_invoice) \<Rightarrow> connection \<Rightarrow> string \<Rightarrow> string option \<Rightarrow> int \<Rightarrow> pay_start bridge" where
  "pay_begin z decode conn event param now =
     (case param of None \<Rightarrow> throw (Nwc_error ''OTHER'' ''invoice (bolt11) is required'')
      | Some invoice \<Rightarrow> (if invoice = [] then throw (Nwc_error ''OTHER'' ''invoice (bolt11) is required'') else
     (case decode invoice of Inl e \<Rightarrow> throw (Nwc_error ''OTHER'' ''invalid BOLT11 invoice'')
      | Inr dec \<Rightarrow>
     andthen (guard_eff (0 < li_amountSats dec) (Nwc_error ''OTHER'' ''0-amount invoices are not supported'')) (\<lambda>u.
     (let msat = satsToMsats (li_amountSats dec) in
     andthen (reading (\<lambda>d. settled_preimage d (li_paymentHash dec))) (\<lambda>settled. case settled of Some pre \<Rightarrow> ret (Replay pre)
      | None \<Rightarrow>
     andthen (reading (\<lambda>d. in_flight d (n_id conn) (li_paymentHash dec))) (\<lambda>flying.
     andthen (guard_eff (\<not> flying) (Nwc_error ''OTHER'' ''an identical invoice is already being paid on this connection'')) (\<lambda>u.
     andthen (reading (\<lambda>d. over_budget z d conn msat now)) (\<lambda>over.
     andthen (guard_eff (\<not> over) (Nwc_error ''QUOTA_EXCEEDED'' ''connection budget exceeded'')) (\<lambda>u.
     andthen (insert_tx (pay_row (n_id conn) event invoice (li_paymentHash dec) msat now)) (\<lambda>u.
     andthen (modify (recordNwcLn True event msat None
        (if li_description dec = [] then None else Some (li_description dec)) now)) (\<lambda>u.
     ret (Sending dec msat)))))))))))))"

text \<open>\<open>onSwapCreated\<close>: the link to the swap.\<close>

definition pay_swap_created :: "string \<Rightarrow> string \<Rightarrow> db \<Rightarrow> db" where
  "pay_swap_created event swapId = update_txs (\<lambda>r. t_event r = event \<and> t_state r = Tx_pending) (\<lambda>r. r\<lparr>t_swapId := Some swapId\<rparr>)"

definition pay_fail :: "string \<Rightarrow> string \<Rightarrow> db \<Rightarrow> db" where
  "pay_fail event msg = update_txs (\<lambda>r. t_event r = event) (\<lambda>r. r\<lparr>t_state := Tx_failed, t_error := Some msg\<rparr>)"

record ln_result =
  lr_amount :: int
  lr_preimage :: string
  lr_txid :: string
  lr_swapId :: string

definition fees_of :: "int \<Rightarrow> int \<Rightarrow> int" where
  "fees_of msat paid = max 0 (paid - msat)"

definition pay_settle :: "nat \<Rightarrow> string \<Rightarrow> int \<Rightarrow> ln_result \<Rightarrow> int \<Rightarrow> db \<Rightarrow> db" where
  "pay_settle conn event msat res now d = add_spent (satsToMsats (lr_amount res)) conn
     (update_txs (\<lambda>r. t_event r = event) (\<lambda>r. r\<lparr>t_state := Tx_settled, t_preimage := Some (lr_preimage res),
        t_feesPaidMsat := Some (fees_of msat (satsToMsats (lr_amount res))), t_settledAt := Some now,
        t_swapId := Some (lr_swapId res)\<rparr>) d)"

definition err_message :: "err \<Rightarrow> string" where
  "err_message e = (case e of Error m \<Rightarrow> m | Nwc_error c m \<Rightarrow> m | Network_error m \<Rightarrow> (case m of None \<Rightarrow> [] | Some s \<Rightarrow> s) | _ \<Rightarrow> [])"

definition handlePayInvoice :: "local_clock \<Rightarrow> (string \<Rightarrow> string + ln_invoice) \<Rightarrow> (string \<Rightarrow> ln_result bridge) \<Rightarrow> connection \<Rightarrow> string
    \<Rightarrow> string option \<Rightarrow> int \<Rightarrow> int \<Rightarrow> (string \<times> int option) bridge" where
  "handlePayInvoice z decode send conn event param now later =
     andthen (pay_begin z decode conn event param now) (\<lambda>st. case st of
       Replay pre \<Rightarrow> ret (pre, None)
     | Sending dec msat \<Rightarrow>
     andthen (catching (send (the param)) (\<lambda>e. andthen (modify (pay_fail event (err_message e))) (\<lambda>u.
        throw (Nwc_error ''PAYMENT_FAILED'' (err_message e))))) (\<lambda>res.
     andthen (modify (pay_settle (n_id conn) event msat res later)) (\<lambda>u.
     (let fees = fees_of msat (satsToMsats (lr_amount res)) in
     ret (lr_preimage res, if 0 < fees then Some fees else None)))))"

text \<open>What the first segment of a payment does.\<close>

lemma pay_begin_cases:
  assumes "pay_begin z dec conn event param now d = (r, d')"
  obtains (same) "d' = d" "\<And>dinv msat. r \<noteq> Inr (Sending dinv msat)"
  | (sent) invoice dinv where "dec invoice = Inr dinv" "0 < li_amountSats dinv" "r = Inr (Sending dinv (satsToMsats (li_amountSats dinv)))"
      "settled_preimage d (li_paymentHash dinv) = None" "\<not> in_flight d (n_id conn) (li_paymentHash dinv)"
      "\<not> over_budget z d conn (satsToMsats (li_amountSats dinv)) now" "event \<notin> t_event ` set (txs d)"
      "txs d' = txs d @ [(pay_row (n_id conn) event invoice (li_paymentHash dinv) (satsToMsats (li_amountSats dinv)) now)
         \<lparr>t_id := next_id (map t_id (txs d))\<rparr>]" "conns d' = conns d" "swaps d' = swaps d" "boltzSwaps d' = boltzSwaps d"
      "calls d' = calls d" "param = Some invoice"
proof (cases "d' = d \<and> (\<forall>dinv msat. r \<noteq> Inr (Sending dinv msat))")
  case True
  then show ?thesis using same by blast
next
  case False
  have h: "txs (recordNwcLn a b c e g h i) = txs i" "conns (recordNwcLn a b c e g h i) = conns i" "swaps (recordNwcLn a b c e g h i) = swaps i"
     "calls (recordNwcLn a b c e g h i) = calls i" "boltzSwaps (recordNwcLn a b c e g h i) = boltzSwaps i" for a b c e g h i
    by (simp_all add: recordNwcLn_def history_insert_def)
  show ?thesis
    using assms False
    by (auto simp: pay_begin_def andthen_def guard_eff_def insert_tx_def Let_def h pay_row_def
        split: option.splits sum.splits if_splits intro!: sent)
qed

subsection \<open>\<open>make_invoice\<close>\<close>

record issued_invoice =
  iw_invoice :: string
  iw_paymentHash :: string
  iw_expiresAt :: int
  iw_receivedSats :: int
  iw_swapId :: "string option"

definition hex_char :: "char \<Rightarrow> bool" where
  "hex_char c \<longleftrightarrow> (CHR ''0'' \<le> c \<and> c \<le> CHR ''9'') \<or> (CHR ''a'' \<le> c \<and> c \<le> CHR ''f'') \<or> (CHR ''A'' \<le> c \<and> c \<le> CHR ''F'')"

text \<open>The checks; \<open>amount\<close> is \<open>None\<close> where the parameter is not a finite number.\<close>

definition make_check :: "rat option \<Rightarrow> string option \<Rightarrow> err + int" where
  "make_check amount descriptionHash = (case amount of
     None \<Rightarrow> Inl (Nwc_error ''OTHER'' ''amount (msat) must be a positive integer'')
   | Some a \<Rightarrow> (if a \<le> 0 then Inl (Nwc_error ''OTHER'' ''amount (msat) must be a positive integer'')
       else if \<not> is_integer (a / 1000) then Inl (Nwc_error ''OTHER'' ''amount must be a whole number of sats'')
       else case descriptionHash of
         Some h \<Rightarrow> (if length h = 64 \<and> list_all hex_char h then Inr \<lfloor>a / 1000\<rfloor>
                    else Inl (Nwc_error ''OTHER'' ''description_hash must be a 32-byte hex SHA256''))
       | None \<Rightarrow> Inr \<lfloor>a / 1000\<rfloor>))"

definition make_row :: "nat \<Rightarrow> string \<Rightarrow> issued_invoice \<Rightarrow> int \<Rightarrow> string option \<Rightarrow> int \<Rightarrow> tx_row" where
  "make_row conn event iss msat description createdAt = \<lparr>t_id = 0, t_connection = conn, t_type = Incoming, t_event = event,
     t_invoice = iw_invoice iss, t_paymentHash = iw_paymentHash iss, t_amountMsat = msat,
     t_feesPaidMsat = Some (max 0 (msat - satsToMsats (iw_receivedSats iss))), t_description = description, t_swapId = iw_swapId iss,
     t_state = Tx_pending, t_preimage = None, t_error = None, t_createdAt = createdAt, t_expiresAt = Some (iw_expiresAt iss),
     t_settledAt = None\<rparr>"

definition make_record :: "nat \<Rightarrow> string \<Rightarrow> issued_invoice \<Rightarrow> int \<Rightarrow> string option \<Rightarrow> int \<Rightarrow> tx_row bridge" where
  "make_record conn event iss msat description createdAt =
     (let row = make_row conn event iss msat description createdAt in
     andthen (insert_tx row) (\<lambda>u.
     andthen (modify (recordNwcLn False event msat (t_feesPaidMsat row) description createdAt)) (\<lambda>u. ret row)))"

definition handleMakeInvoice :: "(int \<Rightarrow> string option \<Rightarrow> string option \<Rightarrow> issued_invoice bridge) \<Rightarrow> connection \<Rightarrow> string \<Rightarrow> rat option
    \<Rightarrow> string option \<Rightarrow> string option \<Rightarrow> int \<Rightarrow> tx_row bridge" where
  "handleMakeInvoice issue conn event amount description descriptionHash now =
     andthen (lift_res (make_check amount descriptionHash)) (\<lambda>sats.
     andthen (catching (issue sats description descriptionHash) (\<lambda>e. throw (case e of
        Network_error m \<Rightarrow> Nwc_error ''OTHER'' ''boltz rejected the request'' | _ \<Rightarrow> e))) (\<lambda>iss.
     make_record (n_id conn) event iss (satsToMsats sats) description now))"

subsection \<open>What a client reads\<close>

record nwc_tx =
  x_type :: tx_type
  x_state :: tx_state
  x_invoice :: string
  x_description :: "string option"
  x_preimage :: "string option"
  x_paymentHash :: string
  x_amount :: int
  x_feesPaid :: "int option"
  x_createdAt :: int
  x_expiresAt :: "int option"
  x_settledAt :: "int option"

definition transactionRowToNwc :: "tx_row \<Rightarrow> nwc_tx" where
  "transactionRowToNwc r = (let settled = (t_state r = Tx_settled) in
     \<lparr>x_type = t_type r, x_state = t_state r, x_invoice = t_invoice r, x_description = t_description r,
      x_preimage = (if settled then t_preimage r else None), x_paymentHash = t_paymentHash r, x_amount = t_amountMsat r,
      x_feesPaid = t_feesPaidMsat r, x_createdAt = t_createdAt r, x_expiresAt = t_expiresAt r,
      x_settledAt = (if settled then t_settledAt r else None)\<rparr>)"

definition newest_row :: "tx_row list \<Rightarrow> tx_row option" where
  "newest_row rows = (case js_sort (\<lambda>a b. int (t_id b) - int (t_id a)) rows of [] \<Rightarrow> None | r # rs \<Rightarrow> Some r)"

definition handleLookupInvoice :: "db \<Rightarrow> connection \<Rightarrow> string option \<Rightarrow> string option \<Rightarrow> err + nwc_tx" where
  "handleLookupInvoice d conn paymentHash invoice =
     (let given = (\<lambda>p. p \<noteq> None \<and> p \<noteq> Some []) in
      if \<not> given paymentHash \<and> \<not> given invoice then Inl (Nwc_error ''OTHER'' ''payment_hash or invoice is required'')
      else case newest_row (filter (\<lambda>r. t_connection r = n_id conn \<and>
             (if given paymentHash then Some (t_paymentHash r) = paymentHash else Some (t_invoice r) = invoice)) (txs d)) of
        Some r \<Rightarrow> Inr (transactionRowToNwc r)
      | None \<Rightarrow> Inl (Nwc_error ''NOT_FOUND'' ''no transaction found for the given parameters''))"

record list_params =
  ls_from :: "int option"
  ls_until :: "int option"
  ls_limit :: "int option"
  ls_offset :: "int option"
  ls_unpaid :: bool
  ls_type :: "string option"

definition or_else :: "'a option \<Rightarrow> 'a \<Rightarrow> 'a" where
  "or_else p x = (case p of None \<Rightarrow> x | Some y \<Rightarrow> y)"

definition type_name :: "tx_type \<Rightarrow> string" where
  "type_name ty = (case ty of Incoming \<Rightarrow> ''incoming'' | Outgoing \<Rightarrow> ''outgoing'')"

definition list_wanted :: "connection \<Rightarrow> list_params \<Rightarrow> int \<Rightarrow> tx_row \<Rightarrow> bool" where
  "list_wanted conn p now r \<longleftrightarrow> t_connection r = n_id conn \<and> or_else (ls_from p) 0 \<le> t_createdAt r
     \<and> t_createdAt r \<le> or_else (ls_until p) now \<and> (ls_type p = None \<or> ls_type p = Some (type_name (t_type r)))
     \<and> (ls_unpaid p \<or> t_state r = Tx_settled)"

definition handleListTransactions :: "db \<Rightarrow> connection \<Rightarrow> list_params \<Rightarrow> int \<Rightarrow> err + nwc_tx list" where
  "handleListTransactions d conn p now =
     (let limit = min (max 1 (or_else (ls_limit p) 20)) 100; offset = max 0 (or_else (ls_offset p) 0) in
      if ls_type p \<notin> {None, Some ''incoming'', Some ''outgoing''} then Inl (Nwc_error ''OTHER'' ''type must be incoming or outgoing'')
      else Inr (map transactionRowToNwc (take (nat limit) (drop (nat offset)
        (js_sort (\<lambda>a b. t_createdAt b - t_createdAt a) (filter (list_wanted conn p now) (txs d)))))))"

end
