(* ===== verification/Boltz_Sync.thy ===== *)
theory Boltz_Sync
  imports Nwc_Ledger Ark_World
begin

text \<open>
  What boltz's events do to the ledger, \<open>src/boltz.ts\<close>: the check on the ASP's indexer that a reverse
  swap really landed, the routing of a terminal event, the write both directions share, and the boot
  and periodic pass over pending rows; and the swap store of \<open>src/boltz_repository.ts\<close>. The status
  predicates are the package's; the indexer answers anything, each time it is asked.
\<close>

record boltz_lib =
  bl_reverseFinal :: "string \<Rightarrow> bool"
  bl_reverseSuccess :: "string \<Rightarrow> bool"
  bl_submarineSuccess :: "string \<Rightarrow> bool"

record landing_world =
  lw_lib :: boltz_lib
  lw_now :: "nat \<Rightarrow> int"
  lw_walletAddress :: "nat \<Rightarrow> err + string"
  lw_scriptOf :: "string \<Rightarrow> err + string"
  lw_getVtxos :: "nat \<Rightarrow> string \<Rightarrow> err + vcoin list"

definition now_sec :: "landing_world \<Rightarrow> int bridge" where
  "now_sec w = clock_ms (\<lambda>t. lw_now w t div 1000)"

subsection \<open>The landing check\<close>

definition spent_lockup :: "vcoin \<Rightarrow> bool" where
  "spent_lockup v \<longleftrightarrow> truthy (c_arkTxId v) \<or> truthy (c_spentBy v) \<or> truthy (c_settledBy v)"

definition bound_to :: "vcoin \<Rightarrow> vcoin \<Rightarrow> bool" where
  "bound_to s o1 \<longleftrightarrow> c_arkTxId s = Some (c_txid o1) \<or> c_spentBy s = Some (c_txid o1)
     \<or> (case c_settledBy s of None \<Rightarrow> False | Some c \<Rightarrow> (case c_commitmentTxIds o1 of None \<Rightarrow> False | Some cs \<Rightarrow> c \<in> set cs))"

definition landed_once :: "landing_world \<Rightarrow> string \<Rightarrow> string \<Rightarrow> bool bridge" where
  "landed_once w lockup ours = catching
     (andthen (await (\<lambda>t. lw_getVtxos w t lockup)) (\<lambda>coins.
      (let spent = filter spent_lockup coins in
       if spent = [] then ret False
       else andthen (await (\<lambda>t. lw_getVtxos w t ours)) (\<lambda>ourCoins.
         ret (list_ex (\<lambda>o1. list_ex (\<lambda>s. bound_to s o1) spent) ourCoins)))))
     (\<lambda>e. ret False)"

fun landed_poll :: "nat \<Rightarrow> landing_world \<Rightarrow> string \<Rightarrow> string \<Rightarrow> bool bridge" where
  "landed_poll 0 w lockup ours = ret False"
| "landed_poll (Suc n) w lockup ours = andthen (landed_once w lockup ours) (\<lambda>landed.
     if landed then ret True else landed_poll n w lockup ours)"

definition REVERSE_LAND_POLLS :: nat where
  "REVERSE_LAND_POLLS = 4"

definition confirmReverseLanded :: "landing_world \<Rightarrow> boltz_swap \<Rightarrow> bool bridge" where
  "confirmReverseLanded w swap = (case bs_lockup swap of
     None \<Rightarrow> ret False
   | Some lockup \<Rightarrow> (if lockup = [] then ret False else
       andthen (catching (andthen (lift_res (lw_scriptOf w lockup)) (\<lambda>ls.
          andthen (await (lw_walletAddress w)) (\<lambda>addr.
          andthen (lift_res (lw_scriptOf w addr)) (\<lambda>os. ret (Some (ls, os)))))) (\<lambda>e. ret None)) (\<lambda>scripts.
       case scripts of None \<Rightarrow> ret False
       | Some (ls, os) \<Rightarrow> landed_poll REVERSE_LAND_POLLS w ls os)))"

subsection \<open>Writes\<close>

definition pending_swap :: "tx_type \<Rightarrow> string \<Rightarrow> tx_row \<Rightarrow> bool" where
  "pending_swap ty i r \<longleftrightarrow> t_type r = ty \<and> t_swapId r = Some i \<and> t_state r = Tx_pending"

definition finish_row :: "tx_state \<Rightarrow> string option \<Rightarrow> string option \<Rightarrow> int \<Rightarrow> tx_row \<Rightarrow> tx_row" where
  "finish_row st pre msg now r = r\<lparr>t_state := st, t_preimage := coalesce (t_preimage r) pre, t_error := coalesce (t_error r) msg,
     t_settledAt := coalesce (t_settledAt r) (Some now)\<rparr>"

text \<open>\<open>syncSwapToDb\<close>; \<open>ok\<close> is the state \<open>'settled'\<close>.\<close>

definition syncSwapToDb :: "boltz_swap \<Rightarrow> bool \<Rightarrow> string option \<Rightarrow> int \<Rightarrow> db \<Rightarrow> db" where
  "syncSwapToDb swap ok msg now = (let st = (if ok then Tx_settled else Tx_failed) in case bs_kind swap of
     Reverse \<Rightarrow> update_txs (pending_swap Incoming (bs_id swap)) (finish_row st (if ok then bs_preimage swap else None) None now)
   | Submarine \<Rightarrow> update_txs (pending_swap Outgoing (bs_id swap)) (finish_row st (bs_preimage swap) msg now)
   | Chain_swap \<Rightarrow> (\<lambda>d. d))"

subsection \<open>A terminal event\<close>

definition onSwapTerminal :: "landing_world \<Rightarrow> boltz_swap \<Rightarrow> unit bridge" where
  "onSwapTerminal w swap = (case bs_kind swap of
     Reverse \<Rightarrow> (if \<not> bl_reverseSuccess (lw_lib w) (bs_status swap)
       then andthen (now_sec w) (\<lambda>now. modify (syncSwapToDb swap False (Some ''terminal status'') now))
       else andthen (confirmReverseLanded w swap) (\<lambda>landed.
         if \<not> landed then modify (notify Recv_ln)
         else andthen (now_sec w) (\<lambda>now.
           andthen (modify (syncSwapToDb swap True None now)) (\<lambda>u.
           modify (notify (Reverse_settled (bs_id swap)))))))
   | Submarine \<Rightarrow> (if \<not> bl_submarineSuccess (lw_lib w) (bs_status swap)
       then andthen (now_sec w) (\<lambda>now. andthen (modify (syncSwapToDb swap False (Some ''terminal status'') now)) (\<lambda>u.
         modify (notify Send_fail)))
       else andthen (now_sec w) (\<lambda>now. andthen (modify (syncSwapToDb swap True None now)) (\<lambda>u.
         modify (notify Send_ln))))
   | Chain_swap \<Rightarrow> ret ())"

text \<open>The package's \<open>onSwapFailed\<close>.\<close>

definition onSwapFailed :: "landing_world \<Rightarrow> boltz_swap \<Rightarrow> string \<Rightarrow> unit bridge" where
  "onSwapFailed w swap msg = andthen (now_sec w) (\<lambda>now. andthen (modify (syncSwapToDb swap False (Some msg) now)) (\<lambda>u.
     if bs_kind swap = Submarine then modify (notify Send_fail) else ret ()))"

subsection \<open>The pass over pending rows\<close>

definition pending_incoming :: "db \<Rightarrow> string list" where
  "pending_incoming d = concat (map (\<lambda>r. case t_swapId r of None \<Rightarrow> [] | Some i \<Rightarrow> [i])
     (filter (\<lambda>r. t_type r = Incoming \<and> t_state r = Tx_pending) (txs d)))"

definition reconcile_in :: "landing_world \<Rightarrow> int \<Rightarrow> string \<Rightarrow> unit bridge" where
  "reconcile_in w now i = andthen (reading (\<lambda>d. find_first (\<lambda>s. bs_id s = i) (boltzSwaps d))) (\<lambda>row. case row of
     None \<Rightarrow> ret ()
   | Some swap \<Rightarrow> (if \<not> bl_reverseFinal (lw_lib w) (bs_status swap) then ret ()
       else (let ok = bl_reverseSuccess (lw_lib w) (bs_status swap) in
         andthen (if ok then confirmReverseLanded w swap else ret True) (\<lambda>go.
         if \<not> go then ret ()
         else modify (\<lambda>d. (let hit = (\<exists>r \<in> set (txs d). pending_swap Incoming i r);
             d' = update_txs (pending_swap Incoming i) (finish_row (if ok then Tx_settled else Tx_failed)
               (if ok then bs_preimage swap else None) None now) d
           in if hit \<and> ok then notify Recv_ln d' else d'))))))"

fun reconcile_ins :: "landing_world \<Rightarrow> int \<Rightarrow> string list \<Rightarrow> unit bridge" where
  "reconcile_ins w now [] = ret ()"
| "reconcile_ins w now (i # rest) = andthen (reconcile_in w now i) (\<lambda>u. reconcile_ins w now rest)"

text \<open>One outgoing row, as read at the start of the loop, against the atomic store.\<close>

definition reconcile_out :: "int \<Rightarrow> tx_row \<Rightarrow> db \<Rightarrow> db" where
  "reconcile_out now row d = (case repo_getByPaymentHash d (t_paymentHash row) of
     None \<Rightarrow> d
   | Some atomic \<Rightarrow>
      (let mine = (\<lambda>r. t_id r = t_id row \<and> t_state r = Tx_pending) in
       if s_direction atomic \<noteq> Send then d
       else if s_state atomic = Claimed then
         (let hit = (\<exists>r \<in> set (txs d). mine r);
              d' = update_txs mine (\<lambda>r. r\<lparr>t_state := Tx_settled, t_preimage := coalesce (t_preimage r) (s_preimage atomic),
                t_settledAt := Some now, t_feesPaidMsat := coalesce (t_feesPaidMsat r) (Some 0)\<rparr>) d
          in if hit then (case find_first (\<lambda>r. t_id r = t_id row) (txs d') of
               None \<Rightarrow> d' | Some r \<Rightarrow> add_spent (t_amountMsat row) (t_connection r) d') else d')
       else if s_state atomic \<in> {Refunded, Failed, Cancelled}
         then update_txs mine (\<lambda>r. r\<lparr>t_state := Tx_failed, t_settledAt := Some now\<rparr>) d
       else d))"

definition reconcile_outgoing :: "int \<Rightarrow> db \<Rightarrow> db" where
  "reconcile_outgoing now d = foldl (\<lambda>d row. reconcile_out now row d) d
     (filter (\<lambda>r. t_type r = Outgoing \<and> t_state r = Tx_pending) (txs d))"

definition reconcilePendingIncoming :: "landing_world \<Rightarrow> unit bridge" where
  "reconcilePendingIncoming w = andthen (now_sec w) (\<lambda>now.
     andthen (reading pending_incoming) (\<lambda>ids.
     andthen (reconcile_ins w now ids) (\<lambda>u.
     modify (reconcile_outgoing now))))"

subsection \<open>The swap store\<close>

definition saveSwap :: "boltz_swap \<Rightarrow> db \<Rightarrow> db" where
  "saveSwap swap d = d\<lparr>boltzSwaps := row_upsert bs_id swap (\<lambda>old. swap) (boltzSwaps d)\<rparr>"

definition deleteSwap :: "string \<Rightarrow> db \<Rightarrow> db" where
  "deleteSwap i d = d\<lparr>boltzSwaps := row_delete bs_id i (boltzSwaps d)\<rparr>"

record swaps_filter =
  sf_id :: "string list option"
  sf_status :: "string list option"
  sf_kind :: "boltz_kind list option"
  sf_desc :: bool

definition allowed :: "'a list option \<Rightarrow> 'a \<Rightarrow> bool" where
  "allowed f x = (case f of None \<Rightarrow> True | Some xs \<Rightarrow> x \<in> set xs)"

definition getAllSwaps :: "swaps_filter \<Rightarrow> db \<Rightarrow> boltz_swap list" where
  "getAllSwaps f d = js_sort (\<lambda>a b. if sf_desc f then bs_createdAt b - bs_createdAt a else bs_createdAt a - bs_createdAt b)
     (filter (\<lambda>s. allowed (sf_id f) (bs_id s) \<and> allowed (sf_status f) (bs_status s) \<and> allowed (sf_kind f) (bs_kind s)) (boltzSwaps d))"

definition clearSwaps :: "db \<Rightarrow> db" where
  "clearSwaps d = d\<lparr>boltzSwaps := []\<rparr>"

end
