(* ===== verification/Nwc_Run.thy ===== *)
theory Nwc_Run
  imports Boltz_Sync
begin

text \<open>
  The ledger under interleaving. JavaScript runs one segment at a time: \<open>nwc_do\<close> executes the segment
  an event enables, on the store and the handlers that are awaiting their send. A crash forgets the
  handlers and keeps the store. What other components write (the atomic store, receives, history)
  is \<open>Elsewhere\<close>: anything that leaves the outgoing rows, the connections and the row keys alone.
\<close>

record live_pay =
  lp_event :: string
  lp_conn :: nat
  lp_msat :: int

record nwc_run =
  g_db :: db
  g_live :: "live_pay list"

datatype nwc_event =
    Connect "string list" "int option" "budget_renewal option" string string int
  | Revoke nat int
  | Pay_ask string string "string option" int
  | Swap_created string string
  | Pay_done string ln_result int
  | Pay_threw string string
  | Make_done nat string issued_invoice int "string option" int
  | Boltz_event boltz_swap bool "string option" int
  | Reconcile int
  | Elsewhere db
  | Crash

definition outgoing :: "db \<Rightarrow> tx_row list" where
  "outgoing d = filter (\<lambda>r. t_type r = Outgoing) (txs d)"

definition row_keys :: "db \<Rightarrow> (nat \<times> string \<times> tx_type \<times> nat) list" where
  "row_keys d = map (\<lambda>r. (t_id r, t_event r, t_type r, t_connection r)) (txs d)"

definition live_of :: "nwc_run \<Rightarrow> string \<Rightarrow> live_pay option" where
  "live_of g event = find_first (\<lambda>p. lp_event p = event) (g_live g)"

definition drop_live :: "string \<Rightarrow> nwc_run \<Rightarrow> nwc_run" where
  "drop_live event g = g\<lparr>g_live := filter (\<lambda>p. lp_event p \<noteq> event) (g_live g)\<rparr>"

fun nwc_do :: "local_clock \<Rightarrow> (string \<Rightarrow> string + ln_invoice) \<Rightarrow> nwc_event \<Rightarrow> nwc_run \<Rightarrow> nwc_run option" where
  "nwc_do z dec (Connect relays budget renewal service client now) g =
     Some (g\<lparr>g_db := snd (createConnection None relays budget renewal service client now (g_db g))\<rparr>)"
| "nwc_do z dec (Revoke i now) g = Some (g\<lparr>g_db := revokeConnection now i (g_db g)\<rparr>)"
| "nwc_do z dec (Pay_ask service event param now) g = (case findConnectionByServicePubkey (g_db g) service of
     None \<Rightarrow> None
   | Some conn \<Rightarrow> (case pay_begin z dec conn event param now (g_db g) of
       (Inr (Sending dinv msat), d) \<Rightarrow> Some (g\<lparr>g_db := d, g_live := \<lparr>lp_event = event, lp_conn = n_id conn, lp_msat = msat\<rparr> # g_live g\<rparr>)
     | (r, d) \<Rightarrow> Some (g\<lparr>g_db := d\<rparr>)))"
| "nwc_do z dec (Swap_created event swapId) g = (case live_of g event of
     None \<Rightarrow> None | Some p \<Rightarrow> Some (g\<lparr>g_db := pay_swap_created event swapId (g_db g)\<rparr>))"
| "nwc_do z dec (Pay_done event res now) g = (case live_of g event of
     None \<Rightarrow> None
   | Some p \<Rightarrow> Some (drop_live event (g\<lparr>g_db := pay_settle (lp_conn p) event (lp_msat p) res now (g_db g)\<rparr>)))"
| "nwc_do z dec (Pay_threw event msg) g = (case live_of g event of
     None \<Rightarrow> None | Some p \<Rightarrow> Some (drop_live event (g\<lparr>g_db := pay_fail event msg (g_db g)\<rparr>)))"
| "nwc_do z dec (Make_done conn event iss msat description now) g =
     (if conn \<in> n_id ` set (conns (g_db g)) then Some (g\<lparr>g_db := snd (make_record conn event iss msat description now (g_db g))\<rparr>) else None)"
| "nwc_do z dec (Boltz_event swap ok msg now) g = Some (g\<lparr>g_db := syncSwapToDb swap ok msg now (g_db g)\<rparr>)"
| "nwc_do z dec (Reconcile now) g = Some (g\<lparr>g_db := reconcile_outgoing now (g_db g)\<rparr>)"
| "nwc_do z dec (Elsewhere d) g =
     (if outgoing d = outgoing (g_db g) \<and> conns d = conns (g_db g) \<and> row_keys d = row_keys (g_db g) then Some (g\<lparr>g_db := d\<rparr>) else None)"
| "nwc_do z dec Crash g = Some (g\<lparr>g_live := []\<rparr>)"

definition first_boot :: nwc_run where
  "first_boot = \<lparr>g_db = empty_db, g_live = []\<rparr>"

inductive nwc_reach :: "local_clock \<Rightarrow> (string \<Rightarrow> string + ln_invoice) \<Rightarrow> (nwc_run \<Rightarrow> nwc_event \<Rightarrow> bool) \<Rightarrow> nwc_run \<Rightarrow> bool"
  for z :: local_clock and dec :: "string \<Rightarrow> string + ln_invoice" and ok :: "nwc_run \<Rightarrow> nwc_event \<Rightarrow> bool" where
  fresh: "nwc_reach z dec ok first_boot"
| next_event: "nwc_reach z dec ok g \<Longrightarrow> ok g ev \<Longrightarrow> nwc_do z dec ev g = Some g' \<Longrightarrow> nwc_reach z dec ok g'"

text \<open>Calm histories. The writes of a returning handler are not gated on the row's state, and boltz's own
  event does not touch the lifetime counter. So: a payment returns with at least its nominal paid, on a row
  that is pending, or that boltz's event settled first when the budget renews; it throws on a row that
  is not settled, or whose budget renews; and boltz's event settles no row of a lifetime budget.\<close>

definition renewing :: "db \<Rightarrow> tx_row \<Rightarrow> bool" where
  "renewing d r \<longleftrightarrow> (\<forall>c \<in> set (conns d). n_id c = t_connection r \<longrightarrow> n_budgetRenewal c \<noteq> Never)"

fun calm :: "nwc_run \<Rightarrow> nwc_event \<Rightarrow> bool" where
  "calm g (Pay_done event res now) = (\<forall>r \<in> set (txs (g_db g)). t_event r = event \<longrightarrow>
     t_amountMsat r \<le> satsToMsats (lr_amount res) \<and> (t_state r = Tx_pending \<or> t_state r = Tx_settled \<and> renewing (g_db g) r))"
| "calm g (Pay_threw event msg) = (\<forall>r \<in> set (txs (g_db g)). t_event r = event \<and> t_state r = Tx_settled \<longrightarrow> renewing (g_db g) r)"
| "calm g (Boltz_event swap ok msg now) = (bs_kind swap = Submarine \<and> ok \<longrightarrow>
     (\<forall>r \<in> set (txs (g_db g)). pending_swap Outgoing (bs_id swap) r \<longrightarrow> renewing (g_db g) r))"
| "calm g ev = True"

subsection \<open>Well-formed ledgers\<close>

definition ledger_wf :: "nwc_run \<Rightarrow> bool" where
  "ledger_wf g \<longleftrightarrow> distinct (map t_event (txs (g_db g))) \<and> distinct (map t_id (txs (g_db g))) \<and> distinct (map n_id (conns (g_db g)))
     \<and> t_connection ` set (txs (g_db g)) \<subseteq> n_id ` set (conns (g_db g))
     \<and> distinct (map lp_event (g_live g))
     \<and> (\<forall>p \<in> set (g_live g). \<exists>r \<in> set (txs (g_db g)). t_event r = lp_event p \<and> t_type r = Outgoing
          \<and> t_connection r = lp_conn p \<and> t_amountMsat r = lp_msat p)"

text \<open>What an update of outgoing rows may do: the identity of the payment stays.\<close>

definition same_payment :: "tx_row \<Rightarrow> tx_row \<Rightarrow> bool" where
  "same_payment r r' \<longleftrightarrow> t_id r' = t_id r \<and> t_event r' = t_event r \<and> t_type r' = t_type r \<and> t_connection r' = t_connection r
     \<and> t_paymentHash r' = t_paymentHash r \<and> t_amountMsat r' = t_amountMsat r \<and> t_createdAt r' = t_createdAt r"

end
