(* ===== verification/Nwc_Safety.thy ===== *)
theory Nwc_Safety
  imports Nwc_Run
begin

text \<open>
  What the ledger promises in every state it reaches: one payment of an invoice in flight per
  connection, a budget that is never exceeded by what was admitted in its window, a lifetime counter
  that is exact, incoming rows settled on evidence, clients that see their own rows only. And where
  it does not hold.
\<close>

subsection \<open>Updates\<close>

definition same_payments :: "db \<Rightarrow> (tx_row \<Rightarrow> bool) \<Rightarrow> (tx_row \<Rightarrow> tx_row) \<Rightarrow> bool" where
  "same_payments d P f \<longleftrightarrow> (\<forall>r \<in> set (txs d). P r \<longrightarrow> same_payment r (f r) \<and> (t_state (f r) = Tx_pending \<longrightarrow> t_state r = Tx_pending))"

definition committed :: "tx_row \<Rightarrow> bool" where
  "committed r \<longleftrightarrow> t_state r \<in> {Tx_pending, Tx_settled}"

definition no_revival :: "db \<Rightarrow> (tx_row \<Rightarrow> bool) \<Rightarrow> (tx_row \<Rightarrow> tx_row) \<Rightarrow> bool" where
  "no_revival d P f \<longleftrightarrow> (\<forall>r \<in> set (txs d). P r \<longrightarrow> committed (f r) \<longrightarrow> committed r)"

lemma update_simps [simp]:
  "conns (update_txs P f d) = conns d" "swaps (update_txs P f d) = swaps d" "txs (update_txs P f d) = map (\<lambda>r. if P r then f r else r) (txs d)"
  "boltzSwaps (update_txs P f d) = boltzSwaps d"
  by (simp_all add: update_txs_def)

lemma spent_simps [simp]:
  "txs (add_spent m c d) = txs d" "swaps (add_spent m c d) = swaps d"
  "conns (add_spent m c d) = map (\<lambda>x. if n_id x = c then x\<lparr>n_spentMsat := n_spentMsat x + m\<rparr> else x) (conns d)"
  by (simp_all add: add_spent_def)

lemma update_keys:
  assumes "same_payments d P f"
  shows "map t_event (txs (update_txs P f d)) = map t_event (txs d)" "map t_id (txs (update_txs P f d)) = map t_id (txs d)"
    "map t_connection (txs (update_txs P f d)) = map t_connection (txs d)"
  using assms by (auto simp: same_payments_def same_payment_def)

lemma finish_row_simps [simp]:
  "t_state (finish_row st pre msg now r) = st" "same_payment r (finish_row st pre msg now r)"
  "t_feesPaidMsat (finish_row st pre msg now r) = t_feesPaidMsat r"
  by (simp_all add: finish_row_def same_payment_def)

lemma ids_update:
  assumes "same_payments d P f" "distinct (map t_id (txs d))"
  shows "distinct (map t_id (txs (update_txs P f d)))" "distinct (map t_id (txs (add_spent m c (update_txs P f d))))"
proof -
  show "distinct (map t_id (txs (update_txs P f d)))" unfolding update_keys(2) [OF assms(1)] by (rule assms(2))
  then show "distinct (map t_id (txs (add_spent m c (update_txs P f d))))" unfolding spent_simps(1) .
qed

subsection \<open>One payment in flight\<close>

definition single :: "db \<Rightarrow> bool" where
  "single d \<longleftrightarrow> (\<forall>r1 \<in> set (txs d). \<forall>r2 \<in> set (txs d). t_type r1 = Outgoing \<and> t_type r2 = Outgoing
     \<and> t_state r1 = Tx_pending \<and> t_state r2 = Tx_pending \<and> t_connection r1 = t_connection r2 \<and> t_paymentHash r1 = t_paymentHash r2
     \<longrightarrow> r1 = r2)"

lemma update_single:
  assumes "single d" "same_payments d P f"
  shows "single (update_txs P f d)"
proof -
  let ?g = "\<lambda>r. if P r then f r else r"
  have g: "t_type (?g r) = t_type r \<and> t_connection (?g r) = t_connection r \<and> t_paymentHash (?g r) = t_paymentHash r
      \<and> (t_state (?g r) = Tx_pending \<longrightarrow> t_state r = Tx_pending)" if "r \<in> set (txs d)" for r
    using assms(2) that by (auto simp: same_payments_def same_payment_def)
  show ?thesis
    unfolding single_def update_simps set_map
  proof (intro ballI impI, elim imageE conjE)
    fix r1 r2 a b
    assume ab: "r1 = ?g a" "r2 = ?g b" "a \<in> set (txs d)" "b \<in> set (txs d)" and ty: "t_type r1 = Outgoing" "t_type r2 = Outgoing"
      and st: "t_state r1 = Tx_pending" "t_state r2 = Tx_pending" and eq: "t_connection r1 = t_connection r2" "t_paymentHash r1 = t_paymentHash r2"
    from g [OF ab(3)] g [OF ab(4)] ty st eq have "a = b"
      unfolding ab(1,2) by (intro assms(1) [unfolded single_def, rule_format] ab(3,4)) metis
    then show "r1 = r2" by (simp add: ab(1,2))
  qed
qed

definition keeps_payments :: "(db \<Rightarrow> db) \<Rightarrow> bool" where
  "keeps_payments w \<longleftrightarrow> (\<forall>d. single d \<longrightarrow> single (w d))"

lemma same_payments_writes:
  "same_payments d (\<lambda>r. t_event r = event \<and> t_state r = Tx_pending) (\<lambda>r. r\<lparr>t_swapId := Some s\<rparr>)"
  "same_payments d (\<lambda>r. t_event r = event) (\<lambda>r. r\<lparr>t_state := Tx_failed, t_error := Some msg\<rparr>)"
  "same_payments d (\<lambda>r. t_event r = event) (\<lambda>r. r\<lparr>t_state := Tx_settled, t_preimage := Some pre, t_feesPaidMsat := Some fee,
     t_settledAt := Some now, t_swapId := Some s\<rparr>)"
  "st \<noteq> Tx_pending \<Longrightarrow> same_payments d P (finish_row st pre' msg' now')"
  "same_payments d P (\<lambda>r. r\<lparr>t_state := Tx_settled, t_preimage := coalesce (t_preimage r) pre'', t_settledAt := Some now,
     t_feesPaidMsat := coalesce (t_feesPaidMsat r) (Some 0)\<rparr>)"
  "same_payments d P (\<lambda>r. r\<lparr>t_state := Tx_failed, t_settledAt := Some now\<rparr>)"
  by (simp_all add: same_payments_def same_payment_def finish_row_def)

lemma single_txs: "txs d' = txs d \<Longrightarrow> single d' = single d"
  by (simp add: single_def)

lemma single_spent [simp]: "single (add_spent m c d) = single d"
  by (rule single_txs) simp

lemma single_sync: "single d \<Longrightarrow> single (syncSwapToDb swap ok msg now d)"
  by (auto simp: syncSwapToDb_def Let_def intro!: update_single same_payments_writes split: boltz_kind.split)

lemma single_out: "single d \<Longrightarrow> single (reconcile_out now row d)"
  by (auto simp: reconcile_out_def Let_def intro!: update_single same_payments_writes
      split: option.split)

lemma single_outs: "single d \<Longrightarrow> single (reconcile_outgoing now d)"
proof -
  have "single d \<Longrightarrow> single (foldl (\<lambda>d row. reconcile_out now row d) d rows)" for rows d
    by (induction rows arbitrary: d) (simp_all add: single_out)
  then show "single d \<Longrightarrow> single (reconcile_outgoing now d)" by (simp add: reconcile_outgoing_def)
qed

subsection \<open>Well-formedness\<close>

lemma wf_same:
  "ledger_wf g \<Longrightarrow> txs (g_db g') = txs (g_db g) \<Longrightarrow> map n_id (conns (g_db g')) = map n_id (conns (g_db g)) \<Longrightarrow> g_live g' = g_live g
   \<Longrightarrow> ledger_wf g'"
proof -
  assume "map n_id (conns (g_db g')) = map n_id (conns (g_db g))"
  then have "n_id ` set (conns (g_db g')) = n_id ` set (conns (g_db g))" by (metis set_map)
  then show "ledger_wf g \<Longrightarrow> txs (g_db g') = txs (g_db g) \<Longrightarrow> map n_id (conns (g_db g')) = map n_id (conns (g_db g)) \<Longrightarrow> g_live g' = g_live g
   \<Longrightarrow> ledger_wf g'" by (simp add: ledger_wf_def)
qed

lemma map_conns_id: "(\<And>c. n_id (f c) = n_id c) \<Longrightarrow> map n_id (map f cs) = map n_id cs"
  by (induction cs) simp_all

lemma wf_spent [simp]: "ledger_wf (g\<lparr>g_db := add_spent m c d\<rparr>) = ledger_wf (g\<lparr>g_db := d\<rparr>)"
proof -
  have "map n_id (conns (add_spent m c d)) = map n_id (conns d)" unfolding spent_simps by (rule map_conns_id) simp
  then show ?thesis using wf_same [of "g\<lparr>g_db := d\<rparr>" "g\<lparr>g_db := add_spent m c d\<rparr>"] wf_same [of "g\<lparr>g_db := add_spent m c d\<rparr>" "g\<lparr>g_db := d\<rparr>"]
    by auto
qed

lemma wf_update:
  assumes "ledger_wf (g\<lparr>g_db := d\<rparr>)" "same_payments d P f"
  shows "ledger_wf (g\<lparr>g_db := update_txs P f d\<rparr>)"
proof -
  note k = update_keys [OF assms(2)]
  have c: "t_connection ` set (txs (update_txs P f d)) = t_connection ` set (txs d)" using k(3) by (metis set_map)
  have live: "\<exists>r' \<in> set (txs (update_txs P f d)). t_event r' = e \<and> t_type r' = Outgoing \<and> t_connection r' = n \<and> t_amountMsat r' = m"
    if "r \<in> set (txs d)" "t_event r = e" "t_type r = Outgoing" "t_connection r = n" "t_amountMsat r = m" for r e n m
    using that assms(2) by (intro bexI [of _ "if P r then f r else r"]) (auto simp: same_payments_def same_payment_def)
  have "\<forall>p \<in> set (g_live g). \<exists>r' \<in> set (txs (update_txs P f d)). t_event r' = lp_event p \<and> t_type r' = Outgoing
      \<and> t_connection r' = lp_conn p \<and> t_amountMsat r' = lp_msat p"
  proof
    fix p assume "p \<in> set (g_live g)"
    then obtain r where "r \<in> set (txs d)" "t_event r = lp_event p" "t_type r = Outgoing" "t_connection r = lp_conn p" "t_amountMsat r = lp_msat p"
      using assms(1) by (auto simp: ledger_wf_def)
    then show "\<exists>r' \<in> set (txs (update_txs P f d)). t_event r' = lp_event p \<and> t_type r' = Outgoing
      \<and> t_connection r' = lp_conn p \<and> t_amountMsat r' = lp_msat p" by (rule live)
  qed
  with assms(1) show ?thesis
    unfolding ledger_wf_def by (simp add: k c del: update_simps(3))
qed

lemma wf_insert:
  assumes "ledger_wf g" "t_event row \<notin> t_event ` set (txs (g_db g))" "t_connection row \<in> n_id ` set (conns (g_db g))"
    and "txs d' = txs (g_db g) @ [row\<lparr>t_id := next_id (map t_id (txs (g_db g)))\<rparr>]" "conns d' = conns (g_db g)"
  shows "ledger_wf (g\<lparr>g_db := d'\<rparr>)"
proof -
  have "next_id (map t_id (txs (g_db g))) \<notin> t_id ` set (txs (g_db g))"
    using next_id_fresh [of _ "map t_id (txs (g_db g))"] by fastforce
  with assms show ?thesis unfolding ledger_wf_def by simp
qed

lemma wf_drop: "ledger_wf g \<Longrightarrow> ledger_wf (drop_live event g)"
  by (auto simp: ledger_wf_def drop_live_def distinct_map_filter)

lemma wf_sync: "ledger_wf (g\<lparr>g_db := d\<rparr>) \<Longrightarrow> ledger_wf (g\<lparr>g_db := syncSwapToDb swap ok msg now d\<rparr>)"
  by (auto simp: syncSwapToDb_def Let_def intro!: wf_update same_payments_writes split: boltz_kind.split)

lemma wf_outs: "ledger_wf (g\<lparr>g_db := d\<rparr>) \<Longrightarrow> ledger_wf (g\<lparr>g_db := reconcile_outgoing now d\<rparr>)"
proof -
  have one: "ledger_wf (g\<lparr>g_db := d\<rparr>) \<Longrightarrow> ledger_wf (g\<lparr>g_db := reconcile_out now row d\<rparr>)" for d row
    by (auto simp: reconcile_out_def Let_def intro!: wf_update same_payments_writes split: option.split)
  have "ledger_wf (g\<lparr>g_db := d\<rparr>) \<Longrightarrow> ledger_wf (g\<lparr>g_db := foldl (\<lambda>d row. reconcile_out now row d) d rows\<rparr>)" for rows d
    by (induction rows arbitrary: d) (simp_all add: one)
  then show "ledger_wf (g\<lparr>g_db := d\<rparr>) \<Longrightarrow> ledger_wf (g\<lparr>g_db := reconcile_outgoing now d\<rparr>)" by (simp add: reconcile_outgoing_def)
qed

lemma found_conn: "findConnectionByServicePubkey d pk = Some c \<Longrightarrow> c \<in> set (conns d)"
  unfolding findConnectionByServicePubkey_def by (blast dest: find_first_Some)

lemma live_ofD: "live_of g event = Some p \<Longrightarrow> p \<in> set (g_live g) \<and> lp_event p = event"
  unfolding live_of_def by (blast dest: find_first_Some)

lemma make_record_cases:
  obtains "snd (make_record conn event iss msat description now d) = d"
  | row where "t_event row \<notin> t_event ` set (txs d)" "t_connection row = conn" "t_type row = Incoming"
      "txs (snd (make_record conn event iss msat description now d)) = txs d @ [row\<lparr>t_id := next_id (map t_id (txs d))\<rparr>]"
      "conns (snd (make_record conn event iss msat description now d)) = conns d"
proof -
  have "snd (make_record conn event iss msat description now d) = d \<or> (\<exists>row. t_event row \<notin> t_event ` set (txs d) \<and> t_connection row = conn
      \<and> t_type row = Incoming
      \<and> txs (snd (make_record conn event iss msat description now d)) = txs d @ [row\<lparr>t_id := next_id (map t_id (txs d))\<rparr>]
      \<and> conns (snd (make_record conn event iss msat description now d)) = conns d)"
    by (cases "event \<in> t_event ` set (txs d)")
      (auto simp: make_record_def Let_def andthen_def insert_tx_def make_row_def recordNwcLn_def history_insert_def
        intro!: exI [of _ "make_row conn event iss msat description now"])
  then show thesis using that by blast
qed

text \<open>The effect of each event on the store, as updates, insertions and writes elsewhere.\<close>

lemma create_conn_cases:
  obtains "snd (createConnection label relays budget renewal service client now d) = d"
  | c where "snd (createConnection label relays budget renewal service client now d) = d\<lparr>conns := conns d @ [c]\<rparr>"
      "n_id c = next_id (map n_id (conns d))" "n_spentMsat c = 0" "n_budgetMsat c = budget"
  by (cases "relays = [] \<or> service \<in> n_servicePubkey ` set (conns d)") (auto simp: createConnection_def Let_def)

lemma row_keys_parts:
  assumes "row_keys d' = row_keys d"
  shows "map t_event (txs d') = map t_event (txs d)" "map t_id (txs d') = map t_id (txs d)"
    "map t_connection (txs d') = map t_connection (txs d)"
proof -
  have "map (\<lambda>k. fst (snd k)) (row_keys d') = map (\<lambda>k. fst (snd k)) (row_keys d)"
    "map fst (row_keys d') = map fst (row_keys d)" "map (\<lambda>k. snd (snd (snd k))) (row_keys d') = map (\<lambda>k. snd (snd (snd k))) (row_keys d)"
    using assms by simp_all
  then show "map t_event (txs d') = map t_event (txs d)" "map t_id (txs d') = map t_id (txs d)"
    "map t_connection (txs d') = map t_connection (txs d)"
    by (simp_all add: row_keys_def comp_def)
qed

lemma outgoing_rows: "outgoing d' = outgoing d \<Longrightarrow> r \<in> set (txs d') \<and> t_type r = Outgoing \<longleftrightarrow> r \<in> set (txs d) \<and> t_type r = Outgoing"
proof -
  assume "outgoing d' = outgoing d"
  then have "set (outgoing d') = set (outgoing d)" by simp
  then show ?thesis by (auto simp: outgoing_def)
qed

lemma wf_elsewhere:
  assumes "ledger_wf g" "outgoing d = outgoing (g_db g)" "conns d = conns (g_db g)" "row_keys d = row_keys (g_db g)"
  shows "ledger_wf (g\<lparr>g_db := d\<rparr>)"
proof -
  note k = row_keys_parts [OF assms(4)]
  have c: "t_connection ` set (txs d) = t_connection ` set (txs (g_db g))" using k(3) by (metis set_map)
  have "\<forall>p \<in> set (g_live g). \<exists>r \<in> set (txs d). t_event r = lp_event p \<and> t_type r = Outgoing \<and> t_connection r = lp_conn p \<and> t_amountMsat r = lp_msat p"
    using assms(1) outgoing_rows [OF assms(2)] unfolding ledger_wf_def by blast
  with assms(1,3) show ?thesis unfolding ledger_wf_def by (simp add: k c)
qed

lemma step_wf:
  assumes "ledger_wf g" "nwc_do z dec ev g = Some g'"
  shows "ledger_wf g'"
proof (cases ev)
  case (Connect relays budget renewal service client now)
  have "ledger_wf (g\<lparr>g_db := snd (createConnection None relays budget renewal service client now (g_db g))\<rparr>)"
  proof (rule create_conn_cases [of None relays budget renewal service client now "g_db g"])
    fix c assume c: "snd (createConnection None relays budget renewal service client now (g_db g)) = (g_db g)\<lparr>conns := conns (g_db g) @ [c]\<rparr>"
      "n_id c = next_id (map n_id (conns (g_db g)))"
    have "n_id c \<notin> n_id ` set (conns (g_db g))" using next_id_fresh [of _ "map n_id (conns (g_db g))"] c(2) by fastforce
    with assms(1) show ?thesis unfolding c(1) ledger_wf_def by auto
  qed (use assms(1) in simp)
  with Connect assms(2) show ?thesis by simp
next
  case (Revoke i now)
  have "map n_id (conns (revokeConnection now i (g_db g))) = map n_id (conns (g_db g))"
    by (simp add: revokeConnection_def) 
  with Revoke assms wf_same [OF assms(1), of g'] show ?thesis by (auto simp: revokeConnection_def)
next
  case (Pay_ask service event param now)
  then obtain c where c: "findConnectionByServicePubkey (g_db g) service = Some c" using assms(2) by (auto split: option.splits)
  obtain r d where run: "pay_begin z dec c event param now (g_db g) = (r, d)" by fastforce
  from run show ?thesis
  proof (cases rule: pay_begin_cases)
    case same
    with Pay_ask assms c run show ?thesis by (auto split: sum.splits pay_start.splits)
  next
    case (sent invoice dinv)
    let ?row = "pay_row (n_id c) event invoice (li_paymentHash dinv) (satsToMsats (li_amountSats dinv)) now"
    have wf: "ledger_wf (g\<lparr>g_db := d\<rparr>)"
      by (rule wf_insert [OF assms(1), of ?row]) (use sent found_conn [OF c] in \<open>auto simp: pay_row_def\<close>)
    have "\<forall>p \<in> set (g_live g). lp_event p \<noteq> event"
      using assms(1) sent(7) unfolding ledger_wf_def by (metis image_eqI)
    with wf have "ledger_wf (g\<lparr>g_db := d, g_live := \<lparr>lp_event = event, lp_conn = n_id c, lp_msat = satsToMsats (li_amountSats dinv)\<rparr> # g_live g\<rparr>)"
      unfolding ledger_wf_def by (auto simp: sent(8) pay_row_def)
    with Pay_ask assms(2) c run sent(3) show ?thesis by simp
  qed
next
  case (Swap_created event swapId)
  with assms show ?thesis
    by (auto simp: pay_swap_created_def intro!: wf_update same_payments_writes split: option.splits)
next
  case (Pay_done event res now)
  with assms show ?thesis
    by (auto simp: pay_settle_def intro!: wf_drop wf_update same_payments_writes split: option.splits)
next
  case (Pay_threw event msg)
  with assms show ?thesis
    by (auto simp: pay_fail_def intro!: wf_drop wf_update same_payments_writes split: option.splits)
next
  case (Make_done conn event iss msat description now)
  have "ledger_wf (g\<lparr>g_db := snd (make_record conn event iss msat description now (g_db g))\<rparr>)" if "conn \<in> n_id ` set (conns (g_db g))"
    by (rule make_record_cases [of conn event iss msat description now "g_db g"]) (use assms(1) that wf_insert [OF assms(1)] in auto)
  with Make_done assms(2) show ?thesis by (auto split: if_splits)
next
  case (Boltz_event swap ok msg now)
  with assms wf_sync [where g = g and d = "g_db g"] show ?thesis by auto
next
  case (Reconcile now)
  with assms wf_outs [where g = g and d = "g_db g"] show ?thesis by auto
next
  case (Elsewhere d)
  with assms wf_elsewhere [where g = g and d = d] show ?thesis by (auto split: if_splits)
next
  case Crash
  with assms have "g' = g\<lparr>g_live := []\<rparr>" by simp
  with assms(1) show ?thesis by (simp add: ledger_wf_def)
qed

lemma reach_wf: "nwc_reach z dec ok g \<Longrightarrow> ledger_wf g"
proof (induction rule: nwc_reach.induct)
  case fresh
  show ?case by (simp add: first_boot_def empty_db_def ledger_wf_def)
qed (rule step_wf)

lemma single_insert:
  assumes "single d" "txs d' = txs d @ [row]" "t_type row = Incoming \<or> \<not> in_flight d (t_connection row) (t_paymentHash row)"
  shows "single d'"
  unfolding single_def
proof (intro ballI impI)
  fix r1 r2
  assume r: "r1 \<in> set (txs d')" "r2 \<in> set (txs d')" and p: "t_type r1 = Outgoing \<and> t_type r2 = Outgoing
     \<and> t_state r1 = Tx_pending \<and> t_state r2 = Tx_pending \<and> t_connection r1 = t_connection r2 \<and> t_paymentHash r1 = t_paymentHash r2"
  have old: "\<not> (t_type r = Outgoing \<and> t_state r = Tx_pending \<and> t_connection r = t_connection row \<and> t_paymentHash r = t_paymentHash row)"
    if "r \<in> set (txs d)" "t_type row = Outgoing" for r
    using assms(3) that by (auto simp: in_flight_def of_conn_def)
  from r consider "r1 \<in> set (txs d)" "r2 \<in> set (txs d)" | "r1 = row" "r2 \<in> set (txs d)" | "r1 \<in> set (txs d)" "r2 = row" | "r1 = r2"
    unfolding assms(2) by auto
  then show "r1 = r2"
  proof cases
    case 1
    with assms(1) p show ?thesis unfolding single_def by blast
  next
    case 2
    with old [OF 2(2)] p show ?thesis by simp
  next
    case 3
    with old [OF 3(1)] p show ?thesis by simp
  qed
qed

lemma step_single:
  assumes "single (g_db g)" "nwc_do z dec ev g = Some g'"
  shows "single (g_db g')"
proof (cases ev)
  case (Connect relays budget renewal service client now)
  have "txs (snd (createConnection None relays budget renewal service client now (g_db g))) = txs (g_db g)"
    by (rule create_conn_cases [of None relays budget renewal service client now "g_db g"]) simp_all
  from single_txs [OF this] Connect assms show ?thesis by auto
next
  case (Pay_ask service event param now)
  then obtain c where c: "findConnectionByServicePubkey (g_db g) service = Some c" using assms(2) by (auto split: option.splits)
  obtain r d where run: "pay_begin z dec c event param now (g_db g) = (r, d)" by fastforce
  from run have "single d"
    by (cases rule: pay_begin_cases) (use assms(1) in \<open>auto simp: pay_row_def elim!: single_insert\<close>)
  with Pay_ask assms(2) c run show ?thesis by (auto split: sum.splits pay_start.splits)
next
  case (Make_done conn event iss msat description now)
  have "single (snd (make_record conn event iss msat description now (g_db g)))"
    by (rule make_record_cases [of conn event iss msat description now "g_db g"]) (use assms(1) in \<open>auto elim!: single_insert\<close>)
  with Make_done assms(2) show ?thesis by (auto split: if_splits)
next
  case (Elsewhere d)
  then have "outgoing (g_db g') = outgoing (g_db g)" using assms(2) by (auto split: if_splits)
  from outgoing_rows [OF this] assms(1) show ?thesis unfolding single_def by blast
next
  case (Revoke i now)
  from Revoke assms single_txs [of "revokeConnection now i (g_db g)" "g_db g"] show ?thesis by (auto simp: revokeConnection_def)
qed (use assms in \<open>auto simp: drop_live_def pay_swap_created_def pay_settle_def pay_fail_def
    intro!: update_single same_payments_writes single_sync single_outs split: option.splits\<close>)

text \<open>One payment of an invoice in flight per connection. In every state the ledger reaches, whatever is
  asked, returned, thrown, crashed or reported by boltz, two pending outgoing rows of one connection
  with the same payment hash are the same row.\<close>

theorem one_payment_in_flight:
  assumes "nwc_reach z dec ok g" and "r1 \<in> set (txs (g_db g))" "r2 \<in> set (txs (g_db g))"
    and "of_conn conn r1" "of_conn conn r2" "t_state r1 = Tx_pending" "t_state r2 = Tx_pending" "t_paymentHash r1 = t_paymentHash r2"
  shows "r1 = r2"
proof -
  have "single (g_db g)"
    using assms(1)
  proof induction
    case fresh
    show ?case by (simp add: first_boot_def empty_db_def single_def)
  qed (rule step_single)
  with assms show ?thesis by (simp add: single_def of_conn_def)
qed

subsection \<open>The budget\<close>

definition settled_cost :: "nat \<Rightarrow> tx_row \<Rightarrow> int" where
  "settled_cost conn r = (if of_conn conn r \<and> t_state r = Tx_settled then with_fees r else 0)"

definition window_cost :: "local_clock \<Rightarrow> budget_renewal \<Rightarrow> int \<Rightarrow> nat \<Rightarrow> tx_row \<Rightarrow> int" where
  "window_cost z renewal start conn r =
     (if of_conn conn r \<and> committed r \<and> periodStartSec z renewal (t_createdAt r) = start then t_amountMsat r else 0)"

definition total :: "(tx_row \<Rightarrow> int) \<Rightarrow> db \<Rightarrow> int" where
  "total h d = sum_list (map h (txs d))"

definition rows_ok :: "db \<Rightarrow> bool" where
  "rows_ok d \<longleftrightarrow> (\<forall>r \<in> set (txs d). t_type r = Outgoing \<longrightarrow> 0 < t_amountMsat r \<and> (\<forall>f. t_feesPaidMsat r = Some f \<longrightarrow> 0 \<le> f)
     \<and> (t_state r = Tx_pending \<longrightarrow> t_feesPaidMsat r = None))"

definition exact :: "db \<Rightarrow> bool" where
  "exact d \<longleftrightarrow> (\<forall>c \<in> set (conns d). n_budgetRenewal c = Never \<longrightarrow> n_spentMsat c = total (settled_cost (n_id c)) d)"

definition capped :: "local_clock \<Rightarrow> db \<Rightarrow> bool" where
  "capped z d \<longleftrightarrow> (\<forall>c \<in> set (conns d). \<forall>budget. n_budgetMsat c = Some budget \<longrightarrow>
     (\<forall>start. total (window_cost z (n_budgetRenewal c) start (n_id c)) d \<le> max 0 budget))"

lemma total_txs: "txs d' = txs d \<Longrightarrow> total h d' = total h d"
  by (simp add: total_def)

lemma total_snoc: "txs d' = txs d @ [row] \<Longrightarrow> total h d' = total h d + h row"
  by (simp add: total_def)

lemma total_filter: "sum_list (map g (filter P rs)) = sum_list (map (\<lambda>r. if P r then g r else (0::int)) rs)"
  by (induction rs) simp_all

lemma total_update: "total h (update_txs P f d) = total h d + total (\<lambda>r. if P r then h (f r) - h r else 0) d"
proof -
  have "sum_list (map h (map (\<lambda>r. if P r then f r else r) rs)) = sum_list (map h rs) + sum_list (map (\<lambda>r. if P r then h (f r) - h r else 0) rs)" for rs
    by (induction rs) (simp_all add: algebra_simps)
  from this [of "txs d"] show ?thesis by (simp only: total_def update_simps)
qed

lemma total_mono: "(\<And>r. r \<in> set (txs d) \<Longrightarrow> g r \<le> h r) \<Longrightarrow> total g d \<le> total h d"
  unfolding total_def by (induction "txs d" arbitrary: d) (auto intro: sum_list_mono)

lemma total_zero: "(\<And>r. r \<in> set (txs d) \<Longrightarrow> h r = 0) \<Longrightarrow> total h d = 0"
  unfolding total_def by (simp add: sum_list_0 cong: map_cong)

lemma total_one:
  assumes "distinct (map k (txs d))" "r \<in> set (txs d)"
  shows "total (\<lambda>x. if k x = k r \<and> Q x then g x else 0) d = (if Q r then g r else 0)"
proof -
  have "sum_list (map (\<lambda>x. if k x = k r \<and> Q x then g x else 0) rs) = (if r \<in> set rs \<and> Q r then g r else 0)"
    if "distinct (map k rs)" "r \<in> set rs \<or> k r \<notin> k ` set rs" for rs
    using that by (induction rs) (auto simp: rev_image_eqI)
  from this [of "txs d"] assms show ?thesis by (simp add: total_def)
qed

text \<open>Updates that bring no failed row back keep the cap.\<close>

lemma capped_conns:
  "capped z d \<Longrightarrow> txs d' = txs d \<Longrightarrow> (\<And>c'. c' \<in> set (conns d') \<Longrightarrow> \<exists>c \<in> set (conns d). n_id c = n_id c'
     \<and> n_budgetMsat c = n_budgetMsat c' \<and> n_budgetRenewal c = n_budgetRenewal c') \<Longrightarrow> capped z d'"
  unfolding capped_def using total_txs [of d' d] by metis

lemma capped_update:
  assumes "capped z d" "rows_ok d" "same_payments d P f" "no_revival d P f"
  shows "capped z (update_txs P f d)"
proof -
  have "total (window_cost z ren start c) (update_txs P f d) \<le> total (window_cost z ren start c) d" for ren start c
  proof -
    have "total (\<lambda>r. if P r then window_cost z ren start c (f r) - window_cost z ren start c r else 0) d \<le> total (\<lambda>r. 0) d"
    proof (rule total_mono)
      fix r assume r: "r \<in> set (txs d)"
      show "(if P r then window_cost z ren start c (f r) - window_cost z ren start c r else 0) \<le> 0"
        using r assms(2-4) by (auto simp: same_payments_def same_payment_def no_revival_def rows_ok_def window_cost_def of_conn_def)
    qed
    then show ?thesis by (simp add: total_update total_zero [of d "\<lambda>r. 0"])
  qed
  with assms(1) show ?thesis unfolding capped_def update_simps by (blast intro: order_trans)
qed

lemma rows_ok_update:
  assumes "rows_ok d" "same_payments d P f"
    and "\<And>r. r \<in> set (txs d) \<Longrightarrow> P r \<Longrightarrow> t_type r = Outgoing \<Longrightarrow> (\<forall>x. t_feesPaidMsat (f r) = Some x \<longrightarrow> 0 \<le> x)
      \<and> (t_state (f r) = Tx_pending \<longrightarrow> t_feesPaidMsat (f r) = None)"
  shows "rows_ok (update_txs P f d)"
  using assms unfolding rows_ok_def update_simps by (auto simp: same_payments_def same_payment_def)

lemma exact_update:
  assumes "exact d"
    and "\<And>r c. r \<in> set (txs d) \<Longrightarrow> P r \<Longrightarrow> c \<in> set (conns d) \<Longrightarrow> n_budgetRenewal c = Never
      \<Longrightarrow> settled_cost (n_id c) (f r) = settled_cost (n_id c) r"
  shows "exact (update_txs P f d)"
proof -
  have "total (\<lambda>r. if P r then settled_cost (n_id c) (f r) - settled_cost (n_id c) r else 0) d = 0"
    if "c \<in> set (conns d)" "n_budgetRenewal c = Never" for c
    by (rule total_zero) (use assms(2) that in auto)
  with assms(1) show ?thesis unfolding exact_def update_simps by (simp add: total_update)
qed

text \<open>Settling one pending row, found by a unique key, together with the counter.\<close>

lemma exact_settle:
  assumes "exact d" "distinct (map k (txs d))" "r \<in> set (txs d)" "t_state r = Tx_pending" "of_conn conn r" "Q r"
    and "same_payment r (f r)" "t_state (f r) = Tx_settled" "with_fees (f r) = m"
  shows "exact (add_spent m conn (update_txs (\<lambda>x. k x = k r \<and> Q x) f d))"
proof -
  let ?d = "update_txs (\<lambda>x. k x = k r \<and> Q x) f d"
  have t: "total (settled_cost c) ?d = total (settled_cost c) d + (if c = conn then m else 0)" for c
  proof -
    have "settled_cost c r = 0" "settled_cost c (f r) = (if c = conn then m else 0)"
      using assms(4,5,7-9) by (auto simp: settled_cost_def of_conn_def same_payment_def)
    then show ?thesis
      unfolding total_update using total_one [OF assms(2,3), of Q "\<lambda>x. settled_cost c (f x) - settled_cost c x"] assms(6) by simp
  qed
  show ?thesis
    unfolding exact_def spent_simps update_simps(1) set_map
  proof (intro ballI impI, elim imageE)
    fix c x assume c: "n_budgetRenewal c = Never" "c = (if n_id x = conn then x\<lparr>n_spentMsat := n_spentMsat x + m\<rparr> else x)" "x \<in> set (conns d)"
    then have "n_spentMsat x = total (settled_cost (n_id x)) d" using assms(1) by (auto simp: exact_def split: if_splits)
    with c(2) t [of "n_id x"] total_txs [of "add_spent m conn ?d" ?d "settled_cost (n_id x)"]
    show "n_spentMsat c = total (settled_cost (n_id c)) (add_spent m conn ?d)" by auto
  qed
qed

lemma exact_other:
  assumes "exact d" "\<forall>c \<in> set (conns d). n_id c = conn \<longrightarrow> n_budgetRenewal c \<noteq> Never"
    and "\<And>r. r \<in> set (txs d) \<Longrightarrow> P r \<Longrightarrow> t_connection r = conn \<and> t_connection (f r) = conn"
  shows "exact (add_spent m conn (update_txs P f d))"
proof -
  have "exact (update_txs P f d)"
    by (rule exact_update [OF assms(1)]) (use assms(2,3) in \<open>auto simp: settled_cost_def of_conn_def\<close>)
  with assms(2) total_txs [of "add_spent m conn (update_txs P f d)" "update_txs P f d"] show ?thesis
    unfolding exact_def by auto
qed

lemma start_le: "regular_clock z \<Longrightarrow> r \<noteq> Never \<Longrightarrow> periodStartSec z r t \<le> t"
  by (simp add: window_start clock_midnight window_days)

lemma window_sum_le:
  assumes "regular_clock z" "rows_ok d" "exact d" "c \<in> set (conns d)" "distinct (map n_id (conns d))"
  shows "total (window_cost z (n_budgetRenewal c) (periodStartSec z (n_budgetRenewal c) now) (n_id c)) d
    \<le> cycleSpentMsat z d (n_id c) (n_budgetRenewal c) now"
proof (cases "n_budgetRenewal c = Never")
  case True
  have find: "findConnectionById d (n_id c) = Some c"
  proof -
    have "find_first (\<lambda>x. n_id x = n_id c) cs = Some c" if "distinct (map n_id cs)" "c \<in> set cs" for cs
      using that by (induction cs) (auto simp: rev_image_eqI)
    with assms(4,5) show ?thesis by (simp add: findConnectionById_def)
  qed
  have spent: "n_spentMsat c = total (settled_cost (n_id c)) d" using assms(3,4) True by (simp add: exact_def)
  let ?pend = "\<lambda>r. if of_conn (n_id c) r \<and> t_state r = Tx_pending then t_amountMsat r else 0"
  have "total (window_cost z Never 0 (n_id c)) d \<le> total (\<lambda>r. settled_cost (n_id c) r + ?pend r) d"
    by (rule total_mono) (use assms(2) in \<open>auto simp: window_cost_def settled_cost_def committed_def with_fees_def rows_ok_def of_conn_def
        split: option.splits\<close>)
  also have "\<dots> = total (settled_cost (n_id c)) d + total ?pend d" by (simp add: total_def sum_list_addf)
  finally show ?thesis
    using spent find by (simp add: True cycleSpentMsat_def periodStartSec_def Let_def total_filter total_def)
next
  case False
  let ?s = "periodStartSec z (n_budgetRenewal c) now"
  have "total (window_cost z (n_budgetRenewal c) ?s (n_id c)) d
      \<le> total (\<lambda>r. if of_conn (n_id c) r \<and> ?s \<le> t_createdAt r \<and> t_state r \<in> {Tx_pending, Tx_settled} then with_fees r else 0) d"
  proof (rule total_mono)
    fix r assume r: "r \<in> set (txs d)"
    from start_le [OF assms(1) False, of "t_createdAt r"] assms(2) r
    show "window_cost z (n_budgetRenewal c) ?s (n_id c) r
      \<le> (if of_conn (n_id c) r \<and> ?s \<le> t_createdAt r \<and> t_state r \<in> {Tx_pending, Tx_settled} then with_fees r else 0)"
      by (auto simp: window_cost_def committed_def with_fees_def rows_ok_def of_conn_def split: option.splits)
  qed
  with False show ?thesis by (simp add: cycleSpentMsat_def total_filter total_def)
qed

lemma capped_admit:
  assumes "regular_clock z" "rows_ok d" "exact d" "capped z d" "c \<in> set (conns d)" "distinct (map n_id (conns d))"
    and "\<not> over_budget z d c (t_amountMsat row) now" "t_createdAt row = now" "t_connection row = n_id c"
    and "txs d' = txs d @ [row]" "conns d' = conns d"
  shows "capped z d'"
  unfolding capped_def assms(11)
proof (intro ballI allI impI)
  fix x budget start assume x: "x \<in> set (conns d)" "n_budgetMsat x = Some budget"
  have old: "total (window_cost z (n_budgetRenewal x) start (n_id x)) d \<le> max 0 budget" using assms(4) x by (simp add: capped_def)
  show "total (window_cost z (n_budgetRenewal x) start (n_id x)) d' \<le> max 0 budget"
  proof (cases "window_cost z (n_budgetRenewal x) start (n_id x) row = 0")
    case True
    with old show ?thesis by (simp add: total_snoc [OF assms(10)])
  next
    case False
    then have "n_id x = n_id c" "start = periodStartSec z (n_budgetRenewal x) now" "window_cost z (n_budgetRenewal x) start (n_id x) row = t_amountMsat row"
      using assms(8,9) by (auto simp: window_cost_def of_conn_def split: if_splits)
    moreover from this have "x = c" using assms(5,6) x(1) by (auto simp: distinct_map dest: inj_onD)
    ultimately show ?thesis
      using window_sum_le [OF assms(1-3,5,6), of now] assms(7) x(2) by (simp add: total_snoc [OF assms(10)] over_budget_def)
  qed
qed

definition books :: "local_clock \<Rightarrow> db \<Rightarrow> bool" where
  "books z d \<longleftrightarrow> rows_ok d \<and> exact d \<and> capped z d \<and> distinct (map t_id (txs d))"

lemma no_revival_writes:
  "no_revival d (\<lambda>r. Q r \<and> t_state r = Tx_pending) f"
  "no_revival d P (\<lambda>r. r\<lparr>t_state := Tx_failed, t_error := Some msg\<rparr>)"
  by (auto simp: no_revival_def committed_def)

lemma capped_spent: "capped z d \<Longrightarrow> capped z (add_spent m conn d)"
  by (erule capped_conns) auto

lemma rows_ok_txs: "txs d' = txs d \<Longrightarrow> rows_ok d' = rows_ok d"
  by (simp add: rows_ok_def)

lemma rows_ok_spent [simp]: "rows_ok (add_spent m conn d) = rows_ok d"
  by (rule rows_ok_txs) simp

lemma rows_ok_fees: "rows_ok d \<Longrightarrow> r \<in> set (txs d) \<Longrightarrow> t_type r = Outgoing \<Longrightarrow> t_feesPaidMsat r = Some x \<Longrightarrow> 0 \<le> x"
  "rows_ok d \<Longrightarrow> r \<in> set (txs d) \<Longrightarrow> t_type r = Outgoing \<Longrightarrow> t_state r = Tx_pending \<Longrightarrow> t_feesPaidMsat r = None"
  by (auto simp: rows_ok_def)

lemma fail_exact:
  "exact d \<Longrightarrow> (\<And>r. r \<in> set (txs d) \<Longrightarrow> P r \<Longrightarrow> t_state r \<noteq> Tx_settled \<and> t_state (f r) \<noteq> Tx_settled) \<Longrightarrow> exact (update_txs P f d)"
  by (erule exact_update) (auto simp: settled_cost_def)

text \<open>A row of the snapshot the loop walks, as it now stands.\<close>

definition stands :: "db \<Rightarrow> tx_row \<Rightarrow> bool" where
  "stands d row \<longleftrightarrow> (\<exists>r \<in> set (txs d). t_id r = t_id row \<and> t_type r = Outgoing \<and> t_amountMsat r = t_amountMsat row)"

lemma stands_update: "stands d row \<Longrightarrow> same_payments d P f \<Longrightarrow> stands (update_txs P f d) row"
proof -
  assume "stands d row" and s: "same_payments d P f"
  then obtain r where "r \<in> set (txs d)" "t_id r = t_id row" "t_type r = Outgoing" "t_amountMsat r = t_amountMsat row"
    by (auto simp: stands_def)
  with s show ?thesis unfolding stands_def update_simps
    by (intro bexI [of _ "if P r then f r else r"]) (auto simp: same_payments_def same_payment_def)
qed

lemma stands_spent [simp]: "stands (add_spent m c d) row = stands d row"
  by (simp add: stands_def)

lemma stands_out: "stands d row \<Longrightarrow> stands (reconcile_out now row' d) row"
  by (auto simp: reconcile_out_def Let_def intro!: stands_update same_payments_writes split: option.split)

lemma find_by_id: "distinct (map t_id rs) \<Longrightarrow> r \<in> set rs \<Longrightarrow> find_first (\<lambda>x. t_id x = t_id r) rs = Some r"
  by (induction rs) (auto simp: rev_image_eqI)

lemma books_out:
  assumes "books z d" "stands d row"
  shows "books z (reconcile_out now row d)"
proof -
  from assms obtain r where r: "r \<in> set (txs d)" "t_id r = t_id row" "t_type r = Outgoing" "t_amountMsat r = t_amountMsat row"
    by (auto simp: stands_def)
  from assms(1) have d: "rows_ok d" "exact d" "capped z d" "distinct (map t_id (txs d))" by (simp_all add: books_def)
  let ?mine = "\<lambda>x. t_id x = t_id row \<and> t_state x = Tx_pending"
  have only: "x = r" if "x \<in> set (txs d)" "t_id x = t_id row" for x
    using that r d(4) inj_onD [of t_id "set (txs d)" x r] by (simp add: distinct_map)
  have fail: "books z (update_txs ?mine (\<lambda>r. r\<lparr>t_state := Tx_failed, t_settledAt := Some now\<rparr>) d)"
    unfolding books_def
  proof (intro conjI)
    show "rows_ok (update_txs ?mine (\<lambda>r. r\<lparr>t_state := Tx_failed, t_settledAt := Some now\<rparr>) d)"
      by (rule rows_ok_update [OF d(1) same_payments_writes(6)]) (auto dest: rows_ok_fees [OF d(1)])
    show "exact (update_txs ?mine (\<lambda>r. r\<lparr>t_state := Tx_failed, t_settledAt := Some now\<rparr>) d)"
      by (rule fail_exact [OF d(2)]) auto
    show "capped z (update_txs ?mine (\<lambda>r. r\<lparr>t_state := Tx_failed, t_settledAt := Some now\<rparr>) d)"
      by (rule capped_update [OF d(3,1) same_payments_writes(6) no_revival_writes(1)])
    show "distinct (map t_id (txs (update_txs ?mine (\<lambda>r. r\<lparr>t_state := Tx_failed, t_settledAt := Some now\<rparr>) d)))"
      by (rule ids_update(1) [OF same_payments_writes(6) d(4)])
  qed
  have settle: "books z (add_spent (t_amountMsat row) (t_connection r) (update_txs ?mine g d))"
    if mine: "t_state r = Tx_pending" and g: "g = (\<lambda>r. r\<lparr>t_state := Tx_settled, t_preimage := coalesce (t_preimage r) pre, t_settledAt := Some now,
         t_feesPaidMsat := coalesce (t_feesPaidMsat r) (Some 0)\<rparr>)" for pre g
    unfolding books_def
  proof (intro conjI)
    have sp: "same_payments d ?mine g" unfolding g by (rule same_payments_writes)
    have "rows_ok (update_txs ?mine g d)"
      by (rule rows_ok_update [OF d(1) sp]) (auto simp: g coalesce_def dest: rows_ok_fees [OF d(1)] split: option.splits)
    then show "rows_ok (add_spent (t_amountMsat row) (t_connection r) (update_txs ?mine g d))" by simp
    show "exact (add_spent (t_amountMsat row) (t_connection r) (update_txs ?mine g d))"
      unfolding r(2) [symmetric]
      by (rule exact_settle [OF d(2,4) r(1) mine])
        (use mine r rows_ok_fees(2) [OF d(1) r(1,3) mine] in \<open>auto simp: g of_conn_def same_payment_def with_fees_def coalesce_def\<close>)
    show "capped z (add_spent (t_amountMsat row) (t_connection r) (update_txs ?mine g d))"
      by (rule capped_spent [OF capped_update [OF d(3,1) sp no_revival_writes(1)]])
    show "distinct (map t_id (txs (add_spent (t_amountMsat row) (t_connection r) (update_txs ?mine g d))))"
      by (rule ids_update(2) [OF sp d(4)])
  qed
  show ?thesis
  proof (cases "repo_getByPaymentHash d (t_paymentHash row)")
    case None
    with assms(1) show ?thesis by (simp add: reconcile_out_def)
  next
    case (Some atomic)
    let ?g = "\<lambda>r. r\<lparr>t_state := Tx_settled, t_preimage := coalesce (t_preimage r) (s_preimage atomic), t_settledAt := Some now,
         t_feesPaidMsat := coalesce (t_feesPaidMsat r) (Some 0)\<rparr>"
    show ?thesis
    proof (cases "s_direction atomic = Send \<and> s_state atomic = Claimed")
      case True
      show ?thesis
      proof (cases "t_state r = Tx_pending")
        case pend: True
        have img: "find_first (\<lambda>x. t_id x = t_id row) (txs (update_txs ?mine ?g d)) = Some (?g r)"
        proof -
          have u: "distinct (map t_id (txs (update_txs ?mine ?g d)))"
            by (rule ids_update(1) [OF same_payments_writes(5) d(4)])
          have m: "?g r \<in> set (txs (update_txs ?mine ?g d))"
            unfolding update_simps set_map using r pend by (intro image_eqI [of _ _ r]) simp_all
          have i: "t_id (?g r) = t_id row" using r(2) by simp
          show ?thesis by (rule find_by_id [OF u m, unfolded i])
        qed
        have hit: "\<exists>r \<in> set (txs d). t_id r = t_id row \<and> t_state r = Tx_pending" using r pend by blast
        have "reconcile_out now row d = add_spent (t_amountMsat row) (t_connection (?g r)) (update_txs ?mine ?g d)"
          unfolding reconcile_out_def Some option.case Let_def img using True hit by simp
        with settle [OF pend refl, of "s_preimage atomic"] show ?thesis by simp
      next
        case False
        then have none: "\<forall>x \<in> set (txs d). \<not> ?mine x" using only by blast
        then have "map (\<lambda>x. if ?mine x then ?g x else x) (txs d) = txs d" by (intro map_idI) auto
        then have "update_txs ?mine ?g d = d" by (simp add: update_txs_def)
        with none True Some assms(1) show ?thesis by (auto simp: reconcile_out_def Let_def)
      qed
    next
      case False
      with Some assms(1) fail show ?thesis by (auto simp: reconcile_out_def Let_def)
    qed
  qed
qed

lemma books_outs: "books z d \<Longrightarrow> books z (reconcile_outgoing now d)"
proof -
  assume b: "books z d"
  have "books z d \<Longrightarrow> \<forall>row \<in> set rows. stands d row \<Longrightarrow> books z (foldl (\<lambda>d row. reconcile_out now row d) d rows)" for rows d
    by (induction rows arbitrary: d) (simp_all add: books_out stands_out)
  from this [OF b, of "filter (\<lambda>r. t_type r = Outgoing \<and> t_state r = Tx_pending) (txs d)"]
  show ?thesis by (auto simp: reconcile_outgoing_def stands_def)
qed

lemma books_update:
  assumes "books z d" "same_payments d P f" "no_revival d P f"
    and "\<And>r. r \<in> set (txs d) \<Longrightarrow> P r \<Longrightarrow> t_feesPaidMsat (f r) = t_feesPaidMsat r"
    and "\<And>r c. r \<in> set (txs d) \<Longrightarrow> P r \<Longrightarrow> c \<in> set (conns d) \<Longrightarrow> n_budgetRenewal c = Never
      \<Longrightarrow> settled_cost (n_id c) (f r) = settled_cost (n_id c) r"
  shows "books z (update_txs P f d)"
proof -
  have "rows_ok (update_txs P f d)"
    by (rule rows_ok_update) (use assms(1,2,4) rows_ok_fees in \<open>auto simp: books_def same_payments_def\<close>)
  with assms capped_update exact_update update_keys(2) [OF assms(2)] show ?thesis
    unfolding books_def by (simp del: update_simps(3))
qed

lemma books_finish:
  assumes "books z d" "st \<noteq> Tx_pending"
    and "\<And>r c. ty = Outgoing \<Longrightarrow> st = Tx_settled \<Longrightarrow> r \<in> set (txs d) \<Longrightarrow> pending_swap ty i r \<Longrightarrow> c \<in> set (conns d)
      \<Longrightarrow> n_id c = t_connection r \<Longrightarrow> n_budgetRenewal c \<noteq> Never"
  shows "books z (update_txs (pending_swap ty i) (finish_row st pre msg now) d)"
proof (rule books_update [OF assms(1)])
  show "same_payments d (pending_swap ty i) (finish_row st pre msg now)" by (rule same_payments_writes(4) [OF assms(2)])
  show "no_revival d (pending_swap ty i) (finish_row st pre msg now)" by (simp add: no_revival_def committed_def pending_swap_def)
next
  fix r c assume r: "r \<in> set (txs d)" "pending_swap ty i r" "c \<in> set (conns d)" "n_budgetRenewal c = Never"
  show "settled_cost (n_id c) (finish_row st pre msg now r) = settled_cost (n_id c) r"
  proof (cases "ty = Outgoing \<and> st = Tx_settled")
    case True
    with assms(3) r have "n_id c \<noteq> t_connection r" by blast
    then show ?thesis by (simp add: settled_cost_def of_conn_def finish_row_def)
  next
    case False
    with r(2) show ?thesis by (cases ty) (auto simp: settled_cost_def of_conn_def finish_row_def pending_swap_def)
  qed
qed simp

lemma books_aside:
  assumes "books z d" "txs d' = txs d" "\<And>c'. c' \<in> set (conns d') \<Longrightarrow> \<exists>c \<in> set (conns d). n_id c = n_id c'
     \<and> n_budgetMsat c = n_budgetMsat c' \<and> n_budgetRenewal c = n_budgetRenewal c' \<and> n_spentMsat c = n_spentMsat c'"
  shows "books z d'"
proof -
  have "exact d'" using assms total_txs [OF assms(2)] unfolding books_def exact_def by metis
  moreover have "capped z d'"
  proof (rule capped_conns [OF _ assms(2)])
    show "capped z d" using assms(1) by (simp add: books_def)
  qed (use assms(3) in blast)
  ultimately show ?thesis using assms(1) rows_ok_txs [OF assms(2)] by (simp add: books_def assms(2))
qed

lemma total_outgoing:
  assumes "outgoing d' = outgoing d" "\<And>r. t_type r \<noteq> Outgoing \<Longrightarrow> h r = 0"
  shows "total h d' = total h d"
proof -
  have "total h e = sum_list (map h (outgoing e))" for e
    unfolding total_def outgoing_def total_filter by (rule arg_cong [where f = sum_list]) (auto simp: assms(2))
  with assms(1) show ?thesis by simp
qed

lemma books_outgoing:
  assumes "books z d" "outgoing d' = outgoing d" "conns d' = conns d" "map t_id (txs d') = map t_id (txs d)"
  shows "books z d'"
proof -
  have "total (settled_cost c) d' = total (settled_cost c) d" "total (window_cost z ren start c) d' = total (window_cost z ren start c) d"
    for c ren start
    by (rule total_outgoing [OF assms(2)]; simp add: settled_cost_def window_cost_def of_conn_def)+
  moreover have "rows_ok d'" using assms(1) outgoing_rows [OF assms(2)] unfolding books_def rows_ok_def by blast
  ultimately show ?thesis using assms by (simp add: books_def exact_def capped_def)
qed

lemma books_incoming:
  assumes "books z d" "txs d' = txs d @ [row]" "t_type row = Incoming" "conns d' = conns d" "t_id row \<notin> t_id ` set (txs d)"
  shows "books z d'"
proof -
  have "settled_cost c row = 0" "window_cost z ren start c row = 0" for c ren start
    using assms(3) by (simp_all add: settled_cost_def window_cost_def of_conn_def)
  with assms show ?thesis
    by (auto simp: books_def exact_def capped_def total_snoc [OF assms(2)] rows_ok_def)
qed

lemma next_id_new: "next_id (map t_id rs) \<notin> t_id ` set rs"
  using next_id_fresh [of _ "map t_id rs"] by fastforce

lemma step_books:
  assumes "regular_clock z" "ledger_wf g" "books z (g_db g)" "calm g ev" "nwc_do z dec ev g = Some g'"
  shows "books z (g_db g')"
proof (cases ev)
  case (Connect relays budget renewal service client now)
  have "books z (snd (createConnection None relays budget renewal service client now (g_db g)))"
  proof (rule create_conn_cases [of None relays budget renewal service client now "g_db g"])
    fix c assume c: "snd (createConnection None relays budget renewal service client now (g_db g)) = (g_db g)\<lparr>conns := conns (g_db g) @ [c]\<rparr>"
      "n_id c = next_id (map n_id (conns (g_db g)))" "n_spentMsat c = 0"
    have "n_id c \<notin> n_id ` set (conns (g_db g))" using next_id_fresh [of _ "map n_id (conns (g_db g))"] c(2) by fastforce
    then have none: "t_connection r \<noteq> n_id c" if "r \<in> set (txs (g_db g))" for r :: tx_row
    proof -
      have "t_connection r \<in> n_id ` set (conns (g_db g))" using assms(2) that unfolding ledger_wf_def by blast
      then show ?thesis using c(2) next_id_fresh [of _ "map n_id (conns (g_db g))"] by fastforce
    qed
    have "total (settled_cost (n_id c)) (g_db g) = 0" "total (window_cost z ren start (n_id c)) (g_db g) = 0" for ren start
      using none by (auto intro!: total_zero simp: settled_cost_def window_cost_def of_conn_def)
    moreover have "total h ((g_db g)\<lparr>conns := cs\<rparr>) = total h (g_db g)" for h cs by (simp add: total_def)
    ultimately show ?thesis using assms(3) c(3) unfolding c(1) books_def exact_def capped_def rows_ok_def by auto
  qed (use assms(3) in simp)
  with Connect assms(5) show ?thesis by auto
next
  case (Revoke i now)
  have "books z (revokeConnection now i (g_db g))"
    by (rule books_aside [OF assms(3)]) (auto simp: revokeConnection_def)
  with Revoke assms(5) show ?thesis by auto
next
  case (Pay_ask service event param now)
  then obtain c where c: "findConnectionByServicePubkey (g_db g) service = Some c" using assms(5) by (auto split: option.splits)
  obtain r d where run: "pay_begin z dec c event param now (g_db g) = (r, d)" by fastforce
  from run have "books z d"
  proof (cases rule: pay_begin_cases)
    case (sent invoice dinv)
    let ?row = "(pay_row (n_id c) event invoice (li_paymentHash dinv) (satsToMsats (li_amountSats dinv)) now)\<lparr>t_id := next_id (map t_id (txs (g_db g)))\<rparr>"
    from assms(3) have b: "rows_ok (g_db g)" "exact (g_db g)" "capped z (g_db g)" "distinct (map t_id (txs (g_db g)))" by (simp_all add: books_def)
    have "capped z d"
      by (rule capped_admit [OF assms(1) b(1-3) found_conn [OF c] _ _ _ _ sent(8) sent(9), where now = now])
        (use assms(2) sent(6) in \<open>auto simp: ledger_wf_def pay_row_def\<close>)
    moreover have "exact d"
    proof -
      have "settled_cost i ?row = 0" for i by (simp add: settled_cost_def pay_row_def)
      with b(2) show ?thesis by (simp add: exact_def sent(9) total_snoc [OF sent(8)])
    qed
    moreover have "rows_ok d" using b(1) sent(2) by (auto simp: rows_ok_def sent(8) pay_row_def satsToMsats_def)
    ultimately show ?thesis using b(4) next_id_new [of "txs (g_db g)"] by (auto simp: books_def sent(8))
  qed (use assms(3) in simp)
  with Pay_ask assms(5) c run show ?thesis by (auto split: sum.splits pay_start.splits)
next
  case (Swap_created event swapId)
  have "books z (pay_swap_created event swapId (g_db g))"
    unfolding pay_swap_created_def
    by (rule books_update [OF assms(3) same_payments_writes(1) no_revival_writes(1)]) (auto simp: settled_cost_def of_conn_def with_fees_def)
  with Swap_created assms(5) show ?thesis by (auto split: option.splits)
next
  case (Pay_done event res now)
  then obtain p where p: "live_of g event = Some p" using assms(5) by (auto split: option.splits)
  note lp = live_ofD [OF p]
  then obtain r where r: "r \<in> set (txs (g_db g))" "t_event r = event" "t_type r = Outgoing" "t_connection r = lp_conn p" "t_amountMsat r = lp_msat p"
    using assms(2) by (auto simp: ledger_wf_def)
  note calm = assms(4) [unfolded Pay_done calm.simps, rule_format, OF r(1,2)]
  then have paid: "lp_msat p \<le> satsToMsats (lr_amount res)" by (simp add: r(5))
  from calm have st: "t_state r = Tx_pending \<or> t_state r = Tx_settled \<and> renewing (g_db g) r" by (rule conjunct2)
  let ?P = "\<lambda>x. t_event x = event" and ?g = "\<lambda>r. r\<lparr>t_state := Tx_settled, t_preimage := Some (lr_preimage res),
        t_feesPaidMsat := Some (fees_of (lp_msat p) (satsToMsats (lr_amount res))), t_settledAt := Some now, t_swapId := Some (lr_swapId res)\<rparr>"
  from assms(3) have b: "rows_ok (g_db g)" "exact (g_db g)" "capped z (g_db g)" "distinct (map t_id (txs (g_db g)))" by (simp_all add: books_def)
  have sp: "same_payments (g_db g) ?P ?g" by (rule same_payments_writes(3))
  have ev: "distinct (map t_event (txs (g_db g)))" using assms(2) by (simp add: ledger_wf_def)
  have nr: "no_revival (g_db g) ?P ?g" using assms(4) [unfolded Pay_done calm.simps] by (auto simp: no_revival_def committed_def)
  have mine: "x = r" if "x \<in> set (txs (g_db g))" "t_event x = event" for x
    using ev that r(1,2) inj_onD [of t_event "set (txs (g_db g))" x r] by (simp add: distinct_map)
  have "books z (add_spent (satsToMsats (lr_amount res)) (lp_conn p) (update_txs ?P ?g (g_db g)))"
    unfolding books_def
  proof (intro conjI)
    show "rows_ok (add_spent (satsToMsats (lr_amount res)) (lp_conn p) (update_txs ?P ?g (g_db g)))"
      using rows_ok_update [OF b(1) sp] by (simp add: fees_of_def)
    show "exact (add_spent (satsToMsats (lr_amount res)) (lp_conn p) (update_txs ?P ?g (g_db g)))"
    proof (cases "t_state r = Tx_pending")
      case True
      have "exact (add_spent (satsToMsats (lr_amount res)) (lp_conn p) (update_txs (\<lambda>x. t_event x = t_event r \<and> True) ?g (g_db g)))"
        by (rule exact_settle [OF b(2) ev r(1) True])
          (use r paid in \<open>simp_all add: of_conn_def same_payment_def with_fees_def fees_of_def\<close>)
      then show ?thesis by (simp only: r(2) simp_thms)
    next
      case False
      with st r(4) have "\<forall>c \<in> set (conns (g_db g)). n_id c = lp_conn p \<longrightarrow> n_budgetRenewal c \<noteq> Never" by (simp add: renewing_def)
      then show ?thesis by (rule exact_other [OF b(2)]) (use mine r(4) in auto)
    qed
    show "capped z (add_spent (satsToMsats (lr_amount res)) (lp_conn p) (update_txs ?P ?g (g_db g)))"
      by (rule capped_spent [OF capped_update [OF b(3,1) sp nr]])
    show "distinct (map t_id (txs (add_spent (satsToMsats (lr_amount res)) (lp_conn p) (update_txs ?P ?g (g_db g)))))"
      by (rule ids_update(2) [OF sp b(4)])
  qed
  with Pay_done assms(5) p show ?thesis by (auto simp: pay_settle_def drop_live_def)
next
  case (Pay_threw event msg)
  have "books z (pay_fail event msg (g_db g))"
    unfolding pay_fail_def
    by (rule books_update [OF assms(3) same_payments_writes(2) no_revival_writes(2)])
      (use assms(4) [unfolded Pay_threw calm.simps renewing_def] in \<open>auto simp: settled_cost_def of_conn_def\<close>)
  with Pay_threw assms(5) show ?thesis by (auto simp: drop_live_def split: option.splits)
next
  case (Make_done conn event iss msat description now)
  have "books z (snd (make_record conn event iss msat description now (g_db g)))"
    by (rule make_record_cases [of conn event iss msat description now "g_db g"])
      (use assms(3) next_id_new [of "txs (g_db g)"] in \<open>auto intro: books_incoming\<close>)
  with Make_done assms(5) show ?thesis by (auto split: if_splits)
next
  case (Boltz_event swap ok msg now)
  have "books z (syncSwapToDb swap ok msg now (g_db g))"
  proof (cases "bs_kind swap")
    case Reverse
    show ?thesis unfolding syncSwapToDb_def Let_def Reverse boltz_kind.case
      by (rule books_finish [OF assms(3)]) simp_all
  next
    case Submarine
    have quiet: "n_budgetRenewal c \<noteq> Never" if "ok" "r \<in> set (txs (g_db g))" "pending_swap Outgoing (bs_id swap) r"
      "c \<in> set (conns (g_db g))" "n_id c = t_connection r" for r c
      using assms(4) [unfolded Boltz_event calm.simps renewing_def] Submarine that by blast
    show ?thesis unfolding syncSwapToDb_def Let_def Submarine boltz_kind.case
    proof (rule books_finish [OF assms(3)])
      fix r c assume "(if ok then Tx_settled else Tx_failed) = Tx_settled"
      then have "ok" by (cases ok) simp_all
      moreover assume "r \<in> set (txs (g_db g))" "pending_swap Outgoing (bs_id swap) r" "c \<in> set (conns (g_db g))" "n_id c = t_connection r"
      ultimately show "n_budgetRenewal c \<noteq> Never" by (rule quiet)
    qed simp
  next
    case Chain_swap
    with assms(3) show ?thesis by (simp add: syncSwapToDb_def Let_def)
  qed
  with Boltz_event assms(5) show ?thesis by auto
next
  case (Reconcile now)
  with assms books_outs [of z "g_db g" now] show ?thesis by auto
next
  case (Elsewhere d)
  with assms(5) have same: "outgoing d = outgoing (g_db g)" "conns d = conns (g_db g)" "row_keys d = row_keys (g_db g)" and g': "g' = g\<lparr>g_db := d\<rparr>"
    by (simp_all split: if_splits)
  show ?thesis unfolding g' using books_outgoing [OF assms(3) same(1,2) row_keys_parts(2) [OF same(3)]] by simp
next
  case Crash
  with assms show ?thesis by auto
qed

lemma reach_books:
  assumes "regular_clock z" "nwc_reach z dec calm g"
  shows "books z (g_db g)"
  using assms(2)
proof induction
  case fresh
  show ?case by (simp add: first_boot_def empty_db_def books_def rows_ok_def exact_def capped_def)
next
  case (next_event g ev g')
  from step_books [OF assms(1) reach_wf [OF next_event.hyps(1)] next_event.IH next_event.hyps(2,3)] show ?case .
qed

lemma window_total: "total (window_cost z ren start conn) d = sum_list (map t_amountMsat (filter (\<lambda>r. of_conn conn r
    \<and> t_state r \<in> {Tx_pending, Tx_settled} \<and> periodStartSec z ren (t_createdAt r) = start) (txs d)))"
  unfolding total_def total_filter by (rule arg_cong [where f = sum_list], rule map_cong) (auto simp: window_cost_def committed_def)

lemma settled_total: "total (settled_cost conn) d =
    sum_list (map with_fees (filter (\<lambda>r. of_conn conn r \<and> t_state r = Tx_settled) (txs d)))"
  unfolding total_def total_filter by (rule arg_cong [where f = sum_list], rule map_cong) (auto simp: settled_cost_def)

text \<open>C21: the budget cap. In every state a calm history reaches, under whatever interleaving, with crashes,
  revocations, boltz events and reconciliation, the nominal of the payments of a connection that are
  pending or settled and were admitted in one budget window never exceeds the connection's budget. A
  budget that never renews has one window, its lifetime.\<close>

theorem budget_cap:
  assumes "regular_clock z" "nwc_reach z dec calm g" "c \<in> set (conns (g_db g))" "n_budgetMsat c = Some budget"
  shows "sum_list (map t_amountMsat (filter (\<lambda>r. of_conn (n_id c) r \<and> t_state r \<in> {Tx_pending, Tx_settled}
     \<and> periodStartSec z (n_budgetRenewal c) (t_createdAt r) = start) (txs (g_db g)))) \<le> max 0 budget"
  using reach_books [OF assms(1,2)] assms(3,4) unfolding window_total [symmetric] books_def capped_def by blast

text \<open>C23: the lifetime counter is exact. In every state a calm history reaches, the counter of a connection whose
  budget never renews is the sum of what its settled payments cost, fees included.\<close>

theorem spent_counter_exact:
  assumes "regular_clock z" "nwc_reach z dec calm g" "c \<in> set (conns (g_db g))" "n_budgetRenewal c = Never"
  shows "n_spentMsat c = sum_list (map with_fees (filter (\<lambda>r. of_conn (n_id c) r \<and> t_state r = Tx_settled) (txs (g_db g))))"
  using reach_books [OF assms(1,2)] assms(3,4) unfolding settled_total [symmetric] books_def exact_def by blast

subsection \<open>Runs\<close>

fun nwc_all :: "local_clock \<Rightarrow> (string \<Rightarrow> string + ln_invoice) \<Rightarrow> (nwc_run \<Rightarrow> nwc_event \<Rightarrow> bool) \<Rightarrow> nwc_event list \<Rightarrow> nwc_run
    \<Rightarrow> nwc_run option" where
  "nwc_all z dec ok [] g = Some g"
| "nwc_all z dec ok (ev # evs) g = (if ok g ev then (case nwc_do z dec ev g of None \<Rightarrow> None | Some g' \<Rightarrow> nwc_all z dec ok evs g') else None)"

lemma nwc_all_reach: "nwc_reach z dec ok g \<Longrightarrow> nwc_all z dec ok evs g = Some g' \<Longrightarrow> nwc_reach z dec ok g'"
  by (induction evs arbitrary: g) (auto split: if_splits option.splits intro: nwc_reach.next_event)

definition two_invoices :: "string \<Rightarrow> string + ln_invoice" where
  "two_invoices s = Inr \<lparr>li_paymentHash = s, li_amountSats = 3, li_description = []\<rparr>"

definition paid_three :: ln_result where
  "paid_three = \<lparr>lr_amount = 4, lr_preimage = ''pre'', lr_txid = ''tx'', lr_swapId = ''s1''\<rparr>"

definition new_budget :: nwc_event where
  "new_budget = Connect [''relay''] (Some 5000) None ''svc'' ''cli'' 0"

definition budget_run :: "nwc_event list" where
  "budget_run = [new_budget, Pay_ask ''svc'' ''ev1'' (Some ''a'') 10, Pay_done ''ev1'' paid_three 20, Pay_ask ''svc'' ''ev2'' (Some ''b'') 30]"

definition leaky_run :: "nwc_event list" where
  "leaky_run = [new_budget, Pay_ask ''svc'' ''ev1'' (Some ''a'') 10, Swap_created ''ev1'' ''s1'', Crash,
     Boltz_event \<lparr>bs_id = ''s1'', bs_kind = Submarine, bs_status = ''transaction.claimed'', bs_createdAt = 0, bs_preimage = None,
       bs_lockup = None, bs_invoiceAmount = 3, bs_onchainAmount = None\<rparr> True None 20, Pay_ask ''svc'' ''ev2'' (Some ''b'') 30]"

lemmas run_defs = new_budget_def two_invoices_def paid_three_def first_boot_def empty_db_def createConnection_def
  findConnectionByServicePubkey_def findConnectionById_def find_first_def pay_begin_def andthen_def guard_eff_def insert_tx_def pay_row_def
  settled_preimage_def in_flight_def over_budget_def cycleSpentMsat_def of_conn_def satsToMsats_def recordNwcLn_def history_insert_def
  next_id_def live_of_def drop_live_def pay_settle_def update_txs_def add_spent_def fees_of_def pay_swap_created_def syncSwapToDb_def
  pending_swap_def finish_row_def coalesce_def renewing_def Let_def

definition after_run :: "(nwc_run \<Rightarrow> nwc_event \<Rightarrow> bool) \<Rightarrow> nwc_event list \<Rightarrow> nwc_run" where
  "after_run ok evs = the (nwc_all utc_clock two_invoices ok evs first_boot)"

lemma after_run_reach: "nwc_all utc_clock two_invoices ok evs first_boot \<noteq> None \<Longrightarrow> nwc_reach utc_clock two_invoices ok (after_run ok evs)"
  unfolding after_run_def by (rule nwc_all_reach [OF nwc_reach.fresh]) auto

definition the_conn :: "nwc_run \<Rightarrow> connection" where
  "the_conn g = hd (conns (g_db g))"

lemma budget_run_ok:
  "nwc_reach utc_clock two_invoices calm (after_run calm budget_run)" "the_conn (after_run calm budget_run) \<in> set (conns (g_db (after_run calm budget_run)))"
  "n_budgetMsat (the_conn (after_run calm budget_run)) = Some 5000" "n_budgetRenewal (the_conn (after_run calm budget_run)) = Never"
  "n_spentMsat (the_conn (after_run calm budget_run)) = 4000"
proof -
  show "nwc_reach utc_clock two_invoices calm (after_run calm budget_run)"
    by (rule after_run_reach) (simp add: budget_run_def run_defs)
qed (simp_all add: after_run_def the_conn_def budget_run_def run_defs)

lemma first_ask_ok:
  "nwc_reach utc_clock two_invoices calm (after_run calm (take 2 budget_run))"
  "txs (g_db (after_run calm (take 2 budget_run))) = [(pay_row 1 ''ev1'' ''a'' ''a'' 3000 10)\<lparr>t_id := 1\<rparr>]"
proof -
  show "nwc_reach utc_clock two_invoices calm (after_run calm (take 2 budget_run))"
    by (rule after_run_reach) (simp add: budget_run_def run_defs)
qed (simp_all add: after_run_def budget_run_def run_defs)

theorem one_payment_in_flight_witness:
  "hd (txs (g_db (after_run calm (take 2 budget_run)))) = last (txs (g_db (after_run calm (take 2 budget_run))))"
  using one_payment_in_flight [OF first_ask_ok(1), of "(pay_row 1 ''ev1'' ''a'' ''a'' 3000 10)\<lparr>t_id := 1\<rparr>" "(pay_row 1 ''ev1'' ''a'' ''a'' 3000 10)\<lparr>t_id := 1\<rparr>" 1]
  unfolding first_ask_ok(2) by (simp add: of_conn_def pay_row_def)

theorem budget_cap_witness:
  "sum_list (map t_amountMsat (filter (\<lambda>r. of_conn (n_id (the_conn (after_run calm budget_run))) r \<and> t_state r \<in> {Tx_pending, Tx_settled}
     \<and> periodStartSec utc_clock (n_budgetRenewal (the_conn (after_run calm budget_run))) (t_createdAt r) = 0) (txs (g_db (after_run calm budget_run))))) \<le> max 0 5000"
  by (rule budget_cap [OF regular_utc budget_run_ok(1-3)])

theorem spent_counter_exact_witness:
  "4000 = sum_list (map with_fees (filter (\<lambda>r. of_conn (n_id (the_conn (after_run calm budget_run))) r \<and> t_state r = Tx_settled)
     (txs (g_db (after_run calm budget_run)))))"
  using spent_counter_exact [OF regular_utc budget_run_ok(1,2,4)] unfolding budget_run_ok(5) .


lemma reconcile_out_other: "r \<in> set (txs d) \<Longrightarrow> t_state r \<noteq> Tx_pending \<Longrightarrow> r \<in> set (txs (reconcile_out now row d))"
proof -
  have up: "r \<in> set (txs d) \<Longrightarrow> t_state r \<noteq> Tx_pending \<Longrightarrow> r \<in> set (txs (update_txs (\<lambda>r. t_id r = t_id row \<and> t_state r = Tx_pending) f d))" for f
    unfolding update_simps set_map by (intro image_eqI [of _ _ r]) simp_all
  show "r \<in> set (txs d) \<Longrightarrow> t_state r \<noteq> Tx_pending \<Longrightarrow> r \<in> set (txs (reconcile_out now row d))"
    unfolding reconcile_out_def Let_def by (auto simp del: update_simps(3) intro!: up split: option.split)
qed

text \<open>A payment the handler gave up on stays failed. When the send throws after its atomic swap was funded, the
  row is failed; whatever the atomic store says of the swap later, claimed included, the passes over it leave the
  row as it is: they look at pending rows only.\<close>

theorem failed_rows_stay:
  assumes "r \<in> set (txs (g_db g))" "t_state r = Tx_failed" and "nwc_do z dec (Reconcile now) g = Some g'"
  shows "r \<in> set (txs (g_db g'))"
proof -
  have "r \<in> set (txs d) \<Longrightarrow> r \<in> set (txs (foldl (\<lambda>d row. reconcile_out now row d) d rows))" for rows d
    using assms(2) by (induction rows arbitrary: d) (simp_all add: reconcile_out_other)
  with assms(1,3) show ?thesis by (auto simp: reconcile_outgoing_def)
qed

definition lost_row :: tx_row where
  "lost_row = (pay_row 1 ''ev1'' ''a'' ''a'' 3000 10)\<lparr>t_id := 1, t_state := Tx_failed\<rparr>"

definition lost_payment :: nwc_run where
  "lost_payment = \<lparr>g_db = empty_db\<lparr>txs := [lost_row], swaps := [\<lparr>s_id = ''s1'', s_direction = Send, s_paymentHash = ''a'', s_state = Claimed,
     s_amount = 3, s_refundLocktime = 0, s_fundingOutpoint = None, s_presigs = None, s_preimage = Some ''pre'', s_invoice = None,
     s_peerPubkey = None, s_exitDelay = None, s_createdAt = 0, s_updatedAt = 0\<rparr>]\<rparr>, g_live = []\<rparr>"

theorem failed_rows_stay_witness:
  "s_state (hd (swaps (g_db lost_payment))) = Claimed
     \<and> lost_row \<in> set (txs (g_db (the (nwc_do utc_clock two_invoices (Reconcile 50) lost_payment))))"
  using failed_rows_stay [of lost_row lost_payment utc_clock two_invoices 50 "the (nwc_do utc_clock two_invoices (Reconcile 50) lost_payment)"]
  by (simp add: lost_payment_def lost_row_def)

end
