(* ===== verification/Landing_Safety.thy ===== *)
theory Landing_Safety
  imports Boltz_Sync Eff_Logic
begin

text \<open>
  Incoming rows and what clients see. An incoming row becomes settled on evidence only: the swap is a
  success at boltz and the indexer shows the lockup spent by a transaction that made one of the wallet's own
  coins. A client reads the rows of its own connection, with a preimage only once the row is settled.
\<close>

subsection \<open>The evidence\<close>

definition landing_evidence :: "landing_world \<Rightarrow> boltz_swap \<Rightarrow> bool" where
  "landing_evidence w swap \<longleftrightarrow> (\<exists>lockup ls t addr os t1 coins t2 ours s o1. bs_lockup swap = Some lockup \<and> lw_scriptOf w lockup = Inr ls
     \<and> lw_walletAddress w t = Inr addr \<and> lw_scriptOf w addr = Inr os \<and> lw_getVtxos w t1 ls = Inr coins
     \<and> lw_getVtxos w t2 os = Inr ours \<and> s \<in> set coins \<and> spent_lockup s \<and> o1 \<in> set ours \<and> bound_to s o1)"

definition pair_evidence :: "landing_world \<Rightarrow> string \<Rightarrow> string \<Rightarrow> bool" where
  "pair_evidence w ls os \<longleftrightarrow> (\<exists>t1 coins t2 ours s o1. lw_getVtxos w t1 ls = Inr coins
     \<and> lw_getVtxos w t2 os = Inr ours \<and> s \<in> set coins \<and> spent_lockup s \<and> o1 \<in> set ours \<and> bound_to s o1)"

lemma once_evidence: "triple (\<lambda>d. True) (landed_once w ls os) (\<lambda>b d. b \<longrightarrow> pair_evidence w ls os) (\<lambda>e d. True)"
  unfolding landed_once_def
proof (rule triple_catching [where F = "\<lambda>e d. True"])
  show "triple (\<lambda>d. True) (andthen (await (\<lambda>t. lw_getVtxos w t ls)) (\<lambda>coins. let spent = filter spent_lockup coins in
       if spent = [] then ret False else andthen (await (\<lambda>t. lw_getVtxos w t os)) (\<lambda>ourCoins.
         ret (list_ex (\<lambda>o1. list_ex (\<lambda>s. bound_to s o1) spent) ourCoins))))
     (\<lambda>b d. b \<longrightarrow> pair_evidence w ls os) (\<lambda>e d. True)"
  proof (rule triple_andthen [where R = "\<lambda>coins d. \<exists>t. lw_getVtxos w t ls = Inr coins"])
    show "triple (\<lambda>d. True) (await (\<lambda>t. lw_getVtxos w t ls)) (\<lambda>coins d. \<exists>t. lw_getVtxos w t ls = Inr coins) (\<lambda>e d. True)"
      by (rule triple_await) auto
  next
    fix coins
    show "triple (\<lambda>d. \<exists>t. lw_getVtxos w t ls = Inr coins) (let spent = filter spent_lockup coins in
       if spent = [] then ret False else andthen (await (\<lambda>t. lw_getVtxos w t os)) (\<lambda>ourCoins.
         ret (list_ex (\<lambda>o1. list_ex (\<lambda>s. bound_to s o1) spent) ourCoins)))
      (\<lambda>b d. b \<longrightarrow> pair_evidence w ls os) (\<lambda>e d. True)"
      unfolding Let_def
    proof (rule triple_if)
      show "triple (\<lambda>d. \<exists>t. lw_getVtxos w t ls = Inr coins) (andthen (await (\<lambda>t. lw_getVtxos w t os)) (\<lambda>ourCoins.
         ret (list_ex (\<lambda>o1. list_ex (\<lambda>s. bound_to s o1) (filter spent_lockup coins)) ourCoins)))
        (\<lambda>b d. b \<longrightarrow> pair_evidence w ls os) (\<lambda>e d. True)"
        by (rule triple_andthen [where R = "\<lambda>ours d. (\<exists>t. lw_getVtxos w t ls = Inr coins) \<and> (\<exists>t. lw_getVtxos w t os = Inr ours)"])
          (auto intro!: triple_await triple_ret simp: list_ex_iff pair_evidence_def, blast)
    qed (auto intro: triple_ret)
  qed
qed (auto intro: triple_ret)

lemma poll_evidence: "triple (\<lambda>d. True) (landed_poll n w ls os) (\<lambda>b d. b \<longrightarrow> pair_evidence w ls os) (\<lambda>e d. True)"
proof (induction n)
  case (Suc n)
  show ?case unfolding landed_poll.simps
    by (rule triple_andthen [OF once_evidence])
      (rule triple_if, auto intro: triple_ret triple_pre [OF Suc.IH])
next
  case 0
  show ?case unfolding landed_poll.simps by (rule triple_ret) simp
qed

lemma confirm_evidence: "triple (\<lambda>d. True) (confirmReverseLanded w swap) (\<lambda>b d. b \<longrightarrow> landing_evidence w swap) (\<lambda>e d. True)"
proof (cases "bs_lockup swap = None \<or> bs_lockup swap = Some []")
  case True
  then show ?thesis by (auto simp: confirmReverseLanded_def intro: triple_ret)
next
  case False
  then obtain lockup where lock: "bs_lockup swap = Some lockup" "lockup \<noteq> []" by auto
  let ?scripts = "\<lambda>p. \<forall>ls os. p = Some (ls, os) \<longrightarrow> lw_scriptOf w lockup = Inr ls \<and> (\<exists>t addr. lw_walletAddress w t = Inr addr \<and> lw_scriptOf w addr = Inr os)"
  have "triple (\<lambda>d. True) (catching (andthen (lift_res (lw_scriptOf w lockup)) (\<lambda>ls. andthen (await (lw_walletAddress w)) (\<lambda>addr.
          andthen (lift_res (lw_scriptOf w addr)) (\<lambda>os. ret (Some (ls, os)))))) (\<lambda>e. ret None)) (\<lambda>p d. ?scripts p) (\<lambda>e d. True)"
    by (rule triple_catching [where F = "\<lambda>e d. True"],
        rule triple_andthen [where R = "\<lambda>ls d. lw_scriptOf w lockup = Inr ls"], rule triple_lift, simp, simp,
        rule triple_andthen [where R = "\<lambda>addr d. lw_scriptOf w lockup = Inr ls \<and> (\<exists>t. lw_walletAddress w t = Inr addr)" for ls], rule triple_await)
      (auto simp: triple_def andthen_def lift_res_def split: sum.splits)
  then show ?thesis
    unfolding confirmReverseLanded_def lock(1) option.case if_not_P [OF lock(2)]
  proof (rule triple_andthen)
    fix p
    show "triple (\<lambda>d. ?scripts p) (case p of None \<Rightarrow> ret False | Some (ls, os) \<Rightarrow> landed_poll REVERSE_LAND_POLLS w ls os)
       (\<lambda>b d. b \<longrightarrow> landing_evidence w swap) (\<lambda>e d. True)"
    proof (cases p)
      case (Some q)
      obtain ls os where q: "q = (ls, os)" by fastforce
      have "triple (\<lambda>d. True) (landed_poll REVERSE_LAND_POLLS w ls os) (\<lambda>b d. b \<longrightarrow> pair_evidence w ls os) (\<lambda>e d. True)" by (rule poll_evidence)
      then show ?thesis
        unfolding Some q option.case prod.case triple_def
        by (fastforce simp: landing_evidence_def pair_evidence_def lock(1) split: prod.splits sum.splits)
    qed (simp add: triple_ret)
  qed
qed

lemma moves_confirm: "moves only_ticks (confirmReverseLanded w swap)"
proof -
  have once: "moves only_ticks (landed_once w ls os)" for ls os
    unfolding landed_once_def Let_def by (intro tck_rules)
  have poll: "moves only_ticks (landed_poll n w ls os)" for n ls os
  proof (induction n)
    case 0
    show ?case unfolding landed_poll.simps by (rule tck_rules)
  next
    case (Suc n)
    then show ?case unfolding landed_poll.simps by (auto intro!: tck_rules once)
  qed
  show ?thesis unfolding confirmReverseLanded_def
    by (auto intro!: tck_rules poll split: option.split prod.split)
qed

subsection \<open>Who may settle an incoming row\<close>

definition landed_swap :: "landing_world \<Rightarrow> boltz_swap set \<Rightarrow> tx_row \<Rightarrow> bool" where
  "landed_swap w S r \<longleftrightarrow> (\<exists>swap \<in> S. t_swapId r = Some (bs_id swap) \<and> bl_reverseSuccess (lw_lib w) (bs_status swap) \<and> landing_evidence w swap)"

definition settles_landed :: "landing_world \<Rightarrow> boltz_swap set \<Rightarrow> db \<Rightarrow> db \<Rightarrow> bool" where
  "settles_landed w S d d' \<longleftrightarrow> boltzSwaps d' = boltzSwaps d \<and> (\<forall>r' \<in> set (txs d'). \<exists>r \<in> set (txs d).
     t_id r = t_id r' \<and> t_type r = t_type r' \<and> t_swapId r = t_swapId r'
     \<and> (t_type r' = Incoming \<and> t_state r' = Tx_settled \<longrightarrow> t_state r = Tx_settled \<or> t_state r = Tx_pending \<and> landed_swap w S r)
     \<and> (t_state r' = Tx_pending \<longrightarrow> t_state r = Tx_pending))"

lemma landed_key: "t_swapId r = t_swapId r' \<Longrightarrow> landed_swap w S r = landed_swap w S r'"
  by (simp add: landed_swap_def)

interpretation sld: progress "settles_landed w S" for w S
proof
  fix s t u
  show "settles_landed w S s s" by (fastforce simp: settles_landed_def)
  assume a: "settles_landed w S s t" "settles_landed w S t u"
  show "settles_landed w S s u"
    unfolding settles_landed_def
  proof (intro conjI ballI)
    show "boltzSwaps u = boltzSwaps s" using a by (simp add: settles_landed_def)
    fix r'' assume "r'' \<in> set (txs u)"
    with a(2) obtain r' where r': "r' \<in> set (txs t)" "t_id r' = t_id r''" "t_type r' = t_type r''" "t_swapId r' = t_swapId r''"
      "t_type r'' = Incoming \<and> t_state r'' = Tx_settled \<longrightarrow> t_state r' = Tx_settled \<or> t_state r' = Tx_pending \<and> landed_swap w S r'"
      "t_state r'' = Tx_pending \<longrightarrow> t_state r' = Tx_pending" unfolding settles_landed_def by metis
    with a(1) obtain r where r: "r \<in> set (txs s)" "t_id r = t_id r'" "t_type r = t_type r'" "t_swapId r = t_swapId r'"
      "t_type r' = Incoming \<and> t_state r' = Tx_settled \<longrightarrow> t_state r = Tx_settled \<or> t_state r = Tx_pending \<and> landed_swap w S r"
      "t_state r' = Tx_pending \<longrightarrow> t_state r = Tx_pending" unfolding settles_landed_def by metis
    show "\<exists>r \<in> set (txs s). t_id r = t_id r'' \<and> t_type r = t_type r'' \<and> t_swapId r = t_swapId r''
     \<and> (t_type r'' = Incoming \<and> t_state r'' = Tx_settled \<longrightarrow> t_state r = Tx_settled \<or> t_state r = Tx_pending \<and> landed_swap w S r)
     \<and> (t_state r'' = Tx_pending \<longrightarrow> t_state r = Tx_pending)"
      using r' r landed_key [OF r(4), of w S] by (intro bexI [of _ r]) auto
  qed
qed

lemma landed_ticks: "only_ticks d d' \<Longrightarrow> settles_landed w S d d'"
proof -
  assume "only_ticks d d'"
  from only_ticksD [OF this] have "settles_landed w S d d' = settles_landed w S d d" by (simp add: settles_landed_def)
  then show ?thesis using sld.R_refl by simp
qed

lemma landed_update:
  assumes "\<And>r. r \<in> set (txs d) \<Longrightarrow> P r \<Longrightarrow> t_id (f r) = t_id r \<and> t_type (f r) = t_type r \<and> t_swapId (f r) = t_swapId r \<and> t_state r = Tx_pending
      \<and> (t_type r = Incoming \<and> t_state (f r) = Tx_settled \<longrightarrow> landed_swap w S r)"
  shows "settles_landed w S d (update_txs P f d)"
  unfolding settles_landed_def
proof (intro conjI ballI)
  fix r' assume "r' \<in> set (txs (update_txs P f d))"
  then obtain r where r: "r \<in> set (txs d)" "r' = (if P r then f r else r)" by (auto simp: update_txs_def)
  with assms [of r] show "\<exists>r \<in> set (txs d). t_id r = t_id r' \<and> t_type r = t_type r' \<and> t_swapId r = t_swapId r'
     \<and> (t_type r' = Incoming \<and> t_state r' = Tx_settled \<longrightarrow> t_state r = Tx_settled \<or> t_state r = Tx_pending \<and> landed_swap w S r)
     \<and> (t_state r' = Tx_pending \<longrightarrow> t_state r = Tx_pending)"
    by (intro bexI [of _ r]) auto
qed (simp add: update_txs_def)

lemma landed_finish:
  assumes "\<And>r. ty = Incoming \<Longrightarrow> st = Tx_settled \<Longrightarrow> pending_swap ty i r \<Longrightarrow> landed_swap w S r"
  shows "settles_landed w S d (update_txs (pending_swap ty i) (finish_row st pre msg now) d)"
  by (rule landed_update) (use assms in \<open>auto simp: finish_row_def pending_swap_def\<close>)

lemma landed_sync:
  assumes "bs_kind swap = Reverse \<Longrightarrow> ok \<Longrightarrow> bl_reverseSuccess (lw_lib w) (bs_status swap) \<and> landing_evidence w swap"
  shows "settles_landed w {swap} d (syncSwapToDb swap ok msg now d)"
  using assms
  by (cases "bs_kind swap") (auto simp: syncSwapToDb_def Let_def landed_swap_def pending_swap_def sld.R_refl intro!: landed_finish)

lemma moves_landed: "moves only_ticks m \<Longrightarrow> moves (settles_landed w S) m"
  by (auto simp: moves_def intro: landed_ticks)

lemma landed_notify: "moves (settles_landed w S) (modify (notify n))"
proof (rule sld.moves_modify)
  show "settles_landed w S s (notify n s)" for s
  proof -
    have "settles_landed w S s (notify n s) = settles_landed w S s s" by (simp add: settles_landed_def)
    then show ?thesis using sld.R_refl by simp
  qed
qed

lemma landed_clock: "moves (settles_landed w S) (now_sec w')"
  by (rule moves_landed) (auto simp: now_sec_def intro: tck_rules)

lemmas sld_rules = sld.moves_rules landed_notify landed_clock

text \<open>After a landing check, what follows may use the evidence it found.\<close>

lemma moves_after_check:
  assumes "\<And>b. (b \<Longrightarrow> landing_evidence w swap) \<Longrightarrow> moves (settles_landed w S) (k b)"
  shows "moves (settles_landed w S) (andthen (confirmReverseLanded w swap) k)"
  unfolding moves_def
proof
  fix s
  obtain r t where run: "confirmReverseLanded w swap s = (r, t)" by fastforce
  have first: "settles_landed w S s t" using moves_landed [OF moves_confirm, of w S w swap] movesD run by (metis snd_conv)
  show "settles_landed w S s (snd (andthen (confirmReverseLanded w swap) k s))"
  proof (cases r)
    case (Inr b)
    then have "b \<Longrightarrow> landing_evidence w swap" using triple_Inr [OF confirm_evidence _ run [unfolded Inr]] by blast
    from movesD [OF assms [OF this], where s = t] show ?thesis using run Inr sld.R_trans [OF first] by (simp add: andthen_def)
  qed (use run first in \<open>simp add: andthen_def\<close>)
qed

lemma moves_check_if:
  assumes "\<And>b. (b \<Longrightarrow> ok \<Longrightarrow> landing_evidence w swap) \<Longrightarrow> moves (settles_landed w S) (k b)"
  shows "moves (settles_landed w S) (andthen (if ok then confirmReverseLanded w swap else ret True) k)"
proof (cases ok)
  case True
  show ?thesis unfolding if_P [OF True] by (rule moves_after_check, rule assms)
next
  case False
  show ?thesis unfolding if_not_P [OF False] by (rule sld.moves_andthen [OF sld.moves_ret], rule assms) (use False in simp)
qed

lemma terminal_landed: "moves (settles_landed w {swap}) (onSwapTerminal w swap)"
proof -
  have sync: "moves (settles_landed w {swap}) (modify (syncSwapToDb swap ok msg now))"
    if "bs_kind swap = Reverse \<Longrightarrow> ok \<Longrightarrow> bl_reverseSuccess (lw_lib w) (bs_status swap) \<and> landing_evidence w swap" for ok msg now
    by (rule sld.moves_modify, rule landed_sync, rule that)
  show ?thesis
  proof (cases "bs_kind swap")
    case Reverse
    show ?thesis unfolding onSwapTerminal_def Reverse boltz_kind.case
      by (intro sld_rules sync moves_after_check) simp_all
  next
    case Submarine
    show ?thesis unfolding onSwapTerminal_def Submarine boltz_kind.case
      by (intro sld_rules sync) (simp_all add: Submarine)
  next
    case Chain_swap
    show ?thesis unfolding onSwapTerminal_def Chain_swap boltz_kind.case by (rule sld_rules)
  qed
qed

text \<open>The pass over pending rows: the swap a row is settled with is the one stored under its id.\<close>

lemma landed_one:
  assumes "settles_landed w (set (boltzSwaps d0)) d0 d"
  shows "settles_landed w (set (boltzSwaps d0)) d0 (snd (reconcile_in w now i d))"
proof (cases "find_first (\<lambda>s. bs_id s = i) (boltzSwaps d)")
  case None
  with assms show ?thesis by (simp add: reconcile_in_def andthen_def)
next
  case (Some swap)
  let ?S = "set (boltzSwaps d0)"
  have swap: "swap \<in> ?S" "bs_id swap = i"
    using find_first_Some [OF Some] assms by (auto simp: settles_landed_def)
  have wr: "moves (settles_landed w ?S) (modify (\<lambda>d. let hit = (\<exists>r \<in> set (txs d). pending_swap Incoming i r);
             d' = update_txs (pending_swap Incoming i) (finish_row (if ok then Tx_settled else Tx_failed) (if ok then bs_preimage swap else None) None now) d
           in if hit \<and> ok then notify Recv_ln d' else d'))"
    if "ok \<Longrightarrow> bl_reverseSuccess (lw_lib w) (bs_status swap) \<and> landing_evidence w swap" for ok
  proof (rule sld.moves_modify)
    fix d
    have fin: "settles_landed w ?S d (update_txs (pending_swap Incoming i) (finish_row (if ok then Tx_settled else Tx_failed) pre msg now) d)" for pre msg
      by (rule landed_finish) (use that swap in \<open>auto simp: landed_swap_def pending_swap_def split: if_splits\<close>)
    have "settles_landed w ?S d (notify n d') = settles_landed w ?S d d'" for n d' by (simp add: settles_landed_def)
    with fin show "settles_landed w ?S d (let hit = (\<exists>r \<in> set (txs d). pending_swap Incoming i r);
             d' = update_txs (pending_swap Incoming i) (finish_row (if ok then Tx_settled else Tx_failed) (if ok then bs_preimage swap else None) None now) d
           in if hit \<and> ok then notify Recv_ln d' else d')"
      by (cases ok) (simp_all add: Let_def)
  qed
  have "moves (settles_landed w ?S) (if \<not> bl_reverseFinal (lw_lib w) (bs_status swap) then ret ()
       else (let ok = bl_reverseSuccess (lw_lib w) (bs_status swap) in
         andthen (if ok then confirmReverseLanded w swap else ret True) (\<lambda>go.
         if \<not> go then ret ()
         else modify (\<lambda>d. (let hit = (\<exists>r \<in> set (txs d). pending_swap Incoming i r);
             d' = update_txs (pending_swap Incoming i) (finish_row (if ok then Tx_settled else Tx_failed)
               (if ok then bs_preimage swap else None) None now) d
           in if hit \<and> ok then notify Recv_ln d' else d')))))"
    unfolding Let_def [of "bl_reverseSuccess (lw_lib w) (bs_status swap)"]
    by (intro sld.moves_if sld.moves_ret moves_check_if wr conjI) simp_all
  from movesD [OF this, where s = d] show ?thesis using Some sld.R_trans [OF assms] by (simp add: reconcile_in_def andthen_def)
qed

lemma landed_all:
  assumes "settles_landed w (set (boltzSwaps d0)) d0 d"
  shows "settles_landed w (set (boltzSwaps d0)) d0 (snd (reconcile_ins w now ids d))"
  using assms
proof (induction ids arbitrary: d)
  case (Cons i ids)
  obtain r t where run: "reconcile_in w now i d = (r, t)" by fastforce
  with landed_one [OF Cons.prems, of now i] have "settles_landed w (set (boltzSwaps d0)) d0 t" by simp
  with Cons.IH show ?case using run by (cases r) (simp_all add: andthen_def)
qed simp

definition typed_ids :: "db \<Rightarrow> bool" where
  "typed_ids d \<longleftrightarrow> (\<forall>r1 \<in> set (txs d). \<forall>r2 \<in> set (txs d). t_id r1 = t_id r2 \<longrightarrow> t_type r1 = t_type r2)"

lemma typed_kept: "settles_landed w S d d' \<Longrightarrow> typed_ids d \<Longrightarrow> typed_ids d'"
  unfolding settles_landed_def typed_ids_def by metis

lemma landed_out:
  assumes "\<forall>r \<in> set (txs d). t_id r = t_id row \<longrightarrow> t_type r = Outgoing"
  shows "settles_landed w S d (reconcile_out now row d)"
proof -
  have sp: "settles_landed w S d (add_spent m c d') = settles_landed w S d d'" for m c d' by (simp add: settles_landed_def add_spent_def)
  have up: "settles_landed w S d (update_txs (\<lambda>r. t_id r = t_id row \<and> t_state r = Tx_pending) f d)"
    if "\<And>r. t_id (f r) = t_id r \<and> t_type (f r) = t_type r \<and> t_swapId (f r) = t_swapId r" for f
    by (rule landed_update) (use that assms in auto)
  show ?thesis unfolding reconcile_out_def Let_def by (auto simp: sp sld.R_refl intro!: up split: option.split)
qed

lemma landed_outgoing:
  assumes "typed_ids d"
  shows "settles_landed w S d (reconcile_outgoing now d)"
proof -
  have all: "settles_landed w S d0 (foldl (\<lambda>d row. reconcile_out now row d) d0 rows)"
    if "\<forall>row \<in> set rows. \<forall>r \<in> set (txs d0). t_id r = t_id row \<longrightarrow> t_type r = Outgoing" for rows :: "tx_row list" and d0
    using that
  proof (induction rows arbitrary: d0)
    case (Cons row rows)
    have step: "settles_landed w S d0 (reconcile_out now row d0)" by (rule landed_out) (use Cons.prems in simp)
    have "\<forall>row' \<in> set rows. \<forall>r \<in> set (txs (reconcile_out now row d0)). t_id r = t_id row' \<longrightarrow> t_type r = Outgoing"
      using step Cons.prems unfolding settles_landed_def by (metis list.set_intros(2))
    from sld.R_trans [OF step Cons.IH [OF this]] show ?case by simp
  qed (simp add: sld.R_refl)
  have "t_type r = Outgoing" if "row \<in> set (txs d)" "t_type row = Outgoing" "r \<in> set (txs d)" "t_id r = t_id row" for r row
    using assms that unfolding typed_ids_def by metis
  then show ?thesis unfolding reconcile_outgoing_def by (intro all) auto
qed

lemma pass_landed:
  assumes "distinct (map t_id (txs d))"
  shows "settles_landed w (set (boltzSwaps d)) d (snd (reconcilePendingIncoming w d))"
proof -
  have typed: "typed_ids d" using assms inj_onD unfolding typed_ids_def distinct_map by metis
  have "settles_landed w (set (boltzSwaps d)) d d" by (rule sld.R_refl)
  obtain r t where run: "reconcile_ins w (lw_now w (tick d) div 1000) (pending_incoming d) d = (r, t)" by fastforce
  with landed_all [OF sld.R_refl, of w d "lw_now w (tick d) div 1000" "pending_incoming d"] have first: "settles_landed w (set (boltzSwaps d)) d t" by simp
  show ?thesis
    using run first sld.R_trans [OF first landed_outgoing [OF typed_kept [OF first typed]]]
    by (cases r) (simp_all add: reconcilePendingIncoming_def andthen_def now_sec_def clock_ms_def)
qed

text \<open>C22: no incoming row is settled without evidence. After boltz's terminal event, and after the pass over pending
  rows, a settled incoming row was settled before, or was pending and linked to a swap with a success status whose
  lockup the indexer showed spent by a transaction that produced a coin at the wallet's own script. Whatever
  boltz and the indexer answer, a row that was failed or expired is not settled.\<close>

theorem incoming_needs_landing:
  assumes "distinct (map t_id (txs d))" "r' \<in> set (txs d')" "t_type r' = Incoming" "t_state r' = Tx_settled"
    and "(S = {swap} \<and> d' = snd (onSwapTerminal w swap d)) \<or> (S = set (boltzSwaps d) \<and> d' = snd (reconcilePendingIncoming w d))"
  shows "\<exists>r \<in> set (txs d). t_id r = t_id r' \<and> (t_state r = Tx_settled \<or> t_state r = Tx_pending
     \<and> (\<exists>swap \<in> S. t_swapId r = Some (bs_id swap) \<and> bl_reverseSuccess (lw_lib w) (bs_status swap) \<and> landing_evidence w swap))"
proof -
  have "settles_landed w S d d'"
    using assms(5) movesD [OF terminal_landed, of w swap d] pass_landed [OF assms(1), of w] by auto
  with assms(2-4) show ?thesis unfolding settles_landed_def landed_swap_def by metis
qed

subsection \<open>Clients\<close>

lemma newest_in: "newest_row rows = Some r \<Longrightarrow> r \<in> set rows"
proof -
  assume "newest_row rows = Some r"
  then obtain rs where e: "js_sort (\<lambda>a b. int (t_id b) - int (t_id a)) rows = r # rs" by (auto simp: newest_row_def split: list.splits)
  have "r \<in> set (js_sort (\<lambda>a b. int (t_id b) - int (t_id a)) rows)" unfolding e by simp
  then show ?thesis by simp
qed

text \<open>A client sees its own rows only. What \<open>lookup_invoice\<close> and \<open>list_transactions\<close> answer is the image of a row of the
  asking connection, and a preimage is in the answer only when that row is settled, so an unpaid invoice never
  leaks the preimage that proves payment.\<close>

theorem clients_isolated:
  assumes "handleLookupInvoice d conn h invoice = Inr x \<or> (handleListTransactions d conn p now = Inr xs \<and> x \<in> set xs)"
  shows "\<exists>r \<in> set (txs d). t_connection r = n_id conn \<and> x = transactionRowToNwc r \<and> (x_preimage x \<noteq> None \<longrightarrow> t_state r = Tx_settled)"
proof -
  have pre: "x_preimage (transactionRowToNwc r) \<noteq> None \<longrightarrow> t_state r = Tx_settled" for r
    by (simp add: transactionRowToNwc_def Let_def)
  from assms consider "handleLookupInvoice d conn h invoice = Inr x" | "handleListTransactions d conn p now = Inr xs" "x \<in> set xs" by blast
  then have "\<exists>r \<in> set (txs d). t_connection r = n_id conn \<and> x = transactionRowToNwc r"
  proof cases
    case 1
    then obtain r where r: "x = transactionRowToNwc r" "r \<in> set (txs d) \<and> t_connection r = n_id conn"
      by (cases "h \<noteq> None \<and> h \<noteq> Some []") (auto simp: handleLookupInvoice_def Let_def split: if_splits option.splits dest!: newest_in)
    then show ?thesis by blast
  next
    case 2
    then obtain r where r: "x = transactionRowToNwc r" "list_wanted conn p now r" "r \<in> set (txs d)"
      by (auto simp: handleListTransactions_def Let_def split: if_splits dest!: in_set_takeD in_set_dropD)
    then show ?thesis unfolding list_wanted_def by blast
  qed
  with pre show ?thesis by blast
qed

subsection \<open>Instances\<close>

definition landing_row :: tx_row where
  "landing_row = make_row 1 ''ev1'' \<lparr>iw_invoice = ''ln'', iw_paymentHash = ''h'', iw_expiresAt = 90, iw_receivedSats = 3, iw_swapId = Some ''s1''\<rparr>
     3000 None 10"

definition landing_swap :: boltz_swap where
  "landing_swap = \<lparr>bs_id = ''s1'', bs_kind = Reverse, bs_status = ''invoice.settled'', bs_createdAt = 0, bs_preimage = Some ''pre'',
     bs_lockup = Some ''lock'', bs_invoiceAmount = 3, bs_onchainAmount = None\<rparr>"

definition landing_coin :: "string \<Rightarrow> string option \<Rightarrow> vcoin" where
  "landing_coin txid spent = \<lparr>c_txid = txid, c_vout = 0, c_value = 3, c_script = [], c_tapTree = [], c_state = None, c_batchExpiry = None,
     c_commitmentTxIds = None, c_spentBy = None, c_settledBy = None, c_arkTxId = spent, c_isSpent = (spent \<noteq> None), c_isUnrolled = False\<rparr>"

text \<open>An indexer that shows the claim at the second look.\<close>

definition landing_sample :: landing_world where
  "landing_sample = \<lparr>lw_lib = \<lparr>bl_reverseFinal = \<lambda>s. True, bl_reverseSuccess = \<lambda>s. s = ''invoice.settled'', bl_submarineSuccess = \<lambda>s. True\<rparr>,
     lw_now = \<lambda>t. 20000, lw_walletAddress = \<lambda>t. Inr ''mine'', lw_scriptOf = Inr,
     lw_getVtxos = \<lambda>t s. if s = ''lock'' then (if t < 2 then Inl (Error ''offline'') else Inr [landing_coin ''c1'' (Some ''c2'')])
       else Inr [landing_coin ''c2'' None]\<rparr>"

definition landed_db :: db where
  "landed_db = snd (onSwapTerminal landing_sample landing_swap (empty_db\<lparr>txs := [landing_row]\<rparr>))"

lemma landed_db_rows: "txs landed_db = [landing_row\<lparr>t_state := Tx_settled, t_preimage := Some ''pre'', t_settledAt := Some 20\<rparr>]"
  by (simp add: landed_db_def onSwapTerminal_def landing_swap_def landing_sample_def confirmReverseLanded_def REVERSE_LAND_POLLS_def
      numeral_eq_Suc landed_once_def catching_def andthen_def await_def landing_coin_def spent_lockup_def truthy_def bound_to_def empty_db_def
      now_sec_def clock_ms_def syncSwapToDb_def update_txs_def pending_swap_def finish_row_def coalesce_def landing_row_def make_row_def Let_def)

theorem incoming_needs_landing_witness:
  "t_state (hd (txs landed_db)) = Tx_settled \<and> (\<exists>r \<in> {landing_row}. t_id r = 0 \<and> (t_state r = Tx_settled \<or> t_state r = Tx_pending
     \<and> (\<exists>swap \<in> {landing_swap}. t_swapId r = Some (bs_id swap) \<and> bl_reverseSuccess (lw_lib landing_sample) (bs_status swap)
        \<and> landing_evidence landing_sample swap)))"
  using incoming_needs_landing [of "empty_db\<lparr>txs := [landing_row]\<rparr>" "hd (txs landed_db)" landed_db "{landing_swap}" landing_swap landing_sample]
  unfolding landed_db_rows by (simp add: landed_db_def landing_row_def make_row_def)

definition listed_row :: tx_row where
  "listed_row = landing_row\<lparr>t_id := 1\<rparr>"

definition list_all_rows :: list_params where
  "list_all_rows = \<lparr>ls_from = None, ls_until = None, ls_limit = None, ls_offset = None, ls_unpaid = True, ls_type = None\<rparr>"

definition client_one :: connection where
  "client_one = \<lparr>n_id = 1, n_label = None, n_servicePubkey = ''svc'', n_clientPubkey = ''cli'', n_relays = [''r''], n_budgetMsat = None,
     n_budgetRenewal = Never, n_spentMsat = 0, n_createdAt = 0, n_revokedAt = None\<rparr>"

theorem clients_isolated_witness:
  "\<exists>r \<in> {listed_row}. t_connection r = 1 \<and> transactionRowToNwc listed_row = transactionRowToNwc r
     \<and> (x_preimage (transactionRowToNwc listed_row) \<noteq> None \<longrightarrow> t_state r = Tx_settled)"
  using clients_isolated [of "empty_db\<lparr>txs := [listed_row]\<rparr>" client_one "Some ''h''" None "transactionRowToNwc listed_row" list_all_rows 50
      "[transactionRowToNwc listed_row]"]
  by (simp add: handleListTransactions_def list_all_rows_def Let_def list_wanted_def client_one_def listed_row_def landing_row_def make_row_def or_else_def)

end
