(* ===== verification/History.thy ===== *)
theory History
  imports Nwc_Ledger Exit_Vault
begin

text \<open>
  The wallet history, \<open>src/history.ts\<close>, and the offboard rows it mirrors, \<open>src/offboards.ts\<close>: one row per
  money event, unique under its kind and reference; the mirror pass over the source tables; newest-first pages behind a
  cursor. \<open>now\<close> is the clock in seconds. Timestamps are integers, ids naturals.
\<close>

subsection \<open>Writes\<close>

definition recordNofferReceive :: "int \<Rightarrow> string \<Rightarrow> int \<Rightarrow> int option \<Rightarrow> string option \<Rightarrow> db \<Rightarrow> db" where
  "recordNofferReceive now ref amountSats fees description =
     history_insert \<lparr>h_id = 0, h_kind = Noffer_in, h_out = False, h_state = Tx_settled, h_amountMsat = amountSats * 1000, h_feesMsat = fees,
       h_description = description, h_ref = Some ref, h_txid = None, h_txid2 = None, h_error = None, h_createdAt = now, h_settledAt = Some now\<rparr>"

definition is_row :: "history_kind \<Rightarrow> string \<Rightarrow> history_row \<Rightarrow> bool" where
  "is_row kind ref r \<longleftrightarrow> h_kind r = kind \<and> h_ref r = Some ref"

definition update_history :: "(history_row \<Rightarrow> bool) \<Rightarrow> (history_row \<Rightarrow> history_row) \<Rightarrow> db \<Rightarrow> db" where
  "update_history P f d = d\<lparr>history := map (\<lambda>r. if P r then f r else r) (history d)\<rparr>"

text \<open>\<open>ON CONFLICT(kind, ref) DO UPDATE\<close>: a retry resets the row.\<close>

definition recordWebLnPending :: "int \<Rightarrow> string \<Rightarrow> int \<Rightarrow> string option \<Rightarrow> db \<Rightarrow> db" where
  "recordWebLnPending now hash amount description d =
     (if \<exists>r \<in> set (history d). is_row Web_ln hash r
      then update_history (is_row Web_ln hash) (\<lambda>r. r\<lparr>h_state := Tx_pending, h_error := None, h_settledAt := None, h_createdAt := now\<rparr>) d
      else history_insert \<lparr>h_id = 0, h_kind = Web_ln, h_out = True, h_state = Tx_pending, h_amountMsat = amount, h_feesMsat = None,
        h_description = description, h_ref = Some hash, h_txid = None, h_txid2 = None, h_error = None, h_createdAt = now, h_settledAt = None\<rparr> d)"

definition settleWebLn :: "int \<Rightarrow> string \<Rightarrow> int \<Rightarrow> string option \<Rightarrow> db \<Rightarrow> db" where
  "settleWebLn now hash fees txid = update_history (\<lambda>r. is_row Web_ln hash r \<and> h_state r = Tx_pending)
     (\<lambda>r. r\<lparr>h_state := Tx_settled, h_feesMsat := Some fees, h_txid := txid, h_settledAt := Some now\<rparr>)"

definition failWebLn :: "int \<Rightarrow> string \<Rightarrow> string \<Rightarrow> db \<Rightarrow> db" where
  "failWebLn now hash err = update_history (\<lambda>r. is_row Web_ln hash r \<and> h_state r = Tx_pending)
     (\<lambda>r. r\<lparr>h_state := Tx_failed, h_error := Some err, h_settledAt := Some now\<rparr>)"

text \<open>The result of the send is its txid (\<open>Inr\<close>) or its error (\<open>Inl\<close>).\<close>

definition recordArkSend :: "int \<Rightarrow> int \<Rightarrow> string \<Rightarrow> string + string \<Rightarrow> db \<Rightarrow> db" where
  "recordArkSend now amountSats destination res = (let txid = (case res of Inr t \<Rightarrow> Some t | Inl e \<Rightarrow> None) in
     history_insert \<lparr>h_id = 0, h_kind = Ark_send, h_out = True, h_state = (if txid = None then Tx_failed else Tx_settled),
       h_amountMsat = amountSats * 1000, h_feesMsat = map_option (\<lambda>t. 0) txid, h_description = Some destination, h_ref = txid, h_txid = txid,
       h_txid2 = None, h_error = (case res of Inr t \<Rightarrow> None | Inl e \<Rightarrow> Some e), h_createdAt = now, h_settledAt = Some now\<rparr>)"

definition recordOffboard :: "nat \<Rightarrow> int \<Rightarrow> int \<Rightarrow> string \<Rightarrow> int \<Rightarrow> db \<Rightarrow> db" where
  "recordOffboard i amountSat feeSat address createdAt =
     history_insert \<lparr>h_id = 0, h_kind = Offboard, h_out = True, h_state = Tx_pending, h_amountMsat = amountSat * 1000,
       h_feesMsat = Some (feeSat * 1000), h_description = Some address, h_ref = Some (show_nat i), h_txid = None, h_txid2 = None,
       h_error = None, h_createdAt = createdAt, h_settledAt = None\<rparr>"

definition recordOnboardPending :: "int \<Rightarrow> string \<Rightarrow> nat \<Rightarrow> int \<Rightarrow> db \<Rightarrow> db" where
  "recordOnboardPending now txid vout amountSats =
     history_insert \<lparr>h_id = 0, h_kind = Onboard, h_out = False, h_state = Tx_pending, h_amountMsat = amountSats * 1000, h_feesMsat = None,
       h_description = None, h_ref = Some (outpoint_key txid vout), h_txid = Some txid, h_txid2 = None, h_error = None, h_createdAt = now,
       h_settledAt = None\<rparr>"

definition settleOnboard :: "int \<Rightarrow> string \<Rightarrow> string option \<Rightarrow> db \<Rightarrow> db" where
  "settleOnboard now ref spendTxid = update_history (\<lambda>r. is_row Onboard ref r \<and> h_state r = Tx_pending)
     (\<lambda>r. r\<lparr>h_state := Tx_settled, h_txid2 := coalesce spendTxid (h_txid2 r), h_settledAt := Some now\<rparr>)"

definition sweepInterruptedWebSends :: "int \<Rightarrow> db \<Rightarrow> nat \<times> db" where
  "sweepInterruptedWebSends now d = (let P = (\<lambda>r. h_kind r = Web_ln \<and> h_state r = Tx_pending) in
     (length (filter P (history d)), update_history P
       (\<lambda>r. r\<lparr>h_state := Tx_failed, h_error := Some ''interrupted by restart'', h_settledAt := Some now\<rparr>) d))"

subsection \<open>Offboards\<close>

definition createOffboard :: "int \<Rightarrow> string \<Rightarrow> int \<Rightarrow> int \<Rightarrow> bool \<Rightarrow> db \<Rightarrow> offboard_row \<times> db" where
  "createOffboard now address amountSat feeSat isMax d =
     (let r = \<lparr>f_id = next_id (map f_id (offboards d)), f_address = address, f_amountSat = amountSat, f_feeSat = feeSat, f_isMax = isMax,
        f_state = Tx_pending, f_arkTxid = None, f_error = None, f_createdAt = now, f_settledAt = None\<rparr>
      in (r, d\<lparr>offboards := offboards d @ [r]\<rparr>))"

definition markOffboardSettled :: "int \<Rightarrow> nat \<Rightarrow> string \<Rightarrow> db \<Rightarrow> db" where
  "markOffboardSettled now i txid d = d\<lparr>offboards :=
     row_update f_id i (\<lambda>r. r\<lparr>f_state := Tx_settled, f_arkTxid := Some txid, f_settledAt := Some now\<rparr>) (offboards d)\<rparr>"

definition markOffboardFailed :: "int \<Rightarrow> nat \<Rightarrow> string \<Rightarrow> db \<Rightarrow> db" where
  "markOffboardFailed now i err d = d\<lparr>offboards :=
     row_update f_id i (\<lambda>r. r\<lparr>f_state := Tx_failed, f_error := Some err, f_settledAt := Some now\<rparr>) (offboards d)\<rparr>"

definition listRecentOffboards :: "nat \<Rightarrow> db \<Rightarrow> offboard_row list" where
  "listRecentOffboards limit d =
     take limit (js_sort (\<lambda>a b. js_or (f_createdAt b - f_createdAt a) (int (f_id b) - int (f_id a))) (offboards d))"

definition hasPendingOffboards :: "db \<Rightarrow> bool" where
  "hasPendingOffboards d \<longleftrightarrow> (\<exists>r \<in> set (offboards d). f_state r = Tx_pending)"

subsection \<open>The mirror\<close>

definition mirror_tx :: "tx_row list \<Rightarrow> history_row \<Rightarrow> history_row" where
  "mirror_tx rows h = (if h_kind h \<noteq> Nwc_ln then h else
     (case find_first (\<lambda>t. h_ref h = Some (t_event t) \<and> (h_state h \<noteq> t_state t \<or> or_else (h_feesMsat h) (-1) \<noteq> or_else (t_feesPaidMsat t) (-1))) rows of
        None \<Rightarrow> h
      | Some t \<Rightarrow> h\<lparr>h_state := t_state t, h_feesMsat := t_feesPaidMsat t, h_error := t_error t, h_settledAt := t_settledAt t\<rparr>))"

definition mirror_offboard :: "offboard_row list \<Rightarrow> history_row \<Rightarrow> history_row" where
  "mirror_offboard rows h = (if h_kind h \<noteq> Offboard then h else
     (case find_first (\<lambda>r. h_ref h = Some (show_nat (f_id r)) \<and> (h_state h \<noteq> f_state r \<or> or_else (h_txid h) [] \<noteq> or_else (f_arkTxid r) [])) rows of
        None \<Rightarrow> h
      | Some r \<Rightarrow> h\<lparr>h_state := f_state r, h_txid := f_arkTxid r, h_error := f_error r, h_settledAt := f_settledAt r\<rparr>))"

definition syncHistoryFromSources :: "db \<Rightarrow> db" where
  "syncHistoryFromSources d = d\<lparr>history := map (\<lambda>h. mirror_offboard (offboards d) (mirror_tx (txs d) h)) (history d)\<rparr>"

subsection \<open>Pages\<close>

record history_cursor =
  hc_createdAt :: int
  hc_id :: nat

record history_page =
  hp_rows :: "history_row list"
  hp_next :: "history_cursor option"

definition history_order :: "history_row \<Rightarrow> history_row \<Rightarrow> int" where
  "history_order a b = js_or (h_createdAt b - h_createdAt a) (int (h_id b) - int (h_id a))"

definition older :: "history_cursor \<Rightarrow> history_row \<Rightarrow> bool" where
  "older c r \<longleftrightarrow> h_createdAt r < hc_createdAt c \<or> (h_createdAt r = hc_createdAt c \<and> h_id r < hc_id c)"

definition page_limit :: "int option \<Rightarrow> nat" where
  "page_limit limit = nat (min (max (or_else limit 50) 1) 200)"

definition listHistoryPage :: "db \<Rightarrow> history_cursor option \<Rightarrow> int option \<Rightarrow> history_page" where
  "listHistoryPage d before limit =
     (let n = page_limit limit;
          rows = take (n + 1) (js_sort history_order (filter (\<lambda>r. case before of None \<Rightarrow> True | Some c \<Rightarrow> older c r) (history d)));
          hasMore = n < length rows;
          page = (if hasMore then take n rows else rows)
      in \<lparr>hp_rows = page, hp_next = (if hasMore \<and> page \<noteq> []
            then Some \<lparr>hc_createdAt = h_createdAt (last page), hc_id = h_id (last page)\<rparr> else None)\<rparr>)"

definition show_int :: "int \<Rightarrow> string" where
  "show_int n = (if n < 0 then CHR ''-'' # show_nat (nat (- n)) else show_nat (nat n))"

definition formatHistoryCursor :: "history_cursor \<Rightarrow> string" where
  "formatHistoryCursor c = show_int (hc_createdAt c) @ CHR ''-'' # show_nat (hc_id c)"

text \<open>\<open>/^(\d{1,12})-(\d{1,12})$/\<close>\<close>

definition digits_12 :: "string \<Rightarrow> bool" where
  "digits_12 s \<longleftrightarrow> 1 \<le> length s \<and> length s \<le> 12 \<and> list_all is_digit s"

definition parseHistoryCursor :: "string option \<Rightarrow> history_cursor option" where
  "parseHistoryCursor raw = (case raw of None \<Rightarrow> None
   | Some s \<Rightarrow> (case js_split (CHR ''-'') s of
       [a, b] \<Rightarrow> (if digits_12 a \<and> digits_12 b then Some \<lparr>hc_createdAt = int (digits_value a), hc_id = digits_value b\<rparr> else None)
     | _ \<Rightarrow> None))"

end
