(* ===== verification/History_Safety.thy ===== *)
theory History_Safety
  imports History
begin

text \<open>
  What the history keeps: one row per kind and reference whatever is recorded, retried or mirrored; a mirror that
  agrees with its sources; pages that together are the whole history in order; cursors that survive the URL.
\<close>

subsection \<open>Pages\<close>

lemma newest_comparator: "comparator history_order"
proof -
  have e: "history_order = (\<lambda>x y. js_or ((- h_createdAt x) - (- h_createdAt y)) ((- int (h_id x)) - (- int (h_id y))))"
    by (simp add: history_order_def fun_eq_iff)
  show ?thesis unfolding e by (rule comparator_js_or [OF comparator_diff comparator_diff])
qed

interpretation nwf: comparator history_order
  by (rule newest_comparator)

text \<open>Sorting and filtering commute.\<close>

context comparator
begin

lemma filter_insert:
  assumes "sorted_wrt (\<lambda>a b. cmp a b \<le> 0) ys"
  shows "filter P (cmp_insert cmp x ys) = (if P x then cmp_insert cmp x (filter P ys) else filter P ys)"
  using assms
proof (induction ys)
  case (Cons y ys)
  have low: "cmp_insert cmp x (filter P ys) = x # filter P ys" if "cmp x y \<le> 0" "\<not> P y"
  proof (cases "filter P ys")
    case (Cons z zs)
    then have "z \<in> set (filter P ys)" by simp
    then have "z \<in> set ys" by simp
    with Cons.prems that(1) have "cmp x z \<le> 0" by (auto intro: cmp_trans)
    with Cons show ?thesis by simp
  qed simp
  from Cons low show ?case by auto
qed simp

lemma js_sort_filter: "js_sort cmp (filter P xs) = filter P (js_sort cmp xs)"
  by (induction xs) (simp_all add: filter_insert sorted_js_sort)

end

definition cursor_at :: "history_row \<Rightarrow> history_cursor" where
  "cursor_at r = \<lparr>hc_createdAt = h_createdAt r, hc_id = h_id r\<rparr>"

lemma older_newest: "h_id a \<noteq> h_id b \<Longrightarrow> older (cursor_at a) b \<longleftrightarrow> history_order a b \<le> 0"
  by (auto simp: older_def cursor_at_def history_order_def js_or_def)

lemma older_self: "\<not> older (cursor_at a) a"
  by (simp add: older_def cursor_at_def)

lemma filter_older:
  assumes "sorted_wrt (\<lambda>a b. history_order a b \<le> 0) (xs @ r # ys)" "distinct (map h_id (xs @ r # ys))"
  shows "filter (older (cursor_at r)) (xs @ r # ys) = ys"
proof -
  have "\<not> older (cursor_at r) a" if "a \<in> set xs" for a
  proof -
    have "history_order a r \<le> 0" "h_id a \<noteq> h_id r" using assms that by (auto simp: sorted_wrt_append rev_image_eqI)
    with older_newest [of a r] show ?thesis by (auto simp: older_def cursor_at_def)
  qed
  moreover have "older (cursor_at r) b" if "b \<in> set ys" for b
  proof -
    have "history_order r b \<le> 0" "h_id r \<noteq> h_id b" using assms that by (auto simp: sorted_wrt_append)
    with older_newest [of r b] show ?thesis by blast
  qed
  ultimately show ?thesis by (simp add: older_self)
qed

fun history_walk :: "nat \<Rightarrow> db \<Rightarrow> history_cursor option \<Rightarrow> int option \<Rightarrow> history_row list list" where
  "history_walk 0 d before limit = []"
| "history_walk (Suc n) d before limit = (let p = listHistoryPage d before limit in
     hp_rows p # (case hp_next p of None \<Rightarrow> [] | Some c \<Rightarrow> history_walk n d (Some c) limit))"

fun chunks :: "nat \<Rightarrow> nat \<Rightarrow> 'a list \<Rightarrow> 'a list list" where
  "chunks 0 k xs = []"
| "chunks (Suc n) k xs = take k xs # (if length xs \<le> k then [] else chunks n k (drop k xs))"

lemma page_limit_pos: "0 < page_limit limit"
  by (simp add: page_limit_def)

lemma one_page:
  assumes "js_sort history_order (filter (\<lambda>r. case before of None \<Rightarrow> True | Some c \<Rightarrow> older c r) (history d)) = ys"
  shows "hp_rows (listHistoryPage d before limit) = take (page_limit limit) ys"
    "hp_next (listHistoryPage d before limit) =
       (if length ys \<le> page_limit limit then None else Some (cursor_at (ys ! (page_limit limit - 1))))"
proof -
  let ?n = "page_limit limit"
  have last: "last (take ?n ys) = ys ! (?n - 1)" if "?n < length ys"
  proof -
    have "take ?n ys \<noteq> []" using that page_limit_pos [of limit] by auto
    with that page_limit_pos [of limit] show ?thesis by (simp add: last_conv_nth min_def)
  qed
  have "take ?n (take (?n + 1) ys) = take ?n ys" by (simp add: min_def)
  then show "hp_rows (listHistoryPage d before limit) = take ?n ys"
    "hp_next (listHistoryPage d before limit) = (if length ys \<le> ?n then None else Some (cursor_at (ys ! (?n - 1))))"
    using last page_limit_pos [of limit]
    unfolding listHistoryPage_def assms Let_def by (auto simp: cursor_at_def)
qed

lemma walk_chunks:
  assumes "distinct (map h_id (history d))" "js_sort history_order (history d) = xs @ ys"
    and "before = None \<and> xs = [] \<or> (\<exists>zs r. xs = zs @ [r] \<and> before = Some (cursor_at r))"
  shows "history_walk n d before limit = chunks n (page_limit limit) ys"
  using assms(2,3)
proof (induction n arbitrary: xs ys before)
  case (Suc n)
  let ?n = "page_limit limit"
  have ids: "distinct (map h_id (xs @ ys))"
    using assms(1) Suc.prems(1) by (metis distinct_map distinct_js_sort set_js_sort)
  have "js_sort history_order (filter (\<lambda>r. case before of None \<Rightarrow> True | Some c \<Rightarrow> older c r) (history d)) = ys"
  proof (cases before)
    case None
    with Suc.prems show ?thesis by auto
  next
    case (Some c)
    with Suc.prems(2) obtain zs r where r: "xs = zs @ [r]" "c = cursor_at r" by auto
    have "filter (older (cursor_at r)) (zs @ r # ys) = ys"
      by (rule filter_older) (use ids nwf.sorted_js_sort [of "history d"] Suc.prems(1) r in auto)
    with Some r Suc.prems(1) show ?thesis by (simp add: nwf.js_sort_filter)
  qed
  note p = one_page [OF this, of limit]
  show ?case
  proof (cases "length ys \<le> ?n")
    case True
    then show ?thesis by (simp add: Let_def p)
  next
    case False
    have "take ?n ys = take (?n - 1) ys @ [ys ! (?n - 1)]"
      using take_Suc_conv_app_nth [of "?n - 1" ys] False page_limit_pos [of limit] by simp
    moreover have "ys = take (?n - 1) ys @ ys ! (?n - 1) # drop ?n ys"
      using id_take_nth_drop [of "?n - 1" ys] False page_limit_pos [of limit] by simp
    ultimately have "history_walk n d (Some (cursor_at (ys ! (?n - 1)))) limit = chunks n ?n (drop ?n ys)"
      by (intro Suc.IH [of "xs @ take ?n ys"]) (use Suc.prems(1) in auto)
    with False show ?thesis by (simp add: Let_def p)
  qed
qed simp

lemma concat_chunks: "0 < k \<Longrightarrow> length xs < n \<Longrightarrow> concat (chunks n k xs) = xs"
  by (induction n arbitrary: xs) (auto simp: min_def)

text \<open>C31: pages refine the ordered history. Following the cursors from the first page gives the history sorted newest
  first, cut into pieces of the page size: no row is missing, none appears twice, and the walk ends.\<close>

theorem history_pages:
  assumes "distinct (map h_id (history d))" "length (history d) < n"
  shows "history_walk n d None limit = chunks n (page_limit limit) (js_sort history_order (history d))
     \<and> concat (history_walk n d None limit) = js_sort history_order (history d)"
  using walk_chunks [OF assms(1), of "[]" "js_sort history_order (history d)" None n limit]
    concat_chunks [OF page_limit_pos, of "js_sort history_order (history d)" n limit] assms(2) by simp

subsection \<open>Cursors\<close>

lemma dash_not_digit: "\<not> is_digit (CHR ''-'')"
  by (simp add: is_digit_def)

lemma dash_notin_show: "CHR ''-'' \<notin> set (show_nat n)"
  using show_nat_digits [of n] dash_not_digit by (auto simp: list_all_iff)

lemma show_nat_length: "n < 10 ^ k \<Longrightarrow> 0 < k \<Longrightarrow> 1 \<le> length (show_nat n) \<and> length (show_nat n) \<le> k"
proof (induction n arbitrary: k rule: show_nat.induct)
  case (1 n)
  show ?case
  proof (cases "n < 10")
    case True
    with 1 show ?thesis by (subst show_nat.simps, subst (2) show_nat.simps) simp
  next
    case False
    then obtain j where k: "k = Suc j" "0 < j" using "1.prems" by (cases k; cases "k - 1") auto
    with "1.prems" have "n div 10 < 10 ^ j" by (simp add: less_mult_imp_div_less mult.commute)
    from "1.IH" [OF False this k(2)] False k show ?thesis by (subst show_nat.simps, subst (2) show_nat.simps) simp
  qed
qed

text \<open>A page link leads back to the same place. A cursor whose time and id have at most twelve digits, which holds for every
  Unix time for the next thirty thousand years, is parsed back from the string it is printed as.\<close>

theorem cursor_roundtrip:
  assumes "0 \<le> hc_createdAt c" "hc_createdAt c < 10 ^ 12" "hc_id c < 10 ^ 12"
  shows "parseHistoryCursor (Some (formatHistoryCursor c)) = Some c"
proof -
  have "nat (hc_createdAt c) < 10 ^ 12" using assms(1,2) by (simp add: nat_less_iff)
  then have "digits_12 (show_nat (nat (hc_createdAt c)))" "digits_12 (show_nat (hc_id c))"
    using show_nat_length [of _ 12] assms(3) by (simp_all add: digits_12_def show_nat_digits)
  then show ?thesis
    using assms(1)
    by (simp add: parseHistoryCursor_def formatHistoryCursor_def show_int_def js_split_append js_split_no_sep dash_notin_show digits_value_show)
qed

subsection \<open>The mirror\<close>

lemma mirror_kind [simp]: "h_kind (mirror_tx rows h) = h_kind h" "h_kind (mirror_offboard os h) = h_kind h"
  "h_ref (mirror_tx rows h) = h_ref h" "h_ref (mirror_offboard os h) = h_ref h"
  "h_id (mirror_tx rows h) = h_id h" "h_id (mirror_offboard os h) = h_id h" "h_out (mirror_tx rows h) = h_out h" "h_out (mirror_offboard os h) = h_out h"
  by (simp_all add: mirror_tx_def mirror_offboard_def split: option.split)

lemma mirror_other: "h_kind h \<noteq> Nwc_ln \<Longrightarrow> mirror_tx rows h = h" "h_kind h \<noteq> Offboard \<Longrightarrow> mirror_offboard os h = h"
  by (simp_all add: mirror_tx_def mirror_offboard_def)

definition tx_mirrored :: "tx_row \<Rightarrow> history_row \<Rightarrow> bool" where
  "tx_mirrored t h \<longleftrightarrow> h_state h = t_state t \<and> or_else (h_feesMsat h) (-1) = or_else (t_feesPaidMsat t) (-1)"

definition offboard_mirrored :: "offboard_row \<Rightarrow> history_row \<Rightarrow> bool" where
  "offboard_mirrored r h \<longleftrightarrow> h_state h = f_state r \<and> or_else (h_txid h) [] = or_else (f_arkTxid r) []"

lemma mirror_tx_agrees:
  assumes "distinct (map t_event rows)" "h_kind h = Nwc_ln" "t \<in> set rows" "h_ref h = Some (t_event t)"
  shows "tx_mirrored t (mirror_tx rows h)"
proof (cases "find_first (\<lambda>t. h_ref h = Some (t_event t) \<and> (h_state h \<noteq> t_state t \<or> or_else (h_feesMsat h) (-1) \<noteq> or_else (t_feesPaidMsat t) (-1))) rows")
  case None
  then have "\<not> (h_state h \<noteq> t_state t \<or> or_else (h_feesMsat h) (-1) \<noteq> or_else (t_feesPaidMsat t) (-1))"
    using assms(3,4) by (auto simp: find_first_None)
  with None show ?thesis by (simp add: mirror_tx_def tx_mirrored_def)
next
  case (Some u)
  with find_first_Some [OF this] assms have "u = t" by (auto simp: distinct_map dest: inj_onD)
  with Some assms(2) show ?thesis by (simp add: mirror_tx_def tx_mirrored_def)
qed

lemma mirror_offboard_agrees:
  assumes "distinct (map f_id rows)" "h_kind h = Offboard" "r \<in> set rows" "h_ref h = Some (show_nat (f_id r))"
  shows "offboard_mirrored r (mirror_offboard rows h)"
proof (cases "find_first (\<lambda>r. h_ref h = Some (show_nat (f_id r)) \<and> (h_state h \<noteq> f_state r \<or> or_else (h_txid h) [] \<noteq> or_else (f_arkTxid r) [])) rows")
  case None
  then have "\<not> (h_state h \<noteq> f_state r \<or> or_else (h_txid h) [] \<noteq> or_else (f_arkTxid r) [])"
    using assms(3,4) by (auto simp: find_first_None)
  with None show ?thesis by (simp add: mirror_offboard_def offboard_mirrored_def)
next
  case (Some u)
  with find_first_Some [OF this] assms have "u = r" by (auto simp: distinct_map show_nat_inj dest: inj_onD)
  with Some assms(2) show ?thesis by (simp add: mirror_offboard_def offboard_mirrored_def)
qed

text \<open>A row that agrees with its sources is left as it is.\<close>

lemma mirror_tx_fixed:
  assumes "\<And>t. t \<in> set rows \<Longrightarrow> h_kind h = Nwc_ln \<Longrightarrow> h_ref h = Some (t_event t) \<Longrightarrow> tx_mirrored t h"
  shows "mirror_tx rows h = h"
proof (cases "h_kind h = Nwc_ln")
  case True
  have "find_first (\<lambda>t. h_ref h = Some (t_event t) \<and> (h_state h \<noteq> t_state t \<or> or_else (h_feesMsat h) (-1) \<noteq> or_else (t_feesPaidMsat t) (-1))) rows = None"
    using assms True by (auto simp: find_first_None tx_mirrored_def)
  then show ?thesis by (simp add: mirror_tx_def)
qed (simp add: mirror_other)

lemma mirror_offboard_fixed:
  assumes "\<And>r. r \<in> set rows \<Longrightarrow> h_kind h = Offboard \<Longrightarrow> h_ref h = Some (show_nat (f_id r)) \<Longrightarrow> offboard_mirrored r h"
  shows "mirror_offboard rows h = h"
proof (cases "h_kind h = Offboard")
  case True
  have "find_first (\<lambda>r. h_ref h = Some (show_nat (f_id r)) \<and> (h_state h \<noteq> f_state r \<or> or_else (h_txid h) [] \<noteq> or_else (f_arkTxid r) [])) rows = None"
    using assms True by (auto simp: find_first_None offboard_mirrored_def)
  then show ?thesis by (simp add: mirror_offboard_def)
qed (simp add: mirror_other)

lemma synced_row:
  assumes "distinct (map t_event (txs d))" "distinct (map f_id (offboards d))"
  shows "t \<in> set (txs d) \<Longrightarrow> h_kind h = Nwc_ln \<Longrightarrow> h_ref h = Some (t_event t) \<Longrightarrow> tx_mirrored t (mirror_offboard (offboards d) (mirror_tx (txs d) h))"
    "r \<in> set (offboards d) \<Longrightarrow> h_kind h = Offboard \<Longrightarrow> h_ref h = Some (show_nat (f_id r)) \<Longrightarrow> offboard_mirrored r (mirror_offboard (offboards d) (mirror_tx (txs d) h))"
  using mirror_tx_agrees [OF assms(1)] mirror_offboard_agrees [OF assms(2)] by (simp_all add: mirror_other)


subsection \<open>Well-typed histories\<close>

datatype history_op =
    Nwc bool string int "int option" "string option" int
  | Offer_received int string int "int option" "string option"
  | Web_pending int string int "string option" | Web_settled int string int "string option" | Web_failed int string string
  | Ark_sent int int string "string + string"
  | Offboard_started int string int int bool | Offboard_recorded nat int int string int
  | Offboard_settled int nat string | Offboard_failed int nat string
  | Deposit_seen int string nat int | Deposit_settled int string "string option"
  | Transactions "tx_row list" | Mirror | Boot_sweep int

fun history_do :: "history_op \<Rightarrow> db \<Rightarrow> db" where
  "history_do (Nwc out event amount fees desc now) d = recordNwcLn out event amount fees desc now d"
| "history_do (Offer_received now ref sats fees desc) d = recordNofferReceive now ref sats fees desc d"
| "history_do (Web_pending now hash amount desc) d = recordWebLnPending now hash amount desc d"
| "history_do (Web_settled now hash fees txid) d = settleWebLn now hash fees txid d"
| "history_do (Web_failed now hash err) d = failWebLn now hash err d"
| "history_do (Ark_sent now sats to' res) d = recordArkSend now sats to' res d"
| "history_do (Offboard_started now address sats fee isMax) d = snd (createOffboard now address sats fee isMax d)"
| "history_do (Offboard_recorded i sats fee address now) d = recordOffboard i sats fee address now d"
| "history_do (Offboard_settled now i txid) d = markOffboardSettled now i txid d"
| "history_do (Offboard_failed now i err) d = markOffboardFailed now i err d"
| "history_do (Deposit_seen now txid vout sats) d = recordOnboardPending now txid vout sats d"
| "history_do (Deposit_settled now ref spend) d = settleOnboard now ref spend d"
| "history_do (Transactions rows) d = d\<lparr>txs := rows\<rparr>"
| "history_do Mirror d = syncHistoryFromSources d"
| "history_do (Boot_sweep now) d = snd (sweepInterruptedWebSends now d)"

definition history_keys :: "db \<Rightarrow> (nat \<times> history_kind \<times> string option) list" where
  "history_keys d = map (\<lambda>r. (h_id r, h_kind r, h_ref r)) (history d)"

definition unique_keys :: "db \<Rightarrow> bool" where
  "unique_keys d \<longleftrightarrow> distinct (map fst (history_keys d)) \<and> distinct (filter (\<lambda>k. snd k \<noteq> None) (map snd (history_keys d)))"

definition typed_row :: "history_row \<Rightarrow> bool" where
  "typed_row r = (case h_kind r of
     Nwc_ln \<Rightarrow> h_ref r \<noteq> None
   | Noffer_in \<Rightarrow> \<not> h_out r \<and> h_ref r \<noteq> None \<and> h_state r = Tx_settled \<and> h_settledAt r \<noteq> None
   | Web_ln \<Rightarrow> h_out r \<and> h_ref r \<noteq> None \<and> h_state r \<noteq> Tx_expired \<and> (h_state r = Tx_pending \<longleftrightarrow> h_settledAt r = None)
   | Ark_send \<Rightarrow> h_out r \<and> h_settledAt r \<noteq> None \<and> (h_ref r = h_txid r) \<and> h_state r = (if h_txid r = None then Tx_failed else Tx_settled)
   | Offboard \<Rightarrow> h_out r \<and> h_ref r \<noteq> None \<and> h_state r \<noteq> Tx_expired
   | Onboard \<Rightarrow> \<not> h_out r \<and> h_ref r \<noteq> None \<and> h_state r \<in> {Tx_pending, Tx_settled} \<and> (h_state r = Tx_pending \<longleftrightarrow> h_settledAt r = None))"

definition typed_offboard :: "offboard_row \<Rightarrow> bool" where
  "typed_offboard r \<longleftrightarrow> f_state r \<noteq> Tx_expired \<and> (f_state r = Tx_pending \<longleftrightarrow> f_settledAt r = None)"

definition history_typed :: "db \<Rightarrow> bool" where
  "history_typed d \<longleftrightarrow> unique_keys d \<and> (\<forall>r \<in> set (history d). typed_row r)
     \<and> distinct (map f_id (offboards d)) \<and> (\<forall>r \<in> set (offboards d). typed_offboard r)"

lemma typed_insert:
  assumes "history_typed d" "typed_row row"
  shows "history_typed (history_insert row d)"
proof (cases "h_ref row \<noteq> None \<and> (\<exists>r \<in> set (history d). h_kind r = h_kind row \<and> h_ref r = h_ref row)")
  case True
  then show ?thesis using assms(1) by (auto simp: history_insert_def)
next
  case False
  let ?i = "next_id (map h_id (history d))"
  have "?i \<notin> h_id ` set (history d)" using next_id_fresh [of _ "map h_id (history d)"] by fastforce
  moreover have "(h_kind row, h_ref row) \<notin> (\<lambda>r. (h_kind r, h_ref r)) ` set (history d)" if "h_ref row \<noteq> None" using False that by auto
  moreover have "typed_row (row\<lparr>h_id := ?i\<rparr>)" using assms(2) by (cases "h_kind row") (auto simp: typed_row_def)
  ultimately show ?thesis
    using assms(1) False unfolding history_typed_def unique_keys_def history_keys_def history_insert_def
    by (auto simp: comp_def image_iff)
qed

lemma typed_update:
  assumes "history_typed d" "\<And>r. r \<in> set (history d) \<Longrightarrow> h_id (f r) = h_id r \<and> h_kind (f r) = h_kind r \<and> h_ref (f r) = h_ref r \<and> typed_row (f r)"
  shows "history_typed (d\<lparr>history := map f (history d)\<rparr>)"
proof -
  have "history_keys (d\<lparr>history := map f (history d)\<rparr>) = history_keys d" using assms(2) by (simp add: history_keys_def)
  with assms show ?thesis by (auto simp: history_typed_def unique_keys_def)
qed

lemma typed_when: "history_typed d \<Longrightarrow> (\<And>r. r \<in> set (history d) \<Longrightarrow> typed_row r \<Longrightarrow> P r \<Longrightarrow> h_id (f r) = h_id r \<and> h_kind (f r) = h_kind r \<and> h_ref (f r) = h_ref r \<and> typed_row (f r))
   \<Longrightarrow> history_typed (update_history P f d)"
  unfolding update_history_def by (rule typed_update) (auto simp: history_typed_def)

lemma typed_offboards:
  assumes "history_typed d" "map f_id os = map f_id (offboards d) \<or> distinct (map f_id os)" "\<forall>r \<in> set os. typed_offboard r"
  shows "history_typed (d\<lparr>offboards := os\<rparr>)"
proof -
  have "history_keys (d\<lparr>offboards := os\<rparr>) = history_keys d" by (simp add: history_keys_def)
  moreover have "distinct (map f_id os)" using assms(1,2) by (auto simp: history_typed_def)
  ultimately show ?thesis using assms(1,3) by (auto simp: history_typed_def unique_keys_def)
qed

lemma mirror_typed:
  assumes "typed_row h" "\<forall>r \<in> set os. typed_offboard r"
  shows "typed_row (mirror_offboard os (mirror_tx rows h))"
proof -
  have "typed_row (mirror_tx rows h)"
    using assms(1) by (auto simp: mirror_tx_def typed_row_def split: option.split)
  moreover have "typed_row (mirror_offboard os h')" if "typed_row h'" for h'
  proof (cases "find_first (\<lambda>r. h_ref h' = Some (show_nat (f_id r)) \<and> (h_state h' \<noteq> f_state r \<or> or_else (h_txid h') [] \<noteq> or_else (f_arkTxid r) [])) os")
    case None
    with that show ?thesis by (simp add: mirror_offboard_def)
  next
    case (Some r)
    with assms(2) have "typed_offboard r" by (blast dest: find_first_Some)
    with Some that show ?thesis by (auto simp: mirror_offboard_def typed_row_def typed_offboard_def split: history_kind.splits)
  qed
  ultimately show ?thesis by simp
qed

lemma typed_do: "history_typed d \<Longrightarrow> history_typed (history_do op d)"
proof (cases op)
  case (Web_pending now hash amount desc)
  assume "history_typed d"
  then show ?thesis unfolding Web_pending history_do.simps recordWebLnPending_def
    by (auto intro!: typed_insert typed_when simp: typed_row_def is_row_def)
next
  case (Offboard_started now address sats fee isMax)
  assume d: "history_typed d"
  let ?i = "next_id (map f_id (offboards d))"
  have "?i \<notin> f_id ` set (offboards d)" using next_id_fresh [of _ "map f_id (offboards d)"] by fastforce
  then show ?thesis unfolding Offboard_started history_do.simps createOffboard_def Let_def snd_conv
    by (intro typed_offboards [OF d]) (use d in \<open>auto simp: history_typed_def typed_offboard_def\<close>)
next
  case (Offboard_settled now i txid)
  assume "history_typed d"
  then show ?thesis unfolding Offboard_settled history_do.simps markOffboardSettled_def
    by (intro typed_offboards) (auto simp: row_update_def history_typed_def typed_offboard_def)
next
  case (Offboard_failed now i err)
  assume "history_typed d"
  then show ?thesis unfolding Offboard_failed history_do.simps markOffboardFailed_def
    by (intro typed_offboards) (auto simp: row_update_def history_typed_def typed_offboard_def)
next
  case (Transactions rows)
  assume "history_typed d"
  then show ?thesis by (simp add: Transactions history_typed_def unique_keys_def history_keys_def)
next
  case Mirror
  assume "history_typed d"
  then show ?thesis unfolding Mirror history_do.simps syncHistoryFromSources_def
    by (intro typed_update) (auto simp: history_typed_def intro!: mirror_typed)
next
  case (Nwc out event amount fees desc now)
  assume "history_typed d"
  then show ?thesis unfolding Nwc history_do.simps recordNwcLn_def
    by (rule typed_insert) (simp_all add: typed_row_def)
next
  case (Offer_received now ref sats fees desc)
  assume "history_typed d"
  then show ?thesis unfolding Offer_received history_do.simps recordNofferReceive_def
    by (rule typed_insert) (simp_all add: typed_row_def)
next
  case (Ark_sent now sats to' res)
  assume "history_typed d"
  then show ?thesis unfolding Ark_sent history_do.simps recordArkSend_def Let_def
    by (rule typed_insert) (cases res; simp add: typed_row_def)
next
  case (Offboard_recorded i sats fee address now)
  assume "history_typed d"
  then show ?thesis unfolding Offboard_recorded history_do.simps recordOffboard_def
    by (rule typed_insert) (simp_all add: typed_row_def)
next
  case (Deposit_seen now txid vout sats)
  assume "history_typed d"
  then show ?thesis unfolding Deposit_seen history_do.simps recordOnboardPending_def
    by (rule typed_insert) (simp_all add: typed_row_def)
next
  case (Web_settled now hash fees txid)
  assume "history_typed d"
  then show ?thesis unfolding Web_settled history_do.simps settleWebLn_def
    by (rule typed_when) (auto simp: typed_row_def is_row_def)
next
  case (Web_failed now hash err)
  assume "history_typed d"
  then show ?thesis unfolding Web_failed history_do.simps failWebLn_def
    by (rule typed_when) (auto simp: typed_row_def is_row_def)
next
  case (Deposit_settled now ref spend)
  assume "history_typed d"
  then show ?thesis unfolding Deposit_settled history_do.simps settleOnboard_def
    by (rule typed_when) (auto simp: typed_row_def is_row_def)
next
  case (Boot_sweep now)
  assume "history_typed d"
  then show ?thesis unfolding Boot_sweep history_do.simps sweepInterruptedWebSends_def Let_def snd_conv
    by (rule typed_when) (auto simp: typed_row_def is_row_def)
qed

text \<open>C32: the table stays well typed. Whatever is recorded, retried, settled, failed, swept at boot or mirrored, in any order,
  ids are unique, at most one row has a given kind and reference, an offer receipt is an incoming settled row, an Ark send is final
  and linked to its txid, an onboarded deposit is pending or settled, and a settlement time is there exactly when the row of a web
  send or a deposit left pending.\<close>

theorem history_stays_typed: "history_typed (foldl (\<lambda>d op. history_do op d) empty_db evs)"
proof -
  have "history_typed d \<Longrightarrow> history_typed (foldl (\<lambda>d op. history_do op d) d evs)" for d
    by (induction evs arbitrary: d) (simp_all add: typed_do)
  from this [of empty_db] show ?thesis by (simp add: empty_db_def history_typed_def unique_keys_def history_keys_def)
qed

subsection \<open>Instances\<close>

definition sample_history :: db where
  "sample_history = foldl (\<lambda>d op. history_do op d) empty_db
     [Nwc True ''ev1'' 3000 None None 50, Ark_sent 60 7 ''ark1'' (Inr ''tx1''), Ark_sent 60 9 ''ark1'' (Inl ''no route''),
      Offboard_started 70 ''bc1'' 900 100 False, Offboard_recorded 1 900 100 ''bc1'' 70,
      Transactions [(pay_row 1 ''ev1'' ''a'' ''a'' 3000 50)\<lparr>t_state := Tx_settled, t_feesPaidMsat := Some 1000, t_settledAt := Some 80\<rparr>]]"

lemmas history_defs = sample_history_def empty_db_def recordNwcLn_def recordArkSend_def createOffboard_def recordOffboard_def history_insert_def
  next_id_def Let_def

theorem history_pages_witness:
  "map (map h_id) (history_walk 5 sample_history None (Some 2)) = [[4, 3], [2, 1]]
     \<and> concat (history_walk 5 sample_history None (Some 2)) = js_sort history_order (history sample_history)"
  using history_pages [of sample_history 5 "Some 2"]
  by (simp add: history_defs page_limit_def or_else_def history_order_def js_or_def numeral_eq_Suc)

theorem cursor_roundtrip_witness:
  "parseHistoryCursor (Some (formatHistoryCursor \<lparr>hc_createdAt = 1721900000, hc_id = 42\<rparr>)) = Some \<lparr>hc_createdAt = 1721900000, hc_id = 42\<rparr>"
  by (rule cursor_roundtrip) simp_all


end
