(* ===== verification/Wallet_Pay.thy ===== *)
theory Wallet_Pay
  imports Atomic_Send Nwc_Ledger Coin_Select
begin

text \<open>
  The three rails of a send. \<open>src/send.ts\<close>: where a destination goes, what the coins are good for, the fee
  previews and the drain invoice. \<open>src/wallet_spend.ts\<close>: the one funnel for coins leaving the wallet offchain, and the
  wear pockets. \<open>src/ln_send.ts\<close>: a lightning send as a submarine swap, or the atomic send below dust.

  The SDK's coin predicates, the fee program of the ASP, the boltz client and the wallet are fields of \<open>pay_world\<close>.
  The code computes the drain with doubles: \<open>rd\<close> rounds the result of an operation, and only its
  monotonicity is ever used.
\<close>

subsection \<open>Destinations\<close>

datatype rail = Lightning | Ark | Onchain | Clink

definition js_space :: "char \<Rightarrow> bool" where
  "js_space c \<longleftrightarrow> (of_char c :: nat) \<in> {9, 10, 11, 12, 13, 32, 160}"

definition js_trim :: "string \<Rightarrow> string" where
  "js_trim s = rev (dropWhile js_space (rev (dropWhile js_space s)))"

definition lower_char :: "char \<Rightarrow> char" where
  "lower_char c = (if CHR ''A'' \<le> c \<and> c \<le> CHR ''Z'' then char_of (of_char c + 32 :: nat) else c)"

definition classifyDestination :: "sdk \<Rightarrow> (string \<Rightarrow> bool) \<Rightarrow> string \<Rightarrow> rail option" where
  "classifyDestination k isValidArkAddress raw = (let dest = js_trim raw in
     if dest = [] then None
     else if take 7 (map lower_char dest) = ''noffer1'' then Some Clink
     else if (\<exists>iv. k_decodeInvoice k dest = Inr iv) then Some Lightning
     else if isValidArkAddress dest then Some Ark
     else Some Onchain)"

subsection \<open>What the coins are good for\<close>

record coin_lib =
  cl_isSpendable :: "vcoin \<Rightarrow> bool"
  cl_isSubdust :: "vcoin \<Rightarrow> int \<Rightarrow> bool"
  cl_isRecoverable :: "vcoin \<Rightarrow> bool"
  cl_isExpired :: "vcoin \<Rightarrow> bool"

record vtxo_buckets =
  vb_spendable :: "vcoin list"
  vb_subdust :: "vcoin list"
  vb_recoverable :: "vcoin list"
  vb_spendableSat :: int
  vb_subdustSat :: int
  vb_recoverableSat :: int
  vb_roundTotalSat :: int

definition coin_sum :: "vcoin list \<Rightarrow> int" where
  "coin_sum cs = foldl (\<lambda>n v. n + c_value v) 0 cs"

fun bucket_up :: "coin_lib \<Rightarrow> int \<Rightarrow> vcoin list \<Rightarrow> vcoin list \<times> vcoin list \<times> vcoin list \<Rightarrow> vcoin list \<times> vcoin list \<times> vcoin list" where
  "bucket_up cl dust [] b = b"
| "bucket_up cl dust (v # vs) (sp, sd, rc) = bucket_up cl dust vs
     (if \<not> cl_isSpendable cl v then (sp, sd, rc)
      else if cl_isSubdust cl v dust then (sp, sd @ [v], rc)
      else if cl_isRecoverable cl v \<or> cl_isExpired cl v then (sp, sd, rc @ [v])
      else (sp @ [v], sd, rc))"

definition classifyVtxos :: "coin_lib \<Rightarrow> vcoin list \<Rightarrow> int \<Rightarrow> vtxo_buckets" where
  "classifyVtxos cl vs dust = (case bucket_up cl dust vs ([], [], []) of (sp, sd, rc) \<Rightarrow>
     \<lparr>vb_spendable = sp, vb_subdust = sd, vb_recoverable = rc, vb_spendableSat = coin_sum sp, vb_subdustSat = coin_sum sd,
      vb_recoverableSat = coin_sum rc, vb_roundTotalSat = coin_sum sp + coin_sum sd + coin_sum rc\<rparr>)"

subsection \<open>Offboards\<close>

text \<open>\<open>offboardFeeSat\<close> evaluates the fee program of the ASP: the parameter \<open>fee\<close>.\<close>

definition offboardMaxSat :: "(int \<Rightarrow> int) \<Rightarrow> int \<Rightarrow> vtxo_buckets \<Rightarrow> int option" where
  "offboardMaxSat fee dust b = (let out = vb_roundTotalSat b - fee (vb_roundTotalSat b) in if out < dust then None else Some out)"

fun keep_change :: "nat \<Rightarrow> (int \<Rightarrow> int) \<Rightarrow> int \<Rightarrow> int \<Rightarrow> int \<Rightarrow> int" where
  "keep_change 0 fee whole dust candidate = candidate"
| "keep_change (Suc n) fee whole dust candidate =
     (if candidate \<le> 0 then candidate
      else (let next = whole - dust - fee candidate in
        if next = candidate then candidate else keep_change n fee whole dust next))"

record dust_change =
  dc_changeSat :: int
  dc_maxKeepingChangeSat :: "int option"

definition offboardDustChange :: "(int \<Rightarrow> int) \<Rightarrow> int \<Rightarrow> vtxo_buckets \<Rightarrow> int \<Rightarrow> dust_change option" where
  "offboardDustChange fee dust b recipient =
     (let whole = vb_roundTotalSat b; change = whole - recipient - fee recipient in
      if change \<le> 0 \<or> dust \<le> change then None
      else (let c = keep_change 4 fee whole dust (whole - dust - fee recipient) in
        Some \<lparr>dc_changeSat = change, dc_maxKeepingChangeSat = (if 0 < c then Some c else None)\<rparr>))"

subsection \<open>Lightning previews\<close>

record swap_fees =
  sf_percentage :: rat
  sf_minerFees :: int

definition submarineFeeSat :: "(rat \<Rightarrow> rat) \<Rightarrow> swap_fees \<Rightarrow> int \<Rightarrow> int" where
  "submarineFeeSat rd fees amount = \<lceil>rd (rd (rd (of_int amount * sf_percentage fees) / 100) + of_int (sf_minerFees fees))\<rceil>"

definition drain_total :: "(rat \<Rightarrow> rat) \<Rightarrow> swap_fees \<Rightarrow> int \<Rightarrow> int" where
  "drain_total rd fees x = x + \<lceil>rd (rd (sf_percentage fees / 100) * of_int x)\<rceil> + sf_minerFees fees"

partial_function (option) drain_up :: "(int \<Rightarrow> int) \<Rightarrow> int \<Rightarrow> int \<Rightarrow> int option" where
  "drain_up whole target x = (if whole (x + 1) \<le> target then drain_up whole target (x + 1) else Some x)"

partial_function (option) drain_down :: "(int \<Rightarrow> int) \<Rightarrow> int \<Rightarrow> int \<Rightarrow> int option" where
  "drain_down whole target x = (if 0 < x \<and> target < whole x then drain_down whole target (x - 1) else Some x)"

text \<open>The outer option is whether the loops end.\<close>

definition lnDrainInvoiceSat :: "(rat \<Rightarrow> rat) \<Rightarrow> swap_fees \<Rightarrow> int \<Rightarrow> int option option" where
  "lnDrainInvoiceSat rd fees target =
     (let whole = drain_total rd fees;
          x0 = \<lfloor>rd (of_int (target - sf_minerFees fees) / rd (1 + rd (sf_percentage fees / 100)))\<rfloor>
      in if x0 \<le> 0 then Some None
         else (case drain_up whole target x0 of None \<Rightarrow> None
           | Some x \<Rightarrow> (case drain_down whole target x of None \<Rightarrow> None
             | Some y \<Rightarrow> Some (if 0 < y then Some y else None))))"

subsection \<open>The offchain funnel\<close>

datatype spend_order = Sdk_choice "(string \<times> int) list" | Selected string int "vcoin list"

record pay_info =
  pi_dust :: int
  pi_deprecatedSigners :: "string list"

record submarine =
  su_id :: string
  su_address :: "string option"
  su_expectedAmount :: int

record pay_world =
  pw_world :: world
  pw_info :: "nat \<Rightarrow> err + pay_info"
  pw_vtxos :: "nat \<Rightarrow> err + vcoin list"
  pw_isSubdust :: "vcoin \<Rightarrow> int \<Rightarrow> bool"
  pw_address :: "nat \<Rightarrow> err + string"
  pw_spend :: "nat \<Rightarrow> spend_order \<Rightarrow> err + string"
  pw_createSubmarine :: "nat \<Rightarrow> string \<Rightarrow> err + submarine"
  pw_waitSettlement :: "nat \<Rightarrow> string \<Rightarrow> err + string"

definition HOT_POCKET_SATS :: int where "HOT_POCKET_SATS = 5000"
definition HOT_POCKET_COUNT :: int where "HOT_POCKET_COUNT = 3"
definition DUST_SATS :: int where "DUST_SATS = 330"
definition DRAIN_SLACK_SATS :: int where "DRAIN_SLACK_SATS = 2"

definition spendablePool :: "pay_world \<Rightarrow> int \<Rightarrow> vcoin list bridge" where
  "spendablePool x dust = andthen (await (pw_vtxos x)) (\<lambda>vs. ret (filter (\<lambda>v. \<not> pw_isSubdust x v dust) vs))"

definition choose_order :: "size_lib \<Rightarrow> db \<Rightarrow> pay_info \<Rightarrow> vcoin list \<Rightarrow> string \<Rightarrow> int \<Rightarrow> err + spend_order" where
  "choose_order sz d info pool address amount =
     (if pi_deprecatedSigners info \<noteq> [] then Inr (Sdk_choice [(address, amount)])
      else (case selectSpendInputs pool amount (Some (pi_dust info)) (exitCostOracle sz d) of
          [] \<Rightarrow> Inl (Error (if coin_sum pool < amount then ''send needs more than is offchain-spendable''
                  else ''send cannot be composed without leaving sub-dust change''))
        | c # cs \<Rightarrow> Inr (Selected address amount (c # cs))))"

text \<open>The order is what leaves: it is logged with the address it pays.\<close>

definition order_out :: "pay_world \<Rightarrow> string \<Rightarrow> spend_order \<Rightarrow> string bridge" where
  "order_out x address order = andthen (log_call Spend_wallet address) (\<lambda>u. await (\<lambda>t. pw_spend x t order))"

definition sendSelected :: "pay_world \<Rightarrow> pay_info \<Rightarrow> string \<Rightarrow> int \<Rightarrow> vcoin list option \<Rightarrow> string bridge" where
  "sendSelected x info address amount pool =
     andthen (case pool of Some p \<Rightarrow> ret p | None \<Rightarrow> spendablePool x (pi_dust info)) (\<lambda>p.
     andthen (reading (\<lambda>d. choose_order (k_sizes (w_sdk (pw_world x))) d info p address amount)) (\<lambda>r.
     andthen (lift_res r) (order_out x address)))"

definition hotPocketsNeeded :: "vcoin list \<Rightarrow> int \<Rightarrow> int" where
  "hotPocketsNeeded pool dust =
     (let missing = HOT_POCKET_COUNT - int (length (filter (\<lambda>v. c_value v \<le> HOT_POCKET_SATS) pool)) in
      if missing \<le> 0 then 0
      else (let biggest = foldl (\<lambda>n v. max n (c_value v)) 0 pool;
                affordable = (biggest - dust) div HOT_POCKET_SATS
            in max 0 (min missing affordable)))"

definition splitHotPocket :: "pay_world \<Rightarrow> pay_info \<Rightarrow> string option bridge" where
  "splitHotPocket x info = andthen (spendablePool x (pi_dust info)) (\<lambda>pool.
     (let n = hotPocketsNeeded pool (pi_dust info) in
      if n = 0 then ret None
      else andthen (await (pw_address x)) (\<lambda>own.
        andthen (order_out x own (Sdk_choice (replicate (nat n) (own, HOT_POCKET_SATS)))) (\<lambda>txid. ret (Some txid)))))"

subsection \<open>Lightning sends\<close>

definition fundingAmount :: "int \<Rightarrow> int \<Rightarrow> err + int" where
  "fundingAmount required spendable =
     (if spendable < required then Inl (Error ''LN send needs more than is offchain-spendable'')
      else (let surplus = spendable - required in
        Inr (if 0 < surplus \<and> surplus \<le> DRAIN_SLACK_SATS then spendable else required)))"

definition sendSubmarine :: "pay_world \<Rightarrow> (string \<Rightarrow> unit bridge) \<Rightarrow> string \<Rightarrow> ln_result bridge" where
  "sendSubmarine x onSwapCreated invoice =
     andthen (await (\<lambda>t. pw_createSubmarine x t invoice)) (\<lambda>p.
     andthen (onSwapCreated (su_id p)) (\<lambda>u.
     andthen (guard_eff (truthy (su_address p)) (Error ''missing address in submarine swap response'')) (\<lambda>u.
     andthen (await (pw_info x)) (\<lambda>info.
     andthen (spendablePool x (pi_dust info)) (\<lambda>pool.
     andthen (lift_res (fundingAmount (su_expectedAmount p) (coin_sum pool))) (\<lambda>amount.
     andthen (sendSelected x info (the (su_address p)) amount (Some pool)) (\<lambda>txid.
     andthen (await (\<lambda>t. pw_waitSettlement x t (su_id p))) (\<lambda>preimage.
     ret \<lparr>lr_amount = amount, lr_preimage = preimage, lr_txid = txid, lr_swapId = su_id p\<rparr>))))))))"

definition invoice_sats :: "sdk \<Rightarrow> string \<Rightarrow> int" where
  "invoice_sats k invoice = (case k_decodeInvoice k invoice of Inl e \<Rightarrow> 0 | Inr iv \<Rightarrow> (case iv_amountSats iv of None \<Rightarrow> 0 | Some a \<Rightarrow> a))"

definition sendLightning :: "pay_world \<Rightarrow> (string \<Rightarrow> unit bridge) \<Rightarrow> string \<Rightarrow> ln_result bridge" where
  "sendLightning x onSwapCreated invoice =
     (let sats = invoice_sats (w_sdk (pw_world x)) invoice in
      if 0 < sats \<and> sats < DUST_SATS
      then andthen (atomicSubdustSend (pw_world x) invoice sats) (\<lambda>r.
        ret \<lparr>lr_amount = sr_amount r, lr_preimage = sr_preimage r, lr_txid = sr_txid r, lr_swapId = sr_swapId r\<rparr>)
      else sendSubmarine x onSwapCreated invoice)"

end
