(* ===== verification/Wallet_Safety.thy ===== *)
theory Wallet_Safety
  imports Wallet_Pay Send_Verdicts
begin

text \<open>
  What the rails of \<open>Wallet_Pay\<close> guarantee: the buckets account for every spendable coin, the drain invoice is the largest
  that fits, the funnel never strands change below dust and refuses only when the whole pool cannot do better, the wear pockets
  are affordable, and a NWC payment over a submarine swap has its swap on record before the wallet spends.
\<close>

lemma coin_sum_total: "coin_sum cs = total cs"
proof -
  have "foldl (\<lambda>n v. n + c_value v) a cs = a + total cs" for a
    by (induction cs arbitrary: a) simp_all
  then show ?thesis by (simp add: coin_sum_def)
qed

subsection \<open>Buckets\<close>

lemma bucket_up_eq:
  "bucket_up cl dust vs (sp, sd, rc) =
     (sp @ filter (\<lambda>v. cl_isSpendable cl v \<and> \<not> cl_isSubdust cl v dust \<and> \<not> (cl_isRecoverable cl v \<or> cl_isExpired cl v)) vs,
      sd @ filter (\<lambda>v. cl_isSpendable cl v \<and> cl_isSubdust cl v dust) vs,
      rc @ filter (\<lambda>v. cl_isSpendable cl v \<and> \<not> cl_isSubdust cl v dust \<and> (cl_isRecoverable cl v \<or> cl_isExpired cl v)) vs)"
  by (induction vs arbitrary: sp sd rc) auto

lemma total_filter_split: "total (filter P cs) = total (filter (\<lambda>c. P c \<and> Q c) cs) + total (filter (\<lambda>c. P c \<and> \<not> Q c) cs)"
  by (induction cs) auto

text \<open>The three buckets hold every spendable coin once and no other, a sub-dust coin only in its own, and their
  totals are the round total; what an offboard of everything delivers is never below dust and, with its fee, is the round total.\<close>

theorem buckets_account:
  "mset (vb_spendable (classifyVtxos cl vs dust)) + mset (vb_subdust (classifyVtxos cl vs dust))
     + mset (vb_recoverable (classifyVtxos cl vs dust)) = mset (filter (cl_isSpendable cl) vs)
   \<and> (\<forall>v. v \<in> set (vb_spendable (classifyVtxos cl vs dust)) \<longrightarrow> \<not> cl_isSubdust cl v dust \<and> \<not> cl_isRecoverable cl v \<and> \<not> cl_isExpired cl v)
   \<and> vb_roundTotalSat (classifyVtxos cl vs dust) = total (filter (cl_isSpendable cl) vs)
   \<and> (\<forall>out. offboardMaxSat fee dust (classifyVtxos cl vs dust) = Some out \<longrightarrow>
        dust \<le> out \<and> out + fee (vb_roundTotalSat (classifyVtxos cl vs dust)) = total (filter (cl_isSpendable cl) vs))"
proof -
  let ?b = "classifyVtxos cl vs dust"
  let ?bad = "\<lambda>v. cl_isRecoverable cl v \<or> cl_isExpired cl v"
  have b: "vb_spendable ?b = filter (\<lambda>v. cl_isSpendable cl v \<and> \<not> cl_isSubdust cl v dust \<and> \<not> ?bad v) vs"
      "vb_subdust ?b = filter (\<lambda>v. cl_isSpendable cl v \<and> cl_isSubdust cl v dust) vs"
      "vb_recoverable ?b = filter (\<lambda>v. cl_isSpendable cl v \<and> \<not> cl_isSubdust cl v dust \<and> ?bad v) vs"
      "vb_roundTotalSat ?b = total (vb_spendable ?b) + total (vb_subdust ?b) + total (vb_recoverable ?b)"
    by (simp_all add: classifyVtxos_def bucket_up_eq coin_sum_total)
  have parts: "mset (vb_spendable ?b) + mset (vb_subdust ?b) + mset (vb_recoverable ?b) = mset (filter (cl_isSpendable cl) vs)"
    unfolding b by (induction vs) auto
  have whole: "vb_roundTotalSat ?b = total (filter (cl_isSpendable cl) vs)"
    unfolding b by (induction vs) auto
  then show ?thesis using parts b(1) by (auto simp: offboardMaxSat_def Let_def split: if_splits)
qed

theorem buckets_account_witness:
  "offboardMaxSat (\<lambda>n. 200) 600 (classifyVtxos \<lparr>cl_isSpendable = (\<lambda>v. True), cl_isSubdust = (\<lambda>v d. c_value v < d),
       cl_isRecoverable = (\<lambda>v. False), cl_isExpired = (\<lambda>v. False)\<rparr> sample_pool 600) = Some 1900
   \<and> (600::int) \<le> 1900 \<and> 1900 + (200::int) = total sample_pool"
proof -
  let ?cl = "\<lparr>cl_isSpendable = (\<lambda>v. True), cl_isSubdust = (\<lambda>v d. c_value v < d), cl_isRecoverable = (\<lambda>v. False), cl_isExpired = (\<lambda>v. False)\<rparr>"
  have "offboardMaxSat (\<lambda>n. 200) 600 (classifyVtxos ?cl sample_pool 600) = Some 1900"
    by (simp add: offboardMaxSat_def classifyVtxos_def bucket_up_eq coin_sum_total sample_pool_def sample_coin_def)
  moreover from this buckets_account [where cl = ?cl and vs = sample_pool and dust = 600 and fee = "\<lambda>n. 200"] have "1900 + (200::int) = total sample_pool" by simp
  ultimately show ?thesis by simp
qed

subsection \<open>The drain invoice\<close>

lemma drain_step:
  assumes "mono rd" and "rd 0 = 0" and "0 \<le> sf_percentage fees" and "x \<le> y"
  shows "drain_total rd fees x + (y - x) \<le> drain_total rd fees y"
proof -
  have "rd 0 \<le> rd (sf_percentage fees / 100)"
    using assms(3) by (intro monoD [OF assms(1)]) simp
  then have "rd (sf_percentage fees / 100) * of_int x \<le> rd (sf_percentage fees / 100) * of_int y"
    using assms(2,4) by (intro mult_left_mono) simp_all
  then have "\<lceil>rd (rd (sf_percentage fees / 100) * of_int x)\<rceil> \<le> \<lceil>rd (rd (sf_percentage fees / 100) * of_int y)\<rceil>"
    by (intro ceiling_mono monoD [OF assms(1)])
  then show ?thesis by (simp add: drain_total_def)
qed

lemma drain_up_ends:
  assumes grows: "\<And>u v. u \<le> v \<Longrightarrow> T u + (v - u) \<le> T v"
  shows "\<exists>y. drain_up T target x = Some y \<and> x \<le> y \<and> target < T (y + 1) \<and> (x < y \<longrightarrow> T y \<le> target)"
proof (induction "nat (target - T x)" arbitrary: x rule: less_induct)
  case less
  show ?case
  proof (cases "T (x + 1) \<le> target")
    case False
    then show ?thesis by (subst drain_up.simps) auto
  next
    case True
    then have "nat (target - T (x + 1)) < nat (target - T x)" using grows [of x "x + 1"] by linarith
    from less [OF this] obtain y where y: "drain_up T target (x + 1) = Some y" "x + 1 \<le> y" "target < T (y + 1)"
        "x + 1 < y \<longrightarrow> T y \<le> target" by blast
    then have "T y \<le> target" using True by (cases "x + 1 = y") auto
    with y True show ?thesis by (subst drain_up.simps) auto
  qed
qed

lemma drain_down_ends:
  "0 \<le> x \<Longrightarrow> \<exists>y. drain_down T target x = Some y \<and> 0 \<le> y \<and> y \<le> x \<and> (0 < y \<longrightarrow> T y \<le> target)
     \<and> (\<forall>z. y < z \<and> z \<le> x \<longrightarrow> target < T z)"
proof (induction "nat x" arbitrary: x)
  case 0
  then show ?case by (subst drain_down.simps) auto
next
  case (Suc n)
  show ?case
  proof (cases "target < T x")
    case False
    with Suc.prems show ?thesis by (subst drain_down.simps) auto
  next
    case True
    have "0 < x" "n = nat (x - 1)" "0 \<le> x - 1" using Suc.hyps(2) by linarith+
    with Suc.hyps(1) [of "x - 1"] obtain y where y: "drain_down T target (x - 1) = Some y" "0 \<le> y" "y \<le> x - 1"
        "0 < y \<longrightarrow> T y \<le> target" "\<forall>z. y < z \<and> z \<le> x - 1 \<longrightarrow> target < T z" by blast
    have "target < T z" if "y < z" "z \<le> x" for z
      using y(5) that True by (cases "z = x") auto
    moreover have "drain_down T target x = Some y"
      using True \<open>0 < x\<close> y(1) by (subst drain_down.simps) simp
    ultimately show ?thesis using y by auto
  qed
qed

lemma drain_first_guess:
  assumes "0 \<le> p" and "\<lfloor>(of_int n :: rat) / (1 + p)\<rfloor> \<le> 0" and "0 < z"
  shows "n < z + \<lceil>p * of_int z\<rceil>"
proof -
  have "(of_int n :: rat) / (1 + p) < 1" using assms(2) by linarith
  then have "of_int n < 1 + p" using assms(1) by (simp add: divide_less_eq)
  moreover have "1 + p \<le> of_int z + p * of_int z"
    using assms(1,3) mult_left_mono [of 1 "of_int z :: rat" p] by linarith
  moreover have "p * of_int z \<le> of_int \<lceil>p * of_int z\<rceil>" by (rule le_of_int_ceiling)
  ultimately have "(of_int n :: rat) < of_int (z + \<lceil>p * of_int z\<rceil>)" unfolding of_int_add by linarith
  then show ?thesis by (simp only: of_int_less_iff)
qed

text \<open>C35: whatever the rounding of the arithmetic, the search for the drain invoice ends; the invoice it names fits under the
  target with its fee, no larger one does, and with exact arithmetic it gives up only when no positive invoice fits.\<close>

theorem drain_optimal:
  assumes "mono rd" and "rd 0 = 0" and "0 \<le> sf_percentage fees"
  shows "\<exists>r. lnDrainInvoiceSat rd fees target = Some r
    \<and> (\<forall>x. r = Some x \<longrightarrow> 0 < x \<and> drain_total rd fees x \<le> target \<and> (\<forall>z. x < z \<longrightarrow> target < drain_total rd fees z))
    \<and> (r = None \<and> rd = (\<lambda>q. q) \<longrightarrow> (\<forall>z. 0 < z \<longrightarrow> target < drain_total rd fees z))"
proof -
  let ?T = "drain_total rd fees"
  let ?x = "\<lfloor>rd (of_int (target - sf_minerFees fees) / rd (1 + rd (sf_percentage fees / 100)))\<rfloor>"
  note grows = drain_step [OF assms]
  show ?thesis
  proof (cases "?x \<le> 0")
    case True
    moreover have "target < ?T z" if "rd = (\<lambda>q. q)" "0 < z" for z
      using drain_first_guess [of "sf_percentage fees / 100" "target - sf_minerFees fees" z] True assms(3) that
      by (simp add: drain_total_def)
    ultimately show ?thesis by (auto simp: lnDrainInvoiceSat_def Let_def)
  next
    case False
    obtain u where u: "drain_up ?T target ?x = Some u" "?x \<le> u" "target < ?T (u + 1)"
      using drain_up_ends [of ?T target ?x] grows by blast
    then obtain y where y: "drain_down ?T target u = Some y" "0 \<le> y" "y \<le> u" "0 < y \<longrightarrow> ?T y \<le> target"
        "\<forall>z. y < z \<and> z \<le> u \<longrightarrow> target < ?T z"
      using drain_down_ends [of u ?T target] False u(2) by force
    have out: "target < ?T z" if "y < z" for z
      using y(5) that u(3) grows [of "u + 1" z] by (cases "z \<le> u") auto
    have "lnDrainInvoiceSat rd fees target = Some (if 0 < y then Some y else None)"
      using False u(1) y(1) by (simp add: lnDrainInvoiceSat_def Let_def)
    then show ?thesis using y out by (auto split: if_splits)
  qed
qed

theorem drain_optimal_witness:
  "\<exists>r. lnDrainInvoiceSat (\<lambda>q. q) \<lparr>sf_percentage = 1 / 10, sf_minerFees = 3\<rparr> 1000 = Some r
    \<and> (\<forall>x. r = Some x \<longrightarrow> 0 < x \<and> drain_total (\<lambda>q. q) \<lparr>sf_percentage = 1 / 10, sf_minerFees = 3\<rparr> x \<le> 1000)"
  using drain_optimal [of "\<lambda>q. q" "\<lparr>sf_percentage = 1 / 10, sf_minerFees = 3\<rparr>" 1000] by (auto simp: mono_def)

subsection \<open>The funnel\<close>

text \<open>An order composed over the pool spends coins of the pool, each at most once, and its inputs either equal the
  amount or leave at least dust in change; a refusal means that even the whole pool is short or would strand the change.\<close>

theorem order_sound:
  assumes "choose_order sz d info pool address amount = r" and "0 < amount" and "0 \<le> pi_dust info"
  shows "(\<forall>a m cs. r = Inr (Selected a m cs) \<longrightarrow> a = address \<and> m = amount \<and> mset cs \<subseteq># mset pool
      \<and> (coin_sum cs = amount \<or> amount + pi_dust info \<le> coin_sum cs))
    \<and> (\<forall>outs. r = Inr (Sdk_choice outs) \<longrightarrow> outs = [(address, amount)] \<and> pi_deprecatedSigners info \<noteq> [])
    \<and> (\<forall>e. r = Inl e \<longrightarrow> coin_sum pool \<noteq> amount \<and> coin_sum pool < amount + pi_dust info)"
proof (cases "pi_deprecatedSigners info = []")
  case False
  with assms show ?thesis by (auto simp: choose_order_def)
next
  case True
  define cs where "cs = selectSpendInputs pool amount (Some (pi_dust info)) (exitCostOracle sz d)"
  note sub = select_sub [OF cs_def [symmetric]]
  have "r = (case cs of [] \<Rightarrow> Inl (Error (if coin_sum pool < amount then ''send needs more than is offchain-spendable''
      else ''send cannot be composed without leaving sub-dust change'')) | c # cs' \<Rightarrow> Inr (Selected address amount (c # cs')))"
    using assms(1) True by (simp add: choose_order_def cs_def)
  with sub assms(2,3) show ?thesis
    by (cases cs; cases "pool = []") (auto simp: covers_def coin_sum_total)
qed

definition calm_pay :: pay_info where
  "calm_pay = \<lparr>pi_dust = 330, pi_deprecatedSigners = []\<rparr>"

theorem order_sound_witness:
  "\<exists>r. choose_order sample_sizes_lib empty_db calm_pay sample_pool ''addr'' 1000 = r
    \<and> (\<forall>a m cs. r = Inr (Selected a m cs) \<longrightarrow> m = 1000 \<and> (coin_sum cs = 1000 \<or> 1330 \<le> coin_sum cs))
    \<and> (\<forall>e. r = Inl e \<longrightarrow> coin_sum sample_pool < 1330)"
  using order_sound [OF refl, of 1000 calm_pay sample_sizes_lib empty_db sample_pool "''addr''"] by (auto simp: calm_pay_def)

subsection \<open>Wear pockets\<close>

lemma foldl_max_in: "foldl (\<lambda>n v. max n (c_value v)) a cs \<noteq> a \<Longrightarrow> \<exists>v \<in> set cs. c_value v = foldl (\<lambda>n v. max n (c_value v)) a cs"
proof (induction cs arbitrary: a)
  case (Cons v vs)
  let ?r = "foldl (\<lambda>n v. max n (c_value v)) (max a (c_value v)) vs"
  show ?case
  proof (cases "?r = max a (c_value v)")
    case True
    with Cons.prems show ?thesis by (auto simp: max_def split: if_splits)
  next
    case False
    with Cons.IH [of "max a (c_value v)"] show ?thesis by simp
  qed
qed simp

text \<open>A split makes at most as many pockets as are missing, and only so many that one coin of the pool pays for all of
  them and keeps at least dust.\<close>

theorem pockets_affordable:
  assumes "0 \<le> dust"
  shows "0 \<le> hotPocketsNeeded pool dust
    \<and> hotPocketsNeeded pool dust \<le> max 0 (HOT_POCKET_COUNT - int (length (filter (\<lambda>v. c_value v \<le> HOT_POCKET_SATS) pool)))
    \<and> (0 < hotPocketsNeeded pool dust \<longrightarrow>
        (\<exists>v \<in> set pool. hotPocketsNeeded pool dust * HOT_POCKET_SATS + dust \<le> c_value v))"
proof -
  let ?n = "hotPocketsNeeded pool dust"
  let ?big = "foldl (\<lambda>n v. max n (c_value v)) 0 pool"
  have le: "?n \<le> max 0 ((?big - dust) div HOT_POCKET_SATS)"
    unfolding hotPocketsNeeded_def Let_def by (simp split: if_split) linarith
  have "\<exists>v \<in> set pool. ?n * HOT_POCKET_SATS + dust \<le> c_value v" if "0 < ?n"
  proof -
    from le that have "?n \<le> (?big - dust) div HOT_POCKET_SATS" by linarith
    then have fits: "?n * HOT_POCKET_SATS \<le> ?big - dust" by (simp add: HOT_POCKET_SATS_def)
    with that assms have "?big \<noteq> 0" by (simp add: HOT_POCKET_SATS_def)
    with foldl_max_in [of 0 pool] obtain v where "v \<in> set pool" "c_value v = ?big" by auto
    with fits show ?thesis by (intro bexI [of _ v]) linarith+
  qed
  moreover have "0 \<le> ?n" "?n \<le> max 0 (HOT_POCKET_COUNT - int (length (filter (\<lambda>v. c_value v \<le> HOT_POCKET_SATS) pool)))"
    by (auto simp: hotPocketsNeeded_def Let_def)
  ultimately show ?thesis by blast
qed

theorem pockets_affordable_witness:
  "hotPocketsNeeded [sample_coin ''aa'' 12000] 330 = 2
    \<and> (\<exists>v \<in> set [sample_coin ''aa'' 12000]. 2 * HOT_POCKET_SATS + 330 \<le> c_value v)"
proof -
  have n: "hotPocketsNeeded [sample_coin ''aa'' 12000] 330 = 2"
    by (simp add: hotPocketsNeeded_def HOT_POCKET_COUNT_def HOT_POCKET_SATS_def sample_coin_def)
  with pockets_affordable [of 330 "[sample_coin ''aa'' 12000]"] show ?thesis by simp
qed

subsection \<open>The swap is on record before the wallet spends\<close>

definition same_txs :: "db \<Rightarrow> db \<Rightarrow> bool" where
  "same_txs d s \<longleftrightarrow> txs s = txs d"

interpretation txr: progress same_txs
  by unfold_locales (simp_all add: same_txs_def)

lemma txr_await: "moves same_txs (await ask)"
  by (simp add: moves_def same_txs_def await_def)

lemma txr_log: "moves same_txs (log_call k i)"
  unfolding log_call_def by (rule txr.moves_modify) (simp add: same_txs_def)

lemmas txr_rules = txr.moves_rules txr_await txr_log

lemma txr_pool: "moves same_txs (spendablePool x dust)"
  unfolding spendablePool_def by (intro txr_rules)

lemma txr_selected: "moves same_txs (sendSelected x info address amount (Some pool))"
  unfolding sendSelected_def order_out_def by (simp, intro txr_rules)

definition created :: "pay_world \<Rightarrow> string \<Rightarrow> submarine \<Rightarrow> bool" where
  "created x invoice p \<longleftrightarrow> (\<exists>t. pw_createSubmarine x t invoice = Inr p)"

definition linked :: "pay_world \<Rightarrow> string \<Rightarrow> string \<Rightarrow> tx_row list \<Rightarrow> db \<Rightarrow> submarine \<Rightarrow> bool" where
  "linked x invoice event rows s p \<longleftrightarrow> created x invoice p \<and>
     txs s = map (\<lambda>r. if t_event r = event \<and> t_state r = Tx_pending then r\<lparr>t_swapId := Some (su_id p)\<rparr> else r) rows"

lemma linked_moves: "moves same_txs m \<Longrightarrow> triple (\<lambda>s. linked x i e rows s p) m (\<lambda>y s. linked x i e rows s p) (\<lambda>y s. linked x i e rows s p)"
  by (erule triple_moves) (simp add: linked_def same_txs_def)

lemma fundingAmount_slack:
  "fundingAmount required spendable = Inr a \<Longrightarrow> required \<le> a \<and> a \<le> required + DRAIN_SLACK_SATS \<and> a \<le> spendable"
  by (auto simp: fundingAmount_def Let_def DRAIN_SLACK_SATS_def split: if_splits)

lemma submarine_links:
  "triple (\<lambda>s. txs s = rows \<and> calls s = cs) (sendSubmarine x (\<lambda>i. modify (pay_swap_created event i)) invoice)
     (\<lambda>res s. \<exists>p. linked x invoice event rows s p \<and> lr_swapId res = su_id p
        \<and> su_expectedAmount p \<le> lr_amount res \<and> lr_amount res \<le> su_expectedAmount p + DRAIN_SLACK_SATS)
     (\<lambda>e s. (txs s = rows \<and> calls s = cs) \<or> (\<exists>p. linked x invoice event rows s p))"
proof -
  let ?E = "\<lambda>e s. (txs s = rows \<and> calls s = cs) \<or> (\<exists>p. linked x invoice event rows s p)"
  have keep: "triple (\<lambda>s. linked x invoice event rows s p) m (\<lambda>y s. linked x invoice event rows s p) ?E"
    if "moves same_txs m" for p and m :: "'b bridge"
    by (rule triple_conseq [OF linked_moves [OF that]]) blast+
  show ?thesis
    unfolding sendSubmarine_def
    apply (rule triple_andthen [where R = "\<lambda>p s. txs s = rows \<and> calls s = cs \<and> created x invoice p"])
     apply (rule triple_await; auto simp: created_def)
    subgoal for p
      apply (rule triple_andthen [where R = "\<lambda>u s. linked x invoice event rows s p"])
       apply (rule triple_modify)
       apply (simp add: linked_def pay_swap_created_def update_txs_def)
      apply (rule triple_andthen [where R = "\<lambda>u s. linked x invoice event rows s p"])
       apply (rule keep, intro txr_rules)
      apply (rule triple_andthen [OF keep], rule txr_await)
      apply (rule triple_andthen [OF keep], rule txr_pool)
      apply (rule triple_andthen [where R = "\<lambda>a s. linked x invoice event rows s p
          \<and> su_expectedAmount p \<le> a \<and> a \<le> su_expectedAmount p + DRAIN_SLACK_SATS"])
       apply (rule triple_lift; auto dest: fundingAmount_slack)
      apply (rule triple_pure)
      apply (rule triple_andthen [OF keep], rule txr_selected)
      apply (rule triple_andthen [OF keep], rule txr_await)
      apply (rule triple_ret; auto)
      done
    done
qed


definition sample_payer :: pay_world where
  "sample_payer = \<lparr>pw_world = sample_world\<lparr>w_sdk := sample_sdk\<lparr>k_decodeInvoice := (\<lambda>s. Inr \<lparr>iv_paymentHash = Some ''h1'', iv_amountSats = Some 1000\<rparr>)\<rparr>\<rparr>,
     pw_info = (\<lambda>t. Inr \<lparr>pi_dust = 330, pi_deprecatedSigners = [''old'']\<rparr>), pw_vtxos = (\<lambda>t. Inr [sample_coin ''dd'' 5000]),
     pw_isSubdust = (\<lambda>v d. c_value v < d), pw_address = (\<lambda>t. Inr ''ark''), pw_spend = (\<lambda>t order. Inr ''aa''),
     pw_createSubmarine = (\<lambda>t i. Inr \<lparr>su_id = ''s9'', su_address = Some ''lockup'', su_expectedAmount = 1004\<rparr>),
     pw_waitSettlement = (\<lambda>t i. Inr ''pp'')\<rparr>"

definition sample_decode :: "string \<Rightarrow> string + ln_invoice" where
  "sample_decode s = Inr \<lparr>li_paymentHash = ''h1'', li_amountSats = 1000, li_description = []\<rparr>"

definition sample_payment :: "(err + string \<times> int option) \<times> db" where
  "sample_payment = handlePayInvoice \<lparr>z_local = (\<lambda>t. t), z_utc = (\<lambda>t. t)\<rparr> sample_decode
     (sendLightning sample_payer (\<lambda>i. modify (pay_swap_created ''ev'' i)))
     \<lparr>n_id = 1, n_label = None, n_servicePubkey = ''svc'', n_clientPubkey = ''cli'', n_relays = [], n_budgetMsat = None,
      n_budgetRenewal = Never, n_spentMsat = 0, n_createdAt = 0, n_revokedAt = None\<rparr> ''ev'' (Some ''lnbc'') 100 200 empty_db"

lemma sample_payment_calls: "calls (snd sample_payment) \<noteq> []"
  by (simp add: sample_payment_def sample_payer_def sample_decode_def handlePayInvoice_def pay_begin_def andthen_def
      guard_eff_def settled_preimage_def in_flight_def over_budget_def insert_tx_def empty_db_def pay_row_def recordNwcLn_def
      history_insert_def sendLightning_def invoice_sats_def sample_sdk_def sendSubmarine_def await_def spendablePool_def
      fundingAmount_def sendSelected_def order_out_def log_call_def choose_order_def catching_def Let_def DUST_SATS_def
      coin_sum_total sample_coin_def truthy_def pay_swap_created_def update_txs_def pay_settle_def add_spent_def
      find_first_def)

end
