(* ===== verification/Ln_Receive.thy ===== *)
theory Ln_Receive
  imports Atomic_Receive Nwc_Ledger
begin

text \<open>
  Lightning receives, \<open>src/ln_receive.ts\<close>: the one place an invoice is minted, below dust as an atomic receive and above it as a
  reverse swap; the sweep of receives that were never funded; and the pass that drives the atomic receives and closes their
  ledger rows. The decoder of BOLT11 and the package's \<open>createLightningInvoice\<close> are fields of \<open>receive_world\<close>.
\<close>

record invoice_times =
  it_expiry :: int
  it_timestamp :: int

record ln_created =
  lc_invoice :: string
  lc_paymentHash :: string
  lc_amount :: int
  lc_swapId :: string

record receive_world =
  vw_world :: world
  vw_createInvoice :: "nat \<Rightarrow> int \<Rightarrow> string option \<Rightarrow> string option \<Rightarrow> err + ln_created"
  vw_decode :: "string \<Rightarrow> err + invoice_times"

definition RECEIVE_DUST_SATS :: int where "RECEIVE_DUST_SATS = 330"
definition EXPIRY_GRACE_SECONDS :: int where "EXPIRY_GRACE_SECONDS = 15 * 60"

definition absoluteExpiry :: "receive_world \<Rightarrow> string \<Rightarrow> err + int" where
  "absoluteExpiry w invoice = (case vw_decode w invoice of
     Inl e \<Rightarrow> Inl e
   | Inr t \<Rightarrow> Inr (if 1000000000 < it_expiry t then it_expiry t else it_timestamp t + it_expiry t))"

subsection \<open>Minting\<close>

datatype issue_kind = Subdust_issue string string | Swap_issue string

record issued =
  is_kind :: issue_kind
  is_invoice :: string
  is_paymentHash :: string
  is_expiresAt :: int
  is_receivedSats :: int

definition issueInvoice :: "receive_world \<Rightarrow> int \<Rightarrow> string option \<Rightarrow> string option \<Rightarrow> issued bridge" where
  "issueInvoice w amountSats description descriptionHash =
     (if amountSats < RECEIVE_DUST_SATS
      then andthen (issueAtomicReceive (vw_world w) amountSats descriptionHash) (\<lambda>r.
           andthen (lift_res (absoluteExpiry w (vi_invoice r))) (\<lambda>expiresAt.
           ret \<lparr>is_kind = Subdust_issue (vi_swapId r) (vi_preimage r), is_invoice = vi_invoice r,
             is_paymentHash = vi_paymentHash r, is_expiresAt = expiresAt, is_receivedSats = amountSats\<rparr>))
      else andthen (await (\<lambda>t. vw_createInvoice w t amountSats description descriptionHash)) (\<lambda>r.
           andthen (lift_res (absoluteExpiry w (lc_invoice r))) (\<lambda>expiresAt.
           ret \<lparr>is_kind = Swap_issue (lc_swapId r), is_invoice = lc_invoice r,
             is_paymentHash = lc_paymentHash r, is_expiresAt = expiresAt, is_receivedSats = lc_amount r\<rparr>)))"

text \<open>What \<open>make_invoice\<close> keeps of it: the swap id only of a reverse swap.\<close>

definition nwc_issued :: "issued \<Rightarrow> issued_invoice" where
  "nwc_issued i = \<lparr>iw_invoice = is_invoice i, iw_paymentHash = is_paymentHash i, iw_expiresAt = is_expiresAt i,
     iw_receivedSats = is_receivedSats i,
     iw_swapId = (case is_kind i of Swap_issue s \<Rightarrow> Some s | Subdust_issue s p \<Rightarrow> None)\<rparr>"

subsection \<open>The sweep\<close>

definition sweepable :: "swap_row \<Rightarrow> bool" where
  "sweepable s \<longleftrightarrow> s_direction s = Receive \<and> s_state s = Invoice_issued \<and> truthy (s_invoice s)"

fun sweep_rows :: "receive_world \<Rightarrow> int \<Rightarrow> swap_row list \<Rightarrow> string list \<Rightarrow> string list bridge" where
  "sweep_rows w now [] swept = ret swept"
| "sweep_rows w now (s # rest) swept =
     (if \<not> sweepable s then sweep_rows w now rest swept
      else (case absoluteExpiry w (the (s_invoice s)) of
          Inl e \<Rightarrow> sweep_rows w now rest swept
        | Inr expiry \<Rightarrow>
            (if expiry + EXPIRY_GRACE_SECONDS < now
             then andthen (transition (vw_world w) (s_id s) Failed) (\<lambda>u. sweep_rows w now rest (swept @ [s_id s]))
             else sweep_rows w now rest swept)))"

definition sweepExpiredAtomicReceives :: "receive_world \<Rightarrow> int \<Rightarrow> string list bridge" where
  "sweepExpiredAtomicReceives w now = andthen resumable_now (\<lambda>rows. sweep_rows w now rows [])"

subsection \<open>The pass\<close>

text \<open>One pending incoming row without a swap, as read at the start of the loop.\<close>

definition close_receive :: "int \<Rightarrow> tx_row \<Rightarrow> db \<Rightarrow> db" where
  "close_receive now row d =
     (let mine = (\<lambda>r. t_id r = t_id row \<and> t_state r = Tx_pending);
          swap = repo_getByPaymentHash d (t_paymentHash row)
      in case swap of
          Some s \<Rightarrow> (if s_direction s = Receive \<and> s_state s = Settled
            then update_txs mine (\<lambda>r. r\<lparr>t_state := Tx_settled, t_preimage := coalesce (t_preimage r) (s_preimage s),
                   t_settledAt := coalesce (t_settledAt r) (Some now)\<rparr>) d
            else if (case t_expiresAt row of None \<Rightarrow> False | Some e \<Rightarrow> e + EXPIRY_GRACE_SECONDS < now)
            then update_txs mine (\<lambda>r. r\<lparr>t_state := Tx_expired\<rparr>) d else d)
        | None \<Rightarrow> (if (case t_expiresAt row of None \<Rightarrow> False | Some e \<Rightarrow> e + EXPIRY_GRACE_SECONDS < now)
            then update_txs mine (\<lambda>r. r\<lparr>t_state := Tx_expired\<rparr>) d else d))"

definition open_receives :: "db \<Rightarrow> tx_row list" where
  "open_receives d = filter (\<lambda>r. t_type r = Incoming \<and> t_state r = Tx_pending \<and> t_swapId r = None) (txs d)"

definition close_receives :: "int \<Rightarrow> db \<Rightarrow> db" where
  "close_receives now d = foldl (\<lambda>d row. close_receive now row d) d (open_receives d)"

text \<open>The hashes of the settled ids; an empty hash is left out.\<close>

definition settled_hashes :: "db \<Rightarrow> string list \<Rightarrow> string list" where
  "settled_hashes d ids = concat (map (\<lambda>i. case repo_get d i of None \<Rightarrow> []
     | Some s \<Rightarrow> if s_paymentHash s = [] then [] else [s_paymentHash s]) ids)"

definition reconcileAtomicReceives :: "receive_world \<Rightarrow> string list bridge" where
  "reconcileAtomicReceives w =
     andthen (driveAtomicReceives (vw_world w)) (\<lambda>settledIds.
     andthen (clock_ms (w_now (vw_world w))) (\<lambda>nowMs.
     (let now = nowMs div 1000 in
     andthen (sweepExpiredAtomicReceives w now) (\<lambda>swept.
     andthen (modify (close_receives now)) (\<lambda>u.
     reading (\<lambda>d. settled_hashes d settledIds))))))"

end
