(* ===== verification/Ln_Receive_Safety.thy ===== *)
theory Ln_Receive_Safety
  imports Ln_Receive Receive_Safety
begin

text \<open>
  What the lightning receive pass does to the books: the atomic machinery underneath never touches the ledger, the sweep ends
  only receives that were never funded, and a ledger row is closed on the evidence of its own swap or on its own clock.
\<close>

subsection \<open>The atomic receives leave the ledger alone\<close>

definition ledger_still :: "db \<Rightarrow> db \<Rightarrow> bool" where
  "ledger_still d s \<longleftrightarrow> txs s = txs d \<and> conns s = conns d \<and> history s = history d \<and> processed s = processed d
     \<and> boltzSwaps s = boltzSwaps d"

interpretation lst: progress ledger_still
  by unfold_locales (simp_all add: ledger_still_def)

lemma lst_await: "moves ledger_still (await ask)"
  by (simp add: moves_def ledger_still_def await_def)

lemma lst_clock: "moves ledger_still (clock_ms now)"
  by (simp add: clock_ms_def moves_def ledger_still_def)

lemma lst_notify: "moves ledger_still (modify (notify n))"
  by (rule lst.moves_modify) (simp add: ledger_still_def)

lemma lst_log: "moves ledger_still (log_call k i)"
  unfolding log_call_def by (rule lst.moves_modify) (simp add: ledger_still_def)

lemma lst_update_swap: "moves ledger_still (modify (update_swap i f))"
  by (rule lst.moves_modify) (simp add: ledger_still_def update_swap_def)

lemma lst_mustGet: "moves ledger_still (repo_mustGet i)"
  by (simp add: moves_def repo_mustGet_def lst.R_refl split: option.split)

lemma lst_transition: "moves ledger_still (transition w i st)"
  unfolding transition_def repo_transition_def by (intro lst.moves_rules lst_clock lst_update_swap lst_mustGet)

lemma lst_touch: "moves ledger_still (setFundingOutpoint w i op)"
  unfolding setFundingOutpoint_def repo_setFundingOutpoint_def repo_touch_def
  by (intro lst.moves_rules lst_clock lst_update_swap lst_mustGet)

lemma lst_confirm: "moves ledger_still (confirmSpent w txid vout)"
proof -
  have "moves ledger_still (confirm_poll n w txid vout)" for n
  proof (induction n)
    case 0
    show ?case unfolding confirm_poll.simps by (rule lst.moves_rules)
  next
    case (Suc n)
    then show ?case unfolding confirm_poll.simps by (intro lst.moves_rules lst_await)
  qed
  then show ?thesis by (simp add: confirmSpent_def)
qed

lemma lst_option:
  "moves ledger_still m \<Longrightarrow> (\<And>y. moves ledger_still (f y)) \<Longrightarrow> moves ledger_still (case x of None \<Rightarrow> m | Some y \<Rightarrow> f y)"
  by (cases x) auto

lemma lst_pair:
  "(\<And>a b. moves ledger_still (f a b)) \<Longrightarrow> moves ledger_still (case p of (a, b) \<Rightarrow> f a b)"
  by (cases p) auto

lemmas lst_rules = lst.moves_rules lst_await lst_clock lst_notify lst_log lst_transition lst_touch lst_confirm lst_option lst_pair

lemma lst_settled_notice: "moves ledger_still (notifyReceiveSettled swap)"
  unfolding notifyReceiveSettled_def by (rule lst.moves_modify) (simp add: ledger_still_def)

lemma lst_advance: "moves ledger_still (advanceReceive w i target)"
proof -
  have "moves ledger_still (advance_steps w i target path)" for path
  proof (induction path)
    case Nil
    show ?case unfolding advance_steps.simps by (rule lst.moves_rules)
  next
    case (Cons a path)
    then show ?case unfolding advance_steps.simps by (intro lst_rules)
  qed
  then show ?thesis by (simp add: advanceReceive_def)
qed

lemma lst_plan: "moves ledger_still (receive_plan w swap offer)"
  unfolding receive_plan_def Let_def by (intro lst_rules)

lemma lst_drive: "moves ledger_still (driveAtomicReceive w i)"
  unfolding driveAtomicReceive_def receive_answer_def receive_claim_def receive_settle_def
  by (intro lst_rules lst_settled_notice lst_advance lst_plan)

lemma lst_resumable: "moves ledger_still resumable_now"
  by (simp add: moves_def resumable_now_def lst.R_refl)

lemma lst_drives: "moves ledger_still (driveAtomicReceives w)"
proof -
  have "moves ledger_still (drive_each w rows settled)" for rows settled
  proof (induction rows arbitrary: settled)
    case Nil
    show ?case unfolding drive_each.simps by (rule lst.moves_rules)
  next
    case (Cons a rows)
    then show ?case unfolding drive_each.simps by (intro lst_rules lst_drive)
  qed
  then show ?thesis unfolding driveAtomicReceives_def by (intro lst_rules lst_resumable)
qed

lemma lst_sweep: "moves ledger_still (sweepExpiredAtomicReceives w now)"
proof -
  have "moves ledger_still (sweep_rows w now rows swept)" for rows swept
  proof (induction rows arbitrary: swept)
    case Nil
    show ?case unfolding sweep_rows.simps by (rule lst.moves_rules)
  next
    case (Cons a rows)
    then show ?case unfolding sweep_rows.simps by (auto split: sum.split intro!: lst_rules simp del: sweep_rows.simps)
  qed
  then show ?thesis unfolding sweepExpiredAtomicReceives_def by (intro lst_rules lst_resumable)
qed

subsection \<open>The sweep ends what was never funded\<close>

definition swept :: "receive_world \<Rightarrow> int \<Rightarrow> swap_row \<Rightarrow> swap_row \<Rightarrow> bool" where
  "swept w now s s' \<longleftrightarrow> sweepable s \<and> s_state s' = Failed
     \<and> (\<exists>e. absoluteExpiry w (the (s_invoice s)) = Inr e \<and> e + EXPIRY_GRACE_SECONDS < now)"

definition sweep_of :: "receive_world \<Rightarrow> int \<Rightarrow> db \<Rightarrow> db \<Rightarrow> bool" where
  "sweep_of w now d t \<longleftrightarrow> (\<forall>s' \<in> set (swaps t). \<exists>s \<in> set (swaps d). s_id s = s_id s' \<and> (s' = s \<or> swept w now s s'))"

lemma transition_Failed_rows:
  "swaps (snd (transition w i Failed d)) = swaps d
   \<or> (\<exists>now. swaps (snd (transition w i Failed d)) = map (\<lambda>r. if s_id r = i then r\<lparr>s_state := Failed, s_updatedAt := now\<rparr> else r) (swaps d))"
  by (auto simp: transition_def andthen_def clock_ms_def repo_transition_eq update_swap_def row_update_def
      split: option.split sum.split)

lemma sweep_one:
  assumes "distinct (map s_id (swaps d))" and "sweep_of w now d t" and "row \<in> set (swaps d)" and "sweepable row"
    and "absoluteExpiry w (the (s_invoice row)) = Inr e" and "e + EXPIRY_GRACE_SECONDS < now"
  shows "sweep_of w now d (snd (transition v (s_id row) Failed t))"
proof -
  let ?t = "snd (transition v (s_id row) Failed t)"
  have "\<exists>s \<in> set (swaps d). s_id s = s_id s' \<and> (s' = s \<or> swept w now s s')" if "s' \<in> set (swaps ?t)" for s'
  proof (cases "s' \<in> set (swaps t)")
    case True
    with assms(2) show ?thesis by (simp add: sweep_of_def)
  next
    case False
    with that transition_Failed_rows [of v "s_id row" t] have "s_id s' = s_id row" "s_state s' = Failed"
      by (auto split: if_splits)
    with assms(3-6) show ?thesis by (intro bexI [of _ row]) (auto simp: swept_def)
  qed
  then show ?thesis by (simp add: sweep_of_def)
qed

lemma sweep_rows_of:
  assumes "distinct (map s_id (swaps d))"
  shows "set rows \<subseteq> set (swaps d) \<Longrightarrow> sweep_of w now d t \<Longrightarrow> sweep_of w now d (snd (sweep_rows w now rows ids t))"
proof (induction rows arbitrary: t ids)
  case (Cons row rows)
  show ?case
  proof (cases "sweepable row \<and> (\<exists>e. absoluteExpiry w (the (s_invoice row)) = Inr e \<and> e + EXPIRY_GRACE_SECONDS < now)")
    case False
    with Cons show ?thesis by (auto split: sum.split)
  next
    case True
    then obtain e where e: "absoluteExpiry w (the (s_invoice row)) = Inr e" "e + EXPIRY_GRACE_SECONDS < now" by blast
    obtain r t' where run: "transition (vw_world w) (s_id row) Failed t = (r, t')" by fastforce
    have "sweep_of w now d t'"
      using sweep_one [OF assms Cons.prems(2), of row e "vw_world w"] True e Cons.prems(1) run by simp
    with Cons True e run show ?thesis by (cases r) (simp_all add: andthen_def)
  qed
qed simp

lemma resumable_subset: "resumable rows = Inr out \<Longrightarrow> set out \<subseteq> set rows"
  by (induction rows arbitrary: out) (auto split: sum.splits if_splits)

text \<open>The sweep leaves every swap alone but a receive that is still waiting for boltz's funding after its own invoice
  expired and the grace passed, which it ends; a swap that was funded or claimed is never swept.\<close>

theorem sweep_unfunded_only:
  assumes "distinct (map s_id (swaps d))" and "s' \<in> set (swaps (snd (sweepExpiredAtomicReceives w now d)))"
  shows "\<exists>s \<in> set (swaps d). s_id s = s_id s' \<and> (s' = s \<or>
     s_direction s = Receive \<and> s_state s = Invoice_issued \<and> s_state s' = Failed
     \<and> (\<exists>e. absoluteExpiry w (the (s_invoice s)) = Inr e \<and> e + EXPIRY_GRACE_SECONDS < now))"
proof -
  have "sweep_of w now d d" by (auto simp: sweep_of_def)
  with sweep_rows_of [OF assms(1)] have "sweep_of w now d (snd (sweepExpiredAtomicReceives w now d))"
    by (auto simp: sweepExpiredAtomicReceives_def resumable_now_def andthen_def repo_listResumable_def
        split: sum.split dest: resumable_subset)
  with assms(2) show ?thesis by (fastforce simp: sweep_of_def swept_def sweepable_def)
qed

subsection \<open>Closing ledger rows\<close>

definition paid_receive :: "db \<Rightarrow> tx_row \<Rightarrow> swap_row option" where
  "paid_receive d r = (case repo_getByPaymentHash d (t_paymentHash r) of
     None \<Rightarrow> None | Some s \<Rightarrow> if s_direction s = Receive \<and> s_state s = Settled then Some s else None)"

definition overdue :: "int \<Rightarrow> tx_row \<Rightarrow> bool" where
  "overdue now r \<longleftrightarrow> (case t_expiresAt r of None \<Rightarrow> False | Some e \<Rightarrow> e + EXPIRY_GRACE_SECONDS < now)"

definition receive_row :: "tx_row \<Rightarrow> bool" where
  "receive_row r \<longleftrightarrow> t_type r = Incoming \<and> t_state r = Tx_pending \<and> t_swapId r = None"

definition closes :: "int \<Rightarrow> db \<Rightarrow> tx_row \<Rightarrow> tx_row \<Rightarrow> bool" where
  "closes now d r r' \<longleftrightarrow> receive_row r \<and> (case paid_receive d r of
     Some s \<Rightarrow> r' = r\<lparr>t_state := Tx_settled, t_preimage := coalesce (t_preimage r) (s_preimage s),
       t_settledAt := coalesce (t_settledAt r) (Some now)\<rparr>
   | None \<Rightarrow> overdue now r \<and> r' = r\<lparr>t_state := Tx_expired\<rparr>)"

lemma closes_state: "closes now d r r' \<Longrightarrow> t_state r' \<noteq> Tx_pending"
  by (auto simp: closes_def split: option.splits)

lemma close_receive_eq:
  "close_receive now row d = (case paid_receive d row of
     Some s \<Rightarrow> update_txs (\<lambda>r. t_id r = t_id row \<and> t_state r = Tx_pending) (\<lambda>r. r\<lparr>t_state := Tx_settled,
       t_preimage := coalesce (t_preimage r) (s_preimage s), t_settledAt := coalesce (t_settledAt r) (Some now)\<rparr>) d
   | None \<Rightarrow> (if overdue now row then update_txs (\<lambda>r. t_id r = t_id row \<and> t_state r = Tx_pending) (\<lambda>r. r\<lparr>t_state := Tx_expired\<rparr>) d else d))"
  by (simp add: close_receive_def paid_receive_def overdue_def Let_def split: option.split)

lemma update_txs_swaps [simp]: "swaps (update_txs P f d) = swaps d"
  by (simp add: update_txs_def)

lemma close_receive_swaps [simp]: "swaps (close_receive now row d) = swaps d"
  by (simp add: close_receive_eq split: option.split)

definition closing :: "int \<Rightarrow> db \<Rightarrow> db \<Rightarrow> bool" where
  "closing now d t \<longleftrightarrow> swaps t = swaps d \<and> (\<forall>r' \<in> set (txs t). r' \<in> set (txs d) \<or> (\<exists>r \<in> set (txs d). closes now d r r'))"

lemma closing_one:
  assumes "distinct (map t_id (txs d))" and "closing now d t" and "row \<in> set (txs d)" and "receive_row row"
  shows "closing now d (close_receive now row t)"
proof -
  have same: "paid_receive t row = paid_receive d row"
    using assms(2) by (simp add: closing_def paid_receive_def repo_getByPaymentHash_def)
  have only: "r = row" if "r \<in> set (txs t)" "t_id r = t_id row" "t_state r = Tx_pending" for r
  proof -
    from that assms(2) closes_state have "r \<in> set (txs d)" by (fastforce simp: closing_def)
    with assms(1,3) that(2) show ?thesis by (simp add: distinct_map inj_on_def)
  qed
  have "r' \<in> set (txs t) \<or> closes now d row r'" if "r' \<in> set (txs (close_receive now row t))" for r'
    using that assms(4) only unfolding close_receive_eq same closes_def update_txs_def
    by (auto split: option.splits if_splits)
  with assms(2,3) show ?thesis by (auto simp: closing_def)
qed

lemma closing_all:
  assumes "distinct (map t_id (txs d))"
  shows "closing now d (close_receives now d)"
proof -
  have "set rows \<subseteq> set (open_receives d) \<Longrightarrow> closing now d t \<Longrightarrow> closing now d (foldl (\<lambda>d row. close_receive now row d) t rows)"
    for rows t
  proof (induction rows arbitrary: t)
    case (Cons row rows)
    then have "closing now d (close_receive now row t)"
      by (intro closing_one [OF assms]) (auto simp: open_receives_def receive_row_def)
    with Cons show ?case by simp
  qed simp
  from this [of "open_receives d" d] show ?thesis by (auto simp: close_receives_def closing_def)
qed

text \<open>C36: the pass over atomic receives closes a ledger row only on evidence. A row it changes was an incoming, pending row
  without a swap of boltz; it is settled exactly when the receive of its payment hash is settled in the store, with that
  receive's preimage, and otherwise it expires, and only past its expiry and the grace.\<close>

theorem receives_close_on_evidence:
  assumes "distinct (map t_id (txs d))" and "reconcileAtomicReceives w d = (r, d')" and "row' \<in> set (txs d')"
  shows "row' \<in> set (txs d) \<or> (\<exists>row \<in> set (txs d). t_type row = Incoming \<and> t_state row = Tx_pending \<and> t_swapId row = None \<and>
     ((\<exists>s now. repo_getByPaymentHash d' (t_paymentHash row) = Some s \<and> s_direction s = Receive \<and> s_state s = Settled
         \<and> row' = row\<lparr>t_state := Tx_settled, t_preimage := coalesce (t_preimage row) (s_preimage s),
              t_settledAt := coalesce (t_settledAt row) (Some now)\<rparr>)
      \<or> (\<exists>e t. t_expiresAt row = Some e \<and> e + EXPIRY_GRACE_SECONDS < w_now (vw_world w) t div 1000
         \<and> row' = row\<lparr>t_state := Tx_expired\<rparr>
         \<and> (\<forall>s. repo_getByPaymentHash d' (t_paymentHash row) = Some s \<longrightarrow> \<not> (s_direction s = Receive \<and> s_state s = Settled)))))"
proof -
  obtain r1 d1 where drive: "driveAtomicReceives (vw_world w) d = (r1, d1)" by fastforce
  then have one: "txs d1 = txs d" using movesD [OF lst_drives [of "vw_world w"], of d] by (simp add: ledger_still_def)
  show ?thesis
  proof (cases r1)
    case (Inl e)
    then have "d' = d1" using assms(2) drive by (simp add: reconcileAtomicReceives_def andthen_def)
    with one assms(3) show ?thesis by simp
  next
    case (Inr ids)
    define now where "now = w_now (vw_world w) (tick d1) div 1000"
    obtain r2 d2 where sweep: "sweepExpiredAtomicReceives w now d1 = (r2, d2)" by fastforce
    then have two: "txs d2 = txs d1" using movesD [OF lst_sweep [of w now], of d1] by (simp add: ledger_still_def)
    show ?thesis
    proof (cases r2)
      case (Inl e)
      then have "d' = d2" using assms(2) drive Inr sweep
        by (simp add: reconcileAtomicReceives_def andthen_def clock_ms_def now_def Let_def)
      with one two assms(3) show ?thesis by simp
    next
      case r2: (Inr swept)
      then have d': "d' = close_receives now d2" using assms(2) drive Inr sweep
        by (simp add: reconcileAtomicReceives_def andthen_def clock_ms_def now_def Let_def)
      have shut: "closing now d2 d'" using closing_all [of d2 now] assms(1) one two d' by simp
      show ?thesis
      proof (cases "row' \<in> set (txs d)")
        case False
        with shut assms(3) one two obtain row where row: "row \<in> set (txs d)" "closes now d2 row row'"
          by (auto simp: closing_def)
        have same: "repo_getByPaymentHash d' h = repo_getByPaymentHash d2 h" for h
          using shut by (simp add: closing_def repo_getByPaymentHash_def)
        show ?thesis using row
          by (intro disjI2 bexI [of _ row])
            (auto simp: closes_def receive_row_def paid_receive_def overdue_def now_def same split: option.splits if_splits)
      qed simp
    qed
  qed
qed

text \<open>The flip to expired does not look at the swap's progress, and it is final: a receive that boltz funded, or that we
  already claimed, is marked expired when its grace passes, and whatever the store says later, no further pass settles it.\<close>

theorem claimed_receive_expires:
  assumes "distinct (map t_id (txs d))" and "row \<in> set (txs d)" and "t_type row = Incoming" and "t_state row = Tx_pending"
    and "t_swapId row = None" and "repo_getByPaymentHash d (t_paymentHash row) = Some s" and "s_state s \<in> {Funded, Claimed}"
    and "t_expiresAt row = Some e" and "e + EXPIRY_GRACE_SECONDS < now"
  shows "row\<lparr>t_state := Tx_expired\<rparr> \<in> set (txs (close_receives now d))
    \<and> (\<forall>t later. txs t = txs (close_receives now d) \<longrightarrow> row\<lparr>t_state := Tx_expired\<rparr> \<in> set (txs (close_receives later t)))"
proof -
  have keep: "x \<in> set (txs (foldl (\<lambda>d row. close_receive now row d) t rows))"
    if "x \<in> set (txs t)" "t_state x \<noteq> Tx_pending" for x rows now and t :: db
    using that by (induction rows arbitrary: t)
      (simp, force simp: close_receive_eq update_txs_def split: option.splits if_splits)
  have unpaid: "paid_receive d row = None"
    using assms(6,7) by (auto simp: paid_receive_def)
  have flip: "row\<lparr>t_state := Tx_expired\<rparr> \<in> set (txs (foldl (\<lambda>d row. close_receive now row d) t rows))"
    if "swaps t = swaps d" "row \<in> set (txs t)" "row \<in> set rows" "set rows \<subseteq> set (txs d)" for rows t
    using that
  proof (induction rows arbitrary: t)
    case (Cons a rows)
    have same: "paid_receive t x = paid_receive d x" for x
      using Cons.prems(1) by (simp add: paid_receive_def repo_getByPaymentHash_def)
    show ?case
    proof (cases "a = row")
      case True
      have "row\<lparr>t_state := Tx_expired\<rparr> \<in> set (txs (close_receive now a t))"
        using True Cons.prems(2) assms(4,8,9) by (force simp: close_receive_eq same unpaid overdue_def update_txs_def)
      then show ?thesis using keep by simp
    next
      case False
      then have "t_id a \<noteq> t_id row" using Cons.prems(4) assms(1,2) by (auto simp: distinct_map inj_on_def)
      then have "row \<in> set (txs (close_receive now a t))"
        using Cons.prems(2) by (force simp: close_receive_eq update_txs_def split: option.splits)
      with Cons False show ?thesis by simp
    qed
  qed simp
  have "row \<in> set (open_receives d)" "set (open_receives d) \<subseteq> set (txs d)"
    using assms(2-5) by (auto simp: open_receives_def)
  with flip [of d "open_receives d"] assms(2) have "row\<lparr>t_state := Tx_expired\<rparr> \<in> set (txs (close_receives now d))"
    by (simp add: close_receives_def)
  with keep show ?thesis by (auto simp: close_receives_def)
qed


subsection \<open>At work\<close>

definition sample_receive_world :: receive_world where
  "sample_receive_world = \<lparr>vw_world = sample_world,
     vw_createInvoice = (\<lambda>t a desc h. Inr \<lparr>lc_invoice = ''lnbc'', lc_paymentHash = ''h1'', lc_amount = a - 5, lc_swapId = ''rev1''\<rparr>),
     vw_decode = (\<lambda>i. Inr \<lparr>it_expiry = 3600, it_timestamp = 500\<rparr>)\<rparr>"

definition receive_swap :: "swap_state \<Rightarrow> swap_row" where
  "receive_swap st = (sample_row st None)\<lparr>s_id := ''r1'', s_direction := Receive, s_paymentHash := ''h1'', s_invoice := Some ''lnbc''\<rparr>"

definition receive_tx :: tx_row where
  "receive_tx = \<lparr>t_id = 1, t_connection = 1, t_type = Incoming, t_event = ''ev'', t_invoice = ''lnbc'', t_paymentHash = ''h1'',
     t_amountMsat = 100000, t_feesPaidMsat = Some 0, t_description = None, t_swapId = None, t_state = Tx_pending, t_preimage = None,
     t_error = None, t_createdAt = 500, t_expiresAt = Some 4100, t_settledAt = None\<rparr>"

definition waiting_store :: db where
  "waiting_store = empty_db\<lparr>swaps := [receive_swap Invoice_issued]\<rparr>"

definition swept_store :: db where
  "swept_store = snd (sweepExpiredAtomicReceives sample_receive_world 9000 waiting_store)"

lemma swept_store_swaps: "map s_state (swaps swept_store) = [Failed]"
  by (simp add: swept_store_def waiting_store_def sweepExpiredAtomicReceives_def resumable_now_def andthen_def repo_listResumable_def isTerminal_def
      receive_swap_def sample_row_def sweepable_def truthy_def absoluteExpiry_def sample_receive_world_def EXPIRY_GRACE_SECONDS_def
      transition_def clock_ms_def repo_transition_eq repo_get_def empty_db_def assertTransition_def canTransition_def update_swap_def row_update_def)

theorem sweep_unfunded_only_witness:
  "\<exists>s'. swaps swept_store = [s'] \<and> s_id s' = ''r1'' \<and> s_state s' = Failed \<and> s_state (receive_swap Invoice_issued) = Invoice_issued"
proof -
  obtain s' where s': "swaps swept_store = [s']" "s_state s' = Failed" using swept_store_swaps by auto
  with sweep_unfunded_only [of waiting_store s' sample_receive_world 9000] have "s_id s' = ''r1''"
    by (auto simp: swept_store_def waiting_store_def receive_swap_def)
  with s' show ?thesis by (simp add: receive_swap_def)
qed

definition closed_store :: db where
  "closed_store = snd (reconcileAtomicReceives sample_receive_world (empty_db\<lparr>txs := [receive_tx]\<rparr>))"

lemma closed_store_txs: "txs closed_store = [receive_tx\<lparr>t_state := Tx_expired\<rparr>]"
  by (simp add: closed_store_def reconcileAtomicReceives_def driveAtomicReceives_def resumable_now_def repo_listResumable_def andthen_def
      clock_ms_def sweepExpiredAtomicReceives_def empty_db_def sample_receive_world_def close_receives_def open_receives_def receive_tx_def
      close_receive_eq paid_receive_def repo_getByPaymentHash_def overdue_def EXPIRY_GRACE_SECONDS_def update_txs_def)

theorem receives_close_on_evidence_witness:
  "\<exists>row' e t. txs closed_store = [row'] \<and> t_state row' = Tx_expired \<and> t_expiresAt receive_tx = Some e
     \<and> e + EXPIRY_GRACE_SECONDS < w_now (vw_world sample_receive_world) t div 1000"
  using receives_close_on_evidence [of "empty_db\<lparr>txs := [receive_tx]\<rparr>" sample_receive_world
      "fst (reconcileAtomicReceives sample_receive_world (empty_db\<lparr>txs := [receive_tx]\<rparr>))" closed_store "receive_tx\<lparr>t_state := Tx_expired\<rparr>"]
    closed_store_txs
  by (auto simp: closed_store_def receive_tx_def)

theorem claimed_receive_expires_witness:
  "receive_tx\<lparr>t_state := Tx_expired\<rparr> \<in> set (txs (close_receives 9000 (empty_db\<lparr>swaps := [receive_swap Claimed], txs := [receive_tx]\<rparr>)))"
  using claimed_receive_expires [of "empty_db\<lparr>swaps := [receive_swap Claimed], txs := [receive_tx]\<rparr>" receive_tx "receive_swap Claimed" 4100 9000]
  by (simp add: receive_tx_def receive_swap_def sample_row_def repo_getByPaymentHash_def EXPIRY_GRACE_SECONDS_def)

end
