(* ===== verification/Service_State.thy ===== *)
theory Service_State
  imports Ln_Receive Boltz_Sync History
begin

text \<open>
  What the nostr side of the bridge keeps and sends. The store of the other components sits inside; \<open>on_db\<close> runs their
  handlers on it. The two acknowledgement tables of the offer service and its stored code are columns of their own. What is
  published is a log: an event template with the relays it was handed to. A sealed content is \<open>encryptContent\<close> of the
  JSON of its body, under our key, for the recipient named; whether a recipient's key can be used at all, and what
  decryption yields, are parameters.
\<close>

datatype enc_scheme = Nip44_v2 | Nip04

datatype nwc_answer =
    Info string "string list"
  | Balance int
  | Made string "string option" "string option" string int "int option" int int
  | Paid string "int option"
  | Found nwc_tx
  | Listed "nwc_tx list"

datatype sealed_body =
    Receipt "string option"
  | Bolt11 string
  | Offer_error string int
  | Nwc_result string nwc_answer
  | Nwc_failure string string string

datatype pub_content = Sealed enc_scheme string sealed_body | Clear string

record publication =
  pv_relays :: "string list"
  pv_kind :: int
  pv_tags :: "string list list"
  pv_content :: pub_content

text \<open>A row of \<open>clink_offer_receipts\<close> (keyed by swap id) or of \<open>clink_subdust_receipts\<close> (keyed by payment hash).\<close>

record clink_receipt =
  cr_key :: string
  cr_payer :: string
  cr_request :: string
  cr_relay :: string
  cr_zapRequest :: "string option"
  cr_zapInvoice :: "string option"
  cr_createdAt :: int

record service_state =
  sv_db :: db
  sv_offers :: "clink_receipt list"
  sv_subdust :: "clink_receipt list"
  sv_noffer :: "string option"
  sv_out :: "publication list"

type_synonym 'a service = "(err, service_state, 'a) eff"

definition on_db :: "'a bridge \<Rightarrow> 'a service" where
  "on_db m s = (case m (sv_db s) of (r, d) \<Rightarrow> (r, s\<lparr>sv_db := d\<rparr>))"

text \<open>An event as received; the pool has checked its signature.\<close>

record nostr_event =
  ne_id :: string
  ne_pubkey :: string
  ne_tags :: "string list list"
  ne_content :: string

record cipher =
  ci_decrypt :: "enc_scheme \<Rightarrow> string \<Rightarrow> string \<Rightarrow> err + string"
  ci_usable :: "enc_scheme \<Rightarrow> string \<Rightarrow> bool"

definition tag_is :: "string \<Rightarrow> string list \<Rightarrow> bool" where
  "tag_is name t = (case t of [] \<Rightarrow> False | x # xs \<Rightarrow> x = name)"

definition tag_value :: "string list \<Rightarrow> string option" where
  "tag_value t = (case t of x # v # xs \<Rightarrow> Some v | _ \<Rightarrow> None)"

definition first_tag :: "string \<Rightarrow> string list list \<Rightarrow> string option" where
  "first_tag name tags = (case find_first (tag_is name) tags of None \<Rightarrow> None | Some t \<Rightarrow> tag_value t)"

definition seal :: "cipher \<Rightarrow> enc_scheme \<Rightarrow> string \<Rightarrow> sealed_body \<Rightarrow> pub_content service" where
  "seal c scheme recipient body =
     (if ci_usable c scheme recipient then ret (Sealed scheme recipient body) else throw (Error ''cannot encrypt to this key''))"

text \<open>Publishing never throws: the outcomes of the relays are collected with \<open>allSettled\<close> and logged.\<close>

definition publish :: "string list \<Rightarrow> int \<Rightarrow> string list list \<Rightarrow> pub_content \<Rightarrow> unit service" where
  "publish relays kind tags content = modify (\<lambda>s. s\<lparr>sv_out := sv_out s @
     [\<lparr>pv_relays = relays, pv_kind = kind, pv_tags = tags, pv_content = content\<rparr>]\<rparr>)"

subsection \<open>Reasoning about lifted handlers\<close>

lemma on_db_ret [simp]: "on_db (ret x) = ret x"
  by (rule ext) (simp add: on_db_def)

lemma on_db_eq: "m (sv_db s) = (r, d) \<Longrightarrow> on_db m s = (r, s\<lparr>sv_db := d\<rparr>)"
  by (simp add: on_db_def)

lemma moves_on_db:
  assumes "moves R m" and "\<And>(s :: service_state) d. R (sv_db s) d \<Longrightarrow> S s (s\<lparr>sv_db := d\<rparr>)"
  shows "moves S (on_db m)"
  unfolding moves_def
proof
  fix s :: service_state
  obtain r d where "m (sv_db s) = (r, d)" by fastforce
  with assms(2) [of s d] movesD [OF assms(1), of "sv_db s"] show "S s (snd (on_db m s))"
    by (simp add: on_db_eq)
qed

text \<open>A step that depends on what the first one promises of its answer.\<close>

context progress
begin

lemma moves_then:
  assumes "moves R m" and "triple (\<lambda>s. True) m (\<lambda>y s. Q y) (\<lambda>e s. True)" and "\<And>y. Q y \<Longrightarrow> moves R (f y)"
  shows "moves R (andthen m f)"
  unfolding moves_def
proof
  fix s
  obtain r t where run: "m s = (r, t)" by fastforce
  with movesD [OF assms(1), of s] have "R s t" by simp
  show "R s (snd (andthen m f s))"
  proof (cases r)
    case (Inl e)
    with run \<open>R s t\<close> show ?thesis by (simp add: andthen_def)
  next
    case (Inr y)
    with triple_Inr [OF assms(2)] run have "Q y" by blast
    from movesD [OF assms(3) [OF this], of t] run Inr \<open>R s t\<close> show ?thesis
      by (auto simp: andthen_def intro: R_trans)
  qed
qed

end

lemma triple_any: "triple P m (\<lambda>y s. True) (\<lambda>e s. True)"
  by (rule tripleI) simp_all

lemma triple_fact: "b \<Longrightarrow> triple P m (\<lambda>y s. b) (\<lambda>e s. True)"
  by (rule tripleI) simp_all

lemma triple_on_db:
  assumes "triple (\<lambda>d. True) m (\<lambda>y d. Q y) (\<lambda>e d. True)"
  shows "triple (\<lambda>s. True) (on_db m) (\<lambda>y s. Q y) (\<lambda>e s. True)"
proof (rule tripleI)
  fix s y t assume "on_db m s = (Inr y, t)"
  then show "Q y" using triple_Inr [OF assms, of "sv_db s" y] by (auto simp: on_db_def split: prod.splits)
qed simp

subsection \<open>Invariants of a handler\<close>

text \<open>\<open>keeps P m\<close> of the prelude, for the calls a service makes.\<close>

lemma keeps_basic:
  "keeps P (ret y)" "keeps P (throw e)" "keeps P (lift_res r)" "keeps P (reading g)" "keeps P (guard_eff b e)"
  by (simp_all add: keeps_def)

lemma keeps_then:
  assumes "keeps P m" and "triple P m (\<lambda>y s. Q y) (\<lambda>e s. True)" and "\<And>y. Q y \<Longrightarrow> keeps P (f y)"
  shows "keeps P (andthen m f)"
  unfolding keeps_def
proof (intro allI impI)
  fix s assume "P s"
  obtain r t where run: "m s = (r, t)" by fastforce
  with keepsD [OF assms(1) \<open>P s\<close>] have "P t" by simp
  show "P (snd (andthen m f s))"
  proof (cases r)
    case (Inl e)
    with run \<open>P t\<close> show ?thesis by (simp add: andthen_def)
  next
    case (Inr y)
    with triple_Inr [OF assms(2) \<open>P s\<close>] run have "Q y" by blast
    from keepsD [OF assms(3) [OF this] \<open>P t\<close>] run Inr show ?thesis by (simp add: andthen_def)
  qed
qed

lemma keeps_read: "(\<And>s. P s \<Longrightarrow> keeps P (f (g s))) \<Longrightarrow> keeps P (andthen (reading g) f)"
  by (auto simp: keeps_def andthen_def)

lemma keeps_for_each: "(\<And>y. y \<in> set xs \<Longrightarrow> keeps P (f y)) \<Longrightarrow> keeps P (for_each f xs)"
  by (induction xs) (auto intro: keeps_basic keeps_andthen)

lemma keeps_seal: "(ci_usable c scheme recipient \<Longrightarrow> keeps P (f (Sealed scheme recipient body))) \<Longrightarrow> keeps P (andthen (seal c scheme recipient body) f)"
  by (auto simp: seal_def keeps_def andthen_def)

lemma keeps_publish:
  "(\<And>s. P s \<Longrightarrow> P (s\<lparr>sv_out := sv_out s @ [\<lparr>pv_relays = rs, pv_kind = k, pv_tags = ts, pv_content = c\<rparr>]\<rparr>)) \<Longrightarrow> keeps P (publish rs k ts c)"
  unfolding publish_def by (rule keeps_modify)

lemma keeps_on_db: "moves R m \<Longrightarrow> (\<And>s d. P s \<Longrightarrow> R (sv_db s) d \<Longrightarrow> P (s\<lparr>sv_db := d\<rparr>)) \<Longrightarrow> keeps P (on_db m)"
  by (auto simp: keeps_def on_db_def split: prod.split) (metis movesD snd_conv)

lemmas keeps_rules = keeps_basic keeps_andthen keeps_catching keeps_option keeps_if keeps_for_each keeps_seal

text \<open>Whatever a handler of the store does, the other columns stay.\<close>

definition columns_still :: "service_state \<Rightarrow> service_state \<Rightarrow> bool" where
  "columns_still s t \<longleftrightarrow> sv_offers t = sv_offers s \<and> sv_subdust t = sv_subdust s \<and> sv_noffer t = sv_noffer s \<and> sv_out t = sv_out s"

interpretation cst: progress columns_still
  by unfold_locales (simp_all add: columns_still_def)

lemma cst_on_db: "moves columns_still (on_db m)"
  by (simp add: moves_def on_db_def columns_still_def split: prod.split)

end
