(* ===== verification/Clink_Offers.thy ===== *)
theory Clink_Offers
  imports Service_State Noffer
begin

text \<open>
  The offer service, \<open>src/clink/offers.ts\<close> and \<open>src/clink/zap.ts\<close>: the stored code, the handler of a request for an
  invoice, and the acknowledgements that follow a payment, the plain receipt and the zap receipt, from the live hook and from
  the reconciler. JSON, event verification and the digest are fields of \<open>clink_world\<close>; a parse yields \<open>None\<close> for the JSON
  value \<open>null\<close>, whose members cannot be read. The text of a history line is a parameter.
\<close>

definition OFFER_KIND :: int where "OFFER_KIND = 21001"
definition ZAP_REQUEST_KIND :: int where "ZAP_REQUEST_KIND = 9734"
definition ZAP_RECEIPT_KIND :: int where "ZAP_RECEIPT_KIND = 9735"
definition CLINK_VERSION :: string where "CLINK_VERSION = ''1''"
definition CLINK_OFFER_ID :: string where "CLINK_OFFER_ID = ''zap_default''"
definition ERR_INVALID_OFFER :: int where "ERR_INVALID_OFFER = 1"
definition ERR_TEMPORARY :: int where "ERR_TEMPORARY = 2"
definition ERR_INVALID_AMOUNT :: int where "ERR_INVALID_AMOUNT = 5"
definition SUBDUST_ACK_TTL_SECONDS :: int where "SUBDUST_ACK_TTL_SECONDS = 24 * 60 * 60"

record offer_request =
  oq_offer :: "string option"
  oq_amount :: "rat option"
  oq_description :: "string option"
  oq_zap :: "string option"

record zap_event =
  ze_kind :: int
  ze_pubkey :: string
  ze_tags :: "string list list option"
  ze_verified :: "err + bool"

record clink_world =
  cx_receive :: receive_world
  cx_landing :: landing_world
  cx_cipher :: cipher
  cx_pub :: string
  cx_parseRequest :: "string \<Rightarrow> err + offer_request option"
  cx_parseZap :: "string \<Rightarrow> err + zap_event option"
  cx_sha256 :: "string \<Rightarrow> string"
  cx_describe :: "clink_receipt \<Rightarrow> string"
  cx_now :: "nat \<Rightarrow> int"

definition clink_now :: "clink_world \<Rightarrow> int service" where
  "clink_now x = on_db (clock_ms (\<lambda>t. cx_now x t div 1000))"

subsection \<open>The stored code\<close>

text \<open>\<open>mint\<close>: from the first relay of the outbox. The boot keeps a code that decodes, under our key and offer id, and
  says whether it has to be saved; the outer option is whether the decoder returns.\<close>

definition mint_offer :: "codecs \<Rightarrow> (string \<Rightarrow> string) \<Rightarrow> string \<Rightarrow> string list \<Rightarrow> string + string \<times> string" where
  "mint_offer c norm_url pub relays = (case relays of
     [] \<Rightarrow> Inl ''clink: no outbox relays available to mint a noffer''
   | r # rs \<Rightarrow> (case nofferEncode c \<lparr>op_pubkey = pub, op_relay = norm_url r, op_offer = CLINK_OFFER_ID,
         op_priceType = Spontaneous, op_price = None\<rparr> of
       Inl e \<Rightarrow> Inl e | Inr code \<Rightarrow> Inr (code, norm_url r)))"

definition boot_offer :: "codecs \<Rightarrow> (string \<Rightarrow> string) \<Rightarrow> string \<Rightarrow> string list \<Rightarrow> string option \<Rightarrow> (string + (string \<times> string) \<times> bool) option" where
  "boot_offer c norm_url pub relays stored =
     (let fresh = (case mint_offer c norm_url pub relays of Inl e \<Rightarrow> Inl e | Inr cur \<Rightarrow> Inr (cur, True)) in
      if \<not> truthy stored then Some fresh
      else (case nofferDecode c (the stored) of
          None \<Rightarrow> None
        | Some (Inl e) \<Rightarrow> Some fresh
        | Some (Inr dec) \<Rightarrow> Some (if op_pubkey dec = pub \<and> op_offer dec = CLINK_OFFER_ID
            then Inr ((the stored, op_relay dec), False) else fresh)))"

definition saveNoffer :: "string \<Rightarrow> unit service" where
  "saveNoffer code = modify (\<lambda>s. s\<lparr>sv_noffer := Some code\<rparr>)"

subsection \<open>Zap requests\<close>

datatype zap_validation = Zap_ok "string list" | Zap_bad string

definition relays_of :: "string list list \<Rightarrow> string list" where
  "relays_of tags = (case find_first (tag_is ''relays'') tags of None \<Rightarrow> [] | Some t \<Rightarrow> tl t)"

definition zap_tags_check :: "string list list \<Rightarrow> int \<Rightarrow> string \<Rightarrow> zap_validation" where
  "zap_tags_check tags amountSats servicePub =
     (let bigP = filter (tag_is ''P'') tags; amount = first_tag ''amount'' tags in
      if length (filter (tag_is ''p'') tags) \<noteq> 1 then Zap_bad ''need exactly 1 p tag''
      else if 1 < length (filter (tag_is ''e'') tags) then Zap_bad ''max 1 e tag''
      else if 1 < length bigP then Zap_bad ''max 1 P tag''
      else if length bigP = 1 \<and> tag_value (hd bigP) \<noteq> Some servicePub then Zap_bad ''P tag is not the service pubkey''
      else if amount \<noteq> None \<and> amount \<noteq> Some (show_int (amountSats * 1000)) then Zap_bad ''amount tag differs''
      else if relays_of tags = [] then Zap_bad ''no relays tag''
      else Zap_ok (relays_of tags))"

text \<open>Reading \<open>kind\<close> of \<open>null\<close> throws, and nothing here catches it.\<close>

definition validateZapRequest :: "clink_world \<Rightarrow> string \<Rightarrow> int \<Rightarrow> string \<Rightarrow> err + zap_validation" where
  "validateZapRequest x zapRequest amountSats servicePub = (case cx_parseZap x zapRequest of
     Inl e \<Rightarrow> Inr (Zap_bad ''not JSON'')
   | Inr None \<Rightarrow> Inl (Error ''null is not an object'')
   | Inr (Some ev) \<Rightarrow> Inr
      (if ze_kind ev \<noteq> ZAP_REQUEST_KIND then Zap_bad ''kind''
       else (case ze_tags ev of None \<Rightarrow> Zap_bad ''no tags''
         | Some tags \<Rightarrow> (if tags = [] then Zap_bad ''no tags''
             else (case ze_verified ev of
                 Inl e \<Rightarrow> Zap_bad ''malformed event (verify threw)''
               | Inr ok \<Rightarrow> (if \<not> ok then Zap_bad ''invalid signature'' else zap_tags_check tags amountSats servicePub))))))"

subsection \<open>The handler of a request\<close>

definition respond_offer :: "clink_world \<Rightarrow> string \<Rightarrow> nostr_event \<Rightarrow> sealed_body \<Rightarrow> unit service" where
  "respond_offer x relay ev body =
     andthen (seal (cx_cipher x) Nip44_v2 (ne_pubkey ev) body) (\<lambda>content.
     publish [relay] OFFER_KIND [[''p'', ne_pubkey ev], [''e'', ne_id ev], [''clink_version'', CLINK_VERSION]] content)"

text \<open>\<open>INSERT ... ON CONFLICT DO NOTHING\<close> into one of the two tables.\<close>

definition add_receipt :: "clink_receipt \<Rightarrow> clink_receipt list \<Rightarrow> clink_receipt list" where
  "add_receipt r rows = (if row_get cr_key (cr_key r) rows = None then rows @ [r] else rows)"

definition receipt_for :: "nostr_event \<Rightarrow> string \<Rightarrow> string \<Rightarrow> string option \<Rightarrow> string \<Rightarrow> int \<Rightarrow> clink_receipt" where
  "receipt_for ev relay key zap invoice now = \<lparr>cr_key = key, cr_payer = ne_pubkey ev, cr_request = ne_id ev, cr_relay = relay,
     cr_zapRequest = zap, cr_zapInvoice = (if zap = None then None else Some invoice), cr_createdAt = now\<rparr>"

definition remember_payer :: "clink_world \<Rightarrow> nostr_event \<Rightarrow> string \<Rightarrow> string option \<Rightarrow> issued \<Rightarrow> unit service" where
  "remember_payer x ev relay zap i = andthen (clink_now x) (\<lambda>now. case is_kind i of
     Subdust_issue s p \<Rightarrow> modify (\<lambda>s. s\<lparr>sv_subdust := add_receipt (receipt_for ev relay (is_paymentHash i) zap (is_invoice i) now) (sv_subdust s)\<rparr>)
   | Swap_issue k \<Rightarrow> modify (\<lambda>s. s\<lparr>sv_offers := add_receipt (receipt_for ev relay k zap (is_invoice i) now) (sv_offers s)\<rparr>))"

definition offer_mint :: "clink_world \<Rightarrow> nostr_event \<Rightarrow> string \<Rightarrow> int \<Rightarrow> string option \<Rightarrow> string option \<Rightarrow> unit service" where
  "offer_mint x ev relay amount description zap =
     andthen (catching (andthen (on_db (issueInvoice (cx_receive x) amount description (map_option (cx_sha256 x) zap))) (\<lambda>i. ret (Inr i)))
        (\<lambda>e. ret (Inl e))) (\<lambda>r. case r of
       Inl e \<Rightarrow> (case e of
           Network_error m \<Rightarrow> respond_offer x relay ev (Offer_error (''Invalid Amount: '' @ (case m of None \<Rightarrow> [] | Some t \<Rightarrow> t)) ERR_INVALID_AMOUNT)
         | _ \<Rightarrow> respond_offer x relay ev (Offer_error ''Temporary Failure'' ERR_TEMPORARY))
     | Inr i \<Rightarrow> andthen (remember_payer x ev relay zap i) (\<lambda>u. respond_offer x relay ev (Bolt11 (is_invoice i))))"

definition usable_zap :: "clink_world \<Rightarrow> string option \<Rightarrow> int \<Rightarrow> err + string option" where
  "usable_zap x zap amount = (if \<not> truthy zap then Inr None
     else (case validateZapRequest x (the zap) amount (cx_pub x) of
         Inl e \<Rightarrow> Inl e | Inr (Zap_ok relays) \<Rightarrow> Inr zap | Inr (Zap_bad why) \<Rightarrow> Inr None))"

definition offer_payload :: "clink_world \<Rightarrow> nostr_event \<Rightarrow> string \<Rightarrow> offer_request \<Rightarrow> unit service" where
  "offer_payload x ev relay q =
     (if oq_offer q \<noteq> Some CLINK_OFFER_ID then respond_offer x relay ev (Offer_error ''Invalid Offer'' ERR_INVALID_OFFER)
      else (case oq_amount q of
          None \<Rightarrow> respond_offer x relay ev (Offer_error ''amount_sats required (positive integer)'' ERR_INVALID_AMOUNT)
        | Some a \<Rightarrow> (if \<not> is_integer a \<or> a \<le> 0
            then respond_offer x relay ev (Offer_error ''amount_sats required (positive integer)'' ERR_INVALID_AMOUNT)
            else andthen (lift_res (usable_zap x (oq_zap q) \<lfloor>a\<rfloor>)) (\<lambda>zap.
              offer_mint x ev relay \<lfloor>a\<rfloor>
                (case oq_description q of None \<Rightarrow> None | Some t \<Rightarrow> if length t \<le> 100 then Some t else None) zap))))"

definition handleOfferRequest :: "clink_world \<Rightarrow> string \<Rightarrow> nostr_event \<Rightarrow> unit service" where
  "handleOfferRequest x relay ev =
     (if list_ex (tag_is ''e'') (ne_tags ev) \<or> first_tag ''clink_version'' (ne_tags ev) \<noteq> Some CLINK_VERSION then ret ()
      else (case ci_decrypt (cx_cipher x) Nip44_v2 (ne_pubkey ev) (ne_content ev) of
          Inl e \<Rightarrow> ret ()
        | Inr plain \<Rightarrow> (case cx_parseRequest x plain of
            Inl e \<Rightarrow> ret ()
          | Inr None \<Rightarrow> throw (Error ''null is not an object'')
          | Inr (Some q) \<Rightarrow> offer_payload x ev relay q)))"

subsection \<open>Acknowledgements\<close>

definition publishReceipt :: "clink_world \<Rightarrow> clink_receipt \<Rightarrow> string option \<Rightarrow> unit service" where
  "publishReceipt x row preimage =
     andthen (seal (cx_cipher x) Nip44_v2 (cr_payer row) (Receipt (if truthy preimage then preimage else None))) (\<lambda>content.
     publish [cr_relay row] OFFER_KIND [[''p'', cr_payer row], [''e'', cr_request row], [''clink_version'', CLINK_VERSION]] content)"

definition zap_receipt_tags :: "zap_event \<Rightarrow> string list list \<Rightarrow> string \<Rightarrow> string \<Rightarrow> string option \<Rightarrow> string list list" where
  "zap_receipt_tags ev tags zapRequest invoice preimage =
     (if truthy (first_tag ''p'' tags) then [[''p'', the (first_tag ''p'' tags)]] else [])
     @ map (take 2) (filter (\<lambda>t. (tag_is ''e'' t \<or> tag_is ''a'' t \<or> tag_is ''k'' t) \<and> tag_value t \<noteq> None) tags)
     @ [[''P'', ze_pubkey ev], [''bolt11'', invoice], [''description'', zapRequest]]
     @ (if truthy preimage then [[''preimage'', the preimage]] else [])"

definition publishZapReceipt :: "clink_world \<Rightarrow> string \<Rightarrow> string \<Rightarrow> string option \<Rightarrow> unit service" where
  "publishZapReceipt x zapRequest invoice preimage = (case cx_parseZap x zapRequest of
     Inl e \<Rightarrow> ret ()
   | Inr None \<Rightarrow> throw (Error ''null is not an object'')
   | Inr (Some ev) \<Rightarrow> (case ze_tags ev of
       None \<Rightarrow> throw (Error ''undefined is not an object'')
     | Some tags \<Rightarrow> (if relays_of tags = [] then ret ()
         else publish (relays_of tags) ZAP_RECEIPT_KIND (zap_receipt_tags ev tags zapRequest invoice preimage) (Clear []))))"

definition ack_out :: "clink_world \<Rightarrow> clink_receipt \<Rightarrow> string option \<Rightarrow> unit service" where
  "ack_out x row preimage =
     andthen (publishReceipt x row preimage) (\<lambda>u.
     if truthy (cr_zapRequest row) \<and> truthy (cr_zapInvoice row)
     then publishZapReceipt x (the (cr_zapRequest row)) (the (cr_zapInvoice row)) preimage else ret ())"

text \<open>Up to the first await: the row is read, the ledger line written, the operator told.\<close>

definition offer_ack_begin :: "clink_world \<Rightarrow> boltz_swap \<Rightarrow> clink_receipt option service" where
  "offer_ack_begin x swap =
     andthen (reading (\<lambda>s. row_get cr_key (bs_id swap) (sv_offers s))) (\<lambda>found. case found of
       None \<Rightarrow> ret None
     | Some row \<Rightarrow>
        andthen (clink_now x) (\<lambda>now.
        andthen (on_db (modify (recordNofferReceive now (bs_id swap) (bs_invoiceAmount swap)
          (case bs_onchainAmount swap of None \<Rightarrow> None | Some n \<Rightarrow> Some (max 0 (bs_invoiceAmount swap - n) * 1000)) (Some (cx_describe x row))))) (\<lambda>u.
        andthen (on_db (modify (notify Recv_noffer))) (\<lambda>u. ret (Some row)))))"

definition offer_ack_end :: "clink_world \<Rightarrow> boltz_swap \<Rightarrow> clink_receipt \<Rightarrow> unit service" where
  "offer_ack_end x swap row =
     andthen (ack_out x row (bs_preimage swap)) (\<lambda>u.
     modify (\<lambda>s. s\<lparr>sv_offers := row_delete cr_key (bs_id swap) (sv_offers s)\<rparr>))"

definition sendOfferReceipt :: "clink_world \<Rightarrow> boltz_swap \<Rightarrow> unit service" where
  "sendOfferReceipt x swap = andthen (offer_ack_begin x swap) (\<lambda>found. case found of
     None \<Rightarrow> ret () | Some row \<Rightarrow> offer_ack_end x swap row)"

definition sendSubdustAck :: "clink_world \<Rightarrow> string \<Rightarrow> bool service" where
  "sendSubdustAck x paymentHash =
     andthen (reading (\<lambda>s. row_get cr_key paymentHash (sv_subdust s))) (\<lambda>found. case found of
       None \<Rightarrow> ret False
     | Some row \<Rightarrow>
        andthen (reading (\<lambda>s. repo_getByPaymentHash (sv_db s) paymentHash)) (\<lambda>swap. case swap of
          None \<Rightarrow> ret False
        | Some s \<Rightarrow> (if s_direction s \<noteq> Receive \<or> s_state s \<noteq> Settled then ret False
            else andthen (clink_now x) (\<lambda>now.
              andthen (on_db (modify (recordNofferReceive now (cr_key row) (s_amount s) (Some 0)
                (Some (cx_describe x row @ '' (sub-dust)''))))) (\<lambda>u.
              andthen (on_db (modify (notify Recv_noffer))) (\<lambda>u.
              andthen (ack_out x row (s_preimage s)) (\<lambda>u.
              andthen (modify (\<lambda>t. t\<lparr>sv_subdust := row_delete cr_key (cr_key row) (sv_subdust t)\<rparr>)) (\<lambda>u.
              ret True))))))))"

subsection \<open>The reconciler\<close>

definition ack_offer :: "clink_world \<Rightarrow> string \<Rightarrow> unit service" where
  "ack_offer x i = andthen (reading (\<lambda>s. row_get bs_id i (boltzSwaps (sv_db s)))) (\<lambda>found. case found of
     None \<Rightarrow> ret ()
   | Some swap \<Rightarrow> (let lib = lw_lib (cx_landing x) in
       if \<not> bl_reverseFinal lib (bs_status swap) then ret ()
       else if bl_reverseSuccess lib (bs_status swap)
       then andthen (on_db (confirmReverseLanded (cx_landing x) swap)) (\<lambda>landed.
            if landed then sendOfferReceipt x swap else ret ())
       else modify (\<lambda>s. s\<lparr>sv_offers := row_delete cr_key i (sv_offers s)\<rparr>)))"

definition ack_subdust :: "clink_world \<Rightarrow> int \<Rightarrow> string \<times> int \<Rightarrow> unit service" where
  "ack_subdust x now row = andthen (sendSubdustAck x (fst row)) (\<lambda>acked.
     if \<not> acked \<and> SUBDUST_ACK_TTL_SECONDS < now - snd row
     then modify (\<lambda>s. s\<lparr>sv_subdust := row_delete cr_key (fst row) (sv_subdust s)\<rparr>) else ret ())"

text \<open>One row failing does not stop the others.\<close>

definition each_caught :: "('a \<Rightarrow> unit service) \<Rightarrow> 'a list \<Rightarrow> unit service" where
  "each_caught f xs = for_each (\<lambda>y. catching (f y) (\<lambda>e. ret ())) xs"

definition reconcileClinkAcks :: "clink_world \<Rightarrow> unit service" where
  "reconcileClinkAcks x =
     andthen (reading (\<lambda>s. map cr_key (sv_offers s))) (\<lambda>ids.
     andthen (each_caught (ack_offer x) ids) (\<lambda>u.
     andthen (clink_now x) (\<lambda>now.
     andthen (reading (\<lambda>s. map (\<lambda>r. (cr_key r, cr_createdAt r)) (sv_subdust s))) (\<lambda>rows.
     each_caught (ack_subdust x now) rows))))"

subsection \<open>Events of the service\<close>

text \<open>The live hook: \<open>index.ts\<close> hands \<open>sendOfferReceipt\<close> to boltz's listener, which calls it when it has settled the swap.\<close>

definition terminal_event :: "clink_world \<Rightarrow> boltz_swap \<Rightarrow> unit service" where
  "terminal_event x swap =
     andthen (reading (\<lambda>s. length (notices (sv_db s)))) (\<lambda>n.
     andthen (on_db (onSwapTerminal (cx_landing x) swap)) (\<lambda>u.
     andthen (reading (\<lambda>s. Reverse_settled (bs_id swap) \<in> set (drop n (notices (sv_db s))))) (\<lambda>hooked.
     if hooked then sendOfferReceipt x swap else ret ())))"

text \<open>The receive pass, followed by the acknowledgement of what it settled.\<close>

definition receive_pass :: "clink_world \<Rightarrow> unit service" where
  "receive_pass x = andthen (on_db (reconcileAtomicReceives (cx_receive x))) (\<lambda>hashes.
     each_caught (\<lambda>h. andthen (sendSubdustAck x h) (\<lambda>b. ret ())) hashes)"

datatype clink_event = Ask string nostr_event | Terminal boltz_swap | Receive_pass | Ack_pass | Store db | Rotate string

fun clink_do :: "clink_world \<Rightarrow> clink_event \<Rightarrow> unit service" where
  "clink_do x (Ask relay ev) = handleOfferRequest x relay ev"
| "clink_do x (Terminal swap) = terminal_event x swap"
| "clink_do x Receive_pass = receive_pass x"
| "clink_do x Ack_pass = reconcileClinkAcks x"
| "clink_do x (Store d) = on_db (modify (\<lambda>old. d))"
| "clink_do x (Rotate code) = saveNoffer code"

inductive clink_reach :: "clink_world \<Rightarrow> service_state \<Rightarrow> bool" for x :: clink_world where
  empty_tables: "clink_reach x \<lparr>sv_db = d, sv_offers = [], sv_subdust = [], sv_noffer = n, sv_out = []\<rparr>"
| clink_next: "clink_reach x s \<Longrightarrow> clink_reach x (snd (clink_do x ev s))"

end
