(* ===== verification/Clink_Safety.thy ===== *)
theory Clink_Safety
  imports Clink_Offers Landing_Safety Ln_Receive_Safety
begin

text \<open>
  What a payer can rely on: a zap receipt verifies against the invoice it names, a receipt goes out only for a payment the
  bridge can prove, every reply goes to the asker. And what the deduplication by deleting the row does not cover.
\<close>

subsection \<open>Which invoice was minted for which request\<close>

definition minted :: "clink_world \<Rightarrow> string \<Rightarrow> int \<Rightarrow> string \<Rightarrow> bool" where
  "minted x invoice amount hash \<longleftrightarrow>
     (\<exists>t desc c. vw_createInvoice (cx_receive x) t amount desc (Some hash) = Inr c \<and> lc_invoice c = invoice)
   \<or> (\<exists>t h k i. w_receiveInit (vw_world (cx_receive x)) t amount h k (Some hash) = Inr i \<and> ri_invoice i = invoice)"

definition zap_checked :: "clink_world \<Rightarrow> string \<Rightarrow> string \<Rightarrow> bool" where
  "zap_checked x z invoice \<longleftrightarrow> (\<exists>amount relays. validateZapRequest x z amount (cx_pub x) = Inr (Zap_ok relays)
     \<and> minted x invoice amount (cx_sha256 x z))"

definition binds :: "clink_world \<Rightarrow> clink_receipt \<Rightarrow> bool" where
  "binds x r \<longleftrightarrow> (\<forall>z. cr_zapRequest r = Some z \<longrightarrow> (\<exists>invoice. cr_zapInvoice r = Some invoice \<and> zap_checked x z invoice))"

lemma minted_atomic:
  "triple (\<lambda>d. True) (issueAtomicReceive w amount (Some hash))
     (\<lambda>r d. hash \<noteq> [] \<longrightarrow> (\<exists>t h k i. w_receiveInit w t amount h k (Some hash) = Inr i \<and> ri_invoice i = vi_invoice r)) (\<lambda>e d. True)"
  unfolding issueAtomicReceive_def Let_def
  apply (rule triple_andthen [OF triple_any], rule triple_andthen [OF triple_any])
  apply (rule triple_andthen [OF triple_any], rule triple_andthen [OF triple_any])
  subgoal for info u preimage user
    apply (rule triple_andthen [where R = "\<lambda>i d. hash \<noteq> [] \<longrightarrow> (\<exists>t h k. w_receiveInit w t amount h k (Some hash) = Inr i)"])
     apply (rule triple_await; fastforce simp: truthy_def)
    apply (rule tripleI)
     apply (auto simp: truthy_def elim!: andthen_InrE, blast)
    done
  done

lemma minted_issue:
  "triple (\<lambda>d. True) (issueInvoice (cx_receive x) amount desc (Some hash))
     (\<lambda>i d. hash \<noteq> [] \<longrightarrow> minted x (is_invoice i) amount hash) (\<lambda>e d. True)"
  unfolding issueInvoice_def
proof (rule triple_if)
  show "triple (\<lambda>d. True) (andthen (issueAtomicReceive (vw_world (cx_receive x)) amount (Some hash)) (\<lambda>r.
      andthen (lift_res (absoluteExpiry (cx_receive x) (vi_invoice r))) (\<lambda>expiresAt.
      ret \<lparr>is_kind = Subdust_issue (vi_swapId r) (vi_preimage r), is_invoice = vi_invoice r,
        is_paymentHash = vi_paymentHash r, is_expiresAt = expiresAt, is_receivedSats = amount\<rparr>)))
     (\<lambda>i d. hash \<noteq> [] \<longrightarrow> minted x (is_invoice i) amount hash) (\<lambda>e d. True)"
    apply (rule triple_andthen [OF minted_atomic])
    subgoal for r
      by (rule triple_andthen [where R = "\<lambda>y d. hash \<noteq> [] \<longrightarrow> minted x (vi_invoice r) amount hash"])
        (auto intro!: triple_lift triple_ret simp: minted_def)
    done
next
  show "triple (\<lambda>d. True) (andthen (await (\<lambda>t. vw_createInvoice (cx_receive x) t amount desc (Some hash))) (\<lambda>r.
      andthen (lift_res (absoluteExpiry (cx_receive x) (lc_invoice r))) (\<lambda>expiresAt.
      ret \<lparr>is_kind = Swap_issue (lc_swapId r), is_invoice = lc_invoice r,
        is_paymentHash = lc_paymentHash r, is_expiresAt = expiresAt, is_receivedSats = lc_amount r\<rparr>)))
     (\<lambda>i d. hash \<noteq> [] \<longrightarrow> minted x (is_invoice i) amount hash) (\<lambda>e d. True)"
    apply (rule triple_andthen [where R = "\<lambda>r d. minted x (lc_invoice r) amount hash"])
     apply (rule triple_await; auto simp: minted_def)
    subgoal for r
      by (rule triple_andthen [where R = "\<lambda>y d. minted x (lc_invoice r) amount hash"]) (auto intro!: triple_lift triple_ret)
    done
qed

subsection \<open>What an acknowledgement publishes\<close>

definition plain_ack :: "clink_receipt \<Rightarrow> string option \<Rightarrow> publication" where
  "plain_ack row preimage = \<lparr>pv_relays = [cr_relay row], pv_kind = OFFER_KIND,
     pv_tags = [[''p'', cr_payer row], [''e'', cr_request row], [''clink_version'', CLINK_VERSION]],
     pv_content = Sealed Nip44_v2 (cr_payer row) (Receipt (if truthy preimage then preimage else None))\<rparr>"

definition zap_ack :: "clink_world \<Rightarrow> clink_receipt \<Rightarrow> string option \<Rightarrow> publication \<Rightarrow> bool" where
  "zap_ack x row preimage p \<longleftrightarrow> (\<exists>z invoice ev tags. cr_zapRequest row = Some z \<and> cr_zapInvoice row = Some invoice
     \<and> cx_parseZap x z = Inr (Some ev) \<and> ze_tags ev = Some tags \<and> relays_of tags \<noteq> []
     \<and> p = \<lparr>pv_relays = relays_of tags, pv_kind = ZAP_RECEIPT_KIND, pv_tags = zap_receipt_tags ev tags z invoice preimage,
             pv_content = Clear []\<rparr>)"

definition acks_row :: "clink_world \<Rightarrow> clink_receipt \<Rightarrow> string option \<Rightarrow> publication \<Rightarrow> bool" where
  "acks_row x row preimage p \<longleftrightarrow> p = plain_ack row preimage \<or> zap_ack x row preimage p"

text \<open>What an invariant has to allow for the acknowledgements to keep it.\<close>

definition swaps_still :: "db \<Rightarrow> db \<Rightarrow> bool" where
  "swaps_still d t \<longleftrightarrow> swaps t = swaps d \<and> boltzSwaps t = boltzSwaps d"

interpretation sws: progress swaps_still
  by unfold_locales (simp_all add: swaps_still_def)

locale ack_keeper =
  fixes x :: clink_world and P :: "service_state \<Rightarrow> bool" and may_ack :: "boltz_swap \<Rightarrow> bool"
  assumes books: "P s \<Longrightarrow> swaps_still (sv_db s) d \<Longrightarrow> P (s\<lparr>sv_db := d\<rparr>)"
    and drop_offer: "P s \<Longrightarrow> P (s\<lparr>sv_offers := row_delete cr_key k (sv_offers s)\<rparr>)"
    and drop_subdust: "P s \<Longrightarrow> P (s\<lparr>sv_subdust := row_delete cr_key k (sv_subdust s)\<rparr>)"
    and offer_pub: "P s \<Longrightarrow> row_get cr_key (bs_id swap) (sv_offers s) = Some row \<Longrightarrow> may_ack swap
      \<Longrightarrow> acks_row x row (bs_preimage swap) p \<Longrightarrow> P t \<Longrightarrow> P (t\<lparr>sv_out := sv_out t @ [p]\<rparr>)"
    and subdust_pub: "P s \<Longrightarrow> row_get cr_key h (sv_subdust s) = Some row \<Longrightarrow> repo_getByPaymentHash (sv_db s') h = Some sw \<Longrightarrow> P s'
      \<Longrightarrow> s_direction sw = Receive \<Longrightarrow> s_state sw = Settled \<Longrightarrow> acks_row x row (s_preimage sw) p \<Longrightarrow> P t
      \<Longrightarrow> P (t\<lparr>sv_out := sv_out t @ [p]\<rparr>)"
    and success: "P s \<Longrightarrow> swap \<in> set (boltzSwaps (sv_db s)) \<Longrightarrow> bl_reverseSuccess (lw_lib (cx_landing x)) (bs_status swap)
      \<Longrightarrow> landing_evidence (cx_landing x) swap \<Longrightarrow> may_ack swap"
begin

lemma keeps_now: "keeps P (clink_now x)"
  unfolding clink_now_def by (rule keeps_on_db [of swaps_still]) (auto simp: clock_ms_def sws.moves_reading intro: books)

lemma keeps_write: "(\<And>d. swaps_still d (f d)) \<Longrightarrow> keeps P (on_db (modify f))"
  by (rule keeps_on_db [of swaps_still]) (auto intro: sws.moves_modify books)

lemma keeps_history: "keeps P (on_db (modify (recordNofferReceive now ref amount fees desc)))"
  by (rule keeps_write) (simp add: swaps_still_def recordNofferReceive_def history_insert_def)

lemma keeps_notify: "keeps P (on_db (modify (notify n)))"
  by (rule keeps_write) (simp add: swaps_still_def)

lemma keeps_ack_out:
  assumes "\<And>t p. acks_row x row pre p \<Longrightarrow> P t \<Longrightarrow> P (t\<lparr>sv_out := sv_out t @ [p]\<rparr>)"
  shows "keeps P (ack_out x row pre)"
proof -
  have "keeps P (publishReceipt x row pre)"
    unfolding publishReceipt_def using assms by (intro keeps_seal keeps_publish) (simp add: acks_row_def plain_ack_def)
  moreover have "keeps P (publishZapReceipt x (the (cr_zapRequest row)) (the (cr_zapInvoice row)) pre)"
    if set: "truthy (cr_zapRequest row)" "truthy (cr_zapInvoice row)"
  proof -
    obtain z i where zi: "cr_zapRequest row = Some z" "cr_zapInvoice row = Some i" using set by (cases "cr_zapRequest row"; cases "cr_zapInvoice row") (auto simp: truthy_def)
    show ?thesis
      unfolding publishZapReceipt_def using assms zi
      by (auto split: sum.split option.split intro!: keeps_basic keeps_publish simp: acks_row_def zap_ack_def)
  qed
  ultimately show ?thesis unfolding ack_out_def by (intro keeps_rules) auto
qed

lemma keeps_offer:
  assumes "may_ack swap"
  shows "keeps P (sendOfferReceipt x swap)"
proof -
  have "keeps P (offer_ack_end x swap row)" if "P s" "row_get cr_key (bs_id swap) (sv_offers s) = Some row" for s row
    unfolding offer_ack_end_def using offer_pub [OF that assms] by (intro keeps_andthen keeps_ack_out keeps_modify drop_offer) auto
  then have "keeps P (case found of None \<Rightarrow> ret () | Some row \<Rightarrow> offer_ack_end x swap row)"
    if "\<forall>row. found = Some row \<longrightarrow> (\<exists>s. P s \<and> row_get cr_key (bs_id swap) (sv_offers s) = Some row)" for found
    using that by (intro keeps_option keeps_basic) auto
  moreover have "triple P (offer_ack_begin x swap) (\<lambda>found s. \<forall>row. found = Some row \<longrightarrow> (\<exists>s. P s \<and> row_get cr_key (bs_id swap) (sv_offers s) = Some row)) (\<lambda>e s. True)"
    by (rule tripleI) (auto simp: offer_ack_begin_def clink_now_def on_db_def andthen_def split: option.splits prod.splits sum.splits)
  moreover have "keeps P (offer_ack_begin x swap)"
    unfolding offer_ack_begin_def by (intro keeps_rules keeps_now keeps_history keeps_notify)
  ultimately show ?thesis unfolding sendOfferReceipt_def by (intro keeps_then)
qed

lemma keeps_subdust: "keeps P (sendSubdustAck x h)"
proof -
  have out: "keeps P (ack_out x row (s_preimage sw))"
    if "P s" "row_get cr_key h (sv_subdust s) = Some row" "P s'" "repo_getByPaymentHash (sv_db s') h = Some sw" "s_direction sw = Receive" "s_state sw = Settled"
    for s s' row sw
    using subdust_pub [OF that(1,2,4,3,5,6)] by (intro keeps_ack_out) auto
  show ?thesis
    unfolding sendSubdustAck_def
    by (intro keeps_read keeps_option keeps_if keeps_andthen keeps_basic keeps_now keeps_history keeps_notify keeps_modify drop_subdust)
      (auto intro: out)
qed

lemma keeps_ack_offer: "keeps P (ack_offer x i)"
proof -
  have land: "keeps P (andthen (on_db (confirmReverseLanded (cx_landing x) swap)) (\<lambda>landed. if landed then sendOfferReceipt x swap else ret ()))"
    if "P s" "row_get bs_id i (boltzSwaps (sv_db s)) = Some swap" "bl_reverseSuccess (lw_lib (cx_landing x)) (bs_status swap)" for s swap
  proof (rule keeps_then [where Q = "\<lambda>b. b \<longrightarrow> may_ack swap"])
    show "keeps P (on_db (confirmReverseLanded (cx_landing x) swap))"
      by (rule keeps_on_db [OF moves_confirm]) (auto simp: only_ticks_def swaps_still_def intro: books)
    have "swap \<in> set (boltzSwaps (sv_db s))" using that(2) by (auto simp: row_get_def dest: find_first_Some)
    then show "triple P (on_db (confirmReverseLanded (cx_landing x) swap)) (\<lambda>b s. b \<longrightarrow> may_ack swap) (\<lambda>e s. True)"
      using triple_on_db [OF confirm_evidence, of "cx_landing x" swap] success [OF that(1) _ that(3)]
      by (auto intro: triple_conseq)
    show "keeps P (if b then sendOfferReceipt x swap else ret ())" if "b \<longrightarrow> may_ack swap" for b
      using that by (auto intro: keeps_offer keeps_basic)
  qed
  show ?thesis
    unfolding ack_offer_def Let_def
    by (intro keeps_read keeps_option keeps_if keeps_basic keeps_modify drop_offer) (auto intro: land)
qed

lemma keeps_reconcile: "keeps P (reconcileClinkAcks x)"
  unfolding reconcileClinkAcks_def each_caught_def ack_subdust_def
  by (intro keeps_andthen keeps_for_each keeps_catching keeps_if keeps_basic keeps_now keeps_subdust keeps_ack_offer keeps_modify drop_subdust)

end

subsection \<open>Zap receipts verify\<close>

definition zap_bound :: "clink_world \<Rightarrow> publication \<Rightarrow> bool" where
  "zap_bound x p \<longleftrightarrow> (\<exists>z invoice amount relays. validateZapRequest x z amount (cx_pub x) = Inr (Zap_ok relays)
     \<and> minted x invoice amount (cx_sha256 x z) \<and> pv_relays p = relays
     \<and> [''description'', z] \<in> set (pv_tags p) \<and> [''bolt11'', invoice] \<in> set (pv_tags p))"

definition zap_inv :: "clink_world \<Rightarrow> service_state \<Rightarrow> bool" where
  "zap_inv x s \<longleftrightarrow> (\<forall>r \<in> set (sv_offers s) \<union> set (sv_subdust s). binds x r)
     \<and> (\<forall>p \<in> set (sv_out s). pv_kind p = ZAP_RECEIPT_KIND \<longrightarrow> zap_bound x p)"

lemma Zap_ok_relays:
  "validateZapRequest x z amount pub = Inr (Zap_ok relays) \<Longrightarrow> cx_parseZap x z = Inr (Some ev) \<Longrightarrow> ze_tags ev = Some tags
   \<Longrightarrow> relays = relays_of tags"
  by (auto simp: validateZapRequest_def zap_tags_check_def Let_def split: sum.splits if_splits)

lemma acks_bound:
  assumes "binds x row" and "acks_row x row pre p" and "pv_kind p = ZAP_RECEIPT_KIND"
  shows "zap_bound x p"
proof -
  have "zap_ack x row pre p"
    using assms(2,3) by (auto simp: acks_row_def plain_ack_def OFFER_KIND_def ZAP_RECEIPT_KIND_def)
  then obtain z invoice ev tags where z: "cr_zapRequest row = Some z" "cr_zapInvoice row = Some invoice" "cx_parseZap x z = Inr (Some ev)"
      "ze_tags ev = Some tags" "p = \<lparr>pv_relays = relays_of tags, pv_kind = ZAP_RECEIPT_KIND, pv_tags = zap_receipt_tags ev tags z invoice pre,
        pv_content = Clear []\<rparr>"
    by (auto simp: zap_ack_def)
  with assms(1) obtain amount relays where "validateZapRequest x z amount (cx_pub x) = Inr (Zap_ok relays)" "minted x invoice amount (cx_sha256 x z)"
    by (auto simp: binds_def zap_checked_def)
  with z Zap_ok_relays [of x z amount "cx_pub x" relays ev tags] show ?thesis
    unfolding zap_bound_def
    by (intro exI [of _ z] exI [of _ invoice] exI [of _ amount] exI [of _ relays]) (simp add: zap_receipt_tags_def)
qed

lemma row_get_member: "row_get key k rows = Some r \<Longrightarrow> r \<in> set rows"
  by (auto simp: row_get_def dest: find_first_Some)

interpretation zaps: ack_keeper x "zap_inv x" "\<lambda>swap. True" for x
proof
  fix s t :: service_state and row p and swap :: boltz_swap
  assume "zap_inv x s" "row_get cr_key (bs_id swap) (sv_offers s) = Some row" "acks_row x row (bs_preimage swap) p" "zap_inv x t"
  then show "zap_inv x (t\<lparr>sv_out := sv_out t @ [p]\<rparr>)"
    using acks_bound [of x row _ p] row_get_member by (fastforce simp: zap_inv_def)
next
  fix s s' t :: service_state and row h p sw
  assume "zap_inv x s" "row_get cr_key h (sv_subdust s) = Some row" "acks_row x row (s_preimage sw) p" "zap_inv x t"
  then show "zap_inv x (t\<lparr>sv_out := sv_out t @ [p]\<rparr>)"
    using acks_bound [of x row _ p] row_get_member by (fastforce simp: zap_inv_def)
qed (auto simp: zap_inv_def row_delete_def)

lemma zap_reply: "keeps (zap_inv x) (respond_offer x relay ev body)"
  unfolding respond_offer_def
  by (intro keeps_seal keeps_publish) (simp add: zap_inv_def OFFER_KIND_def ZAP_RECEIPT_KIND_def)

lemma zap_remember:
  assumes "\<And>z. zap = Some z \<Longrightarrow> zap_checked x z (is_invoice i)"
  shows "keeps (zap_inv x) (remember_payer x ev relay zap i)"
proof -
  have "binds x (receipt_for ev relay key zap (is_invoice i) now)" for key now
    using assms by (auto simp: binds_def receipt_for_def)
  then have "zap_inv x (s\<lparr>sv_offers := add_receipt (receipt_for ev relay key zap (is_invoice i) now) (sv_offers s)\<rparr>)"
    "zap_inv x (s\<lparr>sv_subdust := add_receipt (receipt_for ev relay key zap (is_invoice i) now) (sv_subdust s)\<rparr>)"
    if "zap_inv x s" for s key now
    using that by (auto simp: zap_inv_def add_receipt_def)
  then show ?thesis
    unfolding remember_payer_def
    by (intro keeps_andthen zaps.keeps_now) (auto split: issue_kind.split intro!: keeps_modify)
qed

lemma zap_db: "keeps (zap_inv x) (on_db m)"
  by (auto simp: keeps_def on_db_def zap_inv_def split: prod.split)

lemma usable_zap_checked:
  "usable_zap x zap amount = Inr (Some z) \<Longrightarrow> \<exists>relays. validateZapRequest x z amount (cx_pub x) = Inr (Zap_ok relays)"
  by (auto simp: usable_zap_def truthy_def split: if_splits sum.splits zap_validation.splits option.splits)

lemma zap_mint:
  assumes "\<And>z. cx_sha256 x z \<noteq> []" and "\<And>z. zap = Some z \<Longrightarrow> \<exists>relays. validateZapRequest x z amount (cx_pub x) = Inr (Zap_ok relays)"
  shows "keeps (zap_inv x) (offer_mint x ev relay amount description zap)"
  unfolding offer_mint_def
proof (rule keeps_then)
  let ?Q = "\<lambda>i. \<forall>z. zap = Some z \<longrightarrow> zap_checked x z (is_invoice i)"
  show "keeps (zap_inv x) (catching (andthen (on_db (issueInvoice (cx_receive x) amount description (map_option (cx_sha256 x) zap))) (\<lambda>i. ret (Inr i)))
      (\<lambda>e. ret (Inl e)))"
    by (intro keeps_rules zap_db)
  have "triple (\<lambda>s. True) (on_db (issueInvoice (cx_receive x) amount description (map_option (cx_sha256 x) zap))) (\<lambda>i s. ?Q i) (\<lambda>e s. True)"
  proof (cases zap)
    case None
    then show ?thesis by (simp add: triple_any)
  next
    case (Some z)
    show ?thesis
      using triple_on_db [OF minted_issue, of x amount description "cx_sha256 x z"] assms Some
      by (auto simp: zap_checked_def intro: triple_conseq)
  qed
  then have "triple (\<lambda>s. True) (catching (andthen (on_db (issueInvoice (cx_receive x) amount description (map_option (cx_sha256 x) zap))) (\<lambda>i. ret (Inr i)))
      (\<lambda>e. ret (Inl e))) (\<lambda>r s. \<forall>i. r = Inr i \<longrightarrow> ?Q i) (\<lambda>e s. True)"
    by (intro triple_catching [where F = "\<lambda>e s. True"] triple_andthen [where R = "\<lambda>i s. ?Q i"]) (auto intro: triple_ret)
  then show "triple (zap_inv x) (catching (andthen (on_db (issueInvoice (cx_receive x) amount description (map_option (cx_sha256 x) zap))) (\<lambda>i. ret (Inr i)))
      (\<lambda>e. ret (Inl e))) (\<lambda>r s. \<forall>i. r = Inr i \<longrightarrow> ?Q i) (\<lambda>e s. True)"
    by (rule triple_pre) simp
  show "keeps (zap_inv x) (case r of
       Inl e \<Rightarrow> (case e of
           Network_error m \<Rightarrow> respond_offer x relay ev (Offer_error (''Invalid Amount: '' @ (case m of None \<Rightarrow> [] | Some t \<Rightarrow> t)) ERR_INVALID_AMOUNT)
         | _ \<Rightarrow> respond_offer x relay ev (Offer_error ''Temporary Failure'' ERR_TEMPORARY))
     | Inr i \<Rightarrow> andthen (remember_payer x ev relay zap i) (\<lambda>u. respond_offer x relay ev (Bolt11 (is_invoice i))))"
    if "\<forall>i. r = Inr i \<longrightarrow> ?Q i" for r
    using that by (auto split: sum.split err.split intro!: keeps_andthen zap_reply zap_remember)
qed

lemma zap_request:
  assumes "\<And>z. cx_sha256 x z \<noteq> []"
  shows "keeps (zap_inv x) (handleOfferRequest x relay ev)"
proof -
  have "keeps (zap_inv x) (andthen (lift_res (usable_zap x zap amount)) (\<lambda>zap. offer_mint x ev relay amount description zap))"
    for zap amount description
    by (rule keeps_then [where Q = "\<lambda>y. \<forall>z. y = Some z \<longrightarrow> (\<exists>relays. validateZapRequest x z amount (cx_pub x) = Inr (Zap_ok relays))"])
      (auto intro!: keeps_basic zap_mint assms triple_lift dest: usable_zap_checked)
  then show ?thesis
    unfolding handleOfferRequest_def offer_payload_def
    by (auto split: sum.split option.split intro!: keeps_basic zap_reply)
qed

text \<open>C26: in every state the offer service reaches, whatever requests arrive and whatever the other components write, a
  kind-9735 receipt that went out names in its \<open>description\<close> a zap request that passed validation and in its \<open>bolt11\<close> an
  invoice that was minted for the validated amount with the digest of that very request as its description hash, and it went to
  the relays of the request.\<close>

theorem zap_receipts_verify:
  assumes "clink_reach x s" and "\<And>z. cx_sha256 x z \<noteq> []" and "p \<in> set (sv_out s)" and "pv_kind p = ZAP_RECEIPT_KIND"
  shows "\<exists>z invoice amount relays. validateZapRequest x z amount (cx_pub x) = Inr (Zap_ok relays)
     \<and> minted x invoice amount (cx_sha256 x z) \<and> pv_relays p = relays
     \<and> [''description'', z] \<in> set (pv_tags p) \<and> [''bolt11'', invoice] \<in> set (pv_tags p)"
proof -
  from assms(1) have "zap_inv x s"
  proof induction
    case (empty_tables d n)
    show ?case by (simp add: zap_inv_def)
  next
    case (clink_next s ev)
    have "keeps (zap_inv x) (clink_do x ev)"
    proof (cases ev)
      case (Ask relay nev)
      then show ?thesis by (simp add: zap_request assms(2))
    next
      case (Terminal swap)
      then show ?thesis by (auto simp: terminal_event_def intro!: keeps_rules zap_db zaps.keeps_offer)
    next
      case Receive_pass
      then show ?thesis by (auto simp: receive_pass_def each_caught_def intro!: keeps_rules zap_db zaps.keeps_subdust)
    next
      case Ack_pass
      then show ?thesis by (simp add: zaps.keeps_reconcile)
    next
      case (Store d)
      then show ?thesis by (simp add: zap_db)
    next
      case (Rotate code)
      then show ?thesis by (auto simp: saveNoffer_def zap_inv_def intro: keeps_modify)
    qed
    with clink_next.IH show ?case by (rule keepsD [rotated])
  qed
  with assms(3,4) show ?thesis by (simp add: zap_inv_def zap_bound_def)
qed

subsection \<open>A receipt needs a payment\<close>

definition candidates :: "boltz_swap set \<Rightarrow> service_state \<Rightarrow> boltz_swap set" where
  "candidates extra s = set (boltzSwaps (sv_db s)) \<union> extra"

definition paid_swap :: "clink_world \<Rightarrow> boltz_swap \<Rightarrow> bool" where
  "paid_swap x swap \<longleftrightarrow> bl_reverseSuccess (lw_lib (cx_landing x)) (bs_status swap) \<and> landing_evidence (cx_landing x) swap"

definition evidenced :: "clink_world \<Rightarrow> boltz_swap set \<Rightarrow> service_state \<Rightarrow> publication \<Rightarrow> bool" where
  "evidenced x extra s p \<longleftrightarrow>
     (\<exists>row \<in> set (sv_offers s). \<exists>swap \<in> candidates extra s. cr_key row = bs_id swap \<and> paid_swap x swap \<and> acks_row x row (bs_preimage swap) p)
   \<or> (\<exists>row \<in> set (sv_subdust s). \<exists>sw. repo_getByPaymentHash (sv_db s) (cr_key row) = Some sw \<and> s_direction sw = Receive \<and> s_state sw = Settled
        \<and> acks_row x row (s_preimage sw) p)"

definition acked :: "clink_world \<Rightarrow> boltz_swap set \<Rightarrow> service_state \<Rightarrow> service_state \<Rightarrow> bool" where
  "acked x extra s t \<longleftrightarrow> set (sv_offers t) \<subseteq> set (sv_offers s) \<and> set (sv_subdust t) \<subseteq> set (sv_subdust s) \<and> swaps_still (sv_db s) (sv_db t)
     \<and> (\<exists>ps. sv_out t = sv_out s @ ps \<and> (\<forall>p \<in> set ps. evidenced x extra s p))"

lemma acked_refl: "acked x extra s s"
  by (simp add: acked_def swaps_still_def)

lemma acked_pub: "acked x extra s t \<Longrightarrow> evidenced x extra s p \<Longrightarrow> acked x extra s (t\<lparr>sv_out := sv_out t @ [p]\<rparr>)"
  by (force simp: acked_def)

lemma row_get_keyed: "row_get key k rows = Some r \<Longrightarrow> key r = k"
  by (auto simp: row_get_def dest: find_first_Some)

interpretation evd: ack_keeper x "acked x extra s0" "\<lambda>swap. swap \<in> candidates extra s0 \<and> paid_swap x swap" for x extra s0
proof
  fix s t :: service_state and row p and swap :: boltz_swap
  assume a: "acked x extra s0 s" "row_get cr_key (bs_id swap) (sv_offers s) = Some row" "swap \<in> candidates extra s0 \<and> paid_swap x swap"
    "acks_row x row (bs_preimage swap) p" "acked x extra s0 t"
  have "row \<in> set (sv_offers s0)" "cr_key row = bs_id swap"
    using row_get_member [OF a(2)] row_get_keyed [OF a(2)] a(1) by (auto simp: acked_def)
  then have "evidenced x extra s0 p" using a(3,4) unfolding evidenced_def by blast
  with a(5) show "acked x extra s0 (t\<lparr>sv_out := sv_out t @ [p]\<rparr>)" by (rule acked_pub)
next
  fix s s' t :: service_state and row h p sw
  assume a: "acked x extra s0 s" "row_get cr_key h (sv_subdust s) = Some row" "repo_getByPaymentHash (sv_db s') h = Some sw" "acked x extra s0 s'"
    "s_direction sw = Receive" "s_state sw = Settled" "acks_row x row (s_preimage sw) p" "acked x extra s0 t"
  have "repo_getByPaymentHash (sv_db s0) h = Some sw" using a(3,4) by (simp add: acked_def swaps_still_def repo_getByPaymentHash_def)
  moreover have "row \<in> set (sv_subdust s0)" "cr_key row = h"
    using row_get_member [OF a(2)] row_get_keyed [OF a(2)] a(1) by (auto simp: acked_def)
  ultimately have "evidenced x extra s0 p" using a(5-7) unfolding evidenced_def by blast
  with a(8) show "acked x extra s0 (t\<lparr>sv_out := sv_out t @ [p]\<rparr>)" by (rule acked_pub)
qed (auto simp: acked_def row_delete_def swaps_still_def candidates_def paid_swap_def)

lemma terminal_still: "moves swaps_still (onSwapTerminal w swap)"
proof -
  have land: "moves swaps_still (confirmReverseLanded w swap)"
    using moves_confirm by (rule moves_weaken) (auto simp: only_ticks_def swaps_still_def)
  have sync: "moves swaps_still (modify (syncSwapToDb swap ok msg now))" for ok msg now
    by (rule sws.moves_modify) (simp add: swaps_still_def syncSwapToDb_def Let_def update_txs_def split: boltz_kind.split)
  have tell: "moves swaps_still (modify (notify n))" for n
    by (rule sws.moves_modify) (simp add: swaps_still_def)
  have clock: "moves swaps_still (now_sec w)"
    unfolding now_sec_def clock_ms_def by (rule sws.moves_reading)
  show ?thesis
    unfolding onSwapTerminal_def
    by (auto split: boltz_kind.split intro!: sws.moves_rules land sync tell clock)
qed

lemma hook_needs_landing:
  "triple (\<lambda>d. notices d = ns) (onSwapTerminal w swap)
     (\<lambda>u d. Reverse_settled (bs_id swap) \<in> set (drop (length ns) (notices d)) \<longrightarrow>
        bl_reverseSuccess (lw_lib w) (bs_status swap) \<and> landing_evidence w swap) (\<lambda>e d. True)"
proof (rule tripleI)
  fix d u t
  assume start: "notices d = ns" and run: "onSwapTerminal w swap d = (Inr u, t)"
  show "Reverse_settled (bs_id swap) \<in> set (drop (length ns) (notices t)) \<longrightarrow> bl_reverseSuccess (lw_lib w) (bs_status swap) \<and> landing_evidence w swap"
  proof (cases "bs_kind swap = Reverse \<and> bl_reverseSuccess (lw_lib w) (bs_status swap)")
    case False
    with run start show ?thesis
      by (auto simp: onSwapTerminal_def now_sec_def clock_ms_def syncSwapToDb_def Let_def update_txs_def
          split: boltz_kind.splits if_splits elim!: andthen_InrE)
  next
    case True
    obtain r e where land: "confirmReverseLanded w swap d = (r, e)" by fastforce
    have "only_ticks d e" using movesD [OF moves_confirm [of w swap], of d] land by simp
    then have same: "notices e = ns" using start by (auto dest: only_ticksD)
    show ?thesis
    proof (cases r)
      case (Inl err)
      with True run land show ?thesis by (simp add: onSwapTerminal_def andthen_def)
    next
      case (Inr b)
      then have "b \<longrightarrow> landing_evidence w swap" using triple_Inr [OF confirm_evidence] land by blast
      with True run land Inr same show ?thesis
        by (cases b) (auto simp: onSwapTerminal_def andthen_def)
    qed
  qed
qed simp

lemma acked_terminal: "acked x {swap} s (snd (terminal_event x swap s))"
proof -
  let ?w = "cx_landing x"
  obtain r d where run: "onSwapTerminal ?w swap (sv_db s) = (r, d)" by fastforce
  let ?s = "s\<lparr>sv_db := d\<rparr>"
  have still: "swaps_still (sv_db s) d" using movesD [OF terminal_still [of ?w swap], of "sv_db s"] run by simp
  then have mid: "acked x {swap} s ?s" by (simp add: acked_def)
  show ?thesis
  proof (cases r)
    case (Inl e)
    with run mid show ?thesis by (simp add: terminal_event_def andthen_def on_db_def)
  next
    case (Inr u)
    let ?hooked = "Reverse_settled (bs_id swap) \<in> set (drop (length (notices (sv_db s))) (notices d))"
    have end_state: "snd (terminal_event x swap s) = snd ((if ?hooked then sendOfferReceipt x swap else ret ()) ?s)"
      using run Inr by (simp add: terminal_event_def andthen_def on_db_def)
    have "keeps (acked x {swap} s) (if ?hooked then sendOfferReceipt x swap else ret ())"
    proof (rule keeps_if)
      assume ?hooked
      then have "paid_swap x swap"
        using triple_Inr [OF hook_needs_landing, of "sv_db s" "notices (sv_db s)"] run [unfolded Inr] by (simp add: paid_swap_def)
      then show "keeps (acked x {swap} s) (sendOfferReceipt x swap)"
        by (intro evd.keeps_offer) (simp add: candidates_def)
    qed (rule keeps_basic)
    from keepsD [OF this mid] show ?thesis unfolding end_state .
  qed
qed

text \<open>C27: an acknowledgement goes out only for a payment that can be shown. Whatever the terminal event of a swap, the
  reconciler or the acknowledgement of one sub-dust receive publishes is the receipt, or the zap receipt, of a row the service kept
  for that payment, with the preimage of the swap behind it: a reverse swap with a success status whose lockup the indexer showed
  spent into the wallet, or a receive that stands settled in the store.\<close>

theorem receipts_need_payment:
  assumes "(extra = {swap} \<and> s' = snd (terminal_event x swap s)) \<or> (extra = {} \<and> s' = snd (reconcileClinkAcks x s))
    \<or> (extra = {} \<and> s' = snd (sendSubdustAck x h s))"
  shows "\<exists>ps. sv_out s' = sv_out s @ ps \<and> (\<forall>p \<in> set ps.
     (\<exists>row \<in> set (sv_offers s). \<exists>swap \<in> set (boltzSwaps (sv_db s)) \<union> extra. cr_key row = bs_id swap
        \<and> bl_reverseSuccess (lw_lib (cx_landing x)) (bs_status swap) \<and> landing_evidence (cx_landing x) swap
        \<and> (p = plain_ack row (bs_preimage swap) \<or> zap_ack x row (bs_preimage swap) p))
   \<or> (\<exists>row \<in> set (sv_subdust s). \<exists>sw. repo_getByPaymentHash (sv_db s) (cr_key row) = Some sw \<and> s_direction sw = Receive \<and> s_state sw = Settled
        \<and> (p = plain_ack row (s_preimage sw) \<or> zap_ack x row (s_preimage sw) p)))"
proof -
  have "acked x extra s s'"
    using assms acked_terminal keepsD [OF evd.keeps_reconcile acked_refl] keepsD [OF evd.keeps_subdust acked_refl] by auto
  then show ?thesis by (auto simp: acked_def evidenced_def candidates_def paid_swap_def acks_row_def)
qed

subsection \<open>Once\<close>

text \<open>Deleting the row deduplicates what comes one after the other, but not what overlaps. An acknowledgement that went
  through leaves nothing to acknowledge, although no relay has to have taken it; two that both read the row before either
  deletes it publish the same receipt twice, with one history line between them.\<close>

theorem offer_ack_once:
  assumes "row_get cr_key (bs_id swap) (sv_offers s) = Some row" and "cr_zapRequest row = None" and "ci_usable (cx_cipher x) Nip44_v2 (cr_payer row)"
  shows "(\<exists>t. sendOfferReceipt x swap s = (Inr (), t) \<and> sv_out t = sv_out s @ [plain_ack row (bs_preimage swap)]
       \<and> row_get cr_key (bs_id swap) (sv_offers t) = None \<and> sendOfferReceipt x swap t = (Inr (), t))
    \<and> (\<exists>t1 t2 t3 t4. offer_ack_begin x swap s = (Inr (Some row), t1) \<and> offer_ack_begin x swap t1 = (Inr (Some row), t2)
       \<and> offer_ack_end x swap row t2 = (Inr (), t3) \<and> offer_ack_end x swap row t3 = (Inr (), t4)
       \<and> sv_out t4 = sv_out s @ [plain_ack row (bs_preimage swap), plain_ack row (bs_preimage swap)]
       \<and> history (sv_db t4) = history (sv_db t1))"
proof -
  have gone: "row_get key k (row_delete key k rows) = None" for key :: "clink_receipt \<Rightarrow> string" and k rows
    by (auto simp: row_get_def row_delete_def find_first_None)
  have first: "\<exists>t. offer_ack_begin x swap u = (Inr (Some row), t) \<and> sv_offers t = sv_offers u \<and> sv_out t = sv_out u
      \<and> (\<exists>r \<in> set (history (sv_db t)). h_kind r = Noffer_in \<and> h_ref r = Some (bs_id swap))
      \<and> ((\<exists>r \<in> set (history (sv_db u)). h_kind r = Noffer_in \<and> h_ref r = Some (bs_id swap)) \<longrightarrow> history (sv_db t) = history (sv_db u))"
    if "row_get cr_key (bs_id swap) (sv_offers u) = Some row" for u
    using that
    by (auto simp: offer_ack_begin_def andthen_def clink_now_def on_db_def clock_ms_def recordNofferReceive_def history_insert_def)
  have second: "\<exists>t. offer_ack_end x swap row u = (Inr (), t) \<and> sv_out t = sv_out u @ [plain_ack row (bs_preimage swap)]
      \<and> sv_offers t = row_delete cr_key (bs_id swap) (sv_offers u) \<and> sv_db t = sv_db u" for u
    using assms(2,3)
    by (simp add: offer_ack_end_def ack_out_def publishReceipt_def seal_def andthen_def publish_def truthy_def plain_ack_def)
  obtain t1 where t1: "offer_ack_begin x swap s = (Inr (Some row), t1)" "sv_offers t1 = sv_offers s" "sv_out t1 = sv_out s"
      "\<exists>r \<in> set (history (sv_db t1)). h_kind r = Noffer_in \<and> h_ref r = Some (bs_id swap)"
    using first [OF assms(1)] by blast
  from t1(2) assms(1) have "row_get cr_key (bs_id swap) (sv_offers t1) = Some row" by simp
  from first [OF this] t1(4) obtain t2 where t2: "offer_ack_begin x swap t1 = (Inr (Some row), t2)" "sv_offers t2 = sv_offers t1" "sv_out t2 = sv_out t1"
      "history (sv_db t2) = history (sv_db t1)" by blast
  obtain t3 where t3: "offer_ack_end x swap row t2 = (Inr (), t3)" "sv_out t3 = sv_out t2 @ [plain_ack row (bs_preimage swap)]" "sv_db t3 = sv_db t2"
    using second by blast
  obtain t4 where t4: "offer_ack_end x swap row t3 = (Inr (), t4)" "sv_out t4 = sv_out t3 @ [plain_ack row (bs_preimage swap)]" "sv_db t4 = sv_db t3"
    using second by blast
  obtain t where t: "offer_ack_end x swap row t1 = (Inr (), t)" "sv_out t = sv_out t1 @ [plain_ack row (bs_preimage swap)]"
      "sv_offers t = row_delete cr_key (bs_id swap) (sv_offers t1)"
    using second by blast
  have none: "row_get cr_key (bs_id swap) (sv_offers t) = None" using gone t(3) by simp
  then have "sendOfferReceipt x swap t = (Inr (), t)"
    by (simp add: sendOfferReceipt_def offer_ack_begin_def andthen_def)
  moreover have "sendOfferReceipt x swap s = (Inr (), t)" using t1(1) t(1) by (simp add: sendOfferReceipt_def andthen_def)
  ultimately show ?thesis using none t t1 t2 t3 t4 by auto
qed

subsection \<open>Replies\<close>

definition reply_of :: "string \<Rightarrow> nostr_event \<Rightarrow> sealed_body \<Rightarrow> publication" where
  "reply_of relay ev body = \<lparr>pv_relays = [relay], pv_kind = OFFER_KIND,
     pv_tags = [[''p'', ne_pubkey ev], [''e'', ne_id ev], [''clink_version'', CLINK_VERSION]],
     pv_content = Sealed Nip44_v2 (ne_pubkey ev) body\<rparr>"

lemma respond_offer_eq:
  "respond_offer x relay ev body s = (if ci_usable (cx_cipher x) Nip44_v2 (ne_pubkey ev)
     then (Inr (), s\<lparr>sv_out := sv_out s @ [reply_of relay ev body]\<rparr>) else (Inl (Error ''cannot encrypt to this key''), s))"
  by (simp add: respond_offer_def seal_def andthen_def publish_def reply_of_def)

lemma add_receipt_has: "\<exists>r \<in> set (add_receipt r0 rows). cr_key r = cr_key r0 \<and> (r = r0 \<or> r \<in> set rows)"
proof (cases "row_get cr_key (cr_key r0) rows")
  case None
  then show ?thesis by (simp add: add_receipt_def)
next
  case (Some r)
  with row_get_member [OF Some] row_get_keyed [OF Some] show ?thesis by (auto simp: add_receipt_def)
qed

lemma on_db_columns: "on_db m s = (r, t) \<Longrightarrow> sv_offers t = sv_offers s \<and> sv_subdust t = sv_subdust s \<and> sv_out t = sv_out s"
  by (auto simp: on_db_def split: prod.splits)

text \<open>What a request may lead to: silence, or one reply to its author, sealed for it, on the relay of the offer, citing the request.\<close>

definition kept_for :: "nostr_event \<Rightarrow> service_state \<Rightarrow> service_state \<Rightarrow> issued \<Rightarrow> bool" where
  "kept_for ev s t i \<longleftrightarrow> (case is_kind i of
       Swap_issue k \<Rightarrow> (\<exists>row \<in> set (sv_offers t). cr_key row = k \<and> (cr_payer row = ne_pubkey ev \<and> cr_request row = ne_id ev \<or> row \<in> set (sv_offers s)))
     | Subdust_issue k pre \<Rightarrow> (\<exists>row \<in> set (sv_subdust t). cr_key row = is_paymentHash i
         \<and> (cr_payer row = ne_pubkey ev \<and> cr_request row = ne_id ev \<or> row \<in> set (sv_subdust s))))"

definition one_reply :: "clink_world \<Rightarrow> string \<Rightarrow> nostr_event \<Rightarrow> service_state \<Rightarrow> (err + unit) \<times> service_state \<Rightarrow> bool" where
  "one_reply x relay ev s run \<longleftrightarrow> sv_out (snd run) = sv_out s
     \<or> (\<exists>body. sv_out (snd run) = sv_out s @ [reply_of relay ev body]
         \<and> (\<forall>invoice. body = Bolt11 invoice \<longrightarrow> (\<exists>i amount desc h. fst (issueInvoice (cx_receive x) amount desc h (sv_db s)) = Inr i
              \<and> is_invoice i = invoice \<and> kept_for ev s (snd run) i)))"

lemma one_reply_respond: "(\<And>invoice. body \<noteq> Bolt11 invoice) \<Longrightarrow> sv_out u = sv_out s \<Longrightarrow> one_reply x relay ev s (respond_offer x relay ev body u)"
  by (cases "ci_usable (cx_cipher x) Nip44_v2 (ne_pubkey ev)")
    (simp_all add: one_reply_def respond_offer_eq, intro exI [of _ body], simp)

lemma one_reply_invoice:
  assumes "fst (issueInvoice (cx_receive x) amount desc h (sv_db s)) = Inr i" and "kept_for ev s u i" and "sv_out u = sv_out s"
  shows "one_reply x relay ev s (respond_offer x relay ev (Bolt11 (is_invoice i)) u)"
proof -
  have "kept_for ev s (u\<lparr>sv_out := os\<rparr>) i" for os
    by (cases "is_kind i") (use assms(2) in \<open>simp_all add: kept_for_def\<close>)
  with assms show ?thesis
    by (cases "ci_usable (cx_cipher x) Nip44_v2 (ne_pubkey ev)")
      (simp_all add: one_reply_def respond_offer_eq, intro exI [of _ "Bolt11 (is_invoice i)"], simp, blast)
qed

lemma receipt_for_simps [simp]:
  "cr_key (receipt_for ev relay key zap invoice now) = key" "cr_payer (receipt_for ev relay key zap invoice now) = ne_pubkey ev"
  "cr_request (receipt_for ev relay key zap invoice now) = ne_id ev"
  by (simp_all add: receipt_for_def)

lemma remember_keeps_for:
  assumes "sv_offers t = sv_offers s" and "sv_subdust t = sv_subdust s" and "sv_out t = sv_out s"
  shows "\<exists>u. remember_payer x ev relay zap i t = (Inr (), u) \<and> kept_for ev s u i \<and> sv_out u = sv_out s"
proof -
  obtain now where clock: "clink_now x t = (Inr now, t)" by (simp add: clink_now_def on_db_def clock_ms_def)
  show ?thesis
  proof (cases "is_kind i")
    case (Subdust_issue k pre)
    let ?row = "receipt_for ev relay (is_paymentHash i) zap (is_invoice i) now"
    obtain r where r: "r \<in> set (add_receipt ?row (sv_subdust s))" "cr_key r = cr_key ?row" "r = ?row \<or> r \<in> set (sv_subdust s)"
      using add_receipt_has by blast
    from r(3) have "cr_payer r = ne_pubkey ev \<and> cr_request r = ne_id ev \<or> r \<in> set (sv_subdust s)"
      by (metis receipt_for_simps(2,3))
    moreover have "r \<in> set (add_receipt ?row (sv_subdust t))" "cr_key r = is_paymentHash i" using r(1,2) assms by simp_all
    ultimately have "kept_for ev s (t\<lparr>sv_subdust := add_receipt ?row (sv_subdust t)\<rparr>) i"
      using Subdust_issue unfolding kept_for_def by (simp, blast)
    with clock assms Subdust_issue show ?thesis by (simp add: remember_payer_def andthen_def)
  next
    case (Swap_issue k)
    let ?row = "receipt_for ev relay k zap (is_invoice i) now"
    obtain r where r: "r \<in> set (add_receipt ?row (sv_offers s))" "cr_key r = cr_key ?row" "r = ?row \<or> r \<in> set (sv_offers s)"
      using add_receipt_has by blast
    from r(3) have "cr_payer r = ne_pubkey ev \<and> cr_request r = ne_id ev \<or> r \<in> set (sv_offers s)"
      by (metis receipt_for_simps(2,3))
    moreover have "r \<in> set (add_receipt ?row (sv_offers t))" "cr_key r = k" using r(1,2) assms by simp_all
    ultimately have "kept_for ev s (t\<lparr>sv_offers := add_receipt ?row (sv_offers t)\<rparr>) i"
      using Swap_issue unfolding kept_for_def by (simp, blast)
    with clock assms Swap_issue show ?thesis by (simp add: remember_payer_def andthen_def)
  qed
qed

lemma mint_one_reply: "one_reply x relay ev s (offer_mint x ev relay amount description zap s)"
proof -
  obtain r t where run: "on_db (issueInvoice (cx_receive x) amount description (map_option (cx_sha256 x) zap)) s = (r, t)" by fastforce
  note out = on_db_columns [OF run]
  show ?thesis
  proof (cases r)
    case (Inl e)
    then show ?thesis using run out
      by (auto simp: offer_mint_def andthen_def catching_def split: err.split intro!: one_reply_respond)
  next
    case (Inr i)
    then have issued: "fst (issueInvoice (cx_receive x) amount description (map_option (cx_sha256 x) zap) (sv_db s)) = Inr i"
      using run by (auto simp: on_db_def split: prod.splits)
    obtain u where u: "remember_payer x ev relay zap i t = (Inr (), u)" "kept_for ev s u i" "sv_out u = sv_out s"
      using remember_keeps_for out by metis
    have "offer_mint x ev relay amount description zap s = respond_offer x relay ev (Bolt11 (is_invoice i)) u"
      using run Inr u(1) by (simp add: offer_mint_def andthen_def catching_def)
    with one_reply_invoice [OF issued u(2,3)] show ?thesis by simp
  qed
qed

text \<open>A request is answered at most once, to its author only: silence, or one event sealed for the author's key on the
  offer's relay that cites the request. If it carries an invoice, that is the invoice just minted, and the row from which the payment
  will be acknowledged is stored under that payment, for this author and request unless one was already kept.\<close>

theorem request_answered_once:
  shows "sv_out (snd (handleOfferRequest x relay ev s)) = sv_out s
   \<or> (\<exists>body. sv_out (snd (handleOfferRequest x relay ev s)) = sv_out s @ [reply_of relay ev body]
       \<and> (\<forall>invoice. body = Bolt11 invoice \<longrightarrow> (\<exists>i amount desc h. fst (issueInvoice (cx_receive x) amount desc h (sv_db s)) = Inr i
            \<and> is_invoice i = invoice \<and> kept_for ev s (snd (handleOfferRequest x relay ev s)) i)))"
proof -
  have "one_reply x relay ev s (Inr (), s)" "one_reply x relay ev s (Inl e, s)" for e
    by (simp_all add: one_reply_def)
  then have "one_reply x relay ev s (handleOfferRequest x relay ev s)"
    by (auto simp: handleOfferRequest_def offer_payload_def andthen_def mint_one_reply
        split: sum.split option.split intro!: one_reply_respond)
  then show ?thesis by (simp add: one_reply_def)
qed

text \<open>A zap string that is the JSON value \<open>null\<close> is not downgraded to a plain payment: the validation reads a member of
  \<open>null\<close> outside its \<open>try\<close>, the handler throws, and the payer gets no answer at all.\<close>

theorem null_zap_unanswered:
  assumes "\<not> list_ex (tag_is ''e'') (ne_tags ev)" and "first_tag ''clink_version'' (ne_tags ev) = Some CLINK_VERSION"
    and "ci_decrypt (cx_cipher x) Nip44_v2 (ne_pubkey ev) (ne_content ev) = Inr plain"
    and "cx_parseRequest x plain = Inr (Some q)" and "oq_offer q = Some CLINK_OFFER_ID" and "oq_amount q = Some a" and "is_integer a" and "0 < a"
    and "oq_zap q = Some z" and "z \<noteq> []" and "cx_parseZap x z = Inr None"
  shows "handleOfferRequest x relay ev s = (Inl (Error ''null is not an object''), s)"
  using assms by (simp add: handleOfferRequest_def offer_payload_def usable_zap_def truthy_def validateZapRequest_def andthen_def)

subsection \<open>A run\<close>

definition sample_clink :: clink_world where
  "sample_clink = \<lparr>cx_receive = sample_receive_world, cx_landing = landing_sample,
     cx_cipher = \<lparr>ci_decrypt = (\<lambda>c k s. Inr s), ci_usable = (\<lambda>c k. True)\<rparr>, cx_pub = ''me'',
     cx_parseRequest = (\<lambda>s. Inr (Some \<lparr>oq_offer = Some CLINK_OFFER_ID, oq_amount = Some 1000, oq_description = None, oq_zap = Some s\<rparr>)),
     cx_parseZap = (\<lambda>s. if s = ''null'' then Inr None else Inr (Some \<lparr>ze_kind = 9734, ze_pubkey = ''payer'',
        ze_tags = Some [[''p'', ''me''], [''relays'', ''r1'']], ze_verified = Inr True\<rparr>)),
     cx_sha256 = (\<lambda>z. ''digest''), cx_describe = (\<lambda>r. ''zap''), cx_now = (\<lambda>t. 1000)\<rparr>"

definition ask_with :: "string \<Rightarrow> nostr_event" where
  "ask_with content = \<lparr>ne_id = ''q1'', ne_pubkey = ''payer'', ne_tags = [[''clink_version'', ''1'']], ne_content = content\<rparr>"

definition offer_boot :: service_state where
  "offer_boot = \<lparr>sv_db = empty_db, sv_offers = [], sv_subdust = [], sv_noffer = None, sv_out = []\<rparr>"

definition offer_asked :: service_state where
  "offer_asked = snd (clink_do sample_clink (Ask ''r0'' (ask_with ''zap'')) offer_boot)"

definition paid_landing :: boltz_swap where
  "paid_landing = landing_swap\<lparr>bs_id := ''rev1''\<rparr>"

definition offer_paid :: service_state where
  "offer_paid = snd (clink_do sample_clink (Terminal paid_landing) offer_asked)"

definition zap_row :: clink_receipt where
  "zap_row = \<lparr>cr_key = ''rev1'', cr_payer = ''payer'', cr_request = ''q1'', cr_relay = ''r0'', cr_zapRequest = Some ''zap'', cr_zapInvoice = Some ''lnbc'',
     cr_createdAt = 1\<rparr>"

definition asked_db :: db where
  "asked_db = empty_db\<lparr>tick := 1\<rparr>"

lemma offer_asked_eq:
  "offer_asked = \<lparr>sv_db = asked_db, sv_offers = [zap_row], sv_subdust = [], sv_noffer = None,
     sv_out = [reply_of ''r0'' (ask_with ''zap'') (Bolt11 ''lnbc'')]\<rparr>"
  by (simp add: offer_asked_def handleOfferRequest_def ask_with_def tag_is_def first_tag_def tag_value_def CLINK_VERSION_def sample_clink_def offer_payload_def
      andthen_def usable_zap_def truthy_def validateZapRequest_def ZAP_REQUEST_KIND_def zap_tags_check_def relays_of_def Let_def offer_mint_def catching_def
      on_db_def issueInvoice_def RECEIVE_DUST_SATS_def await_def sample_receive_world_def absoluteExpiry_def remember_payer_def clink_now_def clock_ms_def
      add_receipt_def receipt_for_def respond_offer_def seal_def publish_def offer_boot_def zap_row_def reply_of_def row_get_def empty_db_def asked_db_def)

lemma landed_terminal:
  "\<exists>d. onSwapTerminal landing_sample paid_landing asked_db = (Inr (), d) \<and> notices d = [Reverse_settled ''rev1''] \<and> history d = []"
  by (simp add: onSwapTerminal_def landing_swap_def paid_landing_def landing_sample_def confirmReverseLanded_def REVERSE_LAND_POLLS_def
      numeral_eq_Suc landed_once_def catching_def andthen_def await_def landing_coin_def spent_lockup_def truthy_def bound_to_def empty_db_def asked_db_def
      now_sec_def clock_ms_def syncSwapToDb_def update_txs_def Let_def)

lemma asked_db_notices [simp]: "notices asked_db = []"
  by (simp add: asked_db_def empty_db_def)

lemma offer_paid_out:
  "\<exists>p. sv_out offer_paid = [reply_of ''r0'' (ask_with ''zap'') (Bolt11 ''lnbc''), plain_ack zap_row (Some ''pre''), p] \<and> pv_kind p = ZAP_RECEIPT_KIND"
proof -
  obtain d where d: "onSwapTerminal landing_sample paid_landing asked_db = (Inr (), d)" "notices d = [Reverse_settled ''rev1'']" "history d = []"
    using landed_terminal by blast
  have id: "bs_id paid_landing = ''rev1''" "bs_preimage paid_landing = Some ''pre''" by (simp_all add: paid_landing_def landing_swap_def)
  show ?thesis
    by (simp add: offer_paid_def offer_asked_eq terminal_event_def andthen_def on_db_def d id sample_clink_def sendOfferReceipt_def
        offer_ack_begin_def row_get_def zap_row_def clink_now_def clock_ms_def offer_ack_end_def ack_out_def publishReceipt_def seal_def publish_def
        truthy_def publishZapReceipt_def relays_of_def tag_is_def plain_ack_def)
qed

theorem zap_receipts_verify_witness:
  "\<exists>p z invoice. p \<in> set (sv_out offer_paid) \<and> pv_kind p = ZAP_RECEIPT_KIND \<and> minted sample_clink invoice 1000 ''digest''
     \<and> [''description'', z] \<in> set (pv_tags p) \<and> [''bolt11'', invoice] \<in> set (pv_tags p)"
proof -
  obtain p where out: "sv_out offer_paid = [reply_of ''r0'' (ask_with ''zap'') (Bolt11 ''lnbc''), plain_ack zap_row (Some ''pre''), p]"
      and kind: "pv_kind p = ZAP_RECEIPT_KIND"
    using offer_paid_out by blast
  have p: "p \<in> set (sv_out offer_paid)" "pv_kind p = ZAP_RECEIPT_KIND" using kind by (simp_all add: out)
  have "clink_reach sample_clink offer_boot" unfolding offer_boot_def by (rule clink_reach.empty_tables)
  then have "clink_reach sample_clink offer_paid" unfolding offer_paid_def offer_asked_def by (intro clink_reach.clink_next)
  from zap_receipts_verify [OF this _ p] obtain z invoice where "[''description'', z] \<in> set (pv_tags p)" "[''bolt11'', invoice] \<in> set (pv_tags p)"
      "\<exists>amount. minted sample_clink invoice amount ''digest''"
    by (auto simp: sample_clink_def)
  moreover from this(3) have "minted sample_clink invoice 1000 ''digest''"
    by (auto simp: minted_def sample_clink_def sample_receive_world_def sample_world_def)
  ultimately show ?thesis using p by blast
qed

theorem receipts_need_payment_witness:
  "plain_ack zap_row (Some ''pre'') \<in> set (sv_out offer_paid) \<and> landing_evidence landing_sample paid_landing"
proof -
  obtain q where out: "sv_out offer_paid = sv_out offer_asked @ [plain_ack zap_row (Some ''pre''), q]"
    using offer_paid_out by (auto simp: offer_asked_eq)
  have "offer_paid = snd (terminal_event sample_clink paid_landing offer_asked)" by (simp add: offer_paid_def)
  with receipts_need_payment [of "{paid_landing}" paid_landing offer_paid sample_clink offer_asked] out
  have "landing_evidence (cx_landing sample_clink) paid_landing"
    by (auto simp: offer_asked_eq asked_db_def empty_db_def)
  with out show ?thesis by (simp add: sample_clink_def)
qed

definition plain_row :: clink_receipt where
  "plain_row = zap_row\<lparr>cr_zapRequest := None, cr_zapInvoice := None\<rparr>"

theorem offer_ack_once_witness:
  "\<exists>t. sendOfferReceipt sample_clink paid_landing (offer_boot\<lparr>sv_offers := [plain_row]\<rparr>) = (Inr (), t)
     \<and> sv_out t = [plain_ack plain_row (Some ''pre'')] \<and> sendOfferReceipt sample_clink paid_landing t = (Inr (), t)"
proof -
  let ?s = "offer_boot\<lparr>sv_offers := [plain_row]\<rparr>"
  have "row_get cr_key (bs_id paid_landing) (sv_offers ?s) = Some plain_row"
    by (simp add: row_get_def plain_row_def zap_row_def paid_landing_def)
  moreover have "cr_zapRequest plain_row = None" by (simp add: plain_row_def)
  moreover have "ci_usable (cx_cipher sample_clink) Nip44_v2 (cr_payer plain_row)" by (simp add: sample_clink_def)
  moreover have "sv_out ?s = []" "bs_preimage paid_landing = Some ''pre''"
    by (simp_all add: offer_boot_def paid_landing_def landing_swap_def)
  ultimately show ?thesis using offer_ack_once [of paid_landing ?s plain_row sample_clink] by simp blast
qed

theorem request_answered_once_witness:
  "\<exists>i amount desc h. fst (issueInvoice sample_receive_world amount desc h empty_db) = Inr i \<and> is_invoice i = ''lnbc''
     \<and> kept_for (ask_with ''zap'') offer_boot offer_asked i"
  using request_answered_once [of sample_clink "''r0''" "ask_with ''zap''" offer_boot]
  unfolding offer_asked_def [unfolded clink_do.simps, symmetric]
  by (auto simp: offer_asked_eq offer_boot_def reply_of_def sample_clink_def)

theorem null_zap_unanswered_witness:
  "handleOfferRequest sample_clink ''r0'' (ask_with ''null'') offer_boot = (Inl (Error ''null is not an object''), offer_boot)"
  by (rule null_zap_unanswered [of _ _ "''null''" "\<lparr>oq_offer = Some CLINK_OFFER_ID, oq_amount = Some 1000, oq_description = None, oq_zap = Some ''null''\<rparr>" 1000 "''null''"])
    (simp_all add: ask_with_def sample_clink_def tag_is_def first_tag_def tag_value_def CLINK_VERSION_def is_integer_def)

end
