(* ===== verification/Nostr_Service.thy ===== *)
theory Nostr_Service
  imports Service_State Wallet_Pay
begin

text \<open>
  The wallet service, \<open>src/nostr/service.ts\<close>: an event of a client is authenticated against its connection, decrypted,
  dispatched to one of the six handlers and answered; \<open>processed_events\<close> (\<open>src/nostr/connections.ts\<close>) remembers what was
  answered. The relay subscriptions are the set of service keys listened on.

  The readings of the clock are an argument of a run: \<open>clk n\<close> is the n-th one, in seconds. JSON is a parameter; a parse
  yields \<open>None\<close> for the JSON value \<open>null\<close>, and the parameters of a request are \<open>None\<close> where the member is missing
  or \<open>null\<close>, since reading a member of them throws. A field of the wrong type is absent, which is how every handler reads it.
\<close>

datatype network = Bitcoin | Signet | Mutinynet | Regtest

record nwc_params =
  qp_invoice :: "string option"
  qp_amount :: "rat option"
  qp_description :: "string option"
  qp_descriptionHash :: "string option"
  qp_paymentHash :: "string option"
  qp_list :: list_params

record nwc_request =
  nr_method :: string
  nr_params :: "nwc_params option"

record nostr_world =
  nx_network :: network
  nx_clock :: local_clock
  nx_decode :: "string \<Rightarrow> string + ln_invoice"
  nx_pay :: pay_world
  nx_receive :: receive_world
  nx_balance :: "nat \<Rightarrow> err + int \<times> int"
  nx_cipher :: "string \<Rightarrow> cipher"
  nx_parse :: "string \<Rightarrow> err + nwc_request option"
  nx_infoKind :: int
  nx_responseKind :: int

subsection \<open>\<open>processed_events\<close>\<close>

text \<open>\<open>INSERT OR IGNORE\<close>.\<close>

definition markEventProcessed :: "string \<Rightarrow> nat \<Rightarrow> string \<Rightarrow> int \<Rightarrow> db \<Rightarrow> db" where
  "markEventProcessed event conn meth now d =
     (if event \<in> pe_id ` set (processed d) then d
      else d\<lparr>processed := processed d @ [\<lparr>pe_id = event, pe_connection = conn, pe_method = meth, pe_at = now\<rparr>]\<rparr>)"

definition isEventProcessed :: "db \<Rightarrow> string \<Rightarrow> bool" where
  "isEventProcessed d event \<longleftrightarrow> event \<in> pe_id ` set (processed d)"

definition prunePersistedEvents :: "int \<Rightarrow> int \<Rightarrow> db \<Rightarrow> nat \<times> db" where
  "prunePersistedEvents now ttl d =
     (let kept = filter (\<lambda>e. now - ttl \<le> pe_at e) (processed d) in (length (processed d) - length kept, d\<lparr>processed := kept\<rparr>))"

subsection \<open>Reading a request\<close>

definition pickRequestScheme :: "string list list \<Rightarrow> err + enc_scheme" where
  "pickRequestScheme tags = (case find_first (tag_is ''encryption'') tags of
     None \<Rightarrow> Inr Nip04
   | Some t \<Rightarrow> (if tag_value t = Some ''nip44_v2'' then Inr Nip44_v2
       else if tag_value t = Some ''nip04'' then Inr Nip04
       else Inl (Nwc_error ''UNSUPPORTED_ENCRYPTION'' ''encryption not supported'')))"

text \<open>\<open>Number.parseInt(s, 10)\<close>: blanks, a sign, then the digits there are; \<open>None\<close> is \<open>NaN\<close>.\<close>

definition js_blank :: "char \<Rightarrow> bool" where
  "js_blank c \<longleftrightarrow> (of_char c :: nat) = 32 \<or> (9 \<le> (of_char c :: nat) \<and> (of_char c :: nat) \<le> 13)"

definition parse_digits :: "string \<Rightarrow> int option" where
  "parse_digits s = (let ds = takeWhile is_digit s in if ds = [] then None else Some (int (digits_value ds)))"

definition js_parseInt :: "string \<Rightarrow> int option" where
  "js_parseInt s = (case dropWhile js_blank s of
     [] \<Rightarrow> None
   | c # cs \<Rightarrow> (if c = CHR ''-'' then map_option uminus (parse_digits cs)
       else if c = CHR ''+'' then parse_digits cs else parse_digits (c # cs)))"

definition request_expired :: "nostr_event \<Rightarrow> int \<Rightarrow> bool" where
  "request_expired ev now = (let t = first_tag ''expiration'' (ne_tags ev) in
     truthy t \<and> (case js_parseInt (the t) of None \<Rightarrow> False | Some e \<Rightarrow> e < now))"

subsection \<open>Dispatch\<close>

definition SUPPORTED_METHODS :: "string list" where
  "SUPPORTED_METHODS = [''get_info'', ''get_balance'', ''make_invoice'', ''pay_invoice'', ''lookup_invoice'', ''list_transactions'']"

definition network_name :: "network \<Rightarrow> string" where
  "network_name n = (case n of Bitcoin \<Rightarrow> ''mainnet'' | Signet \<Rightarrow> ''signet'' | Mutinynet \<Rightarrow> ''signet'' | Regtest \<Rightarrow> ''regtest'')"

definition handleGetInfo :: "network \<Rightarrow> nwc_answer" where
  "handleGetInfo n = Info (network_name n) SUPPORTED_METHODS"

definition handleGetBalance :: "(nat \<Rightarrow> err + int \<times> int) \<Rightarrow> nwc_answer bridge" where
  "handleGetBalance balance = andthen (await balance) (\<lambda>b. ret (Balance (satsToMsats (fst b + snd b))))"

text \<open>What \<open>make_invoice\<close> returns of the row it wrote, with the description hash of the request.\<close>

definition made_answer :: "string option \<Rightarrow> tx_row \<Rightarrow> nwc_answer" where
  "made_answer descriptionHash r = Made (t_invoice r) (t_description r) descriptionHash (t_paymentHash r) (t_amountMsat r)
     (case t_feesPaidMsat r of None \<Rightarrow> None | Some f \<Rightarrow> if 0 < f then Some f else None) (t_createdAt r) (or_else (t_expiresAt r) 0)"

text \<open>A member read of missing parameters.\<close>

definition with_params :: "nwc_request \<Rightarrow> (nwc_params \<Rightarrow> 'a bridge) \<Rightarrow> 'a bridge" where
  "with_params q f = (case nr_params q of None \<Rightarrow> throw (Error ''undefined is not an object'') | Some p \<Rightarrow> f p)"

definition nwc_dispatch :: "nostr_world \<Rightarrow> (nat \<Rightarrow> int) \<Rightarrow> connection \<Rightarrow> nostr_event \<Rightarrow> nwc_request \<Rightarrow> nwc_answer bridge" where
  "nwc_dispatch x clk conn ev q =
     (if nr_method q = ''get_info'' then ret (handleGetInfo (nx_network x))
      else if nr_method q = ''get_balance'' then handleGetBalance (nx_balance x)
      else if nr_method q = ''make_invoice'' then with_params q (\<lambda>p.
        andthen (handleMakeInvoice (\<lambda>sats d h. andthen (issueInvoice (nx_receive x) sats d h) (\<lambda>i. ret (nwc_issued i)))
          conn (ne_id ev) (qp_amount p) (qp_description p) (qp_descriptionHash p) (clk 1))
          (\<lambda>row. ret (made_answer (qp_descriptionHash p) row)))
      else if nr_method q = ''pay_invoice'' then with_params q (\<lambda>p.
        andthen (handlePayInvoice (nx_clock x) (nx_decode x)
          (sendLightning (nx_pay x) (\<lambda>i. modify (pay_swap_created (ne_id ev) i))) conn (ne_id ev) (qp_invoice p) (clk 1) (clk 2))
          (\<lambda>r. ret (Paid (fst r) (snd r))))
      else if nr_method q = ''lookup_invoice'' then with_params q (\<lambda>p.
        andthen (reading (\<lambda>d. handleLookupInvoice d conn (qp_paymentHash p) (qp_invoice p))) (\<lambda>r.
        andthen (lift_res r) (\<lambda>t. ret (Found t))))
      else if nr_method q = ''list_transactions'' then with_params q (\<lambda>p.
        andthen (reading (\<lambda>d. handleListTransactions d conn (qp_list p) (clk 1))) (\<lambda>r.
        andthen (lift_res r) (\<lambda>ts. ret (Listed ts))))
      else throw (Nwc_error ''NOT_IMPLEMENTED'' ''unknown method''))"

subsection \<open>Answering\<close>

definition sendResponse :: "nostr_world \<Rightarrow> connection \<Rightarrow> nostr_event \<Rightarrow> enc_scheme \<Rightarrow> sealed_body \<Rightarrow> unit service" where
  "sendResponse x conn ev scheme body =
     andthen (seal (nx_cipher x (n_servicePubkey conn)) scheme (ne_pubkey ev) body) (\<lambda>content.
     publish (n_relays conn) (nx_responseKind x) [[''p'', ne_pubkey ev], [''e'', ne_id ev]] content)"

definition nwc_error_body :: "string \<Rightarrow> err \<Rightarrow> sealed_body" where
  "nwc_error_body meth e = (case e of Nwc_error code m \<Rightarrow> Nwc_failure meth code m | _ \<Rightarrow> Nwc_failure meth ''INTERNAL'' (err_message e))"

definition mark_done :: "string \<Rightarrow> nat \<Rightarrow> string \<Rightarrow> int \<Rightarrow> service_state \<Rightarrow> service_state" where
  "mark_done event conn meth now s = s\<lparr>sv_db := markEventProcessed event conn meth now (sv_db s)\<rparr>"

text \<open>The \<open>try\<close>, its \<open>catch\<close> (which may throw again) and the \<open>finally\<close>.\<close>

definition serve_request :: "nostr_world \<Rightarrow> (nat \<Rightarrow> int) \<Rightarrow> connection \<Rightarrow> nostr_event \<Rightarrow> enc_scheme \<Rightarrow> nwc_request \<Rightarrow> unit service" where
  "serve_request x clk conn ev scheme q = finally_do
     (catching (andthen (on_db (nwc_dispatch x clk conn ev q)) (\<lambda>result. sendResponse x conn ev scheme (Nwc_result (nr_method q) result)))
        (\<lambda>e. sendResponse x conn ev scheme (nwc_error_body (nr_method q) e)))
     (mark_done (ne_id ev) (n_id conn) (nr_method q) (clk 3))"

definition accept_request :: "nostr_world \<Rightarrow> (nat \<Rightarrow> int) \<Rightarrow> connection \<Rightarrow> nostr_event \<Rightarrow> unit service" where
  "accept_request x clk conn ev = (case pickRequestScheme (ne_tags ev) of
     Inl e \<Rightarrow> andthen (sendResponse x conn ev Nip04 (nwc_error_body ''unknown'' e)) (\<lambda>u.
       modify (mark_done (ne_id ev) (n_id conn) ''unknown'' (clk 3)))
   | Inr scheme \<Rightarrow> (case ci_decrypt (nx_cipher x (n_servicePubkey conn)) scheme (ne_pubkey ev) (ne_content ev) of
       Inl e \<Rightarrow> ret ()
     | Inr plain \<Rightarrow> (case nx_parse x plain of
         Inl e \<Rightarrow> ret ()
       | Inr None \<Rightarrow> throw (Error ''null is not an object'')
       | Inr (Some q) \<Rightarrow> serve_request x clk conn ev scheme q)))"

definition handleEvent :: "nostr_world \<Rightarrow> (nat \<Rightarrow> int) \<Rightarrow> nostr_event \<Rightarrow> unit service" where
  "handleEvent x clk ev = (let key = first_tag ''p'' (ne_tags ev) in
     if \<not> truthy key then ret ()
     else andthen (reading (\<lambda>s. findConnectionByServicePubkey (sv_db s) (the key))) (\<lambda>found. case found of
       None \<Rightarrow> ret ()
     | Some conn \<Rightarrow>
        andthen (reading (\<lambda>s. isEventProcessed (sv_db s) (ne_id ev))) (\<lambda>seen.
        if seen then ret ()
        else if ne_pubkey ev \<noteq> n_clientPubkey conn then ret ()
        else if request_expired ev (clk 0) then modify (mark_done (ne_id ev) (n_id conn) ''expired'' (clk 3))
        else accept_request x clk conn ev)))"

subsection \<open>Subscriptions\<close>

text \<open>The keys listened on, in the order they were opened; the state of the relays behind them is in \<open>Relay_Net\<close>.\<close>

definition subscribeOne :: "connection \<Rightarrow> string list \<Rightarrow> string list" where
  "subscribeOne conn subs = (if n_servicePubkey conn \<in> set subs \<or> n_relays conn = [] then subs else subs @ [n_servicePubkey conn])"

definition publishInfoEvent :: "nostr_world \<Rightarrow> connection \<Rightarrow> unit service" where
  "publishInfoEvent x conn = publish (n_relays conn) (nx_infoKind x) [[''encryption'', ''nip44_v2 nip04'']]
     (Clear (tl (concat (map (\<lambda>m. '' '' @ m) SUPPORTED_METHODS))))"

definition boot_subs :: "db \<Rightarrow> string list" where
  "boot_subs d = foldl (\<lambda>subs conn. if n_relays conn = [] then subs else subscribeOne conn subs) [] (listActiveConnections d)"

definition startNostrService :: "nostr_world \<Rightarrow> string list service" where
  "startNostrService x = andthen (reading (\<lambda>s. listActiveConnections (sv_db s))) (\<lambda>cs.
     andthen (for_each (publishInfoEvent x) (filter (\<lambda>c. n_relays c \<noteq> []) cs)) (\<lambda>u.
     reading (\<lambda>s. boot_subs (sv_db s))))"

definition registerConnection :: "nostr_world \<Rightarrow> connection \<Rightarrow> string list \<Rightarrow> string list service" where
  "registerConnection x conn subs =
     (if n_relays conn = [] then throw (Error ''refusing to register a connection with no relays'')
      else andthen (publishInfoEvent x conn) (\<lambda>u. ret (subscribeOne conn subs)))"

definition unregisterConnection :: "string \<Rightarrow> string list \<Rightarrow> string list" where
  "unregisterConnection key subs = filter (\<lambda>k. k \<noteq> key) subs"

end
