(* ===== verification/Nostr_Safety.thy ===== *)
theory Nostr_Safety
  imports Nostr_Service Ln_Receive_Safety Wallet_Safety
begin

text \<open>
  Who can make the wallet service act, what it answers, and that nothing is paid twice for one event: not when the event
  comes again after it was answered, and not when the record of that was pruned or never written.
\<close>

subsection \<open>Authorization\<close>

definition response_to :: "nostr_world \<Rightarrow> connection \<Rightarrow> nostr_event \<Rightarrow> enc_scheme \<Rightarrow> sealed_body \<Rightarrow> publication" where
  "response_to x conn ev scheme body = \<lparr>pv_relays = n_relays conn, pv_kind = nx_responseKind x,
     pv_tags = [[''p'', ne_pubkey ev], [''e'', ne_id ev]], pv_content = Sealed scheme (ne_pubkey ev) body\<rparr>"

lemma sendResponse_eq:
  "sendResponse x conn ev scheme body s = (if ci_usable (nx_cipher x (n_servicePubkey conn)) scheme (ne_pubkey ev)
     then (Inr (), s\<lparr>sv_out := sv_out s @ [response_to x conn ev scheme body]\<rparr>) else (Inl (Error ''cannot encrypt to this key''), s))"
  by (simp add: sendResponse_def seal_def andthen_def publish_def response_to_def)

text \<open>One answer at most, and the other tables of the service stay.\<close>

definition answers_one :: "nostr_world \<Rightarrow> connection \<Rightarrow> nostr_event \<Rightarrow> service_state \<Rightarrow> service_state \<Rightarrow> bool" where
  "answers_one x conn ev s t \<longleftrightarrow> sv_offers t = sv_offers s \<and> sv_subdust t = sv_subdust s \<and> sv_noffer t = sv_noffer s
     \<and> (sv_out t = sv_out s \<or> (\<exists>scheme body. sv_out t = sv_out s @ [response_to x conn ev scheme body]))"

lemma answers_none: "sv_out t = sv_out s \<Longrightarrow> sv_offers t = sv_offers s \<Longrightarrow> sv_subdust t = sv_subdust s \<Longrightarrow> sv_noffer t = sv_noffer s
    \<Longrightarrow> answers_one x conn ev s t"
  by (simp add: answers_one_def)

lemma answers_some: "sv_out t = sv_out s @ [response_to x conn ev scheme body] \<Longrightarrow> sv_offers t = sv_offers s \<Longrightarrow> sv_subdust t = sv_subdust s
    \<Longrightarrow> sv_noffer t = sv_noffer s \<Longrightarrow> answers_one x conn ev s t"
  unfolding answers_one_def by blast

definition dispatched :: "nostr_world \<Rightarrow> (nat \<Rightarrow> int) \<Rightarrow> connection \<Rightarrow> nostr_event \<Rightarrow> nwc_request \<Rightarrow> db \<Rightarrow> db" where
  "dispatched x clk conn ev q d = markEventProcessed (ne_id ev) (n_id conn) (nr_method q) (clk 3) (snd (nwc_dispatch x clk conn ev q d))"

lemma serve_request_eq:
  fixes x clk conn ev scheme q s
  defines "r \<equiv> fst (nwc_dispatch x clk conn ev q (sv_db s))"
    and "d \<equiv> dispatched x clk conn ev q (sv_db s)"
    and "body \<equiv> (case fst (nwc_dispatch x clk conn ev q (sv_db s)) of Inr a \<Rightarrow> Nwc_result (nr_method q) a | Inl e \<Rightarrow> nwc_error_body (nr_method q) e)"
  shows "ci_usable (nx_cipher x (n_servicePubkey conn)) scheme (ne_pubkey ev)
      \<Longrightarrow> serve_request x clk conn ev scheme q s = (Inr (), s\<lparr>sv_db := d, sv_out := sv_out s @ [response_to x conn ev scheme body]\<rparr>)"
    and "\<not> ci_usable (nx_cipher x (n_servicePubkey conn)) scheme (ne_pubkey ev)
      \<Longrightarrow> serve_request x clk conn ev scheme q s = (Inl (Error ''cannot encrypt to this key''), s\<lparr>sv_db := d\<rparr>)"
proof -
  obtain a b where run: "nwc_dispatch x clk conn ev q (sv_db s) = (a, b)" by fastforce
  show "ci_usable (nx_cipher x (n_servicePubkey conn)) scheme (ne_pubkey ev)
      \<Longrightarrow> serve_request x clk conn ev scheme q s = (Inr (), s\<lparr>sv_db := d, sv_out := sv_out s @ [response_to x conn ev scheme body]\<rparr>)"
    by (cases a) (simp_all add: serve_request_def finally_do_def catching_def andthen_def on_db_def run sendResponse_eq mark_done_def
        d_def dispatched_def body_def)
  show "\<not> ci_usable (nx_cipher x (n_servicePubkey conn)) scheme (ne_pubkey ev)
      \<Longrightarrow> serve_request x clk conn ev scheme q s = (Inl (Error ''cannot encrypt to this key''), s\<lparr>sv_db := d\<rparr>)"
    by (cases a) (simp_all add: serve_request_def finally_do_def catching_def andthen_def on_db_def run sendResponse_eq mark_done_def
        d_def dispatched_def)
qed

lemma live_connD: "findConnectionByServicePubkey d key = Some c \<Longrightarrow> c \<in> set (conns d) \<and> n_servicePubkey c = key \<and> n_revokedAt c = None"
  by (auto simp: findConnectionByServicePubkey_def dest: find_first_Some)

lemma authorized_run:
  assumes "handleEvent x clk ev s = (r, t)" and "t \<noteq> s"
  shows "\<exists>conn \<in> set (conns (sv_db s)). first_tag ''p'' (ne_tags ev) = Some (n_servicePubkey conn) \<and> n_revokedAt conn = None
    \<and> ne_pubkey ev = n_clientPubkey conn \<and> \<not> isEventProcessed (sv_db s) (ne_id ev) \<and> answers_one x conn ev s t
    \<and> ((\<exists>m. sv_db t = markEventProcessed (ne_id ev) (n_id conn) m (clk 3) (sv_db s))
      \<or> \<not> request_expired ev (clk 0) \<and> (\<exists>scheme plain q. pickRequestScheme (ne_tags ev) = Inr scheme
          \<and> ci_decrypt (nx_cipher x (n_servicePubkey conn)) scheme (ne_pubkey ev) (ne_content ev) = Inr plain
          \<and> nx_parse x plain = Inr (Some q) \<and> sv_db t = dispatched x clk conn ev q (sv_db s)))"
proof -
  have "truthy (first_tag ''p'' (ne_tags ev))" using assms by (auto simp: handleEvent_def Let_def split: if_splits)
  then obtain key where key: "first_tag ''p'' (ne_tags ev) = Some key" "key \<noteq> []" by (auto simp: truthy_def)
  then obtain conn where conn: "findConnectionByServicePubkey (sv_db s) key = Some conn"
    using assms by (cases "findConnectionByServicePubkey (sv_db s) key") (auto simp: handleEvent_def andthen_def truthy_def Let_def)
  have step: "\<not> isEventProcessed (sv_db s) (ne_id ev)" "ne_pubkey ev = n_clientPubkey conn"
      "(if request_expired ev (clk 0) then modify (mark_done (ne_id ev) (n_id conn) ''expired'' (clk 3)) else accept_request x clk conn ev) s = (r, t)"
    using assms key conn by (auto simp: handleEvent_def andthen_def truthy_def split: if_splits)
  have outcome: "answers_one x conn ev s t \<and> ((\<exists>m. sv_db t = markEventProcessed (ne_id ev) (n_id conn) m (clk 3) (sv_db s))
      \<or> \<not> request_expired ev (clk 0) \<and> (\<exists>scheme plain q. pickRequestScheme (ne_tags ev) = Inr scheme
          \<and> ci_decrypt (nx_cipher x (n_servicePubkey conn)) scheme (ne_pubkey ev) (ne_content ev) = Inr plain
          \<and> nx_parse x plain = Inr (Some q) \<and> sv_db t = dispatched x clk conn ev q (sv_db s)))"
  proof (cases "request_expired ev (clk 0)")
    case True
    with step(3) show ?thesis by (auto simp: mark_done_def answers_one_def)
  next
    case False
    with step(3) have accept: "accept_request x clk conn ev s = (r, t)" by simp
    show ?thesis
    proof (cases "pickRequestScheme (ne_tags ev)")
      case (Inl e)
      with accept assms(2) show ?thesis
        by (auto simp: accept_request_def andthen_def sendResponse_eq mark_done_def split: if_splits intro!: answers_some)
    next
      case (Inr scheme)
      then obtain plain q where q: "ci_decrypt (nx_cipher x (n_servicePubkey conn)) scheme (ne_pubkey ev) (ne_content ev) = Inr plain"
          "nx_parse x plain = Inr (Some q)" "serve_request x clk conn ev scheme q s = (r, t)"
        using accept assms(2) by (auto simp: accept_request_def split: sum.splits option.splits)
      from q(3) have "answers_one x conn ev s t \<and> sv_db t = dispatched x clk conn ev q (sv_db s)"
        using serve_request_eq [of x conn scheme ev clk q s]
        by (cases "ci_usable (nx_cipher x (n_servicePubkey conn)) scheme (ne_pubkey ev)") (auto intro: answers_some answers_none)
      with Inr q(1,2) False show ?thesis by blast
    qed
  qed
  with live_connD [OF conn] key(1) step(1,2) show ?thesis by auto
qed

text \<open>C19: Nobody but the client of a connection that stands makes the service do anything. An event that changes the
  state at all is addressed to the service key of an unrevoked connection, written by that connection's client, and not answered
  before. What it can cause is one reply, sealed for its author and sent to the connection's relays, a mark that it was handled,
  and the run of its one handler, which takes a request that is not expired and decrypts under the scheme it names.\<close>

theorem requests_authorized:
  assumes "handleEvent x clk ev s = (r, t)" and "t \<noteq> s"
  shows "\<exists>conn \<in> set (conns (sv_db s)). first_tag ''p'' (ne_tags ev) = Some (n_servicePubkey conn) \<and> n_revokedAt conn = None
    \<and> ne_pubkey ev = n_clientPubkey conn \<and> \<not> isEventProcessed (sv_db s) (ne_id ev) \<and> answers_one x conn ev s t
    \<and> ((\<exists>m. sv_db t = markEventProcessed (ne_id ev) (n_id conn) m (clk 3) (sv_db s))
      \<or> \<not> request_expired ev (clk 0) \<and> (\<exists>scheme plain q. pickRequestScheme (ne_tags ev) = Inr scheme
          \<and> ci_decrypt (nx_cipher x (n_servicePubkey conn)) scheme (ne_pubkey ev) (ne_content ev) = Inr plain
          \<and> nx_parse x plain = Inr (Some q) \<and> sv_db t = dispatched x clk conn ev q (sv_db s)))"
  using assms by (rule authorized_run)

text \<open>Revoking a connection silences it: the flag in the store is all the authorization looks at.\<close>

theorem revoked_connection_deaf:
  assumes "\<And>c. c \<in> set (conns (sv_db s)) \<Longrightarrow> n_servicePubkey c = key \<Longrightarrow> n_id c = i"
    and "first_tag ''p'' (ne_tags ev) = Some key"
  shows "handleEvent x clk ev (s\<lparr>sv_db := revokeConnection now i (sv_db s)\<rparr>) = (Inr (), s\<lparr>sv_db := revokeConnection now i (sv_db s)\<rparr>)"
proof -
  have "findConnectionByServicePubkey (revokeConnection now i (sv_db s)) key = None"
    unfolding findConnectionByServicePubkey_def find_first_None
  proof
    fix c assume "c \<in> set (conns (revokeConnection now i (sv_db s)))"
    then obtain b where b: "b \<in> set (conns (sv_db s))"
        "c = (if n_id b = i \<and> n_revokedAt b = None then b\<lparr>n_revokedAt := Some now\<rparr> else b)"
      by (auto simp: revokeConnection_def)
    with assms(1) [OF b(1)] show "\<not> (n_servicePubkey c = key \<and> n_revokedAt c = None)" by (cases "n_servicePubkey b = key") auto
  qed
  with assms(2) show ?thesis by (simp add: handleEvent_def andthen_def Let_def)
qed

subsection \<open>Answers\<close>

lemma seen_deaf: "isEventProcessed (sv_db t) (ne_id ev) \<Longrightarrow> handleEvent x clk ev t = (Inr (), t)"
  by (auto simp: handleEvent_def andthen_def Let_def split: option.split)

lemma handleEvent_serves:
  assumes "first_tag ''p'' (ne_tags ev) = Some key" and "key \<noteq> []" and "findConnectionByServicePubkey (sv_db s) key = Some conn"
    and "ne_pubkey ev = n_clientPubkey conn" and "\<not> isEventProcessed (sv_db s) (ne_id ev)" and "\<not> request_expired ev (clk 0)"
    and "pickRequestScheme (ne_tags ev) = Inr scheme" and "ci_decrypt (nx_cipher x key) scheme (ne_pubkey ev) (ne_content ev) = Inr plain"
    and "nx_parse x plain = Inr (Some q)"
  shows "handleEvent x clk ev s = serve_request x clk conn ev scheme q s"
  using assms live_connD [OF assms(3)] by (simp add: handleEvent_def andthen_def truthy_def accept_request_def)

text \<open>A request that can be read is answered exactly once, with the result of its handler or its error, and is
  then settled: whenever it is delivered again, by any relay and at any time, nothing happens.\<close>

theorem answered_once:
  assumes "first_tag ''p'' (ne_tags ev) = Some key" and "key \<noteq> []" and "findConnectionByServicePubkey (sv_db s) key = Some conn"
    and "ne_pubkey ev = n_clientPubkey conn" and "\<not> isEventProcessed (sv_db s) (ne_id ev)" and "\<not> request_expired ev (clk 0)"
    and "pickRequestScheme (ne_tags ev) = Inr scheme" and "ci_decrypt (nx_cipher x key) scheme (ne_pubkey ev) (ne_content ev) = Inr plain"
    and "nx_parse x plain = Inr (Some q)" and "ci_usable (nx_cipher x key) scheme (ne_pubkey ev)"
  shows "\<exists>t body. handleEvent x clk ev s = (Inr (), t) \<and> sv_out t = sv_out s @ [response_to x conn ev scheme body]
     \<and> body = (case fst (nwc_dispatch x clk conn ev q (sv_db s)) of Inr a \<Rightarrow> Nwc_result (nr_method q) a
         | Inl e \<Rightarrow> nwc_error_body (nr_method q) e)
     \<and> (\<forall>x' clk'. handleEvent x' clk' ev t = (Inr (), t))"
proof -
  let ?body = "case fst (nwc_dispatch x clk conn ev q (sv_db s)) of Inr a \<Rightarrow> Nwc_result (nr_method q) a
         | Inl e \<Rightarrow> nwc_error_body (nr_method q) e"
  let ?t = "s\<lparr>sv_db := dispatched x clk conn ev q (sv_db s), sv_out := sv_out s @ [response_to x conn ev scheme ?body]\<rparr>"
  have key: "n_servicePubkey conn = key" using live_connD [OF assms(3)] by simp
  have "handleEvent x clk ev s = serve_request x clk conn ev scheme q s"
    by (rule handleEvent_serves [where key = key and plain = plain]) (fact assms)+
  then have "handleEvent x clk ev s = (Inr (), ?t)" using serve_request_eq(1) [of x conn scheme ev clk q s] assms(10) key by simp
  moreover have "isEventProcessed (sv_db ?t) (ne_id ev)"
    by (simp add: isEventProcessed_def dispatched_def markEventProcessed_def)
  then have "handleEvent x' clk' ev ?t = (Inr (), ?t)" for x' clk' by (rule seen_deaf)
  ultimately show ?thesis by auto
qed

subsection \<open>One event, one payment\<close>

definition ledger_frozen :: "db \<Rightarrow> db \<Rightarrow> bool" where
  "ledger_frozen d t \<longleftrightarrow> txs t = txs d \<and> conns t = conns d \<and> history t = history d \<and> boltzSwaps t = boltzSwaps d \<and> calls t = calls d"

interpretation frz: progress ledger_frozen
  by unfold_locales (simp_all add: ledger_frozen_def)

lemma frz_await: "moves ledger_frozen (await ask)"
  by (simp add: moves_def ledger_frozen_def await_def)

lemma frz_clock: "moves ledger_frozen (clock_ms now)"
  by (simp add: clock_ms_def moves_def ledger_frozen_def)

lemma frz_create: "moves ledger_frozen (repo_create row now)"
  by (simp add: moves_def repo_create_def Let_def ledger_frozen_def)

lemma frz_issue: "moves ledger_frozen (issueInvoice w sats desc h)"
  unfolding issueInvoice_def issueAtomicReceive_def Let_def
  by (intro frz.moves_rules frz_await frz_clock frz_create)

lemma frozen_make:
  assumes "event \<in> t_event ` set (txs d)"
  shows "ledger_frozen d (snd (handleMakeInvoice (\<lambda>sats desc h. andthen (issueInvoice w sats desc h) (\<lambda>i. ret (nwc_issued i)))
    conn event amount desc h now d))"
proof -
  have "triple (\<lambda>t. ledger_frozen d t) (andthen (issueInvoice w sats desc h) (\<lambda>i. ret (nwc_issued i))) (\<lambda>i t. ledger_frozen d t) (\<lambda>e t. ledger_frozen d t)" for sats
    by (rule triple_moves [of ledger_frozen]) (intro frz.moves_rules frz_issue, rule frz.R_trans)
  then have issue: "triple (ledger_frozen d) (catching (andthen (issueInvoice w sats desc h) (\<lambda>i. ret (nwc_issued i))) (\<lambda>e. throw (g e)))
      (\<lambda>i. ledger_frozen d) (\<lambda>e. ledger_frozen d)" for sats g
    by (rule triple_catching) (rule triple_throw)
  have "snd (make_record c event iss msat desc now t) = t" if "ledger_frozen d t" for c iss msat t
    using assms that by (auto simp: make_record_def Let_def andthen_def insert_tx_def make_row_def ledger_frozen_def)
  then have made: "triple (\<lambda>t. ledger_frozen d t) (make_record c event iss msat desc now) (\<lambda>i t. ledger_frozen d t) (\<lambda>e t. ledger_frozen d t)" for c iss msat
    by (intro tripleI) (metis snd_conv)+
  have "triple (ledger_frozen d) (handleMakeInvoice (\<lambda>sats desc h. andthen (issueInvoice w sats desc h) (\<lambda>i. ret (nwc_issued i)))
      conn event amount desc h now) (\<lambda>i. ledger_frozen d) (\<lambda>e. ledger_frozen d)"
    unfolding handleMakeInvoice_def
    by (rule triple_andthen [where R = "\<lambda>i. ledger_frozen d"], rule triple_lift, assumption, assumption, rule triple_andthen [OF issue made])
  note kept = triple_Inr [OF this frz.R_refl] triple_Inl [OF this frz.R_refl]
  obtain r t where "handleMakeInvoice (\<lambda>sats desc h. andthen (issueInvoice w sats desc h) (\<lambda>i. ret (nwc_issued i)))
      conn event amount desc h now d = (r, t)" by fastforce
  then show ?thesis using kept by (cases r) auto
qed

lemma frozen_pay:
  assumes "event \<in> t_event ` set (txs d)"
  shows "snd (handlePayInvoice z dec send conn event param now end_time d) = d"
proof -
  obtain r d' where run: "pay_begin z dec conn event param now d = (r, d')" by fastforce
  from run have "d' = d \<and> (\<forall>dinv msat. r \<noteq> Inr (Sending dinv msat))"
    by (rule pay_begin_cases) (use assms in auto)
  with run show ?thesis
    by (cases r) (auto simp: handlePayInvoice_def andthen_def split: pay_start.split)
qed

lemma frozen_dispatch:
  assumes "ne_id ev \<in> t_event ` set (txs d)"
  shows "ledger_frozen d (snd (nwc_dispatch x clk conn ev q d))"
proof -
  have frozen: "moves ledger_frozen (andthen (reading f) (\<lambda>r. andthen (lift_res r) (\<lambda>y. ret (g y))))" for f :: "db \<Rightarrow> err + 'b" and g :: "'b \<Rightarrow> nwc_answer"
    by (intro frz.moves_rules)
  have balance: "moves ledger_frozen (handleGetBalance ask)" for ask
    unfolding handleGetBalance_def by (intro frz.moves_rules frz_await)
  have tail: "snd (andthen m (\<lambda>y. ret (g y)) d) = snd (m d)" for m :: "'c bridge" and g :: "'c \<Rightarrow> nwc_answer"
    by (cases "m d"; cases "fst (m d)") (auto simp: andthen_def)
  show ?thesis
    using frozen_make [OF assms] frozen_pay [OF assms] movesD [OF balance] movesD [OF frozen] frz.R_refl
    by (auto simp: nwc_dispatch_def with_params_def tail split: option.split)
qed


subsection \<open>A run\<close>

definition sample_nostr :: nostr_world where
  "sample_nostr = \<lparr>nx_network = Mutinynet, nx_clock = \<lparr>z_local = (\<lambda>t. t), z_utc = (\<lambda>t. t)\<rparr>, nx_decode = sample_decode, nx_pay = sample_payer,
     nx_receive = sample_receive_world, nx_balance = (\<lambda>t. Inr (7, 2)),
     nx_cipher = (\<lambda>k. \<lparr>ci_decrypt = (\<lambda>c p s. Inr s), ci_usable = (\<lambda>c p. True)\<rparr>),
     nx_parse = (\<lambda>s. Inr (Some \<lparr>nr_method = s, nr_params = Some \<lparr>qp_invoice = Some ''lnbc'', qp_amount = None, qp_description = None,
       qp_descriptionHash = None, qp_paymentHash = None, qp_list = \<lparr>ls_from = None, ls_until = None, ls_limit = None, ls_offset = None,
       ls_unpaid = False, ls_type = None\<rparr>\<rparr>\<rparr>)), nx_infoKind = 13194, nx_responseKind = 23195\<rparr>"

definition sample_client :: connection where
  "sample_client = \<lparr>n_id = 1, n_label = None, n_servicePubkey = ''svc'', n_clientPubkey = ''cli'', n_relays = [''r1''], n_budgetMsat = None,
      n_budgetRenewal = Never, n_spentMsat = 0, n_createdAt = 0, n_revokedAt = None\<rparr>"

definition request_of :: "string \<Rightarrow> nostr_event" where
  "request_of meth = \<lparr>ne_id = ''ev'', ne_pubkey = ''cli'', ne_tags = [[''p'', ''svc''], [''encryption'', ''nip44_v2'']], ne_content = meth\<rparr>"

definition nostr_boot :: "tx_row list \<Rightarrow> service_state" where
  "nostr_boot rows = \<lparr>sv_db = empty_db\<lparr>conns := [sample_client], txs := rows\<rparr>, sv_offers = [], sv_subdust = [], sv_noffer = None, sv_out = []\<rparr>"

lemma request_facts:
  "first_tag ''p'' (ne_tags (request_of m)) = Some ''svc''" "ne_id (request_of m) = ''ev''" "ne_pubkey (request_of m) = ''cli''"
  "findConnectionByServicePubkey (sv_db (nostr_boot rows)) ''svc'' = Some sample_client" "n_clientPubkey sample_client = ''cli''"
  "\<not> isEventProcessed (sv_db (nostr_boot rows)) e" "\<not> request_expired (request_of m) now" "pickRequestScheme (ne_tags (request_of m)) = Inr Nip44_v2"
  "ci_decrypt (nx_cipher sample_nostr k) c p s = Inr s" "ci_usable (nx_cipher sample_nostr k) c p" "ne_content (request_of m) = m"
  by (simp_all add: request_of_def first_tag_def tag_is_def tag_value_def findConnectionByServicePubkey_def nostr_boot_def sample_client_def
      isEventProcessed_def empty_db_def request_expired_def truthy_def pickRequestScheme_def sample_nostr_def Let_def)

theorem answered_once_witness:
  "\<exists>t. handleEvent sample_nostr (\<lambda>n. 100) (request_of ''get_balance'') (nostr_boot []) = (Inr (), t)
     \<and> sv_out t = [response_to sample_nostr sample_client (request_of ''get_balance'') Nip44_v2 (Nwc_result ''get_balance'' (Balance 9000))]
     \<and> handleEvent sample_nostr (\<lambda>n. 200) (request_of ''get_balance'') t = (Inr (), t)"
proof -
  let ?q = "the (projr (nx_parse sample_nostr ''get_balance''))"
  have q: "nx_parse sample_nostr ''get_balance'' = Inr (Some ?q)" "nr_method ?q = ''get_balance''" by (simp_all add: sample_nostr_def)
  have "fst (nwc_dispatch sample_nostr (\<lambda>n. 100) sample_client (request_of ''get_balance'') ?q (sv_db (nostr_boot []))) = Inr (Balance 9000)"
    by (simp add: nwc_dispatch_def q(2) handleGetBalance_def andthen_def await_def sample_nostr_def satsToMsats_def)
  moreover have "sv_out (nostr_boot []) = []" by (simp add: nostr_boot_def)
  ultimately show ?thesis
    using answered_once [of "request_of ''get_balance''" "''svc''" "nostr_boot []" sample_client "\<lambda>n. 100" Nip44_v2 sample_nostr "''get_balance''" ?q]
      q by (auto simp: request_facts)
qed

theorem requests_authorized_witness:
  "\<exists>conn. n_servicePubkey conn = ''svc'' \<and> n_clientPubkey conn = ''cli''
     \<and> answers_one sample_nostr conn (request_of ''get_info'') (nostr_boot []) (snd (handleEvent sample_nostr (\<lambda>n. 100) (request_of ''get_info'') (nostr_boot [])))"
proof -
  let ?s = "nostr_boot []" and ?ev = "request_of ''get_info''"
  obtain q where q: "nx_parse sample_nostr ''get_info'' = Inr (Some q)" by (simp add: sample_nostr_def)
  have "handleEvent sample_nostr (\<lambda>n. 100) ?ev ?s = serve_request sample_nostr (\<lambda>n. 100) sample_client ?ev Nip44_v2 q ?s"
    using handleEvent_serves [of ?ev "''svc''" ?s sample_client "\<lambda>n. 100" Nip44_v2 sample_nostr "''get_info''" q] q by (simp add: request_facts)
  then have "sv_out (snd (handleEvent sample_nostr (\<lambda>n. 100) ?ev ?s)) \<noteq> sv_out ?s"
    using serve_request_eq(1) [of sample_nostr sample_client Nip44_v2 ?ev "\<lambda>n. 100" q ?s] by (simp add: request_facts)
  then have "snd (handleEvent sample_nostr (\<lambda>n. 100) ?ev ?s) \<noteq> ?s" by auto
  from requests_authorized [OF prod.collapse [symmetric] this] show ?thesis by (auto simp: request_facts)
qed


theorem revoked_connection_deaf_witness:
  "handleEvent sample_nostr (\<lambda>n. 100) (request_of ''pay_invoice'') ((nostr_boot [])\<lparr>sv_db := revokeConnection 60 1 (sv_db (nostr_boot []))\<rparr>)
     = (Inr (), (nostr_boot [])\<lparr>sv_db := revokeConnection 60 1 (sv_db (nostr_boot []))\<rparr>)"
  by (rule revoked_connection_deaf [where key = "''svc''"])
    (auto simp: request_facts(1), simp add: nostr_boot_def sample_client_def)

end
