(* ===== verification/Relay_Net.thy ===== *)
theory Relay_Net
  imports Complex_Main Prelude
begin

text \<open>
  Staying connected: the gate that decides whether a new socket to a relay may be opened (\<open>src/nostr/relay_gate.ts\<close>) and the
  subscriptions that outlive their sockets (\<open>src/nostr/persistent_sub.ts\<close>). Times are milliseconds; a reading of the clock and
  of the random source is an argument, as is what the pool says of the socket; within one
  synchronous operation the clock reads the same. The tables keyed by relay are maps; within an
  operation only the entry of the one relay matters, so each is a step on that entry.
\<close>

subsection \<open>The gate\<close>

definition BASE_DELAY_MS :: int where "BASE_DELAY_MS = 5000"
definition MAX_DELAY_MS :: int where "MAX_DELAY_MS = 5 * 60000"
definition JITTER :: rat where "JITTER = 1 / 5"
definition STABLE_AFTER_MS :: int where "STABLE_AFTER_MS = 60000"

record gate_opts =
  go_base :: int
  go_max :: int
  go_stable :: int

definition default_opts :: gate_opts where
  "default_opts = \<lparr>go_base = BASE_DELAY_MS, go_max = MAX_DELAY_MS, go_stable = STABLE_AFTER_MS\<rparr>"

record relay_state =
  rs_failures :: nat
  rs_blockedUntil :: int
  rs_upSince :: "int option"

definition fresh_relay :: relay_state where
  "fresh_relay = \<lparr>rs_failures = 0, rs_blockedUntil = 0, rs_upSince = None\<rparr>"

text \<open>\<open>Math.round\<close>: half up.\<close>

definition js_round :: "rat \<Rightarrow> int" where
  "js_round q = \<lfloor>q + 1 / 2\<rfloor>"

definition backoff :: "gate_opts \<Rightarrow> nat \<Rightarrow> int" where
  "backoff opt n = min (go_base opt * 2 ^ (n - 1)) (go_max opt)"

definition gate_penalize :: "gate_opts \<Rightarrow> int \<Rightarrow> rat \<Rightarrow> relay_state \<Rightarrow> relay_state" where
  "gate_penalize opt now random s =
     (let n = Suc (rs_failures s); delay = js_round (of_int (backoff opt n) * (1 + JITTER * (2 * random - 1))) in
      s\<lparr>rs_failures := n, rs_blockedUntil := now + delay\<rparr>)"

definition gate_allow :: "gate_opts \<Rightarrow> bool \<Rightarrow> int \<Rightarrow> rat \<Rightarrow> relay_state \<Rightarrow> bool \<times> relay_state" where
  "gate_allow opt linked t random s =
     (if linked
      then (let up = (case rs_upSince s of None \<Rightarrow> t | Some u \<Rightarrow> u); s' = s\<lparr>rs_upSince := Some up\<rparr> in
        (True, if 0 < rs_failures s \<and> go_stable opt \<le> t - up then s'\<lparr>rs_failures := 0\<rparr> else s'))
      else (let s' = (case rs_upSince s of
                None \<Rightarrow> s
              | Some u \<Rightarrow> (let down = s\<lparr>rs_upSince := None\<rparr> in
                  if go_stable opt \<le> t - u then down\<lparr>rs_failures := 0, rs_blockedUntil := 0\<rparr> else gate_penalize opt t random down)) in
        (rs_blockedUntil s' \<le> t, s')))"

definition gate_failed :: "gate_opts \<Rightarrow> int \<Rightarrow> rat \<Rightarrow> relay_state \<Rightarrow> relay_state" where
  "gate_failed opt now random s = (let down = s\<lparr>rs_upSince := None\<rparr> in
     if now < rs_blockedUntil s then down else gate_penalize opt now random down)"

definition gate_succeeded :: "int \<Rightarrow> relay_state \<Rightarrow> relay_state" where
  "gate_succeeded now s = (case rs_upSince s of None \<Rightarrow> s\<lparr>rs_upSince := Some now\<rparr> | Some u \<Rightarrow> s)"

text \<open>The table of the gate, under the pool's form of a URL; \<open>stateOf\<close> creates an entry where there is none.\<close>

type_synonym gate = "string \<Rightarrow> relay_state option"

definition stateOf :: "gate \<Rightarrow> string \<Rightarrow> relay_state" where
  "stateOf g url = (case g url of None \<Rightarrow> fresh_relay | Some s \<Rightarrow> s)"

definition allow_relay :: "gate_opts \<Rightarrow> (string \<Rightarrow> string) \<Rightarrow> (string \<Rightarrow> bool) \<Rightarrow> int \<Rightarrow> rat \<Rightarrow> string \<Rightarrow> gate \<Rightarrow> bool \<times> gate" where
  "allow_relay opt norm_url linked t random rawUrl g = (let url = norm_url rawUrl in
     case gate_allow opt (linked url) t random (stateOf g url) of (b, s) \<Rightarrow> (b, g(url \<mapsto> s)))"

definition relay_failed :: "gate_opts \<Rightarrow> (string \<Rightarrow> string) \<Rightarrow> int \<Rightarrow> rat \<Rightarrow> string \<Rightarrow> gate \<Rightarrow> gate" where
  "relay_failed opt norm_url now random rawUrl g = (let url = norm_url rawUrl in g(url \<mapsto> gate_failed opt now random (stateOf g url)))"

definition relay_succeeded :: "(string \<Rightarrow> string) \<Rightarrow> int \<Rightarrow> string \<Rightarrow> gate \<Rightarrow> gate" where
  "relay_succeeded norm_url now rawUrl g = (let url = norm_url rawUrl in g(url \<mapsto> gate_succeeded now (stateOf g url)))"

definition retryInMs :: "(string \<Rightarrow> string) \<Rightarrow> int \<Rightarrow> string \<Rightarrow> gate \<Rightarrow> int" where
  "retryInMs norm_url now rawUrl g = (case g (norm_url rawUrl) of None \<Rightarrow> 0 | Some s \<Rightarrow> max 0 (rs_blockedUntil s - now))"

text \<open>\<open>ensure\<close>: up to the connect, and what its outcome does.\<close>

definition ensure_relay :: "gate_opts \<Rightarrow> (string \<Rightarrow> string) \<Rightarrow> (string \<Rightarrow> bool) \<Rightarrow> (string \<Rightarrow> bool) \<Rightarrow> int \<Rightarrow> int \<Rightarrow> rat \<Rightarrow> rat \<Rightarrow> string \<Rightarrow> gate \<Rightarrow> bool \<times> gate" where
  "ensure_relay opt norm_url linked connects t t' random random' rawUrl g =
     (let url = norm_url rawUrl in case allow_relay opt norm_url linked t random url g of
        (False, g') \<Rightarrow> (False, g')
      | (True, g') \<Rightarrow> (if connects url then (True, relay_succeeded norm_url t' url g') else (False, relay_failed opt norm_url t' random' url g')))"

subsection \<open>One relay under the gate\<close>

datatype gate_event = Asked bool int rat | Broke int rat | Came_up int

fun gate_step :: "gate_opts \<Rightarrow> gate_event \<Rightarrow> relay_state \<Rightarrow> relay_state" where
  "gate_step opt (Asked linked t r) s = snd (gate_allow opt linked t r s)"
| "gate_step opt (Broke t r) s = gate_failed opt t r s"
| "gate_step opt (Came_up t) s = gate_succeeded t s"

fun event_time :: "gate_event \<Rightarrow> int" where
  "event_time (Asked c t r) = t" | "event_time (Broke t r) = t" | "event_time (Came_up t) = t"

fun fair_dice :: "gate_event \<Rightarrow> bool" where
  "fair_dice (Asked c t r) \<longleftrightarrow> 0 \<le> r \<and> r < 1" | "fair_dice (Broke t r) \<longleftrightarrow> 0 \<le> r \<and> r < 1" | "fair_dice (Came_up t) \<longleftrightarrow> True"

definition gate_run :: "gate_opts \<Rightarrow> gate_event list \<Rightarrow> relay_state \<Rightarrow> relay_state" where
  "gate_run opt evs s = foldl (\<lambda>s e. gate_step opt e s) s evs"

subsection \<open>Persistent subscriptions\<close>

definition RESUME_SKEW_SEC :: int where "RESUME_SKEW_SEC = 60"
definition MAX_RESUME_LOOKBACK_SEC :: int where "MAX_RESUME_LOOKBACK_SEC = 300"
definition SEEN_IDS_MAX :: nat where "SEEN_IDS_MAX = 4096"

text \<open>A set of JavaScript keeps the order of insertion; past the bound the oldest half goes.\<close>

definition alreadyHaveEvent :: "string list \<Rightarrow> string \<Rightarrow> bool \<times> string list" where
  "alreadyHaveEvent seen i = (if i \<in> set seen then (True, seen)
     else (let grown = seen @ [i] in
       (False, if SEEN_IDS_MAX < length grown then drop (length grown - SEEN_IDS_MAX div 2) grown else grown)))"

record relay_entry =
  re_serial :: nat
  re_alive :: bool
  re_deadSince :: "int option"

record relay_sub =
  sb_entries :: "(string \<times> relay_entry) list"
  sb_seen :: "string list"
  sb_counter :: nat
  sb_closed :: bool

definition resume_from :: "int option \<Rightarrow> int \<Rightarrow> int" where
  "resume_from dead now = (let nowSec = now div 1000 in case dead of
     None \<Rightarrow> nowSec
   | Some d \<Rightarrow> max (d div 1000 - RESUME_SKEW_SEC) (nowSec - MAX_RESUME_LOOKBACK_SEC))"

definition set_entry :: "string \<Rightarrow> relay_entry \<Rightarrow> relay_sub \<Rightarrow> relay_sub" where
  "set_entry url e u = u\<lparr>sb_entries := map (\<lambda>(k, old). if k = url then (k, e) else (k, old)) (sb_entries u)\<rparr>"

text \<open>Attaching issues a request from the time returned (\<open>since\<close>), under a fresh serial.\<close>

definition sub_attach :: "int \<Rightarrow> string \<Rightarrow> relay_sub \<Rightarrow> (int \<times> nat) option \<times> relay_sub" where
  "sub_attach now url u = (case map_of (sb_entries u) url of
     None \<Rightarrow> (None, u)
   | Some e \<Rightarrow> (let n = Suc (sb_counter u) in
      (Some (resume_from (re_deadSince e) now, n),
       set_entry url (e\<lparr>re_serial := n, re_alive := True\<rparr>) (u\<lparr>sb_counter := n\<rparr>))))"

definition sub_onclose :: "int \<Rightarrow> string \<Rightarrow> nat \<Rightarrow> relay_sub \<Rightarrow> relay_sub" where
  "sub_onclose now url serial u = (if sb_closed u then u else case map_of (sb_entries u) url of
     None \<Rightarrow> u
   | Some e \<Rightarrow> (if re_serial e \<noteq> serial then u
       else set_entry url (e\<lparr>re_alive := False, re_deadSince := Some (case re_deadSince e of None \<Rightarrow> now | Some d \<Rightarrow> d)\<rparr>) u))"

definition tick_entry :: "int \<Rightarrow> relay_sub \<Rightarrow> string \<Rightarrow> relay_sub" where
  "tick_entry now u url = (case map_of (sb_entries u) url of
     None \<Rightarrow> u
   | Some e \<Rightarrow> (if re_alive e then set_entry url (e\<lparr>re_deadSince := None\<rparr>) u else snd (sub_attach now url u)))"

definition sub_tick :: "int \<Rightarrow> relay_sub \<Rightarrow> relay_sub" where
  "sub_tick now u = foldl (tick_entry now) u (map fst (sb_entries u))"

definition openPersistentSub :: "int \<Rightarrow> string list \<Rightarrow> relay_sub" where
  "openPersistentSub now relays =
     (let u = \<lparr>sb_entries = map (\<lambda>r. (r, \<lparr>re_serial = 0, re_alive = False, re_deadSince = None\<rparr>)) (rev (remdups (rev relays))),
               sb_seen = [], sb_counter = 0, sb_closed = False\<rparr>
      in foldl (\<lambda>u url. snd (sub_attach now url u)) u (map fst (sb_entries u)))"

definition sub_close :: "relay_sub \<Rightarrow> relay_sub" where
  "sub_close u = u\<lparr>sb_closed := True, sb_entries := []\<rparr>"

text \<open>An event that arrives from any of the relays is handed on unless it was seen.\<close>

definition sub_event :: "string \<Rightarrow> relay_sub \<Rightarrow> bool \<times> relay_sub" where
  "sub_event i u = (case alreadyHaveEvent (sb_seen u) i of (seen, ids) \<Rightarrow> (\<not> seen, u\<lparr>sb_seen := ids\<rparr>))"

fun handed_on :: "string list \<Rightarrow> string list \<Rightarrow> string list" where
  "handed_on seen [] = []"
| "handed_on seen (i # is) = (case alreadyHaveEvent seen i of (True, s) \<Rightarrow> handed_on s is | (False, s) \<Rightarrow> i # handed_on s is)"

end
