(* ===== verification/Relay_Safety.thy ===== *)
theory Relay_Safety
  imports Relay_Net
begin

text \<open>
  What the relay layer guarantees: a relay that refuses is tried ever more rarely but never given up, one event is handed on
  once although every relay delivers it, and a subscription that comes back asks from the time it died.
\<close>

subsection \<open>The delay after a failure\<close>

lemma backoff_range: "0 < n \<Longrightarrow> 5000 \<le> backoff default_opts n \<and> backoff default_opts n \<le> 300000"
  by (simp add: backoff_def default_opts_def BASE_DELAY_MS_def MAX_DELAY_MS_def)

lemma jitter_range:
  fixes e :: int and r :: rat
  assumes "0 \<le> r" and "r < 1" and "0 \<le> e"
  shows "4 * e \<le> 5 * js_round (of_int e * (1 + JITTER * (2 * r - 1))) + 2" "5 * js_round (of_int e * (1 + JITTER * (2 * r - 1))) \<le> 6 * e + 2"
proof -
  let ?q = "of_int e * (1 + JITTER * (2 * r - 1)) :: rat"
  have "4 / 5 \<le> 1 + JITTER * (2 * r - 1)" "1 + JITTER * (2 * r - 1) \<le> 6 / 5" using assms(1,2) by (simp_all add: JITTER_def field_simps)
  then have low: "of_int e * (4 / 5) \<le> ?q" and high: "?q \<le> of_int e * (6 / 5)"
    using assms(3) by (intro mult_left_mono; simp)+
  have "?q + 1 / 2 < of_int (js_round ?q) + 1" "of_int (js_round ?q) \<le> ?q + 1 / 2" unfolding js_round_def by linarith+
  then have "of_int (4 * e) < (of_int (5 * js_round ?q + 3) :: rat)" "of_int (5 * js_round ?q) < (of_int (6 * e + 3) :: rat)"
    using low high by simp_all
  then show "4 * e \<le> 5 * js_round ?q + 2" "5 * js_round ?q \<le> 6 * e + 2" unfolding of_int_less_iff by simp_all
qed

definition delay_of :: "nat \<Rightarrow> rat \<Rightarrow> int" where
  "delay_of n r = js_round (of_int (backoff default_opts n) * (1 + JITTER * (2 * r - 1)))"

text \<open>Four fifths of the nominal delay, which is a whole number of milliseconds.\<close>

definition least_delay :: "nat \<Rightarrow> int" where
  "least_delay n = min (4000 * 2 ^ (n - 1)) 240000"

lemma delay_bounds:
  assumes "0 \<le> r" and "r < 1" and "0 < n"
  shows "least_delay n \<le> delay_of n r \<and> delay_of n r \<le> 360000"
proof -
  have b: "backoff default_opts n = min (5000 * 2 ^ (n - 1)) 300000"
    by (simp add: backoff_def default_opts_def BASE_DELAY_MS_def MAX_DELAY_MS_def)
  have "4 * backoff default_opts n = 5 * least_delay n" by (simp add: b least_delay_def min_def)
  with jitter_range [OF assms(1,2), of "backoff default_opts n"] backoff_range [OF assms(3)]
  show ?thesis unfolding delay_of_def by simp
qed

lemma penalize_eq: "gate_penalize default_opts now r s = s\<lparr>rs_failures := Suc (rs_failures s), rs_blockedUntil := now + delay_of (Suc (rs_failures s)) r\<rparr>"
  by (simp add: gate_penalize_def delay_of_def Let_def)

subsection \<open>A relay that refuses\<close>

fun never_up :: "gate_event \<Rightarrow> bool" where
  "never_up (Asked linked t r) \<longleftrightarrow> \<not> linked" | "never_up (Broke t r) \<longleftrightarrow> True" | "never_up (Came_up t) \<longleftrightarrow> False"

fun spacing :: "nat \<Rightarrow> int" where
  "spacing 0 = 0" | "spacing (Suc 0) = 0" | "spacing (Suc (Suc n)) = spacing (Suc n) + least_delay (Suc n)"

lemma spacing_four_minutes: "240000 * (int n - 7) \<le> spacing n"
proof (induction n rule: spacing.induct)
  case (3 n)
  have "0 \<le> spacing (Suc n)" by (induction n) (simp_all add: least_delay_def)
  show ?case
  proof (cases "6 \<le> n")
    case True
    then have "(2 :: int) ^ 6 \<le> 2 ^ n" by (intro power_increasing) auto
    then have "least_delay (Suc n) = 240000" by (simp add: least_delay_def)
    with 3 show ?thesis by simp
  next
    case False
    then have "240000 * (int (Suc (Suc n)) - 7) \<le> 0" by simp
    moreover have "0 \<le> spacing (Suc (Suc n))" using \<open>0 \<le> spacing (Suc n)\<close> by (simp add: least_delay_def)
    ultimately show ?thesis by linarith
  qed
qed simp_all

definition gate_inv :: "int \<Rightarrow> int \<Rightarrow> relay_state \<Rightarrow> bool" where
  "gate_inv t0 t s \<longleftrightarrow> rs_upSince s = None \<and> (rs_failures s = 0 \<longrightarrow> rs_blockedUntil s = 0)
     \<and> (0 < rs_failures s \<longrightarrow> t0 + spacing (rs_failures s) \<le> t \<and> t0 + spacing (Suc (rs_failures s)) \<le> rs_blockedUntil s)"

lemma gate_inv_step:
  assumes "gate_inv t0 t s" and "never_up e" and "fair_dice e" and "t \<le> event_time e" and "0 \<le> t0" and "t0 \<le> t"
  shows "gate_inv t0 (event_time e) (gate_step default_opts e s)"
proof (cases e)
  case (Asked linked u r)
  then show ?thesis using assms by (auto simp: gate_allow_def gate_inv_def Let_def)
next
  case (Broke u r)
  show ?thesis
  proof (cases "u < rs_blockedUntil s")
    case True
    then show ?thesis using assms Broke by (auto simp: gate_failed_def gate_inv_def Let_def)
  next
    case False
    have "least_delay (Suc (rs_failures s)) \<le> delay_of (Suc (rs_failures s)) r"
      using delay_bounds [of r "Suc (rs_failures s)"] assms(3) Broke by simp
    then show ?thesis using assms Broke False
      by (cases "rs_failures s") (auto simp: gate_failed_def gate_inv_def Let_def penalize_eq)
  qed
qed (use assms in simp)

definition in_order :: "int \<Rightarrow> gate_event list \<Rightarrow> bool" where
  "in_order t0 evs \<longleftrightarrow> sorted (t0 # map event_time evs)"

definition last_time :: "int \<Rightarrow> gate_event list \<Rightarrow> int" where
  "last_time t0 evs = last (t0 # map event_time evs)"

lemma gate_inv_run:
  assumes "in_order t0 evs" and "0 \<le> t0" and "list_all never_up evs" and "list_all fair_dice evs"
  shows "gate_inv t0 (last_time t0 evs) (gate_run default_opts evs fresh_relay) \<and> t0 \<le> last_time t0 evs"
  using assms
proof (induction evs rule: rev_induct)
  case Nil
  then show ?case by (simp add: gate_inv_def gate_run_def fresh_relay_def last_time_def)
next
  case (snoc e evs)
  have IH: "gate_inv t0 (last_time t0 evs) (gate_run default_opts evs fresh_relay)" "t0 \<le> last_time t0 evs"
    using snoc by (auto simp: in_order_def sorted_append)
  have "last_time t0 evs \<in> set (t0 # map event_time evs)" unfolding last_time_def by (rule last_in_set) simp
  then have "last_time t0 evs \<le> event_time e" using snoc.prems(1) by (auto simp: in_order_def sorted_append)
  moreover have "last_time t0 (evs @ [e]) = event_time e" by (simp add: last_time_def)
  ultimately show ?case using gate_inv_step [OF IH(1), of e] IH(2) snoc.prems by (simp add: gate_run_def)
qed


subsection \<open>Never given up\<close>

definition gate_reachable :: "int \<Rightarrow> relay_state \<Rightarrow> bool" where
  "gate_reachable t s \<longleftrightarrow> rs_blockedUntil s \<le> t + 360000 \<and> (\<forall>u. rs_upSince s = Some u \<longrightarrow> u \<le> t)"

lemma gate_reachable_step:
  assumes "gate_reachable t s" and "fair_dice e" and "t \<le> event_time e" and "0 \<le> t"
  shows "gate_reachable (event_time e) (gate_step default_opts e s)"
proof -
  have "delay_of (Suc n) r \<le> 360000" if "0 \<le> r" "r < 1" for n r using delay_bounds [OF that] by blast
  then show ?thesis
    using assms by (cases e) (fastforce simp: gate_reachable_def gate_allow_def gate_failed_def gate_succeeded_def penalize_eq Let_def
        split: option.splits)+
qed

lemma gate_reachable_run:
  assumes "in_order t0 evs" and "0 \<le> t0" and "list_all fair_dice evs"
  shows "gate_reachable (last_time t0 evs) (gate_run default_opts evs fresh_relay) \<and> t0 \<le> last_time t0 evs"
  using assms
proof (induction evs rule: rev_induct)
  case Nil
  then show ?case by (simp add: gate_reachable_def gate_run_def fresh_relay_def last_time_def)
next
  case (snoc e evs)
  have IH: "gate_reachable (last_time t0 evs) (gate_run default_opts evs fresh_relay)" "t0 \<le> last_time t0 evs"
    using snoc by (auto simp: in_order_def sorted_append)
  have "last_time t0 evs \<in> set (t0 # map event_time evs)" unfolding last_time_def by (rule last_in_set) simp
  then have "last_time t0 evs \<le> event_time e" using snoc.prems(1) by (auto simp: in_order_def sorted_append)
  moreover have "last_time t0 (evs @ [e]) = event_time e" by (simp add: last_time_def)
  ultimately show ?case using gate_reachable_step [OF IH(1), of e] IH(2) snoc.prems by (simp add: gate_run_def)
qed

text \<open>Whatever a relay did, six minutes after the last thing the gate heard of it a new attempt is let through.\<close>

theorem relay_retried:
  assumes "in_order t0 evs" and "0 \<le> t0" and "list_all fair_dice evs" and "last_time t0 evs + 360000 \<le> t"
  shows "fst (gate_allow default_opts False t r (gate_run default_opts evs fresh_relay))"
  using gate_reachable_run [OF assms(1-3)] assms(2,4)
  by (auto simp: gate_reachable_def gate_allow_def Let_def default_opts_def STABLE_AFTER_MS_def split: option.split)

subsection \<open>Events are handed on once\<close>

definition apart :: "string list \<Rightarrow> bool" where
  "apart xs \<longleftrightarrow> (\<forall>j < length xs. \<forall>i < j. xs ! i = xs ! j \<longrightarrow> SEEN_IDS_MAX div 2 < j - i)"

definition remembers :: "string list \<Rightarrow> string list \<Rightarrow> bool" where
  "remembers past seen \<longleftrightarrow> (\<exists>k. seen = drop k past \<and> (k = 0 \<or> SEEN_IDS_MAX div 2 \<le> length seen))"

lemma remembers_recent:
  assumes "remembers past seen" and "i < length past" and "past ! i \<notin> set seen"
  shows "SEEN_IDS_MAX div 2 < length past - i"
proof -
  obtain k where k: "seen = drop k past" "k = 0 \<or> SEEN_IDS_MAX div 2 \<le> length seen" using assms(1) by (auto simp: remembers_def)
  have "i < k"
  proof (rule ccontr)
    assume "\<not> i < k"
    then have "past ! i = seen ! (i - k)" "i - k < length seen" using k(1) assms(2) by auto
    then show False using assms(3) nth_mem by metis
  qed
  then show ?thesis using k assms(2) by auto
qed

lemma apart_snoc:
  assumes "apart past" and "remembers past seen" and "i \<notin> set seen"
  shows "apart (past @ [i])"
  using assms remembers_recent [OF assms(2)] by (auto simp: apart_def nth_append less_Suc_eq)

lemma remembers_snoc:
  assumes "remembers past seen" and "i \<notin> set seen"
  shows "remembers (past @ [i]) (snd (alreadyHaveEvent seen i))"
proof -
  obtain k where k: "seen = drop k past" "k = 0 \<or> SEEN_IDS_MAX div 2 \<le> length seen" using assms(1) by (auto simp: remembers_def)
  have "k \<le> length past \<or> seen = []" using k(1) by auto
  let ?grown = "seen @ [i]"
  have grown: "?grown = drop (min k (length past)) (past @ [i])" using k(1) by (auto simp: min_def)
  show ?thesis
  proof (cases "SEEN_IDS_MAX < length ?grown")
    case True
    then have "snd (alreadyHaveEvent seen i) = drop (length ?grown - SEEN_IDS_MAX div 2 + min k (length past)) (past @ [i])"
      using assms(2) grown by (simp add: alreadyHaveEvent_def Let_def)
    moreover have "length (snd (alreadyHaveEvent seen i)) = SEEN_IDS_MAX div 2"
      using True assms(2) by (simp add: alreadyHaveEvent_def Let_def SEEN_IDS_MAX_def)
    ultimately show ?thesis unfolding remembers_def by (metis order_refl)
  next
    case False
    then have "snd (alreadyHaveEvent seen i) = drop (min k (length past)) (past @ [i])"
      using assms(2) grown by (simp add: alreadyHaveEvent_def Let_def)
    then show ?thesis unfolding remembers_def using k(2) grown by (intro exI [of _ "min k (length past)"]) auto
  qed
qed

lemma apart_handed_on: "apart past \<Longrightarrow> remembers past seen \<Longrightarrow> apart (past @ handed_on seen is)"
proof (induction "is" arbitrary: past seen)
  case (Cons i "is")
  show ?case
  proof (cases "i \<in> set seen")
    case True
    then show ?thesis using Cons by (simp add: alreadyHaveEvent_def)
  next
    case False
    obtain s where s: "alreadyHaveEvent seen i = (False, s)" using False by (simp add: alreadyHaveEvent_def Let_def)
    with Cons.IH [OF apart_snoc [OF Cons.prems False] , of s] remembers_snoc [OF Cons.prems(2) False] show ?thesis by simp
  qed
qed simp

lemma handed_on_all: "set ids \<subseteq> set seen \<union> set (handed_on seen ids) \<and> set (handed_on seen ids) \<subseteq> set ids"
proof (induction ids arbitrary: seen)
  case (Cons i ids)
  obtain b s where s: "alreadyHaveEvent seen i = (b, s)" by fastforce
  then have "set s \<subseteq> insert i (set seen)" "b \<longrightarrow> i \<in> set seen \<and> s = seen"
    using set_drop_subset [of _ "seen @ [i]"] by (fastforce simp: alreadyHaveEvent_def Let_def simp del: drop_append split: if_splits)+
  with Cons.IH [of s] s show ?case by (cases b) auto
qed simp

text \<open>The relays of a subscription deliver the same events independently. Every event is handed on, and among any
  2049 consecutive events handed on none is there twice: a request that comes from every relay is served once.\<close>

theorem events_handed_on_once:
  shows "distinct (take 2049 (drop k (handed_on [] ids))) \<and> set (handed_on [] ids) = set ids"
proof -
  have "apart ([] @ handed_on [] ids)" by (rule apart_handed_on) (simp_all add: apart_def remembers_def)
  then have far: "2048 < j - i" if "j < length (handed_on [] ids)" "i < j" "handed_on [] ids ! i = handed_on [] ids ! j" for i j
    using that by (auto simp: apart_def SEEN_IDS_MAX_def)
  let ?w = "take 2049 (drop k (handed_on [] ids))"
  have "?w ! i \<noteq> ?w ! j" if "i < j" "j < length ?w" for i j
  proof
    assume "?w ! i = ?w ! j"
    moreover have "k + j < length (handed_on [] ids)" using that(2) by auto
    ultimately have "2048 < j - i" using far [of "k + j" "k + i"] that by simp
    then show False using that(2) by auto
  qed
  then have "distinct ?w" by (metis distinct_conv_nth linorder_neqE_nat)
  with handed_on_all [of ids "[]"] show ?thesis by auto
qed

subsection \<open>Coming back\<close>

text \<open>One failed attempt of the retry timer: an attach whose socket goes away before the next tick.\<close>

definition failed_retry :: "string \<Rightarrow> relay_sub \<Rightarrow> int \<times> int \<Rightarrow> relay_sub" where
  "failed_retry url u pair = (case pair of (t, c) \<Rightarrow> sub_onclose c url (Suc (sb_counter u)) (tick_entry t u url))"

lemma map_of_set_entry:
  "map_of (sb_entries (set_entry url e u)) url = (if url \<in> fst ` set (sb_entries u) then Some e else None)"
proof -
  have "map_of (map (\<lambda>(k, old). if k = url then (k, e) else (k, old)) es) url = (if url \<in> fst ` set es then Some e else None)"
    for es :: "(string \<times> relay_entry) list"
    by (induction es) auto
  then show ?thesis by (simp add: set_entry_def)
qed

lemma set_entry_rest: "sb_counter (set_entry url e u) = sb_counter u" "sb_closed (set_entry url e u) = sb_closed u"
  "fst ` set (sb_entries (set_entry url e u)) = fst ` set (sb_entries u)"
  by (auto simp: set_entry_def image_iff split: if_splits) force+

definition dead_since :: "string \<Rightarrow> int \<Rightarrow> relay_sub \<Rightarrow> bool" where
  "dead_since url d u \<longleftrightarrow> \<not> sb_closed u \<and> (\<exists>e. map_of (sb_entries u) url = Some e \<and> \<not> re_alive e \<and> re_deadSince e = Some d)"

lemma failed_retry_dead: "dead_since url d u \<Longrightarrow> dead_since url d (failed_retry url u pair)"
proof -
  assume dead: "dead_since url d u"
  then obtain e where e: "\<not> sb_closed u" "map_of (sb_entries u) url = Some e" "\<not> re_alive e" "re_deadSince e = Some d"
    by (auto simp: dead_since_def)
  then have "url \<in> fst ` set (sb_entries u)" by (metis map_of_eq_None_iff option.distinct(1))
  with e show ?thesis
    by (cases pair) (auto simp: failed_retry_def tick_entry_def sub_attach_def sub_onclose_def dead_since_def map_of_set_entry set_entry_rest Let_def)
qed

text \<open>However often the retries fail, the subscription that finally stands asks from a minute before its socket
  died, or from five minutes back if that is later.\<close>

theorem resume_covers:
  assumes "dead_since url d u"
  shows "\<exists>n. fst (sub_attach t url (foldl (failed_retry url) u retries))
    = Some (max (d div 1000 - 60) (t div 1000 - 300), n)"
proof -
  have "dead_since url d (foldl (failed_retry url) u retries)"
    using assms by (induction retries arbitrary: u) (simp_all add: failed_retry_dead)
  then show ?thesis
    by (auto simp: dead_since_def sub_attach_def resume_from_def RESUME_SKEW_SEC_def MAX_RESUME_LOOKBACK_SEC_def Let_def)
qed

subsection \<open>Runs\<close>

definition two_refusals :: "gate_event list" where
  "two_refusals = [Asked False 1000 0, Broke 1000 (1 / 2), Broke 1001 (1 / 2), Asked False 7000 0, Broke 7000 (1 / 2)]"

lemma floor_half: "\<lfloor>1 / 2 :: rat\<rfloor> = 0"
  by (rule floor_unique) simp_all

lemma two_refusals_run: "gate_run default_opts two_refusals fresh_relay = \<lparr>rs_failures = 2, rs_blockedUntil = 17000, rs_upSince = None\<rparr>"
  by (simp add: gate_run_def two_refusals_def fresh_relay_def gate_allow_def gate_failed_def gate_penalize_def backoff_def default_opts_def
      BASE_DELAY_MS_def MAX_DELAY_MS_def JITTER_def js_round_def floor_half Let_def)


theorem relay_retried_witness:
  "fst (gate_allow default_opts False 367000 0 (gate_run default_opts two_refusals fresh_relay))"
  by (rule relay_retried [of 0]) (simp_all add: two_refusals_def in_order_def last_time_def)

definition died_at :: "int \<Rightarrow> relay_sub" where
  "died_at d = sub_onclose d ''r'' 1 (openPersistentSub 0 [''r''])"

theorem resume_covers_witness:
  "\<exists>n. fst (sub_attach 200000 ''r'' (foldl (failed_retry ''r'') (died_at 100000) [(105000, 106000), (110000, 112000)])) = Some (40, n)"
  using resume_covers [of "''r''" 100000 "died_at 100000" 200000 "[(105000, 106000), (110000, 112000)]"]
  by (simp add: dead_since_def died_at_def openPersistentSub_def sub_onclose_def sub_attach_def set_entry_def Let_def)

end
