(* ===== verification/Outbox.thy ===== *)
theory Outbox
  imports Ark_World Noffer
begin

text \<open>
  Relay discovery, \<open>src/nostr/outbox.ts\<close>, and the operator messages that rest on it, \<open>src/nostr/notifier.ts\<close>. URL
  parsing is the parameter \<open>parse\<close>: the protocol, the host name and the canonical text of a URL, or nothing.
\<close>

record url_parts =
  up_protocol :: string
  up_hostname :: string
  up_text :: string

type_synonym url_parser = "string \<Rightarrow> url_parts option"

subsection \<open>Relay URLs\<close>

definition normalizeRelayUrl :: "url_parser \<Rightarrow> string \<Rightarrow> string" where
  "normalizeRelayUrl parse url = (case parse url of None \<Rightarrow> url | Some u \<Rightarrow> up_text u)"

definition isRelayScheme :: "url_parts \<Rightarrow> bool" where
  "isRelayScheme u \<longleftrightarrow> up_protocol u = ''wss:'' \<or> up_protocol u = ''ws:''"

definition short_number :: "string \<Rightarrow> bool" where
  "short_number s \<longleftrightarrow> 1 \<le> length s \<and> length s \<le> 3 \<and> list_all is_digit s"

definition blocked_quad :: "nat \<Rightarrow> nat \<Rightarrow> bool" where
  "blocked_quad a b \<longleftrightarrow> a = 0 \<or> a = 10 \<or> a = 127 \<or> (a = 169 \<and> b = 254) \<or> (a = 172 \<and> 16 \<le> b \<and> b \<le> 31)
     \<or> (a = 192 \<and> b = 168) \<or> (a = 100 \<and> 64 \<le> b \<and> b \<le> 127) \<or> 224 \<le> a"

definition isBlockedIpLiteral :: "string \<Rightarrow> bool" where
  "isBlockedIpLiteral host = (if CHR '':'' \<in> set host then True
     else (case js_split (CHR ''.'') host of
         [a, b, c, d] \<Rightarrow> (if short_number a \<and> short_number b \<and> short_number c \<and> short_number d
             then blocked_quad (digits_value a) (digits_value b) else False)
       | _ \<Rightarrow> False))"

definition isSafeRelayUrl :: "url_parser \<Rightarrow> string \<Rightarrow> bool" where
  "isSafeRelayUrl parse url = (case parse url of
     None \<Rightarrow> False
   | Some u \<Rightarrow> isRelayScheme u \<and> up_hostname u \<noteq> [] \<and> \<not> isBlockedIpLiteral (up_hostname u))"

definition MAX_RELAY_TAGS :: nat where "MAX_RELAY_TAGS = 50"

text \<open>The loop over the tags; \<open>out\<close> is also the set \<open>seen\<close>.\<close>

fun extract_urls :: "url_parser \<Rightarrow> string \<Rightarrow> string list list \<Rightarrow> string list \<Rightarrow> string list" where
  "extract_urls parse name [] out = out"
| "extract_urls parse name (tag # tags) out =
     (case tag of
        n # url # rest \<Rightarrow>
          (let canon = normalizeRelayUrl parse url in
           if n \<noteq> name \<or> url = [] \<or> \<not> isSafeRelayUrl parse canon \<or> canon \<in> set out then extract_urls parse name tags out
           else if MAX_RELAY_TAGS \<le> length (out @ [canon]) then out @ [canon]
           else extract_urls parse name tags (out @ [canon]))
      | _ \<Rightarrow> extract_urls parse name tags out)"

definition extractTagUrls :: "url_parser \<Rightarrow> string \<Rightarrow> string list list \<Rightarrow> string list" where
  "extractTagUrls parse name tags = extract_urls parse name tags []"

subsection \<open>The watcher\<close>

definition OUTBOX_KIND :: int where "OUTBOX_KIND = 10002"
definition DM_RELAY_KIND :: int where "DM_RELAY_KIND = 10050"

datatype outbox_source = From_user | From_operator | From_fallback

record author_state =
  au_relays :: "string list"
  au_lastCreatedAt :: int

record relay_event =
  rv_kind :: int
  rv_pubkey :: string
  rv_createdAt :: int
  rv_tags :: "string list list"

record outbox_cfg =
  oc_parse :: url_parser
  oc_fallbackPubkey :: string
  oc_fallback :: "string list"

text \<open>\<open>ob_changes\<close> is what the listeners were told.\<close>

record outbox =
  ob_operator :: author_state
  ob_user :: author_state
  ob_dm :: author_state
  ob_userPubkey :: "string option"
  ob_effective :: "string list"
  ob_source :: outbox_source
  ob_resolved :: bool
  ob_changes :: "string list list"

definition static_relays :: "outbox_cfg \<Rightarrow> string list" where
  "static_relays c = map (normalizeRelayUrl (oc_parse c)) (oc_fallback c)"

definition no_author :: author_state where
  "no_author = \<lparr>au_relays = [], au_lastCreatedAt = 0\<rparr>"

definition startOutboxWatcher :: "outbox_cfg \<Rightarrow> outbox" where
  "startOutboxWatcher c = \<lparr>ob_operator = no_author, ob_user = no_author, ob_dm = no_author, ob_userPubkey = None,
     ob_effective = static_relays c, ob_source = From_fallback, ob_resolved = False, ob_changes = []\<rparr>"

definition sameSet :: "string list \<Rightarrow> string list \<Rightarrow> bool" where
  "sameSet a b \<longleftrightarrow> length a = length b \<and> set b \<subseteq> set a"

definition chosen_relays :: "outbox_cfg \<Rightarrow> outbox \<Rightarrow> string list" where
  "chosen_relays c s = (if au_relays (ob_user s) \<noteq> [] then au_relays (ob_user s)
     else if au_relays (ob_operator s) \<noteq> [] then au_relays (ob_operator s) else static_relays c)"

definition chosen_source :: "outbox \<Rightarrow> outbox_source" where
  "chosen_source s = (if au_relays (ob_user s) \<noteq> [] then From_user
     else if au_relays (ob_operator s) \<noteq> [] then From_operator else From_fallback)"

definition recompute :: "outbox_cfg \<Rightarrow> outbox \<Rightarrow> outbox" where
  "recompute c s = (let next = chosen_relays c s; s' = s\<lparr>ob_source := chosen_source s\<rparr> in
     if sameSet (ob_effective s) next then s' else s'\<lparr>ob_effective := next, ob_changes := ob_changes s @ [next]\<rparr>)"

definition event_relays :: "outbox_cfg \<Rightarrow> string \<Rightarrow> relay_event \<Rightarrow> string list" where
  "event_relays c name ev = map (normalizeRelayUrl (oc_parse c)) (extractTagUrls (oc_parse c) name (rv_tags ev))"

definition newer_author :: "string list \<Rightarrow> relay_event \<Rightarrow> author_state" where
  "newer_author relays ev = \<lparr>au_relays = relays, au_lastCreatedAt = rv_createdAt ev\<rparr>"

definition applyOperator :: "outbox_cfg \<Rightarrow> relay_event \<Rightarrow> outbox \<Rightarrow> outbox" where
  "applyOperator c ev s = (if rv_createdAt ev \<le> au_lastCreatedAt (ob_operator s) then s
     else (let relays = event_relays c ''r'' ev in
       recompute c (s\<lparr>ob_operator := newer_author relays ev, ob_resolved := ob_resolved s \<or> relays \<noteq> []\<rparr>)))"

definition applyUser :: "outbox_cfg \<Rightarrow> relay_event \<Rightarrow> outbox \<Rightarrow> outbox" where
  "applyUser c ev s = (if rv_createdAt ev \<le> au_lastCreatedAt (ob_user s) then s
     else (let relays = event_relays c ''r'' ev in
       recompute c (s\<lparr>ob_user := newer_author relays ev, ob_resolved := ob_resolved s \<or> relays \<noteq> []\<rparr>)))"

definition handleListEvent :: "outbox_cfg \<Rightarrow> relay_event \<Rightarrow> outbox \<Rightarrow> outbox" where
  "handleListEvent c ev s = (if rv_kind ev \<noteq> OUTBOX_KIND then s
     else if rv_pubkey ev = oc_fallbackPubkey c then applyOperator c ev s
     else if truthy (ob_userPubkey s) \<and> Some (rv_pubkey ev) = ob_userPubkey s then applyUser c ev s else s)"

definition handleDmEvent :: "outbox_cfg \<Rightarrow> relay_event \<Rightarrow> outbox \<Rightarrow> outbox" where
  "handleDmEvent c ev s = (if rv_kind ev \<noteq> DM_RELAY_KIND then s
     else if \<not> truthy (ob_userPubkey s) \<or> Some (rv_pubkey ev) \<noteq> ob_userPubkey s then s
     else if rv_createdAt ev \<le> au_lastCreatedAt (ob_dm s) then s
     else s\<lparr>ob_dm := newer_author (event_relays c ''relay'' ev) ev\<rparr>)"

definition setPrimaryPubkey :: "outbox_cfg \<Rightarrow> string \<Rightarrow> outbox \<Rightarrow> outbox" where
  "setPrimaryPubkey c pubkey s = (if ob_userPubkey s = Some pubkey then s
     else recompute c (s\<lparr>ob_userPubkey := Some pubkey, ob_user := no_author, ob_dm := no_author\<rparr>))"

datatype outbox_event = List_event relay_event | Dm_event relay_event | Primary string

fun outbox_do :: "outbox_cfg \<Rightarrow> outbox_event \<Rightarrow> outbox \<Rightarrow> outbox" where
  "outbox_do c (List_event ev) s = handleListEvent c ev s"
| "outbox_do c (Dm_event ev) s = handleDmEvent c ev s"
| "outbox_do c (Primary key) s = setPrimaryPubkey c key s"

definition outbox_run :: "outbox_cfg \<Rightarrow> outbox_event list \<Rightarrow> outbox" where
  "outbox_run c evs = foldl (\<lambda>s ev. outbox_do c ev s) (startOutboxWatcher c) evs"

subsection \<open>Operator messages\<close>

definition MAX_QUEUE :: nat where "MAX_QUEUE = 64"
definition GATE_GRACE_MS :: int where "GATE_GRACE_MS = 30000"

record queue_item =
  qi_kind :: string
  qi_text :: string
  qi_at :: int

text \<open>\<open>nf_draining\<close>: the loop runs, between two of its turns, in a publish or in a sleep; \<open>nf_sent\<close> is what was handed
  to the relays.\<close>

record notifier =
  nf_queue :: "queue_item list"
  nf_stopped :: bool
  nf_draining :: bool
  nf_sent :: "(queue_item \<times> string list) list"

definition quiet_notifier :: notifier where
  "quiet_notifier = \<lparr>nf_queue = [], nf_stopped = False, nf_draining = False, nf_sent = []\<rparr>"

text \<open>One turn of the loop; a source of relays that throws is one that has none.\<close>

definition drain_turn :: "int \<Rightarrow> err + string list \<Rightarrow> notifier \<Rightarrow> notifier" where
  "drain_turn now source s = (let relays = (case source of Inl e \<Rightarrow> [] | Inr rs \<Rightarrow> rs) in
     if \<not> nf_draining s then s
     else if nf_stopped s then s\<lparr>nf_draining := False\<rparr>
     else case nf_queue s of
       [] \<Rightarrow> s\<lparr>nf_draining := False\<rparr>
     | item # rest \<Rightarrow> (if relays = []
         then (if now - qi_at item < GATE_GRACE_MS then s else s\<lparr>nf_queue := rest\<rparr>)
         else s\<lparr>nf_queue := rest, nf_sent := nf_sent s @ [(item, relays)]\<rparr>))"

definition notify_operator :: "(string \<Rightarrow> bool) \<Rightarrow> string \<Rightarrow> err + string \<Rightarrow> int \<Rightarrow> notifier \<Rightarrow> notifier" where
  "notify_operator enabled kind build now s = (if nf_stopped s \<or> \<not> enabled kind then s
     else case build of Inl e \<Rightarrow> s
     | Inr text \<Rightarrow> s\<lparr>nf_queue := (if MAX_QUEUE \<le> length (nf_queue s) then tl (nf_queue s) else nf_queue s)
           @ [\<lparr>qi_kind = kind, qi_text = text, qi_at = now\<rparr>], nf_draining := True\<rparr>)"

definition stop_notifier :: "notifier \<Rightarrow> notifier" where
  "stop_notifier s = s\<lparr>nf_stopped := True, nf_queue := []\<rparr>"

datatype notifier_event = Notified string "err + string" int | Turn int "err + string list" | Stopped

fun notifier_do :: "(string \<Rightarrow> bool) \<Rightarrow> notifier_event \<Rightarrow> notifier \<Rightarrow> notifier" where
  "notifier_do enabled (Notified kind build now) s = notify_operator enabled kind build now s"
| "notifier_do enabled (Turn now source) s = drain_turn now source s"
| "notifier_do enabled Stopped s = stop_notifier s"

definition notifier_run :: "(string \<Rightarrow> bool) \<Rightarrow> notifier_event list \<Rightarrow> notifier" where
  "notifier_run enabled evs = foldl (\<lambda>s ev. notifier_do enabled ev s) quiet_notifier evs"

subsection \<open>Asking an offer for an invoice\<close>

text \<open>\<open>src/clink/send.ts\<close>: what the request says and to whom, and how the wait ends. A reply is an event that decrypts under
  the one-time key and the key of the offer; its fields are present where they have the type the code tests for.\<close>

record offer_ask =
  oa_relay :: string
  oa_to :: string
  oa_offer :: string
  oa_amount :: "int option"

record offer_reply =
  or_bolt11 :: "string option"
  or_code :: "int option"
  or_error :: "string option"
  or_latest :: "string option"

datatype resolve_result =
    Resolved string
  | Clink_error int string "string option"
  | Resolve_timeout string
  | Bad_noffer string

datatype resolve_event = Reply "offer_reply option" | Timer | Published "bool list"

text \<open>\<open>Threw\<close>: encrypting for a key that is no point of the curve throws, before there is a promise.\<close>

datatype ask_outcome = Settled_at_once resolve_result | Asking offer_ask | Threw

definition ask_offer :: "codecs \<Rightarrow> url_parser \<Rightarrow> (string \<Rightarrow> bool) \<Rightarrow> string \<Rightarrow> int option \<Rightarrow> ask_outcome option" where
  "ask_offer c parse usable noffer amount = (case nofferDecode c noffer of
     None \<Rightarrow> None
   | Some (Inl e) \<Rightarrow> Some (Settled_at_once (Bad_noffer e))
   | Some (Inr p) \<Rightarrow> Some (if \<not> isSafeRelayUrl parse (op_relay p) then Settled_at_once (Bad_noffer ''not a safe relay URL'')
       else if \<not> usable (op_pubkey p) then Threw
       else Asking \<lparr>oa_relay = normalizeRelayUrl parse (op_relay p), oa_to = op_pubkey p, oa_offer = op_offer p,
         oa_amount = (if op_priceType p \<noteq> Fixed then amount else None)\<rparr>))"

definition resolve_step :: "offer_ask \<Rightarrow> resolve_event \<Rightarrow> resolve_result option" where
  "resolve_step a ev = (case ev of
     Reply None \<Rightarrow> None
   | Reply (Some r) \<Rightarrow> (case or_bolt11 r of
       Some b \<Rightarrow> Some (Resolved b)
     | None \<Rightarrow> (case or_code r of
         Some code \<Rightarrow> Some (Clink_error code (case or_error r of None \<Rightarrow> ''offer error'' | Some m \<Rightarrow> m) (or_latest r))
       | None \<Rightarrow> None))
   | Timer \<Rightarrow> Some (Resolve_timeout (oa_relay a))
   | Published oks \<Rightarrow> if list_all Not oks then Some (Resolve_timeout (oa_relay a)) else None)"

text \<open>\<open>finish\<close> takes the first outcome and ignores the rest.\<close>

fun resolve_wait :: "offer_ask \<Rightarrow> resolve_event list \<Rightarrow> resolve_result option" where
  "resolve_wait a [] = None"
| "resolve_wait a (ev # evs) = (case resolve_step a ev of Some r \<Rightarrow> Some r | None \<Rightarrow> resolve_wait a evs)"

end
