(* ===== verification/Outbox_Safety.thy ===== *)
theory Outbox_Safety
  imports Outbox "HOL-Library.Sublist"
begin

text \<open>
  Which relays the bridge can be made to talk to, which list is in force, and what becomes of an operator message.
\<close>

subsection \<open>Lists taken from events\<close>

definition good_list :: "url_parser \<Rightarrow> string list \<Rightarrow> bool" where
  "good_list parse rs \<longleftrightarrow> distinct rs \<and> length rs \<le> MAX_RELAY_TAGS \<and> list_all (isSafeRelayUrl parse) rs"

text \<open>Serializing a URL and parsing it again changes nothing.\<close>

definition canonical :: "url_parser \<Rightarrow> bool" where
  "canonical parse \<longleftrightarrow> (\<forall>url u. parse url = Some u \<longrightarrow> parse (up_text u) = Some u)"

lemma normalize_idem: "canonical parse \<Longrightarrow> normalizeRelayUrl parse (normalizeRelayUrl parse url) = normalizeRelayUrl parse url"
  by (auto simp: canonical_def normalizeRelayUrl_def split: option.split)

lemma extract_urls_good:
  "good_list parse out \<Longrightarrow> length out < MAX_RELAY_TAGS \<Longrightarrow> good_list parse (extract_urls parse name tags out)"
  by (induction parse name tags out rule: extract_urls.induct) (auto simp: good_list_def Let_def split: list.split)

definition fixed_url :: "url_parser \<Rightarrow> string \<Rightarrow> bool" where
  "fixed_url parse r \<longleftrightarrow> normalizeRelayUrl parse r = r"

lemma extract_urls_fixed:
  assumes "canonical parse"
  shows "list_all (fixed_url parse) out \<Longrightarrow> list_all (fixed_url parse) (extract_urls parse name tags out)"
proof -
  have "fixed_url parse (normalizeRelayUrl parse url)" for url using normalize_idem [OF assms] by (simp add: fixed_url_def)
  then show "list_all (fixed_url parse) out \<Longrightarrow> list_all (fixed_url parse) (extract_urls parse name tags out)"
    by (induction parse name tags out rule: extract_urls.induct) (auto simp: Let_def split: list.split)
qed

lemma event_relays_good: "canonical (oc_parse c) \<Longrightarrow> good_list (oc_parse c) (event_relays c name ev)"
proof -
  let ?rs = "extractTagUrls (oc_parse c) name (rv_tags ev)"
  assume "canonical (oc_parse c)"
  then have "map (normalizeRelayUrl (oc_parse c)) ?rs = ?rs"
    unfolding extractTagUrls_def by (intro map_idI) (use extract_urls_fixed [of "oc_parse c" "[]"] in \<open>simp add: list_all_iff fixed_url_def\<close>)
  moreover have "good_list (oc_parse c) ?rs"
    unfolding extractTagUrls_def by (rule extract_urls_good) (simp_all add: good_list_def MAX_RELAY_TAGS_def)
  ultimately show ?thesis by (simp add: event_relays_def)
qed

subsection \<open>The list in force\<close>

definition outbox_ok :: "outbox_cfg \<Rightarrow> outbox \<Rightarrow> bool" where
  "outbox_ok c s \<longleftrightarrow> good_list (oc_parse c) (au_relays (ob_operator s)) \<and> good_list (oc_parse c) (au_relays (ob_user s))
     \<and> good_list (oc_parse c) (au_relays (ob_dm s)) \<and> set (ob_effective s) = set (chosen_relays c s) \<and> distinct (ob_effective s)
     \<and> ob_source s = chosen_source s"

lemma sameSet_set: "distinct b \<Longrightarrow> sameSet a b \<Longrightarrow> set a = set b"
  unfolding sameSet_def by (metis List.finite_set card_length card_subset_eq distinct_card le_antisym card_mono)

lemma recompute_ok:
  assumes "good_list (oc_parse c) (au_relays (ob_operator s))" "good_list (oc_parse c) (au_relays (ob_user s))"
    "good_list (oc_parse c) (au_relays (ob_dm s))" "distinct (static_relays c)" "distinct (ob_effective s)"
  shows "outbox_ok c (recompute c s)"
proof -
  have next_distinct: "distinct (chosen_relays c s)" using assms by (simp add: chosen_relays_def good_list_def)
  have same: "chosen_relays c (s\<lparr>ob_source := a, ob_effective := b, ob_changes := d\<rparr>) = chosen_relays c s"
    "chosen_relays c (s\<lparr>ob_source := a\<rparr>) = chosen_relays c s"
    "chosen_source (s\<lparr>ob_source := a, ob_effective := b, ob_changes := d\<rparr>) = chosen_source s"
    "chosen_source (s\<lparr>ob_source := a\<rparr>) = chosen_source s" for a b d
    by (simp_all add: chosen_relays_def chosen_source_def)
  show ?thesis
    using assms next_distinct sameSet_set [OF next_distinct, of "ob_effective s"]
    by (auto simp: recompute_def outbox_ok_def Let_def same)
qed

lemma outbox_step_ok:
  assumes "canonical (oc_parse c)" and "distinct (static_relays c)" and "outbox_ok c s"
  shows "outbox_ok c (outbox_do c ev s)"
proof -
  have good: "good_list (oc_parse c) (event_relays c name e)" for name e using event_relays_good [OF assms(1)] .
  have empty: "good_list (oc_parse c) []" by (simp add: good_list_def)
  note parts = assms(3) [unfolded outbox_ok_def]
  have dm: "outbox_ok c (s\<lparr>ob_dm := newer_author (event_relays c ''relay'' e) e\<rparr>)" for e
    using parts good by (simp add: outbox_ok_def newer_author_def chosen_relays_def chosen_source_def)
  show ?thesis
  proof (cases ev)
    case (List_event e)
    have "outbox_ok c (applyOperator c e s)"
      unfolding applyOperator_def Let_def using parts good assms(2,3) by (auto intro!: recompute_ok simp: newer_author_def)
    moreover have "outbox_ok c (applyUser c e s)"
      unfolding applyUser_def Let_def using parts good assms(2,3) by (auto intro!: recompute_ok simp: newer_author_def)
    ultimately show ?thesis using List_event assms(3) by (simp add: handleListEvent_def)
  next
    case (Dm_event e)
    then show ?thesis using assms(3) dm by (simp add: handleDmEvent_def)
  next
    case (Primary key)
    have "outbox_ok c (recompute c (s\<lparr>ob_userPubkey := Some key, ob_user := no_author, ob_dm := no_author\<rparr>))"
      using parts empty assms(2) by (intro recompute_ok) (simp_all add: no_author_def)
    then show ?thesis using Primary assms(3) by (simp add: setPrimaryPubkey_def)
  qed
qed

text \<open>The relays in force. Whatever events arrive from whomever, in any order, and whatever the account key becomes:
  the active set is the account's own list, or the operator's while the account has none, or the static one while neither
  exists; and every relay taken from an event, for the lists and for the messages, is a ws(s) URL whose host is no private
  address, at most fifty of them, none twice.\<close>

theorem relays_in_force:
  assumes "canonical (oc_parse c)" and "distinct (static_relays c)" and "s = outbox_run c evs"
  shows "set (ob_effective s) = set (if au_relays (ob_user s) \<noteq> [] then au_relays (ob_user s)
      else if au_relays (ob_operator s) \<noteq> [] then au_relays (ob_operator s) else static_relays c)
    \<and> ob_source s = chosen_source s
    \<and> (\<forall>rs \<in> {au_relays (ob_user s), au_relays (ob_operator s), au_relays (ob_dm s)}.
         distinct rs \<and> length rs \<le> 50 \<and> (\<forall>r \<in> set rs. isSafeRelayUrl (oc_parse c) r))"
proof -
  have "outbox_ok c (foldl (\<lambda>s ev. outbox_do c ev s) s0 evs)" if "outbox_ok c s0" for s0
    using that by (induction evs arbitrary: s0) (simp_all add: outbox_step_ok [OF assms(1,2)])
  moreover have "outbox_ok c (startOutboxWatcher c)"
    using assms(2) by (simp add: outbox_ok_def startOutboxWatcher_def no_author_def good_list_def chosen_relays_def chosen_source_def)
  ultimately have "outbox_ok c s" using assms(3) by (simp add: outbox_run_def)
  then show ?thesis by (auto simp: outbox_ok_def chosen_relays_def good_list_def list_all_iff MAX_RELAY_TAGS_def)
qed

text \<open>A list does not outlive its key, and an older event never replaces a newer one.\<close>

lemma primary_forgets: "ob_userPubkey s \<noteq> Some key \<Longrightarrow>
    au_relays (ob_user (setPrimaryPubkey c key s)) = [] \<and> au_relays (ob_dm (setPrimaryPubkey c key s)) = []"
  by (simp add: setPrimaryPubkey_def recompute_def no_author_def Let_def)

lemma stale_ignored: "rv_createdAt ev \<le> au_lastCreatedAt (ob_user s) \<Longrightarrow> applyUser c ev s = s"
  by (simp add: applyUser_def)

text \<open>Asking an offer never connects to an address of the host or its network, and a fixed price is never overridden.\<close>

lemma asks_safe_relays:
  assumes "canonical parse" and "ask_offer c parse usable noffer amount = Some (Asking a)"
  shows "isSafeRelayUrl parse (oa_relay a)"
proof -
  obtain p where p: "nofferDecode c noffer = Some (Inr p)"
    using assms(2) by (auto simp: ask_offer_def split: option.splits sum.splits)
  then have "isSafeRelayUrl parse (op_relay p)" "oa_relay a = normalizeRelayUrl parse (op_relay p)"
    using assms(2) by (auto simp: ask_offer_def split: if_splits)
  then show ?thesis using assms(1) by (auto simp: isSafeRelayUrl_def normalizeRelayUrl_def canonical_def split: option.splits)
qed

subsection \<open>Operator messages\<close>

fun accepted :: "(string \<Rightarrow> bool) \<Rightarrow> notifier_event list \<Rightarrow> queue_item list" where
  "accepted enabled [] = []"
| "accepted enabled (Notified kind (Inr text) now # evs) =
     (if enabled kind then \<lparr>qi_kind = kind, qi_text = text, qi_at = now\<rparr> # accepted enabled evs else accepted enabled evs)"
| "accepted enabled (ev # evs) = accepted enabled evs"

definition notifier_ok :: "queue_item list \<Rightarrow> notifier \<Rightarrow> bool" where
  "notifier_ok items s \<longleftrightarrow> subseq (map fst (nf_sent s) @ nf_queue s) items \<and> length (nf_queue s) \<le> MAX_QUEUE
     \<and> (\<forall>p \<in> set (nf_sent s). snd p \<noteq> [])"

lemma subseq_drop_queue:
  assumes "subseq (xs @ y # ys) zs"
  shows "subseq (xs @ ys) zs"
proof -
  have "subseq (xs @ ys) (xs @ y # ys)" by (intro list_emb_append_mono) auto
  with assms show ?thesis by (rule subseq_order.trans [rotated])
qed

lemma notifier_step_ok:
  assumes "notifier_ok items s"
  shows "notifier_ok (items @ accepted enabled [ev]) (notifier_do enabled ev s)"
proof (cases ev)
  case (Notified kind build now)
  have sub: "subseq (map fst (nf_sent s) @ (if MAX_QUEUE \<le> length (nf_queue s) then tl (nf_queue s) else nf_queue s)) items"
    using assms subseq_drop_queue by (cases "nf_queue s") (auto simp: notifier_ok_def)
  show ?thesis
  proof (cases build)
    case (Inl e)
    with assms Notified show ?thesis by (simp add: notify_operator_def)
  next
    case (Inr msg)
    let ?item = "\<lparr>qi_kind = kind, qi_text = msg, qi_at = now\<rparr>"
    have "subseq ((map fst (nf_sent s) @ (if MAX_QUEUE \<le> length (nf_queue s) then tl (nf_queue s) else nf_queue s)) @ [?item]) (items @ [?item])"
      by (rule list_emb_append_mono [OF sub]) simp
    moreover have "subseq (map fst (nf_sent s) @ nf_queue s) (items @ [?item])"
      using assms by (auto simp: notifier_ok_def)
    ultimately show ?thesis using assms Notified Inr
      by (auto simp: notify_operator_def notifier_ok_def MAX_QUEUE_def)
  qed
next
  case (Turn now source)
  show ?thesis
  proof (cases "nf_queue s")
    case Nil
    then show ?thesis using assms Turn by (auto simp: drain_turn_def notifier_ok_def Let_def)
  next
    case (Cons item rest)
    then show ?thesis using assms Turn subseq_drop_queue [of "map fst (nf_sent s)" item rest items]
      by (auto simp: drain_turn_def notifier_ok_def Let_def)
  qed
next
  case Stopped
  have "subseq (map fst (nf_sent s)) items"
    using assms by (auto simp: notifier_ok_def intro: subseq_order.trans)
  then show ?thesis using assms Stopped by (simp add: stop_notifier_def notifier_ok_def)
qed

lemma accepted_append: "accepted enabled (xs @ ys) = accepted enabled xs @ accepted enabled ys"
  by (induction enabled xs rule: accepted.induct) auto

text \<open>Operator messages go out at most once, in the order of the events, to inbox relays only; what waits is
  bounded, whatever the relays do, and when it overflows the oldest goes.\<close>

theorem messages_in_order:
  shows "subseq (map fst (nf_sent (notifier_run enabled evs)) @ nf_queue (notifier_run enabled evs)) (accepted enabled evs)
    \<and> length (nf_queue (notifier_run enabled evs)) \<le> 64 \<and> [] \<notin> snd ` set (nf_sent (notifier_run enabled evs))"
proof -
  have "notifier_ok (accepted enabled evs) (notifier_run enabled evs)"
  proof (induction evs rule: rev_induct)
    case Nil
    show ?case by (simp add: notifier_run_def notifier_ok_def quiet_notifier_def)
  next
    case (snoc ev evs)
    then show ?case using notifier_step_ok [of "accepted enabled evs" "notifier_run enabled evs" enabled ev]
      by (simp add: notifier_run_def accepted_append)
  qed
  then show ?thesis by (auto simp: notifier_ok_def MAX_QUEUE_def)
qed

subsection \<open>A run\<close>

definition sample_parse :: url_parser where
  "sample_parse url = (if url \<in> {''wss://mine/'', ''ws://10.0.0.1/'', ''wss://op/''} then Some \<lparr>up_protocol = ''wss:'',
     up_hostname = (if url = ''ws://10.0.0.1/'' then ''10.0.0.1'' else if url = ''wss://op/'' then ''op'' else ''mine''), up_text = url\<rparr> else None)"

definition sample_outbox :: outbox_cfg where
  "sample_outbox = \<lparr>oc_parse = sample_parse, oc_fallbackPubkey = ''operator'', oc_fallback = [''wss://op/'']\<rparr>"

definition list_events :: "outbox_event list" where
  "list_events = [Primary ''me'', List_event \<lparr>rv_kind = 10002, rv_pubkey = ''me'', rv_createdAt = 7,
     rv_tags = [[''r'', ''ws://10.0.0.1/''], [''r'', ''wss://mine/''], [''r'', ''wss://mine/'']]\<rparr>]"

theorem relays_in_force_witness:
  "set (ob_effective (outbox_run sample_outbox list_events)) = {''wss://mine/''}"
proof -
  have "canonical sample_parse" by (auto simp: canonical_def sample_parse_def split: if_splits)
  moreover have "au_relays (ob_user (outbox_run sample_outbox list_events)) = [''wss://mine/'']"
    by (simp add: outbox_run_def list_events_def sample_outbox_def startOutboxWatcher_def setPrimaryPubkey_def recompute_def
        chosen_relays_def chosen_source_def no_author_def static_relays_def normalizeRelayUrl_def sample_parse_def sameSet_def
        handleListEvent_def OUTBOX_KIND_def truthy_def applyUser_def event_relays_def extractTagUrls_def isSafeRelayUrl_def
        isRelayScheme_def isBlockedIpLiteral_def short_number_def is_digit_def blocked_quad_def digits_value_def MAX_RELAY_TAGS_def
        newer_author_def Let_def)
  ultimately show ?thesis
    using relays_in_force [of sample_outbox "outbox_run sample_outbox list_events" list_events]
    by (simp add: sample_outbox_def static_relays_def)
qed

end
