(* ===== verification/Upkeep.thy ===== *)
theory Upkeep
  imports History Proof_Sync Exit_Engine
begin

text \<open>
  The background jobs: consolidating before expiry (\<open>src/auto_refresh.ts\<close> and its schedule in \<open>src/index.ts\<close>), the watcher
  of onchain deposits (\<open>src/boarding_history.ts\<close>), the schedule of the proof sync (\<open>src/exit/sync_service.ts\<close>) and of the
  receive passes (\<open>src/index.ts\<close>). A schedule is a machine: a timer that fires, a request and the end of a pass are its events.
\<close>

subsection \<open>Consolidating before expiry\<close>

definition AUTO_REFRESH_THRESHOLD_SECONDS :: int where "AUTO_REFRESH_THRESHOLD_SECONDS = 345600"

record refresh_world =
  fw_isSpendable :: "vcoin \<Rightarrow> bool"
  fw_isRecoverable :: "vcoin \<Rightarrow> bool"
  fw_isSubdust :: "vcoin \<Rightarrow> int \<Rightarrow> bool"
  fw_expiringSoon :: "vcoin \<Rightarrow> int \<Rightarrow> bool"

definition needsRefresh :: "refresh_world \<Rightarrow> vcoin list \<Rightarrow> int \<Rightarrow> int \<Rightarrow> bool" where
  "needsRefresh w coins dust thresholdMs \<longleftrightarrow> list_ex (\<lambda>v. fw_isSpendable w v \<and> \<not> fw_isRecoverable w v
     \<and> \<not> fw_isSubdust w v dust \<and> fw_expiringSoon w v thresholdMs) coins"

datatype refresh_outcome = Idle_pass | Refreshed | Refresh_failed

text \<open>The two reads together, then the settle, then the outcome.\<close>

definition autoRefreshPass :: "refresh_world \<Rightarrow> err + vcoin list \<times> int \<Rightarrow> err + string \<Rightarrow> int \<Rightarrow> refresh_outcome" where
  "autoRefreshPass w reads settle thresholdMs = (case reads of
     Inl e \<Rightarrow> Idle_pass
   | Inr (coins, dust) \<Rightarrow> (if \<not> needsRefresh w coins dust thresholdMs then Idle_pass
       else (case settle of Inl e \<Rightarrow> Refresh_failed | Inr txid \<Rightarrow> Refreshed)))"

text \<open>The schedule; \<open>rf_ends\<close> is the log of the passes that tried to settle, when they ended and how.\<close>

record refresh_schedule =
  rf_running :: bool
  rf_quietUntil :: int
  rf_ends :: "(int \<times> refresh_outcome) list"

definition refresh_begin :: "int \<Rightarrow> refresh_schedule \<Rightarrow> refresh_schedule" where
  "refresh_begin now s = (if rf_running s \<or> now < rf_quietUntil s then s else s\<lparr>rf_running := True\<rparr>)"

definition refresh_end :: "int \<Rightarrow> refresh_outcome \<Rightarrow> refresh_schedule \<Rightarrow> refresh_schedule" where
  "refresh_end now out s = (if \<not> rf_running s then s
     else s\<lparr>rf_running := False,
            rf_quietUntil := (case out of Idle_pass \<Rightarrow> rf_quietUntil s | Refresh_failed \<Rightarrow> now + 30 * 60000 | Refreshed \<Rightarrow> now + 12 * 3600000),
            rf_ends := (if out = Idle_pass then rf_ends s else rf_ends s @ [(now, out)])\<rparr>)"

datatype refresh_event = Refresh_tick int | Refresh_end int refresh_outcome

fun refresh_do :: "refresh_event \<Rightarrow> refresh_schedule \<Rightarrow> refresh_schedule" where
  "refresh_do (Refresh_tick now) s = refresh_begin now s"
| "refresh_do (Refresh_end now out) s = refresh_end now out s"

fun refresh_time :: "refresh_event \<Rightarrow> int" where
  "refresh_time (Refresh_tick now) = now" | "refresh_time (Refresh_end now out) = now"

definition refresh_run :: "refresh_event list \<Rightarrow> refresh_schedule" where
  "refresh_run evs = foldl (\<lambda>s ev. refresh_do ev s) \<lparr>rf_running = False, rf_quietUntil = 0, rf_ends = []\<rparr> evs"

subsection \<open>Onchain deposits\<close>

record boarding_utxo =
  bu_txid :: string
  bu_vout :: nat
  bu_value :: int

datatype seen_kind = Baseline | Init_mark | Deposit | Rotation | Spent_mark

record seen_row =
  sn_txid :: string
  sn_vout :: int
  sn_kind :: seen_kind

record boarding =
  bd_db :: db
  bd_seen :: "seen_row list"

record boarding_world =
  bw_utxos :: "nat \<Rightarrow> err + boarding_utxo list"
  bw_outspend :: "nat \<Rightarrow> string \<Rightarrow> int \<Rightarrow> (bool \<times> string option) option"
  bw_txInputs :: "nat \<Rightarrow> string \<Rightarrow> (string \<times> int) list option"
  bw_now :: "nat \<Rightarrow> int"

type_synonym 'a watcher = "(err, boarding, 'a) eff"

definition on_book :: "'a bridge \<Rightarrow> 'a watcher" where
  "on_book m b = (case m (bd_db b) of (r, d) \<Rightarrow> (r, b\<lparr>bd_db := d\<rparr>))"

definition seen_key :: "seen_row \<Rightarrow> string \<times> int" where
  "seen_key r = (sn_txid r, sn_vout r)"

definition utxo_key :: "boarding_utxo \<Rightarrow> string \<times> int" where
  "utxo_key u = (bu_txid u, int (bu_vout u))"

definition SENTINEL :: "string \<times> int" where "SENTINEL = ('''', -1)"

definition markSeen :: "string \<times> int \<Rightarrow> seen_kind \<Rightarrow> unit watcher" where
  "markSeen key kind = modify (\<lambda>b. b\<lparr>bd_seen := (if key \<in> seen_key ` set (bd_seen b)
     then map (\<lambda>r. if seen_key r = key then r\<lparr>sn_kind := kind\<rparr> else r) (bd_seen b)
     else bd_seen b @ [\<lparr>sn_txid = fst key, sn_vout = snd key, sn_kind = kind\<rparr>])\<rparr>)"

definition boarding_now :: "boarding_world \<Rightarrow> int watcher" where
  "boarding_now w = on_book (clock_ms (bw_now w))"

definition board_arrival :: "boarding_world \<Rightarrow> seen_row list \<Rightarrow> boarding_utxo \<Rightarrow> unit watcher" where
  "board_arrival w seen u =
     (if utxo_key u \<in> seen_key ` set seen then ret ()
      else andthen (on_book (await (\<lambda>t. Inr (bw_txInputs w t (bu_txid u))))) (\<lambda>inputs.
        (let sweep = (case inputs of None \<Rightarrow> False | Some ins \<Rightarrow> list_ex (\<lambda>i. i \<in> seen_key ` set seen) ins) in
         andthen (markSeen (utxo_key u) (if sweep then Rotation else Deposit)) (\<lambda>x.
         if sweep then ret ()
         else andthen (boarding_now w) (\<lambda>now.
              andthen (on_book (modify (recordOnboardPending now (bu_txid u) (bu_vout u) (bu_value u)))) (\<lambda>x.
              on_book (modify (notify Onboard_seen))))))))"

definition board_departure :: "boarding_world \<Rightarrow> boarding_utxo list \<Rightarrow> seen_row \<Rightarrow> unit watcher" where
  "board_departure w utxos row =
     (if sn_kind row \<notin> {Deposit, Rotation, Baseline} \<or> seen_key row \<in> utxo_key ` set utxos then ret ()
      else andthen (on_book (await (\<lambda>t. Inr (bw_outspend w t (sn_txid row) (sn_vout row))))) (\<lambda>out. case out of
        Some (True, spender) \<Rightarrow>
          andthen (markSeen (seen_key row) Spent_mark) (\<lambda>x.
          if sn_kind row = Deposit
          then andthen (boarding_now w) (\<lambda>now.
               andthen (on_book (modify (settleOnboard now (outpoint_key (sn_txid row) (nat (sn_vout row))) spender))) (\<lambda>x.
               on_book (modify (notify Onboard_settled))))
          else ret ())
      | _ \<Rightarrow> ret ()))"

definition reconcileBoardingHistory :: "boarding_world \<Rightarrow> unit watcher" where
  "reconcileBoardingHistory w =
     andthen (on_book (await (bw_utxos w))) (\<lambda>utxos.
     andthen (reading bd_seen) (\<lambda>seen.
     if SENTINEL \<notin> seen_key ` set seen
     then andthen (for_each (\<lambda>u. markSeen (utxo_key u) Baseline) utxos) (\<lambda>x. markSeen SENTINEL Init_mark)
     else andthen (for_each (board_arrival w seen) utxos) (\<lambda>x. for_each (board_departure w utxos) seen)))"

subsection \<open>The schedule of the receive passes\<close>

text \<open>\<open>ws_started\<close> counts the passes.\<close>

record wake_loop =
  ws_running :: bool
  ws_queued :: bool
  ws_started :: nat

definition reconcileReceives :: "wake_loop \<Rightarrow> wake_loop" where
  "reconcileReceives s = (if ws_running s then s\<lparr>ws_queued := True\<rparr> else s\<lparr>ws_running := True, ws_started := Suc (ws_started s)\<rparr>)"

definition passes_done :: "wake_loop \<Rightarrow> wake_loop" where
  "passes_done s = (if \<not> ws_running s then s
     else (let idle = s\<lparr>ws_running := False\<rparr> in
       if ws_queued s then reconcileReceives (idle\<lparr>ws_queued := False\<rparr>) else idle))"

subsection \<open>The schedule of the proof sync\<close>

datatype sync_alert = Asp_degraded | Asp_recovered | Betrayed "string list" | Expired_vtxos "string list"

text \<open>The two timers are the reason and the delay they were armed with; \<open>sy_started\<close> are the reasons of the passes.\<close>

record sync_service =
  sy_running :: bool
  sy_stopped :: bool
  sy_pending :: "string option"
  sy_retry :: nat
  sy_aspAlerted :: bool
  sy_betrayals :: "string list"
  sy_debounce :: "string option"
  sy_retryTimer :: "int option"
  sy_alerts :: "sync_alert list"
  sy_started :: "string list"

definition fresh_sync :: sync_service where
  "fresh_sync = \<lparr>sy_running = False, sy_stopped = False, sy_pending = None, sy_retry = 0, sy_aspAlerted = False, sy_betrayals = [],
     sy_debounce = None, sy_retryTimer = None, sy_alerts = [], sy_started = []\<rparr>"

record sync_timing =
  sg_retryDelays :: "int list"
  sg_alertThreshold :: nat

definition sync_begin :: "string \<Rightarrow> sync_service \<Rightarrow> sync_service" where
  "sync_begin reason s = (if sy_stopped s then s
     else if sy_running s then s\<lparr>sy_pending := Some reason\<rparr>
     else s\<lparr>sy_running := True, sy_started := sy_started s @ [reason]\<rparr>)"

definition sync_trigger :: "string \<Rightarrow> sync_service \<Rightarrow> sync_service" where
  "sync_trigger reason s = (if sy_stopped s then s else s\<lparr>sy_debounce := Some reason\<rparr>)"

definition debounce_fires :: "sync_service \<Rightarrow> sync_service" where
  "debounce_fires s = (case sy_debounce s of None \<Rightarrow> s | Some r \<Rightarrow> sync_begin r (s\<lparr>sy_debounce := None\<rparr>))"

definition retry_fires :: "sync_service \<Rightarrow> sync_service" where
  "retry_fires s = (case sy_retryTimer s of None \<Rightarrow> s | Some d \<Rightarrow> sync_begin ''retry'' (s\<lparr>sy_retryTimer := None\<rparr>))"

definition sync_alert_out :: "sync_alert \<Rightarrow> sync_service \<Rightarrow> sync_service" where
  "sync_alert_out a s = s\<lparr>sy_alerts := sy_alerts s @ [a]\<rparr>"

definition pass_failed :: "sync_timing \<Rightarrow> sync_service \<Rightarrow> sync_service" where
  "pass_failed g s =
     (let s1 = s\<lparr>sy_retry := Suc (sy_retry s)\<rparr>;
          s2 = (if \<not> sy_aspAlerted s1 \<and> sg_alertThreshold g \<le> sy_retry s1 then sync_alert_out Asp_degraded (s1\<lparr>sy_aspAlerted := True\<rparr>) else s1)
      in s2\<lparr>sy_retryTimer := Some (sg_retryDelays g ! min (sy_retry s) (length (sg_retryDelays g) - 1))\<rparr>)"

definition pass_clean :: "sync_service \<Rightarrow> sync_service" where
  "pass_clean s = (let s1 = s\<lparr>sy_retry := 0\<rparr> in
     if sy_aspAlerted s1 then sync_alert_out Asp_recovered (s1\<lparr>sy_aspAlerted := False\<rparr>) else s1)"

definition checkMaturedBetrayals :: "err + string list \<Rightarrow> sync_service \<Rightarrow> sync_service" where
  "checkMaturedBetrayals matured s = (case matured of
     Inl e \<Rightarrow> s
   | Inr ms \<Rightarrow> (let fresh = filter (\<lambda>m. m \<notin> set (sy_betrayals s)) ms;
        s1 = (if fresh \<noteq> [] then sync_alert_out (Betrayed fresh) s else s)
      in s1\<lparr>sy_betrayals := ms\<rparr>))"

text \<open>A pass ends with the result of \<open>syncProofs\<close>, or with the error that ended it; then the \<open>finally\<close>.\<close>

definition sync_end :: "sync_timing \<Rightarrow> err + sync_result \<Rightarrow> err + string list \<Rightarrow> sync_service \<Rightarrow> sync_service" where
  "sync_end g out matured s = (if \<not> sy_running s then s else
     (let s1 = (case out of
              Inl e \<Rightarrow> pass_failed g s
            | Inr r \<Rightarrow> (let s0 = (if r_expired r \<noteq> [] then sync_alert_out (Expired_vtxos (r_expired r)) s else s) in
                if r_failed r \<noteq> [] then pass_failed g s0 else pass_clean s0));
          s2 = s1\<lparr>sy_running := False\<rparr>;
          s3 = (if sy_stopped s2 then s2 else checkMaturedBetrayals matured s2)
      in (case sy_pending s3 of
            Some next \<Rightarrow> if sy_stopped s3 then s3 else sync_begin next (s3\<lparr>sy_pending := None\<rparr>)
          | None \<Rightarrow> s3)))"

definition sync_stop :: "sync_service \<Rightarrow> sync_service" where
  "sync_stop s = s\<lparr>sy_stopped := True, sy_debounce := None, sy_retryTimer := None\<rparr>"

datatype sync_event = Sync_trigger string | Debounce_fires | Retry_fires | Sync_end "err + sync_result" "err + string list" | Sync_stop

fun sync_do :: "sync_timing \<Rightarrow> sync_event \<Rightarrow> sync_service \<Rightarrow> sync_service" where
  "sync_do g (Sync_trigger reason) s = sync_trigger reason s"
| "sync_do g Debounce_fires s = debounce_fires s"
| "sync_do g Retry_fires s = retry_fires s"
| "sync_do g (Sync_end out matured) s = sync_end g out matured s"
| "sync_do g Sync_stop s = sync_stop s"

definition sync_run :: "sync_timing \<Rightarrow> sync_event list \<Rightarrow> sync_service" where
  "sync_run g evs = foldl (\<lambda>s ev. sync_do g ev s) fresh_sync evs"

text \<open>What the server claims, on the footing of the readiness counters: without the coins an exit owns.\<close>

definition claim_total :: "db \<Rightarrow> vcoin list \<Rightarrow> nat" where
  "claim_total d coins = length (filter (\<lambda>v. \<not> (\<exists>op \<in> set (ops d). o_state op \<noteq> Op_failed \<and> o_txid op = c_txid v \<and> o_vout op = c_vout v)) coins)"

end
