(* ===== verification/Upkeep_Safety.thy ===== *)
theory Upkeep_Safety
  imports Upkeep Service_State
begin

text \<open>
  The background jobs: how often a round can be bought, that a wake-up is never lost, when the operator is told of an outage,
  and what makes a deposit appear in the history.
\<close>

subsection \<open>How often a round can be bought\<close>

definition quiet_after :: "refresh_outcome \<Rightarrow> int" where
  "quiet_after out = (case out of Idle_pass \<Rightarrow> 0 | Refresh_failed \<Rightarrow> 30 * 60000 | Refreshed \<Rightarrow> 12 * 3600000)"

definition quiet_kept :: "refresh_schedule \<Rightarrow> int \<Rightarrow> bool" where
  "quiet_kept s t \<longleftrightarrow> sorted_wrt (\<lambda>a b. fst a + quiet_after (snd a) \<le> fst b) (rf_ends s)
     \<and> (\<forall>a \<in> set (rf_ends s). fst a + quiet_after (snd a) \<le> rf_quietUntil s)
     \<and> (rf_running s \<longrightarrow> (\<forall>a \<in> set (rf_ends s). fst a + quiet_after (snd a) \<le> t))"

lemma quiet_kept_step:
  assumes "quiet_kept s t" and "t \<le> refresh_time ev"
  shows "quiet_kept (refresh_do ev s) (refresh_time ev)"
proof (cases ev)
  case (Refresh_tick now)
  then show ?thesis using assms by (fastforce simp: quiet_kept_def refresh_begin_def)
next
  case (Refresh_end now out)
  have "fst a + quiet_after (snd a) \<le> now" if "rf_running s" "a \<in> set (rf_ends s)" for a
    using assms that Refresh_end by (fastforce simp: quiet_kept_def)
  then show ?thesis using assms Refresh_end
    by (fastforce simp: quiet_kept_def refresh_end_def sorted_wrt_append quiet_after_def split: refresh_outcome.splits)
qed

text \<open>However short the life of a fresh coin is, rounds are not bought in a loop: after a pass that consolidated the
  next one that tries ends at least twelve hours later, after one that failed at least half an hour later.\<close>

theorem rounds_bounded:
  assumes "sorted (map refresh_time evs)"
  shows "sorted_wrt (\<lambda>a b. fst a + quiet_after (snd a) \<le> fst b) (rf_ends (refresh_run evs))"
proof -
  have "\<exists>t. quiet_kept (refresh_run evs) t \<and> (evs \<noteq> [] \<longrightarrow> t = refresh_time (last evs))"
    using assms
  proof (induction evs rule: rev_induct)
    case Nil
    show ?case by (simp add: refresh_run_def quiet_kept_def)
  next
    case (snoc ev evs)
    then obtain t where t: "quiet_kept (refresh_run evs) t" "evs \<noteq> [] \<longrightarrow> t = refresh_time (last evs)" by (auto simp: sorted_append)
    show ?case
    proof (cases "evs = []")
      case True
      have "quiet_kept (refresh_run []) (refresh_time ev)" by (simp add: refresh_run_def quiet_kept_def)
      from quiet_kept_step [OF this order_refl] True show ?thesis by (simp add: refresh_run_def)
    next
      case False
      then have "t \<le> refresh_time ev" using t(2) snoc.prems by (simp add: sorted_append)
      from quiet_kept_step [OF t(1) this] show ?thesis by (simp add: refresh_run_def)
    qed
  qed
  then show ?thesis by (auto simp: quiet_kept_def)
qed

subsection \<open>No wake-up is lost\<close>

text \<open>A job that runs one pass at a time and one more if it was asked in between.\<close>

locale single_flight =
  fixes live busy queued :: "'s \<Rightarrow> bool" and count :: "'s \<Rightarrow> nat" and ask_pass end_pass :: "'s \<Rightarrow> 's"
  assumes ask_idle: "live s \<Longrightarrow> \<not> busy s \<Longrightarrow> busy (ask_pass s) \<and> count (ask_pass s) = Suc (count s) \<and> live (ask_pass s)"
    and ask_busy: "live s \<Longrightarrow> busy s \<Longrightarrow> busy (ask_pass s) \<and> queued (ask_pass s) \<and> count (ask_pass s) = count s \<and> live (ask_pass s)"
    and end_idle: "live s \<Longrightarrow> \<not> busy s \<Longrightarrow> end_pass s = s"
    and end_busy: "live s \<Longrightarrow> busy s \<Longrightarrow> live (end_pass s) \<and> (if queued s then busy (end_pass s) \<and> count (end_pass s) = Suc (count s)
      else \<not> busy (end_pass s) \<and> count (end_pass s) = count s)"
begin

definition flights :: "bool list \<Rightarrow> 's \<Rightarrow> 's" where
  "flights ends s = foldl (\<lambda>s e. if e then end_pass s else ask_pass s) s ends"

definition owed :: "nat \<Rightarrow> 's \<Rightarrow> bool" where
  "owed n s \<longleftrightarrow> live s \<and> (n < count s \<or> n = count s \<and> busy s \<and> queued s)"

lemma owed_step: "owed n s \<Longrightarrow> owed n (if ends then end_pass s else ask_pass s)"
  using ask_idle [of s] ask_busy [of s] end_idle [of s] end_busy [of s]
  by (cases "busy s"; cases "queued s"; cases ends) (auto simp: owed_def)

lemma served:
  assumes "live s"
  shows "owed (count s) (ask_pass s)" and "True \<in> set ends \<Longrightarrow> count s < count (flights ends (ask_pass s))"
proof -
  show first: "owed (count s) (ask_pass s)"
    using ask_idle [OF assms] ask_busy [OF assms] by (cases "busy s") (auto simp: owed_def)
  have "owed n (flights ends s')" if "owed n s'" for n s' ends
    using that by (induction ends arbitrary: s') (simp_all add: flights_def owed_step)
  note kept = this
  assume "True \<in> set ends"
  then obtain xs ys where split: "ends = xs @ True # ys" by (auto simp: in_set_conv_decomp)
  let ?mid = "flights xs (ask_pass s)"
  have mid: "owed (count s) ?mid" using kept [OF first] .
  then have after: "owed (count s) (end_pass ?mid) \<and> count s < count (end_pass ?mid)"
    using end_idle [of ?mid] end_busy [of ?mid] by (cases "busy ?mid"; cases "queued ?mid") (auto simp: owed_def)
  moreover have "count (end_pass ?mid) \<le> count (flights ys (end_pass ?mid))" if "live (end_pass ?mid)"
  proof -
    have "count s' \<le> count (flights ys s') \<and> live (flights ys s')" if "live s'" for s'
      using that
    proof (induction ys arbitrary: s')
      case (Cons m ms)
      have "live (if m then end_pass s' else ask_pass s') \<and> count s' \<le> count (if m then end_pass s' else ask_pass s')"
        using ask_idle [of s'] ask_busy [of s'] end_idle [of s'] end_busy [of s'] Cons.prems by (cases "busy s'"; cases "queued s'") auto
      with Cons.IH show ?case by (fastforce simp: flights_def)
    qed (simp add: flights_def)
    with that show ?thesis by blast
  qed
  moreover have "flights ends (ask_pass s) = flights ys (end_pass ?mid)" by (simp add: split flights_def)
  ultimately show "count s < count (flights ends (ask_pass s))" by (fastforce simp: owed_def)
qed

end

interpretation wake: single_flight "\<lambda>s. True" ws_running ws_queued ws_started reconcileReceives passes_done
  by unfold_locales (auto simp: reconcileReceives_def passes_done_def Let_def)

definition sync_live :: "sync_service \<Rightarrow> bool" where
  "sync_live s \<longleftrightarrow> \<not> sy_stopped s"

lemma sync_alert_simps [simp]:
  "sy_running (sync_alert_out a s) = sy_running s" "sy_stopped (sync_alert_out a s) = sy_stopped s"
  "sy_pending (sync_alert_out a s) = sy_pending s" "sy_started (sync_alert_out a s) = sy_started s"
  "sy_retry (sync_alert_out a s) = sy_retry s" "sy_aspAlerted (sync_alert_out a s) = sy_aspAlerted s"
  by (simp_all add: sync_alert_out_def)

lemma pass_parts [simp]:
  "sy_running (pass_failed g s) = sy_running s" "sy_stopped (pass_failed g s) = sy_stopped s"
  "sy_pending (pass_failed g s) = sy_pending s" "sy_started (pass_failed g s) = sy_started s"
  "sy_running (pass_clean s) = sy_running s" "sy_stopped (pass_clean s) = sy_stopped s"
  "sy_pending (pass_clean s) = sy_pending s" "sy_started (pass_clean s) = sy_started s"
  by (simp_all add: pass_failed_def pass_clean_def Let_def)

lemma matured_parts [simp]:
  "sy_running (checkMaturedBetrayals m s) = sy_running s" "sy_stopped (checkMaturedBetrayals m s) = sy_stopped s"
  "sy_pending (checkMaturedBetrayals m s) = sy_pending s" "sy_started (checkMaturedBetrayals m s) = sy_started s"
  "sy_retry (checkMaturedBetrayals m s) = sy_retry s" "sy_aspAlerted (checkMaturedBetrayals m s) = sy_aspAlerted s"
  by (auto simp: checkMaturedBetrayals_def Let_def split: sum.split)

interpretation syn: single_flight sync_live sy_running "\<lambda>s. sy_pending s \<noteq> None" "\<lambda>s. length (sy_started s)"
  "sync_begin r" "sync_end g out matured" for r g out matured
  by unfold_locales (auto simp: sync_begin_def sync_end_def sync_live_def Let_def split: option.split sum.split)

text \<open>A poke of the receive passes is never lost: one that arrives in the middle of a pass is followed by another
  pass when that one ends, however many more arrive; and no two passes overlap.\<close>

theorem poke_served:
  assumes "True \<in> set ends"
  shows "ws_started s < ws_started (foldl (\<lambda>s e. if e then passes_done s else reconcileReceives s) (reconcileReceives s) ends)"
  using wake.served(2) [OF TrueI assms, of s] by (simp add: wake.flights_def)

subsection \<open>Alerts\<close>

definition asp_alert :: "sync_alert \<Rightarrow> bool" where
  "asp_alert a \<longleftrightarrow> a = Asp_degraded \<or> a = Asp_recovered"

fun alternates :: "bool \<Rightarrow> sync_alert list \<Rightarrow> bool" where
  "alternates down [] = (\<not> down)"
| "alternates down (a # as) = (if down then a = Asp_degraded \<and> alternates False as else a = Asp_recovered \<and> alternates True as)"

definition sync_ok :: "sync_timing \<Rightarrow> sync_service \<Rightarrow> bool" where
  "sync_ok g s \<longleftrightarrow> (sy_aspAlerted s \<longleftrightarrow> sg_alertThreshold g \<le> sy_retry s)
     \<and> alternates (sy_aspAlerted s) (rev (filter asp_alert (sy_alerts s)))"

lemma sync_ok_frame:
  "sy_aspAlerted t = sy_aspAlerted s \<Longrightarrow> sy_retry t = sy_retry s \<Longrightarrow> filter asp_alert (sy_alerts t) = filter asp_alert (sy_alerts s)
   \<Longrightarrow> sync_ok g t = sync_ok g s"
  by (simp add: sync_ok_def)

lemma timer_frame:
  "sync_ok g (s\<lparr>sy_debounce := x\<rparr>) = sync_ok g s" "sync_ok g (s\<lparr>sy_retryTimer := y\<rparr>) = sync_ok g s"
  "sync_ok g (s\<lparr>sy_running := b\<rparr>) = sync_ok g s" "sync_ok g (s\<lparr>sy_pending := p\<rparr>) = sync_ok g s"
  by (simp_all add: sync_ok_def)

lemma begin_frame: "sync_ok g (sync_begin r s) = sync_ok g s"
  by (rule sync_ok_frame) (simp_all add: sync_begin_def)

lemma failed_ok: "0 < sg_alertThreshold g \<Longrightarrow> sync_ok g s \<Longrightarrow> sync_ok g (pass_failed g s)"
  by (auto simp: sync_ok_def pass_failed_def sync_alert_out_def asp_alert_def Let_def)

lemma clean_ok: "0 < sg_alertThreshold g \<Longrightarrow> sync_ok g s \<Longrightarrow> sync_ok g (pass_clean s)"
  by (auto simp: sync_ok_def pass_clean_def sync_alert_out_def asp_alert_def Let_def)

lemma matured_frame: "sync_ok g (checkMaturedBetrayals m s) = sync_ok g s"
  by (rule sync_ok_frame) (auto simp: checkMaturedBetrayals_def sync_alert_out_def asp_alert_def Let_def split: sum.split)

lemma expired_frame: "sync_ok g (sync_alert_out (Expired_vtxos xs) s) = sync_ok g s"
  by (rule sync_ok_frame) (auto simp: sync_alert_out_def asp_alert_def)

lemma sync_step_ok:
  assumes "0 < sg_alertThreshold g" and "sync_ok g s"
  shows "sync_ok g (sync_do g ev s)"
proof (cases ev)
  case (Sync_trigger r)
  then show ?thesis using assms by (auto simp: sync_trigger_def sync_ok_def)
next
  case Debounce_fires
  then show ?thesis using assms by (simp add: debounce_fires_def begin_frame timer_frame split: option.split)
next
  case Retry_fires
  then show ?thesis using assms by (simp add: retry_fires_def begin_frame timer_frame split: option.split)
next
  case Sync_stop
  then show ?thesis using assms by (auto simp: sync_stop_def sync_ok_def)
next
  case (Sync_end out matured)
  show ?thesis
    using assms Sync_end failed_ok clean_ok
    by (auto simp: sync_end_def Let_def begin_frame matured_frame expired_frame timer_frame split: sum.split option.split)
qed


subsection \<open>Deposits\<close>

lemma keeps_on_book: "moves R m \<Longrightarrow> (\<And>b d. P b \<Longrightarrow> R (bd_db b) d \<Longrightarrow> P (b\<lparr>bd_db := d\<rparr>)) \<Longrightarrow> keeps P (on_book m)"
  by (auto simp: keeps_def on_book_def split: prod.split) (metis movesD snd_conv)

definition same_history :: "db \<Rightarrow> db \<Rightarrow> bool" where
  "same_history d t \<longleftrightarrow> history t = history d"

definition minted_for :: "boarding_world \<Rightarrow> boarding_utxo list \<Rightarrow> seen_row list \<Rightarrow> history_row \<Rightarrow> bool" where
  "minted_for w utxos seen row \<longleftrightarrow> (\<exists>u \<in> set utxos. h_kind row = Onboard \<and> h_state row = Tx_pending
     \<and> h_ref row = Some (outpoint_key (bu_txid u) (bu_vout u)) \<and> h_amountMsat row = bu_value u * 1000
     \<and> utxo_key u \<notin> seen_key ` set seen
     \<and> (\<exists>t. case bw_txInputs w t (bu_txid u) of None \<Rightarrow> True | Some ins \<Rightarrow> set ins \<inter> seen_key ` set seen = {}))"

definition settled_for :: "boarding_world \<Rightarrow> boarding_utxo list \<Rightarrow> seen_row list \<Rightarrow> history_row \<Rightarrow> history_row \<Rightarrow> bool" where
  "settled_for w utxos seen old row \<longleftrightarrow> (\<exists>r \<in> set seen. \<exists>t spender. sn_kind r = Deposit \<and> seen_key r \<notin> utxo_key ` set utxos
     \<and> bw_outspend w t (sn_txid r) (sn_vout r) = Some (True, spender)
     \<and> h_kind old = Onboard \<and> h_ref old = Some (outpoint_key (sn_txid r) (nat (sn_vout r))) \<and> h_state old = Tx_pending
     \<and> h_state row = Tx_settled \<and> h_ref row = h_ref old \<and> h_amountMsat row = h_amountMsat old)"

definition explained :: "boarding_world \<Rightarrow> boarding_utxo list \<Rightarrow> seen_row list \<Rightarrow> history_row list \<Rightarrow> boarding \<Rightarrow> bool" where
  "explained w utxos seen rows b \<longleftrightarrow> (\<forall>row \<in> set (history (bd_db b)). row \<in> set rows \<or> minted_for w utxos seen row
     \<or> (\<exists>old. (old \<in> set rows \<or> minted_for w utxos seen old) \<and> settled_for w utxos seen old row))"

lemma explained_history: "same_history (bd_db b) d \<Longrightarrow> explained w utxos seen rows b \<Longrightarrow> explained w utxos seen rows (b\<lparr>bd_db := d\<rparr>)"
  by (simp add: explained_def same_history_def)

lemma explained_clock: "keeps (explained w utxos seen rows) (boarding_now w')"
  unfolding boarding_now_def
  by (rule keeps_on_book [of same_history]) (simp_all add: moves_def clock_ms_def same_history_def explained_def)

lemma explained_notify: "keeps (explained w utxos seen rows) (on_book (modify (notify n)))"
  by (rule keeps_on_book [of same_history]) (simp_all add: moves_def same_history_def explained_def)

lemma explained_await: "keeps (explained w utxos seen rows) (on_book (await ask))"
  by (rule keeps_on_book [of same_history]) (simp_all add: moves_def await_def same_history_def explained_def)

lemma explained_mark: "keeps (explained w utxos seen rows) (markSeen key kind)"
  unfolding markSeen_def by (rule keeps_modify) (simp add: explained_def)

lemma triple_answer: "triple P (on_book (await (\<lambda>t. Inr (g t)))) (\<lambda>y b. \<exists>t. y = g t) (\<lambda>e b. True)"
  by (rule tripleI) (auto simp: on_book_def await_def)

lemma explained_arrival:
  assumes "u \<in> set utxos"
  shows "keeps (explained w utxos seen rows) (board_arrival w seen u)"
proof -
  have mint: "keeps (explained w utxos seen rows) (on_book (modify (recordOnboardPending now (bu_txid u) (bu_vout u) (bu_value u))))"
    if "utxo_key u \<notin> seen_key ` set seen" "\<exists>t. case bw_txInputs w t (bu_txid u) of None \<Rightarrow> True | Some ins \<Rightarrow> set ins \<inter> seen_key ` set seen = {}" for now
    unfolding keeps_def
  proof (intro allI impI)
    fix b assume b: "explained w utxos seen rows b"
    have "minted_for w utxos seen row" if "row \<in> set (history (recordOnboardPending now (bu_txid u) (bu_vout u) (bu_value u) (bd_db b)))"
        "row \<notin> set (history (bd_db b))" for row
      using that assms \<open>utxo_key u \<notin> _\<close> \<open>\<exists>t. _\<close>
      by (auto simp: recordOnboardPending_def history_insert_def minted_for_def split: if_splits)
    then show "explained w utxos seen rows (snd (on_book (modify (recordOnboardPending now (bu_txid u) (bu_vout u) (bu_value u))) b))"
      using b by (auto simp: explained_def on_book_def)
  qed
  have "keeps (explained w utxos seen rows)
    (let sweep = (case inputs of None \<Rightarrow> False | Some ins \<Rightarrow> list_ex (\<lambda>i. i \<in> seen_key ` set seen) ins) in
         andthen (markSeen (utxo_key u) (if sweep then Rotation else Deposit)) (\<lambda>x.
         if sweep then ret ()
         else andthen (boarding_now w) (\<lambda>now.
              andthen (on_book (modify (recordOnboardPending now (bu_txid u) (bu_vout u) (bu_value u)))) (\<lambda>x.
              on_book (modify (notify Onboard_seen))))))"
    if "utxo_key u \<notin> seen_key ` set seen" "\<exists>t. inputs = bw_txInputs w t (bu_txid u)" for inputs
  proof (cases "case inputs of None \<Rightarrow> False | Some ins \<Rightarrow> list_ex (\<lambda>i. i \<in> seen_key ` set seen) ins")
    case True
    then show ?thesis by (simp add: Let_def) (intro keeps_andthen keeps_ret explained_mark)
  next
    case False
    then have "case inputs of None \<Rightarrow> True | Some ins \<Rightarrow> set ins \<inter> seen_key ` set seen = {}"
      by (auto simp: list_ex_iff disjoint_iff split: option.splits)
    with that(2) have "\<exists>t. case bw_txInputs w t (bu_txid u) of None \<Rightarrow> True | Some ins \<Rightarrow> set ins \<inter> seen_key ` set seen = {}" by auto
    with False mint [OF that(1)] show ?thesis
      by (simp add: Let_def) (intro keeps_andthen explained_mark explained_clock explained_notify; blast)
  qed
  then show ?thesis
    unfolding board_arrival_def
    by (intro keeps_if keeps_ret keeps_then [OF explained_await triple_answer]) auto
qed

lemma explained_departure:
  assumes "row \<in> set seen"
  shows "keeps (explained w utxos seen rows) (board_departure w utxos row)"
proof -
  have settle: "keeps (explained w utxos seen rows) (on_book (modify (settleOnboard now (outpoint_key (sn_txid row) (nat (sn_vout row))) spender)))"
    if "sn_kind row = Deposit" "seen_key row \<notin> utxo_key ` set utxos" "bw_outspend w t (sn_txid row) (sn_vout row) = Some (True, spender)" for now spender t
    unfolding keeps_def
  proof (intro allI impI)
    fix b assume b: "explained w utxos seen rows b"
    let ?ref = "outpoint_key (sn_txid row) (nat (sn_vout row))"
    let ?f = "\<lambda>r. r\<lparr>h_state := Tx_settled, h_txid2 := coalesce spender (h_txid2 r), h_settledAt := Some now\<rparr>"
    have "settled_for w utxos seen r (?f r)" if "is_row Onboard ?ref r" "h_state r = Tx_pending" for r
      unfolding settled_for_def using that assms \<open>sn_kind row = _\<close> \<open>seen_key row \<notin> _\<close> \<open>bw_outspend _ _ _ _ = _\<close>
      by (intro bexI [of _ row] exI [of _ t] exI [of _ spender]) (simp_all add: is_row_def)
    moreover have "r \<in> set rows \<or> minted_for w utxos seen r" if "r \<in> set (history (bd_db b))" "h_state r = Tx_pending" for r
      using b that by (auto simp: explained_def settled_for_def)
    ultimately show "explained w utxos seen rows (snd (on_book (modify (settleOnboard now ?ref spender)) b))"
      using b unfolding explained_def by (auto simp: on_book_def settleOnboard_def update_history_def)
  qed
  have "keeps (explained w utxos seen rows) (case out of
        Some (True, spender) \<Rightarrow>
          andthen (markSeen (seen_key row) Spent_mark) (\<lambda>x.
          if sn_kind row = Deposit
          then andthen (boarding_now w) (\<lambda>now.
               andthen (on_book (modify (settleOnboard now (outpoint_key (sn_txid row) (nat (sn_vout row))) spender))) (\<lambda>x.
               on_book (modify (notify Onboard_settled))))
          else ret ())
      | _ \<Rightarrow> ret ())"
    if "seen_key row \<notin> utxo_key ` set utxos" "\<exists>t. out = bw_outspend w t (sn_txid row) (sn_vout row)" for out
    using settle that
    by (auto split: option.split bool.split intro!: keeps_ret keeps_andthen keeps_if explained_mark explained_clock explained_notify)
  then show ?thesis
    unfolding board_departure_def
    by (intro keeps_if keeps_ret keeps_then [OF explained_await triple_answer]) auto
qed

text \<open>What makes a deposit appear and what settles it. The first pass ever writes no row. In every later one, whatever
  the explorer answers and even if the pass breaks off, a row of the history was there before, or announces a listed outpoint
  that was never seen and that none of our own outpoints funded, with its amount; or is such a row settled, for a deposit that
  left the set and that the explorer reported spent.\<close>

theorem deposits_observed:
  shows "(SENTINEL \<notin> seen_key ` set (bd_seen b) \<longrightarrow> history (bd_db (snd (reconcileBoardingHistory w b))) = history (bd_db b))
    \<and> (\<exists>utxos. (utxos = [] \<or> (\<exists>t. bw_utxos w t = Inr utxos)) \<and> (\<forall>row \<in> set (history (bd_db (snd (reconcileBoardingHistory w b)))). row \<in> set (history (bd_db b))
       \<or> minted_for w utxos (bd_seen b) row
       \<or> (\<exists>old. (old \<in> set (history (bd_db b)) \<or> minted_for w utxos (bd_seen b) old) \<and> settled_for w utxos (bd_seen b) old row)))"
proof -
  obtain r d where ask: "await (bw_utxos w) (bd_db b) = (r, d)" by fastforce
  then have d: "history d = history (bd_db b)" by (auto simp: await_def)
  show ?thesis
  proof (cases r)
    case (Inl e)
    then have "snd (reconcileBoardingHistory w b) = b\<lparr>bd_db := d\<rparr>"
      using ask by (simp add: reconcileBoardingHistory_def andthen_def on_book_def)
    with d show ?thesis by (intro conjI exI [of _ "[]"]) auto
  next
    case (Inr utxos)
    with ask have listed: "\<exists>t. bw_utxos w t = Inr utxos" by (auto simp: await_def)
    let ?b = "b\<lparr>bd_db := d\<rparr>" and ?seen = "bd_seen b"
    let ?first = "andthen (for_each (\<lambda>u. markSeen (utxo_key u) Baseline) utxos) (\<lambda>x. markSeen SENTINEL Init_mark)"
    let ?later = "andthen (for_each (board_arrival w ?seen) utxos) (\<lambda>x. for_each (board_departure w utxos) ?seen)"
    have run: "reconcileBoardingHistory w b = (if SENTINEL \<notin> seen_key ` set ?seen then ?first else ?later) ?b"
      using ask Inr by (simp add: reconcileBoardingHistory_def andthen_def on_book_def)
    have "keeps (\<lambda>c. history (bd_db c) = history (bd_db b)) (markSeen key kind)" for key kind
      unfolding markSeen_def by (rule keeps_modify) simp
    then have "keeps (\<lambda>c. history (bd_db c) = history (bd_db b)) ?first" by (intro keeps_andthen keeps_for_each)
    from keepsD [OF this, of ?b] d have first: "history (bd_db (snd (?first ?b))) = history (bd_db b)" by simp
    have "keeps (explained w utxos ?seen (history (bd_db b))) ?later"
      by (intro keeps_andthen keeps_for_each explained_arrival explained_departure)
    moreover have "explained w utxos ?seen (history (bd_db b)) ?b" using d by (simp add: explained_def)
    ultimately have later: "explained w utxos ?seen (history (bd_db b)) (snd (?later ?b))" by (rule keepsD)
    show ?thesis
    proof (cases "SENTINEL \<notin> seen_key ` set ?seen")
      case True
      with run first listed show ?thesis by (intro conjI exI [of _ utxos]) auto
    next
      case False
      with run later listed show ?thesis unfolding explained_def by (intro conjI exI [of _ utxos]) auto
    qed
  qed
qed

subsection \<open>Runs\<close>

theorem rounds_bounded_witness:
  "rf_ends (refresh_run [Refresh_tick 0, Refresh_end 5 Refreshed, Refresh_tick 43200004, Refresh_tick 43200006, Refresh_end 43200009 Refresh_failed])
     = [(5, Refreshed), (43200009, Refresh_failed)] \<and> (5 :: int) + quiet_after Refreshed \<le> 43200009"
proof -
  let ?evs = "[Refresh_tick 0, Refresh_end 5 Refreshed, Refresh_tick 43200004, Refresh_tick 43200006, Refresh_end 43200009 Refresh_failed]"
  have "rf_ends (refresh_run ?evs) = [(5, Refreshed), (43200009, Refresh_failed)]"
    by (simp add: refresh_run_def refresh_begin_def refresh_end_def)
  with rounds_bounded [of ?evs] show ?thesis by simp
qed

theorem poke_served_witness:
  "Suc 0 < ws_started (foldl (\<lambda>s e. if e then passes_done s else reconcileReceives s)
     (reconcileReceives \<lparr>ws_running = True, ws_queued = False, ws_started = 1\<rparr>) [False, True])"
  using poke_served [of "[False, True]" "\<lparr>ws_running = True, ws_queued = False, ws_started = 1\<rparr>"] by simp

definition failing_twice :: "sync_event list" where
  "failing_twice = concat (replicate 2 [Sync_trigger ''poll'', Debounce_fires, Sync_end (Inl (Error ''down'')) (Inr [])])"


definition sample_watch :: boarding_world where
  "sample_watch = \<lparr>bw_utxos = (\<lambda>t. Inr [\<lparr>bu_txid = ''aa'', bu_vout = 0, bu_value = 7\<rparr>]), bw_outspend = (\<lambda>t x v. None),
     bw_txInputs = (\<lambda>t x. None), bw_now = (\<lambda>t. 100)\<rparr>"

theorem deposits_observed_witness:
  "history (bd_db (snd (reconcileBoardingHistory sample_watch \<lparr>bd_db = empty_db, bd_seen = []\<rparr>))) = []"
  using deposits_observed [of "\<lparr>bd_db = empty_db, bd_seen = []\<rparr>" sample_watch] by (simp add: empty_db_def)

end
