(* ===== verification/Pair_Sign.thy ===== *)
theory Pair_Sign
  imports Atomic_Send Atomic_Receive
begin

text \<open>
  Building, pre-signing, verifying and completing the transactions of a shared vtxo (\<open>src/atomic/tx.ts\<close>). A transaction is a
  value of the SDK's type \<open>'tx\<close>; what the code does with one (build, sign, serialise, merge signatures, reveal a preimage,
  read its id and the keys that signed) are fields of \<open>pair_lib\<close>. Signing returns a new transaction: the SDK's identities
  copy before they sign. What is sent to the server is a log.
\<close>

record ark_input =
  ai_txid :: string
  ai_vout :: nat
  ai_value :: int
  ai_leaf :: tapscript
  ai_tapTree :: bytes

record 'tx pair_lib =
  kx_build :: "ark_input list \<Rightarrow> atomic_output list \<Rightarrow> string \<Rightarrow> err + 'tx \<times> 'tx list"
  kx_id :: "'tx \<Rightarrow> string"
  kx_inputs :: "'tx \<Rightarrow> nat"
  kx_sigs :: "'tx \<Rightarrow> nat \<Rightarrow> err + bytes list option"
  kx_toPSBT :: "'tx \<Rightarrow> bytes"
  kx_fromPSBT :: "bytes \<Rightarrow> err + 'tx"
  kx_base64 :: "bytes \<Rightarrow> string"
  kx_unbase64 :: "string \<Rightarrow> err + bytes"
  kx_combine :: "'tx \<Rightarrow> 'tx \<Rightarrow> err + 'tx"
  kx_reveal :: "'tx \<Rightarrow> nat \<Rightarrow> bytes \<Rightarrow> err + 'tx"
  kx_tapTree :: "atomic_script \<Rightarrow> bytes"

type_synonym 'tx identity = "'tx \<Rightarrow> nat list option \<Rightarrow> err + 'tx"

datatype wire_call = Submitted string "string list" | Finalized string "string list"

record ark_server =
  as_submit :: "nat \<Rightarrow> string \<Rightarrow> string list \<Rightarrow> err + string \<times> string list"
  as_finalize :: "nat \<Rightarrow> string \<Rightarrow> string list \<Rightarrow> err + unit"

record ark_wire =
  aw_tick :: nat
  aw_log :: "wire_call list"

type_synonym 'a wire = "(err, ark_wire, 'a) eff"

definition submitTx :: "ark_server \<Rightarrow> string \<Rightarrow> string list \<Rightarrow> (string \<times> string list) wire" where
  "submitTx v tx cks s = (as_submit v (aw_tick s) tx cks, s\<lparr>aw_tick := Suc (aw_tick s), aw_log := aw_log s @ [Submitted tx cks]\<rparr>)"

definition finalizeTx :: "ark_server \<Rightarrow> string \<Rightarrow> string list \<Rightarrow> unit wire" where
  "finalizeTx v txid cks s = (as_finalize v (aw_tick s) txid cks, s\<lparr>aw_tick := Suc (aw_tick s), aw_log := aw_log s @ [Finalized txid cks]\<rparr>)"

subsection \<open>The wire format and the deterministic pair\<close>

definition encodePsbt :: "'tx pair_lib \<Rightarrow> 'tx \<Rightarrow> string" where
  "encodePsbt k tx = kx_base64 k (kx_toPSBT k tx)"

definition decodePsbt :: "'tx pair_lib \<Rightarrow> string \<Rightarrow> err + 'tx" where
  "decodePsbt k b64 = (case kx_unbase64 k b64 of Inl e \<Rightarrow> Inl e | Inr bs \<Rightarrow> kx_fromPSBT k bs)"

definition arkInput :: "'tx pair_lib \<Rightarrow> shared_vtxo \<Rightarrow> tapscript \<Rightarrow> ark_input" where
  "arkInput k sh leaf = \<lparr>ai_txid = sh_txid sh, ai_vout = sh_vout sh, ai_value = sh_value sh, ai_leaf = leaf,
     ai_tapTree = kx_tapTree k (sh_script sh)\<rparr>"

definition hasSig :: "'tx pair_lib \<Rightarrow> 'tx \<Rightarrow> nat \<Rightarrow> bytes \<Rightarrow> err + bool" where
  "hasSig k tx i pubkey = (case kx_sigs k tx i of
     Inl e \<Rightarrow> Inl e | Inr None \<Rightarrow> Inr False | Inr (Some ks) \<Rightarrow> Inr (pubkey \<in> set ks))"

record 'tx claim_pair =
  cp_arkTx :: 'tx
  cp_checkpoint :: 'tx

definition buildPair :: "'tx pair_lib \<Rightarrow> shared_vtxo \<Rightarrow> tapscript \<Rightarrow> atomic_output list \<Rightarrow> string \<Rightarrow> err + 'tx claim_pair" where
  "buildPair k sh leaf outs unroll = (case kx_build k [arkInput k sh leaf] outs unroll of
     Inl e \<Rightarrow> Inl e
   | Inr (arkTx, [checkpoint]) \<Rightarrow> Inr \<lparr>cp_arkTx = arkTx, cp_checkpoint = checkpoint\<rparr>
   | Inr _ \<Rightarrow> Inl (Error ''atomic pair must have exactly 1 checkpoint''))"

definition buildClaimPair :: "'tx pair_lib \<Rightarrow> shared_vtxo \<Rightarrow> atomic_output list \<Rightarrow> string \<Rightarrow> err + 'tx claim_pair" where
  "buildClaimPair k sh outs unroll = buildPair k sh (sc_claim (sh_script sh)) outs unroll"

definition buildCancelPair :: "'tx pair_lib \<Rightarrow> shared_vtxo \<Rightarrow> atomic_output list \<Rightarrow> string \<Rightarrow> err + 'tx claim_pair" where
  "buildCancelPair k sh outs unroll = buildPair k sh (sc_cancel (sh_script sh)) outs unroll"

subsection \<open>The funder pre-signs\<close>

definition and_sum :: "'e + 'a \<Rightarrow> ('a \<Rightarrow> 'e + 'b) \<Rightarrow> 'e + 'b" where
  "and_sum r f = (case r of Inl e \<Rightarrow> Inl e | Inr x \<Rightarrow> f x)"

definition presignPair :: "'tx pair_lib \<Rightarrow> 'tx claim_pair \<Rightarrow> 'tx identity \<Rightarrow> err + presig" where
  "presignPair k pair funder =
     and_sum (funder (cp_arkTx pair) None) (\<lambda>a.
     and_sum (funder (cp_checkpoint pair) None) (\<lambda>c.
     Inr \<lparr>ps_arkTx = encodePsbt k a, ps_checkpoint = encodePsbt k c\<rparr>))"

definition presignClaim :: "'tx pair_lib \<Rightarrow> shared_vtxo \<Rightarrow> atomic_output list \<Rightarrow> string \<Rightarrow> 'tx identity \<Rightarrow> err + presig" where
  "presignClaim k sh outs unroll funder = and_sum (buildClaimPair k sh outs unroll) (\<lambda>pair. presignPair k pair funder)"

definition presignCancel :: "'tx pair_lib \<Rightarrow> shared_vtxo \<Rightarrow> atomic_output list \<Rightarrow> string \<Rightarrow> 'tx identity \<Rightarrow> err + presig" where
  "presignCancel k sh outs unroll funder = and_sum (buildCancelPair k sh outs unroll) (\<lambda>pair. presignPair k pair funder)"

subsection \<open>The claimer verifies before it acts\<close>

record 'tx verified_presig =
  vp_arkTx :: 'tx
  vp_checkpoint :: 'tx
  vp_funderArkTx :: 'tx
  vp_funderCheckpoint :: 'tx

definition verifyPair :: "'tx pair_lib \<Rightarrow> 'tx claim_pair \<Rightarrow> presig \<Rightarrow> bytes \<Rightarrow> err + 'tx verified_presig" where
  "verifyPair k pair ps funder =
     and_sum (decodePsbt k (ps_arkTx ps)) (\<lambda>fa.
     and_sum (decodePsbt k (ps_checkpoint ps)) (\<lambda>fc.
     if kx_id k fa \<noteq> kx_id k (cp_arkTx pair) then Inl (Error ''presig arkTx txid mismatch'')
     else if kx_id k fc \<noteq> kx_id k (cp_checkpoint pair) then Inl (Error ''presig checkpoint txid mismatch'')
     else and_sum (hasSig k fa 0 funder) (\<lambda>signedA.
       if \<not> signedA then Inl (Error ''F arkTx presig does not verify'')
       else and_sum (hasSig k fc 0 funder) (\<lambda>signedC.
         if \<not> signedC then Inl (Error ''F checkpoint presig does not verify'')
         else Inr \<lparr>vp_arkTx = cp_arkTx pair, vp_checkpoint = cp_checkpoint pair,
                   vp_funderArkTx = fa, vp_funderCheckpoint = fc\<rparr>))))"

definition verifyPresig :: "'tx pair_lib \<Rightarrow> shared_vtxo \<Rightarrow> atomic_output list \<Rightarrow> string \<Rightarrow> presig \<Rightarrow> bytes \<Rightarrow> err + 'tx verified_presig" where
  "verifyPresig k sh outs unroll ps funder = and_sum (buildClaimPair k sh outs unroll) (\<lambda>pair. verifyPair k pair ps funder)"

definition verifyCancelPresig :: "'tx pair_lib \<Rightarrow> shared_vtxo \<Rightarrow> atomic_output list \<Rightarrow> string \<Rightarrow> presig \<Rightarrow> bytes \<Rightarrow> err + 'tx verified_presig" where
  "verifyCancelPresig k sh outs unroll ps funder = and_sum (buildCancelPair k sh outs unroll) (\<lambda>pair. verifyPair k pair ps funder)"

subsection \<open>The claimer completes\<close>

fun reveal_all :: "'tx pair_lib \<Rightarrow> bytes \<Rightarrow> nat list \<Rightarrow> 'tx \<Rightarrow> err + 'tx" where
  "reveal_all k preimage [] tx = Inr tx"
| "reveal_all k preimage (i # is) tx = and_sum (kx_reveal k tx i preimage) (reveal_all k preimage is)"

definition withPreimage :: "'tx pair_lib \<Rightarrow> 'tx identity \<Rightarrow> bytes \<Rightarrow> 'tx identity" where
  "withPreimage k identity preimage tx indexes =
     and_sum (identity tx indexes) (\<lambda>signed.
     and_sum (kx_fromPSBT k (kx_toPSBT k signed)) (\<lambda>copy.
     reveal_all k preimage (case indexes of Some is \<Rightarrow> is | None \<Rightarrow> [0..<kx_inputs k copy]) copy))"

text \<open>The server answers with the checkpoints it signed.\<close>

definition finishPresigned :: "'tx pair_lib \<Rightarrow> ark_server \<Rightarrow> 'tx verified_presig \<Rightarrow> 'tx identity \<Rightarrow> string wire" where
  "finishPresigned k v p signer =
     andthen (lift_res (signer (vp_arkTx p) None)) (\<lambda>a0.
     andthen (lift_res (kx_combine k (vp_funderArkTx p) a0)) (\<lambda>arkC.
     andthen (lift_res (signer (vp_checkpoint p) (Some [0]))) (\<lambda>c0.
     andthen (lift_res (kx_combine k (vp_funderCheckpoint p) c0)) (\<lambda>ckptC.
     andthen (submitTx v (encodePsbt k arkC) [encodePsbt k (vp_checkpoint p)]) (\<lambda>ans. case ans of (arkTxid, cosigned) \<Rightarrow>
     (case cosigned of
        [b] \<Rightarrow> if b = [] then throw (Error ''expected 1 server-signed checkpoint'')
          else andthen (lift_res (decodePsbt k b)) (\<lambda>srv.
               andthen (lift_res (kx_combine k srv ckptC)) (\<lambda>fin.
               andthen (finalizeTx v arkTxid [encodePsbt k fin]) (\<lambda>u. ret arkTxid)))
      | _ \<Rightarrow> throw (Error ''expected 1 server-signed checkpoint'')))))))"

text \<open>The funder's key of a script stands first in every leaf (\<open>Swap_Script.atomicVtxoScript\<close>).\<close>

definition script_funder :: "atomic_script \<Rightarrow> bytes" where
  "script_funder s = hd (leaf_keys (sc_claim s))"

definition finishClaim :: "'tx pair_lib \<Rightarrow> ark_server \<Rightarrow> shared_vtxo \<Rightarrow> atomic_output list \<Rightarrow> string \<Rightarrow> presig \<Rightarrow> 'tx identity \<Rightarrow> bytes \<Rightarrow> string wire" where
  "finishClaim k v sh outs unroll ps claimer preimage =
     andthen (lift_res (verifyPresig k sh outs unroll ps (script_funder (sh_script sh)))) (\<lambda>p.
     finishPresigned k v p (withPreimage k claimer preimage))"

definition finishCancel :: "'tx pair_lib \<Rightarrow> ark_server \<Rightarrow> shared_vtxo \<Rightarrow> atomic_output list \<Rightarrow> string \<Rightarrow> presig \<Rightarrow> 'tx identity \<Rightarrow> string wire" where
  "finishCancel k v sh outs unroll ps claimer =
     andthen (lift_res (verifyCancelPresig k sh outs unroll ps (script_funder (sh_script sh)))) (\<lambda>p.
     finishPresigned k v p claimer)"

subsection \<open>The collaborative spends\<close>

fun merge_signers :: "'tx pair_lib \<Rightarrow> 'tx \<Rightarrow> 'tx \<Rightarrow> 'tx identity list \<Rightarrow> ('tx \<times> 'tx) option \<Rightarrow> err + ('tx \<times> 'tx) option" where
  "merge_signers k arkTx ck [] acc = Inr acc"
| "merge_signers k arkTx ck (s # ss) acc =
     and_sum (s arkTx None) (\<lambda>a.
     and_sum (s ck (Some [0])) (\<lambda>c. case acc of
       None \<Rightarrow> merge_signers k arkTx ck ss (Some (a, c))
     | Some (accA, accC) \<Rightarrow>
         and_sum (kx_combine k a accA) (\<lambda>accA'.
         and_sum (kx_combine k c accC) (\<lambda>accC'. merge_signers k arkTx ck ss (Some (accA', accC'))))))"

definition collaborativeSpend :: "'tx pair_lib \<Rightarrow> ark_server \<Rightarrow> shared_vtxo \<Rightarrow> tapscript \<Rightarrow> atomic_output list \<Rightarrow> string \<Rightarrow> 'tx identity list \<Rightarrow> string wire" where
  "collaborativeSpend k v sh leaf outs unroll signers =
     andthen (guard_eff (signers \<noteq> []) (Error ''collaborativeSpend needs at least one signer'')) (\<lambda>u.
     andthen (lift_res (kx_build k [arkInput k sh leaf] outs unroll)) (\<lambda>built. case built of (arkTx, cks) \<Rightarrow>
     (case cks of
        [] \<Rightarrow> throw (Error ''expected 1 checkpoint'')
      | ck # _ \<Rightarrow>
        andthen (lift_res (merge_signers k arkTx ck signers None)) (\<lambda>acc. case acc of
          None \<Rightarrow> throw (Error ''unreachable'')
        | Some (accA, accC) \<Rightarrow>
          andthen (submitTx v (encodePsbt k accA) [encodePsbt k ck]) (\<lambda>ans. case ans of (arkTxid, cosigned) \<Rightarrow>
          (case cosigned of
             [] \<Rightarrow> throw (Error ''server returned no checkpoint'')
           | b # _ \<Rightarrow> if b = [] then throw (Error ''server returned no checkpoint'')
               else andthen (lift_res (decodePsbt k b)) (\<lambda>srv.
                    andthen (lift_res (kx_combine k srv accC)) (\<lambda>fin.
                    andthen (finalizeTx v arkTxid [encodePsbt k fin]) (\<lambda>u. ret arkTxid)))))))))"

definition refundSpend :: "'tx pair_lib \<Rightarrow> ark_server \<Rightarrow> shared_vtxo \<Rightarrow> atomic_output list \<Rightarrow> string \<Rightarrow> 'tx identity \<Rightarrow> string wire" where
  "refundSpend k v sh outs unroll funder = collaborativeSpend k v sh (sc_refund (sh_script sh)) outs unroll [funder]"

definition cancelSpend :: "'tx pair_lib \<Rightarrow> ark_server \<Rightarrow> shared_vtxo \<Rightarrow> atomic_output list \<Rightarrow> string \<Rightarrow> 'tx identity \<Rightarrow> 'tx identity \<Rightarrow> string wire" where
  "cancelSpend k v sh outs unroll funder claimer = collaborativeSpend k v sh (sc_cancel (sh_script sh)) outs unroll [funder, claimer]"

subsection \<open>Funding\<close>

fun each_sum :: "('a \<Rightarrow> 'e + 'b) \<Rightarrow> 'a list \<Rightarrow> 'e + 'b list" where
  "each_sum f [] = Inr []"
| "each_sum f (x # xs) = and_sum (f x) (\<lambda>y. and_sum (each_sum f xs) (\<lambda>ys. Inr (y # ys)))"

text \<open>A map of the answers by id: of two with one id the later counts.\<close>

definition server_of :: "'tx pair_lib \<Rightarrow> 'tx list \<Rightarrow> string \<Rightarrow> 'tx option" where
  "server_of k answers i = find_first (\<lambda>t. kx_id k t = i) (rev answers)"

definition join_server :: "'tx pair_lib \<Rightarrow> 'tx list \<Rightarrow> 'tx \<Rightarrow> err + string" where
  "join_server k answers ckpt = (case server_of k answers (kx_id k ckpt) of
     None \<Rightarrow> Inl (Error ''server returned no signature for checkpoint'')
   | Some srv \<Rightarrow> and_sum (kx_combine k srv ckpt) (\<lambda>t. Inr (encodePsbt k t)))"

definition fundShared :: "'tx pair_lib \<Rightarrow> ark_server \<Rightarrow> ark_input list \<Rightarrow> atomic_output list \<Rightarrow> string \<Rightarrow> 'tx identity \<Rightarrow> (string \<times> nat) wire" where
  "fundShared k v ins outs unroll funder =
     andthen (guard_eff (ins \<noteq> []) (Error ''fundShared needs at least one input'')) (\<lambda>u.
     andthen (lift_res (kx_build k ins outs unroll)) (\<lambda>built. case built of (arkTx, cks) \<Rightarrow>
     andthen (guard_eff (length cks = length ins) (Error ''unexpected number of checkpoints'')) (\<lambda>u.
     andthen (lift_res (funder arkTx None)) (\<lambda>arkSigned.
     andthen (lift_res (each_sum (\<lambda>c. funder c (Some [0])) cks)) (\<lambda>ckptSigned.
     andthen (submitTx v (encodePsbt k arkSigned) (map (encodePsbt k) cks)) (\<lambda>ans. case ans of (arkTxid, cosigned) \<Rightarrow>
     andthen (guard_eff (length cosigned = length cks) (Error ''server did not return a checkpoint per input'')) (\<lambda>u.
     andthen (lift_res (each_sum (decodePsbt k) cosigned)) (\<lambda>answers.
     andthen (lift_res (each_sum (join_server k answers) ckptSigned)) (\<lambda>fins.
     andthen (finalizeTx v arkTxid fins) (\<lambda>u. ret (arkTxid, 0)))))))))))"

subsection \<open>The exit sweep of a shared output\<close>

text \<open>The unsigned transaction, of version 2; the output spent carries the script whose exit leaf is used.\<close>

record uexit_sweep =
  us_version :: nat
  us_txid :: string
  us_vout :: nat
  us_value :: int
  us_script :: atomic_script
  us_leaf :: tapscript
  us_sequence :: int
  us_out :: "string \<times> int"

definition buildUexitSweep :: "string \<Rightarrow> nat \<Rightarrow> int \<Rightarrow> atomic_script \<Rightarrow> int \<Rightarrow> string \<Rightarrow> int \<Rightarrow> err + uexit_sweep" where
  "buildUexitSweep txid vout amount script sequence outputScript feeSats =
     (let out = amount - feeSats in
      if out \<le> 0 then Inl (Error ''uexit sweep fee exceeds value'')
      else Inr \<lparr>us_version = 2, us_txid = txid, us_vout = vout, us_value = amount, us_script = script, us_leaf = sc_uexit script, us_sequence = sequence,
                us_out = (outputScript, out)\<rparr>)"

subsection \<open>The world of the swap handlers with this module inside\<close>

text \<open>\<open>Ark_World.world\<close> leaves pre-signing and claiming open; this closes it with the functions above, each answer of the server
  still a function of the tick.\<close>

definition wire_world :: "'tx pair_lib \<Rightarrow> ark_server \<Rightarrow> 'tx identity \<Rightarrow> world \<Rightarrow> world" where
  "wire_world k v ident w = w\<lparr>
     w_presignClaim := (\<lambda>t sh outs unroll. presignClaim k sh outs unroll ident),
     w_presignCancel := (\<lambda>t sh outs unroll. presignCancel k sh outs unroll ident),
     w_finishClaim := (\<lambda>t sh outs unroll ps preimage.
       fst (finishClaim k v sh outs unroll ps ident preimage \<lparr>aw_tick = t, aw_log = []\<rparr>))\<rparr>"

end
