(* ===== verification/Pair_Safety.thy ===== *)
theory Pair_Safety
  imports Pair_Sign Noffer
begin

text \<open>
  What the pre-signed pair promises both sides. \<open>sdk_faithful\<close> is the documented behaviour of the SDK that is used: a
  serialised transaction reads back as itself, and neither merging signatures nor revealing a preimage changes the id.
\<close>

definition sdk_faithful :: "'tx pair_lib \<Rightarrow> bool" where
  "sdk_faithful k \<longleftrightarrow> (\<forall>tx. kx_fromPSBT k (kx_toPSBT k tx) = Inr tx) \<and> (\<forall>bs. kx_unbase64 k (kx_base64 k bs) = Inr bs)
     \<and> (\<forall>a b c. kx_combine k a b = Inr c \<longrightarrow> kx_id k c = kx_id k b)
     \<and> (\<forall>tx i p t. kx_reveal k tx i p = Inr t \<longrightarrow> kx_id k t = kx_id k tx)"

definition signer_faithful :: "'tx pair_lib \<Rightarrow> 'tx identity \<Rightarrow> bool" where
  "signer_faithful k s \<longleftrightarrow> (\<forall>tx is t. s tx is = Inr t \<longrightarrow> kx_id k t = kx_id k tx)"

definition signs_for :: "'tx pair_lib \<Rightarrow> 'tx identity \<Rightarrow> bytes \<Rightarrow> bool" where
  "signs_for k s key \<longleftrightarrow> (\<forall>tx t. s tx None = Inr t \<longrightarrow> (\<exists>ks. kx_sigs k t 0 = Inr (Some ks) \<and> key \<in> set ks))"

lemma and_sum_Inr [simp]: "and_sum r f = Inr y \<longleftrightarrow> (\<exists>x. r = Inr x \<and> f x = Inr y)"
  by (cases r) (simp_all add: and_sum_def)

lemma and_sum_eval [simp]: "and_sum (Inr x) f = f x" "and_sum (Inl e) f = Inl e"
  by (simp_all add: and_sum_def)

lemma decode_encode: "sdk_faithful k \<Longrightarrow> decodePsbt k (encodePsbt k tx) = Inr tx"
  by (simp add: sdk_faithful_def decodePsbt_def encodePsbt_def)

lemma combine_id: "sdk_faithful k \<Longrightarrow> kx_combine k a b = Inr c \<Longrightarrow> kx_id k c = kx_id k b"
  by (simp add: sdk_faithful_def)

lemma reveal_all_id: "sdk_faithful k \<Longrightarrow> reveal_all k pre is tx = Inr t \<Longrightarrow> kx_id k t = kx_id k tx"
  by (induction k pre "is" tx rule: reveal_all.induct) (auto simp: sdk_faithful_def)

lemma withPreimage_faithful:
  assumes "sdk_faithful k" and "signer_faithful k s"
  shows "signer_faithful k (withPreimage k s pre)"
  unfolding signer_faithful_def
proof (intro allI impI)
  fix tx "is" t assume "withPreimage k s pre tx is = Inr t"
  then obtain a b where "s tx is = Inr a" "kx_fromPSBT k (kx_toPSBT k a) = Inr b"
      "reveal_all k pre (case is of Some is \<Rightarrow> is | None \<Rightarrow> [0..<kx_inputs k b]) b = Inr t"
    by (auto simp: withPreimage_def)
  with assms reveal_all_id [OF assms(1) this(3)] show "kx_id k t = kx_id k tx"
    by (simp add: sdk_faithful_def signer_faithful_def)
qed

subsection \<open>Verification\<close>

lemma hasSig_True: "hasSig k tx i key = Inr True \<longleftrightarrow> (\<exists>ks. kx_sigs k tx i = Inr (Some ks) \<and> key \<in> set ks)"
  by (auto simp: hasSig_def split: sum.splits option.splits)

lemma checked_Inr: "(if bad then Inl e else m) = Inr p \<longleftrightarrow> \<not> bad \<and> m = Inr p"
  by simp

lemma flag_Inr: "(\<exists>b. h = Inr b \<and> b \<and> R) \<longleftrightarrow> h = Inr True \<and> R"
  by auto

lemma verifyPair_iff:
  "verifyPair k pair ps key = Inr p \<longleftrightarrow> (\<exists>fa fc ka kc. decodePsbt k (ps_arkTx ps) = Inr fa \<and> decodePsbt k (ps_checkpoint ps) = Inr fc
     \<and> kx_id k fa = kx_id k (cp_arkTx pair) \<and> kx_id k fc = kx_id k (cp_checkpoint pair)
     \<and> kx_sigs k fa 0 = Inr (Some ka) \<and> key \<in> set ka \<and> kx_sigs k fc 0 = Inr (Some kc) \<and> key \<in> set kc
     \<and> p = \<lparr>vp_arkTx = cp_arkTx pair, vp_checkpoint = cp_checkpoint pair, vp_funderArkTx = fa, vp_funderCheckpoint = fc\<rparr>)"
  by (simp only: verifyPair_def and_sum_Inr checked_Inr not_not flag_Inr hasSig_True sum.inject) auto

lemma verifyPair_mismatch:
  assumes "decodePsbt k (ps_arkTx ps) = Inr fa" and "decodePsbt k (ps_checkpoint ps) = Inr fc" and "kx_id k fa \<noteq> kx_id k (cp_arkTx pair)"
  shows "verifyPair k pair ps key = Inl (Error ''presig arkTx txid mismatch'')"
  using assms by (simp add: verifyPair_def)

lemma presignPair_verifies:
  assumes "sdk_faithful k" and "signer_faithful k s" and "signs_for k s key" and "presignPair k pair s = Inr ps"
  shows "\<exists>p. verifyPair k pair ps key = Inr p \<and> vp_arkTx p = cp_arkTx pair \<and> vp_checkpoint p = cp_checkpoint pair"
    and "kx_id k (cp_arkTx pair') \<noteq> kx_id k (cp_arkTx pair) \<Longrightarrow> verifyPair k pair' ps key = Inl (Error ''presig arkTx txid mismatch'')"
proof -
  obtain a c where s: "s (cp_arkTx pair) None = Inr a" "s (cp_checkpoint pair) None = Inr c"
    and ps: "ps = \<lparr>ps_arkTx = encodePsbt k a, ps_checkpoint = encodePsbt k c\<rparr>"
    using assms(4) by (auto simp: presignPair_def)
  have ids: "kx_id k a = kx_id k (cp_arkTx pair)" "kx_id k c = kx_id k (cp_checkpoint pair)"
    using assms(2) s by (auto simp: signer_faithful_def)
  obtain ka kc where "kx_sigs k a 0 = Inr (Some ka)" "key \<in> set ka" "kx_sigs k c 0 = Inr (Some kc)" "key \<in> set kc"
    using assms(3) s unfolding signs_for_def by blast
  then show "\<exists>p. verifyPair k pair ps key = Inr p \<and> vp_arkTx p = cp_arkTx pair \<and> vp_checkpoint p = cp_checkpoint pair"
    using ids by (auto simp: verifyPair_iff ps decode_encode [OF assms(1)])
  assume "kx_id k (cp_arkTx pair') \<noteq> kx_id k (cp_arkTx pair)"
  then show "verifyPair k pair' ps key = Inl (Error ''presig arkTx txid mismatch'')"
    using ids by (intro verifyPair_mismatch [where fa = a and fc = c]) (simp_all add: ps decode_encode [OF assms(1)])
qed


subsection \<open>Completing a pair\<close>

text \<open>What goes out for a pair: nothing, a submission of the agreed transaction with its unsigned checkpoint, or that and its
  finalisation with the agreed checkpoint.\<close>

definition agreed :: "'tx pair_lib \<Rightarrow> 'tx \<Rightarrow> 'tx \<Rightarrow> wire_call list \<Rightarrow> bool" where
  "agreed k arkTx ck out \<longleftrightarrow> out = [] \<or> (\<exists>a. kx_id k a = kx_id k arkTx \<and> (out = [Submitted (encodePsbt k a) [encodePsbt k ck]]
     \<or> (\<exists>txid f. kx_id k f = kx_id k ck \<and> out = [Submitted (encodePsbt k a) [encodePsbt k ck], Finalized txid [encodePsbt k f]])))"

lemma agreed_none [simp]: "agreed k arkTx ck []"
  by (simp add: agreed_def)

lemma agreed_submit: "kx_id k a = kx_id k arkTx \<Longrightarrow> agreed k arkTx ck [Submitted (encodePsbt k a) [encodePsbt k ck]]"
  by (auto simp: agreed_def)

lemma agreed_both: "kx_id k a = kx_id k arkTx \<Longrightarrow> kx_id k f = kx_id k ck \<Longrightarrow>
    agreed k arkTx ck [Submitted (encodePsbt k a) [encodePsbt k ck], Finalized txid [encodePsbt k f]]"
  by (auto simp: agreed_def)

definition sends :: "(wire_call list \<Rightarrow> bool) \<Rightarrow> string wire \<Rightarrow> bool" where
  "sends P m \<longleftrightarrow> (\<forall>s r t. m s = (r, t) \<longrightarrow> (\<exists>out. aw_log t = aw_log s @ out \<and> P out \<and> (\<forall>txid. r = Inr txid \<longrightarrow> length out = 2)))"

lemma sendsI:
  assumes "\<And>s. \<exists>out. aw_log (snd (m s)) = aw_log s @ out \<and> P out \<and> (\<forall>txid. fst (m s) = Inr txid \<longrightarrow> length out = 2)"
  shows "sends P m"
  unfolding sends_def using assms by (metis fst_conv snd_conv)

lemma sendsD: "sends P m \<Longrightarrow> m s = (r, t) \<Longrightarrow>
    \<exists>out. aw_log t = aw_log s @ out \<and> P out \<and> (\<forall>txid. r = Inr txid \<longrightarrow> length out = 2)"
  by (simp add: sends_def)

lemma sends_step:
  assumes "P []" and "\<And>x. r = Inr x \<Longrightarrow> sends P (f x)"
  shows "sends P (andthen (lift_res r) f)"
  using assms by (cases r) (simp_all add: sends_def andthen_def)

text \<open>The exchange with the server, from the submission on.\<close>

definition co_sign :: "'tx pair_lib \<Rightarrow> ark_server \<Rightarrow> 'tx \<Rightarrow> 'tx \<Rightarrow> 'tx \<Rightarrow> (string list \<Rightarrow> string option) \<Rightarrow> string \<Rightarrow> string wire" where
  "co_sign k v a ck own pick msg =
     andthen (submitTx v (encodePsbt k a) [encodePsbt k ck]) (\<lambda>ans. case ans of (arkTxid, cosigned) \<Rightarrow>
     (case pick cosigned of
        None \<Rightarrow> throw (Error msg)
      | Some b \<Rightarrow> andthen (lift_res (decodePsbt k b)) (\<lambda>srv.
               andthen (lift_res (kx_combine k srv own)) (\<lambda>fin.
               andthen (finalizeTx v arkTxid [encodePsbt k fin]) (\<lambda>u. ret arkTxid)))))"

lemma co_sign_sends:
  assumes "sdk_faithful k" and "kx_id k a = kx_id k arkTx" and "kx_id k own = kx_id k ck"
  shows "sends (agreed k arkTx ck) (co_sign k v a ck own pick msg)"
proof (rule sendsI)
  fix s
  note sub = agreed_submit [OF assms(2), of ck]
  show "\<exists>out. aw_log (snd (co_sign k v a ck own pick msg s)) = aw_log s @ out \<and> agreed k arkTx ck out
      \<and> (\<forall>txid. fst (co_sign k v a ck own pick msg s) = Inr txid \<longrightarrow> length out = 2)"
    using sub agreed_both [OF assms(2), of _ ck] combine_id [OF assms(1), of _ own] assms(3)
    by (auto simp: co_sign_def andthen_def submitTx_def finalizeTx_def split: sum.splits option.splits)
qed

lemma finishPresigned_co_sign:
  "finishPresigned k v p signer =
     andthen (lift_res (signer (vp_arkTx p) None)) (\<lambda>a0.
     andthen (lift_res (kx_combine k (vp_funderArkTx p) a0)) (\<lambda>arkC.
     andthen (lift_res (signer (vp_checkpoint p) (Some [0]))) (\<lambda>c0.
     andthen (lift_res (kx_combine k (vp_funderCheckpoint p) c0)) (\<lambda>ckptC.
     co_sign k v arkC (vp_checkpoint p) ckptC (\<lambda>bs. case bs of [b] \<Rightarrow> if b = [] then None else Some b | _ \<Rightarrow> None)
       ''expected 1 server-signed checkpoint''))))"
  unfolding finishPresigned_def co_sign_def
  by (intro arg_cong2 [where f = andthen] refl ext) (auto split: list.splits prod.splits)

lemma finishPresigned_sends:
  assumes "sdk_faithful k" and "signer_faithful k signer"
  shows "sends (agreed k (vp_arkTx p) (vp_checkpoint p)) (finishPresigned k v p signer)"
  unfolding finishPresigned_co_sign
  by (intro sends_step co_sign_sends [OF assms(1)] agreed_none)
     (use assms in \<open>auto simp: signer_faithful_def dest!: combine_id [OF assms(1)]\<close>)


text \<open>So the answer \<open>w_finishClaim\<close> gives the receive handlers, when the module stands behind it, is the id of a claim of
  the very split the handler computed, which the funder had signed.\<close>

lemma wired_claim_verified:
  assumes "w_finishClaim (wire_world k v ident w) t sh outs unroll ps preimage = Inr txid"
  shows "\<exists>pair p. buildClaimPair k sh outs unroll = Inr pair \<and> verifyPair k pair ps (script_funder (sh_script sh)) = Inr p"
proof -
  obtain r s where run: "finishClaim k v sh outs unroll ps ident preimage \<lparr>aw_tick = t, aw_log = []\<rparr> = (r, s)" by fastforce
  then have r: "r = Inr txid" using assms by (simp add: wire_world_def)
  define p where "p = verifyPresig k sh outs unroll ps (script_funder (sh_script sh))"
  from run r have "\<exists>x. p = Inr x" unfolding finishClaim_def p_def [symmetric] by (cases p) (auto simp: andthen_def)
  then show ?thesis by (auto simp: p_def verifyPresig_def)
qed

subsection \<open>The collaborative spends\<close>

definition same_ids :: "'tx pair_lib \<Rightarrow> 'tx \<Rightarrow> 'tx \<Rightarrow> ('tx \<times> 'tx) option \<Rightarrow> bool" where
  "same_ids k arkTx ck acc \<longleftrightarrow> (\<forall>a c. acc = Some (a, c) \<longrightarrow> kx_id k a = kx_id k arkTx \<and> kx_id k c = kx_id k ck)"

lemma merge_signers_ids:
  assumes "sdk_faithful k" and "list_all (signer_faithful k) ss" and "same_ids k arkTx ck acc" and "merge_signers k arkTx ck ss acc = Inr out"
  shows "same_ids k arkTx ck out"
  using assms(2-)
proof (induction ss arbitrary: acc)
  case (Cons s ss)
  then obtain a c where sign: "s arkTx None = Inr a" "s ck (Some [0]) = Inr c" by auto
  then have "kx_id k a = kx_id k arkTx" "kx_id k c = kx_id k ck" using Cons.prems(1) by (simp_all add: signer_faithful_def)
  then have first: "same_ids k arkTx ck (Some (a, c))" by (simp add: same_ids_def)
  have faith: "list_all (signer_faithful k) ss" using Cons.prems(1) by simp
  show ?case
  proof (cases acc)
    case None
    with Cons.prems(3) sign have "merge_signers k arkTx ck ss (Some (a, c)) = Inr out" by simp
    from Cons.IH [OF faith first this] show ?thesis .
  next
    case (Some z)
    obtain x y where z: "z = (x, y)" by fastforce
    with Some Cons.prems(3) sign obtain x' y' where m: "kx_combine k a x = Inr x'" "kx_combine k c y = Inr y'"
        "merge_signers k arkTx ck ss (Some (x', y')) = Inr out" by auto
    have "same_ids k arkTx ck (Some (x', y'))"
      using Cons.prems(2) Some z combine_id [OF assms(1) m(1)] combine_id [OF assms(1) m(2)] by (simp add: same_ids_def)
    from Cons.IH [OF faith this m(3)] show ?thesis .
  qed
qed simp

lemma pick_first:
  "(case (case bs of [] \<Rightarrow> None | b # x \<Rightarrow> if b = [] then None else Some b) of None \<Rightarrow> t | Some b \<Rightarrow> f b)
   = (case bs of [] \<Rightarrow> t | b # x \<Rightarrow> if b = [] then t else f b)"
  by (cases bs) auto

lemma collaborativeSpend_co_sign:
  "collaborativeSpend k v sh leaf outs unroll signers =
     andthen (guard_eff (signers \<noteq> []) (Error ''collaborativeSpend needs at least one signer'')) (\<lambda>u.
     andthen (lift_res (kx_build k [arkInput k sh leaf] outs unroll)) (\<lambda>built. case built of (arkTx, cks) \<Rightarrow>
     (case cks of
        [] \<Rightarrow> throw (Error ''expected 1 checkpoint'')
      | ck # _ \<Rightarrow>
        andthen (lift_res (merge_signers k arkTx ck signers None)) (\<lambda>acc. case acc of
          None \<Rightarrow> throw (Error ''unreachable'')
        | Some (accA, accC) \<Rightarrow> co_sign k v accA ck accC
            (\<lambda>bs. case bs of [] \<Rightarrow> None | b # x \<Rightarrow> if b = [] then None else Some b) ''server returned no checkpoint''))))"
  by (simp only: collaborativeSpend_def co_sign_def pick_first)

text \<open>A refund or a cancel that all parties sign here: whatever the server answers, what goes out is the rebuilt transaction with its
  unsigned checkpoint, and then that checkpoint; without a signer nothing goes out.\<close>

theorem collaborative_spend_agreed:
  assumes "sdk_faithful k" and "list_all (signer_faithful k) signers" and "collaborativeSpend k v sh leaf outs unroll signers s = (r, t)"
  shows "\<exists>out. aw_log t = aw_log s @ out \<and> (\<forall>txid. r = Inr txid \<longrightarrow> length out = 2)
    \<and> (out = [] \<or> signers \<noteq> [] \<and> (\<exists>arkTx ck rest. kx_build k [arkInput k sh leaf] outs unroll = Inr (arkTx, ck # rest) \<and> agreed k arkTx ck out))"
proof -
  consider e where "r = Inl e" "t = s" | arkTx ck rest a c where "signers \<noteq> []"
      and "kx_build k [arkInput k sh leaf] outs unroll = Inr (arkTx, ck # rest)"
      and "merge_signers k arkTx ck signers None = Inr (Some (a, c))"
      and "co_sign k v a ck c (\<lambda>bs. case bs of [] \<Rightarrow> None | b # x \<Rightarrow> if b = [] then None else Some b) ''server returned no checkpoint'' s = (r, t)"
  proof (cases "signers = [] \<or> (\<exists>e. kx_build k [arkInput k sh leaf] outs unroll = Inl e)
      \<or> (\<exists>arkTx. kx_build k [arkInput k sh leaf] outs unroll = Inr (arkTx, []))")
    case True
    with assms(3) that(1) show ?thesis by (auto simp: collaborativeSpend_def andthen_def guard_eff_def split: if_splits)
  next
    case False
    then obtain arkTx ck rest where built: "signers \<noteq> []" "kx_build k [arkInput k sh leaf] outs unroll = Inr (arkTx, ck # rest)"
      by (metis neq_Nil_conv sum.exhaust prod.exhaust)
    show ?thesis
    proof (cases "\<exists>a c. merge_signers k arkTx ck signers None = Inr (Some (a, c))")
      case True
      then obtain a c where m: "merge_signers k arkTx ck signers None = Inr (Some (a, c))" by blast
      have "co_sign k v a ck c (\<lambda>bs. case bs of [] \<Rightarrow> None | b # x \<Rightarrow> if b = [] then None else Some b) ''server returned no checkpoint'' s = (r, t)"
        using assms(3) built m by (simp add: collaborativeSpend_co_sign)
      with that(2) built m show ?thesis by blast
    next
      case False
      with assms(3) built that(1) show ?thesis
        by (auto simp: collaborativeSpend_def andthen_def guard_eff_def split: sum.splits option.splits)
    qed
  qed
  then show ?thesis
  proof cases
    case 2
    from merge_signers_ids [OF assms(1,2) _ 2(3)] have "same_ids k arkTx ck (Some (a, c))" by (simp add: same_ids_def)
    then have "kx_id k a = kx_id k arkTx" "kx_id k c = kx_id k ck" by (simp_all add: same_ids_def)
    from sendsD [OF co_sign_sends [OF assms(1) this] 2(4)] 2(1,2) show ?thesis by blast
  qed simp
qed

subsection \<open>Funding\<close>

lemma each_sum_Inr: "each_sum f xs = Inr ys \<longleftrightarrow> list_all2 (\<lambda>x y. f x = Inr y) xs ys"
  by (induction xs arbitrary: ys) (auto simp: list_all2_Cons1)

lemma find_first_SomeD: "find_first P xs = Some x \<Longrightarrow> x \<in> set xs \<and> P x"
  by (induction xs) (auto split: if_splits)

text \<open>Funding finalises every input or none. A funding that returns names the first output of the transaction the server
  acknowledged, and what was finalised is, in the order of the inputs and whatever the order of the answers, our own checkpoints,
  each merged with an answer of the server that has its id; otherwise nothing was finalised or the server refused the
  finalisation.\<close>

theorem funding_matched:
  assumes "sdk_faithful k" and "signer_faithful k funder" and "fundShared k v ins outs unroll funder s = (r, t)"
    and "kx_build k ins outs unroll = Inr (arkTx, cks)"
  shows "(\<forall>txid n. r = Inr (txid, n) \<longrightarrow> n = 0 \<and> ins \<noteq> [] \<and> (\<exists>a fins. kx_id k a = kx_id k arkTx
       \<and> aw_log t = aw_log s @ [Submitted (encodePsbt k a) (map (encodePsbt k) cks), Finalized txid fins]
       \<and> list_all2 (\<lambda>ck fin. \<exists>f own srv. fin = encodePsbt k f \<and> kx_combine k srv own = Inr f \<and> kx_id k own = kx_id k ck
            \<and> kx_id k srv = kx_id k ck \<and> kx_id k f = kx_id k ck) cks fins))
    \<and> (\<forall>e. r = Inl e \<longrightarrow> (\<exists>out. aw_log t = aw_log s @ out \<and> (\<forall>txid fins. Finalized txid fins \<in> set out \<longrightarrow>
         (\<exists>tk. as_finalize v tk txid fins = Inl e))))"
proof -
  have join: "\<exists>f own srv. fin = encodePsbt k f \<and> kx_combine k srv own = Inr f \<and> kx_id k own = kx_id k ck
      \<and> kx_id k srv = kx_id k ck \<and> kx_id k f = kx_id k ck"
    if "funder ck (Some [0]) = Inr own" "join_server k answers own = Inr fin" for ck own answers fin
  proof -
    from that(2) obtain srv f where "server_of k answers (kx_id k own) = Some srv" "kx_combine k srv own = Inr f" "fin = encodePsbt k f"
      by (auto simp: join_server_def split: option.splits)
    moreover have "kx_id k own = kx_id k ck" using that(1) assms(2) by (simp add: signer_faithful_def)
    moreover from calculation have "kx_id k srv = kx_id k ck" by (auto simp: server_of_def dest!: find_first_SomeD)
    moreover from calculation combine_id [OF assms(1), of srv own f] have "kx_id k f = kx_id k ck" by simp
    ultimately show ?thesis by blast
  qed
  show ?thesis
  proof (cases r)
    case (Inl e)
    with assms(3,4) show ?thesis
      by (fastforce simp: fundShared_def andthen_def guard_eff_def submitTx_def finalizeTx_def split: sum.splits if_splits prod.splits)
  next
    case (Inr z)
    with assms(3,4) obtain a own answers fins cosigned where
      "ins \<noteq> []" and a: "funder arkTx None = Inr a" and own: "each_sum (\<lambda>c. funder c (Some [0])) cks = Inr own"
      and fins: "each_sum (join_server k answers) own = Inr fins" and z: "snd z = 0"
      and out: "aw_log t = aw_log s @ [Submitted (encodePsbt k a) (map (encodePsbt k) cks), Finalized (fst z) fins]"
      by (fastforce simp: fundShared_def andthen_def guard_eff_def submitTx_def finalizeTx_def split: sum.splits if_splits prod.splits)
    have "list_all2 (\<lambda>ck fin. \<exists>f own srv. fin = encodePsbt k f \<and> kx_combine k srv own = Inr f \<and> kx_id k own = kx_id k ck
            \<and> kx_id k srv = kx_id k ck \<and> kx_id k f = kx_id k ck) cks fins"
    proof (rule list_all2_trans)
      show "list_all2 (\<lambda>c y. funder c (Some [0]) = Inr y) cks own" "list_all2 (\<lambda>y fin. join_server k answers y = Inr fin) own fins"
        using own fins by (simp_all add: each_sum_Inr)
    qed (rule join)
    moreover have "kx_id k a = kx_id k arkTx" using a assms(2) by (simp add: signer_faithful_def)
    ultimately show ?thesis using Inr \<open>ins \<noteq> []\<close> z out by auto
  qed
qed

subsection \<open>A run\<close>

text \<open>A transaction is a flag, one for signed, and its id.\<close>

definition sample_pairs :: "bytes pair_lib" where
  "sample_pairs = \<lparr>kx_build = (\<lambda>ins outs unroll. Inr (0 # bytes_of (concat (map out_script outs)), map (\<lambda>i. 0 # bytes_of (ai_txid i)) ins)),
     kx_id = (\<lambda>tx. chars_of (drop 1 tx)), kx_inputs = (\<lambda>tx. 1),
     kx_sigs = (\<lambda>tx i. Inr (if take 1 tx = [1] then Some [[7]] else None)),
     kx_toPSBT = (\<lambda>tx. tx), kx_fromPSBT = (\<lambda>b. Inr b), kx_base64 = chars_of, kx_unbase64 = (\<lambda>s. Inr (bytes_of s)),
     kx_combine = (\<lambda>a b. Inr (take 1 b @ drop 1 b)), kx_reveal = (\<lambda>tx i p. Inr tx), kx_tapTree = (\<lambda>s. [])\<rparr>"

definition sample_identity :: "bytes identity" where
  "sample_identity tx is = Inr (1 # drop 1 tx)"

definition sample_held :: shared_vtxo where
  "sample_held = \<lparr>sh_txid = ''s'', sh_vout = 0, sh_value = 330, sh_script = \<lparr>sc_claim = Condition_multisig [] [[7], [8], [9]],
     sc_refund = Multisig [[7]], sc_cancel = Multisig [[7]], sc_uexit = Multisig [[7]]\<rparr>\<rparr>"

definition sample_outs :: "string \<Rightarrow> atomic_output list" where
  "sample_outs s = [\<lparr>out_script = s, out_amount = 330\<rparr>]"

definition sample_pair :: "string \<Rightarrow> bytes claim_pair" where
  "sample_pair s = \<lparr>cp_arkTx = 0 # bytes_of s, cp_checkpoint = 0 # bytes_of ''s''\<rparr>"

definition sample_presigs :: presig where
  "sample_presigs = \<lparr>ps_arkTx = chars_of (1 # bytes_of ''a''), ps_checkpoint = chars_of (1 # bytes_of ''s'')\<rparr>"

definition sample_server :: ark_server where
  "sample_server = \<lparr>as_submit = (\<lambda>t tx cks. Inr (''ark'', cks)), as_finalize = (\<lambda>t txid cks. Inr ())\<rparr>"

lemma chars_of_some [simp]: "chars_of (b # bs) \<noteq> []"
  by (simp add: chars_of_def)

lemma sample_faithful: "sdk_faithful sample_pairs" "signer_faithful sample_pairs sample_identity" "signs_for sample_pairs sample_identity [7]"
  by (auto simp: sdk_faithful_def signer_faithful_def signs_for_def sample_pairs_def sample_identity_def)

lemma sample_built:
  "buildClaimPair sample_pairs sample_held (sample_outs s) u = Inr (sample_pair s)"
  "presignClaim sample_pairs sample_held (sample_outs ''a'') u sample_identity = Inr sample_presigs"
  "presignCancel sample_pairs sample_held (sample_outs ''a'') u sample_identity = Inr sample_presigs"
  by (simp_all add: presignClaim_def presignCancel_def buildClaimPair_def buildCancelPair_def buildPair_def presignPair_def arkInput_def
      sample_pairs_def sample_held_def sample_outs_def sample_pair_def sample_presigs_def sample_identity_def encodePsbt_def)

lemma sample_ids: "kx_id sample_pairs (cp_arkTx (sample_pair s)) = s"
  by (simp add: sample_pairs_def sample_pair_def)



lemma funding_matched_witness:
  "\<exists>a fins. aw_log (snd (fundShared sample_pairs sample_server
       [\<lparr>ai_txid = ''x'', ai_vout = 0, ai_value = 9, ai_leaf = Multisig [], ai_tapTree = []\<rparr>] (sample_outs ''a'') [] sample_identity \<lparr>aw_tick = 0, aw_log = []\<rparr>))
     = [Submitted (encodePsbt sample_pairs a) [chars_of (0 # bytes_of ''x'')], Finalized ''ark'' fins]"
proof -
  define ins where "ins = [\<lparr>ai_txid = ''x'', ai_vout = 0, ai_value = 9, ai_leaf = Multisig [], ai_tapTree = []\<rparr> :: ark_input]"
  obtain r t where rt: "fundShared sample_pairs sample_server ins (sample_outs ''a'') [] sample_identity \<lparr>aw_tick = 0, aw_log = []\<rparr> = (r, t)" by fastforce
  moreover have "r = Inr (''ark'', 0)" using rt
    by (auto simp: ins_def fundShared_def sample_pairs_def sample_outs_def sample_identity_def sample_server_def andthen_def guard_eff_def submitTx_def
        finalizeTx_def encodePsbt_def decodePsbt_def join_server_def server_of_def)
  moreover have "kx_build sample_pairs ins (sample_outs ''a'') [] = Inr (0 # bytes_of ''a'', [0 # bytes_of ''x''])"
    by (simp add: ins_def sample_pairs_def sample_outs_def)
  moreover have "encodePsbt sample_pairs (0 # bytes_of ''x'') = chars_of (0 # bytes_of ''x'')" by (simp add: sample_pairs_def encodePsbt_def)
  ultimately show ?thesis using funding_matched [OF sample_faithful(1,2) rt] unfolding ins_def [symmetric] by auto
qed

end
