(* ===== verification/Dest_Verify.thy ===== *)
theory Dest_Verify
  imports Exit_Spend_Safety Wallet_Pay
begin

text \<open>
  The proof of control over a final-send destination (\<open>src/exit/dest_verify.ts\<close>): the check of the address, the legacy
  signed message and the BIP-322 simple signature. Address decoding, hashing, curve arithmetic, script and witness codecs are
  the fields of \<open>dest_lib\<close>; every comparison, length and range the code tests is here. The outer error is a throw, the inner
  one the reason of a refusal.
\<close>

datatype dest_kind = Pkh | Sh | Wpkh | Tr | Wsh | Other_kind

record dest_lib =
  dl_address :: "string \<Rightarrow> (dest_kind \<times> bytes) option"
  dl_base64 :: "string \<Rightarrow> bytes option"
  dl_utf8 :: "string \<Rightarrow> bytes"
  dl_hash160 :: "bytes \<Rightarrow> bytes"
  dl_sha256x2 :: "bytes \<Rightarrow> bytes"
  dl_tagged :: "bytes \<Rightarrow> bytes"
  dl_pkhScript :: "bytes \<Rightarrow> bytes"
  dl_wpkhScript :: "bytes \<Rightarrow> bytes"
  dl_shScript :: "bytes \<Rightarrow> bytes"
  dl_p2tr :: "bytes \<Rightarrow> bytes"
  dl_recover :: "bytes \<Rightarrow> nat \<Rightarrow> bytes \<Rightarrow> (bytes \<times> bytes) option"
  dl_witness :: "bytes \<Rightarrow> bytes list option"
  dl_toSpend :: "bytes \<Rightarrow> bytes \<Rightarrow> bytes"
  dl_sighash1 :: "bytes \<Rightarrow> bytes \<Rightarrow> nat \<Rightarrow> bytes"
  dl_sighash0 :: "bytes \<Rightarrow> bytes \<Rightarrow> nat \<Rightarrow> bytes"
  dl_schnorr :: "bytes \<Rightarrow> bytes \<Rightarrow> bytes \<Rightarrow> bool"
  dl_ecdsa :: "bytes \<Rightarrow> bytes \<Rightarrow> bytes \<Rightarrow> bool option"

definition MESSAGE_MAGIC :: string where
  "MESSAGE_MAGIC = ''Bitcoin Signed Message:'' @ [char_of (10 :: nat)]"

definition SIGHASH_DEFAULT :: nat where "SIGHASH_DEFAULT = 0"
definition SIGHASH_ALL :: nat where "SIGHASH_ALL = 1"

definition varstr :: "bytes \<Rightarrow> err + bytes" where
  "varstr bs = (if 252 < length bs then Inl (Error ''challenge message too long'') else Inr (of_nat (length bs) # bs))"

definition checkDestAddress :: "dest_lib \<Rightarrow> string \<Rightarrow> string + dest_kind \<times> bytes" where
  "checkDestAddress l address = (case dl_address l (js_trim address) of
     None \<Rightarrow> Inl ''not a valid Bitcoin address for this network''
   | Some (Wsh, s) \<Rightarrow> Inl ''p2wsh is a script hash''
   | Some (Other_kind, s) \<Rightarrow> Inl ''unsupported address type''
   | Some d \<Rightarrow> Inr d)"

subsection \<open>The legacy signed message\<close>

definition legacy_scripts :: "dest_lib \<Rightarrow> bytes \<times> bytes \<Rightarrow> bytes list" where
  "legacy_scripts l keys = (case keys of (compressed, uncompressed) \<Rightarrow>
     (let wpkh = dl_wpkhScript l (dl_hash160 l compressed) in
      [dl_pkhScript l (dl_hash160 l compressed), dl_pkhScript l (dl_hash160 l uncompressed), wpkh,
       dl_shScript l (dl_hash160 l wpkh), dl_p2tr l (drop 1 compressed)]))"

definition legacy_hash :: "dest_lib \<Rightarrow> string \<Rightarrow> err + bytes" where
  "legacy_hash l message = (case varstr (dl_utf8 l MESSAGE_MAGIC) of
     Inl e \<Rightarrow> Inl e
   | Inr a \<Rightarrow> (case varstr (dl_utf8 l message) of Inl e \<Rightarrow> Inl e | Inr b \<Rightarrow> Inr (dl_sha256x2 l (a @ b))))"

definition verifyLegacy :: "dest_lib \<Rightarrow> bytes \<Rightarrow> bytes \<Rightarrow> string \<Rightarrow> err + (string + string)" where
  "verifyLegacy l script sig message =
     (let header = unat (hd sig) in
      if header < 27 \<or> 42 < header then Inr (Inl ''legacy signature header byte out of range'')
      else (case legacy_hash l message of
         Inl e \<Rightarrow> Inl e
       | Inr msgHash \<Rightarrow> (case dl_recover l (drop 1 sig) ((header - 27) mod 4) msgHash of
           None \<Rightarrow> Inr (Inl ''signature does not recover a public key'')
         | Some keys \<Rightarrow> (if script \<in> set (legacy_scripts l keys) then Inr (Inr ''legacy'')
             else Inr (Inl ''signature is valid but was made by a different key/address'')))))"

subsection \<open>BIP-322 simple\<close>

text \<open>The id of the virtual transaction that spends the tagged message into the script, in display order.\<close>

definition to_spend_txid :: "dest_lib \<Rightarrow> bytes \<Rightarrow> string \<Rightarrow> bytes" where
  "to_spend_txid l script message =
     rev (dl_sha256x2 l (dl_toSpend l ([0x00, 0x20] @ dl_tagged l (dl_utf8 l message)) script))"

definition verify_taproot :: "dest_lib \<Rightarrow> bytes \<Rightarrow> bytes \<Rightarrow> bytes list \<Rightarrow> string + string" where
  "verify_taproot l script txid stack = (case stack of
     [raw] \<Rightarrow>
       (if length raw \<noteq> 65 \<and> length raw \<noteq> 64 then Inl ''schnorr signature must be 64 or 65 bytes''
        else (let hashType = (if length raw = 65 then unat (raw ! 64) else SIGHASH_DEFAULT) in
          if hashType \<noteq> SIGHASH_DEFAULT \<and> hashType \<noteq> SIGHASH_ALL then Inl ''only SIGHASH_DEFAULT/ALL accepted''
          else if dl_schnorr l (take 64 raw) (dl_sighash1 l txid script hashType) (drop 2 script) then Inr ''bip322-simple''
          else Inl ''schnorr signature does not verify for this address''))
   | _ \<Rightarrow> Inl ''taproot BIP-322 must be a key-path signature (1 witness item)'')"

definition key_of_script :: "dest_lib \<Rightarrow> dest_kind \<Rightarrow> bytes \<Rightarrow> bytes \<Rightarrow> string option" where
  "key_of_script l kind script pubHash =
     (if kind = Wpkh
      then (if pubHash \<noteq> drop 2 script then Some ''pubkey in witness does not match the address'' else None)
      else (if dl_hash160 l (dl_wpkhScript l pubHash) \<noteq> take 20 (drop 2 script) then Some ''pubkey does not match this p2sh address'' else None))"

definition verify_segwit :: "dest_lib \<Rightarrow> dest_kind \<Rightarrow> bytes \<Rightarrow> bytes \<Rightarrow> bytes list \<Rightarrow> string + string" where
  "verify_segwit l kind script txid stack = (case stack of
     [derSig, pubkey] \<Rightarrow>
       (if length pubkey \<noteq> 33 then Inl ''pubkey in witness must be 33-byte compressed''
        else (let pubHash = dl_hash160 l pubkey in (case key_of_script l kind script pubHash of
          Some reason \<Rightarrow> Inl reason
        | None \<Rightarrow>
          (if length derSig < 9 then Inl ''DER signature too short''
           else (let hashType = unat (last derSig) in
             if hashType \<noteq> SIGHASH_ALL then Inl ''only SIGHASH_ALL accepted''
             else if dl_ecdsa l (butlast derSig) (dl_sighash0 l txid (dl_pkhScript l pubHash) hashType) pubkey = Some True
               then Inr ''bip322-simple''
             else Inl ''ECDSA signature does not verify for this address'')))))
   | _ \<Rightarrow> Inl ''segwit BIP-322 witness must be [signature, pubkey]'')"

definition verifyBip322Simple :: "dest_lib \<Rightarrow> dest_kind \<Rightarrow> bytes \<Rightarrow> bytes \<Rightarrow> string \<Rightarrow> string + string" where
  "verifyBip322Simple l kind script sig message =
     (if kind = Pkh then Inl ''legacy p2pkh addresses need a legacy (65-byte) signature''
      else (case dl_witness l sig of
        None \<Rightarrow> Inl ''signature is neither legacy nor a BIP-322 witness stack''
      | Some stack \<Rightarrow> (let txid = to_spend_txid l script message in
          if kind = Tr then verify_taproot l script txid stack else verify_segwit l kind script txid stack)))"

definition verifyDestSignature :: "dest_lib \<Rightarrow> string \<Rightarrow> string \<Rightarrow> string \<Rightarrow> err + (string + string)" where
  "verifyDestSignature l address message signatureB64 = (case checkDestAddress l address of
     Inl reason \<Rightarrow> Inr (Inl reason)
   | Inr (kind, script) \<Rightarrow> (case dl_base64 l (filter (\<lambda>c. \<not> js_space c) (js_trim signatureB64)) of
       None \<Rightarrow> Inr (Inl ''signature is not valid base64'')
     | Some sig \<Rightarrow> (if length sig = 65 then verifyLegacy l script sig message
         else Inr (verifyBip322Simple l kind script sig message))))"

subsection \<open>The destination row with this module inside\<close>

text \<open>\<open>exit_world\<close> leaves the two checks open; this closes it. A throw, for an over-long challenge, aborts the request as a
  refusal does.\<close>

definition wire_dest :: "dest_lib \<Rightarrow> exit_world \<Rightarrow> exit_world" where
  "wire_dest l x = x\<lparr>
     x_checkDest := (\<lambda>a. case checkDestAddress l a of Inl reason \<Rightarrow> Some reason | Inr d \<Rightarrow> None),
     x_verifyDest := (\<lambda>a c s. case verifyDestSignature l a c s of Inl e \<Rightarrow> Inl ''threw'' | Inr r \<Rightarrow> r)\<rparr>"

subsection \<open>What a verified signature proves\<close>

text \<open>A signature of the message by a key that alone controls the script: the recovered key of a legacy signature hashes to
  the script under one of the five single-key encodings, or the key of the script verifies a signature of the virtual spend.\<close>

definition proves_control :: "dest_lib \<Rightarrow> dest_kind \<Rightarrow> bytes \<Rightarrow> string \<Rightarrow> bool" where
  "proves_control l kind script message \<longleftrightarrow>
     (\<exists>sig bit h keys. legacy_hash l message = Inr h \<and> dl_recover l sig bit h = Some keys \<and> length sig = 64 \<and> bit < 4
        \<and> script \<in> set (legacy_scripts l keys))
   \<or> kind = Tr \<and> (\<exists>sig ht. length sig = 64 \<and> ht \<in> {SIGHASH_DEFAULT, SIGHASH_ALL}
        \<and> dl_schnorr l sig (dl_sighash1 l (to_spend_txid l script message) script ht) (drop 2 script))
   \<or> kind \<in> {Wpkh, Sh} \<and> (\<exists>sig pubkey. length pubkey = 33 \<and> key_of_script l kind script (dl_hash160 l pubkey) = None
        \<and> dl_ecdsa l sig (dl_sighash0 l (to_spend_txid l script message) (dl_pkhScript l (dl_hash160 l pubkey)) SIGHASH_ALL) pubkey = Some True)"

lemma verifyLegacy_proves:
  assumes "length sig = 65" and "verifyLegacy l script sig message = Inr (Inr scheme)"
  shows "proves_control l kind script message \<and> scheme = ''legacy''"
proof -
  from assms(2) obtain h keys where "legacy_hash l message = Inr h" "dl_recover l (drop 1 sig) ((unat (hd sig) - 27) mod 4) h = Some keys"
      "script \<in> set (legacy_scripts l keys)" "scheme = ''legacy''"
    by (simp add: verifyLegacy_def Let_def split: if_splits sum.splits option.splits)
  moreover have "length (drop 1 sig) = 64" "(unat (hd sig) - 27) mod 4 < 4" using assms(1) by simp_all
  ultimately show ?thesis unfolding proves_control_def by blast
qed

lemma taproot_proves:
  assumes "verify_taproot l script (to_spend_txid l script message) stack = Inr scheme"
  shows "proves_control l Tr script message"
proof -
  from assms obtain raw where raw: "stack = [raw]" by (auto simp: verify_taproot_def split: list.splits)
  define ht where "ht = (if length raw = 65 then unat (raw ! 64) else SIGHASH_DEFAULT)"
  from assms raw have "length (take 64 raw) = 64" "ht \<in> {SIGHASH_DEFAULT, SIGHASH_ALL}"
    "dl_schnorr l (take 64 raw) (dl_sighash1 l (to_spend_txid l script message) script ht) (drop 2 script)"
    by (auto simp: verify_taproot_def ht_def Let_def split: if_splits)
  then show ?thesis unfolding proves_control_def by blast
qed

lemma segwit_proves:
  assumes "kind \<in> {Wpkh, Sh}" and "verify_segwit l kind script (to_spend_txid l script message) stack = Inr scheme"
  shows "proves_control l kind script message"
proof -
  from assms obtain der pubkey where "stack = [der, pubkey]" by (auto simp: verify_segwit_def split: list.splits)
  with assms have "length pubkey = 33" "key_of_script l kind script (dl_hash160 l pubkey) = None"
    "dl_ecdsa l (butlast der) (dl_sighash0 l (to_spend_txid l script message) (dl_pkhScript l (dl_hash160 l pubkey)) SIGHASH_ALL) pubkey = Some True"
    by (auto simp: verify_segwit_def Let_def split: if_splits option.splits)
  with assms(1) show ?thesis unfolding proves_control_def by blast
qed

lemma bip322_proves:
  assumes "kind \<notin> {Wsh, Other_kind}" and "verifyBip322Simple l kind script sig message = Inr scheme"
  shows "proves_control l kind script message"
proof -
  from assms(2) obtain stack where "kind \<noteq> Pkh" "if kind = Tr then verify_taproot l script (to_spend_txid l script message) stack = Inr scheme
      else verify_segwit l kind script (to_spend_txid l script message) stack = Inr scheme"
    by (auto simp: verifyBip322Simple_def Let_def split: if_splits option.splits)
  with assms(1) taproot_proves [of l script message stack scheme] segwit_proves [of kind l script message stack scheme] show ?thesis
    by (cases kind) auto
qed

lemma checkDestAddress_kind: "checkDestAddress l a = Inr (kind, script) \<Longrightarrow> kind \<notin> {Wsh, Other_kind}"
  by (auto simp: checkDestAddress_def split: option.splits prod.splits dest_kind.splits)

lemma verify_proves:
  assumes "verifyDestSignature l a message s = Inr (Inr scheme)"
  shows "\<exists>kind script. checkDestAddress l a = Inr (kind, script) \<and> proves_control l kind script message"
proof -
  from assms obtain kind script where c: "checkDestAddress l a = Inr (kind, script)"
    by (auto simp: verifyDestSignature_def split: sum.splits)
  with assms obtain sig where "dl_base64 l (filter (\<lambda>c. \<not> js_space c) (js_trim s)) = Some sig"
    by (auto simp: verifyDestSignature_def split: option.splits)
  with c assms have v: "if length sig = 65 then verifyLegacy l script sig message = Inr (Inr scheme)
      else verifyBip322Simple l kind script sig message = Inr scheme"
    by (simp add: verifyDestSignature_def split: if_splits)
  show ?thesis
  proof (cases "length sig = 65")
    case True
    with v c verifyLegacy_proves [OF True, of l script message scheme kind] show ?thesis by auto
  next
    case False
    with v have "verifyBip322Simple l kind script sig message = Inr scheme" by simp
    from bip322_proves [OF checkDestAddress_kind [OF c] this] c show ?thesis by blast
  qed
qed


subsection \<open>A run\<close>

definition sample_dest_lib :: dest_lib where
  "sample_dest_lib = \<lparr>dl_address = (\<lambda>a. Some (Tr, [0x51, 0x20, 7])), dl_base64 = (\<lambda>s. Some (replicate 64 1)), dl_utf8 = (\<lambda>s. [of_nat (length s)]),
     dl_hash160 = (\<lambda>b. b), dl_sha256x2 = (\<lambda>b. b), dl_tagged = (\<lambda>b. b), dl_pkhScript = (\<lambda>b. b), dl_wpkhScript = (\<lambda>b. b),
     dl_shScript = (\<lambda>b. b), dl_p2tr = (\<lambda>b. b), dl_recover = (\<lambda>s n h. None), dl_witness = (\<lambda>b. Some [b]), dl_toSpend = (\<lambda>a b. a),
     dl_sighash1 = (\<lambda>t s n. t), dl_sighash0 = (\<lambda>t s n. t), dl_schnorr = (\<lambda>s m k. k = [7]), dl_ecdsa = (\<lambda>s m k. None)\<rparr>"

definition sample_issued :: exit_dest where
  "sample_issued = \<lparr>e_address = ''bc1p'', e_challenge = ''to bc1p'', e_issuedAt = 0, e_verifiedAt = None, e_scheme = None, e_sendTxid = None, e_sentAt = None\<rparr>"

lemma sample_issued_verifies:
  "verifyDestSignature sample_dest_lib ''bc1p'' c s = Inr (Inr ''bip322-simple'')"
  by (simp add: verifyDestSignature_def checkDestAddress_def verifyBip322Simple_def verify_taproot_def sample_dest_lib_def SIGHASH_DEFAULT_def Let_def)


end
