(* ===== verification/Whole_Set.thy ===== *)
theory Whole_Set
  imports Bridge_Types
begin

text \<open>
  Reading the whole set of coins past a pager that lies (\<open>src/indexer.ts\<close>), and the cache behind the pages
  (\<open>src/lib/cache.ts\<close>). A server is a function of the number of the request and of the request, so it may answer the same
  question differently each time.
\<close>

subsection \<open>The whole set\<close>

text \<open>The options of a query: what is asked for, and the page, index and size, when one is named.\<close>

record 'q vtxo_query =
  vq_what :: 'q
  vq_page :: "(nat \<times> nat) option"

record vtxo_page =
  pg_vtxos :: "vcoin list"
  pg_total :: "int option"

type_synonym 'q fetcher = "nat \<Rightarrow> 'q vtxo_query option \<Rightarrow> err + vtxo_page"

definition WALK_PAGE_SIZE :: nat where "WALK_PAGE_SIZE = 100"
definition WALK_MAX_PAGES :: nat where "WALK_MAX_PAGES = 500"

definition out_key :: "vcoin \<Rightarrow> string \<times> nat" where
  "out_key v = (c_txid v, c_vout v)"

definition withoutPaging :: "'q vtxo_query option \<Rightarrow> 'q vtxo_query option" where
  "withoutPaging opts = map_option (\<lambda>q. q\<lparr>vq_page := None\<rparr>) opts"

text \<open>\<open>Map.set\<close>: a key that is there keeps its place.\<close>

fun put_coin :: "vcoin \<Rightarrow> vcoin list \<Rightarrow> vcoin list" where
  "put_coin v [] = [v]"
| "put_coin v (c # cs) = (if out_key c = out_key v then v # cs else c # put_coin v cs)"

definition put_coins :: "vcoin list \<Rightarrow> vcoin list \<Rightarrow> vcoin list" where
  "put_coins vs seen = foldl (\<lambda>cs v. put_coin v cs) seen vs"

fun walk_pages :: "'q fetcher \<Rightarrow> 'q vtxo_query \<Rightarrow> nat \<Rightarrow> nat \<Rightarrow> vcoin list \<Rightarrow> nat \<Rightarrow> (err + vcoin list) \<times> nat" where
  "walk_pages f base 0 i seen t = (Inl (Error ''vtxo paging did not terminate''), t)"
| "walk_pages f base (Suc n) i seen t =
     (case f t (Some (base\<lparr>vq_page := Some (i, WALK_PAGE_SIZE)\<rparr>)) of
        Inl e \<Rightarrow> (Inl e, Suc t)
      | Inr p \<Rightarrow> (let seen' = put_coins (pg_vtxos p) seen in
          if (case pg_total p of None \<Rightarrow> 1 | Some n \<Rightarrow> n) \<le> int i then (Inr seen', Suc t)
          else walk_pages f base n (Suc i) seen' (Suc t)))"

definition walkEveryPage :: "'q fetcher \<Rightarrow> 'q vtxo_query \<Rightarrow> vcoin list \<Rightarrow> nat \<Rightarrow> (err + vcoin list) \<times> nat" where
  "walkEveryPage f base first t = walk_pages f base WALK_MAX_PAGES 1 (put_coins first []) t"

definition fetchWholeVtxoSet :: "'q fetcher \<Rightarrow> 'q vtxo_query option \<Rightarrow> nat \<Rightarrow> (err + vtxo_page) \<times> nat" where
  "fetchWholeVtxoSet f opts t = (let base = withoutPaging opts in
     case f t base of
       Inl e \<Rightarrow> (Inl e, Suc t)
     | Inr whole \<Rightarrow> (case (base, pg_total whole) of
         (Some b, Some n) \<Rightarrow>
           (if 1 < n
            then (case walkEveryPage f b (pg_vtxos whole) (Suc t) of
                (Inl e, t') \<Rightarrow> (Inl e, t') | (Inr vs, t') \<Rightarrow> (Inr \<lparr>pg_vtxos = vs, pg_total = None\<rparr>, t'))
            else (Inr \<lparr>pg_vtxos = pg_vtxos whole, pg_total = None\<rparr>, Suc t))
       | _ \<Rightarrow> (Inr \<lparr>pg_vtxos = pg_vtxos whole, pg_total = None\<rparr>, Suc t)))"

subsection \<open>A cache that shares its fetches\<close>

record 'a async_cache =
  ac_value :: "'a option"
  ac_fetchedAt :: "int option"
  ac_inFlight :: bool
  ac_updates :: "'a list"

datatype 'a refresh_answer = Shares_fetch | Cached_value "'a option" | Starts_fetch

definition new_cache :: "'a async_cache" where
  "new_cache = \<lparr>ac_value = None, ac_fetchedAt = None, ac_inFlight = False, ac_updates = []\<rparr>"

definition cache_seed :: "int \<Rightarrow> 'a \<Rightarrow> 'a async_cache \<Rightarrow> 'a async_cache" where
  "cache_seed now v c = c\<lparr>ac_value := Some v, ac_fetchedAt := Some now\<rparr>"

definition cache_refresh :: "int \<Rightarrow> int \<Rightarrow> 'a async_cache \<Rightarrow> 'a refresh_answer \<times> 'a async_cache" where
  "cache_refresh minIntervalMs now c =
     (if ac_inFlight c then (Shares_fetch, c)
      else (case ac_fetchedAt c of
        Some at \<Rightarrow> (if 0 < minIntervalMs \<and> now - at < minIntervalMs then (Cached_value (ac_value c), c)
                    else (Starts_fetch, c\<lparr>ac_inFlight := True\<rparr>))
      | None \<Rightarrow> (Starts_fetch, c\<lparr>ac_inFlight := True\<rparr>)))"

text \<open>The fetch answers: the value goes to the listeners, whose failures are swallowed; an error leaves the value.\<close>

definition cache_end :: "int \<Rightarrow> err + 'a \<Rightarrow> 'a async_cache \<Rightarrow> 'a async_cache" where
  "cache_end now res c = (if \<not> ac_inFlight c then c else (case res of
     Inl e \<Rightarrow> c\<lparr>ac_inFlight := False\<rparr>
   | Inr v \<Rightarrow> c\<lparr>ac_value := Some v, ac_fetchedAt := Some now, ac_inFlight := False, ac_updates := ac_updates c @ [v]\<rparr>))"

subsection \<open>Nothing a server said is lost\<close>

lemma keys_put_coin: "out_key ` set (put_coin v cs) = insert (out_key v) (out_key ` set cs)"
  by (induction cs) auto

lemma distinct_put_coin: "distinct (map out_key cs) \<Longrightarrow> distinct (map out_key (put_coin v cs))"
proof (induction cs)
  case (Cons c cs)
  have "set (map out_key (put_coin v cs)) = insert (out_key v) (out_key ` set cs)"
    using keys_put_coin [of v cs] by simp
  with Cons show ?case by auto
qed simp

lemma set_put_coin: "set (put_coin v cs) \<subseteq> insert v (set cs)"
  by (induction cs) auto

lemma keys_put_coins: "out_key ` set (put_coins vs cs) = out_key ` set vs \<union> out_key ` set cs"
  by (induction vs arbitrary: cs) (auto simp: put_coins_def keys_put_coin)

lemma distinct_put_coins: "distinct (map out_key cs) \<Longrightarrow> distinct (map out_key (put_coins vs cs))"
  by (induction vs arbitrary: cs) (auto simp: put_coins_def distinct_put_coin)

lemma set_put_coins: "set (put_coins vs cs) \<subseteq> set vs \<union> set cs"
proof (induction vs arbitrary: cs)
  case (Cons v vs)
  from Cons [of "put_coin v cs"] set_put_coin [of v cs] show ?case by (auto simp: put_coins_def)
qed (simp add: put_coins_def)

text \<open>A server that means well: whatever page size it allows itself, its pages cut one list of coins, page numbers
  start at one, and each page names the number of pages.\<close>

definition page_of :: "nat \<Rightarrow> vcoin list \<Rightarrow> nat \<Rightarrow> vcoin list" where
  "page_of cap vs i = take cap (drop ((i - 1) * cap) vs)"

definition pages_in :: "nat \<Rightarrow> vcoin list \<Rightarrow> nat" where
  "pages_in cap vs = (length vs + cap - 1) div cap"

definition pages_of :: "'q fetcher \<Rightarrow> 'q vtxo_query \<Rightarrow> nat \<Rightarrow> vcoin list \<Rightarrow> bool" where
  "pages_of f q cap vs \<longleftrightarrow> 0 < cap \<and> distinct (map out_key vs)
     \<and> (\<forall>t i. 1 \<le> i \<longrightarrow> f t (Some (q\<lparr>vq_page := Some (i, WALK_PAGE_SIZE)\<rparr>))
          = Inr \<lparr>pg_vtxos = page_of cap vs i, pg_total = Some (int (pages_in cap vs))\<rparr>)
     \<and> (\<forall>t. f t (Some (q\<lparr>vq_page := None\<rparr>)) \<in> {Inr \<lparr>pg_vtxos = vs, pg_total = None\<rparr>,
          Inr \<lparr>pg_vtxos = page_of cap vs 1, pg_total = Some (int (pages_in cap vs))\<rparr>})"

lemma same_coins:
  assumes "distinct (map out_key vs)" and "set cs \<subseteq> set vs" and "out_key ` set cs = out_key ` set vs"
  shows "set cs = set vs"
proof
  show "set vs \<subseteq> set cs"
  proof
    fix c assume c: "c \<in> set vs"
    then have "out_key c \<in> out_key ` set cs" using assms(3) by simp
    then obtain c' where c': "c' \<in> set cs" "out_key c = out_key c'" by auto
    with assms(1,2) c have "c = c'" by (auto simp: distinct_map dest: inj_onD)
    with c' show "c \<in> set cs" by simp
  qed
qed (rule assms(2))

lemma pages_bound:
  assumes "0 < cap"
  shows "length vs \<le> pages_in cap vs * cap"
proof -
  have "length vs + cap - 1 = pages_in cap vs * cap + (length vs + cap - 1) mod cap" by (simp add: pages_in_def)
  moreover have "(length vs + cap - 1) mod cap < cap" using assms by simp
  ultimately show ?thesis by linarith
qed

lemma walk_reads:
  assumes "pages_of f q cap vs" and "1 \<le> i" and "i \<le> pages_in cap vs" and "pages_in cap vs - i < n"
    and "set seen \<subseteq> set vs" and "out_key ` set (take ((i - 1) * cap) vs) \<subseteq> out_key ` set seen" and "distinct (map out_key seen)"
  shows "\<exists>cs t'. walk_pages f (q\<lparr>vq_page := None\<rparr>) n i seen t = (Inr cs, t') \<and> t' \<le> t + n
     \<and> set cs \<subseteq> set vs \<and> out_key ` set cs = out_key ` set vs \<and> distinct (map out_key cs)"
  using assms(2-)
proof (induction n arbitrary: i seen t)
  case (Suc n)
  define seen' where "seen' = put_coins (page_of cap vs i) seen"
  have sub: "set seen' \<subseteq> set vs" using set_put_coins [of "page_of cap vs i" seen] Suc.prems(4)
    by (auto simp: seen'_def page_of_def dest: in_set_takeD in_set_dropD)
  have upto: "take (i * cap) vs = take ((i - 1) * cap) vs @ page_of cap vs i"
  proof -
    have "i * cap = (i - 1) * cap + cap" using Suc.prems(1) by (cases i) simp_all
    then show ?thesis by (simp only: take_add page_of_def)
  qed
  have keys: "out_key ` set (take (i * cap) vs) \<subseteq> out_key ` set seen'"
    unfolding upto seen'_def keys_put_coins using Suc.prems(5) by auto
  have dist: "distinct (map out_key seen')" unfolding seen'_def by (rule distinct_put_coins [OF Suc.prems(6)])
  have step: "walk_pages f (q\<lparr>vq_page := None\<rparr>) (Suc n) i seen t
      = (if pages_in cap vs \<le> i then (Inr seen', Suc t) else walk_pages f (q\<lparr>vq_page := None\<rparr>) n (Suc i) seen' (Suc t))"
    using assms(1) Suc.prems(1) by (simp add: pages_of_def seen'_def Let_def)
  show ?case
  proof (cases "pages_in cap vs \<le> i")
    case True
    with Suc.prems(2) have "i = pages_in cap vs" by simp
    with pages_bound [of cap vs] assms(1) have "take (i * cap) vs = vs" by (simp add: pages_of_def)
    with keys sub have "out_key ` set seen' = out_key ` set vs" by auto
    with step True sub dist show ?thesis by auto
  next
    case False
    with Suc.prems have "1 \<le> Suc i" "Suc i \<le> pages_in cap vs" "pages_in cap vs - Suc i < n" by auto
    from Suc.IH [OF this sub _ dist, of "Suc t"] keys step False show ?thesis by auto
  qed
qed simp

lemma walk_gives_up:
  assumes "pages_of f q cap vs" and "1 \<le> i" and "i + n \<le> pages_in cap vs"
  shows "\<exists>t'. walk_pages f (q\<lparr>vq_page := None\<rparr>) n i seen t = (Inl (Error ''vtxo paging did not terminate''), t')"
  using assms(2,3)
proof (induction n arbitrary: i seen t)
  case (Suc n)
  have "walk_pages f (q\<lparr>vq_page := None\<rparr>) (Suc n) i seen t
      = walk_pages f (q\<lparr>vq_page := None\<rparr>) n (Suc i) (put_coins (page_of cap vs i) seen) (Suc t)"
    using assms(1) Suc.prems by (simp add: pages_of_def Let_def)
  with Suc show ?case by simp
qed simp

text \<open>C30: The wallet sees every coin or an error. Against a server that cuts its list into pages of any size it likes,
  whether or not it pages a query that named no page, the answer holds exactly the server's coins, each once, and no page object
  that would make the SDK's pager look again; only a set of more than five hundred pages is refused, with an error and never with
  a part of it.\<close>

theorem whole_set_read:
  assumes "pages_of f q cap vs"
  shows "(\<exists>cs t'. fetchWholeVtxoSet f (Some q) t = (Inr \<lparr>pg_vtxos = cs, pg_total = None\<rparr>, t') \<and> t' \<le> t + 501
       \<and> set cs = set vs \<and> distinct (map out_key cs))
    \<or> 500 < pages_in cap vs \<and> (\<exists>t'. fetchWholeVtxoSet f (Some q) t = (Inl (Error ''vtxo paging did not terminate''), t'))"
proof -
  define b where "b = q\<lparr>vq_page := None\<rparr>"
  have dist: "distinct (map out_key vs)" and cap: "0 < cap" using assms by (simp_all add: pages_of_def)
  from assms consider "f t (Some b) = Inr \<lparr>pg_vtxos = vs, pg_total = None\<rparr>"
    | "f t (Some b) = Inr \<lparr>pg_vtxos = page_of cap vs 1, pg_total = Some (int (pages_in cap vs))\<rparr>"
    unfolding pages_of_def b_def by blast
  then show ?thesis
  proof cases
    case 1
    with dist show ?thesis by (simp add: fetchWholeVtxoSet_def withoutPaging_def b_def [symmetric])
  next
    case 2
    show ?thesis
    proof (cases "1 < pages_in cap vs")
      case False
      then have "length vs \<le> cap" using pages_bound [OF cap, of vs] by (cases "pages_in cap vs") auto
      then have "page_of cap vs 1 = vs" by (simp add: page_of_def)
      with 2 False dist show ?thesis by (simp add: fetchWholeVtxoSet_def withoutPaging_def b_def [symmetric])
    next
      case True
      define first where "first = put_coins (page_of cap vs 1) []"
      have first: "set first \<subseteq> set vs" "distinct (map out_key first)"
        using set_put_coins [of "page_of cap vs 1" "[]"] distinct_put_coins [of "[]" "page_of cap vs 1"]
        by (auto simp: first_def page_of_def dest: in_set_takeD)
      have run: "fetchWholeVtxoSet f (Some q) t = (case walk_pages f b 500 1 first (Suc t) of
          (Inl e, t') \<Rightarrow> (Inl e, t') | (Inr vs, t') \<Rightarrow> (Inr \<lparr>pg_vtxos = vs, pg_total = None\<rparr>, t'))"
        using 2 True by (simp add: fetchWholeVtxoSet_def withoutPaging_def walkEveryPage_def WALK_MAX_PAGES_def first_def b_def [symmetric])
      show ?thesis
      proof (cases "pages_in cap vs \<le> 500")
        case le: True
        have "pages_in cap vs - 1 < 500" "1 \<le> pages_in cap vs" using le True by simp_all
        then obtain cs t' where "walk_pages f b 500 1 first (Suc t) = (Inr cs, t')" "t' \<le> Suc t + 500" "set cs \<subseteq> set vs"
            "out_key ` set cs = out_key ` set vs" "distinct (map out_key cs)"
          using walk_reads [OF assms, of 1 500 first "Suc t"] first unfolding b_def by auto
        with run same_coins [OF dist] show ?thesis by auto
      next
        case False
        with walk_gives_up [OF assms, of 1 500 first "Suc t"] run show ?thesis by (auto simp: b_def)
      qed
    qed
  qed
qed

text \<open>Whatever a server says, consistent or not: no row it named in an answer that was read is missing from a set that is
  returned, and a set is returned only when the server's own count of pages was reached.\<close>

lemma walk_keeps_rows:
  "walk_pages f b n i seen t = (Inr cs, t') \<Longrightarrow> out_key ` set seen \<subseteq> out_key ` set cs
     \<and> (\<exists>p j. f (t' - 1) (Some (b\<lparr>vq_page := Some (j, WALK_PAGE_SIZE)\<rparr>)) = Inr p \<and> (case pg_total p of None \<Rightarrow> 1 | Some m \<Rightarrow> m) \<le> int j)"
proof (induction f b n i seen t rule: walk_pages.induct)
  case (2 f b n i seen t)
  then obtain p where p: "f t (Some (b\<lparr>vq_page := Some (i, WALK_PAGE_SIZE)\<rparr>)) = Inr p" by (auto split: sum.splits)
  show ?case
  proof (cases "(case pg_total p of None \<Rightarrow> 1 | Some m \<Rightarrow> m) \<le> int i")
    case True
    with p 2(2) have "cs = put_coins (pg_vtxos p) seen" "t' = Suc t" by (simp_all add: Let_def)
    moreover have "\<exists>p j. f t (Some (b\<lparr>vq_page := Some (j, WALK_PAGE_SIZE)\<rparr>)) = Inr p \<and> (case pg_total p of None \<Rightarrow> 1 | Some m \<Rightarrow> m) \<le> int j"
      using p True by blast
    ultimately show ?thesis using keys_put_coins [of "pg_vtxos p" seen] by simp
  next
    case False
    with p 2(2) have "walk_pages f b n (Suc i) (put_coins (pg_vtxos p) seen) (Suc t) = (Inr cs, t')" by (simp add: Let_def)
    with 2(1) [OF p refl False] keys_put_coins [of "pg_vtxos p" seen] show ?thesis by blast
  qed
qed simp

subsection \<open>Cached values\<close>

text \<open>One fetch at a time, the last success is what is shown, and after a success the next fetch starts no sooner than the interval
  allows.\<close>

lemma cache_single_flight:
  "ac_inFlight c \<Longrightarrow> cache_refresh m now c = (Shares_fetch, c)"
  "ac_value (snd (cache_refresh m now c)) = ac_value c"
  "ac_inFlight c \<Longrightarrow> ac_value (cache_end now (Inl e) c) = ac_value c \<and> \<not> ac_inFlight (cache_end now (Inl e) c)"
  "ac_inFlight c \<Longrightarrow> fst (cache_refresh m later (cache_end now (Inr v) c)) = Starts_fetch \<Longrightarrow> 0 < m \<Longrightarrow> m \<le> later - now"
  by (auto simp: cache_refresh_def cache_end_def split: option.splits if_splits)

definition sample_coin_at :: "nat \<Rightarrow> vcoin" where
  "sample_coin_at n = \<lparr>c_txid = ''t'', c_vout = n, c_value = 1, c_script = [], c_tapTree = [], c_state = None, c_batchExpiry = None,
     c_commitmentTxIds = None, c_spentBy = None, c_settledBy = None, c_arkTxId = None, c_isSpent = False, c_isUnrolled = False\<rparr>"

definition clamped_server :: "unit fetcher" where
  "clamped_server t q = (let vs = map sample_coin_at [0..<3] in
     case q of Some p \<Rightarrow> Inr \<lparr>pg_vtxos = page_of 2 vs (case vq_page p of None \<Rightarrow> 1 | Some z \<Rightarrow> fst z), pg_total = Some 2\<rparr>
     | None \<Rightarrow> Inr \<lparr>pg_vtxos = vs, pg_total = None\<rparr>)"

lemma whole_set_read_witness:
  "\<exists>cs t'. fetchWholeVtxoSet clamped_server (Some \<lparr>vq_what = (), vq_page = Some (0, 500)\<rparr>) 0
     = (Inr \<lparr>pg_vtxos = cs, pg_total = None\<rparr>, t') \<and> set cs = set (map sample_coin_at [0..<3])"
proof -
  have "pages_of clamped_server \<lparr>vq_what = (), vq_page = Some (0, 500)\<rparr> 2 (map sample_coin_at [0..<3])"
    by (auto simp: pages_of_def clamped_server_def pages_in_def out_key_def sample_coin_at_def distinct_map inj_on_def upt_rec)
  from whole_set_read [OF this, of 0] show ?thesis by (auto simp: pages_in_def)
qed

end
