(* ===== verification/Bridge_Boot.thy ===== *)
theory Bridge_Boot
  imports Wallet_Pay
begin

text \<open>
  How the bridge comes up: the endpoint pair it is bound to (\<open>src/server_config.ts\<close>, \<open>src/config.ts\<close>), the account
  (\<open>src/account.ts\<close>), the first set-up (POST \<open>/setup\<close> of \<open>src/web/server.ts\<close>) and the boot with its degraded
  mode (\<open>src/index.ts\<close>). Every await is a step of its own, so requests can overlap as they do in the code. The bring-up of
  wallet, boltz and nostr is one answer, a success or an error; the web framework hands over the form fields.
\<close>

subsection \<open>The endpoint pair\<close>

record server_set =
  ss_ark :: string
  ss_boltz :: string

definition ARK_SERVER_URL :: string where "ARK_SERVER_URL = ''https://ark.hoppe-relay.it.com''"
definition BOLTZ_API_URL :: string where "BOLTZ_API_URL = ''https://boltz.hoppe-relay.it.com''"
definition OFFICIAL_ARK_SERVER_URL :: string where "OFFICIAL_ARK_SERVER_URL = ''https://arkade.computer''"
definition OFFICIAL_BOLTZ_API_URL :: string where "OFFICIAL_BOLTZ_API_URL = ''https://api.boltz.exchange''"

text \<open>What \<open>data/config.json\<close> pins.\<close>

record overrides =
  ov_ark :: "string option"
  ov_boltz :: "string option"

definition effective_url :: "string option \<Rightarrow> string option \<Rightarrow> string \<Rightarrow> string" where
  "effective_url override row fallback = (case override of Some u \<Rightarrow> u | None \<Rightarrow> (case row of Some u \<Rightarrow> u | None \<Rightarrow> fallback))"

definition resolveServerSet :: "overrides \<Rightarrow> server_set option \<Rightarrow> server_set" where
  "resolveServerSet ov row =
     \<lparr>ss_ark = effective_url (ov_ark ov) (map_option ss_ark row) ARK_SERVER_URL,
      ss_boltz = effective_url (ov_boltz ov) (map_option ss_boltz row) BOLTZ_API_URL\<rparr>"

text \<open>The two probes, each within ten seconds or an error: the network the Ark server reports, and whether boltz answered 2xx.\<close>

definition validateServerSet :: "string \<Rightarrow> err + string \<Rightarrow> err + bool \<Rightarrow> string option" where
  "validateServerSet network info boltz = (case info of
     Inl e \<Rightarrow> Some ''Ark server unreachable''
   | Inr reported \<Rightarrow> (if reported \<noteq> network then Some ''Ark server reports another network''
       else (case boltz of
         Inl e \<Rightarrow> Some ''Boltz unreachable''
       | Inr ok \<Rightarrow> if ok then None else Some ''Boltz returned an HTTP error'')))"

subsection \<open>The account\<close>

record account =
  ak_id :: nat
  ak_key :: bytes

text \<open>nostr-tools: the bech32 form with its type, and hex.\<close>

record key_lib =
  kl_nip19 :: "string \<Rightarrow> err + string \<times> bytes"
  kl_hex :: "string \<Rightarrow> bytes"

definition hex_digit :: "char \<Rightarrow> bool" where
  "hex_digit c \<longleftrightarrow> (CHR ''0'' \<le> c \<and> c \<le> CHR ''9'') \<or> (CHR ''a'' \<le> c \<and> c \<le> CHR ''f'') \<or> (CHR ''A'' \<le> c \<and> c \<le> CHR ''F'')"

definition parseNsecInput :: "key_lib \<Rightarrow> string \<Rightarrow> err + bytes" where
  "parseNsecInput l input = (let s = js_trim input in
     if take 4 s = ''nsec''
     then (case kl_nip19 l s of
        Inl e \<Rightarrow> Inl e
      | Inr (kind, bs) \<Rightarrow> if kind \<noteq> ''nsec'' then Inl (Error ''expected nsec'') else Inr bs)
     else if length s = 64 \<and> list_all hex_digit s then Inr (kl_hex l (map lower_char s))
     else Inl (Error ''not a valid nsec or 64-char hex secret''))"

definition loadAccount :: "account list \<Rightarrow> account option" where
  "loadAccount as = (if as = [] then None else Some (hd (sort_key ak_id as)))"

definition createAccount :: "bytes \<Rightarrow> account list \<Rightarrow> err + account \<times> account list" where
  "createAccount key as = (if length key \<noteq> 32 then Inl (Error ''private key must be 32 bytes'')
     else (let a = \<lparr>ak_id = next_id (map ak_id as), ak_key = key\<rparr> in Inr (a, as @ [a])))"

subsection \<open>The form of the first set-up\<close>

record setup_form =
  sf_mode :: "string option"
  sf_nsec :: "string option"
  sf_choice :: "string option"
  sf_ark :: "string option"
  sf_boltz :: "string option"

record setup_plan =
  pn_chosen :: server_set
  pn_effective :: server_set
  pn_key :: bytes
  pn_generated :: bool

definition trim_url :: "string option \<Rightarrow> string" where
  "trim_url raw = rev (dropWhile (\<lambda>c. c = CHR ''/'') (rev (js_trim (case raw of None \<Rightarrow> [] | Some s \<Rightarrow> s))))"

definition chosen_pair :: "setup_form \<Rightarrow> server_set" where
  "chosen_pair form =
     (if sf_choice form = Some ''official'' then \<lparr>ss_ark = OFFICIAL_ARK_SERVER_URL, ss_boltz = OFFICIAL_BOLTZ_API_URL\<rparr>
      else if sf_choice form = Some ''custom'' then \<lparr>ss_ark = trim_url (sf_ark form), ss_boltz = trim_url (sf_boltz form)\<rparr>
      else \<lparr>ss_ark = ARK_SERVER_URL, ss_boltz = BOLTZ_API_URL\<rparr>)"

definition setup_key :: "key_lib \<Rightarrow> setup_form \<Rightarrow> bytes \<Rightarrow> string + bytes \<times> bool" where
  "setup_key l form random =
     (if sf_mode form = Some ''generate'' then Inr (random, True)
      else if sf_mode form = Some ''paste'' then (case sf_nsec form of
          None \<Rightarrow> Inl ''nsec is required''
        | Some raw \<Rightarrow> (if js_trim raw = [] then Inl ''nsec is required''
            else (case parseNsecInput l raw of Inl e \<Rightarrow> Inl ''Could not parse nsec'' | Inr key \<Rightarrow> Inr (key, False))))
      else Inl ''invalid setup mode'')"

definition setup_request :: "key_lib \<Rightarrow> overrides \<Rightarrow> setup_form \<Rightarrow> bytes \<Rightarrow> string + setup_plan" where
  "setup_request l ov form random = (let chosen = chosen_pair form in
     if sf_choice form = Some ''custom'' \<and> (ss_ark chosen = [] \<or> ss_boltz chosen = [])
     then Inl ''Enter both the Ark server URL and the Boltz API URL for a custom server.''
     else (case setup_key l form random of
        Inl reason \<Rightarrow> Inl reason
      | Inr (key, generated) \<Rightarrow> Inr \<lparr>pn_chosen = chosen,
          pn_effective = \<lparr>ss_ark = or_else (ov_ark ov) (ss_ark chosen), ss_boltz = or_else (ov_boltz ov) (ss_boltz chosen)\<rparr>,
          pn_key = key, pn_generated = generated\<rparr>))"

subsection \<open>The process\<close>

datatype app_mode =
    Setup_mode
  | Degraded_mode err int nat
  | Ready_mode server_set bytes

datatype boot_alert = Boot_degraded | Boot_recovered nat

text \<open>A set-up under way: its servers are being validated, or its rows are written and the bridge is coming up.\<close>

datatype setup_job = Validating setup_plan | Coming_up nat bytes server_set

text \<open>\<open>bo_engine\<close> and \<open>bo_notifier\<close> are the keys these were made with; \<open>bo_boot\<close> the boot attempt under way,
  \<open>bo_retry\<close> the armed retry.\<close>

record bridge_boot =
  bo_accounts :: "account list"
  bo_server :: "server_set option"
  bo_mode :: app_mode
  bo_jobs :: "setup_job list"
  bo_primary :: "bytes option"
  bo_engine :: "bytes option"
  bo_notifier :: "bytes option"
  bo_boot :: "(bytes \<times> server_set) option"
  bo_retry :: "bytes option"
  bo_attempts :: nat
  bo_alerts :: "boot_alert list"

definition ensure_made :: "bytes \<Rightarrow> bytes option \<Rightarrow> bytes option" where
  "ensure_made key made = (case made of None \<Rightarrow> Some key | Some k \<Rightarrow> Some k)"

text \<open>The head of \<open>bootReady\<close>, before the first await.\<close>

definition boot_head :: "bytes \<Rightarrow> bridge_boot \<Rightarrow> bridge_boot" where
  "boot_head key s = s\<lparr>bo_primary := Some key, bo_engine := ensure_made key (bo_engine s), bo_notifier := ensure_made key (bo_notifier s)\<rparr>"

subsection \<open>POST \<open>/setup\<close>\<close>

datatype setup_answer = To_start | Refused string | Under_way

definition setup_begin :: "key_lib \<Rightarrow> overrides \<Rightarrow> setup_form \<Rightarrow> bytes \<Rightarrow> bridge_boot \<Rightarrow> setup_answer \<times> bridge_boot" where
  "setup_begin l ov form random s =
     (if bo_mode s \<noteq> Setup_mode then (To_start, s)
      else (case setup_request l ov form random of
        Inl reason \<Rightarrow> (Refused reason, s)
      | Inr plan \<Rightarrow> (Under_way, s\<lparr>bo_jobs := bo_jobs s @ [Validating plan]\<rparr>)))"

definition drop_job :: "nat \<Rightarrow> bridge_boot \<Rightarrow> bridge_boot" where
  "drop_job i s = s\<lparr>bo_jobs := take i (bo_jobs s) @ drop (Suc i) (bo_jobs s)\<rparr>"

text \<open>The verdict on the servers arrives: the rows are written together, and the bring-up starts in the same turn.\<close>

definition setup_validated :: "overrides \<Rightarrow> nat \<Rightarrow> string option \<Rightarrow> bridge_boot \<Rightarrow> bridge_boot" where
  "setup_validated ov i verdict s = (if length (bo_jobs s) \<le> i then s else (case bo_jobs s ! i of
     Validating plan \<Rightarrow> (case verdict of
         Some reason \<Rightarrow> drop_job i s
       | None \<Rightarrow> (let s1 = s\<lparr>bo_server := Some (pn_chosen plan)\<rparr> in
           (case createAccount (pn_key plan) (bo_accounts s1) of
              Inl e \<Rightarrow> drop_job i s1
            | Inr (a, as) \<Rightarrow> (boot_head (pn_key plan) s1)\<lparr>bo_accounts := as,
                bo_jobs := (bo_jobs s1)[i := Coming_up (ak_id a) (pn_key plan) (resolveServerSet ov (bo_server s1))]\<rparr>)))
   | _ \<Rightarrow> s))"

definition setup_booted :: "nat \<Rightarrow> err + unit \<Rightarrow> bridge_boot \<Rightarrow> bridge_boot" where
  "setup_booted i res s = (if length (bo_jobs s) \<le> i then s else (case bo_jobs s ! i of
     Coming_up j key server \<Rightarrow> (case res of
         Inr u \<Rightarrow> (drop_job i s)\<lparr>bo_mode := Ready_mode server key\<rparr>
       | Inl e \<Rightarrow> (drop_job i s)\<lparr>bo_accounts := filter (\<lambda>a. ak_id a \<noteq> j) (bo_accounts s), bo_server := None\<rparr>)
   | _ \<Rightarrow> s))"

subsection \<open>The boot and its retries\<close>

definition boot_begin :: "overrides \<Rightarrow> bytes \<Rightarrow> bridge_boot \<Rightarrow> bridge_boot" where
  "boot_begin ov key s = (boot_head key s)\<lparr>bo_boot := Some (key, resolveServerSet ov (bo_server s))\<rparr>"

definition boot_end :: "int \<Rightarrow> err + unit \<Rightarrow> bridge_boot \<Rightarrow> bridge_boot" where
  "boot_end now res s = (case bo_boot s of
     None \<Rightarrow> s
   | Some (key, server) \<Rightarrow> (case res of
       Inr u \<Rightarrow> s\<lparr>bo_boot := None, bo_mode := Ready_mode server key, bo_attempts := 0,
           bo_alerts := (if 0 < bo_attempts s then bo_alerts s @ [Boot_recovered (bo_attempts s)] else bo_alerts s)\<rparr>
     | Inl e \<Rightarrow> (let n = Suc (bo_attempts s) in
           (case bo_mode s of
              Degraded_mode old since k \<Rightarrow> s\<lparr>bo_mode := Degraded_mode e since n\<rparr>
            | _ \<Rightarrow> s\<lparr>bo_mode := Degraded_mode e now n, bo_alerts := bo_alerts s @ [Boot_degraded]\<rparr>)
           \<lparr>bo_boot := None, bo_attempts := n, bo_retry := Some key\<rparr>)))"

definition retry_boot :: "overrides \<Rightarrow> bridge_boot \<Rightarrow> bridge_boot" where
  "retry_boot ov s = (case bo_retry s of None \<Rightarrow> s | Some key \<Rightarrow> boot_begin ov key (s\<lparr>bo_retry := None\<rparr>))"

text \<open>A new process over the stored rows. An account without a server row, from before the row existed, gets the defaults
  written down, unless the configuration pins a server.\<close>

definition start_bridge :: "overrides \<Rightarrow> account list \<Rightarrow> server_set option \<Rightarrow> bridge_boot" where
  "start_bridge ov as row =
     (let s = \<lparr>bo_accounts = as, bo_server = row, bo_mode = Setup_mode, bo_jobs = [], bo_primary = None, bo_engine = None, bo_notifier = None,
               bo_boot = None, bo_retry = None, bo_attempts = 0, bo_alerts = []\<rparr> in
      case loadAccount as of
        None \<Rightarrow> s
      | Some a \<Rightarrow> (let s1 = (if row = None \<and> \<not> truthy (ov_ark ov) \<and> \<not> truthy (ov_boltz ov)
                      then s\<lparr>bo_server := Some \<lparr>ss_ark = ARK_SERVER_URL, ss_boltz = BOLTZ_API_URL\<rparr>\<rparr> else s)
          in boot_begin ov (ak_key a) (s1\<lparr>bo_notifier := Some (ak_key a)\<rparr>)))"

datatype boot_event =
    Post_setup setup_form bytes
  | Validated nat "string option"
  | Brought_up nat "err + unit"
  | Boot_answer int "err + unit"
  | Retry_boot

fun boot_do :: "key_lib \<Rightarrow> overrides \<Rightarrow> boot_event \<Rightarrow> bridge_boot \<Rightarrow> bridge_boot" where
  "boot_do l ov (Post_setup form random) s = snd (setup_begin l ov form random s)"
| "boot_do l ov (Validated i verdict) s = setup_validated ov i verdict s"
| "boot_do l ov (Brought_up i res) s = setup_booted i res s"
| "boot_do l ov (Boot_answer now res) s = boot_end now res s"
| "boot_do l ov Retry_boot s = retry_boot ov s"

definition boot_run :: "key_lib \<Rightarrow> overrides \<Rightarrow> boot_event list \<Rightarrow> bridge_boot \<Rightarrow> bridge_boot" where
  "boot_run l ov evs s = foldl (\<lambda>s ev. boot_do l ov ev s) s evs"

end
