(* ===== verification/Boot_Safety.thy ===== *)
theory Boot_Safety
  imports Bridge_Boot
begin

text \<open>
  What the first set-up leaves behind, and how the boot degrades and recovers. The set-up is safe when its requests come one at a
  time; two that overlap, and one that failed before, are not.
\<close>

subsection \<open>One set-up at a time\<close>

text \<open>nostr-tools yields keys of 32 bytes.\<close>

definition keys_32 :: "key_lib \<Rightarrow> bool" where
  "keys_32 l \<longleftrightarrow> (\<forall>s k. kl_nip19 l s = Inr (''nsec'', k) \<longrightarrow> length k = 32) \<and> (\<forall>s. length s = 64 \<longrightarrow> length (kl_hex l s) = 32)"

inductive one_at_a_time :: "key_lib \<Rightarrow> overrides \<Rightarrow> bridge_boot \<Rightarrow> bool" for l ov where
  fresh: "one_at_a_time l ov (start_bridge ov [] None)"
| step: "one_at_a_time l ov s \<Longrightarrow> (\<And>form random. ev = Post_setup form random \<Longrightarrow> bo_jobs s = [] \<and> length random = 32)
    \<Longrightarrow> one_at_a_time l ov (boot_do l ov ev s)"

definition bound_by :: "overrides \<Rightarrow> nat \<Rightarrow> bytes \<Rightarrow> server_set \<Rightarrow> bridge_boot \<Rightarrow> bool" where
  "bound_by ov i key srv s \<longleftrightarrow> bo_accounts s = [\<lparr>ak_id = i, ak_key = key\<rparr>]
     \<and> (\<exists>row. bo_server s = Some row \<and> srv = resolveServerSet ov (Some row))"

definition calm :: "overrides \<Rightarrow> bridge_boot \<Rightarrow> bool" where
  "calm ov s \<longleftrightarrow> bo_boot s = None \<and> bo_retry s = None \<and>
     ((bo_jobs s = [] \<and> ((bo_mode s = Setup_mode \<and> bo_accounts s = [] \<and> bo_server s = None)
          \<or> (\<exists>i key srv. bo_mode s = Ready_mode srv key \<and> bound_by ov i key srv s)))
    \<or> (\<exists>plan. bo_jobs s = [Validating plan] \<and> length (pn_key plan) = 32 \<and> bo_mode s = Setup_mode \<and> bo_accounts s = [] \<and> bo_server s = None)
    \<or> (\<exists>i key srv. bo_jobs s = [Coming_up i key srv] \<and> bo_mode s = Setup_mode \<and> bound_by ov i key srv s))"

lemma setup_request_key:
  assumes "keys_32 l" and "length random = 32" and "setup_request l ov form random = Inr plan"
  shows "length (pn_key plan) = 32"
proof -
  have parsed: "length key = 32" if "parseNsecInput l raw = Inr key" for raw key
    using that assms(1) by (auto simp: parseNsecInput_def keys_32_def Let_def split: if_splits sum.splits prod.splits)
  from assms(3) obtain key g where "setup_key l form random = Inr (key, g)" "pn_key plan = key"
    by (auto simp: setup_request_def Let_def split: if_splits sum.splits prod.splits)
  with parsed assms(2) show ?thesis
    by (auto simp: setup_key_def split: if_splits option.splits sum.splits)
qed

lemma calm_post:
  assumes "keys_32 l" and "length random = 32" and "bo_jobs s = []" and "calm ov s"
  shows "calm ov (snd (setup_begin l ov form random s))"
  using assms(3,4) setup_request_key [OF assms(1,2), of ov form]
  by (auto simp: calm_def setup_begin_def bound_by_def split: sum.split)

lemma calm_validated: "calm ov s \<Longrightarrow> calm ov (setup_validated ov i verdict s)"
  by (cases i; cases verdict) (auto simp: calm_def setup_validated_def bound_by_def drop_job_def createAccount_def boot_head_def Let_def)

lemma calm_booted: "calm ov s \<Longrightarrow> calm ov (setup_booted i res s)"
  by (cases i; cases res) (auto simp: calm_def setup_booted_def bound_by_def drop_job_def)

lemma calm_boot: "calm ov s \<Longrightarrow> boot_end now res s = s \<and> retry_boot ov s = s"
  by (simp add: calm_def boot_end_def retry_boot_def)

lemma calm_reached: "one_at_a_time l ov s \<Longrightarrow> keys_32 l \<Longrightarrow> calm ov s"
proof (induction rule: one_at_a_time.induct)
  case (step s ev)
  then show ?case
    by (cases ev) (auto simp: calm_validated calm_booted calm_boot intro!: calm_post)
qed (simp add: calm_def start_bridge_def loadAccount_def)

text \<open>C11: The first set-up is all or nothing. When the requests come one at a time, every moment without one under way finds
  the bridge either unset, with no account and no server, or bound: running the wallet of the one stored account on the
  servers of the stored choice, and a restart then boots that same wallet on those same servers.\<close>

theorem setup_all_or_nothing:
  assumes "keys_32 l" and "one_at_a_time l ov s" and "bo_jobs s = []"
  shows "(bo_mode s = Setup_mode \<and> bo_accounts s = [] \<and> bo_server s = None)
    \<or> (\<exists>i key srv. bo_mode s = Ready_mode srv key \<and> bo_accounts s = [\<lparr>ak_id = i, ak_key = key\<rparr>]
        \<and> bo_boot (start_bridge ov (bo_accounts s) (bo_server s)) = Some (key, srv))"
  using calm_reached [OF assms(2,1)] assms(3)
  by (auto simp: calm_def bound_by_def start_bridge_def loadAccount_def boot_begin_def boot_head_def Let_def)

subsection \<open>Two at once, and one after another\<close>

definition gen_form :: "string \<Rightarrow> setup_form" where
  "gen_form choice = \<lparr>sf_mode = Some ''generate'', sf_nsec = None, sf_choice = Some choice, sf_ark = None, sf_boltz = None\<rparr>"

definition no_overrides :: overrides where "no_overrides = \<lparr>ov_ark = None, ov_boltz = None\<rparr>"

definition blank_keys :: key_lib where
  "blank_keys = \<lparr>kl_nip19 = (\<lambda>s. Inl (Error ''bech32'')), kl_hex = (\<lambda>s. replicate 32 0)\<rparr>"

definition key_of :: "nat \<Rightarrow> bytes" where "key_of n = replicate 32 (of_nat n)"

abbreviation setup_run :: "boot_event list \<Rightarrow> bridge_boot" where
  "setup_run evs \<equiv> boot_run blank_keys no_overrides evs (start_bridge no_overrides [] None)"

lemmas boot_eval = boot_run_def start_bridge_def loadAccount_def setup_begin_def setup_request_def setup_key_def chosen_pair_def
  setup_validated_def setup_booted_def drop_job_def createAccount_def boot_head_def ensure_made_def gen_form_def no_overrides_def key_of_def
  boot_begin_def next_id_def resolveServerSet_def effective_url_def

text \<open>Two set-ups that overlap, a double click is enough, both pass the check of the mode before either writes. If both
  come up, the bridge runs the wallet of the second key while a restart boots that of the first; if the first fails, its clean-up
  deletes the server row of the second, and a restart repoints the running wallet from the chosen servers to the defaults.\<close>

theorem setup_overlap:
  shows "bo_mode (setup_run [Post_setup (gen_form ''official'') (key_of 1), Post_setup (gen_form ''official'') (key_of 2), Validated 0 None,
      Validated 1 None, Brought_up 0 (Inr ()), Brought_up 0 (Inr ())]) = Ready_mode \<lparr>ss_ark = OFFICIAL_ARK_SERVER_URL, ss_boltz = OFFICIAL_BOLTZ_API_URL\<rparr> (key_of 2)
    \<and> loadAccount (bo_accounts (setup_run [Post_setup (gen_form ''official'') (key_of 1), Post_setup (gen_form ''official'') (key_of 2), Validated 0 None,
      Validated 1 None, Brought_up 0 (Inr ()), Brought_up 0 (Inr ())])) = Some \<lparr>ak_id = 1, ak_key = key_of 1\<rparr>
    \<and> (\<exists>s. s = setup_run [Post_setup (gen_form ''official'') (key_of 1), Post_setup (gen_form ''official'') (key_of 2), Validated 0 None,
         Validated 1 None, Brought_up 0 (Inl (Error ''boltz'')), Brought_up 0 (Inr ())]
       \<and> bo_mode s = Ready_mode \<lparr>ss_ark = OFFICIAL_ARK_SERVER_URL, ss_boltz = OFFICIAL_BOLTZ_API_URL\<rparr> (key_of 2) \<and> bo_server s = None
       \<and> bo_boot (start_bridge no_overrides (bo_accounts s) (bo_server s)) = Some (key_of 2, \<lparr>ss_ark = ARK_SERVER_URL, ss_boltz = BOLTZ_API_URL\<rparr>))"
  by (simp add: boot_eval Let_def)

text \<open>A set-up after a failed one keeps the engine of the failed one. The exit engine and the notifier are made once,
  with the key of the first bring-up; when that fails and the set-up is repeated with another key, the wallet runs on the new key
  while the exit engine signs, funds and sweeps with the old one.\<close>

theorem setup_retry_keeps_engine:
  shows "\<exists>s. s = setup_run [Post_setup (gen_form ''hoppe'') (key_of 1), Validated 0 None, Brought_up 0 (Inl (Error ''ASP unreachable'')),
      Post_setup (gen_form ''hoppe'') (key_of 2), Validated 0 None, Brought_up 0 (Inr ())]
    \<and> bo_mode s = Ready_mode \<lparr>ss_ark = ARK_SERVER_URL, ss_boltz = BOLTZ_API_URL\<rparr> (key_of 2) \<and> bo_primary s = Some (key_of 2)
    \<and> bo_engine s = Some (key_of 1) \<and> bo_notifier s = Some (key_of 1) \<and> bo_accounts s = [\<lparr>ak_id = 1, ak_key = key_of 2\<rparr>]"
  by (simp add: boot_eval Let_def)

lemma setup_all_or_nothing_witness:
  "\<exists>srv. bo_mode (setup_run [Post_setup (gen_form ''hoppe'') (key_of 1), Validated 0 None, Brought_up 0 (Inr ())]) = Ready_mode srv (key_of 1)"
proof -
  let ?s = "setup_run [Post_setup (gen_form ''hoppe'') (key_of 1), Validated 0 None, Brought_up 0 (Inr ())]"
  have "one_at_a_time blank_keys no_overrides (boot_do blank_keys no_overrides (Brought_up 0 (Inr ()))
      (boot_do blank_keys no_overrides (Validated 0 None) (boot_do blank_keys no_overrides (Post_setup (gen_form ''hoppe'') (key_of 1))
        (start_bridge no_overrides [] None))))"
    by (intro one_at_a_time.intros) (auto simp: start_bridge_def loadAccount_def key_of_def)
  then have "one_at_a_time blank_keys no_overrides ?s" by (simp add: boot_run_def)
  moreover have "keys_32 blank_keys" by (simp add: keys_32_def blank_keys_def)
  moreover have "bo_jobs ?s = []" "bo_accounts ?s \<noteq> []" "map ak_key (bo_accounts ?s) = [key_of 1]" by (simp_all add: boot_eval Let_def)
  ultimately show ?thesis using setup_all_or_nothing [of blank_keys no_overrides ?s] by auto
qed

subsection \<open>Degraded, and back\<close>

fun up_down :: "bool \<Rightarrow> boot_alert list \<Rightarrow> bool" where
  "up_down down [] = (\<not> down)"
| "up_down down (a # as) = (if down then a = Boot_degraded \<and> up_down False as else (\<exists>n > 0. a = Boot_recovered n) \<and> up_down True as)"

definition is_boot :: "boot_event \<Rightarrow> bool" where
  "is_boot ev = (case ev of Boot_answer now res \<Rightarrow> True | Retry_boot \<Rightarrow> True | _ \<Rightarrow> False)"

definition boot_ok :: "bytes \<Rightarrow> server_set \<Rightarrow> bridge_boot \<Rightarrow> bool" where
  "boot_ok key srv s \<longleftrightarrow> bo_engine s = Some key \<and> bo_notifier s = Some key \<and> (bo_boot s = None \<or> bo_boot s = Some (key, srv))
     \<and> (bo_retry s = None \<or> bo_retry s = Some key)
     \<and> (case bo_mode s of
          Setup_mode \<Rightarrow> bo_attempts s = 0 \<and> bo_alerts s = [] \<and> bo_boot s = Some (key, srv) \<and> bo_retry s = None
        | Degraded_mode e since n \<Rightarrow> n = bo_attempts s \<and> 0 < n \<and> up_down True (rev (bo_alerts s))
            \<and> ((bo_boot s = Some (key, srv) \<and> bo_retry s = None) \<or> (bo_boot s = None \<and> bo_retry s = Some key))
        | Ready_mode srv' k \<Rightarrow> srv' = srv \<and> k = key \<and> bo_attempts s = 0 \<and> bo_boot s = None \<and> bo_retry s = None \<and> up_down False (rev (bo_alerts s)))"

lemma boot_ok_step:
  assumes "boot_ok key srv s" and "is_boot ev" and "resolveServerSet ov (bo_server s) = srv"
  shows "boot_ok key srv (boot_do l ov ev s) \<and> bo_server (boot_do l ov ev s) = bo_server s"
proof (cases ev)
  case (Boot_answer now res)
  with assms show ?thesis
    by (cases res) (auto simp: boot_ok_def boot_end_def Let_def split: option.splits app_mode.splits prod.splits)
next
  case Retry_boot
  with assms show ?thesis
    by (auto simp: boot_ok_def retry_boot_def boot_begin_def boot_head_def ensure_made_def split: option.splits app_mode.splits)
qed (use assms(2) in \<open>simp_all add: is_boot_def\<close>)



end
