(* ===== verification/Exit_Stepper.thy ===== *)
theory Exit_Stepper
  imports Exit_Spend_Safety Exit_Estimate Chain_Order
begin

text \<open>
  The page of one exit, \<open>src/exit/stepper.ts\<close>: the stored chain as layered steps with the waiting and the sweep below
  it, built from the store alone, and the probes of single steps the page asks for afterwards. A status read that times out is
  a read that failed.
\<close>

subsection \<open>Steps\<close>

datatype step_status = St_confirmed | St_mempool | St_pending | St_running | St_sweepable | St_done

record broadcast_step =
  bs_txid :: string
  bs_type :: chain_tx_type
  bs_vsize :: "int option"
  bs_status :: step_status
  bs_lane :: int

record wait_step =
  wt_status :: step_status
  wt_need :: int
  wt_have :: "int option"
  wt_unit :: timelock_unit

record sweep_step =
  wp_status :: step_status
  wp_dest :: "string option"
  wp_txid :: "string option"

record exit_stepper =
  sp_key :: "string \<times> nat"
  sp_valueSat :: int
  sp_op :: "exit_op option"
  sp_proofComplete :: bool
  sp_ancestryComplete :: bool
  sp_exitable :: bool
  sp_levels :: "broadcast_step list list"
  sp_edges :: "chain_edge list"
  sp_width :: int
  sp_wait :: wait_step
  sp_sweep :: sweep_step
  sp_probe :: "string list"

definition csvNeedOf :: "exit_world \<Rightarrow> string \<Rightarrow> (int \<times> timelock_unit) option" where
  "csvNeedOf x tapTree = (let zero = \<lparr>bt_height = 0, bt_time = 0\<rparr> in
     case csvPathStatuses x tapTree zero zero of
       Inr (s # ss) \<Rightarrow> Some (cv_need s, cv_type s)
     | _ \<Rightarrow> None)"

definition op_is :: "exit_op_state \<Rightarrow> exit_op option \<Rightarrow> bool" where
  "op_is st p \<longleftrightarrow> map_option o_state p = Some st"

definition buildWaitStep :: "exit_world \<Rightarrow> vault_vtxo \<Rightarrow> exit_op option \<Rightarrow> wait_step" where
  "buildWaitStep x v p =
     (if op_is Sweepable p \<or> op_is Swept p
      then \<lparr>wt_status = St_sweepable, wt_need = 0, wt_have = None, wt_unit = Blocks\<rparr>
      else if op_is Waiting p
      then (case csvNeedOf x (v_tapTree v) of
          None \<Rightarrow> \<lparr>wt_status = St_running, wt_need = 0, wt_have = None, wt_unit = Blocks\<rparr>
        | Some (need, unit) \<Rightarrow> \<lparr>wt_status = St_running, wt_need = need, wt_have = None, wt_unit = unit\<rparr>)
      else \<lparr>wt_status = St_pending, wt_need = 0, wt_have = Some 0, wt_unit = Blocks\<rparr>)"

definition buildSweepStep :: "exit_op option \<Rightarrow> step_status \<Rightarrow> sweep_step" where
  "buildSweepStep p waiting =
     \<lparr>wp_status = (if op_is Swept p then St_done else if waiting = St_sweepable then St_sweepable else St_pending),
      wp_dest = (case p of None \<Rightarrow> None | Some r \<Rightarrow> o_destAddress r),
      wp_txid = (case p of None \<Rightarrow> None | Some r \<Rightarrow> o_sweepTxid r)\<rparr>"

text \<open>\<open>chainGraph\<close> always returns (\<open>chainGraph_exists\<close>).\<close>

definition graph_of :: "chain_tx list \<Rightarrow> chain_graph" where
  "graph_of chain = (case chainGraph chain of Some g \<Rightarrow> g
     | None \<Rightarrow> \<lparr>g_levels = [], g_edges = [], g_lane = [], g_width = 0\<rparr>)"

definition lane_of :: "chain_tx list \<Rightarrow> string \<Rightarrow> int" where
  "lane_of chain txid = (case map_of (g_lane (graph_of chain)) txid of None \<Rightarrow> 0 | Some l \<Rightarrow> l)"

definition unrolled :: "exit_op option \<Rightarrow> bool" where
  "unrolled p \<longleftrightarrow> op_is Waiting p \<or> op_is Sweepable p \<or> op_is Swept p"

definition toStep :: "chain_tx list \<Rightarrow> exit_op option \<Rightarrow> (string \<Rightarrow> int option) \<Rightarrow> chain_tx \<Rightarrow> broadcast_step" where
  "toStep chain p vsizeOf c =
     (if ct_type c = COMMITMENT
      then \<lparr>bs_txid = ct_txid c, bs_type = ct_type c, bs_vsize = None, bs_status = St_confirmed, bs_lane = lane_of chain (ct_txid c)\<rparr>
      else \<lparr>bs_txid = ct_txid c, bs_type = ct_type c, bs_vsize = vsizeOf (ct_txid c),
            bs_status = (if unrolled p \<and> ct_type c \<noteq> UNSPECIFIED then St_confirmed else St_pending), bs_lane = lane_of chain (ct_txid c)\<rparr>)"

definition probe_list :: "vault_vtxo \<Rightarrow> exit_op option \<Rightarrow> string list" where
  "probe_list v p =
     (if unrolled p then (if op_is Waiting p then [v_txid v] else [])
      else js_set (proofTxidsOf (rev (v_chain v))))"

definition priced :: "size_lib \<Rightarrow> db \<Rightarrow> string \<Rightarrow> nat \<Rightarrow> rat \<Rightarrow> exit_estimate option" where
  "priced sz d txid vout feeRate = (case estimateExit sz d txid vout feeRate of Inl e \<Rightarrow> None | Inr r \<Rightarrow> r)"

definition step_vsizes :: "exit_estimate option \<Rightarrow> string \<Rightarrow> int option" where
  "step_vsizes est = map_of (rev (map (\<lambda>e. (et_txid e, et_vsize e)) (case est of None \<Rightarrow> [] | Some e \<Rightarrow> ee_txs e)))"

definition buildExitStepper :: "size_lib \<Rightarrow> exit_world \<Rightarrow> db \<Rightarrow> string \<Rightarrow> nat \<Rightarrow> rat \<Rightarrow> exit_stepper option" where
  "buildExitStepper sz x d txid vout feeRate = (case getVaultVtxo d txid vout of
     None \<Rightarrow> None
   | Some v \<Rightarrow>
      (let p = getExitOp d txid vout;
           est = priced sz d txid vout feeRate;
           graph = graph_of (v_chain v);
           waiting = buildWaitStep x v p;
           proofs_ok = (case est of None \<Rightarrow> False | Some e \<Rightarrow> ee_proofComplete e);
           ancestry_ok = (case est of None \<Rightarrow> False | Some e \<Rightarrow> ee_ancestryComplete e)
       in Some \<lparr>sp_key = (txid, vout), sp_valueSat = v_valueSat v, sp_op = p, sp_proofComplete = proofs_ok,
            sp_ancestryComplete = ancestry_ok, sp_exitable = (proofs_ok \<and> ancestry_ok),
            sp_levels = map (map (toStep (v_chain v) p (step_vsizes est))) (g_levels graph), sp_edges = g_edges graph, sp_width = g_width graph,
            sp_wait = waiting, sp_sweep = buildSweepStep p (wt_status waiting), sp_probe = probe_list v p\<rparr>))"

subsection \<open>Probes\<close>

record step_probe =
  pr_status :: step_status
  pr_step :: broadcast_step
  pr_wait :: "wait_step option"
  pr_sweep :: "sweep_step option"

definition probe_entry :: "vault_vtxo \<Rightarrow> string \<Rightarrow> chain_tx option" where
  "probe_entry v stepTxid = (case find_first (\<lambda>c. ct_txid c = stepTxid) (v_chain v) of
     None \<Rightarrow> None | Some c \<Rightarrow> if ct_type c \<in> {COMMITMENT, UNSPECIFIED} then None else Some c)"

definition status_shown :: "onchain_status option \<Rightarrow> step_status" where
  "status_shown s = (case s of None \<Rightarrow> St_pending | Some st \<Rightarrow> if os_confirmed st then St_confirmed else St_mempool)"

text \<open>Once the vtxo's own transaction confirmed, the clock of the timelock can be read.\<close>

definition measured_wait :: "exit_world \<Rightarrow> vault_vtxo \<Rightarrow> onchain_status \<Rightarrow> block_time option \<Rightarrow> exit_op option \<Rightarrow> step_probe \<Rightarrow> step_probe" where
  "measured_wait x v s tip p pr = (case tip of
     None \<Rightarrow> pr
   | Some now \<Rightarrow> (case csvPathStatuses x (v_tapTree v) (os_at s) now of
       Inr (csv # rest) \<Rightarrow>
         (let w = \<lparr>wt_status = (if cv_satisfied csv then St_sweepable else St_running), wt_need = cv_need csv,
              wt_have = Some (max 0 (cv_have csv)), wt_unit = cv_type csv\<rparr>
          in pr\<lparr>pr_wait := Some w, pr_sweep := Some (buildSweepStep p (wt_status w))\<rparr>)
     | _ \<Rightarrow> pr))"

definition probeExitStep :: "size_lib \<Rightarrow> exit_world \<Rightarrow> string \<Rightarrow> nat \<Rightarrow> string \<Rightarrow> step_probe option bridge" where
  "probeExitStep sz x txid vout stepTxid =
     andthen (reading (\<lambda>d. getVaultVtxo d txid vout)) (\<lambda>row. case row of
       None \<Rightarrow> ret None
     | Some v \<Rightarrow> (case probe_entry v stepTxid of
         None \<Rightarrow> ret None
       | Some entry \<Rightarrow>
          andthen (await_opt (\<lambda>t. x_status x t stepTxid)) (\<lambda>s.
          andthen (reading (\<lambda>d. \<lparr>pr_status = status_shown s,
             pr_step = \<lparr>bs_txid = stepTxid, bs_type = ct_type entry, bs_vsize = storedTxVsize sz d stepTxid (ct_type entry),
               bs_status = status_shown s, bs_lane = lane_of (v_chain v) stepTxid\<rparr>,
             pr_wait = None, pr_sweep = None\<rparr>)) (\<lambda>pr.
          (case s of
             Some st \<Rightarrow> (if stepTxid = v_txid v \<and> os_confirmed st
               then andthen (await_opt (x_tip x)) (\<lambda>tip. reading (\<lambda>d. Some (measured_wait x v st tip (getExitOp d txid vout) pr)))
               else ret (Some pr))
           | None \<Rightarrow> ret (Some pr))))))"

subsection \<open>The page and its probes agree\<close>

lemma graph_of_chain: "chainGraph chain = Some (graph_of chain)"
  using chainGraph_exists [of chain] by (auto simp: graph_of_def)

lemma buildExitStepper_cases:
  assumes "buildExitStepper sz x d txid vout rate = Some st"
  obtains v vs where "getVaultVtxo d txid vout = Some v"
    and "sp_levels st = map (map (toStep (v_chain v) (getExitOp d txid vout) vs)) (g_levels (graph_of (v_chain v)))"
    and "sp_edges st = g_edges (graph_of (v_chain v))" and "sp_probe st = probe_list v (getExitOp d txid vout)"
    and "sp_exitable st \<longleftrightarrow> (\<exists>e. estimateExit sz d txid vout rate = Inr (Some e) \<and> ee_proofComplete e \<and> ee_ancestryComplete e)"
    and "sp_wait st = buildWaitStep x v (getExitOp d txid vout)" and "sp_op st = getExitOp d txid vout"
proof -
  from assms obtain v where v: "getVaultVtxo d txid vout = Some v"
    by (cases "getVaultVtxo d txid vout") (simp_all add: buildExitStepper_def)
  have est: "sp_exitable st \<longleftrightarrow> (\<exists>e. priced sz d txid vout rate = Some e \<and> ee_proofComplete e \<and> ee_ancestryComplete e)"
    using assms v by (cases "priced sz d txid vout rate") (auto simp: buildExitStepper_def Let_def)
  have inner: "priced sz d txid vout rate = Some e \<longleftrightarrow> estimateExit sz d txid vout rate = Inr (Some e)" for e
    by (simp add: priced_def split: sum.split)
  show thesis
    by (rule that [of v "step_vsizes (priced sz d txid vout rate)"])
      (use assms v est inner in \<open>auto simp: buildExitStepper_def Let_def\<close>)
qed

lemma toStep_fields:
  "bs_txid (toStep chain p vs c) = ct_txid c" "bs_type (toStep chain p vs c) = ct_type c"
  "bs_lane (toStep chain p vs c) = lane_of chain (ct_txid c)"
  "bs_status (toStep chain p vs c) = St_confirmed \<longleftrightarrow> ct_type c = COMMITMENT \<or> (unrolled p \<and> ct_type c \<noteq> UNSPECIFIED)"
  by (auto simp: toStep_def)

lemma exitable_ready:
  assumes "estimateExit sz d txid vout rate = Inr (Some e)" and "ee_proofComplete e" and "ee_ancestryComplete e"
  shows "isVtxoExitReady d txid vout"
  using assms(1)
proof (cases rule: estimateExit_cases)
  case (1 v es ok)
  have "\<forall>i \<in> set (proofTxidsOf (v_chain v)). proof_of d i \<noteq> None"
    using measure_txs_Some [OF 1(2)] 1(4) assms(2) by (auto simp: getProofPsbts_eq)
  with 1 assms(3) show ?thesis by (simp add: isVtxoExitReady_def missingProofTxids_eq filter_empty_conv)
qed

lemma stepper_nodes:
  "map bs_txid (concat (map (map (toStep chain p vs)) levels)) = txids (concat levels)"
  by (induction levels) (simp_all add: toStep_fields comp_def)

text \<open>The exit page shows the chain. Whatever chain is stored, it shows every transaction of it once and no other, with
  the spends between them; a step is shown as confirmed only for a commitment or once the engine has seen the whole unrolling
  through, and the exit button is offered only for a vtxo whose every proof is stored and whose ancestry is whole.\<close>

theorem stepper_shows_chain:
  assumes "buildExitStepper sz x d txid vout rate = Some st"
  shows "\<exists>v. getVaultVtxo d txid vout = Some v
    \<and> distinct (map bs_txid (concat (sp_levels st))) \<and> bs_txid ` set (concat (sp_levels st)) = set (txids (v_chain v))
    \<and> {(e_parent e, e_child e) | e. e \<in> set (sp_edges st)}
        = {(p, ct_txid tx) | p tx. tx \<in> set (dedup_nodes [] (v_chain v)) \<and> p \<in> set (parentTxids tx) \<and> p \<in> set (txids (v_chain v))}
    \<and> (\<forall>b \<in> set (concat (sp_levels st)). bs_status b = St_confirmed \<longrightarrow>
         bs_type b = COMMITMENT \<or> (\<exists>r. getExitOp d txid vout = Some r \<and> o_state r \<in> {Waiting, Sweepable, Swept}))
    \<and> (sp_exitable st \<longrightarrow> isVtxoExitReady d txid vout)"
  using assms
proof (cases rule: buildExitStepper_cases)
  case (1 v vs)
  let ?g = "graph_of (v_chain v)"
  note g = graph_of_chain [of "v_chain v"]
  have ids: "map bs_txid (concat (sp_levels st)) = txids (concat (g_levels ?g))"
    unfolding 1(2) by (rule stepper_nodes)
  have "bs_txid ` set (concat (sp_levels st)) = set (txids (v_chain v))"
    using chainGraph_nodes(2) [OF g] ids by (metis set_map)
  moreover have "distinct (map bs_txid (concat (sp_levels st)))" using chainGraph_nodes(1) [OF g] ids by simp
  moreover have "{(e_parent e, e_child e) | e. e \<in> set (sp_edges st)}
        = {(p, ct_txid tx) | p tx. tx \<in> set (dedup_nodes [] (v_chain v)) \<and> p \<in> set (parentTxids tx) \<and> p \<in> set (txids (v_chain v))}"
    unfolding 1(3) chainGraph_edges [OF g] chainGraph_nodes(3) [OF g] ..
  moreover have "bs_type b = COMMITMENT \<or> (\<exists>r. getExitOp d txid vout = Some r \<and> o_state r \<in> {Waiting, Sweepable, Swept})"
    if "b \<in> set (concat (sp_levels st))" "bs_status b = St_confirmed" for b
    using that by (auto simp: 1(2) toStep_fields unrolled_def op_is_def)
  moreover have "sp_exitable st \<longrightarrow> isVtxoExitReady d txid vout" using 1(5) exitable_ready by blast
  ultimately show ?thesis using 1(1) by blast
qed

text \<open>One transaction has one type.\<close>

definition typed_chain :: "chain_tx list \<Rightarrow> bool" where
  "typed_chain chain \<longleftrightarrow> (\<forall>a \<in> set chain. \<forall>b \<in> set chain. ct_txid a = ct_txid b \<longrightarrow> ct_type a = ct_type b)"

lemma typed_chainD: "typed_chain chain \<Longrightarrow> a \<in> set chain \<Longrightarrow> b \<in> set chain \<Longrightarrow> ct_txid a = ct_txid b \<Longrightarrow> ct_type a = ct_type b"
  unfolding typed_chain_def by (drule (1) bspec, drule (1) bspec, erule (1) mp)

lemma probe_entry_hit:
  assumes "typed_chain chain"
    and "t \<in> set (proofTxidsOf chain)" and "v_chain v = chain"
  shows "\<exists>c. probe_entry v t = Some c \<and> c \<in> set chain \<and> ct_txid c = t"
proof -
  from assms(2) obtain b where b: "b \<in> set chain" "ct_txid b = t" "ct_type b \<notin> {COMMITMENT, UNSPECIFIED}"
    by (auto simp: proofTxidsOf_def)
  then obtain c where c: "find_first (\<lambda>c. ct_txid c = t) chain = Some c"
    by (cases "find_first (\<lambda>c. ct_txid c = t) chain") (auto simp: find_first_None)
  then have "c \<in> set chain" "ct_txid c = t" by (auto dest: find_first_Some)
  with b(2) have "ct_type b = ct_type c" by (intro typed_chainD [OF assms(1) b(1)]) simp_all
  with b c \<open>c \<in> set chain\<close> \<open>ct_txid c = t\<close> assms(3) show ?thesis by (simp add: probe_entry_def)
qed

lemma probe_entry_proof: "probe_entry v t = Some c \<Longrightarrow> t \<in> set (proofTxidsOf (v_chain v))"
  by (auto simp: probe_entry_def proofTxidsOf_def split: option.splits if_splits dest!: find_first_Some)

lemma measured_wait_step [simp]: "pr_step (measured_wait x v s tip p pr) = pr_step pr"
  by (auto simp: measured_wait_def Let_def split: option.split sum.split list.split)

lemma await_opt_eq: "await_opt ask d = (Inr (case ask (tick d) of Inl e \<Rightarrow> None | Inr v \<Rightarrow> Some v), d\<lparr>tick := Suc (tick d)\<rparr>)"
  by (simp add: await_opt_def await_def)

lemma probe_runs:
  assumes "getVaultVtxo d txid vout = Some v" and "probe_entry v t = Some c"
  shows "\<exists>n pr. probeExitStep sz x txid vout t d = (Inr (Some pr), d\<lparr>tick := n\<rparr>)
    \<and> bs_type (pr_step pr) = ct_type c \<and> bs_lane (pr_step pr) = lane_of (v_chain v) t"
proof (cases "x_status x (tick d) t")
  case (Inl e)
  then show ?thesis
    by (intro exI [of _ "Suc (tick d)"]) (simp add: probeExitStep_def assms andthen_def await_opt_eq)
next
  case (Inr s)
  show ?thesis
  proof (cases "t = v_txid v \<and> os_confirmed s")
    case True
    with assms(2) Inr have "probe_entry v (v_txid v) = Some c" "t = v_txid v" "x_status x (tick d) (v_txid v) = Inr s" by simp_all
    with True show ?thesis
      by (intro exI [of _ "Suc (Suc (tick d))"]) (simp add: probeExitStep_def assms(1) andthen_def await_opt_eq)
  next
    case False
    then have "t \<noteq> v_txid v \<or> \<not> os_confirmed s" by simp
    then show ?thesis
      by (intro exI [of _ "Suc (tick d)"]) (elim disjE; simp add: probeExitStep_def assms andthen_def await_opt_eq Inr)
  qed
qed

text \<open>The page probes only what can be answered, and nothing else is asked of the explorer. For a chain that gives one
  transaction one type and names the vtxo's own, every step the page is told to probe is on the page, and its probe answers with that
  step in the same lane; a transaction that is no broadcastable step of a stored chain is refused before the explorer is asked, so the
  route is no open proxy; and a probe never writes.\<close>

theorem probes_answered:
  assumes "buildExitStepper sz x d txid vout rate = Some st" and "getVaultVtxo d txid vout = Some v"
    and "typed_chain (v_chain v)"
    and "v_txid v \<in> set (proofTxidsOf (v_chain v))"
  shows "(\<forall>t \<in> set (sp_probe st). \<exists>pr n. probeExitStep sz x txid vout t d = (Inr (Some pr), d\<lparr>tick := n\<rparr>)
       \<and> (\<exists>b \<in> set (concat (sp_levels st)). bs_txid b = t \<and> bs_type b = bs_type (pr_step pr) \<and> bs_lane b = bs_lane (pr_step pr)))
    \<and> (\<forall>t. t \<notin> set (proofTxidsOf (v_chain v)) \<longrightarrow> probeExitStep sz x txid vout t d = (Inr None, d))"
  using assms(1)
proof (cases rule: buildExitStepper_cases)
  case (1 w vs)
  with assms(2) have w: "w = v" by simp
  have answered: "\<exists>pr n. probeExitStep sz x txid vout t d = (Inr (Some pr), d\<lparr>tick := n\<rparr>)
       \<and> (\<exists>b \<in> set (concat (sp_levels st)). bs_txid b = t \<and> bs_type b = bs_type (pr_step pr) \<and> bs_lane b = bs_lane (pr_step pr))"
    if "t \<in> set (proofTxidsOf (v_chain v))" for t
  proof -
    from probe_entry_hit [OF assms(3) that refl] obtain c where c: "probe_entry v t = Some c" "c \<in> set (v_chain v)" "ct_txid c = t"
      by blast
    have "t \<in> set (txids (v_chain v))" using c(2) c(3) [symmetric] by simp
    then have "t \<in> set (txids (concat (g_levels (graph_of (v_chain v)))))"
      by (simp only: chainGraph_nodes(2) [OF graph_of_chain])
    then have "t \<in> ct_txid ` set (concat (g_levels (graph_of (v_chain v))))" by (simp only: set_map)
    then obtain c' where c': "c' \<in> set (concat (g_levels (graph_of (v_chain v))))" "ct_txid c' = t" by blast
    have "c' \<in> set (v_chain v)"
      using c'(1) dedup_nodes_sub chainGraph_nodes(3) [OF graph_of_chain, of "v_chain v"] by blast
    then have ty: "ct_type c' = ct_type c" using c(2,3) c'(2) by (intro typed_chainD [OF assms(3)]) simp_all
    let ?b = "toStep (v_chain v) (getExitOp d txid vout) vs c'"
    have b: "?b \<in> set (concat (sp_levels st))" using c'(1) by (auto simp: 1(2) w)
    obtain pr n where run: "probeExitStep sz x txid vout t d = (Inr (Some pr), d\<lparr>tick := n\<rparr>)"
      and pr: "bs_type (pr_step pr) = ct_type c" "bs_lane (pr_step pr) = lane_of (v_chain v) t"
      using probe_runs [OF assms(2) c(1)] by blast
    from run pr b ty c'(2) show ?thesis by (intro exI [of _ pr] exI [of _ n] conjI bexI [OF _ b]) (simp_all add: toStep_fields)
  qed
  have "set (sp_probe st) \<subseteq> set (proofTxidsOf (v_chain v))"
    using assms(4) by (auto simp: 1(4) w probe_list_def proofTxidsOf_def)
  moreover have "probeExitStep sz x txid vout t d = (Inr None, d)" if "t \<notin> set (proofTxidsOf (v_chain v))" for t
    using that probe_entry_proof [of v t] by (cases "probe_entry v t") (auto simp: probeExitStep_def assms(2) andthen_def)
  ultimately show ?thesis using answered by blast
qed

subsection \<open>A concrete page\<close>

lemma sample_stepper: "\<exists>st. buildExitStepper sample_sizes_lib sample_exit sample_vault ''c'' 0 2 = Some st"
  by (simp add: buildExitStepper_def sample_get Let_def)

lemma stepper_shows_chain_witness:
  "\<exists>st. buildExitStepper sample_sizes_lib sample_exit sample_vault ''c'' 0 2 = Some st
     \<and> distinct (map bs_txid (concat (sp_levels st))) \<and> bs_txid ` set (concat (sp_levels st)) = {''a'', ''b'', ''c''}"
proof -
  obtain st where st: "buildExitStepper sample_sizes_lib sample_exit sample_vault ''c'' 0 2 = Some st"
    using sample_stepper by blast
  have "set (txids (v_chain (row_of_snapshot 100 sample_snapshot))) = {''a'', ''b'', ''c''}"
    by (auto simp: sample_proofs sample_chain_def)
  with stepper_shows_chain [OF st] st show ?thesis by (auto simp: sample_get)
qed

lemma probes_answered_witness:
  "\<exists>st pr n. buildExitStepper sample_sizes_lib sample_exit sample_vault ''c'' 0 2 = Some st \<and> ''b'' \<in> set (sp_probe st)
     \<and> probeExitStep sample_sizes_lib sample_exit ''c'' 0 ''b'' sample_vault = (Inr (Some pr), sample_vault\<lparr>tick := n\<rparr>)
     \<and> probeExitStep sample_sizes_lib sample_exit ''c'' 0 ''a'' sample_vault = (Inr None, sample_vault)"
proof -
  obtain st where st: "buildExitStepper sample_sizes_lib sample_exit sample_vault ''c'' 0 2 = Some st"
    using sample_stepper by blast
  let ?v = "row_of_snapshot 100 sample_snapshot"
  have typed: "typed_chain (v_chain ?v)" by (simp add: typed_chain_def sample_proofs sample_chain_def)
  have own: "v_txid ?v = ''c''" by (simp add: row_of_snapshot_def vault_snapshot.defs sample_snapshot_def)
  have proofs: "set (proofTxidsOf (v_chain ?v)) = {''b'', ''c''}"
    by (auto simp: sample_proofs sample_chain_def proofTxidsOf_def)
  have "ops sample_vault = []"
    by (simp add: sample_vault_def storeVtxoWithProofs_def empty_db_def)
  then have "getExitOp sample_vault ''c'' 0 = None" by (simp add: getExitOp_def row_get_def)
  then have "''b'' \<in> set (sp_probe st)"
    using st by (auto simp: buildExitStepper_def sample_get Let_def probe_list_def unrolled_def op_is_def
        sample_proofs sample_chain_def proofTxidsOf_def)
  have "v_txid ?v \<in> set (proofTxidsOf (v_chain ?v))" using own proofs by simp
  note answers = probes_answered [OF st sample_get typed this]
  from bspec [OF conjunct1 [OF answers] \<open>''b'' \<in> set (sp_probe st)\<close>] obtain pr n where
    "probeExitStep sample_sizes_lib sample_exit ''c'' 0 ''b'' sample_vault = (Inr (Some pr), sample_vault\<lparr>tick := n\<rparr>)"
    by (elim exE conjE)
  moreover have "probeExitStep sample_sizes_lib sample_exit ''c'' 0 ''a'' sample_vault = (Inr None, sample_vault)"
    by (rule mp [OF spec [OF conjunct2 [OF answers]]]) (subst proofs, simp)
  ultimately show ?thesis using st \<open>''b'' \<in> set (sp_probe st)\<close> by (intro exI conjI)
qed

end
