(* ===== verification/Web_Server.thy ===== *)
theory Web_Server
  imports Bridge_Boot Exit_Stepper Exit_Boost Exit_Engine History Clink_Offers Nostr_Service Boltz_Sync Outbox
begin

text \<open>
  The operator's web page, \<open>src/web/server.ts\<close>: the guards in front of every route, the mode of the process, and what each
  route reads and changes. The framework hands over the two headers, the path's parameters and the form's fields. A page is the data
  its view renders; wording is the view's. What the explorer adds to a page for display (fee context, funding balance) is left out.
  An index in a path is what \<open>Number.parseInt\<close> read, \<open>None\<close> for \<open>NaN\<close>; an index below zero names no row and is not modelled.
  A payment has an await of minutes inside, so its two segments around it are definitions of their own.
\<close>

subsection \<open>Requests\<close>

record web_request =
  wr_origin :: "string option"
  wr_host :: "string option"

record web_url =
  wu_hostname :: string
  wu_port :: string

record send_form =
  fm_destination :: "string option"
  fm_amount :: "string option"
  fm_max :: "string option"

record connection_form =
  fl_label :: "string option"
  fl_budget :: "string option"
  fl_renewal :: "string option"

datatype web_call =
    Get_setup | Get_home | Get_exit | Get_vtxo string "nat option" | Get_step string "nat option" string
  | Get_connections | Get_new_connection | Get_connection "nat option" | Get_swaps | Get_history "string option" | Get_faq | Get_send
  | Post_setup_form setup_form
  | Post_boost string "nat option" string | Post_boost_sweep string "nat option" | Post_start string "nat option"
  | Post_forget string "nat option" | Post_sweep string "nat option" "string option"
  | Post_dest "string option" | Post_dest_verify "string option" | Post_dest_clear | Post_final_send | Post_final_boost
  | Post_connection connection_form | Post_revoke "nat option" | Post_regenerate | Post_refund "string option"
  | Post_send send_form | Post_confirm send_form | Post_refresh

fun reads_only :: "web_call \<Rightarrow> bool" where
  "reads_only Get_setup = True" | "reads_only Get_home = True" | "reads_only Get_exit = True"
| "reads_only (Get_vtxo t v) = True" | "reads_only (Get_step t v s) = True" | "reads_only Get_connections = True"
| "reads_only Get_new_connection = True" | "reads_only (Get_connection i) = True" | "reads_only Get_swaps = True"
| "reads_only (Get_history b) = True" | "reads_only Get_faq = True" | "reads_only Get_send = True" | "reads_only c = False"

subsection \<open>Answers\<close>

record confirm_form =
  cf_rail :: rail
  cf_destination :: string
  cf_amountField :: string
  cf_isMax :: bool
  cf_shown :: int
  cf_fee :: int
  cf_total :: int

record exit_line =
  xl_vtxo :: vault_vtxo
  xl_ready :: bool
  xl_estimate :: "exit_estimate option"
  xl_op :: "exit_op option"

datatype page =
    Setup_page "string option"
  | Degraded_page vault_stats
  | Dashboard_page "string option" nat
  | Exit_page "exit_line list" "exit_dest option" exit_summary
  | Vtxo_page exit_stepper "exit_estimate option" "string option"
  | Step_data step_probe
  | Connections_page "connection list" "connection list" "(nat \<times> int) list"
  | Connection_form_page "string option"
  | Connection_made nat
  | Connection_page connection int "tx_row list"
  | Swaps_page "swap_row list" "boltz_swap list"
  | Refund_result "err + string \<times> int"
  | History_shown history_page bool
  | Faq_page
  | Send_page "offboard_row list"
  | Confirm_page confirm_form
  | Clink_failed resolve_result
  | Dust_change dust_change
  | Result_page string bool string
  | Submitted_page
  | Exit_failed string err

text \<open>\<open>Later\<close>: the request waits on; its answer comes with a later step. \<open>Hangs\<close>: the decoder of an offer loops.\<close>

datatype web_response = Page nat page | Plain nat string | Redirect string | Later | Hangs

subsection \<open>State and surroundings\<close>

record offboard_job =
  jb_id :: nat
  jb_address :: string
  jb_gross :: "int option"

record web_state =
  wb_boot :: bridge_boot
  wb_service :: service_state
  wb_engine :: engine
  wb_subs :: "string list"
  wb_offerOpen :: bool
  wb_jobs :: "offboard_job list"
  wb_told :: "(nat \<times> bool) list"

record web_info =
  wi_pay :: pay_info
  wi_fee :: "int \<Rightarrow> int"

record web_world =
  ww_port :: string
  ww_url :: "string \<Rightarrow> web_url option"
  ww_keys :: key_lib
  ww_overrides :: overrides
  ww_random :: "nat \<Rightarrow> bytes"
  ww_now :: "nat \<Rightarrow> int"
  ww_errText :: "err \<Rightarrow> string"
  ww_exit :: exit_world
  ww_nostr :: nostr_world
  ww_outboxRelays :: "nat \<Rightarrow> string list"
  ww_connectionKeys :: "nat \<Rightarrow> string \<times> string"
  ww_codecs :: codecs
  ww_pub :: string
  ww_parseUrl :: url_parser
  ww_usable :: "string \<Rightarrow> bool"
  ww_replies :: "nat \<Rightarrow> offer_ask \<Rightarrow> resolve_event list"
  ww_isArk :: "string \<Rightarrow> bool"
  ww_describe :: "string \<Rightarrow> string option"
  ww_rd :: "rat \<Rightarrow> rat"
  ww_fees :: "nat \<Rightarrow> err + swap_fees"
  ww_info :: "nat \<Rightarrow> err + web_info"
  ww_vtxos :: "nat \<Rightarrow> err + vcoin list"
  ww_coins :: coin_lib
  ww_settle :: "nat \<Rightarrow> err + string"
  ww_slow :: "nat \<Rightarrow> bool"

definition ww_pay :: "web_world \<Rightarrow> pay_world" where "ww_pay x = nx_pay (ww_nostr x)"
definition ww_world :: "web_world \<Rightarrow> world" where "ww_world x = pw_world (ww_pay x)"
definition ww_sdk :: "web_world \<Rightarrow> sdk" where "ww_sdk x = w_sdk (ww_world x)"
definition ww_sizes :: "web_world \<Rightarrow> size_lib" where "ww_sizes x = k_sizes (ww_sdk x)"

type_synonym 'a web = "(err, web_state, 'a) eff"

definition on_service :: "'a service \<Rightarrow> 'a web" where
  "on_service m s = (case m (wb_service s) of (r, v) \<Rightarrow> (r, s\<lparr>wb_service := v\<rparr>))"

definition on_store :: "'a bridge \<Rightarrow> 'a web" where
  "on_store m = on_service (on_db m)"

definition store_of :: "web_state \<Rightarrow> db" where
  "store_of s = sv_db (wb_service s)"

text \<open>The engine works on the same store.\<close>

definition on_engine :: "(engine \<Rightarrow> engine) \<Rightarrow> unit web" where
  "on_engine f s = (let e = f ((wb_engine s)\<lparr>e_db := store_of s\<rparr>) in
     (Inr (), s\<lparr>wb_engine := e, wb_service := (wb_service s)\<lparr>sv_db := e_db e\<rparr>\<rparr>))"

definition web_now :: "web_world \<Rightarrow> int web" where
  "web_now x = on_store (clock_ms (ww_now x))"

text \<open>\<open>try ... catch\<close> around an awaited call, as a value.\<close>

definition attempt :: "('e, 's, 'a) eff \<Rightarrow> ('f, 's, 'e + 'a) eff" where
  "attempt m s = (case m s of (r, t) \<Rightarrow> (Inr r, t))"

subsection \<open>Guards\<close>

definition strip_brackets :: "string \<Rightarrow> string" where
  "strip_brackets h = (let a = (case h of c # cs \<Rightarrow> if c = CHR ''['' then cs else h | [] \<Rightarrow> []) in
     if a \<noteq> [] \<and> last a = CHR '']'' then butlast a else a)"

definition isLoopbackHostname :: "string \<Rightarrow> bool" where
  "isLoopbackHostname h \<longleftrightarrow> strip_brackets h \<in> {''127.0.0.1'', ''localhost'', ''::1''}"

definition isLoopbackOrigin :: "web_world \<Rightarrow> string option \<Rightarrow> bool" where
  "isLoopbackOrigin x origin = (case origin of None \<Rightarrow> True
   | Some o' \<Rightarrow> (case ww_url x o' of None \<Rightarrow> False | Some u \<Rightarrow> isLoopbackHostname (wu_hostname u) \<and> wu_port u = ww_port x))"

definition loopbackHostHeader :: "web_world \<Rightarrow> string option \<Rightarrow> bool" where
  "loopbackHostHeader x host = (case host of None \<Rightarrow> True
   | Some h \<Rightarrow> (case ww_url x (''http://'' @ h) of None \<Rightarrow> False | Some u \<Rightarrow> isLoopbackHostname (wu_hostname u)))"

definition csrfGuard :: "web_world \<Rightarrow> web_request \<Rightarrow> web_response option" where
  "csrfGuard x req =
     (if \<not> isLoopbackOrigin x (wr_origin req) then Some (Page 403 (Result_page ''guard'' False ''cross-origin request rejected (CSRF guard)''))
      else if \<not> loopbackHostHeader x (wr_host req) then Some (Page 403 (Result_page ''guard'' False ''unexpected Host header (DNS-rebinding guard)''))
      else None)"

definition readGuard :: "web_world \<Rightarrow> web_request \<Rightarrow> web_response option" where
  "readGuard x req = (if \<not> loopbackHostHeader x (wr_host req) then Some (Plain 403 ''unexpected Host header'') else None)"

definition mode_of :: "web_state \<Rightarrow> app_mode" where
  "mode_of s = bo_mode (wb_boot s)"

definition requireReady :: "web_response web \<Rightarrow> web_response web" where
  "requireReady m = andthen (reading mode_of) (\<lambda>mode. case mode of
     Setup_mode \<Rightarrow> ret (Redirect ''/setup'')
   | Degraded_mode e t0 n \<Rightarrow> ret (Redirect ''/'')
   | Ready_mode srv key \<Rightarrow> m)"

text \<open>The exit routes work in both other modes.\<close>

definition past_setup :: "web_response web \<Rightarrow> web_response web" where
  "past_setup m = andthen (reading mode_of) (\<lambda>mode. case mode of Setup_mode \<Rightarrow> ret (Redirect ''/setup'') | _ \<Rightarrow> m)"

definition with_vout :: "nat option \<Rightarrow> (nat \<Rightarrow> web_response web) \<Rightarrow> web_response web" where
  "with_vout vout f = (case vout of None \<Rightarrow> ret (Plain 400 ''bad vout'') | Some n \<Rightarrow> f n)"

subsection \<open>Fields\<close>

definition field :: "string option \<Rightarrow> string" where
  "field raw = (case raw of None \<Rightarrow> [] | Some s \<Rightarrow> s)"

text \<open>A filled-in text field, trimmed.\<close>

definition filled :: "string option \<Rightarrow> string option" where
  "filled raw = (let s = js_trim (field raw) in if s = [] then None else Some s)"

definition parseSats :: "string \<Rightarrow> int option" where
  "parseSats raw = (let s = js_trim raw in
     case js_parseInt s of None \<Rightarrow> None | Some n \<Rightarrow> if n \<le> 0 \<or> show_int n \<noteq> s then None else Some n)"

definition parse_budget :: "string option \<Rightarrow> string + int option" where
  "parse_budget raw = (case filled raw of None \<Rightarrow> Inr None
   | Some s \<Rightarrow> (case js_parseInt s of
       None \<Rightarrow> Inl ''budget must be a non-negative integer (sats)''
     | Some n \<Rightarrow> if n < 0 \<or> show_int n \<noteq> s then Inl ''budget must be a non-negative integer (sats)'' else Inr (Some (n * 1000))))"

definition parse_renewal :: "int option \<Rightarrow> string option \<Rightarrow> string + budget_renewal" where
  "parse_renewal budget raw =
     (if budget \<noteq> None \<and> truthy raw
      then (case parseBudgetRenewal (field raw) of
          None \<Rightarrow> Inl ''budget renewal must be one of: never, daily, weekly, monthly'' | Some r \<Rightarrow> Inr r)
      else Inr Never)"

subsection \<open>Exit routes\<close>

definition exit_url :: "string \<Rightarrow> nat \<Rightarrow> string" where
  "exit_url txid n = ''/exit/'' @ txid @ ''/'' @ show_nat n"

definition exit_action :: "string \<Rightarrow> string \<Rightarrow> 'a bridge \<Rightarrow> web_response web" where
  "exit_action label url m = andthen (attempt (on_store m)) (\<lambda>r. case r of
     Inl e \<Rightarrow> ret (Page 400 (Exit_failed label e)) | Inr y \<Rightarrow> ret (Redirect url))"

definition post_start :: "web_world \<Rightarrow> string \<Rightarrow> nat \<Rightarrow> web_response web" where
  "post_start x txid n = andthen (web_now x) (\<lambda>now.
     andthen (on_engine (startExit now (txid, n))) (\<lambda>u. ret (Redirect (exit_url txid n))))"

definition post_forget :: "string \<Rightarrow> nat \<Rightarrow> web_response web" where
  "post_forget txid n = andthen (reading (\<lambda>s. getVaultVtxo (store_of s) txid n)) (\<lambda>row. case row of
     None \<Rightarrow> ret (Plain 404 ''no such vtxo in the exit vault'')
   | Some v \<Rightarrow> (if v_quarantinedAt v = None then ret (Plain 409 ''only quarantined vtxos can be forgotten'')
       else andthen (on_store (modify (\<lambda>d. snd (gcOrphanProofs (snd (removeVtxo txid n d)))))) (\<lambda>u. ret (Redirect ''/exit''))))"

definition sweep_address :: "string option \<Rightarrow> exit_dest option \<Rightarrow> err + string option" where
  "sweep_address dest row =
     (if dest = Some ''verified''
      then (case row of None \<Rightarrow> Inl (Error ''no challenge-verified destination on file'')
         | Some r \<Rightarrow> if e_verifiedAt r = None then Inl (Error ''no challenge-verified destination on file'') else Inr (Some (e_address r)))
      else Inr None)"

text \<open>The call of the engine up to its first await; \<open>Sweep_done\<close> and \<open>Sweep_failed\<close> of the engine are how it goes on.\<close>

definition ask_sweep :: "web_world \<Rightarrow> string \<times> nat \<Rightarrow> string \<Rightarrow> engine \<Rightarrow> engine" where
  "ask_sweep x k dest e = (case engine_do (ww_exit x) 0 (Ask_sweep [k] dest) e of None \<Rightarrow> e | Some e' \<Rightarrow> e')"

definition post_sweep :: "web_world \<Rightarrow> string \<Rightarrow> nat \<Rightarrow> string option \<Rightarrow> web_response web" where
  "post_sweep x txid n dest = andthen (reading (\<lambda>s. sweep_address dest (destRow (store_of s)))) (\<lambda>r. case r of
     Inl e \<Rightarrow> ret (Page 400 (Exit_failed ''Sweep'' e))
   | Inr address \<Rightarrow> andthen (reading (\<lambda>s. sweepable_now (store_of s) (txid, n))) (\<lambda>ok.
       if \<not> ok then ret (Page 400 (Exit_failed ''Sweep'' (Error ''not sweepable'')))
       else andthen (on_engine (ask_sweep x (txid, n) (or_else address (x_fuelAddress (ww_exit x))))) (\<lambda>u. ret Later)))"

definition sweep_answer :: "string \<Rightarrow> nat \<Rightarrow> err + unit \<Rightarrow> web_response" where
  "sweep_answer txid n res = (case res of Inl e \<Rightarrow> Page 400 (Exit_failed ''Sweep'' e) | Inr u \<Rightarrow> Redirect (exit_url txid n))"

definition dest_answer :: "string \<Rightarrow> string + exit_dest \<Rightarrow> web_response" where
  "dest_answer label res = (case res of Inl reason \<Rightarrow> Page 400 (Exit_failed label (Error reason)) | Inr row \<Rightarrow> Redirect ''/exit'')"

definition post_dest :: "web_world \<Rightarrow> string option \<Rightarrow> web_response web" where
  "post_dest x address = andthen (on_store (issueDestChallenge (ww_exit x) (js_trim (field address)))) (\<lambda>r. ret (dest_answer ''Challenge'' r))"

definition post_dest_verify :: "web_world \<Rightarrow> string option \<Rightarrow> web_response web" where
  "post_dest_verify x sig = andthen (on_store (submitDestSignature (ww_exit x) (field sig))) (\<lambda>r. ret (dest_answer ''Signature verification'' r))"

definition exit_row :: "web_world \<Rightarrow> int \<Rightarrow> db \<Rightarrow> vault_vtxo \<Rightarrow> exit_line" where
  "exit_row x rate d v = \<lparr>xl_vtxo = v, xl_ready = isVtxoExitReady d (v_txid v) (v_vout v),
     xl_estimate = priced (ww_sizes x) d (v_txid v) (v_vout v) (of_int rate), xl_op = getExitOp d (v_txid v) (v_vout v)\<rparr>"

definition get_exit :: "web_world \<Rightarrow> web_response web" where
  "get_exit x = andthen (on_store (nextBlockRate (ww_exit x))) (\<lambda>rate. reading (\<lambda>s. let d = store_of s in
     Page 200 (Exit_page (map (exit_row x rate d) (listVaultVtxos d)) (destRow d) (exitSummary d))))"

definition verified_dest :: "db \<Rightarrow> string option" where
  "verified_dest d = (case destRow d of None \<Rightarrow> None | Some r \<Rightarrow> if e_verifiedAt r = None then None else Some (e_address r))"

definition get_vtxo :: "web_world \<Rightarrow> string \<Rightarrow> nat \<Rightarrow> web_response web" where
  "get_vtxo x txid n = andthen (on_store (nextBlockRate (ww_exit x))) (\<lambda>rate. reading (\<lambda>s. let d = store_of s in
     case buildExitStepper (ww_sizes x) (ww_exit x) d txid n (of_int rate) of
       None \<Rightarrow> Plain 404 ''no such vtxo in the exit vault''
     | Some st \<Rightarrow> Page 200 (Vtxo_page st (priced (ww_sizes x) d txid n (of_int rate)) (verified_dest d))))"

definition get_step :: "web_world \<Rightarrow> string \<Rightarrow> nat \<Rightarrow> string \<Rightarrow> web_response web" where
  "get_step x txid n step = andthen (attempt (on_store (await (x_providers (ww_exit x))))) (\<lambda>r. case r of
     Inl e \<Rightarrow> ret (Plain 503 ''esplora unavailable'')
   | Inr u \<Rightarrow> andthen (on_store (probeExitStep (ww_sizes x) (ww_exit x) txid n step)) (\<lambda>pr. case pr of
       None \<Rightarrow> ret (Plain 404 ''no such step'') | Some p \<Rightarrow> ret (Page 200 (Step_data p))))"

end
