(* ===== verification/Web_Routes.thy ===== *)
theory Web_Routes
  imports Web_Server
begin

text \<open>
  The routes of \<open>src/web/server.ts\<close> that need a running wallet, connections, offers, refunds, history and the three
  rails of a send with their review, and the dispatch of every request behind its guard.
\<close>

subsection \<open>Connections, offers, swaps, history\<close>

definition newest_connections :: "db \<Rightarrow> connection list" where
  "newest_connections d = js_sort (\<lambda>a b. int (n_id b) - int (n_id a)) (conns d)"

definition listAllConnections :: "db \<Rightarrow> connection list \<times> connection list" where
  "listAllConnections d = (filter (\<lambda>c. n_revokedAt c = None) (newest_connections d), filter (\<lambda>c. n_revokedAt c \<noteq> None) (newest_connections d))"

definition spent_now :: "web_world \<Rightarrow> int \<Rightarrow> db \<Rightarrow> connection \<Rightarrow> int" where
  "spent_now x now d c = cycleSpentMsat (nx_clock (ww_nostr x)) d (n_id c) (n_budgetRenewal c) now"

definition get_connections :: "web_world \<Rightarrow> web_response web" where
  "get_connections x = andthen (web_now x) (\<lambda>now. reading (\<lambda>s. let d = store_of s; (active, revoked) = listAllConnections d in
     Page 200 (Connections_page active revoked (map (\<lambda>c. (n_id c, spent_now x now d c)) active))))"

definition get_connection :: "web_world \<Rightarrow> nat option \<Rightarrow> web_response web" where
  "get_connection x i = (case i of None \<Rightarrow> ret (Plain 400 ''Invalid id'')
   | Some n \<Rightarrow> andthen (web_now x) (\<lambda>now. reading (\<lambda>s. let d = store_of s in case findConnectionById d n of
       None \<Rightarrow> Plain 404 ''Not found''
     | Some c \<Rightarrow> Page 200 (Connection_page c (spent_now x now d c)
         (take 200 (js_sort (\<lambda>a b. t_createdAt b - t_createdAt a) (filter (\<lambda>r. t_connection r = n) (txs d))))))))"

text \<open>The keys of the two sides are generated on the spot.\<close>

definition register :: "web_world \<Rightarrow> connection \<Rightarrow> unit web" where
  "register x c = andthen (reading wb_subs) (\<lambda>subs.
     andthen (on_service (registerConnection (ww_nostr x) c subs)) (\<lambda>subs'. modify (\<lambda>s. s\<lparr>wb_subs := subs'\<rparr>)))"

definition post_connection :: "web_world \<Rightarrow> connection_form \<Rightarrow> web_response web" where
  "post_connection x f = (case parse_budget (fl_budget f) of
     Inl reason \<Rightarrow> ret (Page 400 (Connection_form_page (Some reason)))
   | Inr budget \<Rightarrow> (case parse_renewal budget (fl_renewal f) of
       Inl reason \<Rightarrow> ret (Page 400 (Connection_form_page (Some reason)))
     | Inr renewal \<Rightarrow>
         andthen (web_now x) (\<lambda>now.
         andthen (reading (\<lambda>s. tick (store_of s))) (\<lambda>t.
         andthen (on_store (createConnection (filled (fl_label f)) (ww_outboxRelays x t) budget (Some renewal)
           (fst (ww_connectionKeys x t)) (snd (ww_connectionKeys x t)) now)) (\<lambda>c.
         andthen (register x c) (\<lambda>u. ret (Page 200 (Connection_made (n_id c)))))))))"

definition post_revoke :: "web_world \<Rightarrow> nat option \<Rightarrow> web_response web" where
  "post_revoke x i = (case i of None \<Rightarrow> ret (Plain 400 ''Invalid id'')
   | Some n \<Rightarrow> andthen (reading (\<lambda>s. findConnectionById (store_of s) n)) (\<lambda>c.
       andthen (web_now x) (\<lambda>now.
       andthen (on_store (modify (revokeConnection now n))) (\<lambda>u.
       andthen (case c of None \<Rightarrow> ret ()
         | Some c \<Rightarrow> modify (\<lambda>s. s\<lparr>wb_subs := unregisterConnection (n_servicePubkey c) (wb_subs s)\<rparr>)) (\<lambda>u.
       ret (Redirect ''/connections''))))))"

text \<open>\<open>regenerate\<close> closes its subscription before it mints.\<close>

definition post_regenerate :: "web_world \<Rightarrow> web_response web" where
  "post_regenerate x =
     andthen (modify (\<lambda>s. s\<lparr>wb_offerOpen := False\<rparr>)) (\<lambda>u.
     andthen (reading (\<lambda>s. tick (store_of s))) (\<lambda>t.
     (case mint_offer (ww_codecs x) (normalizeRelayUrl (ww_parseUrl x)) (ww_pub x) (ww_outboxRelays x t) of
        Inl e \<Rightarrow> throw (Error e)
      | Inr (code, relay) \<Rightarrow> andthen (on_service (saveNoffer code)) (\<lambda>u.
          andthen (modify (\<lambda>s. s\<lparr>wb_offerOpen := True\<rparr>)) (\<lambda>u. ret (Redirect ''/''))))))"

text \<open>The outcome of a refund goes back in a redirect.\<close>

definition post_refund :: "web_world \<Rightarrow> string option \<Rightarrow> web_response web" where
  "post_refund x swapId =
     (if field swapId = [] then ret (Page 303 (Refund_result (Inl (Error ''swapId is required''))))
      else andthen (attempt (on_store (refundAtomicSend (ww_world x) (field swapId)))) (\<lambda>r. ret (Page 303 (Refund_result
        (case r of Inl e \<Rightarrow> Inl e | Inr res \<Rightarrow> Inr (xr_txid res, xr_amount res))))))"

definition get_swaps :: "web_response web" where
  "get_swaps = reading (\<lambda>s. Page 200 (Swaps_page (repo_list (store_of s) 50)
     (getAllSwaps \<lparr>sf_id = None, sf_status = None, sf_kind = None, sf_desc = True\<rparr> (store_of s))))"

definition get_history :: "string option \<Rightarrow> web_response web" where
  "get_history before = andthen (on_store (modify syncHistoryFromSources)) (\<lambda>u. reading (\<lambda>s. let c = parseHistoryCursor before in
     Page 200 (History_shown (listHistoryPage (store_of s) c (Some 50)) (c = None))))"

definition get_home :: "web_world \<Rightarrow> web_response web" where
  "get_home x = andthen (reading mode_of) (\<lambda>mode. case mode of
     Degraded_mode e t0 n \<Rightarrow> andthen (web_now x) (\<lambda>now. reading (\<lambda>s. Page 200 (Degraded_page (vaultStats (store_of s) now 0))))
   | _ \<Rightarrow> requireReady (reading (\<lambda>s. Page 200 (Dashboard_page (sv_noffer (wb_service s)) (length (fst (listAllConnections (store_of s))))))))"

subsection \<open>The review of a send\<close>

record ln_preview =
  lp_amount :: "int option"
  lp_fee :: int
  lp_total :: int

definition lightningPreview :: "sdk \<Rightarrow> (rat \<Rightarrow> rat) \<Rightarrow> swap_fees \<Rightarrow> string \<Rightarrow> err + ln_preview" where
  "lightningPreview k rd fees invoice = (case k_decodeInvoice k invoice of Inl e \<Rightarrow> Inl e
   | Inr iv \<Rightarrow> (let amount = or_else (iv_amountSats iv) 0; fee = submarineFeeSat rd fees amount in
       Inr \<lparr>lp_amount = iv_amountSats iv, lp_fee = fee, lp_total = amount + fee\<rparr>))"

definition review_invoice :: "web_world \<Rightarrow> string \<Rightarrow> rail \<Rightarrow> string \<Rightarrow> web_response web" where
  "review_invoice x label rail invoice = andthen (attempt (on_store (await (ww_fees x)))) (\<lambda>r.
     (case (case r of Inl e \<Rightarrow> Inl e | Inr fees \<Rightarrow> lightningPreview (ww_sdk x) (ww_rd x) fees invoice) of
        Inl e \<Rightarrow> ret (Page 400 (Result_page label False (ww_errText x e)))
      | Inr p \<Rightarrow> (if lp_amount p = None \<or> the (lp_amount p) \<le> 0
          then ret (Page 400 (Result_page label False ''0-amount invoice''))
          else ret (Page 200 (Confirm_page \<lparr>cf_rail = rail, cf_destination = invoice, cf_amountField = [], cf_isMax = False,
            cf_shown = the (lp_amount p), cf_fee = lp_fee p, cf_total = lp_total p\<rparr>)))))"

text \<open>\<open>None\<close>: the decoder loops.\<close>

definition requestNofferInvoice :: "web_world \<Rightarrow> string \<Rightarrow> int option \<Rightarrow> resolve_result option web" where
  "requestNofferInvoice x noffer amount = (case ask_offer (ww_codecs x) (ww_parseUrl x) (ww_usable x) noffer amount of
     None \<Rightarrow> ret None
   | Some Threw \<Rightarrow> throw (Error ''cannot encrypt to this key'')
   | Some (Settled_at_once r) \<Rightarrow> ret (Some r)
   | Some (Asking a) \<Rightarrow> on_store (await (\<lambda>t. Inr (resolve_wait a (ww_replies x t a @ [Timer])))))"

definition clink_answer :: "web_world \<Rightarrow> resolve_result option \<Rightarrow> web_response web" where
  "clink_answer x res = (case res of None \<Rightarrow> ret Hangs
   | Some (Resolved b) \<Rightarrow> review_invoice x ''clink'' Clink b
   | Some r \<Rightarrow> ret (Page 400 (Clink_failed r)))"

text \<open>An offer that moved is asked once more where it says.\<close>

definition review_clink :: "web_world \<Rightarrow> string \<Rightarrow> string \<Rightarrow> web_response web" where
  "review_clink x dest amountRaw = (case nofferDecode (ww_codecs x) dest of
     None \<Rightarrow> ret Hangs
   | Some (Inl e) \<Rightarrow> ret (Page 400 (Clink_failed (Bad_noffer e)))
   | Some (Inr p) \<Rightarrow>
      (if op_priceType p \<noteq> Fixed \<and> parseSats amountRaw = None
       then ret (Page 400 (Result_page ''clink'' False ''amount is required for this offer (sats)''))
       else (let amount = (if op_priceType p \<noteq> Fixed then parseSats amountRaw else None) in
         andthen (requestNofferInvoice x dest amount) (\<lambda>res. case res of
           Some (Clink_error code msg latest) \<Rightarrow>
             (if code = 3 \<and> truthy latest
              then andthen (requestNofferInvoice x (field latest) amount) (clink_answer x)
              else clink_answer x res)
         | _ \<Rightarrow> clink_answer x res))))"

definition round_coins :: "web_world \<Rightarrow> (web_info \<times> vtxo_buckets) web" where
  "round_coins x = on_store (andthen (await (ww_info x)) (\<lambda>info. andthen (await (ww_vtxos x)) (\<lambda>vs.
     ret (info, classifyVtxos (ww_coins x) vs (pi_dust (wi_pay info))))))"

definition review_onchain :: "web_world \<Rightarrow> string \<Rightarrow> string \<Rightarrow> bool \<Rightarrow> web_response web" where
  "review_onchain x dest amountRaw isMax = andthen (round_coins x) (\<lambda>(info, b).
     let fee = wi_fee info; dust = pi_dust (wi_pay info) in
     if isMax
     then (case offboardMaxSat fee dust b of
         None \<Rightarrow> ret (Page 400 (Result_page ''onchain'' False ''Total minus fee is below dust''))
       | Some m \<Rightarrow> ret (Page 200 (Confirm_page \<lparr>cf_rail = Onchain, cf_destination = dest, cf_amountField = show_int m, cf_isMax = True,
           cf_shown = m, cf_fee = fee (vb_roundTotalSat b), cf_total = vb_roundTotalSat b\<rparr>)))
     else (case parseSats amountRaw of
         None \<Rightarrow> ret (Page 400 (Result_page ''onchain'' False ''amount must be a positive integer (sats)''))
       | Some recipient \<Rightarrow> (case offboardDustChange fee dust b recipient of
           Some hit \<Rightarrow> ret (Page 400 (Dust_change hit))
         | None \<Rightarrow> ret (Page 200 (Confirm_page \<lparr>cf_rail = Onchain, cf_destination = dest, cf_amountField = js_trim amountRaw, cf_isMax = False,
             cf_shown = recipient, cf_fee = fee recipient, cf_total = recipient + fee recipient\<rparr>)))))"

definition form_max :: "send_form \<Rightarrow> bool" where
  "form_max f \<longleftrightarrow> field (fm_max f) = ''1''"

definition post_send :: "web_world \<Rightarrow> send_form \<Rightarrow> web_response web" where
  "post_send x f = (let dest = js_trim (field (fm_destination f)); amountRaw = field (fm_amount f) in
     case classifyDestination (ww_sdk x) (ww_isArk x) dest of
       None \<Rightarrow> ret (Page 400 (Result_page ''send'' False ''destination is required''))
     | Some Clink \<Rightarrow> review_clink x dest amountRaw
     | Some Lightning \<Rightarrow> review_invoice x ''lightning'' Lightning dest
     | Some Ark \<Rightarrow> (case parseSats amountRaw of
         None \<Rightarrow> ret (Page 400 (Result_page ''ark'' False ''amount must be a positive integer (sats)''))
       | Some amount \<Rightarrow> ret (Page 200 (Confirm_page \<lparr>cf_rail = Ark, cf_destination = dest, cf_amountField = show_int amount,
           cf_isMax = form_max f, cf_shown = amount, cf_fee = 0, cf_total = amount\<rparr>)))
     | Some Onchain \<Rightarrow> review_onchain x dest amountRaw (form_max f))"

subsection \<open>The send\<close>

definition ln_hash :: "invoice_data \<Rightarrow> string" where
  "ln_hash iv = field (iv_paymentHash iv)"

definition ln_begin :: "web_world \<Rightarrow> string \<Rightarrow> invoice_data \<Rightarrow> unit web" where
  "ln_begin x invoice iv = andthen (web_now x) (\<lambda>now. on_store (modify
     (recordWebLnPending now (ln_hash iv) (or_else (iv_amountSats iv) 0 * 1000) (ww_describe x invoice))))"

definition ln_end :: "web_world \<Rightarrow> invoice_data \<Rightarrow> err + ln_result \<Rightarrow> web_response web" where
  "ln_end x iv res = andthen (web_now x) (\<lambda>now. case res of
     Inr r \<Rightarrow> andthen (on_store (modify (settleWebLn now (ln_hash iv) (max 0 (lr_amount r - or_else (iv_amountSats iv) 0) * 1000) (Some (lr_txid r)))))
       (\<lambda>u. ret (Page 200 (Result_page ''lightning'' True (lr_txid r))))
   | Inl e \<Rightarrow> andthen (on_store (modify (failWebLn now (ln_hash iv) (ww_errText x e))))
       (\<lambda>u. ret (Page 500 (Result_page ''lightning'' False (ww_errText x e)))))"

definition confirm_ln :: "web_world \<Rightarrow> string \<Rightarrow> web_response web" where
  "confirm_ln x invoice = (case k_decodeInvoice (ww_sdk x) invoice of
     Inl e \<Rightarrow> ret (Page 400 (Result_page ''lightning'' False (ww_errText x e)))
   | Inr iv \<Rightarrow> andthen (ln_begin x invoice iv) (\<lambda>u.
       andthen (attempt (on_store (sendLightning (ww_pay x) (\<lambda>i. ret ()) invoice))) (ln_end x iv)))"

definition send_ark :: "web_world \<Rightarrow> string \<Rightarrow> int \<Rightarrow> web_response web" where
  "send_ark x dest amount = andthen (attempt (on_store (andthen (await (ww_info x)) (\<lambda>info.
         sendSelected (ww_pay x) (wi_pay info) dest amount None)))) (\<lambda>r.
       andthen (web_now x) (\<lambda>now. (case r of
         Inr txid \<Rightarrow> andthen (on_store (modify (recordArkSend now amount dest (Inr txid)))) (\<lambda>u. ret (Page 200 (Result_page ''ark'' True txid)))
       | Inl e \<Rightarrow> andthen (on_store (modify (recordArkSend now amount dest (Inl (ww_errText x e)))))
           (\<lambda>u. ret (Page 500 (Result_page ''ark'' False (ww_errText x e)))))))"

definition confirm_ark :: "web_world \<Rightarrow> string \<Rightarrow> string \<Rightarrow> web_response web" where
  "confirm_ark x dest amountRaw = (case parseSats amountRaw of
     None \<Rightarrow> ret (Page 400 (Result_page ''ark'' False ''amount must be a positive integer (sats)''))
   | Some amount \<Rightarrow> send_ark x dest amount)"

text \<open>Rows first, then the background job in the same turn.\<close>

definition submit_offboard :: "web_world \<Rightarrow> string \<Rightarrow> bool \<Rightarrow> int \<Rightarrow> int \<Rightarrow> int option \<Rightarrow> web_response web" where
  "submit_offboard x dest isMax recipient fee gross = andthen (web_now x) (\<lambda>now.
     andthen (on_store (\<lambda>d. case createOffboard now dest recipient fee isMax d of (r, d') \<Rightarrow>
       (Inr r, recordOffboard (f_id r) recipient fee dest (f_createdAt r) d'))) (\<lambda>r.
     andthen (modify (\<lambda>s. s\<lparr>wb_jobs := wb_jobs s @ [\<lparr>jb_id = f_id r, jb_address = dest, jb_gross = gross\<rparr>]\<rparr>)) (\<lambda>u.
     ret (Page 200 Submitted_page))))"

definition confirm_onchain :: "web_world \<Rightarrow> string \<Rightarrow> string \<Rightarrow> bool \<Rightarrow> web_response web" where
  "confirm_onchain x dest amountRaw isMax = andthen (round_coins x) (\<lambda>(info, b).
     let fee = wi_fee info; dust = pi_dust (wi_pay info) in
     if isMax
     then (case offboardMaxSat fee dust b of
         None \<Rightarrow> ret (Page 400 (Result_page ''onchain'' False ''Total minus fee is below dust''))
       | Some m \<Rightarrow> submit_offboard x dest True m (fee (vb_roundTotalSat b)) None)
     else (case parseSats amountRaw of
         None \<Rightarrow> ret (Page 400 (Result_page ''onchain'' False ''amount must be a positive integer (sats)''))
       | Some recipient \<Rightarrow> (case offboardDustChange fee dust b recipient of
           Some hit \<Rightarrow> ret (Page 400 (Dust_change hit))
         | None \<Rightarrow> submit_offboard x dest False recipient (fee recipient) (Some (recipient + fee recipient)))))"

definition post_confirm :: "web_world \<Rightarrow> send_form \<Rightarrow> web_response web" where
  "post_confirm x f = (let dest = js_trim (field (fm_destination f)); amountRaw = field (fm_amount f) in
     case classifyDestination (ww_sdk x) (ww_isArk x) dest of
       None \<Rightarrow> ret (Page 400 (Result_page ''send'' False ''destination is required''))
     | Some Lightning \<Rightarrow> confirm_ln x dest
     | Some Ark \<Rightarrow> confirm_ark x dest amountRaw
     | _ \<Rightarrow> confirm_onchain x dest amountRaw (form_max f))"

text \<open>The round of an offboard commits or fails. \<open>wb_told\<close> is what the operator was told.\<close>

definition offboard_end :: "web_world \<Rightarrow> nat \<Rightarrow> err + string \<Rightarrow> unit web" where
  "offboard_end x i res = andthen (reading wb_jobs) (\<lambda>jobs. if length jobs \<le> i then ret ()
     else andthen (web_now x) (\<lambda>now.
       andthen (on_store (modify (case res of Inr txid \<Rightarrow> markOffboardSettled now (jb_id (jobs ! i)) txid
         | Inl e \<Rightarrow> markOffboardFailed now (jb_id (jobs ! i)) (ww_errText x e)))) (\<lambda>u.
       modify (\<lambda>s. s\<lparr>wb_jobs := take i jobs @ drop (Suc i) jobs,
         wb_told := wb_told s @ [(jb_id (jobs ! i), case res of Inr t \<Rightarrow> True | Inl e \<Rightarrow> False)]\<rparr>))))"

definition holds_text :: "string \<Rightarrow> string \<Rightarrow> bool" where
  "holds_text p s \<longleftrightarrow> list_ex (\<lambda>n. take (length p) (drop n (map lower_char s)) = p) [0..<Suc (length s)]"

text \<open>Consolidation, then the wear pockets; the page waits four seconds for it.\<close>

definition consolidate :: "web_world \<Rightarrow> string bridge" where
  "consolidate x = andthen (await (ww_settle x)) (\<lambda>txid.
     andthen (attempt (andthen (await (ww_info x)) (\<lambda>info. splitHotPocket (ww_pay x) (wi_pay info)))) (\<lambda>r :: err + string option. ret txid))"

definition post_refresh :: "web_world \<Rightarrow> web_response web" where
  "post_refresh x = andthen (reading (\<lambda>s. ww_slow x (tick (store_of s)))) (\<lambda>slow.
     andthen (attempt (on_store (consolidate x))) (\<lambda>r.
       if slow then ret (Page 200 Submitted_page)
       else (case r of
         Inr txid \<Rightarrow> ret (Page 200 (Result_page ''Refresh'' True txid))
       | Inl e \<Rightarrow> (if holds_text ''intent deferred'' (ww_errText x e)
           then ret (Page 200 (Result_page ''Refresh'' True ''nothing to consolidate''))
           else ret (Page 400 (Result_page ''Refresh'' False (ww_errText x e)))))))"

subsection \<open>Dispatch\<close>

definition post_boost :: "web_world \<Rightarrow> string \<Rightarrow> string \<Rightarrow> nat \<Rightarrow> web_response web" where
  "post_boost x txid step n = exit_action ''Boost'' (exit_url txid n) (boostStep (ww_exit x) txid n step)"

definition post_boost_sweep :: "web_world \<Rightarrow> string \<Rightarrow> nat \<Rightarrow> web_response web" where
  "post_boost_sweep x txid n = exit_action ''Boost'' (exit_url txid n) (boostSweep (ww_exit x) txid n)"

definition post_dest_clear :: "web_response web" where
  "post_dest_clear = andthen (on_store clearExitDest) (\<lambda>u. ret (Redirect ''/exit''))"

definition post_final_send :: "web_world \<Rightarrow> web_response web" where
  "post_final_send x = exit_action ''Final send'' ''/exit'' (finalSend (ww_exit x))"

definition post_final_boost :: "web_world \<Rightarrow> web_response web" where
  "post_final_boost x = exit_action ''Final-send boost'' ''/exit'' (boostFinalSend (ww_exit x))"

definition get_send :: "web_response web" where
  "get_send = reading (\<lambda>s. Page 200 (Send_page (listRecentOffboards 20 (store_of s))))"

definition post_setup :: "web_world \<Rightarrow> setup_form \<Rightarrow> web_response web" where
  "post_setup x form s = (case setup_begin (ww_keys x) (ww_overrides x) form (ww_random x (tick (store_of s))) (wb_boot s) of
     (answer, b) \<Rightarrow> (Inr (case answer of To_start \<Rightarrow> Redirect ''/'' | Refused reason \<Rightarrow> Page 400 (Setup_page (Some reason)) | Under_way \<Rightarrow> Later),
        s\<lparr>wb_boot := b\<rparr>))"

definition get_setup :: "web_response web" where
  "get_setup = andthen (reading mode_of) (\<lambda>mode. ret (if mode = Setup_mode then Page 200 (Setup_page None) else Redirect ''/''))"

fun web_route :: "web_world \<Rightarrow> web_call \<Rightarrow> web_response web" where
  "web_route x Get_setup = get_setup"
| "web_route x Get_home = get_home x"
| "web_route x Get_exit = past_setup (get_exit x)"
| "web_route x (Get_vtxo txid v) = past_setup (with_vout v (get_vtxo x txid))"
| "web_route x (Get_step txid v step) = andthen (reading mode_of) (\<lambda>mode. if mode = Setup_mode then ret (Plain 409 ''setup required'')
     else with_vout v (\<lambda>n. get_step x txid n step))"
| "web_route x Get_connections = requireReady (get_connections x)"
| "web_route x Get_new_connection = requireReady (ret (Page 200 (Connection_form_page None)))"
| "web_route x (Get_connection i) = requireReady (get_connection x i)"
| "web_route x Get_swaps = requireReady get_swaps"
| "web_route x (Get_history before) = requireReady (get_history before)"
| "web_route x Get_faq = past_setup (ret (Page 200 Faq_page))"
| "web_route x Get_send = requireReady get_send"
| "web_route x (Post_setup_form form) = post_setup x form"
| "web_route x (Post_boost txid v step) = past_setup (with_vout v (post_boost x txid step))"
| "web_route x (Post_boost_sweep txid v) = past_setup (with_vout v (post_boost_sweep x txid))"
| "web_route x (Post_start txid v) = past_setup (with_vout v (post_start x txid))"
| "web_route x (Post_forget txid v) = past_setup (with_vout v (post_forget txid))"
| "web_route x (Post_sweep txid v dest) = past_setup (with_vout v (\<lambda>n. post_sweep x txid n dest))"
| "web_route x (Post_dest address) = past_setup (post_dest x address)"
| "web_route x (Post_dest_verify sig) = past_setup (post_dest_verify x sig)"
| "web_route x Post_dest_clear = past_setup post_dest_clear"
| "web_route x Post_final_send = past_setup (post_final_send x)"
| "web_route x Post_final_boost = past_setup (post_final_boost x)"
| "web_route x (Post_connection f) = requireReady (post_connection x f)"
| "web_route x (Post_revoke i) = requireReady (post_revoke x i)"
| "web_route x Post_regenerate = requireReady (post_regenerate x)"
| "web_route x (Post_refund i) = requireReady (post_refund x i)"
| "web_route x (Post_send f) = requireReady (post_send x f)"
| "web_route x (Post_confirm f) = requireReady (post_confirm x f)"
| "web_route x Post_refresh = requireReady (post_refresh x)"

definition web_handle :: "web_world \<Rightarrow> web_request \<Rightarrow> web_call \<Rightarrow> web_response web" where
  "web_handle x req call = (case (if reads_only call then readGuard x req else csrfGuard x req) of
     Some denied \<Rightarrow> ret denied | None \<Rightarrow> web_route x call)"

end
