(* ===== verification/Web_Safety.thy ===== *)
theory Web_Safety
  imports Web_Routes Nostr_Safety Boot_Safety
begin

text \<open>
  What the operator's page can be made to do: nothing for a foreign page, nothing that the mode does not allow, nothing by looking
  or by reviewing; what is confirmed is what was reviewed; every offboard under way has its row. And what a second confirmation of a
  payment does to its record.
\<close>

subsection \<open>Looking changes nothing\<close>

definition reticked :: "nat \<Rightarrow> web_state \<Rightarrow> web_state" where
  "reticked n s = s\<lparr>wb_service := (wb_service s)\<lparr>sv_db := (store_of s)\<lparr>tick := n\<rparr>\<rparr>\<rparr>"

definition ticks :: "db \<Rightarrow> db \<Rightarrow> bool" where
  "ticks d e \<longleftrightarrow> e = d\<lparr>tick := tick e\<rparr>"

definition looks :: "web_state \<Rightarrow> web_state \<Rightarrow> bool" where
  "looks s t \<longleftrightarrow> t = reticked (tick (store_of t)) s"

lemma ticks_iff: "ticks d e \<longleftrightarrow> (\<exists>n. e = d\<lparr>tick := n\<rparr>)"
  by (auto simp: ticks_def)

lemma looks_iff: "looks s t \<longleftrightarrow> (\<exists>n. t = reticked n s)"
  by (auto simp: looks_def reticked_def store_of_def)

interpretation tks: progress ticks
proof
  show "ticks d d" for d by (simp add: ticks_def)
  show "ticks d e \<Longrightarrow> ticks e f \<Longrightarrow> ticks d f" for d e f by (auto simp: ticks_iff)
qed

interpretation lks: progress looks
proof
  show "looks s s" for s by (simp add: looks_def reticked_def store_of_def)
  show "looks s t \<Longrightarrow> looks t u \<Longrightarrow> looks s u" for s t u
    by (auto simp: looks_iff reticked_def store_of_def)
qed

lemma looks_on_store: "moves ticks m \<Longrightarrow> moves looks (on_store m)"
  unfolding moves_def
  by (auto simp: on_store_def on_service_def on_db_def looks_def reticked_def store_of_def ticks_def split: prod.split)
    (metis snd_conv)

lemma looks_attempt: "moves looks m \<Longrightarrow> moves looks (attempt m)"
  by (auto simp: moves_def attempt_def split: prod.split) (metis snd_conv)

lemma ticks_await: "moves ticks (await ask)"
  by (simp add: moves_def await_def ticks_def)

lemma ticks_clock: "moves ticks (clock_ms now)"
  by (simp add: clock_ms_def tks.moves_reading)

lemma ticks_rate: "moves ticks (nextBlockRate x)"
  unfolding nextBlockRate_def await_opt_def by (intro tks.moves_rules ticks_await)

lemma ticks_probe: "moves ticks (probeExitStep sz x txid n step)"
  unfolding probeExitStep_def await_opt_def
  by (auto intro!: tks.moves_rules ticks_await split: option.split)

lemma looks_now: "moves looks (web_now x)"
  unfolding web_now_def by (rule looks_on_store [OF ticks_clock])

lemmas looks_rules = lks.moves_basic lks.moves_andthen lks.moves_if looks_attempt looks_now
  looks_on_store [OF ticks_await] looks_on_store [OF ticks_rate] looks_on_store [OF ticks_probe]

lemma looks_ready: "moves looks m \<Longrightarrow> moves looks (requireReady m)"
  unfolding requireReady_def by (auto intro!: looks_rules split: app_mode.split)

lemma looks_past: "moves looks m \<Longrightarrow> moves looks (past_setup m)"
  unfolding past_setup_def by (auto intro!: looks_rules split: app_mode.split)

lemma looks_vout: "(\<And>n. moves looks (f n)) \<Longrightarrow> moves looks (with_vout v f)"
  unfolding with_vout_def by (auto intro!: looks_rules split: option.split)

lemma looks_pages:
  "moves looks get_setup" "moves looks (get_home x)" "moves looks (get_exit x)" "moves looks (get_vtxo x txid n)"
  "moves looks (get_step x txid n step)" "moves looks (get_connections x)" "moves looks (get_connection x i)" "moves looks get_swaps"
  "moves looks get_send"
  unfolding get_setup_def get_home_def get_exit_def get_vtxo_def get_step_def get_connections_def get_connection_def get_swaps_def get_send_def
  by (auto intro!: looks_rules looks_ready split: app_mode.split option.split sum.split)

definition is_history :: "web_call \<Rightarrow> bool" where
  "is_history call \<longleftrightarrow> (\<exists>b. call = Get_history b)"

lemma looks_reads: "reads_only call \<Longrightarrow> \<not> is_history call \<Longrightarrow> moves looks (web_route x call)"
  by (cases call) (auto simp: is_history_def intro!: looks_pages looks_ready looks_past looks_vout looks_rules)

subsection \<open>Reviewing changes nothing\<close>

lemma looks_invoice: "moves looks (review_invoice x label rail invoice)"
  unfolding review_invoice_def by (auto intro!: looks_rules split: sum.split)

lemma looks_request: "moves looks (requestNofferInvoice x noffer amount)"
  unfolding requestNofferInvoice_def by (auto intro!: looks_rules split: option.split ask_outcome.split)

lemma looks_clink_answer: "moves looks (clink_answer x res)"
  unfolding clink_answer_def by (auto intro!: looks_rules looks_invoice split: option.split resolve_result.split)

lemma looks_clink: "moves looks (review_clink x dest amountRaw)"
  unfolding review_clink_def Let_def
  by (auto intro!: looks_rules looks_request looks_clink_answer split: option.split sum.split resolve_result.split)

lemma ticks_round: "moves ticks (andthen (await a) (\<lambda>info. andthen (await b) (\<lambda>vs. ret (f info vs))))"
  by (intro tks.moves_rules ticks_await)

lemma looks_round: "moves looks (round_coins x)"
  unfolding round_coins_def by (rule looks_on_store [OF ticks_round])

lemma looks_onchain: "moves looks (review_onchain x dest amountRaw isMax)"
  unfolding review_onchain_def Let_def by (auto intro!: looks_rules looks_round split: option.split prod.split)

lemma looks_send: "moves looks (post_send x f)"
  unfolding post_send_def Let_def
  by (auto intro!: looks_rules looks_invoice looks_clink looks_onchain split: option.split rail.split)

subsection \<open>The guards and the mode\<close>

definition foreign :: "web_world \<Rightarrow> web_request \<Rightarrow> web_call \<Rightarrow> bool" where
  "foreign x req call \<longleftrightarrow> \<not> loopbackHostHeader x (wr_host req) \<or> (\<not> reads_only call \<and> \<not> isLoopbackOrigin x (wr_origin req))"

fun refused :: "web_response \<Rightarrow> bool" where
  "refused (Page code p) = (code = 403)" | "refused (Plain code m) = (code = 403)" | "refused r = False"

text \<open>The calls that work while the wallet is down.\<close>

fun for_exit :: "web_call \<Rightarrow> bool" where
  "for_exit (Post_boost t v s) = True" | "for_exit (Post_boost_sweep t v) = True" | "for_exit (Post_start t v) = True"
| "for_exit (Post_forget t v) = True" | "for_exit (Post_sweep t v d) = True" | "for_exit (Post_dest a) = True"
| "for_exit (Post_dest_verify g) = True" | "for_exit Post_dest_clear = True" | "for_exit Post_final_send = True"
| "for_exit Post_final_boost = True" | "for_exit c = False"

lemma handle_foreign: "foreign x req call \<Longrightarrow> \<exists>resp. web_handle x req call s = (Inr resp, s) \<and> refused resp"
  by (auto simp: web_handle_def foreign_def csrfGuard_def readGuard_def)

lemma handle_own: "\<not> foreign x req call \<Longrightarrow> web_handle x req call = web_route x call"
  by (auto simp: web_handle_def foreign_def csrfGuard_def readGuard_def)

lemma route_setup:
  assumes "mode_of s = Setup_mode" and "\<And>form. call \<noteq> Post_setup_form form"
  shows "snd (web_route x call s) = s"
  using assms
  by (cases call) (auto simp: requireReady_def past_setup_def get_setup_def get_home_def andthen_def)

lemma setup_begin_started: "bo_mode b \<noteq> Setup_mode \<Longrightarrow> setup_begin l ov form random b = (To_start, b)"
  by (simp add: setup_begin_def)

lemma route_degraded:
  assumes "mode_of s = Degraded_mode e t0 n" and "\<not> reads_only call" and "\<not> for_exit call"
  shows "snd (web_route x call s) = s"
  using assms
  by (cases call) (auto simp: requireReady_def andthen_def post_setup_def setup_begin_started mode_of_def)


subsection \<open>What is confirmed is what was reviewed\<close>

text \<open>The hidden fields of the confirm page, as the browser posts them.\<close>

lemma field_Some: "field (Some v) = v"
  by (simp add: field_def)

definition form_of :: "confirm_form \<Rightarrow> send_form" where
  "form_of c = \<lparr>fm_destination = Some (cf_destination c), fm_amount = Some (cf_amountField c),
     fm_max = Some (if cf_isMax c then ''1'' else [])\<rparr>"

lemma dropWhile_trimmed: "dropWhile P (rev (dropWhile P (rev (dropWhile P s)))) = rev (dropWhile P (rev (dropWhile P s)))"
proof (cases "rev (dropWhile P (rev (dropWhile P s)))")
  case (Cons c cs)
  have "\<not> P c"
  proof -
    obtain k where k: "dropWhile P s = rev (dropWhile P (rev (dropWhile P s))) @ k"
      by (metis rev_append rev_rev_ident takeWhile_dropWhile_id)
    with Cons have "dropWhile P s = c # (cs @ k)" by simp
    then show ?thesis by (metis dropWhile_eq_Cons_conv)
  qed
  with Cons show ?thesis by simp
next
  case Nil
  then show ?thesis by (simp only: dropWhile.simps)
qed

lemma js_trim_idem [simp]: "js_trim (js_trim s) = js_trim s"
proof -
  let ?t = "dropWhile js_space s"
  have "dropWhile js_space (js_trim s) = js_trim s" unfolding js_trim_def by (rule dropWhile_trimmed)
  moreover have "dropWhile js_space (rev (js_trim s)) = rev (js_trim s)" by (simp add: js_trim_def dropWhile_idem)
  ultimately show ?thesis by (simp only: js_trim_def [of "js_trim s"]) simp
qed

lemma digit_plain: "is_digit c \<Longrightarrow> \<not> js_space c \<and> \<not> js_blank c \<and> c \<noteq> CHR ''-'' \<and> c \<noteq> CHR ''+''"
  by (auto simp: is_digit_def js_space_def js_blank_def)

lemma show_nat_parses: "js_trim (show_nat k) = show_nat k" "js_parseInt (show_nat k) = Some (int k)"
proof -
  have digits: "list_all is_digit (show_nat k)" "show_nat k \<noteq> []"
    by (rule show_nat_digits) (subst show_nat.simps, simp)
  then obtain c cs where s: "show_nat k = c # cs" by (cases "show_nat k") auto
  with digits have c: "is_digit c" by simp
  have "\<And>P. (\<And>d. is_digit d \<Longrightarrow> \<not> P d) \<Longrightarrow> dropWhile P (show_nat k) = show_nat k"
    using c s by simp
  moreover have "\<And>P. (\<And>d. is_digit d \<Longrightarrow> \<not> P d) \<Longrightarrow> dropWhile P (rev (show_nat k)) = rev (show_nat k)"
    using digits by (cases "rev (show_nat k)") (auto simp: list_all_iff)
  ultimately show "js_trim (show_nat k) = show_nat k" using digit_plain by (simp add: js_trim_def)
  have all: "takeWhile is_digit (show_nat k) = show_nat k" using digits(1) by (simp add: takeWhile_eq_all_conv list_all_iff)
  have "parse_digits (show_nat k) = Some (int k)"
    unfolding parse_digits_def Let_def all using digits(2) by (simp add: digits_value_show)
  then show "js_parseInt (show_nat k) = Some (int k)" using c digit_plain [OF c] by (simp add: js_parseInt_def s)
qed

lemma parseSats_show: "0 < n \<Longrightarrow> parseSats (show_int n) = Some n"
  by (simp add: parseSats_def show_int_def show_nat_parses Let_def)

lemma parseSats_trim: "parseSats (js_trim raw) = parseSats raw"
  by (simp add: parseSats_def)

lemma parseSats_pos: "parseSats raw = Some n \<Longrightarrow> 0 < n"
  by (auto simp: parseSats_def Let_def split: option.splits if_splits)

text \<open>What the numbers of a confirm page stand for: the answers of the two reads of an onchain send, as the review saw them.\<close>

definition carries_out :: "web_world \<Rightarrow> confirm_form \<Rightarrow> web_response web" where
  "carries_out x c = (case cf_rail c of
     Ark \<Rightarrow> send_ark x (cf_destination c) (cf_shown c)
   | Onchain \<Rightarrow> andthen (round_coins x) (\<lambda>r. submit_offboard x (cf_destination c) (cf_isMax c) (cf_shown c) (cf_fee c)
       (if cf_isMax c then None else Some (cf_total c)))
   | _ \<Rightarrow> confirm_ln x (cf_destination c))"

lemma review_invoice_shown:
  assumes "review_invoice x label rail invoice s = (Inr (Page code (Confirm_page c)), t)"
  shows "cf_rail c = rail \<and> cf_destination c = invoice \<and> (\<exists>iv. k_decodeInvoice (ww_sdk x) invoice = Inr iv
    \<and> iv_amountSats iv = Some (cf_shown c) \<and> cf_total c = cf_shown c + cf_fee c)"
  using assms
  by (auto simp: review_invoice_def andthen_def attempt_def lightningPreview_def or_else_def Let_def
      split: prod.splits sum.splits if_splits option.splits)

lemma review_onchain_shown:
  assumes "review_onchain x dest amountRaw isMax s = (Inr (Page code (Confirm_page c)), t)"
    and "fst (round_coins x s') = fst (round_coins x s)"
  shows "cf_rail c = Onchain \<and> cf_destination c = dest \<and> cf_isMax c = isMax
    \<and> confirm_onchain x dest (cf_amountField c) isMax s' = carries_out x c s'"
  using assms
  by (auto simp: review_onchain_def confirm_onchain_def carries_out_def andthen_def Let_def parseSats_trim
      split: prod.splits sum.splits if_splits option.splits)

lemma review_onchain_total:
  assumes "review_onchain x dest amountRaw isMax s = (Inr (Page code (Confirm_page c)), t)"
  shows "cf_total c = cf_shown c + cf_fee c"
  using assms
  by (auto simp: review_onchain_def andthen_def Let_def offboardMaxSat_def
      split: prod.splits sum.splits if_splits option.splits)

lemma clink_answer_shown:
  assumes "clink_answer x res s = (Inr (Page code (Confirm_page c)), t)"
  shows "cf_rail c = Clink \<and> (\<exists>iv. k_decodeInvoice (ww_sdk x) (cf_destination c) = Inr iv
    \<and> iv_amountSats iv = Some (cf_shown c) \<and> cf_total c = cf_shown c + cf_fee c)"
  using assms review_invoice_shown by (auto simp: clink_answer_def split: option.splits resolve_result.splits)

lemma andthen_page:
  assumes "andthen m f s = (Inr r, t)"
  shows "\<exists>y u. m s = (Inr y, u) \<and> f y u = (Inr r, t)"
  using assms by (auto simp: andthen_def split: prod.splits sum.splits)

lemma review_clink_shown:
  assumes "review_clink x dest amountRaw s = (Inr (Page code (Confirm_page c)), t)"
  shows "cf_rail c = Clink \<and> (\<exists>iv. k_decodeInvoice (ww_sdk x) (cf_destination c) = Inr iv
    \<and> iv_amountSats iv = Some (cf_shown c) \<and> cf_total c = cf_shown c + cf_fee c)"
proof -
  obtain p where p: "nofferDecode (ww_codecs x) dest = Some (Inr p)" "\<not> (op_priceType p \<noteq> Fixed \<and> parseSats amountRaw = None)"
    using assms by (auto simp: review_clink_def split: option.splits sum.splits if_splits)
  have "\<exists>res u. clink_answer x res u = (Inr (Page code (Confirm_page c)), t)"
    using assms p unfolding review_clink_def Let_def
    by (auto dest!: andthen_page split: option.splits resolve_result.splits if_splits) blast+
  with clink_answer_shown show ?thesis by blast
qed

text \<open>C4: The operator confirms what the page showed. Whenever a review answers with a confirm page, posting that page does
  exactly what its numbers say: for the reads the review saw, an onchain send submits the shown net amount and fee, gross of both
  or a true drain; an Ark send orders the shown amount to the shown address; a Lightning send, or an offer that was resolved, pays
  an invoice of the shown amount; and the total shown is amount and fee.\<close>

theorem reviewed_is_executed:
  assumes "post_send x f s = (Inr (Page code (Confirm_page c)), t)"
    and "fst (round_coins x s') = fst (round_coins x s)"
    and "cf_rail c = Clink \<longrightarrow> js_trim (cf_destination c) = cf_destination c \<and> take 7 (map lower_char (cf_destination c)) \<noteq> ''noffer1''
           \<and> cf_destination c \<noteq> []"
  shows "post_confirm x (form_of c) s' = carries_out x c s' \<and> cf_total c = cf_shown c + cf_fee c
    \<and> (cf_rail c \<in> {Lightning, Clink} \<longrightarrow> (\<exists>iv. k_decodeInvoice (ww_sdk x) (cf_destination c) = Inr iv \<and> iv_amountSats iv = Some (cf_shown c)))"
proof -
  let ?dest = "js_trim (field (fm_destination f))"
  have max: "form_max (form_of c) = cf_isMax c" by (simp add: form_max_def form_of_def field_def)
  have fields: "field (fm_destination (form_of c)) = cf_destination c" "field (fm_amount (form_of c)) = cf_amountField c"
    by (simp_all add: form_of_def field_def)
  obtain rail where rail: "classifyDestination (ww_sdk x) (ww_isArk x) ?dest = Some rail"
    using assms(1) by (auto simp: post_send_def Let_def split: option.splits)
  show ?thesis
  proof (cases rail)
    case Lightning
    with assms(1) rail have "review_invoice x ''lightning'' rail.Lightning ?dest s = (Inr (Page code (Confirm_page c)), t)"
      by (simp add: post_send_def Let_def)
    from review_invoice_shown [OF this] rail Lightning show ?thesis
      by (auto simp: post_confirm_def fields carries_out_def Let_def)
  next
    case Ark
    with assms(1) rail obtain amount where "parseSats (field (fm_amount f)) = Some amount"
      "c = \<lparr>cf_rail = rail.Ark, cf_destination = ?dest, cf_amountField = show_int amount, cf_isMax = form_max f,
         cf_shown = amount, cf_fee = 0, cf_total = amount\<rparr>"
      by (auto simp: post_send_def Let_def split: option.splits)
    with rail Ark parseSats_show [OF parseSats_pos, of "field (fm_amount f)" amount] show ?thesis
      by (simp add: post_confirm_def form_of_def field_Some confirm_ark_def carries_out_def Let_def)
  next
    case Onchain
    with assms(1) rail have r: "review_onchain x ?dest (field (fm_amount f)) (form_max f) s = (Inr (Page code (Confirm_page c)), t)"
      by (simp add: post_send_def Let_def)
    from review_onchain_shown [OF r assms(2)] review_onchain_total [OF r] rail Onchain show ?thesis
      by (simp add: post_confirm_def fields max Let_def)
  next
    case Clink
    with assms(1) rail have "review_clink x ?dest (field (fm_amount f)) s = (Inr (Page code (Confirm_page c)), t)"
      by (simp add: post_send_def Let_def)
    from review_clink_shown [OF this] assms(3) obtain iv where iv: "cf_rail c = rail.Clink"
      "k_decodeInvoice (ww_sdk x) (cf_destination c) = Inr iv" "iv_amountSats iv = Some (cf_shown c)" "cf_total c = cf_shown c + cf_fee c"
      by blast
    with assms(3) have "classifyDestination (ww_sdk x) (ww_isArk x) (cf_destination c) = Some rail.Lightning"
      by (simp add: classifyDestination_def Let_def)
    with iv assms(3) show ?thesis by (simp add: post_confirm_def fields carries_out_def Let_def)
  qed
qed

subsection \<open>The record of a payment confirmed twice\<close>

definition ln_rows :: "invoice_data \<Rightarrow> web_state \<Rightarrow> history_row list" where
  "ln_rows iv s = filter (is_row Web_ln (ln_hash iv)) (history (store_of s))"

definition all_in :: "tx_state \<Rightarrow> history_row list \<Rightarrow> bool" where
  "all_in st rows \<longleftrightarrow> rows \<noteq> [] \<and> (\<forall>r \<in> set rows. h_state r = st)"

lemma store_modify: "store_of (snd (on_store (modify f) s)) = f (store_of s)" "fst (on_store (modify f) s) = Inr ()"
  by (simp_all add: on_store_def on_service_def on_db_def modify_def store_of_def)

lemma web_now_eq: "web_now x s = (Inr (ww_now x (tick (store_of s))), s)"
  by (simp add: web_now_def on_store_def on_service_def on_db_def clock_ms_def reading_def store_of_def)

lemma then_modify: "store_of (snd (andthen (on_store (modify f)) (\<lambda>u. ret y) s)) = f (store_of s)"
  using store_modify [of f s] by (cases "on_store (modify f) s") (auto simp: andthen_def)

lemma ln_begin_store: "store_of (snd (ln_begin x invoice iv s))
    = recordWebLnPending (ww_now x (tick (store_of s))) (ln_hash iv) (or_else (iv_amountSats iv) 0 * 1000) (ww_describe x invoice) (store_of s)"
  by (simp add: ln_begin_def andthen_def web_now_eq store_modify)

lemma ln_end_store:
  "store_of (snd (ln_end x iv (Inr r) s)) = settleWebLn (ww_now x (tick (store_of s))) (ln_hash iv)
     (max 0 (lr_amount r - or_else (iv_amountSats iv) 0) * 1000) (Some (lr_txid r)) (store_of s)"
  "store_of (snd (ln_end x iv (Inl e) s)) = failWebLn (ww_now x (tick (store_of s))) (ln_hash iv) (ww_errText x e) (store_of s)"
  by (simp_all add: ln_end_def andthen_def [of "web_now x"] web_now_eq then_modify)

lemma filter_map_if: "(\<And>r. P r \<Longrightarrow> P (f r)) \<Longrightarrow> filter P (map (\<lambda>r. if P r \<and> Q r then f r else r) rs)
    = map (\<lambda>r. if Q r then f r else r) (filter P rs)"
  by (induction rs) auto

lemma filter_update: "(\<And>r. P r \<Longrightarrow> P (f r)) \<Longrightarrow> filter P (history (update_history (\<lambda>r. P r \<and> Q r) f d))
    = map (\<lambda>r. if Q r then f r else r) (filter P (history d))"
  using filter_map_if [of P f Q] by (simp add: update_history_def)

lemma pending_rows: "all_in Tx_pending (filter (is_row Web_ln h) (history (recordWebLnPending now h amount desc d)))"
proof (cases "\<exists>r \<in> set (history d). is_row Web_ln h r")
  case True
  let ?f = "\<lambda>r. r\<lparr>h_state := Tx_pending, h_error := None, h_settledAt := None, h_createdAt := now\<rparr>"
  have "filter (is_row Web_ln h) (map (\<lambda>r. if is_row Web_ln h r then ?f r else r) rs) = map ?f (filter (is_row Web_ln h) rs)" for rs
    by (induction rs) (auto simp: is_row_def)
  with True show ?thesis
    by (auto simp: recordWebLnPending_def update_history_def all_in_def filter_empty_conv)
next
  case False
  then have "filter (is_row Web_ln h) (history d) = []" by (simp add: filter_empty_conv)
  moreover have "\<not> (\<exists>r \<in> set (history d). h_kind r = Web_ln \<and> h_ref r = Some h)" using False by (simp add: is_row_def)
  ultimately show ?thesis using False
    by (auto simp: recordWebLnPending_def history_insert_def all_in_def is_row_def)
qed

lemma settle_rows: "filter (is_row Web_ln h) (history (settleWebLn now h fees txid d))
    = map (\<lambda>r. if h_state r = Tx_pending then r\<lparr>h_state := Tx_settled, h_feesMsat := Some fees, h_txid := txid, h_settledAt := Some now\<rparr> else r)
        (filter (is_row Web_ln h) (history d))"
  unfolding settleWebLn_def by (rule filter_update) (simp add: is_row_def)

lemma fail_rows: "filter (is_row Web_ln h) (history (failWebLn now h err d))
    = map (\<lambda>r. if h_state r = Tx_pending then r\<lparr>h_state := Tx_failed, h_error := Some err, h_settledAt := Some now\<rparr> else r)
        (filter (is_row Web_ln h) (history d))"
  unfolding failWebLn_def by (rule filter_update) (simp add: is_row_def)

lemma begin_pending: "all_in Tx_pending (ln_rows iv (snd (ln_begin x invoice iv s)))"
  unfolding ln_rows_def ln_begin_store by (rule pending_rows)

lemma end_failed: "all_in Tx_pending (ln_rows iv s) \<Longrightarrow> all_in Tx_failed (ln_rows iv (snd (ln_end x iv (Inl e) s)))"
  by (auto simp: ln_rows_def ln_end_store fail_rows all_in_def)

lemma end_settled: "all_in Tx_pending (ln_rows iv s) \<Longrightarrow> all_in Tx_settled (ln_rows iv (snd (ln_end x iv (Inr r) s)))"
  by (auto simp: ln_rows_def ln_end_store settle_rows all_in_def)

lemma end_late: "all_in Tx_failed (ln_rows iv s) \<Longrightarrow> ln_rows iv (snd (ln_end x iv (Inr r) s)) = ln_rows iv s"
  by (auto simp: ln_rows_def ln_end_store settle_rows all_in_def intro: map_idI)

text \<open>C25: A payment that was made is on record as failed. The row of an invoice is shared by all its confirmations and each
  resets it. When an invoice is confirmed a second time, by a double click while the first payment is under way or by posting the
  page again after it settled, and the second attempt is refused, as boltz refuses a second swap for one invoice, then
  every row of the invoice is failed in the end, although the first attempt paid; whatever other steps run between.\<close>

theorem second_confirm_unsettles:
  assumes "ln_rows iv a1 = ln_rows iv (snd (ln_begin x invoice iv a0))"
  shows "(ln_rows iv a2 = ln_rows iv (snd (ln_begin x invoice iv a1)) \<longrightarrow> ln_rows iv a3 = ln_rows iv (snd (ln_end x iv (Inl e) a2))
       \<longrightarrow> all_in Tx_failed (ln_rows iv (snd (ln_end x iv (Inr paid) a3))))
    \<and> (ln_rows iv b2 = ln_rows iv (snd (ln_end x iv (Inr paid) a1)) \<longrightarrow> all_in Tx_settled (ln_rows iv b2)
       \<and> (ln_rows iv b3 = ln_rows iv (snd (ln_begin x invoice iv b2)) \<longrightarrow> all_in Tx_failed (ln_rows iv (snd (ln_end x iv (Inl e) b3)))))"
  using assms begin_pending [of iv x invoice] end_failed [of iv _ x e] end_settled [of iv _ x paid] end_late [of iv _ x paid] by metis

subsection \<open>Offboards under way\<close>

text \<open>The steps of one process: confirmations of an onchain send, rounds that end, and anything else, which neither writes the
  offboards nor starts one.\<close>

inductive round_reach :: "web_world \<Rightarrow> web_state \<Rightarrow> web_state \<Rightarrow> bool" for x s0 where
  boot: "wb_jobs s0 = [] \<Longrightarrow> round_reach x s0 s0"
| confirm: "round_reach x s0 s \<Longrightarrow> round_reach x s0 (snd (confirm_onchain x dest amountRaw isMax s))"
| committed: "round_reach x s0 s \<Longrightarrow> i < length (wb_jobs s) \<Longrightarrow> round_reach x s0 (snd (offboard_end x i res s))"
| other: "round_reach x s0 s \<Longrightarrow> offboards (store_of t) = offboards (store_of s) \<Longrightarrow> wb_jobs t = wb_jobs s \<Longrightarrow> round_reach x s0 t"

definition pending_ids :: "db \<Rightarrow> nat set" where
  "pending_ids d = f_id ` {r \<in> set (offboards d). f_state r = Tx_pending}"

definition has_row :: "db \<Rightarrow> offboard_job \<Rightarrow> bool" where
  "has_row d j \<longleftrightarrow> (\<exists>r \<in> set (offboards d). f_id r = jb_id j \<and> f_state r = Tx_pending \<and> f_address r = jb_address j
     \<and> jb_gross j = (if f_isMax r then None else Some (f_amountSat r + f_feeSat r)))"

definition tracked :: "nat set \<Rightarrow> web_state \<Rightarrow> bool" where
  "tracked orphans s \<longleftrightarrow> distinct (map f_id (offboards (store_of s))) \<and> distinct (map jb_id (wb_jobs s))
     \<and> pending_ids (store_of s) = orphans \<union> jb_id ` set (wb_jobs s) \<and> orphans \<inter> jb_id ` set (wb_jobs s) = {}
     \<and> (\<forall>j \<in> set (wb_jobs s). has_row (store_of s) j)"

lemma looks_same: "looks s t \<Longrightarrow> offboards (store_of t) = offboards (store_of s) \<and> wb_jobs t = wb_jobs s"
  by (auto simp: looks_iff reticked_def store_of_def)

lemma offboards_insert: "offboards (history_insert r d) = offboards d"
  by (simp add: history_insert_def)

lemma submit_effect:
  "\<exists>r. offboards (store_of (snd (submit_offboard x dest m recipient fee gross s))) = offboards (store_of s) @ [r]
     \<and> wb_jobs (snd (submit_offboard x dest m recipient fee gross s)) = wb_jobs s @ [\<lparr>jb_id = f_id r, jb_address = dest, jb_gross = gross\<rparr>]
     \<and> f_id r = next_id (map f_id (offboards (store_of s))) \<and> f_state r = Tx_pending \<and> f_address r = dest \<and> f_isMax r = m
     \<and> f_amountSat r = recipient \<and> f_feeSat r = fee"
  by (simp add: submit_offboard_def andthen_def web_now_eq on_store_def on_service_def on_db_def store_of_def createOffboard_def
      recordOffboard_def offboards_insert modify_def Let_def)

lemma confirm_onchain_effect:
  "\<exists>u. looks s u \<and> (snd (confirm_onchain x dest amountRaw isMax s) = u
     \<or> (\<exists>m recipient fee. snd (confirm_onchain x dest amountRaw isMax s)
          = snd (submit_offboard x dest m recipient fee (if m then None else Some (recipient + fee)) u)))"
proof -
  obtain r u where run: "round_coins x s = (r, u)" by fastforce
  with movesD [OF looks_round, of s x] have "looks s u" by simp
  moreover have "snd (confirm_onchain x dest amountRaw isMax s) = u
     \<or> (\<exists>m recipient fee. snd (confirm_onchain x dest amountRaw isMax s)
          = snd (submit_offboard x dest m recipient fee (if m then None else Some (recipient + fee)) u))"
  proof (cases r)
    case (Inr y)
    obtain info b where y: "y = (info, b)" by fastforce
    consider (none) "snd (confirm_onchain x dest amountRaw isMax s) = u"
      | (drain) mx where "snd (confirm_onchain x dest amountRaw isMax s)
          = snd (submit_offboard x dest True mx (wi_fee info (vb_roundTotalSat b)) None u)"
      | (net) n where "snd (confirm_onchain x dest amountRaw isMax s)
          = snd (submit_offboard x dest False n (wi_fee info n) (Some (n + wi_fee info n)) u)"
    proof (cases isMax)
      case True
      then show thesis
        by (cases "offboardMaxSat (wi_fee info) (pi_dust (wi_pay info)) b")
          (rule none drain; simp add: confirm_onchain_def andthen_def [of "round_coins x"] run Inr y Let_def)+
    next
      case False
      show thesis
      proof (cases "parseSats amountRaw")
        case None
        with False show thesis
          by (intro none) (simp add: confirm_onchain_def andthen_def [of "round_coins x"] run Inr y Let_def)
      next
        case (Some n)
        show thesis
        proof (cases "offboardDustChange (wi_fee info) (pi_dust (wi_pay info)) b n")
          case None
          with False Some show thesis
            by (intro net [of n]) (simp add: confirm_onchain_def andthen_def [of "round_coins x"] run Inr y Let_def)
        next
          case (Some hit)
          with False \<open>parseSats amountRaw = Some n\<close> show thesis
            by (intro none) (simp add: confirm_onchain_def andthen_def [of "round_coins x"] run Inr y Let_def)
        qed
      qed
    qed
    then show ?thesis
    proof cases
      case drain
      then show ?thesis by (intro disjI2 exI [of _ True] exI) simp
    next
      case net
      then show ?thesis by (intro disjI2 exI [of _ False] exI) simp
    qed simp
  qed (simp add: confirm_onchain_def andthen_def run)
  ultimately show ?thesis by blast
qed

lemma tracked_submit:
  assumes "tracked orphans s" and "gross = (if m then None else Some (recipient + fee))"
  shows "tracked orphans (snd (submit_offboard x dest m recipient fee gross s))"
proof -
  let ?t = "snd (submit_offboard x dest m recipient fee gross s)"
  obtain r where r: "offboards (store_of ?t) = offboards (store_of s) @ [r]"
    "wb_jobs ?t = wb_jobs s @ [\<lparr>jb_id = f_id r, jb_address = dest, jb_gross = gross\<rparr>]"
    "f_id r = next_id (map f_id (offboards (store_of s)))" "f_state r = Tx_pending" "f_address r = dest" "f_isMax r = m"
    "f_amountSat r = recipient" "f_feeSat r = fee"
    using submit_effect by blast
  have fresh: "f_id r \<notin> f_id ` set (offboards (store_of s))"
    using next_id_fresh [of "f_id r" "map f_id (offboards (store_of s))"] r(3) by auto
  have pend: "pending_ids (store_of ?t) = insert (f_id r) (pending_ids (store_of s))"
    using r(1,4) by (auto simp: pending_ids_def)
  have old: "pending_ids (store_of s) \<subseteq> f_id ` set (offboards (store_of s))" by (auto simp: pending_ids_def)
  have rows: "has_row (store_of ?t) j" if "has_row (store_of s) j" for j
    using that r(1) by (auto simp: has_row_def)
  have new: "has_row (store_of ?t) \<lparr>jb_id = f_id r, jb_address = dest, jb_gross = gross\<rparr>"
    using r assms(2) by (auto simp: has_row_def)
  from assms(1) fresh old pend rows new r(1,2) show ?thesis unfolding tracked_def by auto
qed

lemma tracked_still: "tracked orphans s \<Longrightarrow> offboards (store_of t) = offboards (store_of s) \<Longrightarrow> wb_jobs t = wb_jobs s \<Longrightarrow> tracked orphans t"
  by (simp add: tracked_def pending_ids_def has_row_def)

lemma mark_effect:
  assumes "i < length (wb_jobs s)"
  shows "\<exists>f. (\<forall>r. f_id (f r) = f_id r \<and> f_state (f r) \<noteq> Tx_pending)
     \<and> offboards (store_of (snd (offboard_end x i res s))) = row_update f_id (jb_id (wb_jobs s ! i)) f (offboards (store_of s))
     \<and> wb_jobs (snd (offboard_end x i res s)) = take i (wb_jobs s) @ drop (Suc i) (wb_jobs s)"
proof (cases res)
  case (Inr txid)
  then show ?thesis using assms
    by (intro exI [of _ "\<lambda>r. r\<lparr>f_state := Tx_settled, f_arkTxid := Some txid, f_settledAt := Some (ww_now x (tick (store_of s)))\<rparr>"])
      (simp add: offboard_end_def andthen_def web_now_eq on_store_def on_service_def on_db_def modify_def reading_def store_of_def markOffboardSettled_def)
next
  case (Inl e)
  then show ?thesis using assms
    by (intro exI [of _ "\<lambda>r. r\<lparr>f_state := Tx_failed, f_error := Some (ww_errText x e), f_settledAt := Some (ww_now x (tick (store_of s)))\<rparr>"])
      (simp add: offboard_end_def andthen_def web_now_eq on_store_def on_service_def on_db_def modify_def reading_def store_of_def markOffboardFailed_def)
qed

lemma row_update_eq: "row_update key k f rs = map (\<lambda>r. if key r = k then f r else r) rs"
  by (simp add: row_update_def)

lemma tracked_end:
  assumes "tracked orphans s" and "i < length (wb_jobs s)"
  shows "tracked orphans (snd (offboard_end x i res s))"
proof -
  let ?t = "snd (offboard_end x i res s)" and ?k = "jb_id (wb_jobs s ! i)"
  obtain f where f: "\<And>r. f_id (f r) = f_id r" "\<And>r. f_state (f r) \<noteq> Tx_pending"
    and t: "offboards (store_of ?t) = map (\<lambda>r. if f_id r = ?k then f r else r) (offboards (store_of s))"
      "wb_jobs ?t = take i (wb_jobs s) @ drop (Suc i) (wb_jobs s)"
    using mark_effect [OF assms(2), of x res] by (auto simp: row_update_eq)
  have split: "wb_jobs s = take i (wb_jobs s) @ wb_jobs s ! i # drop (Suc i) (wb_jobs s)" using assms(2) by (rule id_take_nth_drop)
  have dist: "distinct (map jb_id (wb_jobs s))" using assms(1) by (simp add: tracked_def)
  then have "distinct (map jb_id (take i (wb_jobs s) @ wb_jobs s ! i # drop (Suc i) (wb_jobs s)))" using split by metis
  then have jobs: "distinct (map jb_id (wb_jobs ?t))" "?k \<notin> jb_id ` set (wb_jobs ?t)" unfolding t(2) by auto
  have "set (wb_jobs s) = insert (wb_jobs s ! i) (set (wb_jobs ?t))"
    unfolding t(2) by (subst split) auto
  note js = this
  have ids: "map f_id (offboards (store_of ?t)) = map f_id (offboards (store_of s))" using f(1) by (simp add: t(1))
  have pend: "pending_ids (store_of ?t) = pending_ids (store_of s) - {?k}"
    using f by (auto simp: pending_ids_def t(1) image_iff)
  have rows: "has_row (store_of ?t) j" if j: "has_row (store_of s) j" "jb_id j \<noteq> ?k" for j
  proof -
    from j(1) obtain r where r: "r \<in> set (offboards (store_of s))" "f_id r = jb_id j" "f_state r = Tx_pending" "f_address r = jb_address j"
      "jb_gross j = (if f_isMax r then None else Some (f_amountSat r + f_feeSat r))" by (auto simp: has_row_def)
    with j(2) have "r \<in> set (offboards (store_of ?t))" by (auto simp: t(1) image_iff intro: bexI [of _ r])
    with r show ?thesis by (auto simp: has_row_def)
  qed
  show ?thesis
    unfolding tracked_def
  proof (intro conjI ballI)
    show "distinct (map f_id (offboards (store_of ?t)))" using assms(1) unfolding ids by (simp add: tracked_def)
    show "distinct (map jb_id (wb_jobs ?t))" by (rule jobs(1))
    show "pending_ids (store_of ?t) = orphans \<union> jb_id ` set (wb_jobs ?t)"
      using assms(1) jobs(2) unfolding pend tracked_def js by auto
    show "orphans \<inter> jb_id ` set (wb_jobs ?t) = {}" using assms(1) unfolding tracked_def js by auto
    show "has_row (store_of ?t) j" if "j \<in> set (wb_jobs ?t)" for j
    proof (rule rows)
      show "has_row (store_of s) j" using that assms(1) by (simp add: tracked_def js)
      show "jb_id j \<noteq> ?k" using that jobs(2) by (metis imageI)
    qed
  qed
qed

lemma tracked_reach:
  assumes "round_reach x s0 s" and "distinct (map f_id (offboards (store_of s0)))"
  shows "tracked (pending_ids (store_of s0)) s"
  using assms(1)
proof induction
  case boot
  then show ?case using assms(2) by (simp add: tracked_def)
next
  case (confirm s dest amountRaw isMax)
  from confirm_onchain_effect [of s x dest amountRaw isMax] obtain u where u: "looks s u"
    "snd (confirm_onchain x dest amountRaw isMax s) = u \<or> (\<exists>m recipient fee. snd (confirm_onchain x dest amountRaw isMax s)
          = snd (submit_offboard x dest m recipient fee (if m then None else Some (recipient + fee)) u))" by blast
  have "tracked (pending_ids (store_of s0)) u" using tracked_still [OF confirm.IH] looks_same [OF u(1)] by simp
  from tracked_submit [OF this refl] have sub: "tracked (pending_ids (store_of s0))
      (snd (submit_offboard x dest m recipient fee (if m then None else Some (recipient + fee)) u))" for m recipient fee .
  from u(2) show ?case
  proof
    assume "snd (confirm_onchain x dest amountRaw isMax s) = u"
    with \<open>tracked (pending_ids (store_of s0)) u\<close> show ?thesis by simp
  next
    assume "\<exists>m recipient fee. snd (confirm_onchain x dest amountRaw isMax s)
          = snd (submit_offboard x dest m recipient fee (if m then None else Some (recipient + fee)) u)"
    then show ?thesis by (elim exE) (simp only: sub)
  qed
next
  case (committed s i res)
  then show ?case by (simp add: tracked_end)
next
  case (other s t)
  then show ?case using tracked_still by blast
qed

text \<open>C10: Every offboard under way is on record, and only those. Whatever is confirmed, whichever rounds commit or fail and
  whatever else happens in one process, the pending rows are exactly those of the jobs under way, one each, with the address the
  job pays and a gross amount that is the net the operator entered and the fee, or no amount for a drain; and the rows that
  were pending when the process started: nothing ever ends those.\<close>

theorem offboards_tracked:
  assumes "round_reach x s0 s" and "distinct (map f_id (offboards (store_of s0)))"
  shows "f_id ` {r \<in> set (offboards (store_of s)). f_state r = Tx_pending}
       = f_id ` {r \<in> set (offboards (store_of s0)). f_state r = Tx_pending} \<union> jb_id ` set (wb_jobs s)
    \<and> distinct (map jb_id (wb_jobs s)) \<and> f_id ` {r \<in> set (offboards (store_of s0)). f_state r = Tx_pending} \<inter> jb_id ` set (wb_jobs s) = {}
    \<and> (\<forall>j \<in> set (wb_jobs s). \<exists>r \<in> set (offboards (store_of s)). f_id r = jb_id j \<and> f_address r = jb_address j
         \<and> jb_gross j = (if f_isMax r then None else Some (f_amountSat r + f_feeSat r)))"
proof -
  have t: "tracked (pending_ids (store_of s0)) s" by (rule tracked_reach [OF assms])
  have "\<exists>r \<in> set (offboards (store_of s)). f_id r = jb_id j \<and> f_address r = jb_address j
         \<and> jb_gross j = (if f_isMax r then None else Some (f_amountSat r + f_feeSat r))" if "j \<in> set (wb_jobs s)" for j
  proof -
    from t that have "has_row (store_of s) j" by (simp add: tracked_def)
    then obtain r where "r \<in> set (offboards (store_of s))" "f_id r = jb_id j" "f_address r = jb_address j"
      "jb_gross j = (if f_isMax r then None else Some (f_amountSat r + f_feeSat r))" unfolding has_row_def by blast
    then show ?thesis by (intro bexI [of _ r] conjI)
  qed
  with t show ?thesis unfolding tracked_def pending_ids_def by (intro conjI ballI) simp_all
qed

subsection \<open>A concrete operator\<close>

definition sample_web :: web_world where
  "sample_web = \<lparr>ww_port = ''8321'', ww_url = (\<lambda>u. if u = ''http://localhost:8321'' then Some \<lparr>wu_hostname = ''localhost'', wu_port = ''8321''\<rparr>
       else if u = ''http://evil.example'' then Some \<lparr>wu_hostname = ''evil.example'', wu_port = []\<rparr> else None),
     ww_keys = blank_keys, ww_overrides = no_overrides, ww_random = (\<lambda>t. key_of 1), ww_now = (\<lambda>t. 100), ww_errText = (\<lambda>e. ''refused''),
     ww_exit = sample_exit, ww_nostr = sample_nostr, ww_outboxRelays = (\<lambda>t. [''r1'']), ww_connectionKeys = (\<lambda>t. (''s'', ''c'')),
     ww_codecs = sample_codecs, ww_pub = ''me'', ww_parseUrl = (\<lambda>u. None), ww_usable = (\<lambda>k. True), ww_replies = (\<lambda>t a. []),
     ww_isArk = (\<lambda>d. False), ww_describe = (\<lambda>i. None), ww_rd = (\<lambda>q. q),
     ww_fees = (\<lambda>t. Inr \<lparr>sf_percentage = 0, sf_minerFees = 4\<rparr>),
     ww_info = (\<lambda>t. Inr \<lparr>wi_pay = calm_pay, wi_fee = (\<lambda>n. 200)\<rparr>), ww_vtxos = (\<lambda>t. Inr [sample_coin ''dd'' 5000]),
     ww_coins = \<lparr>cl_isSpendable = (\<lambda>c. True), cl_isSubdust = (\<lambda>c d. False), cl_isRecoverable = (\<lambda>c. False), cl_isExpired = (\<lambda>c. False)\<rparr>,
     ww_settle = (\<lambda>t. Inr ''tx''), ww_slow = (\<lambda>t. False)\<rparr>"

definition sample_operator :: web_state where
  "sample_operator = \<lparr>wb_boot = start_bridge no_overrides [] None, wb_service = nostr_boot [], wb_engine = new_engine empty_db,
     wb_subs = [], wb_offerOpen = True, wb_jobs = [], wb_told = []\<rparr>"


definition ln_form :: send_form where
  "ln_form = \<lparr>fm_destination = Some ''lnbc'', fm_amount = None, fm_max = None\<rparr>"

lemma sample_review: "\<exists>c t. post_send sample_web ln_form sample_operator = (Inr (Page 200 (Confirm_page c)), t) \<and> cf_rail c = Lightning \<and> cf_shown c = 1000"
  by (simp add: post_send_def ln_form_def field_def js_trim_def js_space_def classifyDestination_def lower_char_def sample_web_def ww_sdk_def ww_world_def
      ww_pay_def sample_nostr_def sample_payer_def review_invoice_def andthen_def attempt_def on_store_def on_service_def on_db_def await_def
      lightningPreview_def submarineFeeSat_def or_else_def Let_def)

lemma reviewed_is_executed_witness:
  "\<exists>c. cf_shown c = 1000 \<and> post_confirm sample_web (form_of c) sample_operator = carries_out sample_web c sample_operator \<and> cf_total c = 1000 + cf_fee c"
proof -
  obtain c t where c: "post_send sample_web ln_form sample_operator = (Inr (Page 200 (Confirm_page c)), t)" "cf_rail c = Lightning" "cf_shown c = 1000"
    using sample_review by blast
  from reviewed_is_executed [OF c(1) refl] c show ?thesis by (intro exI [of _ c]) simp
qed

definition sample_bill :: invoice_data where
  "sample_bill = \<lparr>iv_paymentHash = Some ''h1'', iv_amountSats = Some 1000\<rparr>"

definition sample_paid :: ln_result where
  "sample_paid = \<lparr>lr_amount = 1004, lr_preimage = ''pp'', lr_txid = ''aa'', lr_swapId = ''s9''\<rparr>"

abbreviation once_more :: "web_state \<Rightarrow> web_state" where
  "once_more s \<equiv> snd (ln_begin sample_web ''lnbc'' sample_bill s)"

lemma second_confirm_unsettles_witness:
  "all_in Tx_failed (ln_rows sample_bill (snd (ln_end sample_web sample_bill (Inr sample_paid)
     (snd (ln_end sample_web sample_bill (Inl (Error ''swap exists'')) (once_more (once_more sample_operator)))))))"
  by (rule mp [OF mp [OF conjunct1 [OF second_confirm_unsettles [OF refl]] refl] refl])

lemma offboards_tracked_witness:
  "f_id ` {r \<in> set (offboards (store_of (snd (confirm_onchain sample_web ''bc1'' [] True sample_operator)))). f_state r = Tx_pending}
     = jb_id ` set (wb_jobs (snd (confirm_onchain sample_web ''bc1'' [] True sample_operator)))
   \<and> length (wb_jobs (snd (confirm_onchain sample_web ''bc1'' [] True sample_operator))) = 1"
proof -
  have empty: "offboards (store_of sample_operator) = []" "wb_jobs sample_operator = []"
    by (simp_all add: sample_operator_def store_of_def nostr_boot_def empty_db_def)
  have "round_reach sample_web sample_operator (snd (confirm_onchain sample_web ''bc1'' [] True sample_operator))"
    by (intro round_reach.confirm round_reach.boot empty(2))
  from offboards_tracked [OF this] empty have "f_id ` {r \<in> set (offboards (store_of (snd (confirm_onchain sample_web ''bc1'' [] True sample_operator)))). f_state r = Tx_pending}
     = jb_id ` set (wb_jobs (snd (confirm_onchain sample_web ''bc1'' [] True sample_operator)))" by simp
  moreover have "length (wb_jobs (snd (confirm_onchain sample_web ''bc1'' [] True sample_operator))) = 1"
    by (simp add: confirm_onchain_def round_coins_def andthen_def on_store_def on_service_def on_db_def await_def sample_web_def calm_pay_def
        sample_operator_def nostr_boot_def empty_db_def classifyVtxos_def coin_sum_def sample_coin_def offboardMaxSat_def submit_offboard_def web_now_def clock_ms_def
        createOffboard_def recordOffboard_def history_insert_def modify_def reading_def Let_def)
  ultimately show ?thesis by blast
qed

end
