(* ===== verification/Spec2Isabelle.thy ===== *)
theory Spec2Isabelle
  imports Swap_State Swap_Script Claim_Split Coin_Select Swap_Repo Chain_Order Exit_Vault Evidence
    Proof_Sync Exit_Estimate Eff_Logic Ark_World Atomic_Send Send_Safety Send_Verdicts Atomic_Receive Receive_Safety Exit_Spend Exit_Boost Exit_Spend_Safety Exit_Engine Engine_Safety
    Noffer Budget_Window Nwc_Ledger Boltz_Sync Nwc_Run Nwc_Safety Landing_Safety
    History_Safety Wallet_Safety Ln_Receive_Safety Service_State
    Clink_Safety Nostr_Safety Relay_Safety Outbox_Safety Upkeep_Safety Pair_Safety Dest_Verify Whole_Set Boot_Safety Exit_Stepper Web_Safety
begin

text \<open>
  Verification of the NWC bridge: a process that serves one operator's Ark wallet over Nostr Wallet Connect, CLINK offers and a
  local web page, pays and receives over Lightning through boltz, swaps amounts below dust atomically, and keeps everything
  needed to leave the Ark server by unilateral exit. The theories follow the files under \<open>src/src/\<close>; paths below are
  relative to it.

  \<^bold>\<open>How the parts interact.\<close> One SQLite database is shared by all: \<open>db\<close> of \<open>Bridge_Types\<close>, a record with one list per table.
  A client's request comes in over a relay (\<open>Relay_Net\<close>), is authorized and dispatched (\<open>Nostr_Service\<close>) to the ledger
  handlers (\<open>Nwc_Ledger\<close>), which pay (\<open>Wallet_Pay\<close>) by a submarine swap or, below dust, by an atomic send
  (\<open>Atomic_Send\<close>), and receive (\<open>Ln_Receive\<close>) by a reverse swap or an atomic receive (\<open>Atomic_Receive\<close>). What boltz reports and
  what the indexer shows closes the rows (\<open>Boltz_Sync\<close>). An offer request (\<open>Clink_Offers\<close>) mints invoices the same way. Beside
  that, every coin is mirrored with its pre-signed ancestry (\<open>Proof_Sync\<close> into \<open>Exit_Vault\<close>), and the exit engine
  (\<open>Exit_Engine\<close>, \<open>Exit_Spend\<close>, \<open>Exit_Boost\<close>) unrolls, sweeps and sends it without the server.

  \<^bold>\<open>How code becomes definitions.\<close> An operation that reads, writes or throws is a function in \<open>('e, 's, 'a) eff\<close>
  (\<open>Prelude\<close>): from the state to an error or a value, and the state after. A read of the outside world is \<open>await\<close>: an arbitrary
  function of the \<open>tick\<close>, which counts the answers so far, so that no two reads need agree. Packages, servers and the clock are the
  fields of the world records (\<open>sdk\<close>, \<open>world\<close>, \<open>exit_world\<close>, \<open>pay_world\<close>, \<open>nostr_world\<close>, \<open>clink_world\<close>,
  \<open>tx_lib\<close>, \<open>size_lib\<close>, \<open>pair_lib\<close>, \<open>dest_lib\<close>); laws about them are named hypotheses (\<open>sdk_faithful\<close>,
  \<open>regular_clock\<close>, \<open>pages_of\<close>). Where operations overlap at their awaits, the module is a machine whose events are the segments between
  awaits: \<open>Exit_Engine\<close>, \<open>Nwc_Run\<close>, \<open>Relay_Net\<close>, \<open>Outbox\<close>, \<open>Upkeep\<close>, \<open>Bridge_Boot\<close>. Elsewhere a handler runs as one sequence, the
  world answering arbitrarily in between.

  \<^bold>\<open>Theories.\<close>

  \<^item> Foundations: \<open>Prelude\<close> (effects, the locale \<open>progress\<close> for relations kept by handlers), \<open>Js_Lib\<close> (sorting, numbers and
    splitting as JavaScript does them, the locale \<open>comparator\<close>), \<open>Bridge_Types\<close> (\<open>db.ts\<close>'s tables, the locale for rows under a key),
    \<open>Eff_Logic\<close> (triples).
  \<^item> Atomic swaps: \<open>Swap_State\<close> (\<open>atomic/state.ts\<close>), \<open>Swap_Script\<close> (\<open>params.ts\<close>, \<open>script.ts\<close>), \<open>Claim_Split\<close>
    (\<open>split.ts\<close>), \<open>Coin_Select\<close> (\<open>coin_select.ts\<close>, \<open>eligibility.ts\<close>), \<open>Swap_Repo\<close> (\<open>repository.ts\<close>), \<open>Pair_Sign\<close> (\<open>tx.ts\<close>),
    \<open>Ark_World\<close>, \<open>Atomic_Send\<close> (\<open>send.ts\<close>), \<open>Atomic_Receive\<close> (\<open>receive.ts\<close>). The lemmas of \<open>Send_Safety\<close>, \<open>Send_Verdicts\<close>,
    \<open>Receive_Safety\<close> and \<open>Pair_Safety\<close>: nothing that can move money is called before the row that recovers it is on disk, every verdict
    rests on an answer of the indexer, the preimage is revealed only after the claim, and nothing goes out but the agreed pair.
  \<^item> Exit: \<open>Chain_Order\<close> (\<open>exit/chain_order.ts\<close>), \<open>Exit_Vault\<close> (\<open>vault.ts\<close>, \<open>ops.ts\<close>, \<open>broadcasts.ts\<close>,
    \<open>vault_indexer.ts\<close>), \<open>Evidence\<close>, \<open>Proof_Sync\<close>, \<open>Exit_Estimate\<close> (\<open>estimate.ts\<close>, \<open>cost_oracle.ts\<close>), \<open>Exit_Spend\<close>
    (\<open>csv.ts\<close>, \<open>sweep.ts\<close>, \<open>esplora.ts\<close>), \<open>Exit_Boost\<close> (\<open>boost.ts\<close>, \<open>final_send.ts\<close>, \<open>dest.ts\<close>), \<open>Dest_Verify\<close>
    (\<open>dest_verify.ts\<close>), \<open>Exit_Engine\<close> (\<open>engine.ts\<close>), \<open>Exit_Stepper\<close> (\<open>stepper.ts\<close>). Their lemmas: a mirrored coin is forgotten only
    on evidence, replacements meet the relay rules, a row's state is backed by what the engine was told, and the final send pays only
    an address whose owner signed for it.
  \<^item> Wallet service: \<open>Budget_Window\<close> (\<open>lib/budget.ts\<close>), \<open>Nwc_Ledger\<close> and \<open>Nwc_Run\<close> (\<open>handlers/\<close>), \<open>Boltz_Sync\<close>
    (\<open>boltz.ts\<close>, \<open>boltz_repository.ts\<close>), \<open>Ln_Receive\<close>, \<open>Wallet_Pay\<close> (\<open>send.ts\<close>, \<open>wallet_spend.ts\<close>, \<open>ln_send.ts\<close>), \<open>History\<close>
    (\<open>history.ts\<close>, \<open>offboards.ts\<close>), \<open>Service_State\<close>, \<open>Nostr_Service\<close> (\<open>nostr/service.ts\<close> and its helpers). \<open>Nwc_Safety\<close> proves
    the budget and the single payment in flight over every interleaving, \<open>Landing_Safety\<close> that an incoming row settles on
    evidence, \<open>History_Safety\<close> and \<open>Wallet_Safety\<close> the pages, mirrors and previews, \<open>Nostr_Safety\<close> that only the client of a
    connection is answered, once.
  \<^item> Offers and relays: \<open>Noffer\<close> (\<open>clink/nip19_offer.ts\<close>), \<open>Clink_Offers\<close> (\<open>offers.ts\<close>, \<open>zap.ts\<close>), \<open>Relay_Net\<close>
    (\<open>relay_gate.ts\<close>, \<open>persistent_sub.ts\<close>), \<open>Outbox\<close> (\<open>outbox.ts\<close>, \<open>notifier.ts\<close>, \<open>clink/send.ts\<close>), with a \<open>_Safety\<close> theory each.
  \<^item> The process: \<open>Upkeep\<close> (\<open>auto_refresh.ts\<close>, \<open>boarding_history.ts\<close>, \<open>exit/sync_service.ts\<close>), \<open>Whole_Set\<close> (\<open>indexer.ts\<close>,
    \<open>lib/cache.ts\<close>), \<open>Bridge_Boot\<close> (\<open>server_config.ts\<close>, \<open>account.ts\<close>, POST \<open>/setup\<close> of \<open>web/server.ts\<close>, the boot of \<open>index.ts\<close>).
  \<^item> The operator's page: \<open>Web_Server\<close> and \<open>Web_Routes\<close> (\<open>web/server.ts\<close>): the guards on the Origin and Host headers, the gate on the
    mode of the process, each route over the operations above, the review and the confirmation of a send, and the offboard jobs. A page is
    the data its view renders; \<open>web_world\<close> holds URL parsing, forms and the answers of the wallet; \<open>Hangs\<close> is a request that is
    never answered, \<open>Later\<close> one whose answer comes with a later step. \<open>Web_Safety\<close>: nothing for a foreign page or in the wrong mode, nothing
    by looking, a confirmation executes what was reviewed, and every offboard under way has its row.

  \<^bold>\<open>Ghosts.\<close> Some fields record what the code only does: \<open>calls\<close> the requests that can move money with the row as it stood,
  \<open>e_log\<close> what the engine was told, \<open>sv_out\<close> what was published, \<open>nf_sent\<close>, \<open>ob_changes\<close>, \<open>rf_ends\<close>, \<open>sy_alerts\<close>,
  \<open>sy_started\<close>, \<open>aw_log\<close> and \<open>bo_alerts\<close> what the background jobs did, \<open>wb_told\<close> what an offboard's operator was told. No definition reads them.

  \<^bold>\<open>Bounds.\<close> Polling loops carry the code's own number of rounds: confirmation of a claim, the waits of a send (6, 8 and 20
  polls), the mempool after a broadcast (5), the landing check (4), the fee rounds (10), the drain of dust change (4), the walk over
  coin pages (500), the lists of seen ids (4096 and 2048), relay tags (50), queued messages (64). None of them is a bound of the model.
  Loops without a bound in the code are partial functions (\<open>topo_loop\<close>, \<open>parse_loop\<close>, \<open>drain_up\<close>, \<open>drain_down\<close>): that they return,
  or when not, is proved.

  \<^bold>\<open>Where the modules meet a parameter.\<close> The swap handlers take the signing of \<open>tx.ts\<close> as a field of \<open>world\<close>, and the final send takes
  \<open>dest_verify.ts\<close> as fields of \<open>exit_world\<close>; \<open>wire_world\<close> (\<open>Pair_Sign\<close>) and \<open>wire_dest\<close> (\<open>Dest_Verify\<close>) put the modelled modules there.

  \<^bold>\<open>Not modelled.\<close> The rendering of pages (\<open>web/views\<close>, \<open>web/qr.ts\<close>, \<open>lib/html.ts\<close>) and, in \<open>web/server.ts\<close>, the event
  stream, the probe of a sweep's status, and what the explorer adds to a page for display. Server-sent events and relay badges
  (\<open>lib/sse.ts\<close>, \<open>lib/relay_status.ts\<close>), sockets and fetches (\<open>atomic/boltz_ws.ts\<close>, \<open>atomic/boltz_http.ts\<close>, \<open>nostr/publish.ts\<close>,
  \<open>nostr/ping_ws.ts\<close>), the construction of the SDK's wallet (\<open>wallet.ts\<close>), schema migrations (\<open>db.ts\<close>), command-line scripts: they are
  input, output or calls of packages. Amounts are integers; the code's doubles hold them exactly below two to the 53rd.
\<close>

end
